(* ===== verification/Prelude.thy ===== *)
theory Prelude
  imports Main "HOL-Library.Sublist"
begin

text \<open>
  Vocabulary shared by every component of the operator: Go's error values and pointers, the
  strings functions the code calls, and the computation type in which the reconcilers are
  written.

  A reconciler is sequential Go code that calls remote services and returns early on errors. It
  is modelled as a function from a world \<open>'w\<close> (everything outside the process, of which nothing is
  known) to an outcome, the next world and the list of the calls it made. The outcome is a value,
  an error return or a panic; the call list (the trace) holds each call with the error the
  service answered, if any, in the order of the calls.

  The last part is a small calculus for such computations, used by all components: \<open>triple\<close>
  bundles a condition on every call, a condition on the calls of successful runs and a
  postcondition, with one rule per combinator in the collection \<open>triple_intro\<close>.
\<close>

named_theorems triple_intro \<open>rules that decompose a triple along the program\<close>
named_theorems prim \<open>definitions of the computation primitives, for symbolic execution\<close>

section \<open>Errors and outcomes\<close>

text \<open>
  The dynamic types of the error values the code inspects: a Kubernetes API status error (reason
  and message), the error responses of the two MinIO clients (their \<open>Code\<close> field and message) and
  any other error. A Go \<open>error\<close> that may be nil is a \<open>goerr option\<close>.
\<close>

datatype goerr =
    KubeErr string string
  | MinioResp string string
  | MadminResp string string
  | GoErr string

datatype 'a res = Ok 'a | Err goerr | Panic

type_synonym 'c event = "'c \<times> goerr option"

type_synonym ('w, 'c, 'a) m = "'w \<Rightarrow> 'a res \<times> 'w \<times> 'c event list"

definition errOf :: "goerr + 'a \<Rightarrow> goerr option" where
  "errOf x = (case x of Inl e \<Rightarrow> Some e | Inr _ \<Rightarrow> None)"

lemma errOf_simps [simp]: "errOf (Inl e) = Some e" "errOf (Inr a) = None"
  by (simp_all add: errOf_def)

text \<open>The value of a call that returns a pointer and an error: nil with an error.\<close>

definition valOf :: "goerr + 'a \<Rightarrow> 'a option" where
  "valOf x = (case x of Inl _ \<Rightarrow> None | Inr a \<Rightarrow> Some a)"

lemma valOf_simps [simp]: "valOf (Inl e) = None" "valOf (Inr a) = Some a"
  by (simp_all add: valOf_def)

lemma errOf_eq_None: "errOf x = None \<longleftrightarrow> (\<exists>a. x = Inr a)"
  by (cases x) simp_all

section \<open>Computations\<close>

definition ret :: "'a \<Rightarrow> ('w, 'c, 'a) m" where
  "ret a = (\<lambda>w. (Ok a, w, []))"

definition fail :: "goerr \<Rightarrow> ('w, 'c, 'a) m" where
  "fail e = (\<lambda>w. (Err e, w, []))"

definition panic :: "('w, 'c, 'a) m" where
  "panic = (\<lambda>w. (Panic, w, []))"

text \<open>\<open>x, err := m; if err != nil { return err }; f x\<close>\<close>

definition bindM :: "('w, 'c, 'a) m \<Rightarrow> ('a \<Rightarrow> ('w, 'c, 'b) m) \<Rightarrow> ('w, 'c, 'b) m" where
  "bindM c f = (\<lambda>w. case c w of (x, w1, t1) \<Rightarrow>
     (case x of
        Ok a \<Rightarrow> (case f a w1 of (y, w2, t2) \<Rightarrow> (y, w2, t1 @ t2))
      | Err e \<Rightarrow> (Err e, w1, t1)
      | Panic \<Rightarrow> (Panic, w1, t1)))"

text \<open>\<open>x, err := m\<close> where the code goes on with \<open>err\<close> in hand.\<close>

definition attempt :: "('w, 'c, 'a) m \<Rightarrow> ('w, 'c, goerr + 'a) m" where
  "attempt c = (\<lambda>w. case c w of (x, w1, t1) \<Rightarrow>
     (case x of
        Ok a \<Rightarrow> (Ok (Inr a), w1, t1)
      | Err e \<Rightarrow> (Ok (Inl e), w1, t1)
      | Panic \<Rightarrow> (Panic, w1, t1)))"

text \<open>A call of an outside operation: its answer, and an entry in the trace.\<close>

definition call :: "'c \<Rightarrow> ('w \<Rightarrow> (goerr + 'a) \<times> 'w) \<Rightarrow> ('w, 'c, 'a) m" where
  "call c op = (\<lambda>w. case op w of (x, w1) \<Rightarrow>
     (case x of
        Inl e \<Rightarrow> (Err e, w1, [(c, Some e)])
      | Inr a \<Rightarrow> (Ok a, w1, [(c, None)])))"

text \<open>An outside operation that returns a value and an error side by side.\<close>

definition callPair :: "'c \<Rightarrow> ('w \<Rightarrow> ('a \<times> goerr option) \<times> 'w) \<Rightarrow> ('w, 'c, 'a \<times> goerr option) m" where
  "callPair c op = (\<lambda>w. case op w of ((a, e), w1) \<Rightarrow> (Ok (a, e), w1, [(c, e)]))"

text \<open>A pure function that may return an error; an \<open>if err != nil\<close> check; a pointer read.\<close>

definition liftE :: "goerr + 'a \<Rightarrow> ('w, 'c, 'a) m" where
  "liftE x = (case x of Inl e \<Rightarrow> fail e | Inr a \<Rightarrow> ret a)"

definition checkErr :: "goerr option \<Rightarrow> ('w, 'c, unit) m" where
  "checkErr x = (case x of None \<Rightarrow> ret () | Some e \<Rightarrow> fail e)"

definition deref :: "'a option \<Rightarrow> ('w, 'c, 'a) m" where
  "deref p = (case p of None \<Rightarrow> panic | Some a \<Rightarrow> ret a)"

lemmas prim_defs [prim] = ret_def fail_def panic_def bindM_def attempt_def call_def callPair_def liftE_def
  checkErr_def deref_def

lemma bindM_ret [simp]: "bindM (ret a) f = f a"
  by (simp add: prim)

lemma bindM_fail [simp]: "bindM (fail e) f = fail e"
  by (simp add: prim)

lemma bindM_panic [simp]: "bindM panic f = panic"
  by (simp add: prim)

lemma bindM_ret_right [simp]: "bindM c ret = c"
  by (rule ext) (simp add: prim split: prod.split res.split)

lemma bindM_assoc: "bindM (bindM c f) g = bindM c (\<lambda>a. bindM (f a) g)"
  by (rule ext) (simp add: bindM_def split: prod.split res.split)

lemma checkErr_simps [simp]: "checkErr None = ret ()" "checkErr (Some e) = fail e"
  by (simp_all add: checkErr_def)

lemma deref_simps [simp]: "deref (Some a) = ret a" "deref None = panic"
  by (simp_all add: deref_def)

lemma liftE_simps [simp]: "liftE (Inr a) = ret a" "liftE (Inl e) = fail e"
  by (simp_all add: liftE_def)

text \<open>Projections of a run.\<close>

definition outcome :: "('w, 'c, 'a) m \<Rightarrow> 'w \<Rightarrow> 'a res" where
  "outcome c w = fst (c w)"

definition trace :: "('w, 'c, 'a) m \<Rightarrow> 'w \<Rightarrow> 'c event list" where
  "trace c w = snd (snd (c w))"

lemma outcomeI: "c w = (x, w', t) \<Longrightarrow> outcome c w = x"
  by (simp add: outcome_def)

lemma traceI: "c w = (x, w', t) \<Longrightarrow> trace c w = t"
  by (simp add: trace_def)

text \<open>Stepping a \<open>bindM\<close> whose first part has been executed.\<close>

lemma bindM_Ok: "c w = (Ok a, w1, t1) \<Longrightarrow> f a w1 = (y, w2, t2) \<Longrightarrow>
    bindM c f w = (y, w2, t1 @ t2)"
  by (simp add: bindM_def)

lemma bindM_Err: "c w = (Err e, w1, t1) \<Longrightarrow> bindM c f w = (Err e, w1, t1)"
  by (simp add: bindM_def)

lemma bindM_Panic: "c w = (Panic, w1, t1) \<Longrightarrow> bindM c f w = (Panic, w1, t1)"
  by (simp add: bindM_def)

section \<open>Triples\<close>

text \<open>
  \<open>triple P N Z A c\<close>: in every world, all calls of \<open>c\<close> satisfy \<open>P\<close>; if \<open>c\<close> returns a value, the
  value satisfies \<open>A\<close> and all its calls satisfy \<open>N\<close>; it panics only if \<open>Z\<close>. The world between two
  calls is arbitrary, so a triple holds whatever other clients of the services do meanwhile.
\<close>

definition good ::
  "('c event \<Rightarrow> bool) \<Rightarrow> ('c event \<Rightarrow> bool) \<Rightarrow> bool \<Rightarrow> ('a \<Rightarrow> bool) \<Rightarrow> 'a res \<Rightarrow> 'c event list \<Rightarrow> bool" where
  "good P N Z A x t \<longleftrightarrow> (\<forall>e \<in> set t. P e) \<and>
     (case x of Ok a \<Rightarrow> A a \<and> (\<forall>e \<in> set t. N e) | Err _ \<Rightarrow> True | Panic \<Rightarrow> Z)"

lemma good_simps [simp]:
  "good P N Z A (Ok a) t \<longleftrightarrow> (\<forall>e \<in> set t. P e) \<and> A a \<and> (\<forall>e \<in> set t. N e)"
  "good P N Z A (Err e) t \<longleftrightarrow> (\<forall>e \<in> set t. P e)"
  "good P N Z A Panic t \<longleftrightarrow> (\<forall>e \<in> set t. P e) \<and> Z"
  by (auto simp: good_def)

definition triple ::
  "('c event \<Rightarrow> bool) \<Rightarrow> ('c event \<Rightarrow> bool) \<Rightarrow> bool \<Rightarrow> ('a \<Rightarrow> bool) \<Rightarrow> ('w, 'c, 'a) m \<Rightarrow> bool" where
  "triple P N Z A c \<longleftrightarrow> (\<forall>w x w' t. c w = (x, w', t) \<longrightarrow> good P N Z A x t)"

lemma tripleI: "(\<And>w x w' t. c w = (x, w', t) \<Longrightarrow> good P N Z A x t) \<Longrightarrow> triple P N Z A c"
  by (simp add: triple_def)

lemma tripleD: "triple P N Z A c \<Longrightarrow> c w = (x, w', t) \<Longrightarrow> good P N Z A x t"
  by (simp add: triple_def)

lemma triple_ret [triple_intro]: "A a \<Longrightarrow> triple P N Z A (ret a)"
  by (simp add: triple_def ret_def good_def)

lemma triple_fail [triple_intro]: "triple P N Z A (fail e)"
  by (simp add: triple_def fail_def good_def)

lemma triple_panic: "Z \<Longrightarrow> triple P N Z A panic"
  by (simp add: triple_def panic_def good_def)

lemma triple_bind:
  assumes c: "triple P N Z A c" and f: "\<And>a. A a \<Longrightarrow> triple P N Z B (f a)"
  shows "triple P N Z B (bindM c f)"
proof (rule tripleI)
  fix w y w' t assume run: "bindM c f w = (y, w', t)"
  obtain x w1 t1 where x: "c w = (x, w1, t1)" by (cases "c w")
  note 1 = tripleD [OF c x]
  show "good P N Z B y t"
  proof (cases x)
    case (Ok a)
    obtain y2 w2 t2 where y: "f a w1 = (y2, w2, t2)" by (cases "f a w1")
    have "good P N Z B y2 t2" using 1 Ok by (intro tripleD [OF f y]) simp
    then show ?thesis using 1 Ok run x y by (cases y2) (auto simp: bindM_def)
  qed (use 1 run x in \<open>auto simp: bindM_def\<close>)
qed

lemma triple_weaken:
  assumes "triple P N Z A c" and "\<And>a. A a \<Longrightarrow> B a"
  shows "triple P N Z B c"
proof (rule tripleI)
  fix w x w' t assume "c w = (x, w', t)"
  with assms(1) have "good P N Z A x t" by (rule tripleD)
  then show "good P N Z B x t" using assms(2) by (cases x) auto
qed

lemma triple_call:
  assumes "\<And>e. P (c, Some e)" and "P (c, None)" and "N (c, None)"
    and "\<And>w a w'. op w = (Inr a, w') \<Longrightarrow> A a"
  shows "triple P N Z A (call c op)"
  by (rule tripleI) (use assms in \<open>auto simp: call_def split: prod.splits sum.splits\<close>)

lemma triple_bind_call [triple_intro]:
  assumes "\<And>e. P (c, Some e)" and "P (c, None)" and "N (c, None)"
    and "\<And>a w w'. op w = (Inr a, w') \<Longrightarrow> triple P N Z B (f a)"
  shows "triple P N Z B (bindM (call c op) f)"
  by (rule triple_bind [where A = "\<lambda>a. \<exists>w w'. op w = (Inr a, w')", OF triple_call])
    (use assms in auto)

lemma triple_bind_attempt_call [triple_intro]:
  assumes "\<And>e. P (c, Some e)" and "\<And>e. N (c, Some e)" and "P (c, None)" and "N (c, None)"
    and "\<And>a w w'. op w = (Inr a, w') \<Longrightarrow> triple P N Z B (f (Inr a))"
    and "\<And>e w w'. op w = (Inl e, w') \<Longrightarrow> triple P N Z B (f (Inl e))"
  shows "triple P N Z B (bindM (attempt (call c op)) f)"
proof (rule triple_bind)
  show "triple P N Z (\<lambda>x. \<exists>w w'. op w = (x, w')) (attempt (call c op))"
    by (rule tripleI)
      (use assms(1-4) in \<open>fastforce simp: attempt_def call_def split: prod.splits sum.splits\<close>)
next
  fix x assume "\<exists>w w'. op w = (x, w')"
  then show "triple P N Z B (f x)" using assms(5,6) by (cases x) auto
qed

lemma triple_bind_callPair [triple_intro]:
  assumes "\<And>e. P (c, e)" and "\<And>e. N (c, e)"
    and "\<And>a e w w'. op w = ((a, e), w') \<Longrightarrow> triple P N Z B (f (a, e))"
  shows "triple P N Z B (bindM (callPair c op) f)"
proof (rule triple_bind)
  show "triple P N Z (\<lambda>x. \<exists>w w'. op w = (x, w')) (callPair c op)"
    by (rule tripleI) (use assms(1,2) in \<open>fastforce simp: callPair_def split: prod.splits\<close>)
next
  fix x assume "\<exists>w w'. op w = (x, w')"
  then show "triple P N Z B (f x)" using assms(3) by (cases x) auto
qed

lemma triple_attempt:
  assumes c: "triple P N Z A c" and "\<And>e. P e \<Longrightarrow> N e"
  shows "triple P N Z (\<lambda>x. case x of Inl _ \<Rightarrow> True | Inr a \<Rightarrow> A a) (attempt c)"
proof (rule tripleI)
  fix w y w' t assume run: "attempt c w = (y, w', t)"
  obtain x w1 t1 where x: "c w = (x, w1, t1)" by (cases "c w")
  note 1 = tripleD [OF c x]
  show "good P N Z (\<lambda>x. case x of Inl _ \<Rightarrow> True | Inr a \<Rightarrow> A a) y t"
    using 1 x run assms(2) by (cases x) (auto simp: attempt_def)
qed

lemma triple_attempt_both:
  assumes "triple (\<lambda>e. P e \<and> N e) M Z A c"
  shows "triple P N Z (\<lambda>x. case x of Inl _ \<Rightarrow> True | Inr a \<Rightarrow> A a) (attempt c)"
proof (rule tripleI)
  fix w y w' t assume run: "attempt c w = (y, w', t)"
  obtain x w1 t1 where x: "c w = (x, w1, t1)" by (cases "c w")
  note 1 = tripleD [OF assms x]
  show "good P N Z (\<lambda>x. case x of Inl _ \<Rightarrow> True | Inr a \<Rightarrow> A a) y t"
    using 1 x run by (cases x) (auto simp: attempt_def)
qed

lemma triple_if [triple_intro]:
  "\<lbrakk>b \<Longrightarrow> triple P N Z A c; \<not> b \<Longrightarrow> triple P N Z A d\<rbrakk> \<Longrightarrow> triple P N Z A (if b then c else d)"
  by simp

lemma triple_case_option [triple_intro]:
  "\<lbrakk>x = None \<Longrightarrow> triple P N Z A c; \<And>a. x = Some a \<Longrightarrow> triple P N Z A (d a)\<rbrakk>
    \<Longrightarrow> triple P N Z A (case x of None \<Rightarrow> c | Some a \<Rightarrow> d a)"
  by (cases x) simp_all

lemma triple_case_sum [triple_intro]:
  "\<lbrakk>\<And>e. x = Inl e \<Longrightarrow> triple P N Z A (c e); \<And>a. x = Inr a \<Longrightarrow> triple P N Z A (d a)\<rbrakk>
    \<Longrightarrow> triple P N Z A (case x of Inl e \<Rightarrow> c e | Inr a \<Rightarrow> d a)"
  by (cases x) simp_all

lemma triple_let [triple_intro]:
  "triple P N Z A (f x) \<Longrightarrow> triple P N Z A (let y = x in f y)"
  by simp

lemma triple_bind_liftE [triple_intro]:
  "(\<And>a. x = Inr a \<Longrightarrow> triple P N Z B (f a)) \<Longrightarrow> triple P N Z B (bindM (liftE x) f)"
  by (cases x) (simp_all add: liftE_def triple_fail)

lemma triple_bind_checkErr [triple_intro]:
  "(x = None \<Longrightarrow> triple P N Z B (f ())) \<Longrightarrow> triple P N Z B (bindM (checkErr x) f)"
  by (cases x) (simp_all add: triple_fail)

lemma triple_bind_if [triple_intro]:
  "\<lbrakk>b \<Longrightarrow> triple P N Z A (bindM c f); \<not> b \<Longrightarrow> triple P N Z A (bindM d f)\<rbrakk>
    \<Longrightarrow> triple P N Z A (bindM (if b then c else d) f)"
  by simp

lemma triple_bind_case_option [triple_intro]:
  "\<lbrakk>x = None \<Longrightarrow> triple P N Z A (bindM c f); \<And>a. x = Some a \<Longrightarrow> triple P N Z A (bindM (d a) f)\<rbrakk>
    \<Longrightarrow> triple P N Z A (bindM (case x of None \<Rightarrow> c | Some a \<Rightarrow> d a) f)"
  by (cases x) simp_all

lemma triple_bind_case_sum [triple_intro]:
  "\<lbrakk>\<And>e. x = Inl e \<Longrightarrow> triple P N Z A (bindM (c e) f);
    \<And>a. x = Inr a \<Longrightarrow> triple P N Z A (bindM (d a) f)\<rbrakk>
    \<Longrightarrow> triple P N Z A (bindM (case x of Inl e \<Rightarrow> c e | Inr a \<Rightarrow> d a) f)"
  by (cases x) simp_all

lemma triple_bind_fail [triple_intro]: "triple P N Z A (bindM (fail e) f)"
  by (simp add: triple_fail)

lemma triple_bind_ret [triple_intro]: "triple P N Z A (f a) \<Longrightarrow> triple P N Z A (bindM (ret a) f)"
  by simp

lemma triple_bind_bind [triple_intro]:
  "triple P N Z A (bindM c (\<lambda>a. bindM (f a) g)) \<Longrightarrow> triple P N Z A (bindM (bindM c f) g)"
  by (simp add: bindM_assoc)

lemma triple_bind_deref [triple_intro]:
  "\<lbrakk>p = None \<Longrightarrow> Z; \<And>a. p = Some a \<Longrightarrow> triple P N Z B (f a)\<rbrakk>
    \<Longrightarrow> triple P N Z B (bindM (deref p) f)"
  by (cases p) (simp_all add: triple_panic)

lemma triple_liftE [triple_intro]:
  "(\<And>a. x = Inr a \<Longrightarrow> A a) \<Longrightarrow> triple P N Z A (liftE x)"
  by (cases x) (simp_all add: liftE_def triple_fail triple_ret)

lemma triple_checkErr [triple_intro]:
  "(x = None \<Longrightarrow> A ()) \<Longrightarrow> triple P N Z A (checkErr x)"
  by (cases x) (simp_all add: triple_fail triple_ret)

text \<open>Reading a triple off a run.\<close>

lemma good_run: "triple P N Z A c \<Longrightarrow> good P N Z A (outcome c w) (trace c w)"
  by (cases "c w") (simp add: outcome_def trace_def tripleD)

lemma triple_trace: "triple P N Z A c \<Longrightarrow> e \<in> set (trace c w) \<Longrightarrow> P e"
  by (drule good_run [where w = w]) (cases "outcome c w"; simp)

lemma triple_ok_trace:
  "triple P N Z A c \<Longrightarrow> outcome c w = Ok a \<Longrightarrow> e \<in> set (trace c w) \<Longrightarrow> N e"
  by (drule good_run [where w = w]) simp

lemma triple_post: "triple P N Z A c \<Longrightarrow> outcome c w = Ok a \<Longrightarrow> A a"
  by (drule good_run [where w = w]) simp

lemma triple_no_panic: "triple P N False A c \<Longrightarrow> outcome c w \<noteq> Panic"
  by (drule good_run [where w = w]) (cases "outcome c w"; simp)

section \<open>Order of calls\<close>

text \<open>
  \<open>guardedBy P Q seen t\<close>: in the trace \<open>t\<close> no \<open>Q\<close> event comes before the first \<open>P\<close> event (none at all
  is needed once \<open>seen\<close>). \<open>ordered\<close> lifts it to all runs of a computation, and \<open>ordered_intro\<close> holds
  a rule per combinator, as for triples.
\<close>

fun guardedBy :: "('e \<Rightarrow> bool) \<Rightarrow> ('e \<Rightarrow> bool) \<Rightarrow> bool \<Rightarrow> 'e list \<Rightarrow> bool" where
  "guardedBy P Q seen [] = True"
| "guardedBy P Q seen (e # t) = ((Q e \<longrightarrow> seen) \<and> guardedBy P Q (seen \<or> P e) t)"

abbreviation precededBy :: "('e \<Rightarrow> bool) \<Rightarrow> ('e \<Rightarrow> bool) \<Rightarrow> 'e list \<Rightarrow> bool" where
  "precededBy P Q t \<equiv> guardedBy P Q False t"

named_theorems ordered_intro \<open>rules that decompose \<open>ordered\<close> along the program\<close>

lemma guardedBy_append:
  "guardedBy P Q s (t @ u) \<longleftrightarrow> guardedBy P Q s t \<and> guardedBy P Q (s \<or> (\<exists>e \<in> set t. P e)) u"
  by (induction t arbitrary: s) (auto simp: disj_assoc)

lemma guardedByI:
  "(\<And>pre e post. t = pre @ e # post \<Longrightarrow> Q e \<Longrightarrow> s \<or> (\<exists>p \<in> set pre. P p)) \<Longrightarrow> guardedBy P Q s t"
proof (induction t arbitrary: s)
  case (Cons a t)
  have "Q a \<longrightarrow> s" using Cons.prems [of "[]" a t] by auto
  moreover have "guardedBy P Q (s \<or> P a) t"
  proof (rule Cons.IH)
    fix pre e post assume "t = pre @ e # post" "Q e"
    then show "(s \<or> P a) \<or> (\<exists>p \<in> set pre. P p)"
      using Cons.prems [of "a # pre" e post] by auto
  qed
  ultimately show ?case by simp
qed simp

lemma guardedBy_iff:
  "guardedBy P Q s t \<longleftrightarrow>
     (\<forall>pre e post. t = pre @ e # post \<longrightarrow> Q e \<longrightarrow> s \<or> (\<exists>p \<in> set pre. P p))"
  by (auto simp: guardedBy_append intro!: guardedByI)

lemma guardedBy_mono: "guardedBy P Q s t \<Longrightarrow> (s \<Longrightarrow> s') \<Longrightarrow> guardedBy P Q s' t"
  unfolding guardedBy_iff by blast

lemma guardedBy_none: "\<forall>e \<in> set t. \<not> Q e \<Longrightarrow> guardedBy P Q s t"
  by (induction t arbitrary: s) auto

lemma guardedBy_seen [simp]: "guardedBy P Q True t"
  by (induction t) auto

definition ordered ::
  "('c event \<Rightarrow> bool) \<Rightarrow> ('c event \<Rightarrow> bool) \<Rightarrow> bool \<Rightarrow> ('w, 'c, 'a) m \<Rightarrow> bool" where
  "ordered P Q s c \<longleftrightarrow> (\<forall>w. guardedBy P Q s (trace c w))"

lemma ordered_seen [ordered_intro, simp]: "ordered P Q True c"
  by (simp add: ordered_def)

lemma ordered_ret [ordered_intro]: "ordered P Q s (ret a)"
  by (simp add: ordered_def trace_def ret_def)

lemma ordered_fail [ordered_intro]: "ordered P Q s (fail e)"
  by (simp add: ordered_def trace_def fail_def)

lemma ordered_panic [ordered_intro]: "ordered P Q s panic"
  by (simp add: ordered_def trace_def panic_def)

lemma ordered_quiet: "triple (\<lambda>e. \<not> Q e) N Z A c \<Longrightarrow> ordered P Q s c"
  unfolding ordered_def by (auto intro!: guardedBy_none dest: triple_trace)

lemma ordered_bind:
  assumes "ordered P Q s c"
    and "\<And>w a w' t. c w = (Ok a, w', t) \<Longrightarrow> ordered P Q (s \<or> (\<exists>e \<in> set t. P e)) (f a)"
  shows "ordered P Q s (bindM c f)"
  unfolding ordered_def
proof
  fix w
  obtain x w1 t1 where c: "c w = (x, w1, t1)" by (cases "c w")
  have t1: "guardedBy P Q s t1" using assms(1) c unfolding ordered_def trace_def by (metis snd_conv)
  show "guardedBy P Q s (trace (bindM c f) w)"
  proof (cases x)
    case (Ok a)
    have "guardedBy P Q (s \<or> (\<exists>e \<in> set t1. P e)) (trace (f a) w1)"
      using assms(2) c Ok unfolding ordered_def by blast
    then show ?thesis
      using t1 c Ok by (auto simp: bindM_def trace_def guardedBy_append split: prod.split)
  qed (use t1 c in \<open>auto simp: bindM_def trace_def\<close>)
qed

lemma ordered_mono: "ordered P Q s c \<Longrightarrow> (s \<Longrightarrow> s') \<Longrightarrow> ordered P Q s' c"
  unfolding ordered_def by (blast intro: guardedBy_mono)

lemma ordered_bind_quiet:
  assumes "triple (\<lambda>e. \<not> Q e) N Z A c" and "\<And>a. A a \<Longrightarrow> ordered P Q s (f a)"
  shows "ordered P Q s (bindM c f)"
proof (rule ordered_bind [OF ordered_quiet [OF assms(1)]])
  fix w a w' t assume "c w = (Ok a, w', t)"
  then have "A a" using assms(1) by (auto dest: tripleD)
  from assms(2) [OF this] show "ordered P Q (s \<or> (\<exists>e \<in> set t. P e)) (f a)"
    by (rule ordered_mono) simp
qed

text \<open>The same two steps from one given world, where the answer of the first call is known.\<close>

lemma guardedBy_bind:
  assumes "guardedBy P Q s (trace c w)"
    and "\<And>a w' t. c w = (Ok a, w', t) \<Longrightarrow> ordered P Q s (f a)"
  shows "guardedBy P Q s (trace (bindM c f) w)"
proof -
  obtain x w1 t1 where c: "c w = (x, w1, t1)" by (cases "c w")
  have t1: "guardedBy P Q s t1" using assms(1) c by (simp add: trace_def)
  show ?thesis
  proof (cases x)
    case (Ok a)
    have "guardedBy P Q s (trace (f a) w1)"
      using assms(2) c Ok unfolding ordered_def by blast
    then have "guardedBy P Q (s \<or> (\<exists>e \<in> set t1. P e)) (trace (f a) w1)"
      by (rule guardedBy_mono) simp
    then show ?thesis
      using t1 c Ok by (auto simp: bindM_def trace_def guardedBy_append split: prod.split)
  qed (use t1 c in \<open>auto simp: bindM_def trace_def\<close>)
qed

lemma guardedBy_first_call:
  assumes "\<And>e. Q (c, e) \<Longrightarrow> s"
    and "\<And>a w'. op w = (Inr a, w') \<Longrightarrow> ordered P Q (s \<or> P (c, None)) (f (Inr a))"
    and "\<And>e w'. op w = (Inl e, w') \<Longrightarrow> ordered P Q (s \<or> P (c, Some e)) (f (Inl e))"
  shows "guardedBy P Q s (trace (bindM (attempt (call c op)) f) w)"
proof -
  obtain x w1 where op: "op w = (x, w1)" by (cases "op w")
  have "ordered P Q (s \<or> P (c, errOf x)) (f x)" using assms(2,3) op by (cases x) simp_all
  then have "guardedBy P Q (s \<or> P (c, errOf x)) (trace (f x) w1)" by (simp add: ordered_def)
  then show ?thesis
    using assms(1) op
    by (cases x) (auto simp: bindM_def attempt_def call_def trace_def split: prod.split)
qed

lemma triple_first_call:
  assumes "bindM (attempt (call c op)) f w = (Ok b, w', t)"
    and "\<And>a w'. op w = (Inr a, w') \<Longrightarrow> triple P N Z A (f (Inr a))"
    and "\<And>e w'. op w = (Inl e, w') \<Longrightarrow> triple P N Z A (f (Inl e))"
  shows "A b"
proof -
  obtain x w1 where op: "op w = (x, w1)" by (cases "op w")
  obtain y w2 t2 where run: "f x w1 = (y, w2, t2)" by (cases "f x w1")
  have "triple P N Z A (f x)" using assms(2,3) op by (cases x) simp_all
  from tripleD [OF this run] have "good P N Z A y t2" .
  moreover have "y = Ok b"
    using assms(1) op run by (cases x) (auto simp: bindM_def attempt_def call_def)
  ultimately show ?thesis by simp
qed

lemma ordered_call [ordered_intro]:
  "(\<And>e. Q (c, e) \<Longrightarrow> s) \<Longrightarrow> ordered P Q s (call c op)"
  unfolding ordered_def trace_def call_def by (auto split: prod.split sum.split)

lemma ordered_bind_call [ordered_intro]:
  assumes "\<And>e. Q (c, e) \<Longrightarrow> s"
    and "\<And>a w w'. op w = (Inr a, w') \<Longrightarrow> ordered P Q (s \<or> P (c, None)) (f a)"
  shows "ordered P Q s (bindM (call c op) f)"
proof (rule ordered_bind)
  show "ordered P Q s (call c op)" by (rule ordered_call) (rule assms(1))
next
  fix w a w' t assume "call c op w = (Ok a, w', t)"
  then have "op w = (Inr a, w')" "t = [(c, None)]"
    by (auto simp: call_def split: prod.splits sum.splits)
  with assms(2) show "ordered P Q (s \<or> (\<exists>e \<in> set t. P e)) (f a)" by simp
qed

lemma ordered_bind_attempt_call [ordered_intro]:
  assumes "\<And>e. Q (c, e) \<Longrightarrow> s"
    and "\<And>a w w'. op w = (Inr a, w') \<Longrightarrow> ordered P Q (s \<or> P (c, None)) (f (Inr a))"
    and "\<And>e w w'. op w = (Inl e, w') \<Longrightarrow> ordered P Q (s \<or> P (c, Some e)) (f (Inl e))"
  shows "ordered P Q s (bindM (attempt (call c op)) f)"
proof (rule ordered_bind)
  show "ordered P Q s (attempt (call c op))"
    unfolding ordered_def trace_def attempt_def call_def
    by (auto split: prod.split sum.split dest: assms(1))
next
  fix w x w' t assume "attempt (call c op) w = (Ok x, w', t)"
  then have "op w = (x, w')" "t = [(c, errOf x)]"
    by (auto simp: attempt_def call_def split: prod.splits sum.splits)
  with assms(2,3) show "ordered P Q (s \<or> (\<exists>e \<in> set t. P e)) (f x)" by (cases x) simp_all
qed

lemma ordered_if [ordered_intro]:
  "\<lbrakk>b \<Longrightarrow> ordered P Q s c; \<not> b \<Longrightarrow> ordered P Q s d\<rbrakk> \<Longrightarrow> ordered P Q s (if b then c else d)"
  by simp

lemma ordered_case_option [ordered_intro]:
  "\<lbrakk>x = None \<Longrightarrow> ordered P Q s c; \<And>a. x = Some a \<Longrightarrow> ordered P Q s (d a)\<rbrakk>
    \<Longrightarrow> ordered P Q s (case x of None \<Rightarrow> c | Some a \<Rightarrow> d a)"
  by (cases x) simp_all

lemma ordered_case_sum [ordered_intro]:
  "\<lbrakk>\<And>e. x = Inl e \<Longrightarrow> ordered P Q s (c e); \<And>a. x = Inr a \<Longrightarrow> ordered P Q s (d a)\<rbrakk>
    \<Longrightarrow> ordered P Q s (case x of Inl e \<Rightarrow> c e | Inr a \<Rightarrow> d a)"
  by (cases x) simp_all

lemma ordered_bind_if [ordered_intro]:
  "\<lbrakk>b \<Longrightarrow> ordered P Q s (bindM c f); \<not> b \<Longrightarrow> ordered P Q s (bindM d f)\<rbrakk>
    \<Longrightarrow> ordered P Q s (bindM (if b then c else d) f)"
  by simp

lemma ordered_bind_case_option [ordered_intro]:
  "\<lbrakk>x = None \<Longrightarrow> ordered P Q s (bindM c f); \<And>a. x = Some a \<Longrightarrow> ordered P Q s (bindM (d a) f)\<rbrakk>
    \<Longrightarrow> ordered P Q s (bindM (case x of None \<Rightarrow> c | Some a \<Rightarrow> d a) f)"
  by (cases x) simp_all

lemma ordered_bind_ret [ordered_intro]: "ordered P Q s (f a) \<Longrightarrow> ordered P Q s (bindM (ret a) f)"
  by simp

lemma ordered_bind_fail [ordered_intro]: "ordered P Q s (bindM (fail e) f)"
  by (simp add: ordered_fail)

lemma ordered_bind_bind [ordered_intro]:
  "ordered P Q s (bindM c (\<lambda>a. bindM (f a) g)) \<Longrightarrow> ordered P Q s (bindM (bindM c f) g)"
  by (simp add: bindM_assoc)

lemma ordered_bind_checkErr [ordered_intro]:
  "(x = None \<Longrightarrow> ordered P Q s (f ())) \<Longrightarrow> ordered P Q s (bindM (checkErr x) f)"
  by (cases x) (simp_all add: ordered_fail)

lemma ordered_checkErr [ordered_intro]: "ordered P Q s (checkErr x)"
  by (cases x) (simp_all add: ordered_fail ordered_ret)

lemma ordered_bind_liftE [ordered_intro]:
  "(\<And>a. x = Inr a \<Longrightarrow> ordered P Q s (f a)) \<Longrightarrow> ordered P Q s (bindM (liftE x) f)"
  by (cases x) (simp_all add: ordered_fail)

lemma ordered_bind_deref [ordered_intro]:
  "(\<And>a. p = Some a \<Longrightarrow> ordered P Q s (f a)) \<Longrightarrow> ordered P Q s (bindM (deref p) f)"
  by (cases p) (simp_all add: ordered_panic)

section \<open>Calls that a successful run has made\<close>

definition achieves :: "('c event \<Rightarrow> bool) \<Rightarrow> ('w, 'c, 'a) m \<Rightarrow> bool" where
  "achieves P c \<longleftrightarrow> (\<forall>w a w' t. c w = (Ok a, w', t) \<longrightarrow> (\<exists>e \<in> set t. P e))"

lemma achieves_bind_right: "(\<And>a. achieves P (f a)) \<Longrightarrow> achieves P (bindM c f)"
  unfolding achieves_def bindM_def
  by (fastforce split: prod.splits res.splits)

lemma achieves_bind_left: "achieves P c \<Longrightarrow> achieves P (bindM c f)"
  unfolding achieves_def bindM_def
  by (fastforce split: prod.splits res.splits)

lemma achieves_call: "P (c, None) \<Longrightarrow> achieves P (call c op)"
  unfolding achieves_def call_def by (auto split: prod.splits sum.splits)

lemma achieves_checkErr: "x \<noteq> None \<Longrightarrow> achieves P (checkErr x)"
  by (auto simp: achieves_def checkErr_def fail_def)

lemma achieves_fail: "achieves P (fail e)"
  by (simp add: achieves_def fail_def)

lemma achievesD: "achieves P c \<Longrightarrow> outcome c w = Ok a \<Longrightarrow> \<exists>e \<in> set (trace c w). P e"
  unfolding achieves_def outcome_def trace_def by (cases "c w") auto

lemma achieves_attempt_call:
  assumes "\<And>x. P (c, errOf x) \<or> achieves P (f x)"
  shows "achieves P (bindM (attempt (call c op)) f)"
  unfolding achieves_def
proof (intro allI impI)
  fix w a w' t assume run: "bindM (attempt (call c op)) f w = (Ok a, w', t)"
  obtain x w1 where op: "op w = (x, w1)" by (cases "op w")
  then have att: "attempt (call c op) w = (Ok x, w1, [(c, errOf x)])"
    by (cases x) (simp_all add: attempt_def call_def)
  obtain y w2 t2 where f: "f x w1 = (y, w2, t2)" by (cases "f x w1")
  from att f run have "y = Ok a" "t = (c, errOf x) # t2" by (auto simp: bindM_def)
  with assms [of x] f show "\<exists>e \<in> set t. P e" unfolding achieves_def by auto
qed

lemma ordered_bind_attempt:
  assumes "ordered P Q s c" and "achieves P c" and "\<And>e. ordered P Q s (f (Inl e))"
  shows "ordered P Q s (bindM (attempt c) f)"
proof (rule ordered_bind)
  have "trace (attempt c) w = trace c w" for w
    by (auto simp: trace_def attempt_def split: prod.split res.split)
  then show "ordered P Q s (attempt c)" using assms(1) by (simp add: ordered_def)
next
  fix w x w' t assume run: "attempt c w = (Ok x, w', t)"
  show "ordered P Q (s \<or> (\<exists>e \<in> set t. P e)) (f x)"
  proof (cases x)
    case (Inl e)
    from ordered_mono [OF assms(3) [of e]] show ?thesis unfolding Inl by simp
  next
    case (Inr a)
    then have "c w = (Ok a, w', t)"
      using run by (auto simp: attempt_def split: prod.splits res.splits)
    then have "\<exists>e \<in> set t. P e" using assms(2) unfolding achieves_def by blast
    then show ?thesis by simp
  qed
qed

section \<open>Calls of successful runs\<close>

text \<open>\<open>yields c R\<close>: a successful run of \<open>c\<close> returns a value and makes a list of calls related by \<open>R\<close>.\<close>

definition yields :: "('w, 'c, 'a) m \<Rightarrow> ('a \<Rightarrow> 'c list \<Rightarrow> bool) \<Rightarrow> bool" where
  "yields c R \<longleftrightarrow> (\<forall>w a w' t. c w = (Ok a, w', t) \<longrightarrow> R a (map fst t))"

lemma yieldsD: "yields c R \<Longrightarrow> outcome c w = Ok a \<Longrightarrow> R a (map fst (trace c w))"
  unfolding yields_def outcome_def trace_def by (cases "c w") auto

lemma yields_ret: "yields (ret a) (\<lambda>b t. b = a \<and> t = [])"
  by (simp add: yields_def ret_def)

lemma yields_call: "yields (call c op) (\<lambda>_ t. t = [c])"
  by (auto simp: yields_def call_def split: prod.splits sum.splits)

lemma yields_bind:
  assumes "yields c R" and "\<And>a. yields (f a) (S a)"
  shows "yields (bindM c f) (\<lambda>b t. \<exists>a t1 t2. t = t1 @ t2 \<and> R a t1 \<and> S a b t2)"
  unfolding yields_def
proof (intro allI impI)
  fix w b w' t assume run: "bindM c f w = (Ok b, w', t)"
  obtain x w1 t1 where c: "c w = (x, w1, t1)" by (cases "c w")
  with run obtain a t2 where a: "x = Ok a" "f a w1 = (Ok b, w', t2)" "t = t1 @ t2"
    by (cases x) (auto simp: bindM_def split: prod.splits)
  then have "R a (map fst t1)" "S a b (map fst t2)"
    using c assms unfolding yields_def by blast+
  then show "\<exists>a t1 t2. map fst t = t1 @ t2 \<and> R a t1 \<and> S a b t2"
    using a(3) by (intro exI [where x = a] exI [where x = "map fst t1"] exI [where x = "map fst t2"]) simp
qed

lemma yields_weaken: "yields c R \<Longrightarrow> (\<And>a t. R a t \<Longrightarrow> S a t) \<Longrightarrow> yields c S"
  unfolding yields_def by blast

section \<open>Computations that never fail\<close>

definition neverFails :: "('w, 'c, 'a) m \<Rightarrow> bool" where
  "neverFails c \<longleftrightarrow> (\<forall>w. \<exists>a. outcome c w = Ok a)"

named_theorems never_fails_intro \<open>rules that decompose \<open>neverFails\<close> along the program\<close>

lemma neverFails_ret [never_fails_intro]: "neverFails (ret a)"
  by (simp add: neverFails_def outcome_def ret_def)

lemma neverFails_attempt_call [never_fails_intro]: "neverFails (attempt (call c op))"
  unfolding neverFails_def outcome_def attempt_def call_def
  by (auto split: prod.split sum.split)

lemma neverFails_bind [never_fails_intro]:
  assumes "neverFails c" and "\<And>a. neverFails (f a)"
  shows "neverFails (bindM c f)"
  unfolding neverFails_def
proof
  fix w
  obtain x w1 t1 where c: "c w = (x, w1, t1)" by (cases "c w")
  then obtain a where "x = Ok a"
    using assms(1) unfolding neverFails_def outcome_def by (metis fst_conv)
  moreover obtain b where "outcome (f a) w1 = Ok b"
    using assms(2) unfolding neverFails_def by blast
  ultimately show "\<exists>a. outcome (bindM c f) w = Ok a"
    using c by (cases "f a w1") (auto simp: bindM_def outcome_def)
qed

lemma neverFails_if [never_fails_intro]:
  "neverFails c \<Longrightarrow> neverFails d \<Longrightarrow> neverFails (if b then c else d)"
  by simp

lemma neverFails_case_sum [never_fails_intro]:
  "\<lbrakk>\<And>e. neverFails (c e); \<And>a. neverFails (d a)\<rbrakk>
    \<Longrightarrow> neverFails (case x of Inl e \<Rightarrow> c e | Inr a \<Rightarrow> d a)"
  by (cases x) simp_all

section \<open>Runs from a given world\<close>

text \<open>
  Total correctness: from the world \<open>w\<close> the computation returns a value (\<open>okRun\<close>) or an error
  (\<open>errRun\<close>), with the value or error and the final world in a relation.
\<close>

definition okRun :: "('w, 'c, 'a) m \<Rightarrow> 'w \<Rightarrow> ('a \<Rightarrow> 'w \<Rightarrow> bool) \<Rightarrow> bool" where
  "okRun c w R \<longleftrightarrow> (\<exists>a w' t. c w = (Ok a, w', t) \<and> R a w')"

definition errRun :: "('w, 'c, 'a) m \<Rightarrow> 'w \<Rightarrow> (goerr \<Rightarrow> 'w \<Rightarrow> bool) \<Rightarrow> bool" where
  "errRun c w R \<longleftrightarrow> (\<exists>e w' t. c w = (Err e, w', t) \<and> R e w')"

named_theorems run_intro \<open>rules that decompose \<open>okRun\<close> and \<open>errRun\<close> along the program\<close>

lemma okRun_ret [run_intro]: "R a w \<Longrightarrow> okRun (ret a) w R"
  by (simp add: okRun_def ret_def)

lemma okRun_bind:
  assumes "okRun c w R" and "\<And>a w1. R a w1 \<Longrightarrow> okRun (f a) w1 S"
  shows "okRun (bindM c f) w S"
proof -
  obtain a w1 t1 where c: "c w = (Ok a, w1, t1)" "R a w1" using assms(1) by (auto simp: okRun_def)
  obtain b w2 t2 where "f a w1 = (Ok b, w2, t2)" "S b w2"
    using assms(2) [OF c(2)] by (auto simp: okRun_def)
  with c(1) show ?thesis by (simp add: okRun_def bindM_def)
qed

lemma errRun_bind:
  assumes "okRun c w R" and "\<And>a w1. R a w1 \<Longrightarrow> errRun (f a) w1 S"
  shows "errRun (bindM c f) w S"
proof -
  obtain a w1 t1 where c: "c w = (Ok a, w1, t1)" "R a w1" using assms(1) by (auto simp: okRun_def)
  obtain e w2 t2 where "f a w1 = (Err e, w2, t2)" "S e w2"
    using assms(2) [OF c(2)] by (auto simp: errRun_def)
  with c(1) show ?thesis by (simp add: errRun_def bindM_def)
qed

lemma errRun_bind_left: "errRun c w S \<Longrightarrow> errRun (bindM c f) w S"
  by (auto simp: errRun_def bindM_def)

lemma errRun_fail [run_intro]: "R e w \<Longrightarrow> errRun (fail e) w R"
  by (simp add: errRun_def fail_def)

lemma okRun_weaken: "okRun c w R \<Longrightarrow> (\<And>a w'. R a w' \<Longrightarrow> S a w') \<Longrightarrow> okRun c w S"
  by (auto simp: okRun_def)

lemma okRun_call: "op w = (Inr a, w') \<Longrightarrow> R a w' \<Longrightarrow> okRun (call c op) w R"
  by (simp add: okRun_def call_def)

lemma okRun_attempt_Ok: "okRun c w (\<lambda>a. R (Inr a)) \<Longrightarrow> okRun (attempt c) w R"
  by (auto simp: okRun_def attempt_def)

lemma okRun_attempt_Err: "errRun c w (\<lambda>e. R (Inl e)) \<Longrightarrow> okRun (attempt c) w R"
  by (auto simp: okRun_def errRun_def attempt_def)

lemma errRun_call: "op w = (Inl e, w') \<Longrightarrow> R e w' \<Longrightarrow> errRun (call c op) w R"
  by (simp add: errRun_def call_def)

lemma okRun_attempt_call: "op w = (x, w') \<Longrightarrow> R x w' \<Longrightarrow> okRun (attempt (call c op)) w R"
  by (cases x) (simp_all add: okRun_def attempt_def call_def)

text \<open>\<open>answers (op w) R\<close>: the answer of an outside operation and the world after it are related.\<close>

definition answers :: "(goerr + 'a) \<times> 'w \<Rightarrow> (goerr + 'a \<Rightarrow> 'w \<Rightarrow> bool) \<Rightarrow> bool" where
  "answers p R \<longleftrightarrow> R (fst p) (snd p)"

lemma okRun_attempt_answers: "answers (op w) R \<Longrightarrow> okRun (attempt (call c op)) w R"
  by (cases "op w") (auto simp: answers_def intro: okRun_attempt_call)

lemma okRun_answers: "answers (op w) (\<lambda>x w'. \<exists>a. x = Inr a \<and> R a w') \<Longrightarrow> okRun (call c op) w R"
  by (cases "op w") (auto simp: answers_def intro: okRun_call)

lemma errRun_answers: "answers (op w) (\<lambda>x w'. \<exists>e. x = Inl e \<and> R e w') \<Longrightarrow> errRun (call c op) w R"
  by (cases "op w") (auto simp: answers_def intro: errRun_call)

lemma errRun_weaken: "errRun c w R \<Longrightarrow> (\<And>e w'. R e w' \<Longrightarrow> S e w') \<Longrightarrow> errRun c w S"
  by (auto simp: errRun_def)

lemma okRun_world: "okRun c w R \<Longrightarrow> \<exists>a. R a (fst (snd (c w)))"
  by (auto simp: okRun_def)

lemma errRun_world: "errRun c w R \<Longrightarrow> \<exists>e. R e (fst (snd (c w)))"
  by (auto simp: errRun_def)

section \<open>Strings\<close>

text \<open>Go strings and byte slices are sequences of bytes: \<open>string\<close>, a list of \<open>char\<close>.\<close>

definition hasPrefix :: "string \<Rightarrow> string \<Rightarrow> bool" where
  "hasPrefix s p = (take (length p) s = p)"

fun stringsContains :: "string \<Rightarrow> string \<Rightarrow> bool" where
  "stringsContains [] p = (p = [])"
| "stringsContains (c # s) p = (hasPrefix (c # s) p \<or> stringsContains s p)"

lemma stringsContains_iff: "stringsContains s p \<longleftrightarrow> (\<exists>u v. s = u @ p @ v)"
proof (induction s)
  case Nil
  show ?case by simp
next
  case (Cons c s)
  have "hasPrefix (c # s) p \<longleftrightarrow> (\<exists>v. c # s = p @ v)"
    unfolding hasPrefix_def by (metis append_eq_conv_conj append_take_drop_id)
  then show ?case using Cons by (auto simp: Cons_eq_append_conv)
qed

fun joinStrings :: "string \<Rightarrow> string list \<Rightarrow> string" where
  "joinStrings sep [] = []"
| "joinStrings sep [x] = x"
| "joinStrings sep (x # y # ys) = x @ sep @ joinStrings sep (y # ys)"

fun decimalNat :: "nat \<Rightarrow> string" where
  "decimalNat n = (if n < 10 then [char_of (48 + n)]
     else decimalNat (n div 10) @ [char_of (48 + n mod 10)])"

declare decimalNat.simps [simp del]

definition decimal :: "int \<Rightarrow> string" where
  "decimal i = (if i < 0 then ''-'' @ decimalNat (nat (- i)) else decimalNat (nat i))"

section \<open>Slices\<close>

text \<open>
  A Go slice is nil or holds elements; \<open>reflect.DeepEqual\<close> and \<open>encoding/json\<close> distinguish nil from
  empty, ranging over it does not.
\<close>

datatype 'a slice = NilSlice | Slice "'a list"

fun elems :: "'a slice \<Rightarrow> 'a list" where
  "elems NilSlice = []"
| "elems (Slice xs) = xs"

end
