(* ===== verification/Api_Types.thy ===== *)
theory Api_Types
  imports Prelude
begin

text \<open>
  The data of the operator: the seven custom resources of \<open>pkg/api/bfiola.dev/v1\<close>, field by field,
  and the fields that the operator reads or writes of the Kubernetes and MinIO-operator types it
  works on. A Go pointer \<open>*T\<close> is a \<open>T option\<close>, a slice a \<open>slice\<close>, a Go map a HOL map. Field names
  carry a prefix for their struct, since HOL field selectors share one name space. The \<open>XMLName\<close>
  fields of the bucket types are left out: they are excluded from JSON (\<open>json:"-"\<close>), so they are
  empty in every value the reconciler compares.
\<close>

section \<open>Kubernetes metadata\<close>

record NamespacedName =
  nn_Namespace :: string
  nn_Name :: string

text \<open>
  \<open>time.Time\<close>: seconds and nanoseconds since year 1 and the location pointer, which
  \<open>reflect.DeepEqual\<close> compares too; \<open>metav1.Time\<close> wraps it.
\<close>

datatype timeloc = LocUTC | LocLocal | LocFixed string int

record gotime =
  t_sec :: int
  t_nsec :: int
  t_loc :: timeloc

definition timeIsZero :: "gotime option \<Rightarrow> bool" where
  "timeIsZero t = (case t of None \<Rightarrow> True | Some x \<Rightarrow> t_sec x = 0 \<and> t_nsec x = 0)"

record TypeMeta =
  tm_Kind :: string
  tm_APIVersion :: string

record ObjectMeta =
  om_Name :: string
  om_Namespace :: string
  om_ResourceVersion :: string
  om_DeletionTimestamp :: "gotime option"
  om_Finalizers :: "string list"

definition emptyMeta :: ObjectMeta where
  "emptyMeta = \<lparr>om_Name = '''', om_Namespace = '''', om_ResourceVersion = '''',
     om_DeletionTimestamp = None, om_Finalizers = []\<rparr>"

record Secret =
  sec_Meta :: ObjectMeta
  sec_Type :: string
  sec_Data :: "string \<rightharpoonup> string"
  sec_StringData :: "string \<rightharpoonup> string"

definition emptySecret :: Secret where
  "emptySecret = \<lparr>sec_Meta = emptyMeta, sec_Type = '''', sec_Data = Map.empty,
     sec_StringData = Map.empty\<rparr>"

text \<open>Reading a missing key of a Go map gives the zero value.\<close>

definition mapGet :: "(string \<rightharpoonup> string) \<Rightarrow> string \<Rightarrow> string" where
  "mapGet d k = (case d k of None \<Rightarrow> '''' | Some v \<Rightarrow> v)"

record ConfigMap =
  cm_Data :: "string \<rightharpoonup> string"

record ServicePort =
  sp_Name :: string
  sp_Port :: int

record Service =
  svc_Meta :: ObjectMeta
  svc_Ports :: "ServicePort list"

record CertRef =
  cr_Name :: string
  cr_Type :: string

record Tenant =
  ten_RequestAutoCert :: "bool option"
  ten_ExternalCertSecret :: "CertRef list"
  ten_ConfigurationName :: "string option"
  ten_ExternalCaCertSecret :: "CertRef list"

section \<open>References (common.go)\<close>

record ResourceRef =
  rr_Name :: string
  rr_Namespace :: string

record ResourceKeyRef =
  rkr_Key :: string
  rkr_Name :: string
  rkr_Namespace :: string

definition ResourceRef_SetDefaultNamespace :: "ResourceRef \<Rightarrow> string \<Rightarrow> ResourceRef" where
  "ResourceRef_SetDefaultNamespace rr ns =
     (let rrns = rr_Namespace rr;
          rrns = (if rrns = '''' then ns else rrns)
      in \<lparr>rr_Name = rr_Name rr, rr_Namespace = rrns\<rparr>)"

definition ResourceKeyRef_SetDefaultNamespace :: "ResourceKeyRef \<Rightarrow> string \<Rightarrow> ResourceKeyRef" where
  "ResourceKeyRef_SetDefaultNamespace rkr ns =
     (let rkrns = rkr_Namespace rkr;
          rkrns = (if rkrns = '''' then ns else rkrns)
      in \<lparr>rkr_Key = rkr_Key rkr, rkr_Name = rkr_Name rkr, rkr_Namespace = rkrns\<rparr>)"

definition emptyKeyRef :: ResourceKeyRef where
  "emptyKeyRef = \<lparr>rkr_Key = '''', rkr_Name = '''', rkr_Namespace = ''''\<rparr>"

section \<open>MinioBucket (miniobucket.go)\<close>

definition MinioBucketDeletionPolicyAlways :: string where
  "MinioBucketDeletionPolicyAlways = ''Always''"

definition MinioBucketDeletionPolicyIfEmpty :: string where
  "MinioBucketDeletionPolicyIfEmpty = ''IfEmpty''"

record MinioBucketVersioningExcludedPrefix =
  vp_Prefix :: string

record MinioBucketVersioningConfiguration =
  vc_Status :: string
  vc_MFADelete :: string
  vc_ExcludedPrefixes :: "MinioBucketVersioningExcludedPrefix slice"
  vc_ExcludeFolders :: bool

record MinioBucketLifecycleAbortIncompleteMultipartUpload =
  la_DaysAfterInitiation :: int

record MinioBucketLifecycleExpiration =
  le_Date :: gotime
  le_Days :: int
  le_DeleteMarker :: bool
  le_DeleteAll :: bool

record MinioBucketLifecycleDelMarkerExpiration =
  ld_Days :: int

record MinioBucketLifecycleTag =
  lt_Key :: string
  lt_Value :: string

record MinioBucketLifecycleAnd =
  lan_Prefix :: string
  lan_Tags :: "MinioBucketLifecycleTag slice"
  lan_ObjectSizeLessThan :: int
  lan_ObjectSizeGreaterThan :: int

record MinioBucketLifecycleFilter =
  lf_And :: MinioBucketLifecycleAnd
  lf_Prefix :: string
  lf_Tag :: MinioBucketLifecycleTag
  lf_ObjectSizeLessThan :: int
  lf_ObjectSizeGreaterThan :: int

record MinioBucketLifecycleNoncurrentVersionExpiration =
  lne_NoncurrentDays :: int
  lne_NewerNoncurrentVersions :: int

record MinioBucketLifecycleNoncurrentVersionTransition =
  lnt_StorageClass :: string
  lnt_NoncurrentDays :: int
  lnt_NewerNoncurrentVersions :: int

record MinioBucketLifecycleTransition =
  ltr_Date :: gotime
  ltr_StorageClass :: string
  ltr_Days :: int

record MinioBucketLifecycleRule =
  lr_AbortIncompleteMultipartUpload :: MinioBucketLifecycleAbortIncompleteMultipartUpload
  lr_Expiration :: MinioBucketLifecycleExpiration
  lr_DelMarkerExpiration :: MinioBucketLifecycleDelMarkerExpiration
  lr_ID :: string
  lr_RuleFilter :: MinioBucketLifecycleFilter
  lr_NoncurrentVersionExpiration :: MinioBucketLifecycleNoncurrentVersionExpiration
  lr_NoncurrentVersionTransition :: MinioBucketLifecycleNoncurrentVersionTransition
  lr_Prefix :: string
  lr_Status :: string
  lr_Transition :: MinioBucketLifecycleTransition

record MinioBucketLifecycleConfiguration =
  lc_Rules :: "MinioBucketLifecycleRule slice"

record MinioBucketSpec =
  bs_DeletionPolicy :: string
  bs_Lifecycle :: "MinioBucketLifecycleConfiguration option"
  bs_Migrate :: bool
  bs_Name :: string
  bs_TenantRef :: ResourceRef
  bs_Versioning :: "MinioBucketVersioningConfiguration option"

record MinioBucketStatus =
  bst_Synced :: "bool option"
  bst_CurrentSpec :: "MinioBucketSpec option"

record MinioBucket =
  b_TypeMeta :: TypeMeta
  b_ObjectMeta :: ObjectMeta
  b_Spec :: MinioBucketSpec
  b_Status :: MinioBucketStatus

section \<open>MinioGroup and MinioGroupBinding (miniogroup.go, miniogroupbinding.go)\<close>

record MinioGroupSpec =
  gs_Migrate :: bool
  gs_Name :: string
  gs_TenantRef :: ResourceRef

record MinioGroupStatus =
  gst_Synced :: "bool option"
  gst_CurrentSpec :: "MinioGroupSpec option"

record MinioGroup =
  g_TypeMeta :: TypeMeta
  g_ObjectMeta :: ObjectMeta
  g_Spec :: MinioGroupSpec
  g_Status :: MinioGroupStatus

record MinioGroupBindingSpec =
  gbs_Group :: string
  gbs_Migrate :: bool
  gbs_TenantRef :: ResourceRef
  gbs_User :: string

record MinioGroupBindingStatus =
  gbst_Synced :: "bool option"
  gbst_CurrentSpec :: "MinioGroupBindingSpec option"

record MinioGroupBinding =
  gb_TypeMeta :: TypeMeta
  gb_ObjectMeta :: ObjectMeta
  gb_Spec :: MinioGroupBindingSpec
  gb_Status :: MinioGroupBindingStatus

section \<open>MinioPolicy and MinioPolicyBinding (miniopolicy.go, miniopolicybinding.go)\<close>

record MinioPolicyStatement =
  ps_Action :: "string slice"
  ps_Effect :: string
  ps_Resource :: "string slice"

record MinioPolicySpec =
  pos_Migrate :: bool
  pos_Name :: string
  pos_Statement :: "MinioPolicyStatement slice"
  pos_TenantRef :: ResourceRef
  pos_Version :: string

record MinioPolicyStatus =
  post_Synced :: "bool option"
  post_CurrentSpec :: "MinioPolicySpec option"

record MinioPolicy =
  p_TypeMeta :: TypeMeta
  p_ObjectMeta :: ObjectMeta
  p_Spec :: MinioPolicySpec
  p_Status :: MinioPolicyStatus

record MinioPolicyBindingIdentity =
  pbi_Builtin :: string
  pbi_Ldap :: string

record MinioPolicyBindingSpec =
  pbs_Group :: MinioPolicyBindingIdentity
  pbs_Migrate :: bool
  pbs_Policy :: string
  pbs_TenantRef :: ResourceRef
  pbs_User :: MinioPolicyBindingIdentity

record MinioPolicyBindingStatus =
  pbst_Synced :: "bool option"
  pbst_CurrentSpec :: "MinioPolicyBindingSpec option"

record MinioPolicyBinding =
  pb_TypeMeta :: TypeMeta
  pb_ObjectMeta :: ObjectMeta
  pb_Spec :: MinioPolicyBindingSpec
  pb_Status :: MinioPolicyBindingStatus

section \<open>MinioUser (miniouser.go)\<close>

record MinioUserSpec =
  us_AccessKey :: string
  us_AccessKeyRef :: ResourceKeyRef
  us_Migrate :: bool
  us_SecretKeyRef :: ResourceKeyRef
  us_TenantRef :: ResourceRef

record MinioUserStatus =
  ust_Synced :: "bool option"
  ust_CurrentSpec :: "MinioUserSpec option"
  ust_CurrentSecretKeyRefResourceVersion :: string

record MinioUser =
  u_TypeMeta :: TypeMeta
  u_ObjectMeta :: ObjectMeta
  u_Spec :: MinioUserSpec
  u_Status :: MinioUserStatus

section \<open>MinioAccessKey (minioaccesskey.go)\<close>

record MinioAccessKeyIdentity =
  aki_Builtin :: string
  aki_Ldap :: string

record MinioAccessKeyPolicy =
  akp_Statement :: "MinioPolicyStatement slice"
  akp_Version :: string

definition emptyAccessKeyPolicy :: MinioAccessKeyPolicy where
  "emptyAccessKeyPolicy = \<lparr>akp_Statement = NilSlice, akp_Version = ''''\<rparr>"

record MinioAccessKeySpec =
  aks_AccessKey :: string
  aks_AccessKeyRef :: ResourceKeyRef
  aks_Description :: string
  aks_Expiration :: "gotime option"
  aks_Migrate :: bool
  aks_Name :: string
  aks_Policy :: MinioAccessKeyPolicy
  aks_SecretKeyRef :: ResourceKeyRef
  aks_SecretName :: string
  aks_TenantRef :: ResourceRef
  aks_User :: MinioAccessKeyIdentity

record MinioAccessKeyStatus =
  akst_Synced :: "bool option"
  akst_CurrentSpec :: "MinioAccessKeySpec option"
  akst_CurrentSecretResourceVersion :: string

record MinioAccessKey =
  ak_TypeMeta :: TypeMeta
  ak_ObjectMeta :: ObjectMeta
  ak_Spec :: MinioAccessKeySpec
  ak_Status :: MinioAccessKeyStatus

section \<open>Lemmas\<close>

lemma SetDefaultNamespace_nonempty:
  "ns \<noteq> '''' \<Longrightarrow> rr_Namespace (ResourceRef_SetDefaultNamespace rr ns) \<noteq> ''''"
  by (simp add: ResourceRef_SetDefaultNamespace_def Let_def)

lemma SetDefaultNamespace_name [simp]:
  "rr_Name (ResourceRef_SetDefaultNamespace rr ns) = rr_Name rr"
  by (simp add: ResourceRef_SetDefaultNamespace_def Let_def)

lemma KeyRef_SetDefaultNamespace_key [simp]:
  "rkr_Key (ResourceKeyRef_SetDefaultNamespace rkr ns) = rkr_Key rkr"
  by (simp add: ResourceKeyRef_SetDefaultNamespace_def Let_def)

end
