(* ===== verification/Policy_Json.thy ===== *)
theory Policy_Json
  imports Api_Types
begin

text \<open>
  Policy documents. The reconcilers send policies with \<open>json.Marshal\<close> and read them back with
  \<open>json.Unmarshal\<close>; a \<open>[]byte\<close> holding a document is represented by the JSON value it spells
  (\<open>Doc\<close>), by \<open>NoDoc\<close> when it is empty and by \<open>BadDoc\<close> when it is no JSON text. What the code relies
  on of \<open>encoding/json\<close> is modelled here: a nil slice is \<open>null\<close>, map keys are sorted, object keys
  match struct tags up to ASCII case (MinIO spells \<open>Version\<close> and \<open>Statement\<close>, the tags are in lower
  case), unknown keys are skipped, \<open>null\<close> leaves a string unchanged and makes a slice nil, and a
  value of another JSON type is an error. Strings are UTF-8, as Kubernetes guarantees.
\<close>

datatype json =
    JNull
  | JBool bool
  | JNumber int
  | JString string
  | JArray "json list"
  | JObject "(string \<times> json) list"

datatype doc = NoDoc | BadDoc | Doc json

section \<open>Marshalling\<close>

definition encodeStrings :: "string slice \<Rightarrow> json" where
  "encodeStrings s = (case s of NilSlice \<Rightarrow> JNull | Slice xs \<Rightarrow> JArray (map JString xs))"

definition encodeStatement :: "MinioPolicyStatement \<Rightarrow> json" where
  "encodeStatement ps = JObject
     [(''action'', encodeStrings (ps_Action ps)),
      (''effect'', JString (ps_Effect ps)),
      (''resource'', encodeStrings (ps_Resource ps))]"

definition encodeStatements :: "MinioPolicyStatement slice \<Rightarrow> json" where
  "encodeStatements s =
     (case s of NilSlice \<Rightarrow> JNull | Slice xs \<Rightarrow> JArray (map encodeStatement xs))"

text \<open>\<open>json.Marshal(map[string]any{"statement": ..., "version": ...})\<close>\<close>

definition marshalPolicy :: "MinioPolicyStatement slice \<Rightarrow> string \<Rightarrow> goerr + doc" where
  "marshalPolicy statement version = Inr (Doc (JObject
     [(''statement'', encodeStatements statement), (''version'', JString version)]))"

section \<open>Unmarshalling\<close>

definition asciiLower :: "char \<Rightarrow> char" where
  "asciiLower c = (if 65 \<le> (of_char c :: nat) \<and> (of_char c :: nat) \<le> 90
     then char_of ((of_char c :: nat) + 32) else c)"

definition keyMatches :: "string \<Rightarrow> string \<Rightarrow> bool" where
  "keyMatches key tag \<longleftrightarrow> map asciiLower key = tag"

definition typeError :: goerr where
  "typeError = GoErr ''json: cannot unmarshal value''"

fun decodeString :: "json \<Rightarrow> string \<Rightarrow> goerr + string" where
  "decodeString JNull old = Inr old"
| "decodeString (JString s) old = Inr s"
| "decodeString _ old = Inl typeError"

fun decodeBool :: "json \<Rightarrow> bool \<Rightarrow> goerr + bool" where
  "decodeBool JNull old = Inr old"
| "decodeBool (JBool b) old = Inr b"
| "decodeBool _ old = Inl typeError"

fun decodeAll :: "(json \<Rightarrow> goerr + 'a) \<Rightarrow> json list \<Rightarrow> goerr + 'a list" where
  "decodeAll d [] = Inr []"
| "decodeAll d (j # js) = (case d j of Inl e \<Rightarrow> Inl e | Inr x \<Rightarrow>
     (case decodeAll d js of Inl e \<Rightarrow> Inl e | Inr xs \<Rightarrow> Inr (x # xs)))"

fun decodeSlice :: "(json \<Rightarrow> goerr + 'a) \<Rightarrow> json \<Rightarrow> goerr + 'a slice" where
  "decodeSlice d JNull = Inr NilSlice"
| "decodeSlice d (JArray js) =
     (case decodeAll d js of Inl e \<Rightarrow> Inl e | Inr xs \<Rightarrow> Inr (Slice xs))"
| "decodeSlice d _ = Inl typeError"

fun decodeFields :: "(string \<Rightarrow> json \<Rightarrow> 'a \<Rightarrow> goerr + 'a) \<Rightarrow> (string \<times> json) list \<Rightarrow> 'a \<Rightarrow> goerr + 'a" where
  "decodeFields d [] x = Inr x"
| "decodeFields d ((k, j) # kjs) x =
     (case d k j x of Inl e \<Rightarrow> Inl e | Inr y \<Rightarrow> decodeFields d kjs y)"

fun decodeStruct :: "(string \<Rightarrow> json \<Rightarrow> 'a \<Rightarrow> goerr + 'a) \<Rightarrow> json \<Rightarrow> 'a \<Rightarrow> goerr + 'a" where
  "decodeStruct d JNull x = Inr x"
| "decodeStruct d (JObject kjs) x = decodeFields d kjs x"
| "decodeStruct d _ x = Inl typeError"

definition setField :: "goerr + 'b \<Rightarrow> ('b \<Rightarrow> 'a) \<Rightarrow> goerr + 'a" where
  "setField v upd = (case v of Inl e \<Rightarrow> Inl e | Inr b \<Rightarrow> Inr (upd b))"

definition decodeStatementField ::
  "string \<Rightarrow> json \<Rightarrow> MinioPolicyStatement \<Rightarrow> goerr + MinioPolicyStatement" where
  "decodeStatementField k j ps =
     (if keyMatches k ''action'' then
        setField (decodeSlice (\<lambda>x. decodeString x '''') j) (\<lambda>v. ps\<lparr>ps_Action := v\<rparr>)
      else if keyMatches k ''effect'' then
        setField (decodeString j (ps_Effect ps)) (\<lambda>v. ps\<lparr>ps_Effect := v\<rparr>)
      else if keyMatches k ''resource'' then
        setField (decodeSlice (\<lambda>x. decodeString x '''') j) (\<lambda>v. ps\<lparr>ps_Resource := v\<rparr>)
      else Inr ps)"

definition emptyStatement :: MinioPolicyStatement where
  "emptyStatement = \<lparr>ps_Action = NilSlice, ps_Effect = '''', ps_Resource = NilSlice\<rparr>"

definition decodeStatement :: "json \<Rightarrow> goerr + MinioPolicyStatement" where
  "decodeStatement j = decodeStruct decodeStatementField j emptyStatement"

definition decodeAccessKeyPolicyField ::
  "string \<Rightarrow> json \<Rightarrow> MinioAccessKeyPolicy \<Rightarrow> goerr + MinioAccessKeyPolicy" where
  "decodeAccessKeyPolicyField k j p =
     (if keyMatches k ''statement'' then
        setField (decodeSlice decodeStatement j) (\<lambda>v. p\<lparr>akp_Statement := v\<rparr>)
      else if keyMatches k ''version'' then
        setField (decodeString j (akp_Version p)) (\<lambda>v. p\<lparr>akp_Version := v\<rparr>)
      else Inr p)"

definition decodeTenantRefField :: "string \<Rightarrow> json \<Rightarrow> ResourceRef \<Rightarrow> goerr + ResourceRef" where
  "decodeTenantRefField k j rr =
     (if keyMatches k ''name'' then
        setField (decodeString j (rr_Name rr)) (\<lambda>v. rr\<lparr>rr_Name := v\<rparr>)
      else if keyMatches k ''namespace'' then
        setField (decodeString j (rr_Namespace rr)) (\<lambda>v. rr\<lparr>rr_Namespace := v\<rparr>)
      else Inr rr)"

definition decodePolicySpecField ::
  "string \<Rightarrow> json \<Rightarrow> MinioPolicySpec \<Rightarrow> goerr + MinioPolicySpec" where
  "decodePolicySpecField k j p =
     (if keyMatches k ''migrate'' then
        setField (decodeBool j (pos_Migrate p)) (\<lambda>v. p\<lparr>pos_Migrate := v\<rparr>)
      else if keyMatches k ''name'' then
        setField (decodeString j (pos_Name p)) (\<lambda>v. p\<lparr>pos_Name := v\<rparr>)
      else if keyMatches k ''statement'' then
        setField (decodeSlice decodeStatement j) (\<lambda>v. p\<lparr>pos_Statement := v\<rparr>)
      else if keyMatches k ''tenantref'' then
        setField (decodeStruct decodeTenantRefField j (pos_TenantRef p))
          (\<lambda>v. p\<lparr>pos_TenantRef := v\<rparr>)
      else if keyMatches k ''version'' then
        setField (decodeString j (pos_Version p)) (\<lambda>v. p\<lparr>pos_Version := v\<rparr>)
      else Inr p)"

text \<open>\<open>json.Unmarshal(data, dst)\<close>; empty input is a syntax error.\<close>

definition unmarshal :: "(string \<Rightarrow> json \<Rightarrow> 'a \<Rightarrow> goerr + 'a) \<Rightarrow> doc \<Rightarrow> 'a \<Rightarrow> goerr + 'a" where
  "unmarshal d data x = (case data of
      NoDoc \<Rightarrow> Inl (GoErr ''unexpected end of JSON input'')
    | BadDoc \<Rightarrow> Inl (GoErr ''invalid character'')
    | Doc j \<Rightarrow> decodeStruct d j x)"

definition emptyPolicySpec :: MinioPolicySpec where
  "emptyPolicySpec = \<lparr>pos_Migrate = False, pos_Name = '''', pos_Statement = NilSlice,
     pos_TenantRef = \<lparr>rr_Name = '''', rr_Namespace = ''''\<rparr>, pos_Version = ''''\<rparr>"

definition unmarshalPolicySpec :: "doc \<Rightarrow> goerr + MinioPolicySpec" where
  "unmarshalPolicySpec data = unmarshal decodePolicySpecField data emptyPolicySpec"

definition unmarshalAccessKeyPolicy :: "doc \<Rightarrow> goerr + MinioAccessKeyPolicy" where
  "unmarshalAccessKeyPolicy data = unmarshal decodeAccessKeyPolicyField data emptyAccessKeyPolicy"

section \<open>Round trip\<close>

lemma decodeAll_map:
  "(\<And>x. x \<in> set xs \<Longrightarrow> d (f x) = Inr (g x)) \<Longrightarrow> decodeAll d (map f xs) = Inr (map g xs)"
  by (induction xs) auto

lemma decode_encodeStrings [simp]:
  "decodeSlice (\<lambda>x. decodeString x '''') (encodeStrings s) = Inr s"
  by (cases s) (simp_all add: encodeStrings_def decodeAll_map [where g = id])

lemma decode_encodeStatement [simp]: "decodeStatement (encodeStatement ps) = Inr ps"
  by (simp add: decodeStatement_def encodeStatement_def decodeStatementField_def setField_def
      keyMatches_def asciiLower_def emptyStatement_def)

lemma decode_encodeStatements [simp]: "decodeSlice decodeStatement (encodeStatements s) = Inr s"
  by (cases s) (simp_all add: encodeStatements_def decodeAll_map [where g = id])

lemma unmarshal_marshal_policy:
  "marshalPolicy st v = Inr d \<Longrightarrow>
     unmarshalPolicySpec d = Inr (emptyPolicySpec\<lparr>pos_Statement := st, pos_Version := v\<rparr>)"
  by (auto simp: marshalPolicy_def unmarshalPolicySpec_def unmarshal_def decodePolicySpecField_def
      setField_def keyMatches_def asciiLower_def)

lemma unmarshal_marshal_accessKey:
  "marshalPolicy st v = Inr d \<Longrightarrow>
     unmarshalAccessKeyPolicy d = Inr \<lparr>akp_Statement = st, akp_Version = v\<rparr>"
  by (auto simp: marshalPolicy_def unmarshalAccessKeyPolicy_def unmarshal_def
      decodeAccessKeyPolicyField_def setField_def keyMatches_def asciiLower_def
      emptyAccessKeyPolicy_def)

section \<open>Properties\<close>

text \<open>
  C36 - Policy documents survive the tenant: what the operator sends as the document of a policy or of
  an access key, parsed the way the operator parses the tenant's answers, gives back the statement
  and the version, nil and empty slices kept apart, and no other field.
\<close>

theorem policy_document_roundtrip:
  assumes "marshalPolicy statement version = Inr d"
  shows "unmarshalPolicySpec d =
      Inr (emptyPolicySpec\<lparr>pos_Statement := statement, pos_Version := version\<rparr>) \<and>
    unmarshalAccessKeyPolicy d = Inr \<lparr>akp_Statement = statement, akp_Version = version\<rparr>"
  using unmarshal_marshal_policy [OF assms] unmarshal_marshal_accessKey [OF assms] by simp

theorem policy_document_roundtrip_witness:
  "\<exists>d. marshalPolicy (Slice [\<lparr>ps_Action = Slice [''s3:GetObject''], ps_Effect = ''Allow'',
         ps_Resource = NilSlice\<rparr>]) ''2012-10-17'' = Inr d \<and>
     unmarshalAccessKeyPolicy d = Inr \<lparr>akp_Statement = Slice [\<lparr>ps_Action = Slice [''s3:GetObject''],
       ps_Effect = ''Allow'', ps_Resource = NilSlice\<rparr>], akp_Version = ''2012-10-17''\<rparr>"
proof -
  obtain d where d: "marshalPolicy (Slice [\<lparr>ps_Action = Slice [''s3:GetObject''], ps_Effect = ''Allow'',
         ps_Resource = NilSlice\<rparr>]) ''2012-10-17'' = Inr d"
    by (simp add: marshalPolicy_def)
  from d policy_document_roundtrip [OF d] show ?thesis by blast
qed

end
