(* ===== verification/Outside.thy ===== *)
theory Outside
  imports Policy_Json "HOL-Library.Word"
begin

text \<open>
  Everything the operator calls and does not contain, as parameters: the Kubernetes client of
  controller-runtime, the two MinIO clients (minio-go and madmin-go), the pure helpers of these
  libraries, the digests and the random source. \<open>Lib\<close> holds the pure functions, \<open>env\<close> the
  operations that read or change the world. Nothing is assumed of them here; where a theorem needs
  a documented law of one of them, the law is a hypothesis (\<open>finalizerLaws\<close>, \<open>updateStores\<close>).
  Each wrapper below performs one call and records it in the trace.
\<close>

section \<open>Requests to the tenant\<close>

datatype handle = Handle nat

record CertPool =
  cp_System :: bool
  cp_Appended :: "string list"

record PolicyAssociationReq =
  par_Group :: string
  par_Policies :: "string list"
  par_User :: string

record AddServiceAccountReq =
  asa_AccessKey :: string
  asa_Description :: string
  asa_Expiration :: "gotime option"
  asa_Name :: string
  asa_SecretKey :: string
  asa_Policy :: doc
  asa_TargetUser :: string

record UpdateServiceAccountReq =
  usa_NewDescription :: string
  usa_NewExpiration :: "gotime option"
  usa_NewName :: string
  usa_NewPolicy :: doc
  usa_NewSecretKey :: string

record InfoServiceAccountResp =
  isa_Description :: string
  isa_Expiration :: "gotime option"
  isa_Name :: string
  isa_ImpliedPolicy :: bool
  isa_Policy :: doc

record PolicyMapping =
  pm_Groups :: "string list"
  pm_Users :: "string list"

text \<open>Requests that may change the tenant; they answer with an error or nothing of interest.\<close>

datatype mutation =
    MakeBucket string
  | RemoveBucket string bool
  | SetBucketVersioning string MinioBucketVersioningConfiguration
  | SetBucketLifecycle string MinioBucketLifecycleConfiguration
  | UpdateGroupMembers string "string slice" bool
  | RemoveCannedPolicy string
  | AddCannedPolicy string doc
  | AddUser string string
  | RemoveUser string
  | AttachPolicy PolicyAssociationReq
  | AttachPolicyLDAP PolicyAssociationReq
  | DetachPolicy PolicyAssociationReq
  | DetachPolicyLDAP PolicyAssociationReq
  | AddServiceAccount AddServiceAccountReq
  | AddServiceAccountLDAP AddServiceAccountReq
  | UpdateServiceAccount string UpdateServiceAccountReq
  | DeleteServiceAccount string

datatype query =
    BucketExists string
  | GetBucketVersioning string
  | GetBucketLifecycle string
  | GetGroupDescription string
  | InfoCannedPolicyV2 string
  | GetUserInfo string
  | GetPolicyEntities string
  | GetLDAPPolicyEntities string
  | GetIDPConfig string string
  | InfoServiceAccount string

text \<open>The calls a trace records; \<open>'o\<close> is the reconciler's own resource type.\<close>

datatype 'o call =
    Get NamespacedName
  | Update 'o
  | GetSecret NamespacedName
  | GetTenant NamespacedName
  | GetService NamespacedName
  | GetConfigMap NamespacedName
  | ListSecrets string
  | CreateSecret Secret
  | UpdateSecret Secret
  | DeleteSecret NamespacedName
  | NewClient string string string bool CertPool
  | NewAdminClient string string string bool
  | SetCustomTransport handle CertPool
  | Mutate handle mutation
  | Query handle query
  | RandRead nat

section \<open>Parameters\<close>

text \<open>One direction of \<open>convertViaXML\<close>: the XML and JSON codecs of the two struct types.\<close>

record ('a, 'b) codec =
  xmlMarshal :: "'a \<Rightarrow> goerr + string"
  xmlUnmarshal :: "string \<Rightarrow> goerr + 'b"
  jsonMarshal :: "'b \<Rightarrow> goerr + string"
  jsonUnmarshal :: "string \<Rightarrow> 'b \<Rightarrow> goerr + 'b"

record Lib =
  isNotFound :: "goerr \<Rightarrow> bool"
  ignoreNotFound :: "goerr \<Rightarrow> goerr option"
  errText :: "goerr \<Rightarrow> string"
  containsFinalizer :: "ObjectMeta \<Rightarrow> string \<Rightarrow> bool"
  addFinalizer :: "ObjectMeta \<Rightarrow> string \<Rightarrow> ObjectMeta"
  removeFinalizer :: "ObjectMeta \<Rightarrow> string \<Rightarrow> ObjectMeta"
  setOwnerReference :: "MinioAccessKey \<Rightarrow> Secret \<Rightarrow> goerr + Secret"
  sha512_256 :: "string \<Rightarrow> string"
  sha256 :: "string \<Rightarrow> string"
  envParse :: "string \<Rightarrow> goerr + (string \<rightharpoonup> string)"
  systemCertPool :: "goerr + CertPool"
  cmpEqualVersioning :: "MinioBucketVersioningConfiguration \<Rightarrow> MinioBucketVersioningConfiguration \<Rightarrow> bool"
  cmpEqualLifecycle :: "MinioBucketLifecycleConfiguration \<Rightarrow> MinioBucketLifecycleConfiguration \<Rightarrow> bool"
  newLifecycle :: MinioBucketLifecycleConfiguration
  versioningFromMinio :: "(MinioBucketVersioningConfiguration, MinioBucketVersioningConfiguration) codec"
  versioningToMinio :: "(MinioBucketVersioningConfiguration, MinioBucketVersioningConfiguration) codec"
  lifecycleFromMinio :: "(MinioBucketLifecycleConfiguration, MinioBucketLifecycleConfiguration) codec"
  lifecycleToMinio :: "(MinioBucketLifecycleConfiguration, MinioBucketLifecycleConfiguration) codec"

record 'w env =
  lib :: Lib
  e_GetSecret :: "'w \<Rightarrow> NamespacedName \<Rightarrow> (goerr + Secret) \<times> 'w"
  e_GetTenant :: "'w \<Rightarrow> NamespacedName \<Rightarrow> (goerr + Tenant) \<times> 'w"
  e_GetService :: "'w \<Rightarrow> NamespacedName \<Rightarrow> (goerr + Service) \<times> 'w"
  e_GetConfigMap :: "'w \<Rightarrow> NamespacedName \<Rightarrow> (goerr + ConfigMap) \<times> 'w"
  e_ListSecrets :: "'w \<Rightarrow> string \<Rightarrow> (goerr + Secret list) \<times> 'w"
  e_CreateSecret :: "'w \<Rightarrow> Secret \<Rightarrow> (goerr + Secret) \<times> 'w"
  e_UpdateSecret :: "'w \<Rightarrow> Secret \<Rightarrow> (goerr + Secret) \<times> 'w"
  e_DeleteSecret :: "'w \<Rightarrow> NamespacedName \<Rightarrow> (goerr + unit) \<times> 'w"
  e_NewClient :: "'w \<Rightarrow> string \<Rightarrow> string \<Rightarrow> string \<Rightarrow> bool \<Rightarrow> CertPool \<Rightarrow> (goerr + handle) \<times> 'w"
  e_NewAdminClient :: "'w \<Rightarrow> string \<Rightarrow> string \<Rightarrow> string \<Rightarrow> bool \<Rightarrow> (handle option \<times> goerr option) \<times> 'w"
  e_SetCustomTransport :: "'w \<Rightarrow> handle \<Rightarrow> CertPool \<Rightarrow> 'w"
  e_Mutate :: "'w \<Rightarrow> handle \<Rightarrow> mutation \<Rightarrow> (goerr + unit) \<times> 'w"
  e_BucketExists :: "'w \<Rightarrow> handle \<Rightarrow> string \<Rightarrow> (goerr + bool) \<times> 'w"
  e_GetBucketVersioning :: "'w \<Rightarrow> handle \<Rightarrow> string \<Rightarrow> (goerr + MinioBucketVersioningConfiguration) \<times> 'w"
  e_GetBucketLifecycle :: "'w \<Rightarrow> handle \<Rightarrow> string \<Rightarrow> (MinioBucketLifecycleConfiguration option \<times> goerr option) \<times> 'w"
  e_GetGroupDescription :: "'w \<Rightarrow> handle \<Rightarrow> string \<Rightarrow> (goerr + string list) \<times> 'w"
  e_InfoCannedPolicyV2 :: "'w \<Rightarrow> handle \<Rightarrow> string \<Rightarrow> (goerr + doc) \<times> 'w"
  e_GetUserInfo :: "'w \<Rightarrow> handle \<Rightarrow> string \<Rightarrow> (goerr + unit) \<times> 'w"
  e_GetPolicyEntities :: "'w \<Rightarrow> handle \<Rightarrow> string \<Rightarrow> (goerr + PolicyMapping list) \<times> 'w"
  e_GetLDAPPolicyEntities :: "'w \<Rightarrow> handle \<Rightarrow> string \<Rightarrow> (goerr + PolicyMapping list) \<times> 'w"
  e_GetIDPConfig :: "'w \<Rightarrow> handle \<Rightarrow> string \<Rightarrow> string \<Rightarrow> (goerr + (string \<times> string) list) \<times> 'w"
  e_InfoServiceAccount :: "'w \<Rightarrow> handle \<Rightarrow> string \<Rightarrow> (goerr + InfoServiceAccountResp) \<times> 'w"
  e_RandRead :: "'w \<Rightarrow> nat \<Rightarrow> (goerr + 8 word list) \<times> 'w"

text \<open>
  A reconciler (\<open>minioBucketReconciler\<close> and its six siblings are structs with the same fields): the
  client for its own resource type, the environment, the operator's namespace and the interval
  after which a resource is looked at again. The logger is left out.
\<close>

record ('w, 'o) reconciler =
  r_env :: "'w env"
  r_Get :: "'w \<Rightarrow> NamespacedName \<Rightarrow> (goerr + 'o) \<times> 'w"
  r_Update :: "'w \<Rightarrow> 'o \<Rightarrow> (goerr + 'o) \<times> 'w"
  minioOperatorNamespace :: string
  syncInterval :: int

record Result =
  requeueAfter :: int

definition reqNamespacedName :: "Secret \<Rightarrow> NamespacedName" where
  "reqNamespacedName s =
     \<lparr>nn_Namespace = om_Namespace (sec_Meta s), nn_Name = om_Name (sec_Meta s)\<rparr>"

section \<open>Calls\<close>

definition getObj :: "('w, 'o) reconciler \<Rightarrow> NamespacedName \<Rightarrow> ('w, 'o call, 'o) m" where
  "getObj r k = call (Get k) (\<lambda>w. r_Get r w k)"

definition updateObj :: "('w, 'o) reconciler \<Rightarrow> 'o \<Rightarrow> ('w, 'o call, 'o) m" where
  "updateObj r x = call (Update x) (\<lambda>w. r_Update r w x)"

definition getSecret :: "'w env \<Rightarrow> NamespacedName \<Rightarrow> ('w, 'o call, Secret) m" where
  "getSecret E k = call (GetSecret k) (\<lambda>w. e_GetSecret E w k)"

definition getTenant :: "'w env \<Rightarrow> NamespacedName \<Rightarrow> ('w, 'o call, Tenant) m" where
  "getTenant E k = call (GetTenant k) (\<lambda>w. e_GetTenant E w k)"

definition getService :: "'w env \<Rightarrow> NamespacedName \<Rightarrow> ('w, 'o call, Service) m" where
  "getService E k = call (GetService k) (\<lambda>w. e_GetService E w k)"

definition getConfigMap :: "'w env \<Rightarrow> NamespacedName \<Rightarrow> ('w, 'o call, ConfigMap) m" where
  "getConfigMap E k = call (GetConfigMap k) (\<lambda>w. e_GetConfigMap E w k)"

definition listSecrets :: "'w env \<Rightarrow> string \<Rightarrow> ('w, 'o call, Secret list) m" where
  "listSecrets E ns = call (ListSecrets ns) (\<lambda>w. e_ListSecrets E w ns)"

definition createSecret :: "'w env \<Rightarrow> Secret \<Rightarrow> ('w, 'o call, Secret) m" where
  "createSecret E s = call (CreateSecret s) (\<lambda>w. e_CreateSecret E w s)"

definition updateSecret :: "'w env \<Rightarrow> Secret \<Rightarrow> ('w, 'o call, Secret) m" where
  "updateSecret E s = call (UpdateSecret s) (\<lambda>w. e_UpdateSecret E w s)"

definition deleteSecret :: "'w env \<Rightarrow> Secret \<Rightarrow> ('w, 'o call, unit) m" where
  "deleteSecret E s = call (DeleteSecret (reqNamespacedName s))
     (\<lambda>w. e_DeleteSecret E w (reqNamespacedName s))"

definition mutate :: "'w env \<Rightarrow> handle \<Rightarrow> mutation \<Rightarrow> ('w, 'o call, unit) m" where
  "mutate E h q = call (Mutate h q) (\<lambda>w. e_Mutate E w h q)"

definition queryM ::
  "handle \<Rightarrow> query \<Rightarrow> ('w \<Rightarrow> (goerr + 'a) \<times> 'w) \<Rightarrow> ('w, 'o call, 'a) m" where
  "queryM h q op = call (Query h q) op"

definition randRead :: "'w env \<Rightarrow> nat \<Rightarrow> ('w, 'o call, 8 word list) m" where
  "randRead E n = call (RandRead n) (\<lambda>w. e_RandRead E w n)"

named_theorems calls \<open>definitions of the wrappers around outside operations\<close>

lemmas call_defs [calls] = getObj_def updateObj_def getSecret_def getTenant_def getService_def
  getConfigMap_def listSecrets_def createSecret_def updateSecret_def deleteSecret_def mutate_def
  queryM_def randRead_def

section \<open>Error codes (operator.go)\<close>

definition finalizer :: string where
  "finalizer = ''bfiola.dev/minio-operator-ext''"

definition isMinioErrorCode :: "goerr option \<Rightarrow> string \<Rightarrow> bool" where
  "isMinioErrorCode err code = (case err of Some (MinioResp c _) \<Rightarrow> c = code | _ \<Rightarrow> False)"

definition ignoreMinioErrorCode :: "goerr option \<Rightarrow> string \<Rightarrow> goerr option" where
  "ignoreMinioErrorCode err code = (if isMinioErrorCode err code then None else err)"

definition isMadminErrorCode :: "goerr option \<Rightarrow> string \<Rightarrow> bool" where
  "isMadminErrorCode err code = (case err of Some (MadminResp c _) \<Rightarrow> c = code | _ \<Rightarrow> False)"

definition ignoreMadminErrorCode :: "goerr option \<Rightarrow> string \<Rightarrow> goerr option" where
  "ignoreMadminErrorCode err code = (if isMadminErrorCode err code then None else err)"

lemma isMinioErrorCode_simps [simp]:
  "\<not> isMinioErrorCode None c"
  "isMinioErrorCode (Some (MinioResp c' msg)) c \<longleftrightarrow> c' = c"
  by (simp_all add: isMinioErrorCode_def)

lemma isMadminErrorCode_simps [simp]:
  "\<not> isMadminErrorCode None c"
  "isMadminErrorCode (Some (MadminResp c' msg)) c \<longleftrightarrow> c' = c"
  "\<not> isMadminErrorCode (Some (GoErr msg)) c"
  by (simp_all add: isMadminErrorCode_def)

lemma ignoreMinioErrorCode_None [simp]: "ignoreMinioErrorCode None c = None"
  by (simp add: ignoreMinioErrorCode_def)

lemma ignoreMadminErrorCode_None [simp]: "ignoreMadminErrorCode None c = None"
  by (simp add: ignoreMadminErrorCode_def)

lemma ignoreMinioErrorCode_eq_None:
  "ignoreMinioErrorCode err c = None \<longleftrightarrow> err = None \<or> isMinioErrorCode err c"
  by (simp add: ignoreMinioErrorCode_def)

lemma ignoreMadminErrorCode_eq_None:
  "ignoreMadminErrorCode err c = None \<longleftrightarrow> err = None \<or> isMadminErrorCode err c"
  by (simp add: ignoreMadminErrorCode_def)

section \<open>Helpers (operator.go)\<close>

definition nilToEmpty :: "'a \<Rightarrow> 'a option \<Rightarrow> 'a" where
  "nilToEmpty zero v = (case v of None \<Rightarrow> zero | Some x \<Rightarrow> x)"

definition convertViaXML :: "('a, 'b) codec \<Rightarrow> 'a \<Rightarrow> 'b \<Rightarrow> goerr + 'b" where
  "convertViaXML c src dst =
     (case xmlMarshal c src of Inl e \<Rightarrow> Inl e | Inr data \<Rightarrow>
     (case xmlUnmarshal c data of Inl e \<Rightarrow> Inl e | Inr tmp \<Rightarrow>
     (case jsonMarshal c tmp of Inl e \<Rightarrow> Inl e | Inr data \<Rightarrow>
     jsonUnmarshal c data dst)))"

text \<open>The \<open>success\<close> and \<open>failure\<close> closures of the reconcilers; \<open>client.IgnoreNotFound\<close> after a get.\<close>

definition success :: "('w, 'o) reconciler \<Rightarrow> ('w, 'o call, Result) m" where
  "success r = ret \<lparr>requeueAfter = syncInterval r\<rparr>"

definition noRequeue :: Result where
  "noRequeue = \<lparr>requeueAfter = 0\<rparr>"

definition getFailed :: "('w, 'o) reconciler \<Rightarrow> goerr \<Rightarrow> ('w, 'o call, Result) m" where
  "getFailed r e = (case ignoreNotFound (lib (r_env r)) e of
      None \<Rightarrow> ret noRequeue | Some e' \<Rightarrow> fail e')"

section \<open>Documented laws\<close>

text \<open>
  \<open>controllerutil\<close>: a finalizer is found once added and not found once removed; adding and removing
  touch only the list of finalizers, and finding looks only at it.
\<close>

definition finalizerLaws :: "Lib \<Rightarrow> bool" where
  "finalizerLaws L \<longleftrightarrow>
     (\<forall>m f. containsFinalizer L (addFinalizer L m f) f) \<and>
     (\<forall>m f. \<not> containsFinalizer L (removeFinalizer L m f) f) \<and>
     (\<forall>m f. \<exists>fs. addFinalizer L m f = m\<lparr>om_Finalizers := fs\<rparr>) \<and>
     (\<forall>m f. \<exists>fs. removeFinalizer L m f = m\<lparr>om_Finalizers := fs\<rparr>) \<and>
     (\<forall>m m' f. om_Finalizers m = om_Finalizers m' \<longrightarrow>
        containsFinalizer L m f = containsFinalizer L m' f)"

text \<open>
  A successful update returns the object as stored: what was sent, under a new resource version.
  \<open>same\<close> is equality up to the resource version.
\<close>

definition metaStored :: "ObjectMeta \<Rightarrow> ObjectMeta \<Rightarrow> bool" where
  "metaStored m m' \<longleftrightarrow> (\<exists>v. m' = m\<lparr>om_ResourceVersion := v\<rparr>)"

definition updateStores :: "('o \<Rightarrow> 'o \<Rightarrow> bool) \<Rightarrow> ('w, 'o) reconciler \<Rightarrow> bool" where
  "updateStores same r \<longleftrightarrow> (\<forall>w x x' w'. r_Update r w x = (Inr x', w') \<longrightarrow> same x x')"

lemma updateStores_same: "updateStores same r \<Longrightarrow> r_Update r w x = (Inr y, w') \<Longrightarrow> same x y"
  unfolding updateStores_def by blast

lemma metaStored_refl [simp]: "metaStored m m"
  unfolding metaStored_def by (rule exI [where x = "om_ResourceVersion m"]) simp

lemma metaStored_contains:
  assumes "finalizerLaws L" and "metaStored m m'"
  shows "containsFinalizer L m' f = containsFinalizer L m f"
proof -
  from assms(2) have "om_Finalizers m' = om_Finalizers m" by (auto simp: metaStored_def)
  with assms(1) show ?thesis unfolding finalizerLaws_def by blast
qed

lemma metaStored_deletion [simp]:
  "metaStored m m' \<Longrightarrow> om_DeletionTimestamp m' = om_DeletionTimestamp m"
  by (auto simp: metaStored_def)

end
