(* ===== verification/Sample_Env.thy ===== *)
theory Sample_Env
  imports Outside
begin

text \<open>
  A concrete environment in which the hypotheses of the theorems hold, used by the witnesses only:
  one tenant \<open>t\<close> in namespace \<open>ns\<close> that answers every request, and simple instances of the library
  functions that satisfy the laws. The world is trivial (\<open>unit\<close>); witnesses override single answers.
\<close>

definition sampleIsNotFound :: "goerr \<Rightarrow> bool" where
  "sampleIsNotFound e = (case e of KubeErr r _ \<Rightarrow> r = ''NotFound'' | _ \<Rightarrow> False)"

definition sampleErrText :: "goerr \<Rightarrow> string" where
  "sampleErrText e = (case e of KubeErr _ m \<Rightarrow> m | MinioResp _ m \<Rightarrow> m | MadminResp _ m \<Rightarrow> m
     | GoErr m \<Rightarrow> m)"

definition sampleDigest :: "string \<Rightarrow> string" where
  "sampleDigest s = take 32 (s @ replicate 32 (CHR ''0''))"

definition sampleVersioning :: MinioBucketVersioningConfiguration where
  "sampleVersioning = \<lparr>vc_Status = ''Enabled'', vc_MFADelete = '''', vc_ExcludedPrefixes = NilSlice,
     vc_ExcludeFolders = False\<rparr>"

definition sampleLifecycle :: MinioBucketLifecycleConfiguration where
  "sampleLifecycle = \<lparr>lc_Rules = NilSlice\<rparr>"

definition constCodec :: "'b \<Rightarrow> ('a, 'b) codec" where
  "constCodec b = \<lparr>xmlMarshal = (\<lambda>_. Inr ''xml''), xmlUnmarshal = (\<lambda>_. Inr b),
     jsonMarshal = (\<lambda>_. Inr ''json''), jsonUnmarshal = (\<lambda>_ _. Inr b)\<rparr>"

definition sampleLib :: Lib where
  "sampleLib = \<lparr>
     isNotFound = sampleIsNotFound,
     ignoreNotFound = (\<lambda>e. if sampleIsNotFound e then None else Some e),
     errText = sampleErrText,
     containsFinalizer = (\<lambda>m f. f \<in> set (om_Finalizers m)),
     addFinalizer = (\<lambda>m f. if f \<in> set (om_Finalizers m) then m
        else m\<lparr>om_Finalizers := om_Finalizers m @ [f]\<rparr>),
     removeFinalizer = (\<lambda>m f. m\<lparr>om_Finalizers := removeAll f (om_Finalizers m)\<rparr>),
     setOwnerReference = (\<lambda>_ s. Inr s),
     sha512_256 = sampleDigest,
     sha256 = sampleDigest,
     envParse = (\<lambda>_. Inr [''MINIO_ROOT_USER'' \<mapsto> ''root'', ''MINIO_ROOT_PASSWORD'' \<mapsto> ''pw'']),
     systemCertPool = Inr \<lparr>cp_System = True, cp_Appended = []\<rparr>,
     cmpEqualVersioning = (=),
     cmpEqualLifecycle = (=),
     newLifecycle = sampleLifecycle,
     versioningFromMinio = constCodec sampleVersioning,
     versioningToMinio = constCodec sampleVersioning,
     lifecycleFromMinio = constCodec sampleLifecycle,
     lifecycleToMinio = constCodec sampleLifecycle\<rparr>"

definition sampleMeta :: "string \<Rightarrow> ObjectMeta" where
  "sampleMeta n = \<lparr>om_Name = n, om_Namespace = ''ns'', om_ResourceVersion = ''1'',
     om_DeletionTimestamp = None, om_Finalizers = []\<rparr>"

definition sampleSecret :: Secret where
  "sampleSecret = \<lparr>sec_Meta = sampleMeta ''s'', sec_Type = ''Opaque'',
     sec_Data = [''config.env'' \<mapsto> ''env'', ''accessKey'' \<mapsto> ''AK'', ''secretKey'' \<mapsto> ''SK''],
     sec_StringData = Map.empty\<rparr>"

definition sampleTenant :: Tenant where
  "sampleTenant = \<lparr>ten_RequestAutoCert = Some True, ten_ExternalCertSecret = [],
     ten_ConfigurationName = Some ''conf'', ten_ExternalCaCertSecret = []\<rparr>"

definition sampleService :: Service where
  "sampleService = \<lparr>svc_Meta = sampleMeta ''minio'',
     svc_Ports = [\<lparr>sp_Name = ''https-minio'', sp_Port = 443\<rparr>]\<rparr>"

definition anyWorldEnv :: "'w env" where
  "anyWorldEnv = \<lparr>
     lib = sampleLib,
     e_GetSecret = (\<lambda>w _. (Inr sampleSecret, w)),
     e_GetTenant = (\<lambda>w _. (Inr sampleTenant, w)),
     e_GetService = (\<lambda>w _. (Inr sampleService, w)),
     e_GetConfigMap = (\<lambda>w _. (Inl (KubeErr ''NotFound'' ''''), w)),
     e_ListSecrets = (\<lambda>w _. (Inr [], w)),
     e_CreateSecret = (\<lambda>w s. (Inr s, w)),
     e_UpdateSecret = (\<lambda>w s. (Inr s, w)),
     e_DeleteSecret = (\<lambda>w _. (Inr (), w)),
     e_NewClient = (\<lambda>w _ _ _ _ _. (Inr (Handle 0), w)),
     e_NewAdminClient = (\<lambda>w _ _ _ _. ((Some (Handle 0), None), w)),
     e_SetCustomTransport = (\<lambda>w _ _. w),
     e_Mutate = (\<lambda>w _ _. (Inr (), w)),
     e_BucketExists = (\<lambda>w _ _. (Inr True, w)),
     e_GetBucketVersioning = (\<lambda>w _ _. (Inr sampleVersioning, w)),
     e_GetBucketLifecycle = (\<lambda>w _ _. ((None, None), w)),
     e_GetGroupDescription = (\<lambda>w _ _. (Inr [], w)),
     e_InfoCannedPolicyV2 = (\<lambda>w _ _. (Inr NoDoc, w)),
     e_GetUserInfo = (\<lambda>w _ _. (Inr (), w)),
     e_GetPolicyEntities = (\<lambda>w _ _. (Inr [], w)),
     e_GetLDAPPolicyEntities = (\<lambda>w _ _. (Inr [], w)),
     e_GetIDPConfig = (\<lambda>w _ _ _. (Inr [], w)),
     e_InfoServiceAccount = (\<lambda>w _ _. (Inr \<lparr>isa_Description = '''', isa_Expiration = None,
        isa_Name = '''', isa_ImpliedPolicy = True, isa_Policy = NoDoc\<rparr>, w)),
     e_RandRead = (\<lambda>w n. (Inr (replicate n 0), w))\<rparr>"

abbreviation sampleEnv :: "unit env" where
  "sampleEnv \<equiv> anyWorldEnv"

definition reconcilerIn :: "unit env \<Rightarrow> 'o \<Rightarrow> (unit, 'o) reconciler" where
  "reconcilerIn E x = \<lparr>r_env = E, r_Get = (\<lambda>w _. (Inr x, w)),
     r_Update = (\<lambda>w y. (Inr y, w)), minioOperatorNamespace = ''op'', syncInterval = 60\<rparr>"

abbreviation sampleReconciler :: "'o \<Rightarrow> (unit, 'o) reconciler" where
  "sampleReconciler x \<equiv> reconcilerIn sampleEnv x"

text \<open>The same tenant, refusing every request that would change it.\<close>

definition refusingEnv :: "goerr \<Rightarrow> unit env" where
  "refusingEnv err = sampleEnv\<lparr>e_Mutate := \<lambda>w h q. (Inl err, w)\<rparr>"

definition sampleKey :: NamespacedName where
  "sampleKey = \<lparr>nn_Namespace = ''ns'', nn_Name = ''x''\<rparr>"

definition sampleRef :: ResourceRef where
  "sampleRef = \<lparr>rr_Name = ''t'', rr_Namespace = ''''\<rparr>"

lemma finalizers_self: "\<exists>fs. m = m\<lparr>om_Finalizers := fs\<rparr>" for m :: ObjectMeta
  by (rule exI [where x = "om_Finalizers m"]) simp

lemma finalizerLaws_sample: "finalizerLaws sampleLib"
  by (auto simp: finalizerLaws_def sampleLib_def finalizers_self)

lemma updateStores_sample: "(\<And>y. same y y) \<Longrightarrow> updateStores same (reconcilerIn E x)"
  by (simp add: updateStores_def reconcilerIn_def)

lemma sampleReconciler_simps [simp]:
  "r_Get (reconcilerIn E x) w k = (Inr x, w)"
  "r_Update (reconcilerIn E x) w y = (Inr y, w)"
  "r_env (reconcilerIn E x) = E"
  "lib sampleEnv = sampleLib"
  "lib (refusingEnv err) = sampleLib"
  "e_Mutate (refusingEnv err) w h q = (Inl err, w)"
  "containsFinalizer sampleLib m f \<longleftrightarrow> f \<in> set (om_Finalizers m)"
  by (simp_all add: reconcilerIn_def anyWorldEnv_def sampleLib_def refusingEnv_def)

text \<open>The metadata of an object that the operator already holds by its finalizer.\<close>

definition heldMeta :: "string \<Rightarrow> ObjectMeta" where
  "heldMeta n = (sampleMeta n)\<lparr>om_Finalizers := [finalizer]\<rparr>"

definition deletedMeta :: "string \<Rightarrow> ObjectMeta" where
  "deletedMeta n =
     (heldMeta n)\<lparr>om_DeletionTimestamp := Some \<lparr>t_sec = 1, t_nsec = 0, t_loc = LocUTC\<rparr>\<rparr>"

lemma deletedMeta_simps [simp]:
  "om_Finalizers (deletedMeta n) = [finalizer]" "\<not> timeIsZero (om_DeletionTimestamp (deletedMeta n))"
  "om_Namespace (deletedMeta n) = ''ns''" "om_Name (deletedMeta n) = n"
  by (simp_all add: deletedMeta_def heldMeta_def sampleMeta_def timeIsZero_def)

lemma heldMeta_simps [simp]:
  "om_Finalizers (heldMeta n) = [finalizer]" "om_DeletionTimestamp (heldMeta n) = None"
  "om_Namespace (heldMeta n) = ''ns''" "om_Name (heldMeta n) = n"
  by (simp_all add: heldMeta_def sampleMeta_def)

lemma timeIsZero_None [simp]: "timeIsZero None"
  by (simp add: timeIsZero_def)

named_theorems sample \<open>definitions of the sample environment\<close>

lemmas sample_defs [sample] = anyWorldEnv_def sampleLib_def reconcilerIn_def sampleKey_def
  sampleRef_def sampleTenant_def sampleService_def sampleSecret_def sampleMeta_def
  sampleIsNotFound_def sampleErrText_def constCodec_def sampleLifecycle_def sampleVersioning_def

end
