(* ===== verification/Tenant_Client.thy ===== *)
theory Tenant_Client
  imports Outside Sample_Env
begin

text \<open>
  \<open>minio_tenant_client_info.go\<close>: from a reference to a tenant, find out how to talk to it. The state is
  outside (the cluster); the operations read the tenant, its configuration secret and its service,
  collect certificate authorities, and open a client. The lemmas state what a result is made of,
  that the collection of authorities never fails, that nothing is written, and where opening an
  admin client panics.
\<close>

record minioTenantClientInfoOpts =
  opts_minioOperatorNamespace :: string

record minioTenantClientInfo =
  mtci_AccessKey :: string
  mtci_CaBundle :: CertPool
  mtci_Endpoint :: string
  mtci_SecretKey :: string
  mtci_Secure :: bool

section \<open>Pure parts\<close>

definition tenantSecure :: "Tenant \<Rightarrow> bool" where
  "tenantSecure t =
     (if ten_RequestAutoCert t = Some True then True
      else if 0 < length (ten_ExternalCertSecret t) then True
      else False)"

definition tenantPortName :: "bool \<Rightarrow> string" where
  "tenantPortName s = (if s then ''https-minio'' else ''http-minio'')"

fun tenantEndpoint :: "string \<Rightarrow> string \<Rightarrow> ServicePort list \<Rightarrow> string" where
  "tenantEndpoint ns tsvcpn [] = ''''"
| "tenantEndpoint ns tsvcpn (p # ps) =
     (if sp_Name p \<noteq> tsvcpn then tenantEndpoint ns tsvcpn ps
      else ''minio'' @ ''.'' @ ns @ ''.svc:'' @ decimal (sp_Port p))"

definition caKeys :: "string list" where
  "caKeys = [''public.crt'', ''tls.crt'', ''ca.crt'']"

definition AppendCertsFromPEM :: "CertPool \<Rightarrow> string \<Rightarrow> CertPool" where
  "AppendCertsFromPEM p pem = p\<lparr>cp_Appended := cp_Appended p @ [pem]\<rparr>"

text \<open>The loop over \<open>ks\<close> that occurs three times.\<close>

fun appendKeys :: "(string \<rightharpoonup> string) \<Rightarrow> string list \<Rightarrow> CertPool \<Rightarrow> CertPool" where
  "appendKeys d [] p = p"
| "appendKeys d (k # ks) p =
     (case d k of None \<Rightarrow> appendKeys d ks p
      | Some ca \<Rightarrow> appendKeys d ks (AppendCertsFromPEM p ca))"

fun appendOperatorSecrets :: "Secret list \<Rightarrow> CertPool \<Rightarrow> CertPool" where
  "appendOperatorSecrets [] p = p"
| "appendOperatorSecrets (s # ss) p =
     (if \<not> hasPrefix (om_Name (sec_Meta s)) ''operator-ca-tls'' then appendOperatorSecrets ss p
      else appendOperatorSecrets ss (appendKeys (sec_Data s) caKeys p))"

definition initialPool :: "Lib \<Rightarrow> CertPool" where
  "initialPool L = (case systemCertPool L of
      Inl _ \<Rightarrow> \<lparr>cp_System = False, cp_Appended = []\<rparr>
    | Inr p \<Rightarrow> p)"

section \<open>Fetching\<close>

definition tenantCredentials ::
  "'w env \<Rightarrow> ResourceRef \<Rightarrow> Tenant \<Rightarrow> ('w, 'o call, string \<times> string) m" where
  "tenantCredentials E rr t =
     bindM (deref (ten_ConfigurationName t)) (\<lambda>cn.
     bindM (getSecret E \<lparr>nn_Namespace = rr_Namespace rr, nn_Name = cn\<rparr>) (\<lambda>ts.
     (case sec_Data ts ''config.env'' of
        None \<Rightarrow> fail (GoErr (''key config.env for '' @ om_Namespace (sec_Meta ts) @ ''/''
                  @ om_Name (sec_Meta ts) @ '' not found''))
      | Some tceb \<Rightarrow>
     bindM (liftE (envParse (lib E) tceb)) (\<lambda>tce.
     (case tce ''MINIO_ROOT_USER'' of
        None \<Rightarrow> fail (GoErr (''key MINIO_ROOT_USER in '' @ om_Namespace (sec_Meta ts) @ ''/''
                  @ om_Name (sec_Meta ts) @ ''/config.env not found''))
      | Some ak \<Rightarrow>
     (case tce ''MINIO_ROOT_PASSWORD'' of
        None \<Rightarrow> fail (GoErr (''key MINIO_ROOT_PASSWORD in '' @ om_Namespace (sec_Meta ts) @ ''/''
                  @ om_Name (sec_Meta ts) @ ''/config.env not found''))
      | Some sk \<Rightarrow> ret (ak, sk)))))))"

definition tenantServiceEndpoint ::
  "'w env \<Rightarrow> ResourceRef \<Rightarrow> bool \<Rightarrow> ('w, 'o call, string) m" where
  "tenantServiceEndpoint E rr s =
     bindM (getService E \<lparr>nn_Namespace = rr_Namespace rr, nn_Name = ''minio''\<rparr>) (\<lambda>tsvc.
     let e = tenantEndpoint (rr_Namespace rr) (tenantPortName s) (svc_Ports tsvc) in
     if e = '''' then fail (GoErr (''endpoint for minio service '' @ om_Namespace (svc_Meta tsvc)
                        @ ''/'' @ om_Name (svc_Meta tsvc) @ '' not found''))
     else ret e)"

definition appendPodCA :: "'w env \<Rightarrow> ResourceRef \<Rightarrow> CertPool \<Rightarrow> ('w, 'o call, CertPool) m" where
  "appendPodCA E rr cbp =
     bindM (attempt (getConfigMap E
       \<lparr>nn_Namespace = rr_Namespace rr, nn_Name = ''kube-root-ca.crt''\<rparr>)) (\<lambda>x.
     (case x of Inl _ \<Rightarrow> ret cbp | Inr pcacm \<Rightarrow> ret (appendKeys (cm_Data pcacm) caKeys cbp)))"

definition appendOperatorCAs :: "'w env \<Rightarrow> string \<Rightarrow> CertPool \<Rightarrow> ('w, 'o call, CertPool) m" where
  "appendOperatorCAs E ns cbp =
     bindM (attempt (listSecrets E ns)) (\<lambda>x.
     (case x of Inl _ \<Rightarrow> ret cbp | Inr sl \<Rightarrow> ret (appendOperatorSecrets sl cbp)))"

fun appendExternalCAs ::
  "'w env \<Rightarrow> string \<Rightarrow> CertRef list \<Rightarrow> CertPool \<Rightarrow> ('w, 'o call, CertPool) m" where
  "appendExternalCAs E ns [] cbp = ret cbp"
| "appendExternalCAs E ns (eca # ecas) cbp =
     (if cr_Type eca = ''kubernetes.io/tls'' then
        bindM (attempt (getSecret E \<lparr>nn_Namespace = ns, nn_Name = cr_Name eca\<rparr>)) (\<lambda>x.
        (case x of
           Inl _ \<Rightarrow> appendExternalCAs E ns ecas cbp
         | Inr s \<Rightarrow> appendExternalCAs E ns ecas (appendKeys (sec_Data s) caKeys cbp)))
      else appendExternalCAs E ns ecas cbp)"

definition tenantCaBundle ::
  "'w env \<Rightarrow> ResourceRef \<Rightarrow> minioTenantClientInfoOpts \<Rightarrow> Tenant \<Rightarrow> ('w, 'o call, CertPool) m" where
  "tenantCaBundle E rr opts t =
     bindM (appendPodCA E rr (initialPool (lib E))) (\<lambda>cbp.
     bindM (appendOperatorCAs E (opts_minioOperatorNamespace opts) cbp) (\<lambda>cbp.
     appendExternalCAs E (opts_minioOperatorNamespace opts) (ten_ExternalCaCertSecret t) cbp))"

definition getMinioTenantClientInfo ::
  "'w env \<Rightarrow> ResourceRef \<Rightarrow> minioTenantClientInfoOpts \<Rightarrow> ('w, 'o call, minioTenantClientInfo) m" where
  "getMinioTenantClientInfo E rr opts =
     (if rr_Namespace rr = '''' then fail (GoErr ''namespace empty'') else
     bindM (getTenant E \<lparr>nn_Namespace = rr_Namespace rr, nn_Name = rr_Name rr\<rparr>) (\<lambda>t.
     let s = tenantSecure t in
     bindM (tenantCredentials E rr t) (\<lambda>(ak, sk).
     bindM (tenantServiceEndpoint E rr s) (\<lambda>e.
     bindM (tenantCaBundle E rr opts t) (\<lambda>cbp.
     ret \<lparr>mtci_AccessKey = ak, mtci_CaBundle = cbp, mtci_Endpoint = e, mtci_SecretKey = sk,
          mtci_Secure = s\<rparr>)))))"

section \<open>Clients\<close>

definition GetClient :: "'w env \<Rightarrow> minioTenantClientInfo \<Rightarrow> ('w, 'o call, handle) m" where
  "GetClient E mtci =
     call (NewClient (mtci_Endpoint mtci) (mtci_AccessKey mtci) (mtci_SecretKey mtci)
             (mtci_Secure mtci) (mtci_CaBundle mtci))
       (\<lambda>w. e_NewClient E w (mtci_Endpoint mtci) (mtci_AccessKey mtci) (mtci_SecretKey mtci)
             (mtci_Secure mtci) (mtci_CaBundle mtci))"

text \<open>
  The transport is set on the client before the error of \<open>madmin.New\<close> is looked at; with no client
  the receiver is a nil pointer.
\<close>

definition GetAdminClient :: "'w env \<Rightarrow> minioTenantClientInfo \<Rightarrow> ('w, 'o call, handle) m" where
  "GetAdminClient E mtci =
     bindM (callPair (NewAdminClient (mtci_Endpoint mtci) (mtci_AccessKey mtci)
               (mtci_SecretKey mtci) (mtci_Secure mtci))
             (\<lambda>w. e_NewAdminClient E w (mtci_Endpoint mtci) (mtci_AccessKey mtci)
               (mtci_SecretKey mtci) (mtci_Secure mtci))) (\<lambda>(mtac, err).
     bindM (deref mtac) (\<lambda>h.
     bindM (call (SetCustomTransport h (mtci_CaBundle mtci))
             (\<lambda>w. (Inr (), e_SetCustomTransport E w h (mtci_CaBundle mtci)))) (\<lambda>_.
     bindM (checkErr err) (\<lambda>_.
     ret h))))"

text \<open>
  The three statements with which every reconciler starts its work on a tenant (a helper function in
  the access key reconciler, written out in the others).
\<close>

definition getAdminClient ::
  "('w, 'o) reconciler \<Rightarrow> ResourceRef \<Rightarrow> string \<Rightarrow> ('w, 'o call, handle) m" where
  "getAdminClient r tenantRef defaultNamespace =
     (let tr = ResourceRef_SetDefaultNamespace tenantRef defaultNamespace in
     bindM (getMinioTenantClientInfo (r_env r) tr
       \<lparr>opts_minioOperatorNamespace = minioOperatorNamespace r\<rparr>) (\<lambda>mtci.
     GetAdminClient (r_env r) mtci))"

definition getTenantClient ::
  "('w, 'o) reconciler \<Rightarrow> ResourceRef \<Rightarrow> string \<Rightarrow> ('w, 'o call, handle) m" where
  "getTenantClient r tenantRef defaultNamespace =
     (let tr = ResourceRef_SetDefaultNamespace tenantRef defaultNamespace in
     bindM (getMinioTenantClientInfo (r_env r) tr
       \<lparr>opts_minioOperatorNamespace = minioOperatorNamespace r\<rparr>) (\<lambda>mtci.
     GetClient (r_env r) mtci))"

section \<open>Lemmas\<close>

definition extendsPool :: "CertPool \<Rightarrow> CertPool \<Rightarrow> bool" where
  "extendsPool p q \<longleftrightarrow> cp_System q = cp_System p \<and> prefix (cp_Appended p) (cp_Appended q)"

lemma extendsPool_refl [simp]: "extendsPool p p"
  by (simp add: extendsPool_def)

lemma extendsPool_trans: "extendsPool p q \<Longrightarrow> extendsPool q r \<Longrightarrow> extendsPool p r"
  by (auto simp: extendsPool_def)

lemma extendsPool_append [simp]: "extendsPool p (AppendCertsFromPEM p pem)"
  by (simp add: extendsPool_def AppendCertsFromPEM_def)

lemma appendKeys_contents:
  "cp_System (appendKeys d ks p) = cp_System p"
  "cp_Appended (appendKeys d ks p) = cp_Appended p @ List.map_filter d ks"
  by (induction ks arbitrary: p)
    (auto simp: AppendCertsFromPEM_def List.map_filter_def split: option.split)

lemma extendsPool_appendKeys [simp]: "extendsPool p (appendKeys d ks p)"
  by (simp add: extendsPool_def appendKeys_contents)

lemma appendOperatorSecrets_contents:
  "cp_System (appendOperatorSecrets ss p) = cp_System p"
  "cp_Appended (appendOperatorSecrets ss p) = cp_Appended p @
     concat (map (\<lambda>s. List.map_filter (sec_Data s) caKeys)
       (filter (\<lambda>s. hasPrefix (om_Name (sec_Meta s)) ''operator-ca-tls'') ss))"
  by (induction ss arbitrary: p) (auto simp: appendKeys_contents)

lemma extendsPool_appendOperatorSecrets [simp]: "extendsPool p (appendOperatorSecrets ss p)"
  by (simp add: extendsPool_def appendOperatorSecrets_contents)

text \<open>
  The calls made on the way to a client; none of them writes to the cluster or the tenant. A
  triple whose conditions hold of all of them holds of the whole part.
\<close>

fun isClusterRead :: "'o call \<Rightarrow> bool" where
  "isClusterRead (GetSecret k) = True"
| "isClusterRead (GetTenant k) = True"
| "isClusterRead (GetService k) = True"
| "isClusterRead (GetConfigMap k) = True"
| "isClusterRead (ListSecrets ns) = True"
| "isClusterRead _ = False"

fun isInfra :: "'o call \<Rightarrow> bool" where
  "isInfra (NewClient ep ak sk s p) = True"
| "isInfra (NewAdminClient ep ak sk s) = True"
| "isInfra (SetCustomTransport h p) = True"
| "isInfra c = isClusterRead c"

lemma isClusterRead_isInfra [simp]: "isClusterRead c \<Longrightarrow> isInfra c"
  by (cases c) simp_all

lemma tenantCredentials_triple:
  assumes "\<And>c e. isClusterRead c \<Longrightarrow> P (c, e)" and "\<And>c e. isClusterRead c \<Longrightarrow> N (c, e)" and Z
  shows "triple P N Z (\<lambda>_. True) (tenantCredentials E rr t)"
  unfolding tenantCredentials_def calls
  by (intro triple_intro) (use assms in auto)

lemma tenantServiceEndpoint_triple:
  assumes "\<And>c e. isClusterRead c \<Longrightarrow> P (c, e)" and "\<And>c e. isClusterRead c \<Longrightarrow> N (c, e)"
  shows "triple P N Z (\<lambda>e. e \<noteq> '''') (tenantServiceEndpoint E rr s)"
  unfolding tenantServiceEndpoint_def calls
  by (intro triple_intro) (use assms in auto)

lemma appendPodCA_triple:
  assumes "\<And>c e. isClusterRead c \<Longrightarrow> P (c, e)" and "\<And>c e. isClusterRead c \<Longrightarrow> N (c, e)"
  shows "triple P N Z (extendsPool cbp) (appendPodCA E rr cbp)"
  unfolding appendPodCA_def calls by (intro triple_intro) (use assms in auto)

lemma appendOperatorCAs_triple:
  assumes "\<And>c e. isClusterRead c \<Longrightarrow> P (c, e)" and "\<And>c e. isClusterRead c \<Longrightarrow> N (c, e)"
  shows "triple P N Z (extendsPool cbp) (appendOperatorCAs E ns cbp)"
  unfolding appendOperatorCAs_def calls by (intro triple_intro) (use assms in auto)

lemma appendExternalCAs_triple:
  assumes "\<And>c e. isClusterRead c \<Longrightarrow> P (c, e)" and "\<And>c e. isClusterRead c \<Longrightarrow> N (c, e)"
  shows "triple P N Z (extendsPool cbp) (appendExternalCAs E ns ecas cbp)"
proof (induction ecas arbitrary: cbp)
  case Nil
  show ?case by (simp add: triple_ret)
next
  case (Cons eca ecas)
  show ?case
    unfolding appendExternalCAs.simps calls
    by (intro triple_intro Cons.IH triple_weaken [OF Cons.IH])
      (use assms in \<open>auto intro: extendsPool_trans [OF extendsPool_appendKeys]\<close>)
qed

lemma tenantCaBundle_triple:
  assumes "\<And>c e. isClusterRead c \<Longrightarrow> P (c, e)" and "\<And>c e. isClusterRead c \<Longrightarrow> N (c, e)"
  shows "triple P N Z (extendsPool (initialPool (lib E))) (tenantCaBundle E rr opts t)"
  unfolding tenantCaBundle_def
  apply (rule triple_bind [OF appendPodCA_triple]; (rule assms; assumption)?)
  apply (rule triple_bind [OF appendOperatorCAs_triple]; (rule assms; assumption)?)
  apply (rule triple_weaken [OF appendExternalCAs_triple]; (rule assms; assumption)?)
  apply (blast intro: extendsPool_trans)
  done

lemma getMinioTenantClientInfo_triple:
  assumes "\<And>c e. isClusterRead c \<Longrightarrow> P (c, e)" and "\<And>c e. isClusterRead c \<Longrightarrow> N (c, e)" and Z
  shows "triple P N Z (\<lambda>_. True) (getMinioTenantClientInfo E rr opts)"
  unfolding getMinioTenantClientInfo_def getTenant_def split_def
  by (intro triple_intro triple_bind [OF tenantCredentials_triple]
      triple_bind [OF tenantServiceEndpoint_triple] triple_bind [OF tenantCaBundle_triple])
    (use assms in auto)

lemma GetAdminClient_triple:
  assumes "\<And>c e. isInfra c \<Longrightarrow> P (c, e)" and "\<And>c e. isInfra c \<Longrightarrow> N (c, e)" and Z
  shows "triple P N Z (\<lambda>_. True) (GetAdminClient E mtci)"
  unfolding GetAdminClient_def split_def
  by (intro triple_intro) (use assms in auto)

lemma getAdminClient_triple:
  assumes "\<And>c e. isInfra c \<Longrightarrow> P (c, e)" and "\<And>c e. isInfra c \<Longrightarrow> N (c, e)" and Z
  shows "triple P N Z (\<lambda>_. True) (getAdminClient r rr ns)"
  unfolding getAdminClient_def
  by (intro triple_intro triple_bind [OF getMinioTenantClientInfo_triple] GetAdminClient_triple)
    (use assms in auto)

lemma getTenantClient_triple:
  assumes "\<And>c e. isInfra c \<Longrightarrow> P (c, e)" and "\<And>c e. isInfra c \<Longrightarrow> N (c, e)" and Z
  shows "triple P N Z (\<lambda>_. True) (getTenantClient r rr ns)"
  unfolding getTenantClient_def GetClient_def
  by (intro triple_intro triple_bind [OF getMinioTenantClientInfo_triple] triple_call)
    (use assms in auto)

text \<open>
  The collection of certificate authorities returns a pool whatever the lookups answer, and only
  ever adds to the pool it started from.
\<close>

lemma appendExternalCAs_neverFails: "neverFails (appendExternalCAs E ns ecas cbp)"
proof (induction ecas arbitrary: cbp)
  case Nil
  show ?case by (simp add: never_fails_intro)
next
  case (Cons eca ecas)
  show ?case unfolding appendExternalCAs.simps calls
    by (intro never_fails_intro Cons.IH)
qed

lemma tenantCaBundle_neverFails: "neverFails (tenantCaBundle E rr opts t)"
  unfolding tenantCaBundle_def appendPodCA_def appendOperatorCAs_def calls
  by (intro never_fails_intro appendExternalCAs_neverFails)

section \<open>Properties\<close>

lemma tenantEndpoint_find:
  "tenantEndpoint ns n ps = (case find (\<lambda>p. sp_Name p = n) ps of None \<Rightarrow> ''''
     | Some p \<Rightarrow> ''minio.'' @ ns @ ''.svc:'' @ decimal (sp_Port p))"
  by (induction ps) auto

lemma tenantSecure_iff:
  "tenantSecure t \<longleftrightarrow> ten_RequestAutoCert t = Some True \<or> ten_ExternalCertSecret t \<noteq> []"
  by (simp add: tenantSecure_def)

lemma tenantCredentials_Ok:
  "tenantCredentials E rr t w = (Ok (ak, sk), w', tr) \<Longrightarrow>
     \<exists>cn sec conf tce. ten_ConfigurationName t = Some cn \<and>
       e_GetSecret E w \<lparr>nn_Namespace = rr_Namespace rr, nn_Name = cn\<rparr> = (Inr sec, w') \<and>
       sec_Data sec ''config.env'' = Some conf \<and> envParse (lib E) conf = Inr tce \<and>
       tce ''MINIO_ROOT_USER'' = Some ak \<and> tce ''MINIO_ROOT_PASSWORD'' = Some sk"
  by (auto simp: tenantCredentials_def prim calls split: prod.splits option.splits sum.splits res.splits)

lemma tenantServiceEndpoint_Ok:
  "tenantServiceEndpoint E rr s w = (Ok e, w', tr) \<Longrightarrow>
     \<exists>svc p. e_GetService E w \<lparr>nn_Namespace = rr_Namespace rr, nn_Name = ''minio''\<rparr> = (Inr svc, w') \<and>
       find (\<lambda>p. sp_Name p = tenantPortName s) (svc_Ports svc) = Some p \<and>
       e = ''minio.'' @ rr_Namespace rr @ ''.svc:'' @ decimal (sp_Port p)"
  by (auto simp: tenantServiceEndpoint_def prim calls tenantEndpoint_find Let_def
      split: prod.splits option.splits sum.splits res.splits if_splits)

lemma tenantCaBundle_extends:
  assumes "tenantCaBundle E rr opts t w = (Ok p, w', tr)"
  shows "extendsPool (initialPool (lib E)) p"
proof -
  have "triple (\<lambda>_. True) (\<lambda>_. True) True (extendsPool (initialPool (lib E)))
      (tenantCaBundle E rr opts t)"
    by (rule tenantCaBundle_triple) simp_all
  from tripleD [OF this assms] show ?thesis by simp
qed

text \<open>The information of the tenant that a reference names, as the cluster answers from the world \<open>w\<close> on.\<close>

definition fromTenant :: "'w env \<Rightarrow> ResourceRef \<Rightarrow> 'w \<Rightarrow> minioTenantClientInfo \<Rightarrow> bool" where
  "fromTenant E rr w info \<longleftrightarrow> (\<exists>ten w1 cn sec w2 conf tce svc w3 p.
    rr_Namespace rr \<noteq> '''' \<and>
    e_GetTenant E w \<lparr>nn_Namespace = rr_Namespace rr, nn_Name = rr_Name rr\<rparr> = (Inr ten, w1) \<and>
    ten_ConfigurationName ten = Some cn \<and>
    e_GetSecret E w1 \<lparr>nn_Namespace = rr_Namespace rr, nn_Name = cn\<rparr> = (Inr sec, w2) \<and>
    sec_Data sec ''config.env'' = Some conf \<and> envParse (lib E) conf = Inr tce \<and>
    tce ''MINIO_ROOT_USER'' = Some (mtci_AccessKey info) \<and>
    tce ''MINIO_ROOT_PASSWORD'' = Some (mtci_SecretKey info) \<and>
    e_GetService E w2 \<lparr>nn_Namespace = rr_Namespace rr, nn_Name = ''minio''\<rparr> = (Inr svc, w3) \<and>
    mtci_Secure info = (ten_RequestAutoCert ten = Some True \<or> ten_ExternalCertSecret ten \<noteq> []) \<and>
    find (\<lambda>p. sp_Name p = (if mtci_Secure info then ''https-minio'' else ''http-minio''))
      (svc_Ports svc) = Some p \<and>
    mtci_Endpoint info = ''minio.'' @ rr_Namespace rr @ ''.svc:'' @ decimal (sp_Port p) \<and>
    extendsPool (initialPool (lib E)) (mtci_CaBundle info))"

lemma getMinioTenantClientInfo_from:
  fixes tr :: "'o call event list"
  assumes "getMinioTenantClientInfo E rr opts w = (Ok info, w', tr)"
  shows "fromTenant E rr w info"
proof -
  from assms obtain ten w1 ak sk e pool w2 w3 w4
    and t2 t3 t4 :: "'o call event list" where
    ns: "rr_Namespace rr \<noteq> ''''" and
    ten: "e_GetTenant E w \<lparr>nn_Namespace = rr_Namespace rr, nn_Name = rr_Name rr\<rparr> = (Inr ten, w1)" and
    cred: "tenantCredentials E rr ten w1 = (Ok (ak, sk), w2, t2)" and
    svc: "tenantServiceEndpoint E rr (tenantSecure ten) w2 = (Ok e, w3, t3)" and
    ca: "tenantCaBundle E rr opts ten w3 = (Ok pool, w4, t4)" and
    info: "info = \<lparr>mtci_AccessKey = ak, mtci_CaBundle = pool, mtci_Endpoint = e,
      mtci_SecretKey = sk, mtci_Secure = tenantSecure ten\<rparr>"
    unfolding getMinioTenantClientInfo_def Let_def getTenant_def
    by (auto simp: prim split: prod.splits sum.splits res.splits if_splits)
  show ?thesis
    using ns ten tenantCredentials_Ok [OF cred] tenantServiceEndpoint_Ok [OF svc]
      tenantCaBundle_extends [OF ca]
    unfolding fromTenant_def info tenantPortName_def by (fastforce simp: tenantSecure_iff)
qed

text \<open>
  C33 - The information a client is opened with comes from the referenced tenant: whenever
  \<open>getMinioTenantClientInfo\<close> returns, the tenant was found under the reference, the credentials are
  the root user and password of the configuration secret the tenant names, the connection is secure
  exactly if the tenant requests or brings a certificate, the endpoint is the service's first port
  of the matching name, and the pool of authorities extends the system's.
\<close>

theorem getMinioTenantClientInfo_sound:
  fixes tr :: "'o call event list"
  assumes "getMinioTenantClientInfo E rr opts w = (Ok info, w', tr)"
  shows "\<exists>ten w1 cn sec w2 conf tce svc w3 p.
    rr_Namespace rr \<noteq> '''' \<and>
    e_GetTenant E w \<lparr>nn_Namespace = rr_Namespace rr, nn_Name = rr_Name rr\<rparr> = (Inr ten, w1) \<and>
    ten_ConfigurationName ten = Some cn \<and>
    e_GetSecret E w1 \<lparr>nn_Namespace = rr_Namespace rr, nn_Name = cn\<rparr> = (Inr sec, w2) \<and>
    sec_Data sec ''config.env'' = Some conf \<and> envParse (lib E) conf = Inr tce \<and>
    tce ''MINIO_ROOT_USER'' = Some (mtci_AccessKey info) \<and>
    tce ''MINIO_ROOT_PASSWORD'' = Some (mtci_SecretKey info) \<and>
    e_GetService E w2 \<lparr>nn_Namespace = rr_Namespace rr, nn_Name = ''minio''\<rparr> = (Inr svc, w3) \<and>
    mtci_Secure info = (ten_RequestAutoCert ten = Some True \<or> ten_ExternalCertSecret ten \<noteq> []) \<and>
    find (\<lambda>p. sp_Name p = (if mtci_Secure info then ''https-minio'' else ''http-minio''))
      (svc_Ports svc) = Some p \<and>
    mtci_Endpoint info = ''minio.'' @ rr_Namespace rr @ ''.svc:'' @ decimal (sp_Port p) \<and>
    extendsPool (initialPool (lib E)) (mtci_CaBundle info)"
  using getMinioTenantClientInfo_from [OF assms] unfolding fromTenant_def .

theorem getMinioTenantClientInfo_sound_witness:
  "\<exists>ten p. ten_RequestAutoCert ten = Some True \<and> sp_Port p = 443 \<and>
     find (\<lambda>p. sp_Name p = ''https-minio'') (svc_Ports sampleService) = Some p \<and>
     e_GetTenant sampleEnv () \<lparr>nn_Namespace = ''ns'', nn_Name = ''t''\<rparr> = (Inr ten, ())"
proof -
  have "getMinioTenantClientInfo sampleEnv \<lparr>rr_Name = ''t'', rr_Namespace = ''ns''\<rparr>
      \<lparr>opts_minioOperatorNamespace = ''op''\<rparr> () =
    (Ok \<lparr>mtci_AccessKey = ''root'', mtci_CaBundle = \<lparr>cp_System = True, cp_Appended = []\<rparr>,
       mtci_Endpoint = ''minio.ns.svc:443'', mtci_SecretKey = ''pw'', mtci_Secure = True\<rparr>, (),
     snd (snd (getMinioTenantClientInfo sampleEnv \<lparr>rr_Name = ''t'', rr_Namespace = ''ns''\<rparr>
      \<lparr>opts_minioOperatorNamespace = ''op''\<rparr> ())) :: unit call event list)"
    by (simp add: getMinioTenantClientInfo_def tenantCredentials_def tenantServiceEndpoint_def
        tenantCaBundle_def appendPodCA_def appendOperatorCAs_def prim calls sample tenantSecure_def
        tenantPortName_def initialPool_def Let_def decimal_def decimalNat.simps char_of_def bit_0)
  from getMinioTenantClientInfo_sound [OF this] show ?thesis
    by (auto simp: sample)
qed

text \<open>Any variant of the sample environment that leaves the tenant's resources alone yields a client.\<close>

definition sampleInfra :: "'w env \<Rightarrow> bool" where
  "sampleInfra E \<longleftrightarrow> lib E = sampleLib \<and> e_GetTenant E = e_GetTenant anyWorldEnv \<and>
     e_GetSecret E = e_GetSecret anyWorldEnv \<and> e_GetService E = e_GetService anyWorldEnv \<and>
     e_GetConfigMap E = e_GetConfigMap anyWorldEnv \<and> e_ListSecrets E = e_ListSecrets anyWorldEnv \<and>
     e_NewClient E = e_NewClient anyWorldEnv \<and> e_NewAdminClient E = e_NewAdminClient anyWorldEnv \<and>
     e_SetCustomTransport E = e_SetCustomTransport anyWorldEnv"

lemmas open_client_defs = ResourceRef_SetDefaultNamespace_def getMinioTenantClientInfo_def
  tenantCredentials_def tenantServiceEndpoint_def tenantCaBundle_def appendPodCA_def
  appendOperatorCAs_def tenantSecure_def tenantPortName_def initialPool_def Let_def

lemma getAdminClient_opens:
  assumes "sampleInfra (r_env r)" and "ns \<noteq> ''''"
  shows "\<exists>t. getAdminClient r rr ns w = (Ok (Handle 0), w, t)"
  using assms unfolding sampleInfra_def
  by (simp add: getAdminClient_def GetAdminClient_def open_client_defs prim calls sample)

lemma getTenantClient_opens:
  assumes "sampleInfra (r_env r)" and "ns \<noteq> ''''"
  shows "\<exists>t. getTenantClient r rr ns w = (Ok (Handle 0), w, t)"
  using assms unfolding sampleInfra_def
  by (simp add: getTenantClient_def GetClient_def open_client_defs prim calls sample)

lemma getAdminClient_sample:
  assumes "sampleInfra E"
  obtains t where "getAdminClient (reconcilerIn E x) sampleRef ''ns'' () = (Ok (Handle 0), (), t)"
  using getAdminClient_opens [of "reconcilerIn E x" "''ns''" sampleRef "()"] assms that by auto

text \<open>
  Certificate authorities are optional: whatever the lookups of the pod's config map, of the
  operator's secrets and of the external secrets answer, collecting them returns a pool, and it is
  the system's pool with certificates appended.
\<close>

theorem tenantCaBundle_total:
  fixes E :: "'w env"
  shows
  "\<exists>p w' (tr :: 'o call event list).
     tenantCaBundle E rr opts t w = (Ok p, w', tr) \<and> extendsPool (initialPool (lib E)) p"
proof -
  let ?c = "tenantCaBundle E rr opts t :: ('w, 'o call, CertPool) m"
  obtain p where p: "outcome ?c w = Ok p"
    using tenantCaBundle_neverFails [of E rr opts t] unfolding neverFails_def by blast
  obtain x w' tr where run: "?c w = (x, w', tr)" by (cases "?c w")
  with p have ok: "?c w = (Ok p, w', tr)" by (simp add: outcome_def)
  show ?thesis by (intro exI conjI) (rule ok, rule tenantCaBundle_extends [OF ok])
qed

text \<open>The calls with which an admin client is made of the information of a tenant.\<close>

definition newAdminClient :: "minioTenantClientInfo \<Rightarrow> 'o call" where
  "newAdminClient info = NewAdminClient (mtci_Endpoint info) (mtci_AccessKey info)
     (mtci_SecretKey info) (mtci_Secure info)"

definition adminClientAnswer :: "'w env \<Rightarrow> minioTenantClientInfo \<Rightarrow> 'w \<Rightarrow> handle option \<times> goerr option" where
  "adminClientAnswer E info w = fst (e_NewAdminClient E w (mtci_Endpoint info) (mtci_AccessKey info)
     (mtci_SecretKey info) (mtci_Secure info))"

lemma GetAdminClient_run:
  assumes "GetAdminClient E info w = (x, w', t)"
  shows "(case x of
      Ok h \<Rightarrow> adminClientAnswer E info w = (Some h, None) \<and>
        t = [(newAdminClient info, None), (SetCustomTransport h (mtci_CaBundle info), None)]
    | Err e \<Rightarrow> (\<exists>h. adminClientAnswer E info w = (Some h, Some e) \<and>
        t = [(newAdminClient info, Some e), (SetCustomTransport h (mtci_CaBundle info), None)])
    | Panic \<Rightarrow> (\<exists>e. adminClientAnswer E info w = (None, e) \<and> t = [(newAdminClient info, e)]))"
  using assms
  by (auto simp: GetAdminClient_def adminClientAnswer_def newAdminClient_def prim
      split: prod.splits option.splits res.splits)

lemma getMinioTenantClientInfo_reads_only:
  assumes "getMinioTenantClientInfo E rr opts w = (x, w', t)"
  shows "\<forall>ev \<in> set t. isClusterRead (fst ev)"
proof -
  have "triple (\<lambda>(c, _). isClusterRead c) (\<lambda>_. True) True (\<lambda>_. True)
      (getMinioTenantClientInfo E rr opts)"
    by (rule getMinioTenantClientInfo_triple) simp_all
  from tripleD [OF this assms] show ?thesis by (cases x) auto
qed

lemma getMinioTenantClientInfo_panics:
  fixes t :: "'o call event list"
  assumes "getMinioTenantClientInfo E rr opts w = (Panic, w', t)"
  shows "\<exists>ten w1. e_GetTenant E w \<lparr>nn_Namespace = rr_Namespace rr, nn_Name = rr_Name rr\<rparr> = (Inr ten, w1) \<and>
    ten_ConfigurationName ten = None"
proof (cases "e_GetTenant E w \<lparr>nn_Namespace = rr_Namespace rr, nn_Name = rr_Name rr\<rparr>")
  case (Pair x w1)
  have authorities: "outcome (tenantCaBundle E rr opts ten :: ('a, 'o call, CertPool) m) v \<noteq> Panic" for ten v
    using tenantCaBundle_neverFails [of E rr opts ten] unfolding neverFails_def
    by (metis res.distinct(3))
  have service: "outcome (tenantServiceEndpoint E rr b :: ('a, 'o call, string) m) v \<noteq> Panic" for b v
    by (auto simp: tenantServiceEndpoint_def outcome_def prim calls Let_def split: prod.splits sum.splits)
  have creds: "outcome (tenantCredentials E rr ten :: ('a, 'o call, string \<times> string) m) v \<noteq> Panic"
    if "ten_ConfigurationName ten \<noteq> None" for ten v
    using that
    by (auto simp: tenantCredentials_def outcome_def prim calls split: prod.splits sum.splits option.splits)
  show ?thesis
    using assms Pair authorities service creds
    unfolding getMinioTenantClientInfo_def Let_def getTenant_def outcome_def
    by (auto simp: prim split: prod.splits sum.splits res.splits if_splits)
      (metis fst_conv option.exhaust)+
qed

text \<open>
  C34 - Opening an admin client, call by call, for any answers of the cluster and of \<open>madmin.New\<close>. When
  a client is returned, the cluster was only read, then a client was made with the endpoint, the root
  credentials and the security of the tenant that the reference (with the resource's namespace as its
  default) names, and the last call set the transport with the tenant's pool of authorities on this
  very client. When an error is returned, either only reads were made, or \<open>madmin.New\<close> answered with
  the error and a client, whose transport was set all the same. When it panics, either the tenant was
  found without the name of its configuration, or \<open>madmin.New\<close> answered without a client: the
  transport is set on the nil pointer before the error is looked at, so the error is never returned.
\<close>

theorem getAdminClient_opened:
  fixes t :: "'o call event list"
  assumes "getAdminClient r rr ns w = (x, w', t)"
  defines "tr \<equiv> ResourceRef_SetDefaultNamespace rr ns"
  shows "(case x of
      Ok h \<Rightarrow> (\<exists>info w1 reads. fromTenant (r_env r) tr w info \<and>
        (\<forall>ev \<in> set reads. isClusterRead (fst ev)) \<and>
        adminClientAnswer (r_env r) info w1 = (Some h, None) \<and>
        t = reads @ [(newAdminClient info, None), (SetCustomTransport h (mtci_CaBundle info), None)])
    | Err e \<Rightarrow> (\<forall>ev \<in> set t. isClusterRead (fst ev)) \<or>
        (\<exists>info w1 h reads. fromTenant (r_env r) tr w info \<and>
          (\<forall>ev \<in> set reads. isClusterRead (fst ev)) \<and>
          adminClientAnswer (r_env r) info w1 = (Some h, Some e) \<and>
          t = reads @ [(newAdminClient info, Some e), (SetCustomTransport h (mtci_CaBundle info), None)])
    | Panic \<Rightarrow>
        (\<exists>ten w1. e_GetTenant (r_env r) w \<lparr>nn_Namespace = rr_Namespace tr, nn_Name = rr_Name tr\<rparr>
          = (Inr ten, w1) \<and> ten_ConfigurationName ten = None) \<or>
        (\<exists>info w1 e reads. fromTenant (r_env r) tr w info \<and>
          (\<forall>ev \<in> set reads. isClusterRead (fst ev)) \<and>
          adminClientAnswer (r_env r) info w1 = (None, e) \<and>
          t = reads @ [(newAdminClient info, e)]))"
proof -
  let ?opts = "\<lparr>opts_minioOperatorNamespace = minioOperatorNamespace r\<rparr>"
  obtain y w1 t1 where info: "getMinioTenantClientInfo (r_env r) tr ?opts w = (y, w1, t1 :: 'o call event list)"
    by (cases "getMinioTenantClientInfo (r_env r) tr ?opts w :: _ \<times> _ \<times> 'o call event list")
  note reads = getMinioTenantClientInfo_reads_only [OF info]
  show ?thesis
  proof (cases y)
    case (Ok i)
    obtain x2 w2 t2 where run: "GetAdminClient (r_env r) i w1 = (x2, w2, t2 :: 'o call event list)"
      by (cases "GetAdminClient (r_env r) i w1 :: _ \<times> _ \<times> 'o call event list")
    have res: "x = x2" "t = t1 @ t2"
      using assms(1) info run Ok by (simp_all add: getAdminClient_def Let_def tr_def bindM_def)
    have from_t: "fromTenant (r_env r) tr w i" using getMinioTenantClientInfo_from [OF info [unfolded Ok]] .
    from GetAdminClient_run [OF run] from_t reads res show ?thesis
      by (cases x2) (auto intro!: exI [where x = i] exI [where x = w1] exI [where x = t1])
  next
    case (Err e)
    then show ?thesis
      using assms(1) info reads by (auto simp: getAdminClient_def Let_def tr_def bindM_def)
  next
    case Panic
    then show ?thesis
      using assms(1) info getMinioTenantClientInfo_panics [OF info [unfolded Panic]]
      by (auto simp: getAdminClient_def Let_def tr_def bindM_def)
  qed
qed

text \<open>An environment in which \<open>madmin.New\<close> answers with an error and no client.\<close>

definition noClientEnv :: "unit env" where
  "noClientEnv = sampleEnv\<lparr>e_NewAdminClient := \<lambda>w e a s b. ((None, Some (GoErr ''invalid endpoint'')), w)\<rparr>"

theorem getAdminClient_opened_witness:
  "\<exists>pool reads. trace (getAdminClient (sampleReconciler ()) sampleRef ''ns'') () =
     reads @ [(NewAdminClient ''minio.ns.svc:443'' ''root'' ''pw'' True, None),
              (SetCustomTransport (Handle 0) pool, None)]"
proof -
  have "sampleInfra sampleEnv" by (simp add: sampleInfra_def sample)
  then obtain t where run: "getAdminClient (sampleReconciler ()) sampleRef ''ns'' () = (Ok (Handle 0), (), t)"
    by (rule getAdminClient_sample)
  have ref: "ResourceRef_SetDefaultNamespace sampleRef ''ns'' = \<lparr>rr_Name = ''t'', rr_Namespace = ''ns''\<rparr>"
    by (simp add: ResourceRef_SetDefaultNamespace_def sampleRef_def)
  from getAdminClient_opened [OF run] obtain info reads
    where info: "fromTenant sampleEnv \<lparr>rr_Name = ''t'', rr_Namespace = ''ns''\<rparr> () info"
      and t: "t = reads @ [(newAdminClient info, None),
        (SetCustomTransport (Handle 0) (mtci_CaBundle info), None)]"
    by (auto simp: ref)
  have port: "decimal 443 = ''443''"
    by (simp add: decimal_def decimalNat.simps char_of_def bit_0)
  have "newAdminClient info = NewAdminClient ''minio.ns.svc:443'' ''root'' ''pw'' True"
    using info port unfolding fromTenant_def newAdminClient_def
    by (auto simp: sample)
  moreover have "trace (getAdminClient (sampleReconciler ()) sampleRef ''ns'') () = t"
    using run by (simp add: trace_def)
  ultimately show ?thesis using t by auto
qed

theorem getAdminClient_no_client_panics:
  "outcome (getAdminClient (reconcilerIn noClientEnv ()) sampleRef ''ns'') () = Panic"
  by (simp add: getAdminClient_def GetAdminClient_def open_client_defs noClientEnv_def outcome_def prim calls sample)

text \<open>
  Finding a tenant only reads: every call of \<open>getMinioTenantClientInfo\<close> is a read of the cluster,
  and a reference without a namespace is refused without any call.
\<close>

theorem getMinioTenantClientInfo_reads:
  "list_all (\<lambda>(c, _). isClusterRead c) (trace (getMinioTenantClientInfo E rr opts) w) \<and>
   getMinioTenantClientInfo E (rr\<lparr>rr_Namespace := ''''\<rparr>) opts w =
     (Err (GoErr ''namespace empty''), w, [])"
proof -
  have "triple (\<lambda>(c, _). isClusterRead c) (\<lambda>_. True) True (\<lambda>_. True)
      (getMinioTenantClientInfo E rr opts)"
    by (rule getMinioTenantClientInfo_triple) simp_all
  then show ?thesis
    using triple_trace
    by (fastforce simp: list_all_iff getMinioTenantClientInfo_def prim)
qed

end
