(* ===== verification/Reconcile_Contract.thy ===== *)
theory Reconcile_Contract
  imports Tenant_Client
begin

text \<open>
  What the seven reconcilers have in common. Each fetches its object and, if it is there, runs one
  pass over it. \<open>reconciler_contract\<close> is the interface of such a pass: which objects it may send to
  the API server, when it may write to the tenant at all, and what a successful pass returns. Its
  consequences are proved once: no chain of passes and user edits ever stores an object without
  the finalizer while its status still records a managed spec. Every reconciler's theory interprets
  the locale on its own definitions.
\<close>

section \<open>Conditions on calls\<close>

text \<open>
  An object is safe when it carries the operator's finalizer or records no spec as applied: then
  Kubernetes cannot drop it while the operator still has something of it in a tenant.
\<close>

definition safeObj :: "Lib \<Rightarrow> ('o \<Rightarrow> ObjectMeta) \<Rightarrow> ('o \<Rightarrow> bool) \<Rightarrow> 'o \<Rightarrow> bool" where
  "safeObj L metaOf statusSet x \<longleftrightarrow> containsFinalizer L (metaOf x) finalizer \<or> \<not> statusSet x"

definition updatesSafe ::
  "Lib \<Rightarrow> ('o \<Rightarrow> ObjectMeta) \<Rightarrow> ('o \<Rightarrow> bool) \<Rightarrow> 'o call event \<Rightarrow> bool" where
  "updatesSafe L metaOf statusSet ev \<longleftrightarrow> (\<forall>x. fst ev = Update x \<longrightarrow> safeObj L metaOf statusSet x)"

fun isWrite :: "'o call \<Rightarrow> bool" where
  "isWrite (Mutate h q) = True"
| "isWrite (CreateSecret s) = True"
| "isWrite (UpdateSecret s) = True"
| "isWrite (DeleteSecret k) = True"
| "isWrite _ = False"

definition noWrite :: "'o call event \<Rightarrow> bool" where
  "noWrite ev \<longleftrightarrow> \<not> isWrite (fst ev)"

definition updateOk :: "'o call event \<Rightarrow> bool" where
  "updateOk ev \<longleftrightarrow> (\<forall>x. fst ev = Update x \<longrightarrow> snd ev = None)"

lemma updatesSafe_Update [simp]: "updatesSafe L m s (Update x, e) = safeObj L m s x"
  by (simp add: updatesSafe_def)

lemma updatesSafe_write [simp]: "isWrite c \<Longrightarrow> updatesSafe L m s (c, e)"
  by (cases c) (simp_all add: updatesSafe_def)

lemma updatesSafe_infra [simp]: "isInfra c \<Longrightarrow> updatesSafe L m s (c, e)"
  by (cases c) (simp_all add: updatesSafe_def)

lemma infra_not_write [simp]: "isInfra c \<Longrightarrow> \<not> isWrite c"
  by (cases c) simp_all

lemma updatesSafe_query [simp]: "updatesSafe L m s (Query h q, e)" "updatesSafe L m s (RandRead n, e)"
  by (simp_all add: updatesSafe_def)

lemma noWrite_simps [simp]: "noWrite (c, e) \<longleftrightarrow> \<not> isWrite c"
  by (simp add: noWrite_def)

lemma updateOk_simps [simp]:
  "updateOk (c, None)"
  "isWrite c \<Longrightarrow> updateOk (c, e)"
  "isInfra c \<Longrightarrow> updateOk (c, e)"
  "updateOk (Query h q, e)"
  "updateOk (RandRead n, e)"
  by (cases c; simp_all add: updateOk_def)+

fun isQuery :: "'o call \<Rightarrow> bool" where
  "isQuery (Query h q) = True"
| "isQuery (RandRead n) = True"
| "isQuery _ = False"

text \<open>
  The parts of a pass are verified once for any condition \<open>I\<close> on the reconciler's own objects that
  survives storing: every update sends an object with \<open>I\<close>, and the calls to other parties are
  unrestricted. \<open>profile\<close> says that the trace conditions \<open>P\<close> and \<open>N\<close> ask for no more than that.
\<close>

definition profile :: "('o call event \<Rightarrow> bool) \<Rightarrow> ('o call event \<Rightarrow> bool) \<Rightarrow> ('o \<Rightarrow> bool) \<Rightarrow> bool" where
  "profile P N I \<longleftrightarrow>
     (\<forall>c e. isWrite c \<or> isInfra c \<or> isQuery c \<longrightarrow> P (c, e) \<and> N (c, e)) \<and>
     (\<forall>y e. I y \<longrightarrow> P (Update y, e)) \<and> (\<forall>y. I y \<longrightarrow> N (Update y, None))"

definition survives :: "('w, 'o) reconciler \<Rightarrow> ('o \<Rightarrow> bool) \<Rightarrow> bool" where
  "survives r I \<longleftrightarrow> (\<forall>w y y' w'. r_Update r w y = (Inr y', w') \<longrightarrow> I y \<longrightarrow> I y')"

lemma isQuery_simps [simp]:
  "isQuery c \<Longrightarrow> updatesSafe L m s (c, e)"
  "isQuery c \<Longrightarrow> updateOk (c, e)"
  by (cases c; simp)+

lemma profile_updatesSafe:
  "profile (updatesSafe L metaOf st) (\<lambda>_. True) (\<lambda>y. containsFinalizer L (metaOf y) finalizer)"
  by (auto simp: profile_def safeObj_def)

lemma profile_updateOk: "profile (\<lambda>_. True) updateOk (\<lambda>_. True)"
  by (auto simp: profile_def)

lemma survives_finalizer:
  assumes "finalizerLaws (lib (r_env r))" and "updateStores same r"
    and "\<And>x y. same x y \<Longrightarrow> metaStored (metaOf x) (metaOf y)"
  shows "survives r (\<lambda>y. containsFinalizer (lib (r_env r)) (metaOf y) finalizer)"
  using assms(2,3) metaStored_contains [OF assms(1)]
  unfolding survives_def updateStores_def by blast

lemma survives_True: "survives r (\<lambda>_. True)"
  by (simp add: survives_def)

lemma triple_updateObj:
  assumes "profile P N I" and "survives r I" and "I y"
  shows "triple P N Z I (updateObj r y)"
  unfolding updateObj_def
  by (rule triple_call) (use assms in \<open>auto simp: profile_def survives_def\<close>)

lemma triple_bind_updateObj:
  assumes "profile P N I" and "survives r I" and "I y" and "\<And>y'. I y' \<Longrightarrow> triple P N Z B (f y')"
  shows "triple P N Z B (bindM (updateObj r y) f)"
  by (rule triple_bind [OF triple_updateObj [OF assms(1-3)] assms(4)])

lemma getTenantClient_profile:
  "profile P N I \<Longrightarrow> triple P N True (\<lambda>_. True) (getTenantClient r rr ns)"
  by (rule getTenantClient_triple) (simp_all add: profile_def)

lemma getAdminClient_profile:
  "profile P N I \<Longrightarrow> triple P N True (\<lambda>_. True) (getAdminClient r rr ns)"
  by (rule getAdminClient_triple) (simp_all add: profile_def)

lemmas tenant_calls = getSecret_def createSecret_def updateSecret_def deleteSecret_def mutate_def
  queryM_def randRead_def

section \<open>What a pass asks before it records\<close>

text \<open>
  Events of a trace: a request to the tenant with an accepted answer, a lookup with one, an update
  that sends an object with some property.
\<close>

definition asked :: "mutation \<Rightarrow> (goerr option \<Rightarrow> bool) \<Rightarrow> 'o call event \<Rightarrow> bool" where
  "asked q ok ev \<longleftrightarrow> (case fst ev of Mutate h q' \<Rightarrow> q' = q | _ \<Rightarrow> False) \<and> ok (snd ev)"

definition looked :: "query \<Rightarrow> (goerr option \<Rightarrow> bool) \<Rightarrow> 'o call event \<Rightarrow> bool" where
  "looked q ok ev \<longleftrightarrow> (case fst ev of Query h q' \<Rightarrow> q' = q | _ \<Rightarrow> False) \<and> ok (snd ev)"

definition sent :: "('o \<Rightarrow> bool) \<Rightarrow> 'o call event \<Rightarrow> bool" where
  "sent st ev \<longleftrightarrow> (case fst ev of Update y \<Rightarrow> st y | _ \<Rightarrow> False)"

definition accepted :: "goerr option \<Rightarrow> bool" where
  "accepted e \<longleftrightarrow> e = None"

text \<open>Neither the tenant, nor a secret, nor the object is written.\<close>

definition readOnly :: "'o call event \<Rightarrow> bool" where
  "readOnly ev \<longleftrightarrow> \<not> isWrite (fst ev) \<and> (case fst ev of Update y \<Rightarrow> False | _ \<Rightarrow> True)"

lemma readOnly_simps [simp]:
  "isInfra c \<Longrightarrow> readOnly (c, e)" "isQuery c \<Longrightarrow> readOnly (c, e)" "readOnly (Get k, e)"
  "\<not> readOnly (Update y, e)" "isWrite c \<Longrightarrow> \<not> readOnly (c, e)"
  by (simp_all add: readOnly_def, (cases c; simp)+)

lemma triple_updateObj_same:
  assumes "updateStores same r" and "\<And>e. P (Update y, e)" and "N (Update y, None)"
  shows "triple P N Z (same y) (updateObj r y)"
  unfolding updateObj_def
  by (rule triple_call) (use assms updateStores_same in auto)

text \<open>The answer is none or the given error code: what \<open>ignoreMadminErrorCode\<close> lets through.\<close>

definition madminOk :: "string \<Rightarrow> goerr option \<Rightarrow> bool" where
  "madminOk code e \<longleftrightarrow> ignoreMadminErrorCode e code = None"

definition minioOk :: "string \<Rightarrow> goerr option \<Rightarrow> bool" where
  "minioOk code e \<longleftrightarrow> ignoreMinioErrorCode e code = None"

lemma asked_simps [simp]:
  "asked q ok (Mutate h q', e) \<longleftrightarrow> q' = q \<and> ok e"
  "\<not> asked q ok (Update y, e)" "\<not> asked q ok (Query h q'', e)" "\<not> asked q ok (Get k, e)"
  "isInfra c \<Longrightarrow> \<not> asked q ok (c, e)"
  by (simp_all add: asked_def, cases c, simp_all)

lemma looked_simps [simp]:
  "looked q ok (Query h q', e) \<longleftrightarrow> q' = q \<and> ok e"
  "\<not> looked q ok (Update y, e)" "\<not> looked q ok (Mutate h q'', e)" "\<not> looked q ok (Get k, e)"
  "isInfra c \<Longrightarrow> \<not> looked q ok (c, e)"
  by (simp_all add: looked_def, cases c, simp_all)

lemma sent_simps [simp]:
  "sent st (Update y, e) \<longleftrightarrow> st y"
  "isWrite c \<Longrightarrow> \<not> sent st (c, e)" "isInfra c \<Longrightarrow> \<not> sent st (c, e)"
  "isQuery c \<Longrightarrow> \<not> sent st (c, e)" "\<not> sent st (Get k, e)"
  by (simp add: sent_def; cases c; simp add: sent_def)+

lemma accepted_simps [simp]: "accepted None" "\<not> accepted (Some e)"
  by (simp_all add: accepted_def)

lemma getTenantClient_sent:
  "triple (\<lambda>ev. \<not> sent st ev) (\<lambda>_. True) True (\<lambda>_. True) (getTenantClient r rr ns)"
  by (rule getTenantClient_triple) simp_all

lemma getAdminClient_sent:
  "triple (\<lambda>ev. \<not> sent st ev) (\<lambda>_. True) True (\<lambda>_. True) (getAdminClient r rr ns)"
  by (rule getAdminClient_triple) simp_all

section \<open>The contract\<close>

locale reconciler_contract =
  fixes reconcile :: "('w, 'o) reconciler \<Rightarrow> NamespacedName \<Rightarrow> ('w, 'o call, Result) m"
    and pass :: "('w, 'o) reconciler \<Rightarrow> NamespacedName \<Rightarrow> 'o \<Rightarrow> ('w, 'o call, Result) m"
    and metaOf :: "'o \<Rightarrow> ObjectMeta"
    and statusSet :: "'o \<Rightarrow> bool"
    and same :: "'o \<Rightarrow> 'o \<Rightarrow> bool"
  assumes reconcile_eq: "reconcile r req = bindM (attempt (getObj r req))
      (\<lambda>x. case x of Inl err \<Rightarrow> getFailed r err | Inr b \<Rightarrow> pass r req b)"
    and same_meta: "same x y \<Longrightarrow> metaStored (metaOf x) (metaOf y)"
    and same_status: "same x y \<Longrightarrow> statusSet y = statusSet x"
    and pass_updates: "\<lbrakk>finalizerLaws (lib (r_env r)); updateStores same r;
        safeObj (lib (r_env r)) metaOf statusSet x\<rbrakk>
      \<Longrightarrow> triple (updatesSafe (lib (r_env r)) metaOf statusSet) (\<lambda>_. True) True (\<lambda>_. True)
            (pass r req x)"
    and pass_guard: "\<lbrakk>timeIsZero (om_DeletionTimestamp (metaOf x));
        \<not> containsFinalizer (lib (r_env r)) (metaOf x) finalizer\<rbrakk>
      \<Longrightarrow> triple noWrite (\<lambda>_. True) True (\<lambda>_. True) (pass r req x)"
    and pass_ok: "triple (\<lambda>_. True) updateOk True (\<lambda>res. requeueAfter res = syncInterval r)
      (pass r req x)"
begin

lemma reconcile_found:
  assumes "r_Get r w req = (Inr x, w1)"
  shows "outcome (reconcile r req) w = outcome (pass r req x) w1"
    and "trace (reconcile r req) w = (Get req, None) # trace (pass r req x) w1"
  using assms by (auto simp: reconcile_eq prim calls outcome_def trace_def split: prod.split)

lemma reconcile_ordered:
  assumes "r_Get r w req = (Inr x, w1)" and "ordered P Q False (pass r req x)"
    and "\<not> Q (Get req, None)"
  shows "precededBy P Q (trace (reconcile r req) w)"
proof -
  have "guardedBy P Q False (trace (pass r req x) w1)"
    using assms(2) unfolding ordered_def by blast
  then show ?thesis
    using assms(3) by (auto simp: reconcile_found [OF assms(1)] elim: guardedBy_mono)
qed

lemma reconcile_all:
  assumes "r_Get r w req = (Inr x, w1)" and "triple P N Z A (pass r req x)" and "P (Get req, None)"
  shows "list_all P (trace (reconcile r req) w)"
  using triple_trace [OF assms(2)] assms(3) by (auto simp: reconcile_found [OF assms(1)] list_all_iff)

lemma reconcile_missing:
  assumes "r_Get r w req = (Inl err, w1)"
  shows "reconcile r req w =
    ((case ignoreNotFound (lib (r_env r)) err of None \<Rightarrow> Ok noRequeue | Some e \<Rightarrow> Err e),
     w1, [(Get req, Some err)])"
  using assms by (auto simp: reconcile_eq prim calls getFailed_def split: option.split)

lemma stored_safe:
  assumes "finalizerLaws (lib (r_env r))" and "same x y"
    and "safeObj (lib (r_env r)) metaOf statusSet x"
  shows "safeObj (lib (r_env r)) metaOf statusSet y"
  using assms metaStored_contains [OF assms(1) same_meta [OF assms(2)]]
  by (simp add: safeObj_def same_status)

lemma sent_safe:
  assumes "finalizerLaws (lib (r_env r))" and "updateStores same r"
    and "r_Get r w req = (Inr x, w1)" and "safeObj (lib (r_env r)) metaOf statusSet x"
    and "(Update y, e) \<in> set (trace (reconcile r req) w)"
  shows "safeObj (lib (r_env r)) metaOf statusSet y"
proof -
  have "(Update y, e) \<in> set (trace (pass r req x) w1)"
    using assms(5) by (simp add: reconcile_found [OF assms(3)])
  from triple_trace [OF pass_updates [OF assms(1,2,4)] this] show ?thesis by simp
qed

lemma writes_guarded:
  assumes "(c, e) \<in> set (trace (reconcile r req) w)" and "isWrite c"
  obtains x w1 where "r_Get r w req = (Inr x, w1)"
    and "\<not> timeIsZero (om_DeletionTimestamp (metaOf x)) \<or>
         containsFinalizer (lib (r_env r)) (metaOf x) finalizer"
proof (cases "r_Get r w req")
  case (Pair y w1)
  show ?thesis
  proof (cases y)
    case (Inl err)
    then show ?thesis
      using assms Pair reconcile_missing [of r w req err w1] by (auto simp: trace_def)
  next
    case (Inr x)
    with Pair have get: "r_Get r w req = (Inr x, w1)" by simp
    have "(c, e) \<in> set (trace (pass r req x) w1)"
      using assms by (auto simp: reconcile_found [OF get])
    then have "\<not> timeIsZero (om_DeletionTimestamp (metaOf x)) \<or>
         containsFinalizer (lib (r_env r)) (metaOf x) finalizer"
      using triple_trace [OF pass_guard] assms(2) by fastforce
    with get show ?thesis by (rule that)
  qed
qed

lemma success_result:
  assumes "outcome (reconcile r req) w = Ok res"
  shows "(requeueAfter res = syncInterval r \<or>
      (\<exists>err w1. r_Get r w req = (Inl err, w1) \<and> ignoreNotFound (lib (r_env r)) err = None
        \<and> res = noRequeue)) \<and>
    (\<forall>y e. (Update y, e) \<in> set (trace (reconcile r req) w) \<longrightarrow> e = None)"
proof (cases "r_Get r w req")
  case (Pair y w1)
  show ?thesis
  proof (cases y)
    case (Inl err)
    then show ?thesis
      using assms Pair reconcile_missing [of r w req err w1]
      by (auto simp: trace_def outcome_def split: option.splits)
  next
    case (Inr x)
    with Pair have get: "r_Get r w req = (Inr x, w1)" by simp
    have ok: "outcome (pass r req x) w1 = Ok res" using assms by (simp add: reconcile_found [OF get])
    show ?thesis
      using triple_post [OF pass_ok ok] triple_ok_trace [OF pass_ok ok]
      by (auto simp: reconcile_found [OF get] updateOk_def)
  qed
qed

end

section \<open>Reconcilers by phases\<close>

text \<open>
  Six of the seven passes have the same outline (the access key reconciler shares it too, with a
  deletion of its own): delete, add the finalizer, update or create, by the state of the object.
  \<open>phased_reconciler\<close> takes the laws of the four phases; the contract follows.
\<close>

locale phased_reconciler =
  fixes reconcile :: "('w, 'o) reconciler \<Rightarrow> NamespacedName \<Rightarrow> ('w, 'o call, Result) m"
    and pass :: "('w, 'o) reconciler \<Rightarrow> NamespacedName \<Rightarrow> 'o \<Rightarrow> ('w, 'o call, Result) m"
    and delete :: "('w, 'o) reconciler \<Rightarrow> 'o \<Rightarrow> ('w, 'o call, Result) m"
    and addFin :: "('w, 'o) reconciler \<Rightarrow> 'o \<Rightarrow> ('w, 'o call, Result) m"
    and update :: "('w, 'o) reconciler \<Rightarrow> NamespacedName \<Rightarrow> 'o \<Rightarrow> ('w, 'o call, Result) m"
    and create :: "('w, 'o) reconciler \<Rightarrow> NamespacedName \<Rightarrow> 'o \<Rightarrow> ('w, 'o call, Result) m"
    and metaOf :: "'o \<Rightarrow> ObjectMeta"
    and setMeta :: "'o \<Rightarrow> ObjectMeta \<Rightarrow> 'o"
    and statusSet :: "'o \<Rightarrow> bool"
    and same :: "'o \<Rightarrow> 'o \<Rightarrow> bool"
  assumes get_then_pass: "reconcile r req = bindM (attempt (getObj r req))
      (\<lambda>x. case x of Inl err \<Rightarrow> getFailed r err | Inr b \<Rightarrow> pass r req b)"
    and pass_phases: "pass r req x =
      (if \<not> timeIsZero (om_DeletionTimestamp (metaOf x)) then delete r x
       else if \<not> containsFinalizer (lib (r_env r)) (metaOf x) finalizer then addFin r x
       else if statusSet x then update r req x else create r req x)"
    and addFin_eq: "addFin r x =
      bindM (updateObj r (setMeta x (addFinalizer (lib (r_env r)) (metaOf x) finalizer)))
        (\<lambda>_. success r)"
    and metaOf_setMeta: "metaOf (setMeta x mt) = mt"
    and meta_stored: "same x y \<Longrightarrow> metaStored (metaOf x) (metaOf y)"
    and status_stored: "same x y \<Longrightarrow> statusSet y = statusSet x"
    and delete_safe: "\<lbrakk>finalizerLaws (lib (r_env r)); updateStores same r\<rbrakk>
      \<Longrightarrow> triple (updatesSafe (lib (r_env r)) metaOf statusSet) (\<lambda>_. True) True (\<lambda>_. True) (delete r x)"
    and delete_ok: "triple (\<lambda>_. True) updateOk True (\<lambda>res. requeueAfter res = syncInterval r)
      (delete r x)"
    and update_triple: "\<lbrakk>profile P N (\<lambda>y. Q (metaOf y)); survives r (\<lambda>y. Q (metaOf y)); Q (metaOf x)\<rbrakk>
      \<Longrightarrow> triple P N True (\<lambda>res. requeueAfter res = syncInterval r) (update r req x)"
    and create_triple: "\<lbrakk>profile P N (\<lambda>y. Q (metaOf y)); survives r (\<lambda>y. Q (metaOf y)); Q (metaOf x)\<rbrakk>
      \<Longrightarrow> triple P N True (\<lambda>res. requeueAfter res = syncInterval r) (create r req x)"
begin

lemma addFin_triple:
  assumes "\<And>e. P (Update (setMeta x (addFinalizer (lib (r_env r)) (metaOf x) finalizer)), e)"
    and "N (Update (setMeta x (addFinalizer (lib (r_env r)) (metaOf x) finalizer)), None)"
  shows "triple P N True (\<lambda>res. requeueAfter res = syncInterval r) (addFin r x)"
  unfolding addFin_eq updateObj_def success_def
  by (intro triple_intro) (use assms in auto)

lemma phases_updates:
  assumes laws: "finalizerLaws (lib (r_env r))" "updateStores same r"
  shows "triple (updatesSafe (lib (r_env r)) metaOf statusSet) (\<lambda>_. True) True (\<lambda>_. True)
    (pass r req x)"
proof -
  let ?Q = "\<lambda>m. containsFinalizer (lib (r_env r)) m finalizer"
  have surv: "survives r (\<lambda>y. ?Q (metaOf y))"
    by (rule survives_finalizer [OF laws meta_stored])
  have added: "?Q (addFinalizer (lib (r_env r)) mt finalizer)" for mt
    using laws(1) by (simp add: finalizerLaws_def)
  show ?thesis
    unfolding pass_phases
    by (intro triple_intro delete_safe laws triple_weaken [OF addFin_triple]
        triple_weaken [OF update_triple [OF profile_updatesSafe surv]]
        triple_weaken [OF create_triple [OF profile_updatesSafe surv]])
      (auto simp: safeObj_def added metaOf_setMeta)
qed

lemma phases_ok:
  "triple (\<lambda>_. True) updateOk True (\<lambda>res. requeueAfter res = syncInterval r) (pass r req x)"
  unfolding pass_phases
  by (intro triple_intro delete_ok addFin_triple
      update_triple [where Q = "\<lambda>_. True", OF profile_updateOk survives_True]
      create_triple [where Q = "\<lambda>_. True", OF profile_updateOk survives_True]) auto

lemma phases_guard:
  assumes "timeIsZero (om_DeletionTimestamp (metaOf x))"
    and "\<not> containsFinalizer (lib (r_env r)) (metaOf x) finalizer"
  shows "triple noWrite (\<lambda>_. True) True (\<lambda>_. True) (pass r req x)"
  using assms by (simp add: pass_phases triple_weaken [OF addFin_triple])

end

sublocale phased_reconciler \<subseteq> reconciler_contract reconcile pass metaOf statusSet same
  by unfold_locales
    (rule get_then_pass, erule meta_stored, erule status_stored, erule (1) phases_updates,
     erule (1) phases_guard, rule phases_ok)

section \<open>The life of an object on the API server\<close>

text \<open>
  The versions of an object that get stored, starting from \<open>x0\<close>: a pass over any version that was
  ever stored (the operator reads through a cache, which may be stale) stores the objects of its
  successful updates, under new resource versions; a user edit changes neither the finalizers nor
  the status.
\<close>

inductive life ::
  "(('w, 'o) reconciler \<Rightarrow> NamespacedName \<Rightarrow> ('w, 'o call, Result) m) \<Rightarrow> ('o \<Rightarrow> ObjectMeta) \<Rightarrow>
   ('o \<Rightarrow> bool) \<Rightarrow> ('o \<Rightarrow> 'o \<Rightarrow> bool) \<Rightarrow> ('w, 'o) reconciler \<Rightarrow> 'o \<Rightarrow> 'o \<Rightarrow> bool"
  for reconcile metaOf statusSet same r x0
where
  created: "life reconcile metaOf statusSet same r x0 x0"
| stored: "\<lbrakk>life reconcile metaOf statusSet same r x0 x; r_Get r w req = (Inr x, w1);
     (Update y, None) \<in> set (trace (reconcile r req) w); same y z\<rbrakk>
    \<Longrightarrow> life reconcile metaOf statusSet same r x0 z"
| edited: "\<lbrakk>life reconcile metaOf statusSet same r x0 x;
     om_Finalizers (metaOf y) = om_Finalizers (metaOf x); statusSet y = statusSet x\<rbrakk>
    \<Longrightarrow> life reconcile metaOf statusSet same r x0 y"

inductive_cases lifeE: "life reconcile metaOf statusSet same r x0 x"

context reconciler_contract
begin

lemma life_safe:
  assumes "life reconcile metaOf statusSet same r x0 x"
    and laws: "finalizerLaws (lib (r_env r))" "updateStores same r"
    and "safeObj (lib (r_env r)) metaOf statusSet x0"
  shows "safeObj (lib (r_env r)) metaOf statusSet x"
  using assms(1)
proof induction
  case created
  show ?case by (rule assms(4))
next
  case (stored x w req w1 y z)
  have "safeObj (lib (r_env r)) metaOf statusSet y"
    by (rule sent_safe [OF laws stored.hyps(2) stored.IH stored.hyps(3)])
  then show ?case by (rule stored_safe [OF laws(1) stored.hyps(4)])
next
  case (edited x y)
  then have "containsFinalizer (lib (r_env r)) (metaOf y) finalizer =
      containsFinalizer (lib (r_env r)) (metaOf x) finalizer"
    using laws(1) unfolding finalizerLaws_def by blast
  with edited show ?case by (simp add: safeObj_def)
qed

lemma life_released:
  assumes "life reconcile metaOf statusSet same r x0 x"
    and "finalizerLaws (lib (r_env r))" and "updateStores same r" and "\<not> statusSet x0"
    and "\<not> containsFinalizer (lib (r_env r)) (metaOf x) finalizer"
  shows "\<not> statusSet x"
  using life_safe [OF assms(1-3)] assms(4,5) by (simp add: safeObj_def)

end

end
