(* ===== verification/Convergence.thy ===== *)
theory Convergence
  imports Reconcile_Contract
begin

text \<open>
  Where repeated passes lead. The abstract specification of a reconciler is a small machine,
  \<open>idealStep\<close>: a new resource is held by the finalizer, then applied to the tenant; an applied one
  that was lost in the tenant is applied again; one that is being deleted is taken away from the
  tenant, then released. The locale \<open>settling\<close> extends the interface of a reconciler by what its
  phases do in a quiet cluster, one in which nobody else writes and every request is answered, and
  shows that each pass is one step of the machine. The reconcilers' theories interpret it.
\<close>

section \<open>A quiet cluster\<close>

text \<open>
  A cluster as one reconciler sees it: the reconciler, the resource it is called for, and two views
  of the world, the stored version of that resource (if there is one) and the state of the tenant.
\<close>

record ('w, 'o, 's) cluster =
  cl_rec :: "('w, 'o) reconciler"
  cl_req :: NamespacedName
  cl_store :: "'w \<Rightarrow> 'o option"
  cl_tenant :: "'w \<Rightarrow> 's"

abbreviation cl_lib :: "('w, 'o, 's) cluster \<Rightarrow> Lib" where
  "cl_lib c \<equiv> lib (r_env (cl_rec c))"

definition keeps :: "('w, 'o, 's) cluster \<Rightarrow> 'w \<Rightarrow> 'w \<Rightarrow> bool" where
  "keeps c w w' \<longleftrightarrow> cl_store c w' = cl_store c w \<and> cl_tenant c w' = cl_tenant c w"

lemma answers_weaken: "answers p R \<Longrightarrow> (\<And>x w. R x w \<Longrightarrow> R' x w) \<Longrightarrow> answers p R'"
  by (simp add: answers_def)

text \<open>A request that changes the tenant leaves the stored object as it is.\<close>

definition moves :: "('w, 'o, 's) cluster \<Rightarrow> 'w \<Rightarrow> ('s \<Rightarrow> 's) \<Rightarrow> 'w \<Rightarrow> bool" where
  "moves c w f w' \<longleftrightarrow> cl_store c w' = cl_store c w \<and> cl_tenant c w' = f (cl_tenant c w)"

text \<open>The documented effect of \<open>controllerutil\<close>'s functions on the list of finalizers.\<close>

definition finalizerLists :: "Lib \<Rightarrow> bool" where
  "finalizerLists L \<longleftrightarrow>
     (\<forall>m f. containsFinalizer L m f \<longleftrightarrow> f \<in> set (om_Finalizers m)) \<and>
     (\<forall>m f. addFinalizer L m f =
        (if f \<in> set (om_Finalizers m) then m else m\<lparr>om_Finalizers := om_Finalizers m @ [f]\<rparr>)) \<and>
     (\<forall>m f. removeFinalizer L m f = m\<lparr>om_Finalizers := removeAll f (om_Finalizers m)\<rparr>)"

text \<open>
  The API server: a get answers with the stored object, an update of a stored object is accepted and
  stored, unless it leaves an object that is being deleted without finalizers, which is then gone.
\<close>

definition unheld :: "ObjectMeta \<Rightarrow> bool" where
  "unheld m \<longleftrightarrow> \<not> timeIsZero (om_DeletionTimestamp m) \<and> om_Finalizers m = []"

definition quietApi :: "('o \<Rightarrow> ObjectMeta) \<Rightarrow> ('o \<Rightarrow> 'o \<Rightarrow> bool) \<Rightarrow> ('w, 'o, 's) cluster \<Rightarrow> bool" where
  "quietApi metaOf same c \<longleftrightarrow>
     finalizerLists (cl_lib c) \<and>
     (\<forall>w x. cl_store c w = Some x \<longrightarrow> (\<exists>w'. r_Get (cl_rec c) w (cl_req c) = (Inr x, w') \<and> keeps c w w')) \<and>
     (\<forall>w. cl_store c w = None \<longrightarrow> (\<exists>e w'. r_Get (cl_rec c) w (cl_req c) = (Inl e, w') \<and>
        ignoreNotFound (cl_lib c) e = None \<and> keeps c w w')) \<and>
     (\<forall>w x. cl_store c w \<noteq> None \<longrightarrow> (\<exists>y w'. r_Update (cl_rec c) w x = (Inr y, w') \<and> same x y \<and>
        cl_tenant c w' = cl_tenant c w \<and>
        cl_store c w' = (if unheld (metaOf x) then None else Some y)))"

text \<open>
  Clients for the tenant can be opened, for references from a namespace (the resources are namespaced,
  so none of them has an empty one).
\<close>

definition opensAdmin :: "('w, 'o, 's) cluster \<Rightarrow> bool" where
  "opensAdmin c \<longleftrightarrow> (\<forall>w rr ns. ns \<noteq> '''' \<longrightarrow>
     okRun (getAdminClient (cl_rec c) rr ns) w (\<lambda>_. keeps c w))"

definition opensClient :: "('w, 'o, 's) cluster \<Rightarrow> bool" where
  "opensClient c \<longleftrightarrow> (\<forall>w rr ns. ns \<noteq> '''' \<longrightarrow>
     okRun (getTenantClient (cl_rec c) rr ns) w (\<lambda>_. keeps c w))"

lemma keeps_refl [simp]: "keeps c w w"
  by (simp add: keeps_def)

lemma keeps_trans: "keeps c w w1 \<Longrightarrow> keeps c w1 w2 \<Longrightarrow> keeps c w w2"
  by (simp add: keeps_def)

lemma keepsD:
  "keeps c w w' \<Longrightarrow> cl_store c w' = cl_store c w" "keeps c w w' \<Longrightarrow> cl_tenant c w' = cl_tenant c w"
  by (simp_all add: keeps_def)

lemma quiet_update:
  assumes "quietApi metaOf same c" and "cl_store c w = Some x" and "\<not> unheld (metaOf z)"
  shows "okRun (updateObj (cl_rec c) z) w
    (\<lambda>y w'. same z y \<and> cl_store c w' = Some y \<and> cl_tenant c w' = cl_tenant c w)"
proof -
  have "cl_store c w \<noteq> None" using assms(2) by simp
  with assms(1) obtain y w' where "r_Update (cl_rec c) w z = (Inr y, w')" "same z y"
      "cl_tenant c w' = cl_tenant c w" "cl_store c w' = (if unheld (metaOf z) then None else Some y)"
    unfolding quietApi_def by metis
  then show ?thesis unfolding updateObj_def using assms(3) by (intro okRun_call [where a = y and w' = w']) simp_all
qed

lemma quiet_release:
  assumes "quietApi metaOf same c" and "cl_store c w = Some x" and "unheld (metaOf z)"
  shows "okRun (updateObj (cl_rec c) z) w
    (\<lambda>y w'. cl_store c w' = None \<and> cl_tenant c w' = cl_tenant c w)"
proof -
  have "cl_store c w \<noteq> None" using assms(2) by simp
  with assms(1) obtain y w' where "r_Update (cl_rec c) w z = (Inr y, w')"
      "cl_tenant c w' = cl_tenant c w" "cl_store c w' = (if unheld (metaOf z) then None else Some y)"
    unfolding quietApi_def by metis
  then show ?thesis unfolding updateObj_def using assms(3) by (intro okRun_call [where a = y and w' = w']) simp_all
qed

text \<open>The operator is the only one who holds the object, which has a namespace.\<close>

definition heldOnly :: "ObjectMeta \<Rightarrow> bool" where
  "heldOnly m \<longleftrightarrow> om_Finalizers m = [finalizer] \<and> om_Namespace m \<noteq> ''''"

lemma heldOnlyD [dest]:
  "heldOnly m \<Longrightarrow> om_Finalizers m = [finalizer]" "heldOnly m \<Longrightarrow> om_Namespace m \<noteq> ''''"
  by (simp_all add: heldOnly_def)

lemma heldOnly_not_unheld [simp]: "heldOnly m \<Longrightarrow> \<not> unheld m"
  by (simp add: unheld_def heldOnly_def)

lemma heldOnly_stored: "metaStored m m' \<Longrightarrow> heldOnly m' = heldOnly m"
  by (auto simp: metaStored_def heldOnly_def)

lemma metaStored_trans: "metaStored m m' \<Longrightarrow> metaStored m' m'' \<Longrightarrow> metaStored m m''"
  by (auto simp: metaStored_def)

text \<open>The last two calls of most phases.\<close>

lemma quiet_success:
  assumes "quietApi metaOf same c" and "cl_store c w = Some x" and "heldOnly (metaOf z)"
    and "\<And>y w'. same z y \<Longrightarrow> cl_store c w' = Some y \<Longrightarrow> cl_tenant c w' = cl_tenant c w \<Longrightarrow> R w'"
  shows "okRun (bindM (updateObj (cl_rec c) z) (\<lambda>_. success (cl_rec c))) w (\<lambda>_. R)"
  by (rule okRun_bind [OF quiet_update [OF assms(1,2)]])
    (auto simp: success_def assms(3) intro!: okRun_ret assms(4))

lemma quiet_admin: "opensAdmin c \<Longrightarrow> ns \<noteq> '''' \<Longrightarrow> okRun (getAdminClient (cl_rec c) rr ns) w (\<lambda>_. keeps c w)"
  by (simp add: opensAdmin_def)

lemma quiet_client: "opensClient c \<Longrightarrow> ns \<noteq> '''' \<Longrightarrow> okRun (getTenantClient (cl_rec c) rr ns) w (\<lambda>_. keeps c w)"
  by (simp add: opensClient_def)

lemma okRun_success: "R w \<Longrightarrow> okRun (success r) w (\<lambda>_. R)"
  by (simp add: success_def okRun_ret)

section \<open>The abstract machine\<close>

text \<open>
  The phases of a resource: new or held by the finalizer (each with the question whether the spec
  asks to migrate), applied, being deleted with or without a recorded spec, gone. A state is a phase
  together with the presence of the managed thing in the tenant. Some things can be taken away from
  the tenant only if they are there; \<open>f\<close> says that the request succeeds all the same when they are not.
\<close>

datatype phase = New bool | Held bool | Applied | Closing | Releasing | Gone

fun idealStep :: "bool \<Rightarrow> phase \<times> bool \<Rightarrow> phase \<times> bool" where
  "idealStep f (New m, b) = (Held m, b)"
| "idealStep f (Held m, b) = (if b \<and> \<not> m then (Held m, b) else (Applied, True))"
| "idealStep f (Applied, b) = (if b then (Applied, True) else (Held False, False))"
| "idealStep f (Closing, b) = (if b \<or> f then (Releasing, False) else (Closing, False))"
| "idealStep f (Releasing, b) = (Gone, b)"
| "idealStep f (Gone, b) = (Gone, b)"

text \<open>States that end applied, and the number of steps they may take; the others stay blocked or go.\<close>

fun settles :: "phase \<times> bool \<Rightarrow> bool" where
  "settles (New m, b) = (b \<longrightarrow> m)"
| "settles (Held m, b) = (b \<longrightarrow> m)"
| "settles (Applied, b) = True"
| "settles (p, b) = False"

fun closing :: "phase \<times> bool \<Rightarrow> bool" where
  "closing (p, b) = (p = Closing \<or> p = Releasing)"

lemma closing_ideal: "fst (idealStep f v) \<noteq> Gone \<Longrightarrow> closing (idealStep f v) = closing v"
  by (cases v rule: settles.cases) (simp_all split: if_splits)

text \<open>States in which the next step applies the spec.\<close>

fun ready :: "phase \<times> bool \<Rightarrow> bool" where
  "ready (Held m, b) = (b \<longrightarrow> m)"
| "ready (Applied, b) = b"
| "ready (p, b) = False"

lemma ideal_stays: "(idealStep f ^^ k) (Applied, True) = (Applied, True)" "(idealStep f ^^ k) (Gone, b) = (Gone, b)"
  by (induction k) simp_all

lemma ideal_settles:
  assumes "settles v" and "2 \<le> k"
  shows "(idealStep f ^^ k) v = (Applied, True)"
proof -
  from assms(2) obtain j where k: "k = j + 2" by (metis le_add_diff_inverse2)
  have "(idealStep f ^^ 2) v = (Applied, True)"
    using assms(1) by (cases v rule: settles.cases) (simp_all add: numeral_2_eq_2)
  then show ?thesis by (simp only: k funpow_add comp_apply ideal_stays)
qed

lemma ideal_ready:
  assumes "settles v" and "1 \<le> k"
  shows "ready ((idealStep f ^^ k) v)"
proof (cases "k = 1")
  case True
  with assms(1) show ?thesis by (cases v rule: settles.cases) simp_all
next
  case False
  with assms(2) have "2 \<le> k" by simp
  then show ?thesis by (simp add: ideal_settles [OF assms(1)])
qed

lemma ideal_closes:
  assumes "2 \<le> k"
  shows "b \<or> f \<Longrightarrow> (idealStep f ^^ k) (Closing, b) = (Gone, False)" "(idealStep f ^^ k) (Releasing, b) = (Gone, b)"
proof -
  from assms obtain j where k: "k = j + 2" by (metis le_add_diff_inverse2)
  have two: "b \<or> f \<Longrightarrow> (idealStep f ^^ 2) (Closing, b) = (Gone, False)" "(idealStep f ^^ 2) (Releasing, b) = (Gone, b)"
    by (simp_all add: numeral_2_eq_2)
  show "b \<or> f \<Longrightarrow> (idealStep f ^^ k) (Closing, b) = (Gone, False)" "(idealStep f ^^ k) (Releasing, b) = (Gone, b)"
    by (simp_all only: k funpow_add comp_apply two ideal_stays)
qed

lemma ideal_held:
  assumes "1 \<le> k"
  shows "(idealStep f ^^ k) (Held False, b) = (if b then Held False else Applied, True)"
proof -
  from assms obtain j where k: "k = j + 1" by (metis le_add_diff_inverse2)
  have "(idealStep f ^^ j) (Held False, True) = (Held False, True)" by (induction j) simp_all
  then show ?thesis by (simp add: k funpow_Suc_right ideal_stays del: funpow.simps(2))
qed

section \<open>The view of a cluster\<close>

definition phaseOf ::
  "('o \<Rightarrow> ObjectMeta) \<Rightarrow> ('o \<Rightarrow> bool) \<Rightarrow> ('o \<Rightarrow> bool) \<Rightarrow> 'o \<Rightarrow> phase" where
  "phaseOf metaOf statusSet migrate x =
     (if \<not> timeIsZero (om_DeletionTimestamp (metaOf x)) then (if statusSet x then Closing else Releasing)
      else if om_Finalizers (metaOf x) = [] then New (migrate x)
      else if statusSet x then Applied else Held (migrate x))"

text \<open>
  A resource is in order when no other finalizer holds it, and the operator's does whenever the
  status is set or the resource is being deleted.
\<close>

definition inOrder :: "('o \<Rightarrow> ObjectMeta) \<Rightarrow> ('o \<Rightarrow> bool) \<Rightarrow> 'o \<Rightarrow> bool" where
  "inOrder metaOf statusSet x \<longleftrightarrow>
     heldOnly (metaOf x) \<or>
     om_Finalizers (metaOf x) = [] \<and> om_Namespace (metaOf x) \<noteq> '''' \<and>
       timeIsZero (om_DeletionTimestamp (metaOf x)) \<and> \<not> statusSet x"

definition stepOf ::
  "(('w, 'o) reconciler \<Rightarrow> NamespacedName \<Rightarrow> ('w, 'o call, Result) m) \<Rightarrow> ('w, 'o, 's) cluster \<Rightarrow> 'w \<Rightarrow> 'w" where
  "stepOf reconcile c w = fst (snd (reconcile (cl_rec c) (cl_req c) w))"

abbreviation passes ::
  "(('w, 'o) reconciler \<Rightarrow> NamespacedName \<Rightarrow> ('w, 'o call, Result) m) \<Rightarrow> ('w, 'o, 's) cluster \<Rightarrow>
   nat \<Rightarrow> 'w \<Rightarrow> 'w" where
  "passes reconcile c k w \<equiv> (stepOf reconcile c ^^ k) w"

lemma passes_Suc: "passes reconcile c (Suc k) w = passes reconcile c k (stepOf reconcile c w)"
  by (simp add: funpow_Suc_right del: funpow.simps(2))

definition stored :: "('w, 'o, 's) cluster \<Rightarrow> ('o \<Rightarrow> bool) \<Rightarrow> 'w \<Rightarrow> bool" where
  "stored c Q w \<longleftrightarrow> (\<exists>y. cl_store c w = Some y \<and> Q y)"

lemma okRun_step: "okRun (reconcile (cl_rec c) (cl_req c)) w (\<lambda>_. Q) \<Longrightarrow> Q (stepOf reconcile c w)"
  by (auto simp: stepOf_def dest: okRun_world)

lemma errRun_step: "errRun (reconcile (cl_rec c) (cl_req c)) w (\<lambda>_. Q) \<Longrightarrow> Q (stepOf reconcile c w)"
  by (auto simp: stepOf_def dest: errRun_world)

definition viewOf ::
  "('o \<Rightarrow> ObjectMeta) \<Rightarrow> ('o \<Rightarrow> bool) \<Rightarrow> ('o \<Rightarrow> bool) \<Rightarrow> ('n \<Rightarrow> 's \<Rightarrow> bool) \<Rightarrow>
   ('w, 'o, 's) cluster \<Rightarrow> 'n \<Rightarrow> 'w \<Rightarrow> phase \<times> bool" where
  "viewOf metaOf statusSet migrate present c n w =
     (case cl_store c w of None \<Rightarrow> Gone | Some x \<Rightarrow> phaseOf metaOf statusSet migrate x,
      present n (cl_tenant c w))"

definition orderly ::
  "('o \<Rightarrow> ObjectMeta) \<Rightarrow> ('o \<Rightarrow> bool) \<Rightarrow> ('n \<Rightarrow> 'o \<Rightarrow> bool) \<Rightarrow> ('w, 'o, 's) cluster \<Rightarrow> 'n \<Rightarrow> 'w \<Rightarrow> bool" where
  "orderly metaOf statusSet named c n w \<longleftrightarrow>
     (\<forall>x. cl_store c w = Some x \<longrightarrow> named n x \<and> inOrder metaOf statusSet x)"

text \<open>
  \<open>possible d n s\<close> says that in the tenant \<open>s\<close> nothing stands in the way of applying a resource, or of
  closing it, if \<open>d\<close> says that it is being deleted. A cluster is able if that holds for its object.
\<close>

definition ableOf ::
  "('o \<Rightarrow> ObjectMeta) \<Rightarrow> (bool \<Rightarrow> 'n \<Rightarrow> 's \<Rightarrow> bool) \<Rightarrow> ('w, 'o, 's) cluster \<Rightarrow> 'n \<Rightarrow> 'w \<Rightarrow> bool" where
  "ableOf metaOf possible c n w \<longleftrightarrow>
     (\<forall>x. cl_store c w = Some x \<longrightarrow> possible (\<not> timeIsZero (om_DeletionTimestamp (metaOf x))) n (cl_tenant c w))"

lemma closing_deleted:
  "cl_store c w = Some x \<Longrightarrow>
   closing (viewOf metaOf statusSet migrate present c n w) \<longleftrightarrow> \<not> timeIsZero (om_DeletionTimestamp (metaOf x))"
  by (simp add: viewOf_def phaseOf_def)

section \<open>Passes in a quiet cluster\<close>

text \<open>
  What the outline of a pass and the API server of a quiet cluster give for every reconciler: which phase
  a pass runs, by the stored object, what the first pass does, and that a pass which fails and changes
  nothing is repeated for ever.
\<close>

locale quiet_phases =
  phased_reconciler reconcile pass delete addFin update create metaOf setMeta statusSet same
  for reconcile :: "('a, 'b) reconciler \<Rightarrow> NamespacedName \<Rightarrow> ('a, 'b call, Result) m"
    and pass and delete and addFin and update and create and metaOf and setMeta and statusSet and same +
  fixes quiet :: "('a, 'b, 's) cluster \<Rightarrow> bool"
  assumes quiet_api: "quiet c \<Longrightarrow> quietApi metaOf same c"
begin

lemma step_gone:
  assumes "quiet c" and "cl_store c w = None"
  shows "keeps c w (stepOf reconcile c w)"
proof -
  obtain e w' where "r_Get (cl_rec c) w (cl_req c) = (Inl e, w')" "ignoreNotFound (cl_lib c) e = None"
      "keeps c w w'"
    using quiet_api [OF assms(1)] assms(2) unfolding quietApi_def by blast
  then show ?thesis by (simp add: stepOf_def reconcile_missing)
qed

lemma step_found:
  assumes "quiet c" and "cl_store c w = Some x"
  obtains w1 where "keeps c w w1"
    and "stepOf reconcile c w = fst (snd (pass (cl_rec c) (cl_req c) x w1))"
proof -
  obtain w1 where "r_Get (cl_rec c) w (cl_req c) = (Inr x, w1)" "keeps c w w1"
    using quiet_api [OF assms(1)] assms(2) unfolding quietApi_def by blast
  then show ?thesis
    by (intro that [of w1]) (auto simp: stepOf_def reconcile_eq prim calls split: prod.split)
qed

lemma finalizer_listed:
  "quiet c \<Longrightarrow> containsFinalizer (cl_lib c) m f \<longleftrightarrow> f \<in> set (om_Finalizers m)"
  using quiet_api [of c] by (simp add: quietApi_def finalizerLists_def)

lemma step_phase:
  assumes "quiet c" and "cl_store c w = Some x" and "heldOnly (metaOf x)"
    and "\<And>w1. keeps c w w1 \<Longrightarrow> okRun (if \<not> timeIsZero (om_DeletionTimestamp (metaOf x)) then delete (cl_rec c) x
      else if statusSet x then update (cl_rec c) (cl_req c) x else create (cl_rec c) (cl_req c) x) w1 (\<lambda>_. R)"
  shows "R (stepOf reconcile c w)"
proof -
  obtain w1 where w1: "keeps c w w1" "stepOf reconcile c w = fst (snd (pass (cl_rec c) (cl_req c) x w1))"
    by (rule step_found [OF assms(1,2)])
  have "pass (cl_rec c) (cl_req c) x = (if \<not> timeIsZero (om_DeletionTimestamp (metaOf x)) then delete (cl_rec c) x
      else if statusSet x then update (cl_rec c) (cl_req c) x else create (cl_rec c) (cl_req c) x)"
    using assms(3) by (simp add: pass_phases finalizer_listed [OF assms(1)] heldOnly_def)
  with okRun_world [OF assms(4) [OF w1(1)]] show ?thesis by (simp add: w1(2))
qed

lemma step_update:
  assumes "quiet c" and "cl_store c w = Some x" and "heldOnly (metaOf x)" and "statusSet x"
    and "timeIsZero (om_DeletionTimestamp (metaOf x))"
    and "\<And>w1. keeps c w w1 \<Longrightarrow> okRun (update (cl_rec c) (cl_req c) x) w1 (\<lambda>_. R)"
  shows "R (stepOf reconcile c w)"
  by (rule step_phase [OF assms(1-3)]) (use assms(4-6) in simp)

lemma step_new:
  assumes "quiet c" and "cl_store c w = Some x" and "om_Finalizers (metaOf x) = []"
    and "timeIsZero (om_DeletionTimestamp (metaOf x))"
  shows "cl_tenant c (stepOf reconcile c w) = cl_tenant c w \<and>
    stored c (same (setMeta x ((metaOf x)\<lparr>om_Finalizers := [finalizer]\<rparr>))) (stepOf reconcile c w)"
proof -
  let ?z = "setMeta x ((metaOf x)\<lparr>om_Finalizers := [finalizer]\<rparr>)"
  obtain w1 where w1: "keeps c w w1" "stepOf reconcile c w = fst (snd (pass (cl_rec c) (cl_req c) x w1))"
    by (rule step_found [OF assms(1,2)])
  from w1(1) assms(2) have st: "cl_store c w1 = Some x" by (simp add: keeps_def)
  have "addFinalizer (cl_lib c) (metaOf x) finalizer = (metaOf x)\<lparr>om_Finalizers := [finalizer]\<rparr>"
    using quiet_api [OF assms(1)] assms(3) by (simp add: quietApi_def finalizerLists_def)
  then have "pass (cl_rec c) (cl_req c) x = bindM (updateObj (cl_rec c) ?z) (\<lambda>_. success (cl_rec c))"
    using assms(3,4) by (simp add: pass_phases finalizer_listed [OF assms(1)] addFin_eq)
  moreover have "okRun (bindM (updateObj (cl_rec c) ?z) (\<lambda>_. success (cl_rec c))) w1
      (\<lambda>_ w'. cl_tenant c w' = cl_tenant c w1 \<and> stored c (same ?z) w')"
    by (rule okRun_bind [OF quiet_update [OF quiet_api [OF assms(1)] st]])
      (use assms(4) in \<open>auto simp: unheld_def metaOf_setMeta stored_def intro: okRun_success\<close>)
  ultimately show ?thesis using w1 by (auto simp: keeps_def dest: okRun_world)
qed

lemma step_fails:
  assumes "quiet c" and "cl_store c w = Some x"
    and "\<And>w1. keeps c w w1 \<Longrightarrow> errRun (pass (cl_rec c) (cl_req c) x) w1 (\<lambda>_. keeps c w1)"
  shows "errRun (reconcile (cl_rec c) (cl_req c)) w (\<lambda>_. keeps c w)"
proof -
  obtain w1 where w1: "r_Get (cl_rec c) w (cl_req c) = (Inr x, w1)" "keeps c w w1"
    using quiet_api [OF assms(1)] assms(2) unfolding quietApi_def by blast
  obtain e w2 t where "pass (cl_rec c) (cl_req c) x w1 = (Err e, w2, t)" "keeps c w1 w2"
    using assms(3) [OF w1(2)] by (auto simp: errRun_def)
  then show ?thesis
    using w1 keeps_trans by (fastforce simp: errRun_def reconcile_eq prim calls)
qed

lemma fails_stuck:
  assumes "quiet c" and "cl_store c w = Some x"
    and "\<And>w1. keeps c w w1 \<Longrightarrow> errRun (pass (cl_rec c) (cl_req c) x) w1 (\<lambda>_. keeps c w1)"
    and "w' = passes reconcile c k w"
  shows "keeps c w w' \<and> (\<exists>e. outcome (reconcile (cl_rec c) (cl_req c)) w' = Err e)"
proof -
  have err: "errRun (reconcile (cl_rec c) (cl_req c)) v (\<lambda>_. keeps c v)" if v: "keeps c w v" for v
    by (rule step_fails [OF assms(1)]) (use v assms(2,3) keeps_trans [OF v] in \<open>auto simp: keeps_def\<close>)
  have "keeps c w (passes reconcile c j w)" for j
  proof (induction j)
    case (Suc j)
    let ?v = "passes reconcile c j w"
    have "keeps c ?v (stepOf reconcile c ?v)" by (rule errRun_step) (rule err [OF Suc])
    with keeps_trans [OF Suc] show ?case by simp
  qed simp
  from this [of k, folded assms(4)] err [OF this [of k, folded assms(4)]] show ?thesis
    by (auto simp: errRun_def outcome_def)
qed

end

section \<open>Every pass is a step of the machine\<close>

text \<open>
  \<open>named n x\<close> says that the resource \<open>x\<close> manages the thing \<open>n\<close>, by its spec and by its status,
  \<open>present n s\<close> that the tenant in state \<open>s\<close> has it, \<open>others d n s\<close> is what else the tenant has, or
  (\<open>d\<close>) what else it has that does not belong to the thing and goes with it,
  \<open>exact c n s\<close> that the tenant has the thing as the spec describes it, \<open>forgiving\<close> that
  a thing which is not there can be taken away, and \<open>possible d n s\<close> that the tenant has what the thing
  depends on (for a membership: its group and its user), or (\<open>d\<close>) nothing that keeps it (for a group:
  its members). The laws of the phases are about a quiet cluster with the object stored and held, and,
  but for the last, with the thing possible.
\<close>

locale settling = quiet_phases +
  fixes migrate :: "'b \<Rightarrow> bool"
    and named :: "'n \<Rightarrow> 'b \<Rightarrow> bool"
    and present :: "'n \<Rightarrow> 's \<Rightarrow> bool"
    and others :: "bool \<Rightarrow> 'n \<Rightarrow> 's \<Rightarrow> 't"
    and exact :: "('a, 'b, 's) cluster \<Rightarrow> 'n \<Rightarrow> 's \<Rightarrow> bool"
    and forgiving :: bool
    and possible :: "bool \<Rightarrow> 'n \<Rightarrow> 's \<Rightarrow> bool"
  assumes named_same: "same x y \<Longrightarrow> named n x \<Longrightarrow> named n y"
    and migrate_same: "same x y \<Longrightarrow> migrate y = migrate x"
    and setMeta_laws: "named n (setMeta x m) = named n x" "migrate (setMeta x m) = migrate x"
      "statusSet (setMeta x m) = statusSet x"
    and delete_released: "\<not> statusSet x \<Longrightarrow> delete r x =
      bindM (updateObj r (setMeta x (removeFinalizer (lib (r_env r)) (metaOf x) finalizer))) (\<lambda>_. success r)"
    and delete_quiet: "\<lbrakk>quiet c; cl_store c w = Some x; heldOnly (metaOf x);
        named n x; statusSet x; present n (cl_tenant c w) \<or> forgiving; possible True n (cl_tenant c w)\<rbrakk>
      \<Longrightarrow> okRun (delete (cl_rec c) x) w (\<lambda>_ w'. \<not> present n (cl_tenant c w') \<and>
            others True n (cl_tenant c w') = others True n (cl_tenant c w) \<and>
            stored c (\<lambda>y. metaStored (metaOf x) (metaOf y) \<and> named n y \<and> \<not> statusSet y) w')"
    and delete_refused: "\<lbrakk>quiet c; cl_store c w = Some x; heldOnly (metaOf x);
        named n x; statusSet x; \<not> present n (cl_tenant c w); \<not> forgiving; possible True n (cl_tenant c w)\<rbrakk>
      \<Longrightarrow> errRun (delete (cl_rec c) x) w (\<lambda>_. keeps c w)"
    and update_quiet: "\<lbrakk>quiet c; cl_store c w = Some x; heldOnly (metaOf x);
        named n x; statusSet x; possible False n (cl_tenant c w)\<rbrakk>
      \<Longrightarrow> okRun (update (cl_rec c) req x) w (\<lambda>_ w'. present n (cl_tenant c w') = present n (cl_tenant c w) \<and>
            (present n (cl_tenant c w) \<longrightarrow> exact c n (cl_tenant c w')) \<and>
            others False n (cl_tenant c w') = others False n (cl_tenant c w) \<and>
            stored c (\<lambda>y. metaStored (metaOf x) (metaOf y) \<and> named n y \<and> \<not> migrate y \<and>
              statusSet y = present n (cl_tenant c w)) w')"
    and create_quiet: "\<lbrakk>quiet c; cl_store c w = Some x; heldOnly (metaOf x);
        named n x; \<not> statusSet x; present n (cl_tenant c w) \<longrightarrow> migrate x; possible False n (cl_tenant c w)\<rbrakk>
      \<Longrightarrow> okRun (create (cl_rec c) req x) w (\<lambda>_ w'. present n (cl_tenant c w') \<and> exact c n (cl_tenant c w') \<and>
            others False n (cl_tenant c w') = others False n (cl_tenant c w) \<and>
            stored c (\<lambda>y. metaStored (metaOf x) (metaOf y) \<and> named n y \<and> statusSet y) w')"
    and create_taken: "\<lbrakk>quiet c; cl_store c w = Some x; heldOnly (metaOf x);
        named n x; \<not> statusSet x; present n (cl_tenant c w); \<not> migrate x; possible False n (cl_tenant c w)\<rbrakk>
      \<Longrightarrow> errRun (create (cl_rec c) req x) w (\<lambda>_. keeps c w)"
    and create_waits: "\<lbrakk>quiet c; cl_store c w = Some x; heldOnly (metaOf x);
        named n x; \<not> statusSet x; \<not> possible False n (cl_tenant c w)\<rbrakk>
      \<Longrightarrow> errRun (create (cl_rec c) req x) w (\<lambda>_. keeps c w)"
    and possible_others: "others d n s' = others d n s \<Longrightarrow> possible d n s' = possible d n s"
    and others_closing: "others False n s' = others False n s \<Longrightarrow> others True n s' = others True n s"
begin

abbreviation "view \<equiv> viewOf metaOf statusSet migrate present"

abbreviation "inorder \<equiv> orderly metaOf statusSet named"

abbreviation "able \<equiv> ableOf metaOf possible"

lemma release_quiet:
  assumes "quiet c" and "cl_store c w = Some x" and "\<not> statusSet x" and "heldOnly (metaOf x)"
    and "\<not> timeIsZero (om_DeletionTimestamp (metaOf x))"
  shows "okRun (delete (cl_rec c) x) w
    (\<lambda>_ w'. cl_store c w' = None \<and> cl_tenant c w' = cl_tenant c w)"
proof -
  have fin: "removeFinalizer (cl_lib c) (metaOf x) finalizer = (metaOf x)\<lparr>om_Finalizers := []\<rparr>"
    using quiet_api [OF assms(1)] assms(4) by (simp add: quietApi_def finalizerLists_def heldOnly_def)
  show ?thesis
    unfolding delete_released [OF assms(3)] fin success_def
    by (rule okRun_bind [OF quiet_release [OF quiet_api [OF assms(1)] assms(2)]])
      (use assms(5) in \<open>simp_all add: unheld_def metaOf_setMeta okRun_ret\<close>)
qed

lemma stored_in_order:
  assumes "stored c (\<lambda>y. metaStored (metaOf x) (metaOf y) \<and> named n y \<and> Q y) w"
    and "heldOnly (metaOf x)"
  obtains y where "cl_store c w = Some y" and "named n y" and "heldOnly (metaOf y)"
    and "om_DeletionTimestamp (metaOf y) = om_DeletionTimestamp (metaOf x)" and "Q y"
  using assms by (auto simp: stored_def heldOnly_stored)

lemma step_holds:
  assumes "quiet c" and "inorder c n w" and "view c n w = (New m, b)"
  shows "inorder c n (stepOf reconcile c w) \<and> view c n (stepOf reconcile c w) = (Held m, b) \<and>
    cl_tenant c (stepOf reconcile c w) = cl_tenant c w"
proof -
  from assms(3) obtain x where x: "cl_store c w = Some x" by (auto simp: viewOf_def split: option.splits)
  with assms(2,3) have n: "named n x" "timeIsZero (om_DeletionTimestamp (metaOf x))" "om_Finalizers (metaOf x) = []"
      "om_Namespace (metaOf x) \<noteq> ''''" "\<not> statusSet x" "migrate x = m" "present n (cl_tenant c w) = b"
    by (auto simp: orderly_def inOrder_def viewOf_def phaseOf_def heldOnly_def split: if_splits)
  let ?z = "setMeta x ((metaOf x)\<lparr>om_Finalizers := [finalizer]\<rparr>)"
  from step_new [OF assms(1) x n(3,2)] obtain y where y: "cl_store c (stepOf reconcile c w) = Some y" "same ?z y"
    and t: "cl_tenant c (stepOf reconcile c w) = cl_tenant c w" by (auto simp: stored_def)
  from meta_stored [OF y(2)] have "metaStored ((metaOf x)\<lparr>om_Finalizers := [finalizer]\<rparr>) (metaOf y)"
    by (simp add: metaOf_setMeta)
  moreover have "named n y" "migrate y = migrate x" "statusSet y = statusSet x"
    using named_same [OF y(2)] migrate_same [OF y(2)] status_stored [OF y(2)] n(1)
    by (simp_all add: setMeta_laws)
  ultimately show ?thesis
    using y(1) t n by (auto simp: orderly_def inOrder_def viewOf_def phaseOf_def metaStored_def heldOnly_def)
qed

lemma step_machine:
  assumes quiet: "quiet c" and ord: "inorder c n w" and able: "able c n w"
  shows "inorder c n (stepOf reconcile c w) \<and> view c n (stepOf reconcile c w) = idealStep forgiving (view c n w) \<and>
    others (closing (view c n w)) n (cl_tenant c (stepOf reconcile c w)) = others (closing (view c n w)) n (cl_tenant c w) \<and>
    (ready (view c n w) \<longrightarrow> exact c n (cl_tenant c (stepOf reconcile c w)))"
proof (cases "cl_store c w")
  case None
  with step_gone [OF quiet None] show ?thesis by (simp add: keeps_def orderly_def viewOf_def)
next
  case (Some x)
  let ?m = "metaOf x" let ?w' = "stepOf reconcile c w"
  from Some ord have x: "named n x" "inOrder metaOf statusSet x" by (simp_all add: orderly_def)
  obtain w1 where w1: "keeps c w w1" "?w' = fst (snd (pass (cl_rec c) (cl_req c) x w1))"
    by (rule step_found [OF quiet Some])
  from w1(1) Some have st: "cl_store c w1 = Some x" and tn: "cl_tenant c w1 = cl_tenant c w"
    by (simp_all add: keeps_def)
  have ab: "possible (\<not> timeIsZero (om_DeletionTimestamp ?m)) n (cl_tenant c w1)"
    using able Some by (simp add: tn ableOf_def)
  note fin = finalizer_listed [OF quiet]
  have held: "heldOnly ?m" if "om_Finalizers ?m \<noteq> []"
    using x(2) that by (auto simp: inOrder_def)
  note unfold = orderly_def inOrder_def viewOf_def phaseOf_def Some
  consider (closing) "\<not> timeIsZero (om_DeletionTimestamp ?m)" "statusSet x" "heldOnly ?m"
        "present n (cl_tenant c w1) \<or> forgiving"
    | (refused) "\<not> timeIsZero (om_DeletionTimestamp ?m)" "statusSet x" "heldOnly ?m"
        "\<not> present n (cl_tenant c w1)" "\<not> forgiving"
    | (releasing) "\<not> timeIsZero (om_DeletionTimestamp ?m)" "\<not> statusSet x" "heldOnly ?m"
    | (new) "timeIsZero (om_DeletionTimestamp ?m)" "om_Finalizers ?m = []" "\<not> statusSet x"
        "om_Namespace ?m \<noteq> ''''"
    | (applied) "timeIsZero (om_DeletionTimestamp ?m)" "heldOnly ?m" "statusSet x"
    | (free) "timeIsZero (om_DeletionTimestamp ?m)" "heldOnly ?m" "\<not> statusSet x"
        "present n (cl_tenant c w1) \<longrightarrow> migrate x"
    | (taken) "timeIsZero (om_DeletionTimestamp ?m)" "heldOnly ?m" "\<not> statusSet x"
        "present n (cl_tenant c w1)" "\<not> migrate x"
    using x(2) by (auto simp: inOrder_def)
  then show ?thesis
  proof cases
    case closing
    then have eq: "pass (cl_rec c) (cl_req c) x = delete (cl_rec c) x" by (simp add: pass_phases)
    from ab closing(1) have ab: "possible True n (cl_tenant c w1)" by simp
    from okRun_world [OF delete_quiet [OF quiet st closing(3) x(1) closing(2,4) ab]]
    have "\<not> present n (cl_tenant c ?w')" "others True n (cl_tenant c ?w') = others True n (cl_tenant c w1)"
      and s: "stored c (\<lambda>y. metaStored ?m (metaOf y) \<and> named n y \<and> \<not> statusSet y) ?w'"
      by (simp_all add: w1(2) eq)
    moreover obtain y where "cl_store c ?w' = Some y" "named n y" "heldOnly (metaOf y)"
      "om_DeletionTimestamp (metaOf y) = om_DeletionTimestamp ?m" "\<not> statusSet y"
      by (rule stored_in_order [OF s closing(3)])
    ultimately show ?thesis using closing tn by (simp add: unfold)
  next
    case refused
    then have eq: "pass (cl_rec c) (cl_req c) x = delete (cl_rec c) x" by (simp add: pass_phases)
    from ab refused(1) have ab: "possible True n (cl_tenant c w1)" by simp
    from errRun_world [OF delete_refused [OF quiet st refused(3) x(1) refused(2,4,5) ab]]
    have "keeps c w1 ?w'" by (simp add: w1(2) eq)
    then have "cl_store c ?w' = Some x" "cl_tenant c ?w' = cl_tenant c w"
      using st tn by (simp_all add: keeps_def)
    with refused x tn show ?thesis by (simp add: unfold)
  next
    case releasing
    then have eq: "pass (cl_rec c) (cl_req c) x = delete (cl_rec c) x" by (simp add: pass_phases)
    from okRun_world [OF release_quiet [OF quiet st releasing(2,3,1)]]
    have "cl_store c ?w' = None" "cl_tenant c ?w' = cl_tenant c w1" by (simp_all add: w1(2) eq)
    with releasing tn show ?thesis by (simp add: unfold)
  next
    case new
    then have "view c n w = (New (migrate x), present n (cl_tenant c w))"
      by (simp add: viewOf_def phaseOf_def Some)
    with step_holds [OF quiet ord this] show ?thesis by simp
  next
    case applied
    then have eq: "pass (cl_rec c) (cl_req c) x = update (cl_rec c) (cl_req c) x"
      by (simp add: pass_phases fin heldOnly_def)
    from ab applied(1) have ab: "possible False n (cl_tenant c w1)" by simp
    from okRun_world [OF update_quiet [OF quiet st applied(2) x(1) applied(3) ab, of "cl_req c"]]
    have p: "present n (cl_tenant c ?w') = present n (cl_tenant c w)"
        "others False n (cl_tenant c ?w') = others False n (cl_tenant c w)"
        "present n (cl_tenant c w) \<longrightarrow> exact c n (cl_tenant c ?w')"
      and s: "stored c (\<lambda>y. metaStored ?m (metaOf y) \<and> named n y \<and> \<not> migrate y \<and>
        statusSet y = present n (cl_tenant c w)) ?w'"
      by (simp_all add: w1(2) eq tn)
    obtain y where "cl_store c ?w' = Some y" "named n y" "heldOnly (metaOf y)"
      "om_DeletionTimestamp (metaOf y) = om_DeletionTimestamp ?m"
      "\<not> migrate y \<and> statusSet y = present n (cl_tenant c w)"
      by (rule stored_in_order [OF s applied(2)])
    with p applied show ?thesis by (simp add: unfold heldOnly_def)
  next
    case free
    then have eq: "pass (cl_rec c) (cl_req c) x = create (cl_rec c) (cl_req c) x"
      by (simp add: pass_phases fin heldOnly_def)
    from ab free(1) have ab: "possible False n (cl_tenant c w1)" by simp
    from okRun_world [OF create_quiet [OF quiet st free(2) x(1) free(3,4) ab, of "cl_req c"]]
    have p: "present n (cl_tenant c ?w')" "exact c n (cl_tenant c ?w')" "others False n (cl_tenant c ?w') = others False n (cl_tenant c w1)"
      and s: "stored c (\<lambda>y. metaStored ?m (metaOf y) \<and> named n y \<and> statusSet y) ?w'"
      by (simp_all add: w1(2) eq)
    obtain y where "cl_store c ?w' = Some y" "named n y" "heldOnly (metaOf y)"
      "om_DeletionTimestamp (metaOf y) = om_DeletionTimestamp ?m" "statusSet y"
      by (rule stored_in_order [OF s free(2)])
    with p free tn show ?thesis by (simp add: unfold heldOnly_def)
  next
    case taken
    then have eq: "pass (cl_rec c) (cl_req c) x = create (cl_rec c) (cl_req c) x"
      by (simp add: pass_phases fin heldOnly_def)
    from ab taken(1) have ab: "possible False n (cl_tenant c w1)" by simp
    from errRun_world [OF create_taken [OF quiet st taken(2) x(1) taken(3,4,5) ab, of "cl_req c"]]
    have "keeps c w1 ?w'" by (simp add: w1(2) eq)
    then have "cl_store c ?w' = Some x" "cl_tenant c ?w' = cl_tenant c w"
      using st tn by (simp_all add: keeps_def)
    with taken x tn show ?thesis by (simp add: unfold heldOnly_def)
  qed
qed

lemma step_refines:
  assumes "quiet c" and "inorder c n w" and "able c n w"
  shows "inorder c n (stepOf reconcile c w) \<and> able c n (stepOf reconcile c w) \<and>
    view c n (stepOf reconcile c w) = idealStep forgiving (view c n w) \<and>
    others True n (cl_tenant c (stepOf reconcile c w)) = others True n (cl_tenant c w) \<and>
    (ready (view c n w) \<longrightarrow> exact c n (cl_tenant c (stepOf reconcile c w)))"
proof -
  let ?w' = "stepOf reconcile c w" let ?d = "closing (view c n w)"
  from step_machine [OF assms] have m: "inorder c n ?w'" "view c n ?w' = idealStep forgiving (view c n w)"
      "others ?d n (cl_tenant c ?w') = others ?d n (cl_tenant c w)"
      "ready (view c n w) \<longrightarrow> exact c n (cl_tenant c ?w')" by blast+
  have "able c n ?w'"
    unfolding ableOf_def
  proof (intro allI impI)
    fix y assume y: "cl_store c ?w' = Some y"
    then have "fst (view c n ?w') \<noteq> Gone" by (simp add: viewOf_def phaseOf_def)
    then have d: "closing (view c n ?w') = ?d" unfolding m(2) by (rule closing_ideal)
    from y m(2) obtain x where x: "cl_store c w = Some x"
      by (cases "cl_store c w") (auto simp: viewOf_def phaseOf_def split: if_splits)
    have "possible ?d n (cl_tenant c w)" using assms(3) x by (simp add: ableOf_def closing_deleted [OF x])
    moreover have "?d \<longleftrightarrow> \<not> timeIsZero (om_DeletionTimestamp (metaOf y))"
      by (simp only: d [symmetric] closing_deleted [OF y])
    ultimately show "possible (\<not> timeIsZero (om_DeletionTimestamp (metaOf y))) n (cl_tenant c ?w')"
      using possible_others [OF m(3)] by simp
  qed
  moreover have "others True n (cl_tenant c ?w') = others True n (cl_tenant c w)"
  proof (cases ?d)
    case True
    with m(3) show ?thesis by simp
  next
    case False
    with m(3) have "others False n (cl_tenant c ?w') = others False n (cl_tenant c w)" by simp
    then show ?thesis by (rule others_closing)
  qed
  ultimately show ?thesis using m by blast
qed

text \<open>A resource whose dependencies are missing is held, and waits.\<close>

lemma step_waits:
  assumes "quiet c" and "inorder c n w" and "\<not> possible False n (cl_tenant c w)"
    and "view c n w = (New m, b) \<or> view c n w = (Held m, b)"
  shows "inorder c n (stepOf reconcile c w) \<and> view c n (stepOf reconcile c w) = (Held m, b) \<and>
    cl_tenant c (stepOf reconcile c w) = cl_tenant c w"
proof -
  let ?w' = "stepOf reconcile c w"
  consider (new) "view c n w = (New m, b)" | (held) "view c n w = (Held m, b)" using assms(4) by blast
  then show ?thesis
  proof cases
    case new
    from step_holds [OF assms(1,2) this] show ?thesis .
  next
    case held
    then obtain x where x: "cl_store c w = Some x" by (auto simp: viewOf_def split: option.splits)
    with assms(2) held have n: "named n x" "heldOnly (metaOf x)" "\<not> statusSet x"
        "timeIsZero (om_DeletionTimestamp (metaOf x))"
      by (auto simp: orderly_def inOrder_def viewOf_def phaseOf_def split: if_splits)
    have "keeps c w ?w'"
    proof (rule errRun_step, rule step_fails [OF assms(1) x])
      fix w1 assume "keeps c w w1"
      then show "errRun (pass (cl_rec c) (cl_req c) x) w1 (\<lambda>_. keeps c w1)"
        using create_waits [OF assms(1) _ n(2,1,3)] assms(3) n(2-4) x
        by (simp add: pass_phases heldOnly_def keeps_def finalizer_listed [OF assms(1)])
    qed
    then show ?thesis
      using assms(2) held by (simp add: keeps_def orderly_def viewOf_def)
  qed
qed

lemma passes_refine:
  assumes "quiet c" and "inorder c n w" and "able c n w"
  shows "inorder c n (passes reconcile c k w) \<and> able c n (passes reconcile c k w) \<and>
    view c n (passes reconcile c k w) = (idealStep forgiving ^^ k) (view c n w) \<and>
    others True n (cl_tenant c (passes reconcile c k w)) = others True n (cl_tenant c w)"
proof (induction k)
  case 0
  show ?case using assms(2,3) by simp
next
  case (Suc k)
  then show ?case using step_refines [OF assms(1)] by simp
qed

text \<open>So two passes lead every resource where it belongs, and further passes leave it there.\<close>

lemma passes_settle:
  assumes "quiet c" and "inorder c n w" and "cl_store c w = Some x"
    and "timeIsZero (om_DeletionTimestamp (metaOf x))"
    and "present n (cl_tenant c w) \<longrightarrow> statusSet x \<or> migrate x" and "2 \<le> k"
    and "able c n w"
  shows "present n (cl_tenant c (passes reconcile c k w)) \<and>
    exact c n (cl_tenant c (passes reconcile c k w)) \<and>
    stored c (\<lambda>y. named n y \<and> statusSet y) (passes reconcile c k w)"
proof -
  let ?w = "passes reconcile c k w"
  have s: "settles (view c n w)"
    using assms(2-5) by (auto simp: viewOf_def phaseOf_def orderly_def inOrder_def)
  obtain j where k: "k = Suc j" "1 \<le> j" using assms(6) by (cases k) auto
  note r = passes_refine [OF assms(1,2,7)]
  have "exact c n (cl_tenant c ?w)"
    using step_refines [OF assms(1)] r [of j] ideal_ready [OF s k(2)]
    by (simp add: k(1))
  moreover have "view c n ?w = (Applied, True)" "inorder c n ?w"
    using r ideal_settles [OF s assms(6)] by simp_all
  ultimately show ?thesis
    by (auto simp: viewOf_def phaseOf_def stored_def orderly_def split: option.splits if_splits)
qed

lemma passes_close:
  assumes "quiet c" and "inorder c n w" and "cl_store c w = Some x"
    and "\<not> timeIsZero (om_DeletionTimestamp (metaOf x))"
    and "statusSet x \<longrightarrow> present n (cl_tenant c w) \<or> forgiving" and "2 \<le> k"
    and "able c n w"
  shows "cl_store c (passes reconcile c k w) = None \<and>
    (statusSet x \<longrightarrow> \<not> present n (cl_tenant c (passes reconcile c k w)))"
proof -
  let ?w = "passes reconcile c k w"
  have "view c n w = (if statusSet x then Closing else Releasing, present n (cl_tenant c w))"
    using assms(3,4) by (simp add: viewOf_def phaseOf_def)
  then have "view c n ?w = (Gone, present n (cl_tenant c w) \<and> \<not> statusSet x)"
    using passes_refine [OF assms(1,2,7), of k] assms(5)
      ideal_closes(1) [OF assms(6)] ideal_closes(2) [OF assms(6)] by auto
  then show ?thesis
    by (auto simp: viewOf_def phaseOf_def split: option.splits if_splits)
qed

lemma settled:
  assumes "quiet c" and "cl_store c w = Some x" and "named n x" and "inOrder metaOf statusSet x"
    and "w' = passes reconcile c k w" and able: "possible (\<not> timeIsZero (om_DeletionTimestamp (metaOf x))) n (cl_tenant c w)"
  shows "others True n (cl_tenant c w') = others True n (cl_tenant c w) \<and>
    (2 \<le> k \<longrightarrow> timeIsZero (om_DeletionTimestamp (metaOf x)) \<longrightarrow>
      (present n (cl_tenant c w) \<longrightarrow> statusSet x \<or> migrate x) \<longrightarrow>
      present n (cl_tenant c w') \<and> exact c n (cl_tenant c w') \<and> stored c (\<lambda>y. named n y \<and> statusSet y) w') \<and>
    (2 \<le> k \<longrightarrow> \<not> timeIsZero (om_DeletionTimestamp (metaOf x)) \<longrightarrow>
      (statusSet x \<longrightarrow> present n (cl_tenant c w) \<or> forgiving) \<longrightarrow>
      cl_store c w' = None \<and> (statusSet x \<longrightarrow> \<not> present n (cl_tenant c w')))"
proof -
  have o: "inorder c n w" using assms(2-4) by (simp add: orderly_def)
  have able: "able c n w" using able assms(2) by (simp add: ableOf_def)
  show ?thesis
    using passes_refine [OF assms(1) o able, of k] passes_settle [OF assms(1) o assms(2) _ _ _ able, of k]
      passes_close [OF assms(1) o assms(2) _ _ _ able, of k] assms(5) by blast
qed

text \<open>Where a held resource without a record ends.\<close>

lemma held_passes:
  assumes "quiet c" and "cl_store c w = Some x" and "named n x" and "heldOnly (metaOf x)"
    and "timeIsZero (om_DeletionTimestamp (metaOf x))" and "\<not> statusSet x" and "\<not> migrate x"
    and "1 \<le> k" and "w' = passes reconcile c k w" and "possible False n (cl_tenant c w)"
  shows "stored c (\<lambda>y. named n y \<and> (statusSet y \<longleftrightarrow> \<not> present n (cl_tenant c w))) w' \<and>
    present n (cl_tenant c w') \<and> others True n (cl_tenant c w') = others True n (cl_tenant c w)"
proof -
  have able: "able c n w" using assms(2,5,10) by (simp add: ableOf_def)
  have "inorder c n w" using assms(2-4) by (simp add: orderly_def inOrder_def)
  note r = passes_refine [OF assms(1) this able, of k, folded assms(9)]
  have "view c n w = (Held False, present n (cl_tenant c w))"
    using assms(2,4-7) by (simp add: viewOf_def phaseOf_def heldOnly_def)
  with r have "view c n w' = (if present n (cl_tenant c w) then Held False else Applied, True)"
    by (simp add: ideal_held [OF assms(8)])
  with r show ?thesis
    by (auto simp: viewOf_def phaseOf_def stored_def orderly_def split: option.splits if_splits)
qed

text \<open>
  A held resource without a record whose thing is there already (it was there before, or a pass that
  had created it failed before it could record it) is stuck, unless it asks to migrate. So is one
  that is being deleted when its thing is gone and the tenant insists on having it.
\<close>

lemma taken_stuck:
  assumes "quiet c" and "cl_store c w = Some x" and "named n x" and "heldOnly (metaOf x)"
    and "timeIsZero (om_DeletionTimestamp (metaOf x))" and "\<not> statusSet x" and "\<not> migrate x"
    and "present n (cl_tenant c w)" and "w' = passes reconcile c k w" and "possible False n (cl_tenant c w)"
  shows "keeps c w w' \<and> (\<exists>e. outcome (reconcile (cl_rec c) (cl_req c)) w' = Err e)"
proof (rule fails_stuck [OF assms(1,2) _ assms(9)])
  fix w1 assume "keeps c w w1"
  then show "errRun (pass (cl_rec c) (cl_req c) x) w1 (\<lambda>_. keeps c w1)"
    using assms create_taken [OF assms(1) _ assms(4,3,6) _ assms(7)]
    by (simp add: pass_phases heldOnly_def keeps_def finalizer_listed [OF assms(1)])
qed

lemma closing_stuck:
  assumes "quiet c" and "cl_store c w = Some x" and "named n x" and "heldOnly (metaOf x)"
    and "\<not> timeIsZero (om_DeletionTimestamp (metaOf x))" and "statusSet x"
    and "\<not> present n (cl_tenant c w)" and "\<not> forgiving" and "w' = passes reconcile c k w"
    and "possible True n (cl_tenant c w)"
  shows "keeps c w w' \<and> (\<exists>e. outcome (reconcile (cl_rec c) (cl_req c)) w' = Err e)"
proof (rule fails_stuck [OF assms(1,2) _ assms(9)])
  fix w1 assume "keeps c w w1"
  then show "errRun (pass (cl_rec c) (cl_req c) x) w1 (\<lambda>_. keeps c w1)"
    using assms delete_refused [OF assms(1) _ assms(4,3,6) _ assms(8)]
    by (simp add: pass_phases keeps_def)
qed

end

section \<open>Sample clusters\<close>

text \<open>
  For the witnesses: the world is what the API server has stored together with the state of the tenant.
  The object of a cluster is read by \<open>get\<close> and stored as it is sent by \<open>put\<close>; the tenant (seen through
  \<open>tn\<close>) answers as the environment says. A sample cluster stores just its object, a family of them one
  object for each index.
\<close>

definition sampleAt ::
  "('o \<Rightarrow> ObjectMeta) \<Rightarrow> ('t \<Rightarrow> 's) \<Rightarrow> ('d \<times> 't) env \<Rightarrow> ('d \<Rightarrow> 'o option) \<Rightarrow> ('o option \<Rightarrow> 'd \<Rightarrow> 'd) \<Rightarrow>
   ('d \<times> 't, 'o, 's) cluster" where
  "sampleAt metaOf tn E get put = \<lparr>
     cl_rec = \<lparr>r_env = E,
       r_Get = (\<lambda>w _. (case get (fst w) of None \<Rightarrow> (Inl (KubeErr ''NotFound'' ''''), w) | Some x \<Rightarrow> (Inr x, w))),
       r_Update = (\<lambda>w x. (Inr x, (put (if unheld (metaOf x) then None else Some x) (fst w), snd w))),
       minioOperatorNamespace = ''op'', syncInterval = 60\<rparr>,
     cl_req = sampleKey, cl_store = (\<lambda>w. get (fst w)), cl_tenant = (\<lambda>w. tn (snd w))\<rparr>"

definition sampleCluster ::
  "('o \<Rightarrow> ObjectMeta) \<Rightarrow> ('t \<Rightarrow> 's) \<Rightarrow> ('o option \<times> 't) env \<Rightarrow> ('o option \<times> 't, 'o, 's) cluster" where
  "sampleCluster metaOf tn E = sampleAt metaOf tn E (\<lambda>d. d) (\<lambda>x _. x)"

definition sampleFamily ::
  "('o \<Rightarrow> ObjectMeta) \<Rightarrow> ('t \<Rightarrow> 's) \<Rightarrow> (('i \<Rightarrow> 'o option) \<times> 't) env \<Rightarrow> 'i \<Rightarrow>
   (('i \<Rightarrow> 'o option) \<times> 't, 'o, 's) cluster" where
  "sampleFamily metaOf tn E i = sampleAt metaOf tn E (\<lambda>f. f i) (\<lambda>x f. f(i := x))"

lemma sampleAt_simps [simp]:
  "cl_store (sampleAt metaOf tn E get put) = (\<lambda>w. get (fst w))"
  "cl_tenant (sampleAt metaOf tn E get put) = (\<lambda>w. tn (snd w))"
  "r_env (cl_rec (sampleAt metaOf tn E get put)) = E"
  by (simp_all add: sampleAt_def)

lemma sampleCluster_simps [simp]:
  "cl_store (sampleCluster metaOf tn E) = fst" "cl_tenant (sampleCluster metaOf tn E) w = tn (snd w)"
  "r_env (cl_rec (sampleCluster metaOf tn E)) = E"
  by (simp_all add: sampleCluster_def)

lemma sampleFamily_simps [simp]:
  "cl_store (sampleFamily metaOf tn E i) = (\<lambda>w. fst w i)"
  "cl_tenant (sampleFamily metaOf tn E i) = (\<lambda>w. tn (snd w))"
  "r_env (cl_rec (sampleFamily metaOf tn E i)) = E"
  by (simp_all add: sampleFamily_def)

lemma sampleAt_api:
  assumes "lib E = sampleLib" and "\<And>x. same x x" and "\<And>x d. get (put x d) = x"
  shows "quietApi metaOf same (sampleAt metaOf tn E get put)"
  using assms
  by (auto simp: quietApi_def finalizerLists_def sampleAt_def keeps_def sampleLib_def sampleIsNotFound_def)

lemma sampleAt_opens:
  assumes "sampleInfra E"
  shows "opensAdmin (sampleAt metaOf tn E get put)" and "opensClient (sampleAt metaOf tn E get put)"
  unfolding opensAdmin_def opensClient_def okRun_def
  using getAdminClient_opens [of "cl_rec (sampleAt metaOf tn E get put)"]
    getTenantClient_opens [of "cl_rec (sampleAt metaOf tn E get put)"] assms by fastforce+

lemma sampleCluster_api:
  "lib E = sampleLib \<Longrightarrow> (\<And>x. same x x) \<Longrightarrow> quietApi metaOf same (sampleCluster metaOf tn E)"
  unfolding sampleCluster_def by (rule sampleAt_api) simp_all

lemma sampleCluster_opens:
  "sampleInfra E \<Longrightarrow> opensAdmin (sampleCluster metaOf tn E)"
  "sampleInfra E \<Longrightarrow> opensClient (sampleCluster metaOf tn E)"
  unfolding sampleCluster_def by (rule sampleAt_opens, assumption)+

end
