(* ===== verification/Bucket_Reconciler.thy ===== *)
theory Bucket_Reconciler
  imports Convergence
begin

text \<open>\<open>minio_bucket_reconciler.go\<close>\<close>

definition setBucketCurrent :: "MinioBucket \<Rightarrow> MinioBucketSpec option \<Rightarrow> MinioBucket" where
  "setBucketCurrent b cs = b\<lparr>b_Status := (b_Status b)\<lparr>bst_CurrentSpec := cs\<rparr>\<rparr>"

definition bucketCurrent :: "MinioBucket \<Rightarrow> MinioBucketSpec option" where
  "bucketCurrent b = bst_CurrentSpec (b_Status b)"

definition bucketNamespace :: "MinioBucket \<Rightarrow> string" where
  "bucketNamespace b = om_Namespace (b_ObjectMeta b)"

definition emptyVersioning :: MinioBucketVersioningConfiguration where
  "emptyVersioning = \<lparr>vc_Status = '''', vc_MFADelete = '''', vc_ExcludedPrefixes = NilSlice,
     vc_ExcludeFolders = False\<rparr>"

definition emptyLifecycle :: MinioBucketLifecycleConfiguration where
  "emptyLifecycle = \<lparr>lc_Rules = NilSlice\<rparr>"

section \<open>Deletion\<close>

definition bucketDeletionPolicy :: "MinioBucketSpec \<Rightarrow> string" where
  "bucketDeletionPolicy cs =
     (if bs_DeletionPolicy cs = '''' then MinioBucketDeletionPolicyIfEmpty
      else bs_DeletionPolicy cs)"

definition minioBucket_delete ::
  "('w, MinioBucket) reconciler \<Rightarrow> MinioBucket \<Rightarrow> ('w, MinioBucket call, Result) m" where
  "minioBucket_delete r b =
     (case bucketCurrent b of
        Some cs \<Rightarrow>
          bindM (getTenantClient r (bs_TenantRef cs) (bucketNamespace b)) (\<lambda>mtc.
          let dp = bucketDeletionPolicy cs in
          bindM (attempt (mutate (r_env r) mtc
            (RemoveBucket (bs_Name cs) (dp = MinioBucketDeletionPolicyAlways)))) (\<lambda>x.
          bindM (checkErr (ignoreMinioErrorCode (errOf x) ''NoSuchBucket'')) (\<lambda>_.
          let b = setBucketCurrent b None in
          bindM (updateObj r b) (\<lambda>b.
          success r))))
      | None \<Rightarrow>
          let b = b\<lparr>b_ObjectMeta := removeFinalizer (lib (r_env r)) (b_ObjectMeta b) finalizer\<rparr> in
          bindM (updateObj r b) (\<lambda>b.
          success r))"

definition minioBucket_addFinalizer ::
  "('w, MinioBucket) reconciler \<Rightarrow> MinioBucket \<Rightarrow> ('w, MinioBucket call, Result) m" where
  "minioBucket_addFinalizer r b =
     (let b = b\<lparr>b_ObjectMeta := addFinalizer (lib (r_env r)) (b_ObjectMeta b) finalizer\<rparr> in
     bindM (updateObj r b) (\<lambda>b.
     success r))"

section \<open>Update\<close>

definition minioBucket_removeMigrate ::
  "('w, MinioBucket) reconciler \<Rightarrow> MinioBucket \<Rightarrow> ('w, MinioBucket call, MinioBucket) m" where
  "minioBucket_removeMigrate r b =
     (if bs_Migrate (b_Spec b) then
        updateObj r (b\<lparr>b_Spec := (b_Spec b)\<lparr>bs_Migrate := False\<rparr>\<rparr>)
      else ret b)"

text \<open>The configuration sent to MinIO: \<open>Suspended\<close>, overwritten with the given one if there is one.\<close>

definition versioningTarget ::
  "Lib \<Rightarrow> MinioBucketVersioningConfiguration option \<Rightarrow> goerr + MinioBucketVersioningConfiguration" where
  "versioningTarget L v =
     (let bvc = emptyVersioning\<lparr>vc_Status := ''Suspended''\<rparr> in
      case v of None \<Rightarrow> Inr bvc | Some c \<Rightarrow> convertViaXML (versioningToMinio L) c bvc)"

definition minioBucket_syncVersioning ::
  "('w, MinioBucket) reconciler \<Rightarrow> handle \<Rightarrow> MinioBucket \<Rightarrow> ('w, MinioBucket call, MinioBucket) m" where
  "minioBucket_syncVersioning r mtc b =
     (let E = r_env r; L = lib E in
     bindM (deref (bucketCurrent b)) (\<lambda>cs.
     bindM (queryM mtc (GetBucketVersioning (bs_Name cs))
       (\<lambda>w. e_GetBucketVersioning E w mtc (bs_Name cs))) (\<lambda>bvc.
     bindM (liftE (convertViaXML (versioningFromMinio L) bvc emptyVersioning)) (\<lambda>mbvc.
     bindM (if \<not> cmpEqualVersioning L mbvc (nilToEmpty emptyVersioning (bs_Versioning cs)) then
              bindM (liftE (versioningTarget L (bs_Versioning cs))) (\<lambda>bvc.
              mutate E mtc (SetBucketVersioning (bs_Name cs) bvc))
            else ret ()) (\<lambda>_.
     if bs_Versioning (b_Spec b) \<noteq> bs_Versioning cs then
       bindM (liftE (versioningTarget L (bs_Versioning (b_Spec b)))) (\<lambda>bvc.
       bindM (mutate E mtc (SetBucketVersioning (bs_Name cs) bvc)) (\<lambda>_.
       updateObj r (setBucketCurrent b (Some (cs\<lparr>bs_Versioning := bs_Versioning (b_Spec b)\<rparr>)))))
     else ret b)))))"

definition lifecycleTarget ::
  "Lib \<Rightarrow> MinioBucketLifecycleConfiguration option \<Rightarrow> goerr + MinioBucketLifecycleConfiguration" where
  "lifecycleTarget L v =
     (case v of None \<Rightarrow> Inr emptyLifecycle
      | Some c \<Rightarrow> convertViaXML (lifecycleToMinio L) c emptyLifecycle)"

definition minioBucket_syncLifecycle ::
  "('w, MinioBucket) reconciler \<Rightarrow> handle \<Rightarrow> MinioBucket \<Rightarrow> ('w, MinioBucket call, MinioBucket) m" where
  "minioBucket_syncLifecycle r mtc b =
     (let E = r_env r; L = lib E in
     bindM (deref (bucketCurrent b)) (\<lambda>cs.
     bindM (callPair (Query mtc (GetBucketLifecycle (bs_Name cs)))
       (\<lambda>w. e_GetBucketLifecycle E w mtc (bs_Name cs))) (\<lambda>(blc, err).
     bindM (checkErr (ignoreMinioErrorCode err ''NoSuchLifecycleConfiguration'')) (\<lambda>_.
     let blc = (case blc of None \<Rightarrow> newLifecycle L | Some c \<Rightarrow> c) in
     bindM (liftE (convertViaXML (lifecycleFromMinio L) blc emptyLifecycle)) (\<lambda>mblc.
     bindM (if \<not> cmpEqualLifecycle L mblc (nilToEmpty emptyLifecycle (bs_Lifecycle cs)) then
              bindM (liftE (lifecycleTarget L (bs_Lifecycle cs))) (\<lambda>blc.
              mutate E mtc (SetBucketLifecycle (bs_Name cs) blc))
            else ret ()) (\<lambda>_.
     if bs_Lifecycle (b_Spec b) \<noteq> bs_Lifecycle cs then
       bindM (liftE (lifecycleTarget L (bs_Lifecycle (b_Spec b)))) (\<lambda>blc.
       bindM (mutate E mtc (SetBucketLifecycle (bs_Name cs) blc)) (\<lambda>_.
       updateObj r (setBucketCurrent b (Some (cs\<lparr>bs_Lifecycle := bs_Lifecycle (b_Spec b)\<rparr>)))))
     else ret b))))))"

definition minioBucket_syncDeletionPolicy ::
  "('w, MinioBucket) reconciler \<Rightarrow> MinioBucket \<Rightarrow> ('w, MinioBucket call, MinioBucket) m" where
  "minioBucket_syncDeletionPolicy r b =
     bindM (deref (bucketCurrent b)) (\<lambda>cs.
     if bs_DeletionPolicy cs \<noteq> bs_DeletionPolicy (b_Spec b) then
       updateObj r (setBucketCurrent b
         (Some (cs\<lparr>bs_DeletionPolicy := bs_DeletionPolicy (b_Spec b)\<rparr>)))
     else ret b)"

definition minioBucket_update ::
  "('w, MinioBucket) reconciler \<Rightarrow> MinioBucket \<Rightarrow> ('w, MinioBucket call, Result) m" where
  "minioBucket_update r b =
     bindM (minioBucket_removeMigrate r b) (\<lambda>b.
     bindM (deref (bucketCurrent b)) (\<lambda>cs.
     bindM (getTenantClient r (bs_TenantRef cs) (bucketNamespace b)) (\<lambda>mtc.
     bindM (queryM mtc (BucketExists (bs_Name cs))
       (\<lambda>w. e_BucketExists (r_env r) w mtc (bs_Name cs))) (\<lambda>be.
     if \<not> be then
       bindM (updateObj r (setBucketCurrent b None)) (\<lambda>b.
       success r)
     else
       bindM (minioBucket_syncVersioning r mtc b) (\<lambda>b.
       bindM (minioBucket_syncLifecycle r mtc b) (\<lambda>b.
       bindM (minioBucket_syncDeletionPolicy r b) (\<lambda>b.
       success r)))))))"

section \<open>Creation\<close>

definition minioBucket_create ::
  "('w, MinioBucket) reconciler \<Rightarrow> MinioBucket \<Rightarrow> ('w, MinioBucket call, Result) m" where
  "minioBucket_create r b =
     (let E = r_env r; L = lib E; spec = b_Spec b in
     bindM (getTenantClient r (bs_TenantRef spec) (bucketNamespace b)) (\<lambda>mtc.
     bindM (attempt (mutate E mtc (MakeBucket (bs_Name spec)))) (\<lambda>x.
     let err = (if bs_Migrate spec
                then ignoreMinioErrorCode (errOf x) ''BucketAlreadyOwnedByYou'' else errOf x) in
     bindM (checkErr err) (\<lambda>_.
     bindM (case bs_Versioning spec of None \<Rightarrow> ret () | Some v \<Rightarrow>
              bindM (liftE (convertViaXML (versioningToMinio L) v emptyVersioning)) (\<lambda>bvc.
              mutate E mtc (SetBucketVersioning (bs_Name spec) bvc))) (\<lambda>_.
     bindM (case bs_Lifecycle spec of None \<Rightarrow> ret () | Some l \<Rightarrow>
              bindM (liftE (convertViaXML (lifecycleToMinio L) l emptyLifecycle)) (\<lambda>blc.
              mutate E mtc (SetBucketLifecycle (bs_Name spec) blc))) (\<lambda>_.
     let spec = spec\<lparr>bs_Migrate := False\<rparr>;
         b = setBucketCurrent (b\<lparr>b_Spec := spec\<rparr>) (Some spec) in
     bindM (updateObj r b) (\<lambda>b.
     success r)))))))"

section \<open>Reconcile\<close>

definition minioBucket_pass ::
  "('w, MinioBucket) reconciler \<Rightarrow> NamespacedName \<Rightarrow> MinioBucket \<Rightarrow> ('w, MinioBucket call, Result) m" where
  "minioBucket_pass r req b =
     (if \<not> timeIsZero (om_DeletionTimestamp (b_ObjectMeta b)) then minioBucket_delete r b
      else if \<not> containsFinalizer (lib (r_env r)) (b_ObjectMeta b) finalizer then
        minioBucket_addFinalizer r b
      else (case bucketCurrent b of
              Some _ \<Rightarrow> minioBucket_update r b
            | None \<Rightarrow> minioBucket_create r b))"

definition minioBucketReconciler_Reconcile ::
  "('w, MinioBucket) reconciler \<Rightarrow> NamespacedName \<Rightarrow> ('w, MinioBucket call, Result) m" where
  "minioBucketReconciler_Reconcile r req =
     bindM (attempt (getObj r req)) (\<lambda>x.
     (case x of Inl err \<Rightarrow> getFailed r err | Inr b \<Rightarrow> minioBucket_pass r req b))"

section \<open>The contract\<close>

definition bucketStatusSet :: "MinioBucket \<Rightarrow> bool" where
  "bucketStatusSet b \<longleftrightarrow> bucketCurrent b \<noteq> None"

definition bucketSame :: "MinioBucket \<Rightarrow> MinioBucket \<Rightarrow> bool" where
  "bucketSame b b' \<longleftrightarrow> metaStored (b_ObjectMeta b) (b_ObjectMeta b') \<and> b_Spec b' = b_Spec b \<and>
     b_Status b' = b_Status b"

lemma setBucketCurrent_simps [simp]:
  "b_ObjectMeta (setBucketCurrent b cs) = b_ObjectMeta b"
  "b_Spec (setBucketCurrent b cs) = b_Spec b"
  "bucketCurrent (setBucketCurrent b cs) = cs"
  "bucketCurrent (b\<lparr>b_ObjectMeta := m\<rparr>) = bucketCurrent b"
  by (simp_all add: setBucketCurrent_def bucketCurrent_def)

lemma minioBucket_removeMigrate_triple:
  assumes "profile P N (\<lambda>b. Q (b_ObjectMeta b))" and "survives r (\<lambda>b. Q (b_ObjectMeta b))"
    and "Q (b_ObjectMeta b)"
  shows "triple P N True (\<lambda>b. Q (b_ObjectMeta b)) (minioBucket_removeMigrate r b)"
  unfolding minioBucket_removeMigrate_def tenant_calls
  by (intro triple_intro triple_call triple_updateObj [OF assms(1,2)])
    (use assms in \<open>auto simp: profile_def\<close>)

lemma minioBucket_syncVersioning_triple:
  assumes "profile P N (\<lambda>b. Q (b_ObjectMeta b))" and "survives r (\<lambda>b. Q (b_ObjectMeta b))"
    and "Q (b_ObjectMeta b)"
  shows "triple P N True (\<lambda>b. Q (b_ObjectMeta b)) (minioBucket_syncVersioning r mtc b)"
  unfolding minioBucket_syncVersioning_def tenant_calls Let_def
  by (intro triple_intro triple_call triple_updateObj [OF assms(1,2)])
    (use assms in \<open>auto simp: profile_def\<close>)

lemma minioBucket_syncLifecycle_triple:
  assumes "profile P N (\<lambda>b. Q (b_ObjectMeta b))" and "survives r (\<lambda>b. Q (b_ObjectMeta b))"
    and "Q (b_ObjectMeta b)"
  shows "triple P N True (\<lambda>b. Q (b_ObjectMeta b)) (minioBucket_syncLifecycle r mtc b)"
  unfolding minioBucket_syncLifecycle_def tenant_calls Let_def split_def fst_conv snd_conv
  by (intro triple_intro triple_call triple_updateObj [OF assms(1,2)])
    (use assms in \<open>auto simp: profile_def\<close>)

lemma minioBucket_syncDeletionPolicy_triple:
  assumes "profile P N (\<lambda>b. Q (b_ObjectMeta b))" and "survives r (\<lambda>b. Q (b_ObjectMeta b))"
    and "Q (b_ObjectMeta b)"
  shows "triple P N True (\<lambda>b. Q (b_ObjectMeta b)) (minioBucket_syncDeletionPolicy r b)"
  unfolding minioBucket_syncDeletionPolicy_def tenant_calls
  by (intro triple_intro triple_call triple_updateObj [OF assms(1,2)])
    (use assms in \<open>auto simp: profile_def\<close>)

lemma minioBucket_update_triple:
  assumes "profile P N (\<lambda>b. Q (b_ObjectMeta b))" and "survives r (\<lambda>b. Q (b_ObjectMeta b))"
    and "Q (b_ObjectMeta b)"
  shows "triple P N True (\<lambda>res. requeueAfter res = syncInterval r) (minioBucket_update r b)"
  unfolding minioBucket_update_def tenant_calls success_def
  by (intro triple_intro triple_call triple_bind_updateObj [OF assms(1,2)]
      triple_bind [OF minioBucket_removeMigrate_triple [OF assms]]
      triple_bind [OF minioBucket_syncVersioning_triple [OF assms(1,2)]]
      triple_bind [OF minioBucket_syncLifecycle_triple [OF assms(1,2)]]
      triple_bind [OF minioBucket_syncDeletionPolicy_triple [OF assms(1,2)]]
      triple_bind [OF getTenantClient_profile [OF assms(1)]])
    (use assms in \<open>auto simp: profile_def\<close>)

lemma minioBucket_create_triple:
  assumes "profile P N (\<lambda>b. Q (b_ObjectMeta b))" and "survives r (\<lambda>b. Q (b_ObjectMeta b))"
    and "Q (b_ObjectMeta b)"
  shows "triple P N True (\<lambda>res. requeueAfter res = syncInterval r) (minioBucket_create r b)"
  unfolding minioBucket_create_def tenant_calls success_def Let_def
  by (intro triple_intro triple_call triple_bind_updateObj [OF assms(1,2)]
      triple_bind [OF getTenantClient_profile [OF assms(1)]])
    (use assms in \<open>auto simp: profile_def\<close>)

lemma minioBucket_delete_safe:
  "finalizerLaws (lib (r_env r)) \<Longrightarrow>
   triple (updatesSafe (lib (r_env r)) b_ObjectMeta bucketStatusSet) (\<lambda>_. True) True (\<lambda>_. True)
     (minioBucket_delete r b)"
  unfolding minioBucket_delete_def calls success_def Let_def
  by (intro triple_intro triple_bind [OF getTenantClient_triple])
    (auto simp: safeObj_def bucketStatusSet_def)

lemma minioBucket_delete_ok:
  "triple (\<lambda>_. True) updateOk True (\<lambda>res. requeueAfter res = syncInterval r) (minioBucket_delete r b)"
  unfolding minioBucket_delete_def calls success_def Let_def
  by (intro triple_intro triple_bind [OF getTenantClient_triple]) auto

interpretation bucket: phased_reconciler minioBucketReconciler_Reconcile minioBucket_pass
  minioBucket_delete minioBucket_addFinalizer "\<lambda>r _. minioBucket_update r" "\<lambda>r _. minioBucket_create r"
  b_ObjectMeta "\<lambda>b m. b\<lparr>b_ObjectMeta := m\<rparr>" bucketStatusSet bucketSame
  by unfold_locales
    (simp_all add: minioBucketReconciler_Reconcile_def minioBucket_pass_def bucketStatusSet_def
      minioBucket_addFinalizer_def bucketSame_def bucketCurrent_def minioBucket_delete_ok
      minioBucket_update_triple minioBucket_create_triple
      minioBucket_delete_safe split: option.split)

section \<open>Properties\<close>

text \<open>
  \<open>bucketMade\<close>: the tenant has made the bucket, or, to migrate it, says that it is already there and
  owned by the operator's user. \<open>bucketGone\<close>: it has removed it or says that there is none.
\<close>

definition bucketMade :: "MinioBucketSpec \<Rightarrow> MinioBucket call event \<Rightarrow> bool" where
  "bucketMade spec ev \<longleftrightarrow> asked (MakeBucket (bs_Name spec))
     (\<lambda>e. e = None \<or> bs_Migrate spec \<and> isMinioErrorCode e ''BucketAlreadyOwnedByYou'') ev"

definition bucketGone :: "'w env \<Rightarrow> MinioBucketSpec \<Rightarrow> MinioBucket call event \<Rightarrow> bool" where
  "bucketGone E cs ev \<longleftrightarrow>
     asked (RemoveBucket (bs_Name cs) (bs_DeletionPolicy cs = MinioBucketDeletionPolicyAlways))
       (minioOk ''NoSuchBucket'') ev \<or>
     looked (BucketExists (bs_Name cs)) accepted ev \<and>
       (\<exists>w h w'. e_BucketExists E w h (bs_Name cs) = (Inr False, w'))"

definition bucketConfigured :: "MinioBucket call event \<Rightarrow> bool" where
  "bucketConfigured ev \<longleftrightarrow> (case fst ev of
       Mutate h q \<Rightarrow> (case q of SetBucketVersioning n c \<Rightarrow> True | SetBucketLifecycle n c \<Rightarrow> True
                        | _ \<Rightarrow> False)
     | _ \<Rightarrow> False)"

text \<open>The requests a pass may make: only about the bucket of the status, or, without one, of the spec.\<close>

definition configRequest :: "string \<Rightarrow> mutation \<Rightarrow> bool" where
  "configRequest n q \<longleftrightarrow> (case q of SetBucketVersioning m c \<Rightarrow> m = n | SetBucketLifecycle m c \<Rightarrow> m = n
     | _ \<Rightarrow> False)"

definition bucketRequest :: "MinioBucket \<Rightarrow> MinioBucket call event \<Rightarrow> bool" where
  "bucketRequest b ev \<longleftrightarrow> (case fst ev of
       Mutate h q \<Rightarrow> (case bucketCurrent b of
           None \<Rightarrow> q = MakeBucket (bs_Name (b_Spec b)) \<or> configRequest (bs_Name (b_Spec b)) q
         | Some cs \<Rightarrow>
             if timeIsZero (om_DeletionTimestamp (b_ObjectMeta b)) then configRequest (bs_Name cs) q
             else q = RemoveBucket (bs_Name cs) (bs_DeletionPolicy cs = MinioBucketDeletionPolicyAlways))
     | _ \<Rightarrow> True)"

definition sampleBucketSpec :: MinioBucketSpec where
  "sampleBucketSpec = \<lparr>bs_DeletionPolicy = ''Always'', bs_Lifecycle = Some sampleLifecycle,
     bs_Migrate = False, bs_Name = ''b'', bs_TenantRef = sampleRef,
     bs_Versioning = Some sampleVersioning\<rparr>"

definition sampleBucket :: "MinioBucketSpec option \<Rightarrow> MinioBucket" where
  "sampleBucket cs = \<lparr>b_TypeMeta = \<lparr>tm_Kind = ''MinioBucket'', tm_APIVersion = ''v1''\<rparr>,
     b_ObjectMeta = heldMeta ''b'', b_Spec = sampleBucketSpec,
     b_Status = \<lparr>bst_Synced = None, bst_CurrentSpec = cs\<rparr>\<rparr>"

lemma sampleBucket_simps [simp]:
  "bucketCurrent (sampleBucket cs) = cs" "b_Spec (sampleBucket cs) = sampleBucketSpec"
  "b_ObjectMeta (sampleBucket cs) = heldMeta ''b''" "bs_Name sampleBucketSpec = ''b''"
  "\<not> bs_Migrate sampleBucketSpec"
  by (simp_all add: sampleBucket_def sampleBucketSpec_def bucketCurrent_def)

lemma bucketSame_refl [simp]: "bucketSame b b"
  by (simp add: bucketSame_def)

lemma bucketCurrent_Spec [simp]: "bucketCurrent (b\<lparr>b_Spec := s\<rparr>) = bucketCurrent b"
  by (simp add: bucketCurrent_def)

lemma bucketSame_current: "bucketSame x y \<Longrightarrow> bucketCurrent y = bucketCurrent x"
  by (simp add: bucketSame_def bucketCurrent_def)

lemma bucketDeletionPolicy_Always:
  "bucketDeletionPolicy cs = MinioBucketDeletionPolicyAlways \<longleftrightarrow>
     bs_DeletionPolicy cs = MinioBucketDeletionPolicyAlways"
  by (simp add: bucketDeletionPolicy_def MinioBucketDeletionPolicyAlways_def
      MinioBucketDeletionPolicyIfEmpty_def)

subsection \<open>The status is truthful\<close>

lemma minioBucket_pass_records:
  assumes "bucketCurrent b = None"
  shows "ordered (bucketMade (b_Spec b)) (\<lambda>ev. sent bucketStatusSet ev \<or> bucketConfigured ev) False
    (minioBucket_pass r req b)"
  unfolding minioBucket_pass_def minioBucket_delete_def minioBucket_addFinalizer_def
    minioBucket_create_def Let_def calls success_def assms option.case
  by (intro ordered_intro ordered_bind_quiet [OF getTenantClient_triple])
    (auto simp: bucketStatusSet_def assms bucketConfigured_def bucketMade_def
      ignoreMinioErrorCode_eq_None elim: isInfra.elims split: if_splits)

text \<open>
  During an update the status keeps a spec of the same name. \<open>namedBucket\<close> is the invariant, and
  \<open>P\<close> and \<open>N\<close> any conditions that allow its updates and the configuration requests for that name.
\<close>

definition namedBucket :: "string \<Rightarrow> MinioBucket \<Rightarrow> bool" where
  "namedBucket n b \<longleftrightarrow> (\<exists>cs. bucketCurrent b = Some cs \<and> bs_Name cs = n)"

definition updateProfile :: "string \<Rightarrow> (MinioBucket call event \<Rightarrow> bool) \<Rightarrow> bool" where
  "updateProfile n P \<longleftrightarrow>
     (\<forall>h q e. configRequest n q \<longrightarrow> P (Mutate h q, e)) \<and> (\<forall>h q e. P (Query h q, e)) \<and>
     (\<forall>c e. isInfra c \<longrightarrow> P (c, e)) \<and> (\<forall>y e. namedBucket n y \<longrightarrow> P (Update y, e))"

lemma updateProfileD:
  assumes "updateProfile n P"
  shows "P (Mutate h (SetBucketVersioning n v), e)" "P (Mutate h (SetBucketLifecycle n l), e)"
    "P (Query h q, e)" "isInfra c \<Longrightarrow> P (c, e)" "namedBucket n y \<Longrightarrow> P (Update y, e)"
  using assms by (simp_all add: updateProfile_def configRequest_def)

lemma namedBucket_simps [simp]:
  "namedBucket n (setBucketCurrent b (Some cs)) \<longleftrightarrow> bs_Name cs = n"
  "\<not> namedBucket n (setBucketCurrent b None)"
  "namedBucket n (b\<lparr>b_Spec := s\<rparr>) \<longleftrightarrow> namedBucket n b"
  by (simp_all add: namedBucket_def)

lemma namedBucketD: "namedBucket n b \<Longrightarrow> bucketCurrent b = Some cs \<Longrightarrow> bs_Name cs = n"
  by (simp add: namedBucket_def)

lemma bucketSame_named: "bucketSame x y \<Longrightarrow> namedBucket n x \<Longrightarrow> namedBucket n y"
  by (simp add: namedBucket_def bucketSame_current)

lemma namedBucket_update:
  assumes "updateStores bucketSame r" and "updateProfile n P" and "namedBucket n b"
  shows "triple P (\<lambda>_. True) True (namedBucket n) (updateObj r b)"
  by (rule triple_weaken [OF triple_updateObj_same [OF assms(1)]])
    (use bucketSame_named assms(3) updateProfileD(5) [OF assms(2,3)] in auto)

lemma minioBucket_removeMigrate_named:
  assumes "updateStores bucketSame r" and "updateProfile n P" and "namedBucket n b"
  shows "triple P (\<lambda>_. True) True (namedBucket n) (minioBucket_removeMigrate r b)"
  unfolding minioBucket_removeMigrate_def
  by (intro triple_intro namedBucket_update [OF assms(1,2)]) (use assms in auto)

lemma minioBucket_syncVersioning_named:
  assumes "updateStores bucketSame r" and "updateProfile n P" and "namedBucket n b"
  shows "triple P (\<lambda>_. True) True (namedBucket n) (minioBucket_syncVersioning r h b)"
  unfolding minioBucket_syncVersioning_def Let_def mutate_def queryM_def
  by (intro triple_intro namedBucket_update [OF assms(1,2)])
    (use assms updateProfileD [OF assms(2)] in \<open>auto dest: namedBucketD\<close>)

lemma minioBucket_syncLifecycle_named:
  assumes "updateStores bucketSame r" and "updateProfile n P" and "namedBucket n b"
  shows "triple P (\<lambda>_. True) True (namedBucket n) (minioBucket_syncLifecycle r h b)"
  unfolding minioBucket_syncLifecycle_def Let_def mutate_def split_def fst_conv snd_conv
  by (intro triple_intro namedBucket_update [OF assms(1,2)])
    (use assms updateProfileD [OF assms(2)] in \<open>auto dest: namedBucketD\<close>)

lemma minioBucket_syncDeletionPolicy_named:
  assumes "updateStores bucketSame r" and "updateProfile n P" and "namedBucket n b"
  shows "triple P (\<lambda>_. True) True (namedBucket n) (minioBucket_syncDeletionPolicy r b)"
  unfolding minioBucket_syncDeletionPolicy_def
  by (intro triple_intro namedBucket_update [OF assms(1,2)])
    (use assms in \<open>auto dest: namedBucketD\<close>)

lemma minioBucket_sync_named:
  assumes "updateStores bucketSame r" and "updateProfile n P" and "namedBucket n b"
  shows "triple P (\<lambda>_. True) True (\<lambda>_. True)
     (bindM (minioBucket_syncVersioning r h b) (\<lambda>b. bindM (minioBucket_syncLifecycle r h b) (\<lambda>b.
      bindM (minioBucket_syncDeletionPolicy r b) (\<lambda>b. success r))))"
  unfolding success_def
  by (intro triple_bind [OF minioBucket_syncVersioning_named [OF assms]]
      triple_bind [OF minioBucket_syncLifecycle_named [OF assms(1,2)]]
      triple_bind [OF minioBucket_syncDeletionPolicy_named [OF assms(1,2)]] triple_ret) auto

lemma minioBucket_update_clears:
  assumes "updateStores bucketSame r" and "bucketCurrent b = Some cs"
  shows "ordered (bucketGone (r_env r) cs) (sent (\<lambda>y. \<not> bucketStatusSet y)) False (minioBucket_update r b)"
proof -
  have prof: "updateProfile (bs_Name cs) (\<lambda>ev. \<not> sent (\<lambda>y. \<not> bucketStatusSet y) ev)"
    by (auto simp: updateProfile_def namedBucket_def bucketStatusSet_def)
  have named: "namedBucket (bs_Name cs) b" using assms(2) by (simp add: namedBucket_def)
  note sync = minioBucket_sync_named [OF assms(1) prof]
  show ?thesis
    unfolding minioBucket_update_def queryM_def
  proof (rule ordered_bind_quiet [OF minioBucket_removeMigrate_named [OF assms(1) prof named]],
      intro ordered_intro ordered_bind_quiet [OF getTenantClient_sent] ordered_quiet [OF sync])
    fix b' cs' h e
    assume "namedBucket (bs_Name cs) b'" and "bucketCurrent b' = Some cs'"
    then have [simp]: "bs_Name cs' = bs_Name cs" by (rule namedBucketD)
    show "sent (\<lambda>y. \<not> bucketStatusSet y) (Query h (BucketExists (bs_Name cs')), e) \<Longrightarrow> False"
      by simp
    fix be w w'
    assume "e_BucketExists (r_env r) w h (bs_Name cs') = (Inr be, w')" and "\<not> be"
    then have "bucketGone (r_env r) cs (Query h (BucketExists (bs_Name cs')), None)"
      by (auto simp: bucketGone_def)
    then show "ordered (bucketGone (r_env r) cs) (sent (\<lambda>y. \<not> bucketStatusSet y))
        (False \<or> bucketGone (r_env r) cs (Query h (BucketExists (bs_Name cs')), None))
        (bindM (updateObj r (setBucketCurrent b' None)) (\<lambda>b. success r))"
      by simp
  qed assumption
qed

lemma minioBucket_pass_clears:
  assumes "updateStores bucketSame r" and "bucketCurrent b = Some cs"
  shows "ordered (bucketGone (r_env r) cs) (sent (\<lambda>y. \<not> bucketStatusSet y)) False
    (minioBucket_pass r req b)"
proof -
  have "ordered (bucketGone (r_env r) cs) (sent (\<lambda>y. \<not> bucketStatusSet y)) False (minioBucket_delete r b)"
    unfolding minioBucket_delete_def Let_def calls success_def assms(2) option.case
    by (intro ordered_intro ordered_bind_quiet [OF getTenantClient_sent])
      (auto simp: bucketGone_def minioOk_def bucketDeletionPolicy_Always)
  then show ?thesis
    unfolding minioBucket_pass_def minioBucket_addFinalizer_def Let_def updateObj_def success_def
      assms(2) option.case
    by (intro ordered_intro minioBucket_update_clears [OF assms])
      (auto simp: bucketStatusSet_def assms(2))
qed

text \<open>
  C3 - A pass over a MinioBucket is truthful: for a bucket that is not recorded, neither the status
  is set nor the bucket configured before the tenant has made it (or, for a spec that asks to migrate
  it, has answered that the operator's user owns it already); and a recorded spec is cleared only
  after the tenant has removed the bucket, or has answered that there is none.
\<close>

theorem bucket_status_truthful:
  assumes "updateStores bucketSame r" and "r_Get r w req = (Inr b, w1)"
  shows "(bucketCurrent b = None \<longrightarrow>
      precededBy (bucketMade (b_Spec b)) (\<lambda>ev. sent bucketStatusSet ev \<or> bucketConfigured ev)
        (trace (minioBucketReconciler_Reconcile r req) w)) \<and>
    (\<forall>cs. bucketCurrent b = Some cs \<longrightarrow>
      precededBy (bucketGone (r_env r) cs) (sent (\<lambda>y. \<not> bucketStatusSet y))
        (trace (minioBucketReconciler_Reconcile r req) w))"
  using bucket.reconcile_ordered [OF assms(2) minioBucket_pass_records]
    bucket.reconcile_ordered [OF assms(2) minioBucket_pass_clears [OF assms(1)]]
  by (simp add: bucketConfigured_def)

theorem bucket_status_truthful_witness:
  "precededBy (bucketMade sampleBucketSpec) (\<lambda>ev. sent bucketStatusSet ev \<or> bucketConfigured ev)
    (trace (minioBucketReconciler_Reconcile (sampleReconciler (sampleBucket None)) sampleKey) ()) \<and>
   precededBy (bucketGone sampleEnv sampleBucketSpec) (sent (\<lambda>y. \<not> bucketStatusSet y))
    (trace (minioBucketReconciler_Reconcile (sampleReconciler (sampleBucket (Some sampleBucketSpec)))
      sampleKey) ())"
  using bucket_status_truthful [of "sampleReconciler (sampleBucket None)" "()" sampleKey
      "sampleBucket None" "()"]
    bucket_status_truthful [of "sampleReconciler (sampleBucket (Some sampleBucketSpec))" "()" sampleKey
      "sampleBucket (Some sampleBucketSpec)" "()"]
  by (simp add: updateStores_sample)

subsection \<open>The requests of a pass\<close>

lemma minioBucket_update_requests:
  assumes "updateStores bucketSame r" and "bucketCurrent b = Some cs"
    and "updateProfile (bs_Name cs) P" and "\<And>y e. \<not> bucketStatusSet y \<Longrightarrow> P (Update y, e)"
  shows "triple P (\<lambda>_. True) True (\<lambda>_. True) (minioBucket_update r b)"
proof -
  have named: "namedBucket (bs_Name cs) b" using assms(2) by (simp add: namedBucket_def)
  have client: "triple P (\<lambda>_. True) True (\<lambda>_. True) (getTenantClient r rr ns)" for rr ns
    by (rule getTenantClient_triple) (simp_all add: updateProfileD(4) [OF assms(3)])
  show ?thesis
    unfolding minioBucket_update_def queryM_def
    by (intro triple_intro triple_bind [OF minioBucket_removeMigrate_named [OF assms(1,3) named]]
        triple_bind [OF client] minioBucket_sync_named [OF assms(1,3)])
      (auto simp: updateProfileD(3) [OF assms(3)] updateObj_def success_def bucketStatusSet_def
        intro!: triple_intro assms(4))
qed

lemma minioBucket_pass_requests:
  assumes "updateStores bucketSame r"
  shows "triple (bucketRequest b) (\<lambda>_. True) True (\<lambda>_. True) (minioBucket_pass r req b)"
proof -
  have client: "triple (bucketRequest b) (\<lambda>_. True) True (\<lambda>_. True) (getTenantClient r rr ns)" for rr ns
    by (rule getTenantClient_triple) (auto simp: bucketRequest_def elim: isInfra.elims)
  have update: "triple (bucketRequest b) (\<lambda>_. True) True (\<lambda>_. True) (minioBucket_update r b)"
    if "bucketCurrent b = Some cs" "timeIsZero (om_DeletionTimestamp (b_ObjectMeta b))" for cs
    by (rule minioBucket_update_requests [OF assms that(1)])
      (auto simp: updateProfile_def bucketRequest_def that elim: isInfra.elims)
  show ?thesis
    unfolding minioBucket_pass_def minioBucket_delete_def minioBucket_addFinalizer_def
      minioBucket_create_def Let_def calls success_def
    by (intro triple_intro triple_bind [OF client] update)
      (auto simp: bucketRequest_def configRequest_def bucketDeletionPolicy_Always)
qed

text \<open>
  C26 - All requests of the bucket reconciler concern one bucket: the recorded one, whatever the
  spec's name or tenant has been changed to, or the spec's when none is recorded. It removes a bucket
  only if it is recorded and the MinioBucket is being deleted, and then with force exactly when the
  recorded deletion policy is Always, so that no other policy, not even an unknown one, can destroy
  objects.
\<close>

theorem bucket_requests:
  assumes "updateStores bucketSame r" and "r_Get r w req = (Inr b, w1)"
  shows "list_all (bucketRequest b) (trace (minioBucketReconciler_Reconcile r req) w)"
  using bucket.reconcile_all [OF assms(2) minioBucket_pass_requests [OF assms(1)]]
  by (simp add: bucketRequest_def)

theorem bucket_requests_witness:
  "list_all (bucketRequest (sampleBucket (Some sampleBucketSpec)))
    (trace (minioBucketReconciler_Reconcile (sampleReconciler (sampleBucket (Some sampleBucketSpec)))
      sampleKey) ())"
  using bucket_requests [of "sampleReconciler (sampleBucket (Some sampleBucketSpec))" "()" sampleKey
      "sampleBucket (Some sampleBucketSpec)" "()"]
  by (simp add: updateStores_sample)

subsection \<open>The steady state\<close>

text \<open>Whatever the tenant answers about the recorded bucket, it agrees with the recorded spec.\<close>

definition bucketAgrees :: "'w env \<Rightarrow> MinioBucketSpec \<Rightarrow> bool" where
  "bucketAgrees E cs \<longleftrightarrow> (let L = lib E; n = bs_Name cs in
     (\<forall>w h be w'. e_BucketExists E w h n = (Inr be, w') \<longrightarrow> be) \<and>
     (\<forall>w h v w' x. e_GetBucketVersioning E w h n = (Inr v, w') \<longrightarrow>
        convertViaXML (versioningFromMinio L) v emptyVersioning = Inr x \<longrightarrow>
        cmpEqualVersioning L x (nilToEmpty emptyVersioning (bs_Versioning cs))) \<and>
     (\<forall>w h l err w' x. e_GetBucketLifecycle E w h n = ((l, err), w') \<longrightarrow>
        convertViaXML (lifecycleFromMinio L) (case l of None \<Rightarrow> newLifecycle L | Some c \<Rightarrow> c)
          emptyLifecycle = Inr x \<longrightarrow>
        cmpEqualLifecycle L x (nilToEmpty emptyLifecycle (bs_Lifecycle cs))))"

lemma minioBucket_update_steady:
  assumes "bucketCurrent b = Some cs" and "bucketAgrees (r_env r) cs"
    and "\<not> bs_Migrate (b_Spec b)" and "bs_Versioning (b_Spec b) = bs_Versioning cs"
    and "bs_Lifecycle (b_Spec b) = bs_Lifecycle cs"
    and "bs_DeletionPolicy (b_Spec b) = bs_DeletionPolicy cs"
  shows "triple readOnly (\<lambda>_. True) True (\<lambda>_. True) (minioBucket_update r b)"
proof -
  have agrees: "e_BucketExists (r_env r) w h (bs_Name cs) = (Inr be, w') \<Longrightarrow> be"
    "e_GetBucketVersioning (r_env r) w h (bs_Name cs) = (Inr v, w') \<Longrightarrow>
        convertViaXML (versioningFromMinio (lib (r_env r))) v emptyVersioning = Inr x \<Longrightarrow>
        cmpEqualVersioning (lib (r_env r)) x (nilToEmpty emptyVersioning (bs_Versioning cs))"
    "e_GetBucketLifecycle (r_env r) w h (bs_Name cs) = ((l, err), w') \<Longrightarrow>
        convertViaXML (lifecycleFromMinio (lib (r_env r)))
          (case l of None \<Rightarrow> newLifecycle (lib (r_env r)) | Some c \<Rightarrow> c) emptyLifecycle = Inr y \<Longrightarrow>
        cmpEqualLifecycle (lib (r_env r)) y (nilToEmpty emptyLifecycle (bs_Lifecycle cs))"
    for w h be w' v x l err y
    using assms(2) unfolding bucketAgrees_def Let_def by blast+
  have client: "triple readOnly (\<lambda>_. True) True (\<lambda>_. True) (getTenantClient r rr ns)" for rr ns
    by (rule getTenantClient_triple) simp_all
  show ?thesis
    unfolding minioBucket_update_def minioBucket_removeMigrate_def minioBucket_syncVersioning_def
      minioBucket_syncLifecycle_def minioBucket_syncDeletionPolicy_def Let_def queryM_def
      split_def fst_conv snd_conv success_def
    by (intro triple_intro triple_bind [OF client])
      (use assms agrees in \<open>auto dest: agrees\<close>)
qed

text \<open>
  A recorded bucket whose versioning, lifecycle and deletion policy agree with the spec and
  with everything the tenant answers is left alone: a pass writes nothing, to the tenant or to the
  object, so the reconciler comes to rest. The spec's name and tenant reference play no part in this.
\<close>

theorem bucket_steady:
  assumes "r_Get r w req = (Inr b, w1)" and "bucketCurrent b = Some cs"
    and "timeIsZero (om_DeletionTimestamp (b_ObjectMeta b))"
    and "containsFinalizer (lib (r_env r)) (b_ObjectMeta b) finalizer"
    and "bucketAgrees (r_env r) cs" and "\<not> bs_Migrate (b_Spec b)"
    and "bs_Versioning (b_Spec b) = bs_Versioning cs"
    and "bs_Lifecycle (b_Spec b) = bs_Lifecycle cs"
    and "bs_DeletionPolicy (b_Spec b) = bs_DeletionPolicy cs"
  shows "list_all readOnly (trace (minioBucketReconciler_Reconcile r req) w)"
proof -
  have "minioBucket_pass r req b = minioBucket_update r b"
    using assms(2-4) by (simp add: minioBucket_pass_def)
  then show ?thesis
    using bucket.reconcile_all [OF assms(1), of readOnly]
      minioBucket_update_steady [OF assms(2,5-9)] by simp
qed

theorem bucket_steady_witness:
  "list_all readOnly (trace (minioBucketReconciler_Reconcile
    (sampleReconciler (sampleBucket (Some sampleBucketSpec))) sampleKey) ())"
proof -
  have "bucketAgrees sampleEnv sampleBucketSpec"
    by (simp add: bucketAgrees_def sample sampleBucketSpec_def convertViaXML_def nilToEmpty_def)
  then show ?thesis
    by (intro bucket_steady [where b = "sampleBucket (Some sampleBucketSpec)" and cs = sampleBucketSpec]) (simp_all add: timeIsZero_def)
qed

lemmas minioBucket_phases = minioBucket_pass_def minioBucket_delete_def minioBucket_addFinalizer_def
  minioBucket_update_def minioBucket_removeMigrate_def minioBucket_syncVersioning_def
  minioBucket_syncLifecycle_def minioBucket_syncDeletionPolicy_def minioBucket_create_def
  Let_def calls success_def

subsection \<open>Repeated passes in a quiet cluster\<close>

text \<open>
  The tenant is the map of its buckets, all owned by the operator's user, to whether they hold objects; its
  answers about versioning and lifecycle are arbitrary, and every configuration can be converted. A
  bucket that holds objects is removed with force only.
\<close>

type_synonym bucketTenant = "string \<rightharpoonup> bool"

text \<open>
  A MinioBucket is followed under the name of its bucket and, if something is to be said about its
  deletion, the question whether its deletion policy, in the spec and in the status, is to force it.
\<close>

type_synonym bucketKey = "string \<times> bool option"

definition specNamed :: "bucketKey \<Rightarrow> MinioBucketSpec \<Rightarrow> bool" where
  "specNamed k spec \<longleftrightarrow> bs_Name spec = fst k \<and>
     (\<forall>f. snd k = Some f \<longrightarrow> (bs_DeletionPolicy spec = MinioBucketDeletionPolicyAlways) = f)"

definition bucketPresent :: "bucketKey \<Rightarrow> bucketTenant \<Rightarrow> bool" where
  "bucketPresent k s \<longleftrightarrow> s (fst k) \<noteq> None"

text \<open>Everything but the bucket, and, when its deletion is not forced, whether it holds objects.\<close>

definition otherBuckets :: "bool \<Rightarrow> bucketKey \<Rightarrow> bucketTenant \<Rightarrow> bucketTenant \<times> bool" where
  "otherBuckets d k s = (s(fst k := None), snd k = Some False \<and> s (fst k) = Some True)"

definition bucketPossible :: "bool \<Rightarrow> bucketKey \<Rightarrow> bucketTenant \<Rightarrow> bool" where
  "bucketPossible d k s \<longleftrightarrow> (d \<longrightarrow> snd k = Some True \<or> snd k = Some False \<and> s (fst k) \<noteq> Some True)"

lemmas bucket_tenant = bucketPresent_def otherBuckets_def bucketPossible_def

lemma specNamed_simps [simp]:
  "specNamed k (cs\<lparr>bs_Versioning := v\<rparr>) = specNamed k cs"
  "specNamed k (cs\<lparr>bs_Lifecycle := l\<rparr>) = specNamed k cs"
  "specNamed k (cs\<lparr>bs_Migrate := b\<rparr>) = specNamed k cs"
  by (simp_all add: specNamed_def)

lemma specNamed_policy [simp]:
  "specNamed k spec \<Longrightarrow> specNamed k cs \<Longrightarrow> specNamed k (cs\<lparr>bs_DeletionPolicy := bs_DeletionPolicy spec\<rparr>)"
  by (simp add: specNamed_def)

definition codecsTotal :: "Lib \<Rightarrow> bool" where
  "codecsTotal L \<longleftrightarrow>
     (\<forall>x d. \<exists>y. convertViaXML (versioningFromMinio L) x d = Inr y) \<and>
     (\<forall>x d. \<exists>y. convertViaXML (versioningToMinio L) x d = Inr y) \<and>
     (\<forall>x d. \<exists>y. convertViaXML (lifecycleFromMinio L) x d = Inr y) \<and>
     (\<forall>x d. \<exists>y. convertViaXML (lifecycleToMinio L) x d = Inr y)"

definition quietBuckets :: "('w, MinioBucket, bucketTenant) cluster \<Rightarrow> bool" where
  "quietBuckets c \<longleftrightarrow> quietApi b_ObjectMeta bucketSame c \<and> opensClient c \<and> codecsTotal (cl_lib c) \<and>
     (\<forall>w h n. answers (e_BucketExists (r_env (cl_rec c)) w h n)
        (\<lambda>x w'. x = Inr (cl_tenant c w n \<noteq> None) \<and> keeps c w w')) \<and>
     (\<forall>w h n. answers (e_GetBucketVersioning (r_env (cl_rec c)) w h n) (\<lambda>x w'. \<exists>v. x = Inr v \<and> keeps c w w')) \<and>
     (\<forall>w h n. \<exists>l w'. e_GetBucketLifecycle (r_env (cl_rec c)) w h n = ((l, None), w') \<and> keeps c w w') \<and>
     (\<forall>w h n v. answers (e_Mutate (r_env (cl_rec c)) w h (SetBucketVersioning n v))
        (\<lambda>x w'. x = Inr () \<and> keeps c w w')) \<and>
     (\<forall>w h n l. answers (e_Mutate (r_env (cl_rec c)) w h (SetBucketLifecycle n l))
        (\<lambda>x w'. x = Inr () \<and> keeps c w w')) \<and>
     (\<forall>w h n. answers (e_Mutate (r_env (cl_rec c)) w h (MakeBucket n)) (\<lambda>x w'.
        if cl_tenant c w n \<noteq> None then isMinioErrorCode (errOf x) ''BucketAlreadyOwnedByYou'' \<and> keeps c w w'
        else x = Inr () \<and> moves c w (\<lambda>s. s(n \<mapsto> False)) w')) \<and>
     (\<forall>w h n f. answers (e_Mutate (r_env (cl_rec c)) w h (RemoveBucket n f)) (\<lambda>x w'.
        if f \<or> cl_tenant c w n \<noteq> Some True
        then minioOk ''NoSuchBucket'' (errOf x) \<and> moves c w (\<lambda>s. s(n := None)) w'
        else isMinioErrorCode (errOf x) ''BucketNotEmpty'' \<and> keeps c w w'))"

definition bucketNamed :: "bucketKey \<Rightarrow> MinioBucket \<Rightarrow> bool" where
  "bucketNamed k b \<longleftrightarrow> specNamed k (b_Spec b) \<and> (\<forall>cs. bucketCurrent b = Some cs \<longrightarrow> specNamed k cs)"

lemmas bucketSame_defs = bucketSame_def bucketNamed_def bucketStatusSet_def bucketCurrent_def
  setBucketCurrent_def stored_def

lemma quietBuckets_api: "quietBuckets c \<Longrightarrow> quietApi b_ObjectMeta bucketSame c"
  by (simp add: quietBuckets_def)

lemma quietBuckets_open:
  "quietBuckets c \<Longrightarrow> heldOnly (b_ObjectMeta b) \<Longrightarrow>
   okRun (getTenantClient (cl_rec c) rr (bucketNamespace b)) w (\<lambda>_. keeps c w)"
  by (auto simp: quietBuckets_def bucketNamespace_def intro: quiet_client)

lemma quietBuckets_reads:
  assumes "quietBuckets c"
  shows "okRun (queryM h (BucketExists n) (\<lambda>w. e_BucketExists (r_env (cl_rec c)) w h n)) w
      (\<lambda>x w'. (x \<longleftrightarrow> cl_tenant c w n \<noteq> None) \<and> keeps c w w')"
    and "okRun (queryM h (GetBucketVersioning n) (\<lambda>w. e_GetBucketVersioning (r_env (cl_rec c)) w h n)) w
      (\<lambda>_. keeps c w)"
  unfolding queryM_def
  by (rule okRun_answers, use assms in \<open>simp add: quietBuckets_def\<close>)
    (rule okRun_answers, use assms in \<open>auto simp: quietBuckets_def answers_def\<close>)

lemma quietBuckets_lifecycle:
  assumes "quietBuckets c"
  shows "okRun (callPair (Query h (GetBucketLifecycle n)) (\<lambda>w. e_GetBucketLifecycle (r_env (cl_rec c)) w h n)) w
    (\<lambda>x w'. snd x = None \<and> keeps c w w')"
proof -
  obtain l w' where "e_GetBucketLifecycle (r_env (cl_rec c)) w h n = ((l, None), w')" "keeps c w w'"
    using assms unfolding quietBuckets_def by metis
  then show ?thesis by (simp add: okRun_def callPair_def)
qed

lemma quietBuckets_set:
  assumes "quietBuckets c"
  shows "okRun (mutate (r_env (cl_rec c)) h (SetBucketVersioning n v)) w (\<lambda>_. keeps c w)"
    and "okRun (mutate (r_env (cl_rec c)) h (SetBucketLifecycle n l)) w (\<lambda>_. keeps c w)"
  unfolding mutate_def
  by (rule okRun_answers, use assms in \<open>simp add: quietBuckets_def\<close>)+

lemma quietBuckets_total:
  assumes "quietBuckets c"
  shows "\<exists>y. convertViaXML (versioningFromMinio (cl_lib c)) v d = Inr y"
    and "\<exists>y. convertViaXML (versioningToMinio (cl_lib c)) v d = Inr y"
    and "\<exists>y. convertViaXML (lifecycleFromMinio (cl_lib c)) l e = Inr y"
    and "\<exists>y. convertViaXML (lifecycleToMinio (cl_lib c)) l e = Inr y"
    and "\<exists>y. versioningTarget (cl_lib c) ov = Inr y"
    and "\<exists>y. lifecycleTarget (cl_lib c) ol = Inr y"
  using assms
  by (auto simp: quietBuckets_def codecsTotal_def versioningTarget_def lifecycleTarget_def Let_def
      split: option.split)

lemma okRun_liftE: "\<exists>y. z = Inr y \<Longrightarrow> okRun (liftE z) w (\<lambda>_ w'. w' = w)"
  by (auto intro: okRun_ret)

text \<open>What every step of the update of an existing bucket keeps.\<close>

definition bucketKept ::
  "('w, MinioBucket, bucketTenant) cluster \<Rightarrow> bucketKey \<Rightarrow> ObjectMeta \<Rightarrow> bucketTenant \<Rightarrow> MinioBucket \<Rightarrow> 'w \<Rightarrow> bool" where
  "bucketKept c k m t y w \<longleftrightarrow> cl_store c w = Some y \<and> cl_tenant c w = t \<and>
     heldOnly (b_ObjectMeta y) \<and> metaStored m (b_ObjectMeta y) \<and> bucketNamed k y \<and>
     bucketStatusSet y \<and> \<not> bs_Migrate (b_Spec y)"

lemma bucketKept_keeps: "bucketKept c k m t y w \<Longrightarrow> keeps c w w' \<Longrightarrow> bucketKept c k m t y w'"
  by (simp add: bucketKept_def keeps_def)

lemma bucketKept_update:
  assumes "quietBuckets c" and "bucketKept c k m t y w" and "specNamed k cs"
  shows "okRun (updateObj (cl_rec c) (setBucketCurrent y (Some cs))) w (bucketKept c k m t)"
proof -
  have y: "cl_store c w = Some y" "heldOnly (b_ObjectMeta y)" using assms(2) by (simp_all add: bucketKept_def)
  show ?thesis
    by (rule okRun_weaken [OF quiet_update [OF quietBuckets_api [OF assms(1)] y(1)]])
      (use y(2) assms(2,3) in \<open>auto simp: bucketKept_def bucketSame_defs heldOnly_stored
        intro: metaStored_trans\<close>)
qed

lemma bucketKept_current:
  assumes "bucketKept c k m t y w"
  obtains cs where "bucketCurrent y = Some cs" and "specNamed k cs"
  using assms by (auto simp: bucketKept_def bucketNamed_def bucketStatusSet_def)

text \<open>The tail shared by the two configurations: send the recorded one, then the spec's.\<close>

lemma bucketKept_sync:
  assumes q: "quietBuckets c" and kept: "bucketKept c k m t y w" and "specNamed k cs"
    and "\<exists>v. target = Inr v" and "\<exists>v. target' = Inr v"
    and "\<And>w v. okRun (send v) w (\<lambda>_. keeps c w)"
  shows "okRun (bindM (if d then bindM (liftE target) send else ret ()) (\<lambda>_.
    if d' then bindM (liftE target') (\<lambda>v. bindM (send v) (\<lambda>_.
      updateObj (cl_rec c) (setBucketCurrent y (Some cs)))) else ret y)) w (bucketKept c k m t)"
proof (rule okRun_bind [where R = "\<lambda>_. keeps c w"])
  show "okRun (if d then bindM (liftE target) send else ret ()) w (\<lambda>_. keeps c w)"
    using assms(4,6) by (auto intro!: okRun_ret)
next
  fix w1 assume "keeps c w w1"
  then have kept1: "bucketKept c k m t y w1" by (rule bucketKept_keeps [OF kept])
  show "okRun (if d' then bindM (liftE target') (\<lambda>v. bindM (send v) (\<lambda>_.
      updateObj (cl_rec c) (setBucketCurrent y (Some cs)))) else ret y) w1 (bucketKept c k m t)"
    using assms(5) kept1
    by (auto intro!: okRun_ret okRun_bind [OF assms(6)]
        bucketKept_update [OF q bucketKept_keeps [OF kept1] assms(3)])
qed

lemma minioBucket_syncVersioning_quiet:
  assumes q: "quietBuckets c" and kept: "bucketKept c k m t y w"
  shows "okRun (minioBucket_syncVersioning (cl_rec c) h y) w (bucketKept c k m t)"
proof -
  obtain cs where cs: "bucketCurrent y = Some cs" "specNamed k cs" by (rule bucketKept_current [OF kept])
  show ?thesis
    unfolding minioBucket_syncVersioning_def Let_def cs(1) deref_simps bindM_ret
  proof (rule okRun_bind [OF quietBuckets_reads(2) [OF q]],
      rule okRun_bind [OF okRun_liftE [OF quietBuckets_total(1) [OF q]]], clarify, goal_cases)
    case (1 v w1 v')
    show ?case
      by (rule bucketKept_sync [OF q bucketKept_keeps [OF kept 1]])
        (simp_all add: cs(2) quietBuckets_total [OF q] quietBuckets_set [OF q])
  qed
qed

lemma minioBucket_syncLifecycle_quiet:
  assumes q: "quietBuckets c" and kept: "bucketKept c k m t y w"
  shows "okRun (minioBucket_syncLifecycle (cl_rec c) h y) w (bucketKept c k m t)"
proof -
  obtain cs where cs: "bucketCurrent y = Some cs" "specNamed k cs" by (rule bucketKept_current [OF kept])
  show ?thesis
    unfolding minioBucket_syncLifecycle_def Let_def cs(1) deref_simps bindM_ret
  proof (rule okRun_bind [OF quietBuckets_lifecycle [OF q]], goal_cases)
    case (1 a w1)
    then obtain l where a: "a = (l, None)" and k: "keeps c w w1" by (cases a) auto
    show ?case
      unfolding a prod.case ignoreMinioErrorCode_None checkErr_simps bindM_ret
    proof (rule okRun_bind [OF okRun_liftE [OF quietBuckets_total(3) [OF q]]], clarify, goal_cases)
      case (1 l')
      show ?case
        by (rule bucketKept_sync [OF q bucketKept_keeps [OF kept k]])
          (simp_all add: cs(2) quietBuckets_total [OF q] quietBuckets_set [OF q])
    qed
  qed
qed

lemma minioBucket_syncDeletionPolicy_quiet:
  assumes q: "quietBuckets c" and kept: "bucketKept c k m t y w"
  shows "okRun (minioBucket_syncDeletionPolicy (cl_rec c) y) w (bucketKept c k m t)"
proof -
  obtain cs where cs: "bucketCurrent y = Some cs" "specNamed k cs" by (rule bucketKept_current [OF kept])
  then have "specNamed k (cs\<lparr>bs_DeletionPolicy := bs_DeletionPolicy (b_Spec y)\<rparr>)"
    using kept by (simp add: bucketKept_def bucketNamed_def)
  then show ?thesis
    unfolding minioBucket_syncDeletionPolicy_def cs(1) deref_simps bindM_ret
    using bucketKept_update [OF q kept] kept by (auto intro!: okRun_ret)
qed

lemma minioBucket_removeMigrate_quiet:
  assumes "quietBuckets c" and "cl_store c w = Some b" and "heldOnly (b_ObjectMeta b)"
    and "bucketNamed k b" and "bucketStatusSet b"
  shows "okRun (minioBucket_removeMigrate (cl_rec c) b) w (bucketKept c k (b_ObjectMeta b) (cl_tenant c w))"
proof (cases "bs_Migrate (b_Spec b)")
  case True
  then show ?thesis
    unfolding minioBucket_removeMigrate_def
    by (simp, intro okRun_weaken [OF quiet_update [OF quietBuckets_api [OF assms(1)] assms(2)]])
      (use assms in \<open>auto simp: bucketKept_def bucketSame_defs heldOnly_stored\<close>)
next
  case False
  with assms show ?thesis
    by (simp add: minioBucket_removeMigrate_def bucketKept_def okRun_ret)
qed

lemma quietBuckets_remove:
  "quietBuckets c \<Longrightarrow> okRun (attempt (mutate (r_env (cl_rec c)) h (RemoveBucket n f))) w (\<lambda>x w'.
     if f \<or> cl_tenant c w n \<noteq> Some True
     then minioOk ''NoSuchBucket'' (errOf x) \<and> moves c w (\<lambda>s. s(n := None)) w'
     else isMinioErrorCode (errOf x) ''BucketNotEmpty'' \<and> keeps c w w')"
  unfolding mutate_def by (rule okRun_attempt_answers) (simp add: quietBuckets_def)

lemma quietBuckets_make:
  assumes "quietBuckets c"
  shows "okRun (attempt (mutate (r_env (cl_rec c)) h (MakeBucket n))) w (\<lambda>x w'.
    if cl_tenant c w n \<noteq> None then isMinioErrorCode (errOf x) ''BucketAlreadyOwnedByYou'' \<and> keeps c w w'
    else errOf x = None \<and> moves c w (\<lambda>s. s(n \<mapsto> False)) w')"
proof -
  have "answers (e_Mutate (r_env (cl_rec c)) w h (MakeBucket n)) (\<lambda>x w'.
        if cl_tenant c w n \<noteq> None then isMinioErrorCode (errOf x) ''BucketAlreadyOwnedByYou'' \<and> keeps c w w'
        else x = Inr () \<and> moves c w (\<lambda>s. s(n \<mapsto> False)) w')"
    using assms by (simp add: quietBuckets_def)
  then show ?thesis
    unfolding mutate_def by (intro okRun_attempt_answers) (auto simp: answers_def)
qed

lemma minioBucket_delete_quiet:
  assumes q: "quietBuckets c" and "cl_store c w = Some b" and "heldOnly (b_ObjectMeta b)"
    and "bucketNamed k b" and "bucketStatusSet b" and "bucketPossible True k (cl_tenant c w)"
  shows "okRun (minioBucket_delete (cl_rec c) b) w (\<lambda>_ w'. \<not> bucketPresent k (cl_tenant c w') \<and>
    otherBuckets True k (cl_tenant c w') = otherBuckets True k (cl_tenant c w) \<and>
    stored c (\<lambda>y. metaStored (b_ObjectMeta b) (b_ObjectMeta y) \<and> bucketNamed k y \<and> \<not> bucketStatusSet y) w')"
proof -
  from assms(5) obtain cs where cs: "bucketCurrent b = Some cs" by (auto simp: bucketStatusSet_def)
  with assms(4) have named: "specNamed k cs" by (simp add: bucketNamed_def)
  let ?f = "bucketDeletionPolicy cs = MinioBucketDeletionPolicyAlways"
  have may: "?f \<or> cl_tenant c w (fst k) \<noteq> Some True"
    using assms(6) named by (auto simp: bucketPossible_def specNamed_def bucketDeletionPolicy_Always)
  have remove: "okRun (attempt (mutate (r_env (cl_rec c)) h (RemoveBucket (bs_Name cs) ?f))) w1
      (\<lambda>x w'. minioOk ''NoSuchBucket'' (errOf x) \<and> moves c w (\<lambda>s. s(fst k := None)) w')" if "keeps c w w1" for h w1
    by (rule okRun_weaken [OF quietBuckets_remove [OF q]])
      (use that may named in \<open>auto simp: keeps_def moves_def specNamed_def\<close>)
  show ?thesis
    unfolding minioBucket_delete_def cs option.case Let_def
    by (rule okRun_bind [OF quietBuckets_open [OF q assms(3)]], rule okRun_bind [OF remove], assumption)
      (simp add: minioOk_def, rule quiet_success [OF quietBuckets_api [OF q], where x = b],
       use assms in \<open>auto simp: moves_def bucketSame_defs bucket_tenant\<close>)
qed

lemma minioBucket_update_quiet:
  assumes q: "quietBuckets c" and "cl_store c w = Some b" and "heldOnly (b_ObjectMeta b)"
    and "bucketNamed k b" and "bucketStatusSet b"
  shows "okRun (minioBucket_update (cl_rec c) b) w (\<lambda>_ w'. bucketPresent k (cl_tenant c w') = bucketPresent k (cl_tenant c w) \<and>
    otherBuckets False k (cl_tenant c w') = otherBuckets False k (cl_tenant c w) \<and>
    stored c (\<lambda>y. metaStored (b_ObjectMeta b) (b_ObjectMeta y) \<and> bucketNamed k y \<and>
      \<not> bs_Migrate (b_Spec y) \<and> bucketStatusSet y = bucketPresent k (cl_tenant c w)) w')"
  unfolding minioBucket_update_def
proof (rule okRun_bind [OF minioBucket_removeMigrate_quiet [OF assms]], goal_cases)
  case (1 y w1)
  note kept = this
  obtain cs where cs: "bucketCurrent y = Some cs" "specNamed k cs" by (rule bucketKept_current [OF kept])
  have y: "heldOnly (b_ObjectMeta y)" using kept by (simp add: bucketKept_def)
  show ?case
    unfolding cs(1) deref_simps bindM_ret
  proof (rule okRun_bind [OF quietBuckets_open [OF q y]],
      rule okRun_bind [OF quietBuckets_reads(1) [OF q]], goal_cases)
    case (1 h w2 be w3)
    then have kept3: "bucketKept c k (b_ObjectMeta b) (cl_tenant c w) y w3"
      using kept by (simp add: bucketKept_def keeps_def)
    have be: "be \<longleftrightarrow> bucketPresent k (cl_tenant c w)"
      using 1 kept cs(2) by (simp add: specNamed_def keeps_def bucketKept_def bucketPresent_def)
    show ?case
    proof (cases be)
      case True
      note tail = minioBucket_syncVersioning_quiet [OF q kept3] minioBucket_syncLifecycle_quiet [OF q]
        minioBucket_syncDeletionPolicy_quiet [OF q]
      from True show ?thesis
        by (simp, intro okRun_bind [OF tail(1)] okRun_bind [OF tail(2)] okRun_bind [OF tail(3)] okRun_success)
          (use be in \<open>auto simp: bucketKept_def stored_def\<close>)
    next
      case False
      from kept3 have st: "cl_store c w3 = Some y" by (simp add: bucketKept_def)
      from False show ?thesis
        by (simp, intro quiet_success [OF quietBuckets_api [OF q] st])
          (use be kept3 y in \<open>auto simp: bucketKept_def bucketSame_defs intro: metaStored_trans\<close>)
    qed
  qed
qed

lemma minioBucket_create_quiet:
  assumes q: "quietBuckets c" and "cl_store c w = Some b" and "heldOnly (b_ObjectMeta b)"
    and "bucketNamed k b" and "\<not> bucketStatusSet b" and "bucketPresent k (cl_tenant c w) \<longrightarrow> bs_Migrate (b_Spec b)"
  shows "okRun (minioBucket_create (cl_rec c) b) w (\<lambda>_ w'. bucketPresent k (cl_tenant c w') \<and>
    otherBuckets False k (cl_tenant c w') = otherBuckets False k (cl_tenant c w) \<and>
    stored c (\<lambda>y. metaStored (b_ObjectMeta b) (b_ObjectMeta y) \<and> bucketNamed k y \<and> bucketStatusSet y) w')"
proof -
  from assms(4) have n: "bs_Name (b_Spec b) = fst k" by (simp add: bucketNamed_def specNamed_def)
  let ?made = "\<lambda>w'. cl_store c w' = Some b \<and> bucketPresent k (cl_tenant c w') \<and>
    otherBuckets False k (cl_tenant c w') = otherBuckets False k (cl_tenant c w)"
  have made: "keeps c v w' \<Longrightarrow> ?made v \<Longrightarrow> ?made w'" for v w' by (simp add: keeps_def)
  have versioning: "okRun (case bs_Versioning (b_Spec b) of None \<Rightarrow> ret () | Some v \<Rightarrow>
      bindM (liftE (convertViaXML (versioningToMinio (cl_lib c)) v emptyVersioning)) (\<lambda>bvc.
      mutate (r_env (cl_rec c)) h (SetBucketVersioning (bs_Name (b_Spec b)) bvc))) w1 (\<lambda>_. keeps c w1)" for h w1
    by (cases "bs_Versioning (b_Spec b)")
      (auto intro!: okRun_ret okRun_bind [OF okRun_liftE [OF quietBuckets_total(2) [OF q]]]
        quietBuckets_set(1) [OF q])
  have lifecycle: "okRun (case bs_Lifecycle (b_Spec b) of None \<Rightarrow> ret () | Some l \<Rightarrow>
      bindM (liftE (convertViaXML (lifecycleToMinio (cl_lib c)) l emptyLifecycle)) (\<lambda>blc.
      mutate (r_env (cl_rec c)) h (SetBucketLifecycle (bs_Name (b_Spec b)) blc))) w1 (\<lambda>_. keeps c w1)" for h w1
    by (cases "bs_Lifecycle (b_Spec b)")
      (auto intro!: okRun_ret okRun_bind [OF okRun_liftE [OF quietBuckets_total(4) [OF q]]]
        quietBuckets_set(2) [OF q])
  show ?thesis
    unfolding minioBucket_create_def Let_def
  proof (rule okRun_bind [OF quietBuckets_open [OF q assms(3)]],
      rule okRun_bind [OF quietBuckets_make [OF q]], goal_cases)
    case (1 h w1 x w2)
    then have m: "?made w2" and none: "(if bs_Migrate (b_Spec b)
        then ignoreMinioErrorCode (errOf x) ''BucketAlreadyOwnedByYou'' else errOf x) = None"
      using assms(2,6) by (auto simp: n keeps_def moves_def bucket_tenant ignoreMinioErrorCode_eq_None split: if_splits)
    show ?case
      unfolding none checkErr_simps bindM_ret
    proof (rule okRun_bind [OF versioning], rule okRun_bind [OF lifecycle], goal_cases)
      case (1 u w3 u' w4)
      with m have "?made w4" using made by blast
      then have st: "cl_store c w4 = Some b" and t: "bucketPresent k (cl_tenant c w4)"
          "otherBuckets False k (cl_tenant c w4) = otherBuckets False k (cl_tenant c w)" by simp_all
      show ?case
        by (rule quiet_success [OF quietBuckets_api [OF q] st])
          (use assms st t in \<open>auto simp: bucketSame_defs\<close>)
    qed
  qed
qed

lemma minioBucket_create_taken:
  assumes q: "quietBuckets c" and "heldOnly (b_ObjectMeta b)" and "bucketNamed k b" and "bucketPresent k (cl_tenant c w)"
    and "\<not> bs_Migrate (b_Spec b)"
  shows "errRun (minioBucket_create (cl_rec c) b) w (\<lambda>_. keeps c w)"
  unfolding minioBucket_create_def Let_def
proof (rule errRun_bind [OF quietBuckets_open [OF q assms(2)]],
    rule errRun_bind [OF quietBuckets_make [OF q]], rule errRun_bind_left, goal_cases)
  case (1 h w1 x w2)
  with assms(3-5) show ?case
    by (cases "errOf x") (auto simp: bucketNamed_def specNamed_def bucketPresent_def keeps_def intro!: errRun_fail)
qed

interpretation bucket_settling: settling minioBucketReconciler_Reconcile minioBucket_pass
  minioBucket_delete minioBucket_addFinalizer "\<lambda>r _. minioBucket_update r" "\<lambda>r _. minioBucket_create r"
  b_ObjectMeta "\<lambda>b m. b\<lparr>b_ObjectMeta := m\<rparr>" bucketStatusSet bucketSame
  quietBuckets "\<lambda>b. bs_Migrate (b_Spec b)" bucketNamed bucketPresent otherBuckets "\<lambda>_ _ _. True"
  True bucketPossible
  by unfold_locales
    (simp_all add: quietBuckets_api minioBucket_delete_quiet minioBucket_update_quiet
      minioBucket_create_quiet minioBucket_create_taken,
     auto simp: bucketSame_defs bucket_tenant minioBucket_delete_def Let_def)

text \<open>The tenant of the witness.\<close>

definition bucketsEnv :: "(MinioBucket option \<times> bucketTenant) env" where
  "bucketsEnv = anyWorldEnv\<lparr>
     e_BucketExists := (\<lambda>w _ n. (Inr (snd w n \<noteq> None), w)),
     e_Mutate := (\<lambda>w _ q. case q of
         MakeBucket n \<Rightarrow> if snd w n \<noteq> None then (Inl (MinioResp ''BucketAlreadyOwnedByYou'' ''''), w)
           else (Inr (), (fst w, (snd w)(n \<mapsto> False)))
       | RemoveBucket n f \<Rightarrow> if f \<or> snd w n \<noteq> Some True then (Inr (), (fst w, (snd w)(n := None)))
           else (Inl (MinioResp ''BucketNotEmpty'' ''''), w)
       | _ \<Rightarrow> (Inr (), w))\<rparr>"

abbreviation bucketsCluster :: "(MinioBucket option \<times> bucketTenant, MinioBucket, bucketTenant) cluster" where
  "bucketsCluster \<equiv> sampleCluster b_ObjectMeta id bucketsEnv"

lemma quietBuckets_sample: "quietBuckets bucketsCluster"
  unfolding quietBuckets_def
  by (intro conjI sampleCluster_api sampleCluster_opens)
    (simp_all add: bucketsEnv_def sampleInfra_def anyWorldEnv_def answers_def minioOk_def moves_def
      codecsTotal_def convertViaXML_def sampleLib_def constCodec_def)

text \<open>
  The deletion of a bucket can go through: it holds no objects, or its deletion is forced. The spec and the
  recorded spec, if there is one, are to agree on whether it is.
\<close>

definition bucketRemovable :: "string \<Rightarrow> MinioBucket \<Rightarrow> bucketTenant \<Rightarrow> bool" where
  "bucketRemovable n b s \<longleftrightarrow> (\<exists>f. bucketNamed (n, Some f) b \<and> (f \<or> s n \<noteq> Some True))"

lemma bucketNamed_name: "bucketNamed (n, m) b \<Longrightarrow> bucketNamed (n, None) b"
  by (simp add: bucketNamed_def specNamed_def)

lemma bucketRemovable_key:
  assumes "bucketNamed (n, None) b" and "\<not> timeIsZero (om_DeletionTimestamp (b_ObjectMeta b)) \<longrightarrow> bucketRemovable n b s"
  obtains m where "bucketNamed (n, m) b"
    and "bucketPossible (\<not> timeIsZero (om_DeletionTimestamp (b_ObjectMeta b))) (n, m) s"
  using assms by (cases "timeIsZero (om_DeletionTimestamp (b_ObjectMeta b))")
    (auto simp: bucketRemovable_def bucketPossible_def)

text \<open>
  A MinioBucket settles: after two passes in a quiet cluster, one in which configurations can be
  converted, the bucket of the spec exists and is recorded, also when it was lost in the tenant, unless a
  bucket of that name existed before and the spec does not ask to migrate it; two passes after the
  deletion of one that can be removed (it is empty, or spec and status have the policy \<open>Always\<close>)
  the object is gone, and so is the bucket if it was recorded. No pass touches any other bucket.
\<close>

theorem bucket_settles:
  assumes "quietBuckets c" and "cl_store c w = Some b" and "bucketNamed (n, None) b"
    and "inOrder b_ObjectMeta bucketStatusSet b"
    and "\<not> timeIsZero (om_DeletionTimestamp (b_ObjectMeta b)) \<longrightarrow> bucketRemovable n b (cl_tenant c w)"
    and "w' = passes minioBucketReconciler_Reconcile c k w"
  shows "(cl_tenant c w')(n := None) = (cl_tenant c w)(n := None) \<and>
    (2 \<le> k \<longrightarrow> timeIsZero (om_DeletionTimestamp (b_ObjectMeta b)) \<longrightarrow>
      (cl_tenant c w n \<noteq> None \<longrightarrow> bucketStatusSet b \<or> bs_Migrate (b_Spec b)) \<longrightarrow>
      cl_tenant c w' n \<noteq> None \<and> stored c (\<lambda>y. bucketNamed (n, None) y \<and> bucketStatusSet y) w') \<and>
    (2 \<le> k \<longrightarrow> \<not> timeIsZero (om_DeletionTimestamp (b_ObjectMeta b)) \<longrightarrow>
      cl_store c w' = None \<and> (bucketStatusSet b \<longrightarrow> cl_tenant c w' n = None))"
proof -
  obtain m where m: "bucketNamed (n, m) b"
      "bucketPossible (\<not> timeIsZero (om_DeletionTimestamp (b_ObjectMeta b))) (n, m) (cl_tenant c w)"
    by (rule bucketRemovable_key [OF assms(3,5)])
  have "stored c (\<lambda>y. bucketNamed (n, m) y \<and> bucketStatusSet y) w' \<Longrightarrow>
      stored c (\<lambda>y. bucketNamed (n, None) y \<and> bucketStatusSet y) w'"
    by (auto simp: stored_def intro: bucketNamed_name)
  with bucket_settling.settled [OF assms(1,2) m(1) assms(4,6) m(2)] show ?thesis
    by (simp add: bucketPresent_def otherBuckets_def)
qed

theorem bucket_settles_witness:
  "snd (passes minioBucketReconciler_Reconcile bucketsCluster 3 (Some (sampleBucket None), [''a'' \<mapsto> True])) ''b'' \<noteq> None \<and>
   snd (passes minioBucketReconciler_Reconcile bucketsCluster 3 (Some (sampleBucket None), [''a'' \<mapsto> True])) ''a'' = Some True"
proof -
  let ?w' = "passes minioBucketReconciler_Reconcile bucketsCluster 3 (Some (sampleBucket None), [''a'' \<mapsto> True])"
  have "(snd ?w')(''b'' := None) = [''a'' \<mapsto> True](''b'' := None) \<and> snd ?w' ''b'' \<noteq> None"
    using bucket_settles [OF quietBuckets_sample, of "(Some (sampleBucket None), [''a'' \<mapsto> True])"
        "sampleBucket None" "''b''" _ 3, OF _ _ _ _ refl]
    by (simp add: bucketNamed_def specNamed_def inOrder_def heldOnly_def bucketStatusSet_def sampleBucketSpec_def timeIsZero_def)
  then show ?thesis by (auto dest: fun_cong [of _ _ "''a''"])
qed

text \<open>
  A creation can be cut short: when the tenant refuses the versioning of the bucket it has just made,
  the pass ends with that error, before anything is recorded.
\<close>

lemma minioBucket_create_refused:
  assumes "getTenantClient r (bs_TenantRef (b_Spec b)) (bucketNamespace b) w = (Ok h, w1, t)"
    and "e_Mutate (r_env r) w1 h (MakeBucket (bs_Name (b_Spec b))) = (Inr (), w2)"
    and "bs_Versioning (b_Spec b) = Some v"
    and "convertViaXML (versioningToMinio (lib (r_env r))) v emptyVersioning = Inr v'"
    and "e_Mutate (r_env r) w2 h (SetBucketVersioning (bs_Name (b_Spec b)) v') = (Inl err, w3)"
  shows "minioBucket_create r b w = (Err err, w3, t @
    [(Mutate h (MakeBucket (bs_Name (b_Spec b))), None),
     (Mutate h (SetBucketVersioning (bs_Name (b_Spec b)) v'), Some err)])"
  using assms by (simp add: minioBucket_create_def Let_def prim calls)

text \<open>
  A creation that was cut short is not resumed: once the tenant has the bucket of a MinioBucket
  that is held but not recorded (say, because it refused the versioning after it had made the bucket),
  every later pass fails and changes nothing, even in a quiet cluster that would accept everything
  else, unless the spec asks to migrate.
\<close>

theorem bucket_half_made_stuck:
  assumes "quietBuckets c" and "cl_store c w = Some b" and "heldOnly (b_ObjectMeta b)"
    and "timeIsZero (om_DeletionTimestamp (b_ObjectMeta b))" and "bucketCurrent b = None"
    and "\<not> bs_Migrate (b_Spec b)" and "cl_tenant c w (bs_Name (b_Spec b)) \<noteq> None"
    and "w' = passes minioBucketReconciler_Reconcile c k w"
  shows "cl_store c w' = Some b \<and> cl_tenant c w' = cl_tenant c w \<and>
    (\<exists>e. outcome (minioBucketReconciler_Reconcile (cl_rec c) (cl_req c)) w' = Err e)"
proof -
  have b: "bucketNamed (bs_Name (b_Spec b), None) b" "\<not> bucketStatusSet b"
    "bucketPresent (bs_Name (b_Spec b), None) (cl_tenant c w)"
    using assms(5,7) by (simp_all add: bucketNamed_def specNamed_def bucketStatusSet_def bucketPresent_def)
  show ?thesis
    using bucket_settling.taken_stuck [OF assms(1,2) b(1) assms(3,4) b(2) assms(6) b(3) assms(8)] assms(2)
    by (simp add: keeps_def bucketPossible_def)
qed

theorem bucket_half_made_stuck_witness:
  "\<exists>e. outcome (minioBucketReconciler_Reconcile (cl_rec bucketsCluster) (cl_req bucketsCluster))
     (passes minioBucketReconciler_Reconcile bucketsCluster 5 (Some (sampleBucket None), [''b'' \<mapsto> False])) = Err e"
  using bucket_half_made_stuck [OF quietBuckets_sample, of "(Some (sampleBucket None), [''b'' \<mapsto> False])"
      "sampleBucket None" _ 5, OF _ _ _ _ _ _ refl]
  by (simp add: heldOnly_def)

end
