(* ===== verification/Tenant_State.thy ===== *)
theory Tenant_State
  imports Convergence
begin

text \<open>
  What a tenant keeps for the resources that depend on each other: its users, groups, memberships,
  policies and attached policies, as sets and maps, and the documented effect of MinIO's requests on
  them. The convergence theorems of five reconcilers are about tenants seen as these states. For
  each kind there is what it means that a thing is present, possible, and what the others are, which
  instantiate the locale \<open>settling\<close>. At the end, a sample tenant with lists for the sets.
\<close>

section \<open>The state and the effect of requests\<close>

text \<open>The content of a policy is its statement and its version.\<close>

type_synonym content = "MinioPolicyStatement slice \<times> string"

text \<open>An attachment: in LDAP or to a built-in identity, the policy, and the group or the user.\<close>

type_synonym attached = "bool \<times> string \<times> string \<times> string"

text \<open>The directory is LDAP's: its groups and the distinguished names of its users.\<close>

record tenantState =
  ts_users :: "string set"
  ts_groups :: "string set"
  ts_members :: "(string \<times> string) set"
  ts_policies :: "string \<rightharpoonup> content"
  ts_directory :: "(string \<times> string) set"
  ts_attached :: "attached set"

definition addUser :: "string \<Rightarrow> tenantState \<Rightarrow> tenantState" where
  "addUser n s = s\<lparr>ts_users := insert n (ts_users s)\<rparr>"

text \<open>A user that is removed leaves its groups, and its policies are detached; so are those of a group.\<close>

definition dropUser :: "string \<Rightarrow> tenantState \<Rightarrow> tenantState" where
  "dropUser n s = s\<lparr>ts_users := ts_users s - {n}, ts_members := {m \<in> ts_members s. snd m \<noteq> n},
     ts_attached := {a \<in> ts_attached s. \<forall>p. a \<noteq> (False, p, '''', n)}\<rparr>"

definition addGroup :: "string \<Rightarrow> tenantState \<Rightarrow> tenantState" where
  "addGroup n s = s\<lparr>ts_groups := insert n (ts_groups s)\<rparr>"

definition dropGroup :: "string \<Rightarrow> tenantState \<Rightarrow> tenantState" where
  "dropGroup n s = s\<lparr>ts_groups := ts_groups s - {n},
     ts_attached := {a \<in> ts_attached s. \<forall>p. a \<noteq> (False, p, n, '''')}\<rparr>"

definition addMember :: "string \<times> string \<Rightarrow> tenantState \<Rightarrow> tenantState" where
  "addMember n s = s\<lparr>ts_members := insert n (ts_members s)\<rparr>"

definition dropMember :: "string \<times> string \<Rightarrow> tenantState \<Rightarrow> tenantState" where
  "dropMember n s = s\<lparr>ts_members := ts_members s - {n}\<rparr>"

definition putPolicy :: "string \<Rightarrow> content \<Rightarrow> tenantState \<Rightarrow> tenantState" where
  "putPolicy n d s = s\<lparr>ts_policies := (ts_policies s)(n \<mapsto> d)\<rparr>"

definition dropPolicy :: "string \<Rightarrow> tenantState \<Rightarrow> tenantState" where
  "dropPolicy n s = s\<lparr>ts_policies := (ts_policies s)(n := None)\<rparr>"

definition attach :: "attached \<Rightarrow> tenantState \<Rightarrow> tenantState" where
  "attach n s = s\<lparr>ts_attached := insert n (ts_attached s)\<rparr>"

definition detach :: "attached \<Rightarrow> tenantState \<Rightarrow> tenantState" where
  "detach n s = s\<lparr>ts_attached := ts_attached s - {n}\<rparr>"

lemmas tenant_effects = addUser_def dropUser_def addGroup_def dropGroup_def addMember_def dropMember_def
  putPolicy_def dropPolicy_def attach_def detach_def

section \<open>Presence, dependencies, and the others\<close>

text \<open>
  Users and policies of a name are there or not. A user can always be added or removed. A group can be
  removed when it has no members, a policy when it is attached to nobody. A membership needs
  its group and its user, its removal the group; an attachment needs its policy and its identity.
\<close>

definition userPresent :: "string \<Rightarrow> tenantState \<Rightarrow> bool" where
  "userPresent n s \<longleftrightarrow> n \<in> ts_users s"

definition otherUsers :: "bool \<Rightarrow> string \<Rightarrow> tenantState \<Rightarrow> tenantState" where
  "otherUsers d n s = (if d then dropUser n s else s\<lparr>ts_users := ts_users s - {n}\<rparr>)"

definition groupPresent :: "string \<Rightarrow> tenantState \<Rightarrow> bool" where
  "groupPresent n s \<longleftrightarrow> n \<in> ts_groups s"

definition groupPossible :: "bool \<Rightarrow> string \<Rightarrow> tenantState \<Rightarrow> bool" where
  "groupPossible d n s \<longleftrightarrow> (d \<longrightarrow> n \<notin> fst ` ts_members s)"

definition otherGroups :: "bool \<Rightarrow> string \<Rightarrow> tenantState \<Rightarrow> tenantState" where
  "otherGroups d n s = (if d then dropGroup n s else s\<lparr>ts_groups := ts_groups s - {n}\<rparr>)"

definition memberPresent :: "string \<times> string \<Rightarrow> tenantState \<Rightarrow> bool" where
  "memberPresent n s \<longleftrightarrow> n \<in> ts_members s"

definition memberPossible :: "bool \<Rightarrow> string \<times> string \<Rightarrow> tenantState \<Rightarrow> bool" where
  "memberPossible d n s \<longleftrightarrow> fst n \<in> ts_groups s \<and> (d \<or> snd n \<in> ts_users s)"

definition otherMembers :: "bool \<Rightarrow> string \<times> string \<Rightarrow> tenantState \<Rightarrow> tenantState" where
  "otherMembers d n s = dropMember n s"

definition policyPresent :: "string \<times> content \<Rightarrow> tenantState \<Rightarrow> bool" where
  "policyPresent k s \<longleftrightarrow> ts_policies s (fst k) \<noteq> None"

definition policyPossible :: "bool \<Rightarrow> string \<times> content \<Rightarrow> tenantState \<Rightarrow> bool" where
  "policyPossible d k s \<longleftrightarrow> (d \<longrightarrow> fst k \<notin> (fst \<circ> snd) ` ts_attached s)"

definition otherPolicies :: "bool \<Rightarrow> string \<times> content \<Rightarrow> tenantState \<Rightarrow> tenantState" where
  "otherPolicies d k s = dropPolicy (fst k) s"

definition bindingPresent :: "attached \<Rightarrow> tenantState \<Rightarrow> bool" where
  "bindingPresent n s \<longleftrightarrow> n \<in> ts_attached s"

definition hasIdentity :: "bool \<Rightarrow> string \<Rightarrow> string \<Rightarrow> tenantState \<Rightarrow> bool" where
  "hasIdentity l g u s \<longleftrightarrow> (if l then (g, u) \<in> ts_directory s
     else (g = '''' \<or> g \<in> ts_groups s) \<and> (u = '''' \<or> u \<in> ts_users s))"

definition bindingPossible :: "bool \<Rightarrow> attached \<Rightarrow> tenantState \<Rightarrow> bool" where
  "bindingPossible d n s \<longleftrightarrow> (case n of (l, p, g, u) \<Rightarrow> p \<in> dom (ts_policies s) \<and> hasIdentity l g u s)"

definition otherBindings :: "bool \<Rightarrow> attached \<Rightarrow> tenantState \<Rightarrow> tenantState" where
  "otherBindings d n s = detach n s"

lemmas tenant_present = userPresent_def groupPresent_def memberPresent_def policyPresent_def bindingPresent_def

lemmas tenant_possible = groupPossible_def memberPossible_def policyPossible_def bindingPossible_def hasIdentity_def

lemmas tenant_others = otherUsers_def otherGroups_def otherMembers_def otherPolicies_def otherBindings_def

lemma tenant_eq:
  "s' = s \<longleftrightarrow> ts_users s' = ts_users s \<and> ts_groups s' = ts_groups s \<and> ts_members s' = ts_members s \<and>
     ts_policies s' = ts_policies s \<and> ts_directory s' = ts_directory s \<and> ts_attached s' = ts_attached s"
  for s :: tenantState
  by (cases s; cases s') simp

text \<open>What is the same when the others are.\<close>

lemma otherUsers_eq:
  "otherUsers d n s' = otherUsers d n s \<longleftrightarrow>
     ts_users s' - {n} = ts_users s - {n} \<and> ts_groups s' = ts_groups s \<and> ts_policies s' = ts_policies s \<and>
     ts_directory s' = ts_directory s \<and>
     (if d then {m \<in> ts_members s'. snd m \<noteq> n} = {m \<in> ts_members s. snd m \<noteq> n} \<and>
        {a \<in> ts_attached s'. \<forall>p. a \<noteq> (False, p, '''', n)} = {a \<in> ts_attached s. \<forall>p. a \<noteq> (False, p, '''', n)}
      else ts_members s' = ts_members s \<and> ts_attached s' = ts_attached s)"
  by (auto simp: otherUsers_def dropUser_def tenant_eq)

lemma otherGroups_eq:
  "otherGroups d n s' = otherGroups d n s \<longleftrightarrow>
     ts_groups s' - {n} = ts_groups s - {n} \<and> ts_users s' = ts_users s \<and> ts_members s' = ts_members s \<and>
     ts_policies s' = ts_policies s \<and> ts_directory s' = ts_directory s \<and>
     (if d then {a \<in> ts_attached s'. \<forall>p. a \<noteq> (False, p, n, '''')} = {a \<in> ts_attached s. \<forall>p. a \<noteq> (False, p, n, '''')}
      else ts_attached s' = ts_attached s)"
  by (auto simp: otherGroups_def dropGroup_def tenant_eq)

lemma otherMembers_eq:
  "otherMembers d n s' = otherMembers d n s \<longleftrightarrow>
     ts_members s' - {n} = ts_members s - {n} \<and> ts_users s' = ts_users s \<and> ts_groups s' = ts_groups s \<and>
     ts_policies s' = ts_policies s \<and> ts_directory s' = ts_directory s \<and> ts_attached s' = ts_attached s"
  by (auto simp: otherMembers_def dropMember_def tenant_eq)

lemma otherPolicies_eq:
  "otherPolicies d k s' = otherPolicies d k s \<longleftrightarrow>
     (ts_policies s')(fst k := None) = (ts_policies s)(fst k := None) \<and> ts_users s' = ts_users s \<and>
     ts_groups s' = ts_groups s \<and> ts_members s' = ts_members s \<and> ts_directory s' = ts_directory s \<and>
     ts_attached s' = ts_attached s"
  by (auto simp: otherPolicies_def dropPolicy_def tenant_eq)

lemma otherBindings_eq:
  "otherBindings d n s' = otherBindings d n s \<longleftrightarrow>
     ts_attached s' - {n} = ts_attached s - {n} \<and> ts_users s' = ts_users s \<and> ts_groups s' = ts_groups s \<and>
     ts_policies s' = ts_policies s \<and> ts_directory s' = ts_directory s \<and> ts_members s' = ts_members s"
  by (auto simp: otherBindings_def detach_def tenant_eq)

lemmas tenant_others_eq = otherUsers_eq otherGroups_eq otherMembers_eq otherPolicies_eq otherBindings_eq

section \<open>A sample tenant\<close>

text \<open>The same with lists, so that it can be listed, and a tenant that serves requests on it.\<close>

record tenantData =
  td_users :: "string list"
  td_groups :: "string list"
  td_members :: "(string \<times> string) list"
  td_policies :: "string \<rightharpoonup> content"
  td_directory :: "(string \<times> string) list"
  td_attached :: "attached list"

definition tenantView :: "tenantData \<Rightarrow> tenantState" where
  "tenantView d = \<lparr>ts_users = set (td_users d), ts_groups = set (td_groups d), ts_members = set (td_members d),
     ts_policies = td_policies d, ts_directory = set (td_directory d), ts_attached = set (td_attached d)\<rparr>"

lemma tenantView_simps [simp]:
  "ts_users (tenantView d) = set (td_users d)" "ts_groups (tenantView d) = set (td_groups d)"
  "ts_members (tenantView d) = set (td_members d)" "ts_policies (tenantView d) = td_policies d"
  "ts_directory (tenantView d) = set (td_directory d)" "ts_attached (tenantView d) = set (td_attached d)"
  by (simp_all add: tenantView_def)

definition emptyTenant :: tenantData where
  "emptyTenant = \<lparr>td_users = [], td_groups = [], td_members = [], td_policies = Map.empty, td_directory = [],
     td_attached = []\<rparr>"

lemma emptyTenant_simps [simp]:
  "td_users emptyTenant = []" "td_groups emptyTenant = []" "td_members emptyTenant = []"
  "td_policies emptyTenant = Map.empty" "td_directory emptyTenant = []" "td_attached emptyTenant = []"
  by (simp_all add: emptyTenant_def)

definition refused :: "string \<Rightarrow> 'd \<Rightarrow> (goerr + unit) \<times> 'd" where
  "refused code d = (Inl (MadminResp code ''''), d)"

definition requestKey :: "(string \<Rightarrow> string) \<Rightarrow> bool \<Rightarrow> PolicyAssociationReq \<Rightarrow> attached" where
  "requestKey dn l q = (l, hd (par_Policies q), par_Group q, if l \<and> par_User q \<noteq> '''' then dn (par_User q) else par_User q)"

definition attachIn :: "attached \<Rightarrow> tenantData \<Rightarrow> (goerr + unit) \<times> tenantData" where
  "attachIn n d = (if \<not> bindingPossible False n (tenantView d) then refused ''XMinioAdminNoSuchPolicy'' d
     else if n \<in> set (td_attached d) then refused ''XMinioAdminPolicyChangeAlreadyApplied'' d
     else (Inr (), d\<lparr>td_attached := n # td_attached d\<rparr>))"

definition detachIn :: "attached \<Rightarrow> tenantData \<Rightarrow> (goerr + unit) \<times> tenantData" where
  "detachIn n d = (if n \<notin> set (td_attached d) then refused ''XMinioAdminPolicyChangeAlreadyApplied'' d
     else (Inr (), d\<lparr>td_attached := removeAll n (td_attached d)\<rparr>))"

definition membersIn :: "string \<Rightarrow> string slice \<Rightarrow> bool \<Rightarrow> tenantData \<Rightarrow> (goerr + unit) \<times> tenantData" where
  "membersIn g us isRemove d = (case us of
       Slice [u] \<Rightarrow>
         if isRemove then (Inr (), d\<lparr>td_members := removeAll (g, u) (td_members d)\<rparr>)
         else if u \<notin> set (td_users d) then refused ''XMinioAdminNoSuchUser'' d
         else (Inr (), d\<lparr>td_members := (g, u) # td_members d\<rparr>)
     | _ \<Rightarrow>
         if \<not> isRemove then (Inr (), d\<lparr>td_groups := g # td_groups d\<rparr>)
         else if g \<in> fst ` set (td_members d) then refused ''XMinioAdminGroupNotEmpty'' d
         else if g \<notin> set (td_groups d) then refused ''XMinioAdminNoSuchGroup'' d
         else (Inr (), d\<lparr>td_groups := removeAll g (td_groups d),
           td_attached := [a \<leftarrow> td_attached d. \<not> (\<not> fst a \<and> snd (snd a) = (g, ''''))]\<rparr>))"

definition tenantServe :: "(string \<Rightarrow> string) \<Rightarrow> mutation \<Rightarrow> tenantData \<Rightarrow> (goerr + unit) \<times> tenantData" where
  "tenantServe dn q d = (case q of
       AddUser n _ \<Rightarrow> (Inr (), d\<lparr>td_users := n # td_users d\<rparr>)
     | RemoveUser n \<Rightarrow>
         if n \<notin> set (td_users d) then refused ''XMinioAdminNoSuchUser'' d
         else (Inr (), d\<lparr>td_users := removeAll n (td_users d), td_members := [m \<leftarrow> td_members d. snd m \<noteq> n],
           td_attached := [a \<leftarrow> td_attached d. \<not> (\<not> fst a \<and> snd (snd a) = ('''', n))]\<rparr>)
     | UpdateGroupMembers g us isRemove \<Rightarrow> membersIn g us isRemove d
     | AddCannedPolicy n pd \<Rightarrow> (case unmarshalPolicySpec pd of
           Inl e \<Rightarrow> (Inl e, d)
         | Inr mps \<Rightarrow> (Inr (), d\<lparr>td_policies := (td_policies d)(n \<mapsto> (pos_Statement mps, pos_Version mps))\<rparr>))
     | RemoveCannedPolicy n \<Rightarrow>
         if n \<in> (fst \<circ> snd) ` set (td_attached d) then refused ''XMinioAdminPolicyInUse'' d
         else (Inr (), d\<lparr>td_policies := (td_policies d)(n := None)\<rparr>)
     | AttachPolicy a \<Rightarrow> attachIn (requestKey dn False a) d
     | AttachPolicyLDAP a \<Rightarrow> attachIn (requestKey dn True a) d
     | DetachPolicy a \<Rightarrow> detachIn (requestKey dn False a) d
     | DetachPolicyLDAP a \<Rightarrow> detachIn (requestKey dn True a) d
     | _ \<Rightarrow> (Inr (), d))"

definition listingOf :: "bool \<Rightarrow> string \<Rightarrow> attached list \<Rightarrow> PolicyMapping list" where
  "listingOf l p s = [
     \<lparr>pm_Groups = [g. (l', p', g, u) \<leftarrow> s, l' = l \<and> p' = p \<and> u = '''' \<and> g \<noteq> ''''],
      pm_Users = [u. (l', p', g, u) \<leftarrow> s, l' = l \<and> p' = p \<and> g = '''' \<and> u \<noteq> '''']\<rparr>]"

text \<open>LDAP names users by \<open>dn\<close>; the search base that the tenant is configured with is \<open>ou\<close>.\<close>

definition tenantEnv :: "(string \<Rightarrow> string) \<Rightarrow> ('d \<times> tenantData) env" where
  "tenantEnv dn = anyWorldEnv\<lparr>
     e_GetUserInfo := (\<lambda>w _ n. (if n \<in> set (td_users (snd w)) then Inr ()
       else Inl (MadminResp ''XMinioAdminNoSuchUser'' ''''), w)),
     e_GetGroupDescription := (\<lambda>w _ g. (if g \<in> set (td_groups (snd w))
       then Inr (map snd (filter (\<lambda>m. fst m = g) (td_members (snd w))))
       else Inl (MadminResp ''XMinioAdminNoSuchGroup'' ''''), w)),
     e_InfoCannedPolicyV2 := (\<lambda>w _ n. (case td_policies (snd w) n of
         None \<Rightarrow> Inl (MadminResp ''XMinioAdminNoSuchPolicy'' '''')
       | Some d \<Rightarrow> marshalPolicy (fst d) (snd d), w)),
     e_GetPolicyEntities := (\<lambda>w _ p. (Inr (listingOf False p (td_attached (snd w))), w)),
     e_GetLDAPPolicyEntities := (\<lambda>w _ p. (Inr (listingOf True p (td_attached (snd w))), w)),
     e_GetIDPConfig := (\<lambda>w _ _ _. (Inr [(''user_dn_search_base_dn'', ''ou'')], w)),
     e_Mutate := (\<lambda>w _ q. (let (x, d) = tenantServe dn q (snd w) in (x, (fst w, d))))\<rparr>"

lemma tenantEnv_lib [simp]: "lib (tenantEnv dn) = sampleLib" "sampleInfra (tenantEnv dn)"
  by (simp_all add: tenantEnv_def anyWorldEnv_def sampleInfra_def)

lemma tenantEnv_reads:
  "e_GetSecret (tenantEnv dn) w k = (Inr sampleSecret, w)"
  "e_GetUserInfo (tenantEnv dn) w h n = (if n \<in> set (td_users (snd w)) then Inr ()
     else Inl (MadminResp ''XMinioAdminNoSuchUser'' ''''), w)"
  "e_GetGroupDescription (tenantEnv dn) w h n = (if n \<in> set (td_groups (snd w))
     then Inr (map snd (filter (\<lambda>m. fst m = n) (td_members (snd w))))
     else Inl (MadminResp ''XMinioAdminNoSuchGroup'' ''''), w)"
  "e_InfoCannedPolicyV2 (tenantEnv dn) w h n = (case td_policies (snd w) n of
     None \<Rightarrow> Inl (MadminResp ''XMinioAdminNoSuchPolicy'' '''') | Some d \<Rightarrow> marshalPolicy (fst d) (snd d), w)"
  "e_GetPolicyEntities (tenantEnv dn) w h n = (Inr (listingOf False n (td_attached (snd w))), w)"
  "e_GetLDAPPolicyEntities (tenantEnv dn) w h n = (Inr (listingOf True n (td_attached (snd w))), w)"
  "e_GetIDPConfig (tenantEnv dn) w h a b = (Inr [(''user_dn_search_base_dn'', ''ou'')], w)"
  by (simp_all add: tenantEnv_def anyWorldEnv_def)

lemma tenantEnv_mutate:
  "e_Mutate (tenantEnv dn) w h q = (let (x, d) = tenantServe dn q (snd w) in (x, (fst w, d)))"
  by (simp add: tenantEnv_def)

abbreviation tenantAt ::
  "('o \<Rightarrow> ObjectMeta) \<Rightarrow> (string \<Rightarrow> string) \<Rightarrow> ('d \<Rightarrow> 'o option) \<Rightarrow> ('o option \<Rightarrow> 'd \<Rightarrow> 'd) \<Rightarrow>
   ('d \<times> tenantData, 'o, tenantState) cluster" where
  "tenantAt metaOf dn \<equiv> sampleAt metaOf tenantView (tenantEnv dn)"

abbreviation tenantCluster ::
  "('o \<Rightarrow> ObjectMeta) \<Rightarrow> (string \<Rightarrow> string) \<Rightarrow> ('o option \<times> tenantData, 'o, tenantState) cluster" where
  "tenantCluster metaOf dn \<equiv> sampleCluster metaOf tenantView (tenantEnv dn)"

text \<open>A served request is answered, and moves the cluster by its effect.\<close>

lemma tenant_answers:
  "answers (e_Mutate (tenantEnv dn) w h q) R \<longleftrightarrow>
     R (fst (tenantServe dn q (snd w))) (fst w, snd (tenantServe dn q (snd w)))"
  by (simp add: tenantEnv_mutate answers_def split: prod.split)

end
