(* ===== verification/Group_Reconciler.thy ===== *)
theory Group_Reconciler
  imports Tenant_State
begin

text \<open>\<open>minio_group_reconciler.go\<close>\<close>

definition setGroupCurrent :: "MinioGroup \<Rightarrow> MinioGroupSpec option \<Rightarrow> MinioGroup" where
  "setGroupCurrent g cs = g\<lparr>g_Status := (g_Status g)\<lparr>gst_CurrentSpec := cs\<rparr>\<rparr>"

definition groupCurrent :: "MinioGroup \<Rightarrow> MinioGroupSpec option" where
  "groupCurrent g = gst_CurrentSpec (g_Status g)"

definition groupNamespace :: "MinioGroup \<Rightarrow> string" where
  "groupNamespace g = om_Namespace (g_ObjectMeta g)"

definition minioGroup_delete ::
  "('w, MinioGroup) reconciler \<Rightarrow> MinioGroup \<Rightarrow> ('w, MinioGroup call, Result) m" where
  "minioGroup_delete r g =
     (case groupCurrent g of
        Some cs \<Rightarrow>
          bindM (getAdminClient r (gs_TenantRef cs) (groupNamespace g)) (\<lambda>mtac.
          bindM (attempt (mutate (r_env r) mtac
            (UpdateGroupMembers (gs_Name cs) NilSlice True))) (\<lambda>x.
          bindM (checkErr (ignoreMadminErrorCode (errOf x) ''XMinioAdminNoSuchGroup'')) (\<lambda>_.
          bindM (updateObj r (setGroupCurrent g None)) (\<lambda>g.
          success r))))
      | None \<Rightarrow>
          bindM (updateObj r (g\<lparr>g_ObjectMeta :=
            removeFinalizer (lib (r_env r)) (g_ObjectMeta g) finalizer\<rparr>)) (\<lambda>g.
          success r))"

definition minioGroup_addFinalizer ::
  "('w, MinioGroup) reconciler \<Rightarrow> MinioGroup \<Rightarrow> ('w, MinioGroup call, Result) m" where
  "minioGroup_addFinalizer r g =
     bindM (updateObj r (g\<lparr>g_ObjectMeta :=
       addFinalizer (lib (r_env r)) (g_ObjectMeta g) finalizer\<rparr>)) (\<lambda>g.
     success r)"

definition minioGroup_removeMigrate ::
  "('w, MinioGroup) reconciler \<Rightarrow> MinioGroup \<Rightarrow> ('w, MinioGroup call, MinioGroup) m" where
  "minioGroup_removeMigrate r g =
     (if gs_Migrate (g_Spec g) then
        updateObj r (g\<lparr>g_Spec := (g_Spec g)\<lparr>gs_Migrate := False\<rparr>\<rparr>)
      else ret g)"

definition minioGroup_update ::
  "('w, MinioGroup) reconciler \<Rightarrow> MinioGroup \<Rightarrow> ('w, MinioGroup call, Result) m" where
  "minioGroup_update r g =
     bindM (minioGroup_removeMigrate r g) (\<lambda>g.
     bindM (deref (groupCurrent g)) (\<lambda>cs.
     bindM (getAdminClient r (gs_TenantRef cs) (groupNamespace g)) (\<lambda>mtac.
     bindM (attempt (queryM mtac (GetGroupDescription (gs_Name cs))
       (\<lambda>w. e_GetGroupDescription (r_env r) w mtac (gs_Name cs)))) (\<lambda>x.
     let e = (\<not> isMadminErrorCode (errOf x) ''XMinioAdminNoSuchGroup'');
         err = ignoreMadminErrorCode (errOf x) ''XMinioAdminNoSuchGroup'' in
     bindM (checkErr err) (\<lambda>_.
     if \<not> e then
       bindM (updateObj r (setGroupCurrent g None)) (\<lambda>g.
       success r)
     else success r)))))"

definition minioGroup_create ::
  "('w, MinioGroup) reconciler \<Rightarrow> MinioGroup \<Rightarrow> ('w, MinioGroup call, Result) m" where
  "minioGroup_create r g =
     (let spec = g_Spec g in
     bindM (getAdminClient r (gs_TenantRef spec) (groupNamespace g)) (\<lambda>mtac.
     bindM (attempt (queryM mtac (GetGroupDescription (gs_Name spec))
       (\<lambda>w. e_GetGroupDescription (r_env r) w mtac (gs_Name spec)))) (\<lambda>x.
     let exists = (errOf x = None);
         err = (if exists \<and> \<not> gs_Migrate spec
                then Some (GoErr (''group '' @ gs_Name spec @ '' already exists'')) else errOf x);
         err = ignoreMadminErrorCode err ''XMinioAdminNoSuchGroup'' in
     bindM (checkErr err) (\<lambda>_.
     bindM (mutate (r_env r) mtac (UpdateGroupMembers (gs_Name spec) NilSlice False)) (\<lambda>_.
     let spec = spec\<lparr>gs_Migrate := False\<rparr> in
     bindM (updateObj r (setGroupCurrent (g\<lparr>g_Spec := spec\<rparr>) (Some spec))) (\<lambda>g.
     success r))))))"

definition minioGroup_pass ::
  "('w, MinioGroup) reconciler \<Rightarrow> NamespacedName \<Rightarrow> MinioGroup \<Rightarrow> ('w, MinioGroup call, Result) m" where
  "minioGroup_pass r req g =
     (if \<not> timeIsZero (om_DeletionTimestamp (g_ObjectMeta g)) then minioGroup_delete r g
      else if \<not> containsFinalizer (lib (r_env r)) (g_ObjectMeta g) finalizer then
        minioGroup_addFinalizer r g
      else (case groupCurrent g of
              Some _ \<Rightarrow> minioGroup_update r g
            | None \<Rightarrow> minioGroup_create r g))"

definition minioGroupReconciler_Reconcile ::
  "('w, MinioGroup) reconciler \<Rightarrow> NamespacedName \<Rightarrow> ('w, MinioGroup call, Result) m" where
  "minioGroupReconciler_Reconcile r req =
     bindM (attempt (getObj r req)) (\<lambda>x.
     (case x of Inl err \<Rightarrow> getFailed r err | Inr g \<Rightarrow> minioGroup_pass r req g))"

section \<open>The contract\<close>

definition groupStatusSet :: "MinioGroup \<Rightarrow> bool" where
  "groupStatusSet g \<longleftrightarrow> groupCurrent g \<noteq> None"

definition groupSame :: "MinioGroup \<Rightarrow> MinioGroup \<Rightarrow> bool" where
  "groupSame g g' \<longleftrightarrow> metaStored (g_ObjectMeta g) (g_ObjectMeta g') \<and> g_Spec g' = g_Spec g \<and>
     g_Status g' = g_Status g"

lemma setGroupCurrent_simps [simp]:
  "g_ObjectMeta (setGroupCurrent g cs) = g_ObjectMeta g"
  "g_Spec (setGroupCurrent g cs) = g_Spec g"
  "groupCurrent (setGroupCurrent g cs) = cs"
  "groupCurrent (g\<lparr>g_ObjectMeta := m\<rparr>) = groupCurrent g"
  by (simp_all add: setGroupCurrent_def groupCurrent_def)

lemma minioGroup_removeMigrate_triple:
  assumes "profile P N (\<lambda>g. Q (g_ObjectMeta g))" and "survives r (\<lambda>g. Q (g_ObjectMeta g))"
    and "Q (g_ObjectMeta g)"
  shows "triple P N True (\<lambda>g. Q (g_ObjectMeta g)) (minioGroup_removeMigrate r g)"
  unfolding minioGroup_removeMigrate_def tenant_calls
  by (intro triple_intro triple_call triple_updateObj [OF assms(1,2)])
    (use assms in \<open>auto simp: profile_def\<close>)

lemma minioGroup_update_triple:
  assumes "profile P N (\<lambda>g. Q (g_ObjectMeta g))" and "survives r (\<lambda>g. Q (g_ObjectMeta g))"
    and "Q (g_ObjectMeta g)"
  shows "triple P N True (\<lambda>res. requeueAfter res = syncInterval r) (minioGroup_update r g)"
  unfolding minioGroup_update_def tenant_calls success_def Let_def
  by (intro triple_intro triple_bind_updateObj [OF assms(1,2)]
      triple_bind [OF minioGroup_removeMigrate_triple [OF assms]]
      triple_bind [OF getAdminClient_profile [OF assms(1)]])
    (use assms in \<open>auto simp: profile_def\<close>)

lemma minioGroup_create_triple:
  assumes "profile P N (\<lambda>g. Q (g_ObjectMeta g))" and "survives r (\<lambda>g. Q (g_ObjectMeta g))"
    and "Q (g_ObjectMeta g)"
  shows "triple P N True (\<lambda>res. requeueAfter res = syncInterval r) (minioGroup_create r g)"
  unfolding minioGroup_create_def tenant_calls success_def Let_def
  by (intro triple_intro triple_bind_updateObj [OF assms(1,2)]
      triple_bind [OF getAdminClient_profile [OF assms(1)]])
    (use assms in \<open>auto simp: profile_def\<close>)

lemma minioGroup_delete_safe:
  "finalizerLaws (lib (r_env r)) \<Longrightarrow>
   triple (updatesSafe (lib (r_env r)) g_ObjectMeta groupStatusSet) (\<lambda>_. True) True (\<lambda>_. True)
     (minioGroup_delete r g)"
  unfolding minioGroup_delete_def calls success_def
  by (intro triple_intro triple_bind [OF getAdminClient_triple])
    (auto simp: safeObj_def groupStatusSet_def)

lemma minioGroup_delete_ok:
  "triple (\<lambda>_. True) updateOk True (\<lambda>res. requeueAfter res = syncInterval r) (minioGroup_delete r g)"
  unfolding minioGroup_delete_def calls success_def
  by (intro triple_intro triple_bind [OF getAdminClient_triple]) auto

interpretation group: phased_reconciler minioGroupReconciler_Reconcile minioGroup_pass
  minioGroup_delete minioGroup_addFinalizer "\<lambda>r _. minioGroup_update r" "\<lambda>r _. minioGroup_create r"
  g_ObjectMeta "\<lambda>g m. g\<lparr>g_ObjectMeta := m\<rparr>" groupStatusSet groupSame
  by unfold_locales
    (simp_all add: minioGroupReconciler_Reconcile_def minioGroup_pass_def groupStatusSet_def
      minioGroup_addFinalizer_def groupSame_def groupCurrent_def minioGroup_delete_ok
      minioGroup_update_triple minioGroup_create_triple
      minioGroup_delete_safe split: option.split)

section \<open>Properties\<close>

text \<open>The answers that tell the operator that the group is not there (any more).\<close>

definition groupGone :: "MinioGroupSpec \<Rightarrow> MinioGroup call event \<Rightarrow> bool" where
  "groupGone cs ev \<longleftrightarrow>
     asked (UpdateGroupMembers (gs_Name cs) NilSlice True) (madminOk ''XMinioAdminNoSuchGroup'') ev \<or>
     looked (GetGroupDescription (gs_Name cs)) (\<lambda>e. isMadminErrorCode e ''XMinioAdminNoSuchGroup'') ev"

text \<open>The answers that allow the creation: no such group, or, to migrate it, the group.\<close>

definition groupFree :: "MinioGroupSpec \<Rightarrow> MinioGroup call event \<Rightarrow> bool" where
  "groupFree spec ev \<longleftrightarrow>
     looked (GetGroupDescription (gs_Name spec))
       (\<lambda>e. if e = None then gs_Migrate spec else isMadminErrorCode e ''XMinioAdminNoSuchGroup'') ev"

definition groupRequest :: "MinioGroup \<Rightarrow> MinioGroup call event \<Rightarrow> bool" where
  "groupRequest g ev \<longleftrightarrow> (case fst ev of
       Mutate h q \<Rightarrow> (case groupCurrent g of
           None \<Rightarrow> q = UpdateGroupMembers (gs_Name (g_Spec g)) NilSlice False
         | Some cs \<Rightarrow> q = UpdateGroupMembers (gs_Name cs) NilSlice True \<and>
             \<not> timeIsZero (om_DeletionTimestamp (g_ObjectMeta g)))
     | _ \<Rightarrow> True)"

lemma groupCurrent_Spec [simp]: "groupCurrent (g\<lparr>g_Spec := s\<rparr>) = groupCurrent g"
  by (simp add: groupCurrent_def)

lemma groupSame_current:
  "updateStores groupSame r \<Longrightarrow> r_Update r w x = (Inr y, w') \<Longrightarrow> groupCurrent y = groupCurrent x"
  by (drule (1) updateStores_same) (simp add: groupSame_def groupCurrent_def)

lemmas minioGroup_phases = minioGroup_pass_def minioGroup_delete_def minioGroup_addFinalizer_def
  minioGroup_update_def minioGroup_removeMigrate_def minioGroup_create_def Let_def calls success_def

definition sampleGroupSpec :: MinioGroupSpec where
  "sampleGroupSpec = \<lparr>gs_Migrate = False, gs_Name = ''g'', gs_TenantRef = sampleRef\<rparr>"

definition sampleGroup :: "MinioGroupSpec option \<Rightarrow> MinioGroup" where
  "sampleGroup cs = \<lparr>g_TypeMeta = \<lparr>tm_Kind = ''MinioGroup'', tm_APIVersion = ''v1''\<rparr>,
     g_ObjectMeta = heldMeta ''g'', g_Spec = sampleGroupSpec,
     g_Status = \<lparr>gst_Synced = None, gst_CurrentSpec = cs\<rparr>\<rparr>"

lemma sampleGroup_simps [simp]:
  "groupCurrent (sampleGroup cs) = cs" "g_Spec (sampleGroup cs) = sampleGroupSpec"
  "g_ObjectMeta (sampleGroup cs) = heldMeta ''g''" "gs_Name sampleGroupSpec = ''g''"
  by (simp_all add: sampleGroup_def sampleGroupSpec_def groupCurrent_def)

lemma groupSame_refl [simp]: "groupSame g g"
  by (simp add: groupSame_def metaStored_refl)

lemma minioGroup_pass_records:
  assumes "groupCurrent g = None"
  shows "ordered (asked (UpdateGroupMembers (gs_Name (g_Spec g)) NilSlice False) accepted)
     (sent groupStatusSet) False (minioGroup_pass r req g)"
  unfolding minioGroup_phases assms option.case
  by (intro ordered_intro ordered_bind_quiet [OF getAdminClient_sent])
    (auto simp: groupStatusSet_def assms)

lemma minioGroup_pass_clears:
  assumes "updateStores groupSame r" and "groupCurrent g = Some cs"
  shows "ordered (groupGone cs) (sent (\<lambda>y. \<not> groupStatusSet y)) False (minioGroup_pass r req g)"
  unfolding minioGroup_phases assms option.case
  by (intro ordered_intro ordered_bind_quiet [OF getAdminClient_sent])
    (auto simp: groupStatusSet_def assms groupGone_def madminOk_def
      dest: groupSame_current [OF assms(1)])

lemma minioGroup_pass_asks:
  assumes "groupCurrent g = None"
  shows "ordered (groupFree (g_Spec g)) (\<lambda>ev. isWrite (fst ev)) False (minioGroup_pass r req g)"
  unfolding minioGroup_phases assms option.case
  by (intro ordered_intro ordered_bind_quiet [OF getAdminClient_triple])
    (auto simp: groupFree_def ignoreMadminErrorCode_eq_None split: if_splits)

lemma minioGroup_pass_requests: "triple (groupRequest g) (\<lambda>_. True) True (\<lambda>_. True) (minioGroup_pass r req g)"
  unfolding minioGroup_phases
  by (intro triple_intro triple_bind [OF getAdminClient_triple])
    (auto simp: groupRequest_def elim: isInfra.elims)

text \<open>
  C9 - A pass over a MinioGroup is truthful: it records a spec in the status of a group that has
  none only after the tenant has accepted the creation of that group, and it clears a recorded spec
  only after the tenant has removed that group or has answered that there is no such group.
\<close>

theorem group_status_truthful:
  assumes "updateStores groupSame r" and "r_Get r w req = (Inr g, w1)"
  shows "(groupCurrent g = None \<longrightarrow>
      precededBy (asked (UpdateGroupMembers (gs_Name (g_Spec g)) NilSlice False) accepted)
        (sent groupStatusSet) (trace (minioGroupReconciler_Reconcile r req) w)) \<and>
    (\<forall>cs. groupCurrent g = Some cs \<longrightarrow>
      precededBy (groupGone cs) (sent (\<lambda>y. \<not> groupStatusSet y))
        (trace (minioGroupReconciler_Reconcile r req) w))"
  using group.reconcile_ordered [OF assms(2) minioGroup_pass_records]
    group.reconcile_ordered [OF assms(2) minioGroup_pass_clears [OF assms(1)]] by simp

theorem group_status_truthful_witness:
  "precededBy (asked (UpdateGroupMembers ''g'' NilSlice False) accepted) (sent groupStatusSet)
    (trace (minioGroupReconciler_Reconcile (sampleReconciler (sampleGroup None)) sampleKey) ()) \<and>
   precededBy (groupGone sampleGroupSpec) (sent (\<lambda>y. \<not> groupStatusSet y))
    (trace (minioGroupReconciler_Reconcile (sampleReconciler (sampleGroup (Some sampleGroupSpec)))
      sampleKey) ())"
  using group_status_truthful [of "sampleReconciler (sampleGroup None)" "()" sampleKey "sampleGroup None" "()"]
    group_status_truthful [of "sampleReconciler (sampleGroup (Some sampleGroupSpec))" "()" sampleKey
      "sampleGroup (Some sampleGroupSpec)" "()"]
  by (simp add: updateStores_sample)

text \<open>
  A group is created only after the tenant has answered that there is none of that name, or,
  for a spec that asks to migrate it, that there is one; nothing is written before that answer.
\<close>

theorem group_create_guard:
  assumes "r_Get r w req = (Inr g, w1)" and "groupCurrent g = None"
  shows "precededBy (groupFree (g_Spec g)) (\<lambda>ev. isWrite (fst ev))
      (trace (minioGroupReconciler_Reconcile r req) w)"
  by (rule group.reconcile_ordered [OF assms(1) minioGroup_pass_asks [OF assms(2)]]) simp

theorem group_create_guard_witness:
  "precededBy (groupFree sampleGroupSpec) (\<lambda>ev. isWrite (fst ev))
    (trace (minioGroupReconciler_Reconcile (sampleReconciler (sampleGroup None)) sampleKey) ())"
  using group_create_guard [of "sampleReconciler (sampleGroup None)" "()" sampleKey "sampleGroup None" "()"]
  by simp

text \<open>
  The group reconciler never touches the members of a group: all it asks of the tenant is to
  create the group of the spec, when none is recorded, and to remove the recorded group, when the
  MinioGroup is being deleted. In particular a changed name or tenant in the spec changes nothing.
\<close>

theorem group_requests:
  assumes "r_Get r w req = (Inr g, w1)"
  shows "list_all (groupRequest g) (trace (minioGroupReconciler_Reconcile r req) w)"
  using group.reconcile_all [OF assms minioGroup_pass_requests] by (simp add: groupRequest_def)

theorem group_requests_witness:
  "list_all (groupRequest (sampleGroup None))
    (trace (minioGroupReconciler_Reconcile (sampleReconciler (sampleGroup None)) sampleKey) ())"
  using group_requests [of "sampleReconciler (sampleGroup None)" "()" sampleKey "sampleGroup None" "()"]
  by simp

subsection \<open>Repeated passes in a quiet cluster\<close>

text \<open>
  A group is described exactly if it exists, creating one adds it; removing one takes it away if it has no
  members, and fails otherwise.
\<close>

definition quietGroups :: "('w, MinioGroup, tenantState) cluster \<Rightarrow> bool" where
  "quietGroups c \<longleftrightarrow> quietApi g_ObjectMeta groupSame c \<and> opensAdmin c \<and>
     (\<forall>w h n. answers (e_GetGroupDescription (r_env (cl_rec c)) w h n) (\<lambda>x w'. keeps c w w' \<and>
        (if groupPresent n (cl_tenant c w) then errOf x = None
         else isMadminErrorCode (errOf x) ''XMinioAdminNoSuchGroup''))) \<and>
     (\<forall>w h n. answers (e_Mutate (r_env (cl_rec c)) w h (UpdateGroupMembers n NilSlice False))
        (\<lambda>x w'. x = Inr () \<and> moves c w (addGroup n) w')) \<and>
     (\<forall>w h n. groupPossible True n (cl_tenant c w) \<longrightarrow>
        answers (e_Mutate (r_env (cl_rec c)) w h (UpdateGroupMembers n NilSlice True))
        (\<lambda>x w'. if groupPresent n (cl_tenant c w) then x = Inr () \<and> moves c w (dropGroup n) w'
           else isMadminErrorCode (errOf x) ''XMinioAdminNoSuchGroup'' \<and> keeps c w w')) \<and>
     (\<forall>w h n. \<not> groupPossible True n (cl_tenant c w) \<longrightarrow>
        answers (e_Mutate (r_env (cl_rec c)) w h (UpdateGroupMembers n NilSlice True))
        (\<lambda>x w'. errOf x \<noteq> None \<and> \<not> isMadminErrorCode (errOf x) ''XMinioAdminNoSuchGroup'' \<and> keeps c w w'))"

definition groupNamed :: "string \<Rightarrow> MinioGroup \<Rightarrow> bool" where
  "groupNamed n g \<longleftrightarrow> gs_Name (g_Spec g) = n \<and> (\<forall>cs. groupCurrent g = Some cs \<longrightarrow> gs_Name cs = n)"

lemma groupNamed_simps [simp]:
  "groupNamed n (setGroupCurrent g None) \<longleftrightarrow> gs_Name (g_Spec g) = n"
  "groupNamed n (setGroupCurrent g (Some cs)) \<longleftrightarrow> gs_Name (g_Spec g) = n \<and> gs_Name cs = n"
  by (auto simp: groupNamed_def)

lemma groupSame_named: "groupSame x y \<Longrightarrow> groupNamed n x \<Longrightarrow> groupNamed n y"
  by (simp add: groupSame_def groupNamed_def groupCurrent_def)

lemma groupSame_set: "groupSame x y \<Longrightarrow> groupStatusSet y = groupStatusSet x"
  by (simp add: groupSame_def groupStatusSet_def groupCurrent_def)

lemmas group_tenant = groupPresent_def otherGroups_eq addGroup_def dropGroup_def moves_def

lemma quietGroups_describe:
  "quietGroups c \<Longrightarrow> okRun (attempt (queryM h (GetGroupDescription n)
      (\<lambda>w. e_GetGroupDescription (r_env (cl_rec c)) w h n))) w
    (\<lambda>x w'. keeps c w w' \<and> (if groupPresent n (cl_tenant c w) then errOf x = None
       else isMadminErrorCode (errOf x) ''XMinioAdminNoSuchGroup''))"
  unfolding queryM_def by (rule okRun_attempt_answers) (simp add: quietGroups_def)

lemma quietGroups_remove:
  assumes "quietGroups c" and "groupPossible True n (cl_tenant c w)"
  shows "okRun (attempt (mutate (r_env (cl_rec c)) h (UpdateGroupMembers n NilSlice True))) w
    (\<lambda>x w'. madminOk ''XMinioAdminNoSuchGroup'' (errOf x) \<and> cl_store c w' = cl_store c w \<and>
       \<not> groupPresent n (cl_tenant c w') \<and> otherGroups True n (cl_tenant c w') = otherGroups True n (cl_tenant c w))"
proof -
  have "answers (e_Mutate (r_env (cl_rec c)) w h (UpdateGroupMembers n NilSlice True))
    (\<lambda>x w'. if groupPresent n (cl_tenant c w) then x = Inr () \<and> moves c w (dropGroup n) w'
       else isMadminErrorCode (errOf x) ''XMinioAdminNoSuchGroup'' \<and> keeps c w w')"
    using assms by (simp add: quietGroups_def)
  then show ?thesis
    unfolding mutate_def
    by (rule okRun_attempt_answers [OF answers_weaken])
      (auto simp: group_tenant keeps_def madminOk_def ignoreMadminErrorCode_def split: if_splits)
qed

lemma quietGroups_add:
  "quietGroups c \<Longrightarrow> okRun (mutate (r_env (cl_rec c)) h (UpdateGroupMembers n NilSlice False)) w
    (\<lambda>_ w'. moves c w (addGroup n) w')"
  unfolding mutate_def by (rule okRun_answers) (simp add: quietGroups_def)

lemma quietGroups_api: "quietGroups c \<Longrightarrow> quietApi g_ObjectMeta groupSame c"
  by (simp add: quietGroups_def)

lemma quietGroups_open:
  "quietGroups c \<Longrightarrow> heldOnly (g_ObjectMeta g) \<Longrightarrow>
   okRun (getAdminClient (cl_rec c) rr (groupNamespace g)) w (\<lambda>_. keeps c w)"
  by (auto simp: quietGroups_def groupNamespace_def intro: quiet_admin)

lemmas groupSame_defs = groupSame_def groupNamed_def groupStatusSet_def groupCurrent_def
  setGroupCurrent_def stored_def

lemma minioGroup_delete_quiet:
  assumes q: "quietGroups c" and "cl_store c w = Some g" and "heldOnly (g_ObjectMeta g)"
    and "groupNamed n g" and "groupStatusSet g" and "groupPossible True n (cl_tenant c w)"
  shows "okRun (minioGroup_delete (cl_rec c) g) w (\<lambda>_ w'. \<not> groupPresent n (cl_tenant c w') \<and>
    otherGroups True n (cl_tenant c w') = otherGroups True n (cl_tenant c w) \<and> stored c (\<lambda>y. metaStored (g_ObjectMeta g) (g_ObjectMeta y) \<and> groupNamed n y \<and> \<not> groupStatusSet y) w')"
proof -
  from assms(5) obtain cs where cs: "groupCurrent g = Some cs" by (auto simp: groupStatusSet_def)
  with assms(4) have n: "gs_Name cs = n" by (simp add: groupNamed_def)
  show ?thesis
    unfolding minioGroup_delete_def cs option.case n
  proof (rule okRun_bind [OF quietGroups_open [OF q assms(3)]], goal_cases)
    case (1 h w1)
    with assms(2,6) have w1: "cl_store c w1 = Some g" "cl_tenant c w1 = cl_tenant c w"
        "groupPossible True n (cl_tenant c w1)" by (simp_all add: keeps_def)
    show ?case
      by (rule okRun_bind [OF quietGroups_remove [OF q w1(3)]])
        (simp add: madminOk_def, rule quiet_success [OF quietGroups_api [OF q], where x = g],
         use assms w1 in \<open>auto simp: groupSame_defs\<close>)
  qed
qed

lemma minioGroup_removeMigrate_quiet:
  assumes "quietGroups c" and "cl_store c w = Some g" and "heldOnly (g_ObjectMeta g)"
  shows "okRun (minioGroup_removeMigrate (cl_rec c) g) w (\<lambda>y w'. cl_store c w' = Some y \<and>
    cl_tenant c w' = cl_tenant c w \<and> metaStored (g_ObjectMeta g) (g_ObjectMeta y) \<and>
    g_Spec y = (g_Spec g)\<lparr>gs_Migrate := False\<rparr> \<and> groupCurrent y = groupCurrent g)"
proof (cases "gs_Migrate (g_Spec g)")
  case True
  then show ?thesis
    unfolding minioGroup_removeMigrate_def
    by (simp, intro okRun_weaken [OF quiet_update [OF quietGroups_api [OF assms(1)] assms(2)]])
      (use assms in \<open>auto simp: groupSame_defs\<close>)
next
  case False
  then have "(g_Spec g)\<lparr>gs_Migrate := False\<rparr> = g_Spec g" by (cases "g_Spec g") simp
  with False show ?thesis
    unfolding minioGroup_removeMigrate_def using assms(2) by (simp add: okRun_ret)
qed

lemma minioGroup_update_quiet:
  assumes q: "quietGroups c" and "cl_store c w = Some g" and "heldOnly (g_ObjectMeta g)"
    and "groupNamed n g" and "groupStatusSet g"
  shows "okRun (minioGroup_update (cl_rec c) g) w (\<lambda>_ w'. (groupPresent n (cl_tenant c w')) = (groupPresent n (cl_tenant c w)) \<and>
    otherGroups False n (cl_tenant c w') = otherGroups False n (cl_tenant c w) \<and> stored c (\<lambda>y. metaStored (g_ObjectMeta g) (g_ObjectMeta y) \<and> groupNamed n y \<and>
      \<not> gs_Migrate (g_Spec y) \<and> groupStatusSet y = (groupPresent n (cl_tenant c w))) w')"
proof -
  from assms(5) obtain cs where cs: "groupCurrent g = Some cs" by (auto simp: groupStatusSet_def)
  with assms(4) have n: "gs_Name cs = n" "gs_Name (g_Spec g) = n" by (simp_all add: groupNamed_def)
  show ?thesis
    unfolding minioGroup_update_def
  proof (rule okRun_bind [OF minioGroup_removeMigrate_quiet [OF q assms(2,3)]], goal_cases)
    case (1 y w1)
    then have y: "groupCurrent y = Some cs" "heldOnly (g_ObjectMeta y)"
        "cl_store c w1 = Some y" "cl_tenant c w1 = cl_tenant c w" "gs_Name (g_Spec y) = n"
        "\<not> gs_Migrate (g_Spec y)" "metaStored (g_ObjectMeta g) (g_ObjectMeta y)"
      using cs assms(3) n by (auto simp: heldOnly_stored)
    show ?case
      unfolding y(1) deref_simps bindM_ret
    proof (rule okRun_bind [OF quietGroups_open [OF q y(2)]],
        rule okRun_bind [OF quietGroups_describe [OF q]], goal_cases)
      case (1 h w2 x w3)
      with n y(3,4) have st: "cl_store c w3 = Some y" "cl_tenant c w3 = cl_tenant c w"
        and x: "if groupPresent n (cl_tenant c w) then errOf x = None
          else isMadminErrorCode (errOf x) ''XMinioAdminNoSuchGroup''"
        by (auto simp: keeps_def)
      show ?case
      proof (cases "groupPresent n (cl_tenant c w)")
        case True
        with x show ?thesis
          by (simp, intro okRun_success) (use st n y in \<open>auto simp: groupSame_defs\<close>)
      next
        case False
        with x show ?thesis
          by (simp add: ignoreMadminErrorCode_def, intro quiet_success [OF quietGroups_api [OF q] st(1)])
            (use st n y in \<open>auto simp: groupSame_defs metaStored_def\<close>)
      qed
    qed
  qed
qed

lemma minioGroup_create_quiet:
  assumes q: "quietGroups c" and "cl_store c w = Some g" and "heldOnly (g_ObjectMeta g)"
    and "groupNamed n g" and "\<not> groupStatusSet g" and "groupPresent n (cl_tenant c w) \<longrightarrow> gs_Migrate (g_Spec g)"
  shows "okRun (minioGroup_create (cl_rec c) g) w (\<lambda>_ w'. groupPresent n (cl_tenant c w') \<and>
    otherGroups False n (cl_tenant c w') = otherGroups False n (cl_tenant c w) \<and> stored c (\<lambda>y. metaStored (g_ObjectMeta g) (g_ObjectMeta y) \<and> groupNamed n y \<and> groupStatusSet y) w')"
  unfolding minioGroup_create_def Let_def
proof (rule okRun_bind [OF quietGroups_open [OF q assms(3)]],
    rule okRun_bind [OF quietGroups_describe [OF q]], goal_cases)
  case (1 h w1 x w2)
  with assms(4,6) have "ignoreMadminErrorCode (if errOf x = None \<and> \<not> gs_Migrate (g_Spec g)
      then Some (GoErr (''group '' @ gs_Name (g_Spec g) @ '' already exists'')) else errOf x)
      ''XMinioAdminNoSuchGroup'' = None"
    by (cases "errOf x") (auto simp: groupNamed_def keeps_def ignoreMadminErrorCode_eq_None split: if_splits)
  with 1 show ?case
    by (simp, intro okRun_bind [OF quietGroups_add [OF q]])
      (rule quiet_success [OF quietGroups_api [OF q], where x = g],
       use assms in \<open>auto simp: keeps_def group_tenant groupSame_defs\<close>)
qed

lemma minioGroup_create_taken:
  assumes q: "quietGroups c" and "heldOnly (g_ObjectMeta g)" and "groupNamed n g" and "groupPresent n (cl_tenant c w)" and "\<not> gs_Migrate (g_Spec g)"
  shows "errRun (minioGroup_create (cl_rec c) g) w (\<lambda>_. keeps c w)"
  unfolding minioGroup_create_def Let_def
  by (intro errRun_bind [OF quietGroups_open [OF q assms(2)]]
      errRun_bind [OF quietGroups_describe [OF q]] errRun_bind_left)
    (use assms in \<open>auto simp: groupNamed_def keeps_def ignoreMadminErrorCode_def intro!: errRun_fail\<close>)

interpretation group_settling: settling minioGroupReconciler_Reconcile minioGroup_pass
  minioGroup_delete minioGroup_addFinalizer "\<lambda>r _. minioGroup_update r" "\<lambda>r _. minioGroup_create r"
  g_ObjectMeta "\<lambda>g m. g\<lparr>g_ObjectMeta := m\<rparr>" groupStatusSet groupSame
  quietGroups "\<lambda>g. gs_Migrate (g_Spec g)" groupNamed groupPresent otherGroups "\<lambda>_ _ _. True"
  True groupPossible
  by unfold_locales
    (simp_all add: quietGroups_api minioGroup_delete_quiet minioGroup_update_quiet
      minioGroup_create_quiet minioGroup_create_taken,
     auto simp: groupSame_defs otherGroups_eq groupPossible_def minioGroup_delete_def)

lemma quietGroups_sample:
  assumes "\<And>x d. get (put x d) = x"
  shows "quietGroups (tenantAt g_ObjectMeta dn get put)"
  unfolding quietGroups_def
proof (intro conjI allI impI sampleAt_api sampleAt_opens assms, goal_cases)
  case (5 w h n)
  then show ?case
    by (simp add: tenant_answers tenantServe_def membersIn_def moves_def addGroup_def tenant_eq)
next
  case (6 w h n)
  then show ?case
    by (cases "n \<in> set (td_groups (snd w))")
      (auto simp: tenant_answers tenantServe_def membersIn_def refused_def moves_def dropGroup_def tenant_eq
        groupPresent_def groupPossible_def keeps_def)
next
  case (7 w h n)
  then show ?case
    by (cases "n \<in> set (td_groups (snd w))")
      (auto simp: tenant_answers tenantServe_def membersIn_def refused_def groupPossible_def keeps_def)
qed (simp_all add: tenantEnv_reads answers_def keeps_def groupPresent_def)

lemma quietGroups_cluster: "quietGroups (tenantCluster g_ObjectMeta dn)"
  unfolding sampleCluster_def by (rule quietGroups_sample) simp

text \<open>
  C16 - A MinioGroup settles: in a quiet cluster every pass is one step of the abstract machine, so
  after two passes the group of the spec exists and is recorded (unless a group of that name existed
  before and the spec does not ask to migrate it), also when it was lost in the tenant, and stays so;
  two passes after its deletion the object is gone, and so is the group if it was recorded. That
  is, if the group has no members when it is deleted. No pass touches any other group.
\<close>

theorem group_settles:
  assumes "quietGroups c" and "cl_store c w = Some g" and "groupNamed n g"
    and "inOrder g_ObjectMeta groupStatusSet g"
    and "w' = passes minioGroupReconciler_Reconcile c k w"
    and "groupPossible (\<not> timeIsZero (om_DeletionTimestamp (g_ObjectMeta g))) n (cl_tenant c w)"
    and "G = ts_groups (cl_tenant c w)" and "G' = ts_groups (cl_tenant c w')"
  shows "viewOf g_ObjectMeta groupStatusSet (\<lambda>g. gs_Migrate (g_Spec g)) groupPresent c n w' =
    (idealStep True ^^ k) (viewOf g_ObjectMeta groupStatusSet (\<lambda>g. gs_Migrate (g_Spec g)) groupPresent c n w) \<and>
    G' - {n} = G - {n} \<and>
    (2 \<le> k \<longrightarrow> timeIsZero (om_DeletionTimestamp (g_ObjectMeta g)) \<longrightarrow>
      (n \<in> G \<longrightarrow> groupStatusSet g \<or> gs_Migrate (g_Spec g)) \<longrightarrow>
      n \<in> G' \<and> stored c (\<lambda>y. groupNamed n y \<and> groupStatusSet y) w') \<and>
    (2 \<le> k \<longrightarrow> \<not> timeIsZero (om_DeletionTimestamp (g_ObjectMeta g)) \<longrightarrow>
      cl_store c w' = None \<and> (groupStatusSet g \<longrightarrow> n \<notin> G'))"
  using group_settling.settled [OF assms(1-6)] group_settling.passes_refine [OF assms(1), of n w k] assms(2-8)
  by (simp add: orderly_def ableOf_def otherGroups_eq groupPresent_def)

theorem group_settles_witness:
  "''g'' \<in> set (td_groups (snd (passes minioGroupReconciler_Reconcile (tenantCluster g_ObjectMeta id) 2
     (Some (sampleGroup None), emptyTenant)))) \<and>
   (let w = (Some ((sampleGroup (Some sampleGroupSpec))\<lparr>g_ObjectMeta := deletedMeta ''g''\<rparr>),
       emptyTenant\<lparr>td_groups := [''g'']\<rparr>) in
     fst (passes minioGroupReconciler_Reconcile (tenantCluster g_ObjectMeta id) 2 w) = None \<and>
     ''g'' \<notin> set (td_groups (snd (passes minioGroupReconciler_Reconcile (tenantCluster g_ObjectMeta id) 2 w))))"
  unfolding Let_def
  using group_settles [OF quietGroups_cluster [of id], of "(Some (sampleGroup None), emptyTenant)"
      "sampleGroup None" "''g''" _ 2, OF _ _ _ refl _ refl refl]
    group_settles [OF quietGroups_cluster [of id], of
      "(Some ((sampleGroup (Some sampleGroupSpec))\<lparr>g_ObjectMeta := deletedMeta ''g''\<rparr>), emptyTenant\<lparr>td_groups := [''g'']\<rparr>)"
      "(sampleGroup (Some sampleGroupSpec))\<lparr>g_ObjectMeta := deletedMeta ''g''\<rparr>" "''g''" _ 2, OF _ _ _ refl _ refl refl]
  by (simp add: groupNamed_def inOrder_def heldOnly_def groupStatusSet_def groupPossible_def)

end
