(* ===== verification/Group_Binding_Reconciler.thy ===== *)
theory Group_Binding_Reconciler
  imports Tenant_State
begin

text \<open>
  \<open>minio_group_binding_reconciler.go\<close>: the membership of one user in one group. The tenant is asked
  for the group's members; a binding whose spec changed is removed and added again by a later pass.
\<close>

definition setGroupBindingCurrent ::
  "MinioGroupBinding \<Rightarrow> MinioGroupBindingSpec option \<Rightarrow> MinioGroupBinding" where
  "setGroupBindingCurrent gb cs = gb\<lparr>gb_Status := (gb_Status gb)\<lparr>gbst_CurrentSpec := cs\<rparr>\<rparr>"

definition groupBindingCurrent :: "MinioGroupBinding \<Rightarrow> MinioGroupBindingSpec option" where
  "groupBindingCurrent gb = gbst_CurrentSpec (gb_Status gb)"

definition groupBindingNamespace :: "MinioGroupBinding \<Rightarrow> string" where
  "groupBindingNamespace gb = om_Namespace (gb_ObjectMeta gb)"

text \<open>The \<open>deleteGroupMember\<close> closure.\<close>

definition deleteGroupMember ::
  "('w, MinioGroupBinding) reconciler \<Rightarrow> MinioGroupBinding
    \<Rightarrow> ('w, MinioGroupBinding call, MinioGroupBinding) m" where
  "deleteGroupMember r gb =
     bindM (deref (groupBindingCurrent gb)) (\<lambda>cs.
     bindM (getAdminClient r (gbs_TenantRef cs) (groupBindingNamespace gb)) (\<lambda>mtac.
     bindM (attempt (mutate (r_env r) mtac
       (UpdateGroupMembers (gbs_Group cs) (Slice [gbs_User cs]) True))) (\<lambda>x.
     bindM (checkErr (ignoreMadminErrorCode (errOf x) ''XMinioAdminNoSuchUser'')) (\<lambda>_.
     updateObj r (setGroupBindingCurrent gb None)))))"

definition minioGroupBinding_delete ::
  "('w, MinioGroupBinding) reconciler \<Rightarrow> MinioGroupBinding
    \<Rightarrow> ('w, MinioGroupBinding call, Result) m" where
  "minioGroupBinding_delete r gb =
     (case groupBindingCurrent gb of
        Some _ \<Rightarrow>
          bindM (deleteGroupMember r gb) (\<lambda>gb.
          success r)
      | None \<Rightarrow>
          bindM (updateObj r (gb\<lparr>gb_ObjectMeta :=
            removeFinalizer (lib (r_env r)) (gb_ObjectMeta gb) finalizer\<rparr>)) (\<lambda>gb.
          success r))"

definition minioGroupBinding_addFinalizer ::
  "('w, MinioGroupBinding) reconciler \<Rightarrow> MinioGroupBinding
    \<Rightarrow> ('w, MinioGroupBinding call, Result) m" where
  "minioGroupBinding_addFinalizer r gb =
     bindM (updateObj r (gb\<lparr>gb_ObjectMeta :=
       addFinalizer (lib (r_env r)) (gb_ObjectMeta gb) finalizer\<rparr>)) (\<lambda>gb.
     success r)"

definition minioGroupBinding_removeMigrate ::
  "('w, MinioGroupBinding) reconciler \<Rightarrow> MinioGroupBinding
    \<Rightarrow> ('w, MinioGroupBinding call, MinioGroupBinding) m" where
  "minioGroupBinding_removeMigrate r gb =
     (if gbs_Migrate (gb_Spec gb) then
        updateObj r (gb\<lparr>gb_Spec := (gb_Spec gb)\<lparr>gbs_Migrate := False\<rparr>\<rparr>)
      else ret gb)"

definition minioGroupBinding_update ::
  "('w, MinioGroupBinding) reconciler \<Rightarrow> MinioGroupBinding
    \<Rightarrow> ('w, MinioGroupBinding call, Result) m" where
  "minioGroupBinding_update r gb =
     bindM (minioGroupBinding_removeMigrate r gb) (\<lambda>gb.
     bindM (deref (groupBindingCurrent gb)) (\<lambda>cs.
     bindM (getAdminClient r (gbs_TenantRef cs) (groupBindingNamespace gb)) (\<lambda>mtac.
     bindM (queryM mtac (GetGroupDescription (gbs_Group cs))
       (\<lambda>w. e_GetGroupDescription (r_env r) w mtac (gbs_Group cs))) (\<lambda>members.
     if gbs_User cs \<notin> set members then
       bindM (updateObj r (setGroupBindingCurrent gb None)) (\<lambda>gb.
       success r)
     else if cs \<noteq> gb_Spec gb then
       bindM (deleteGroupMember r gb) (\<lambda>gb.
       success r)
     else success r))))"

definition minioGroupBinding_create ::
  "('w, MinioGroupBinding) reconciler \<Rightarrow> MinioGroupBinding
    \<Rightarrow> ('w, MinioGroupBinding call, Result) m" where
  "minioGroupBinding_create r gb =
     (let spec = gb_Spec gb in
     bindM (getAdminClient r (gbs_TenantRef spec) (groupBindingNamespace gb)) (\<lambda>mtac.
     bindM (queryM mtac (GetGroupDescription (gbs_Group spec))
       (\<lambda>w. e_GetGroupDescription (r_env r) w mtac (gbs_Group spec))) (\<lambda>members.
     let exists = (gbs_User spec \<in> set members) in
     bindM (checkErr (if exists \<and> \<not> gbs_Migrate spec
       then Some (GoErr (''user '' @ gbs_User spec @ '' already member of group '' @ gbs_Group spec))
       else None)) (\<lambda>_.
     bindM (mutate (r_env r) mtac
       (UpdateGroupMembers (gbs_Group spec) (Slice [gbs_User spec]) False)) (\<lambda>_.
     let spec = spec\<lparr>gbs_Migrate := False\<rparr> in
     bindM (updateObj r (setGroupBindingCurrent (gb\<lparr>gb_Spec := spec\<rparr>) (Some spec))) (\<lambda>gb.
     success r))))))"

definition minioGroupBinding_pass ::
  "('w, MinioGroupBinding) reconciler \<Rightarrow> NamespacedName \<Rightarrow> MinioGroupBinding
    \<Rightarrow> ('w, MinioGroupBinding call, Result) m" where
  "minioGroupBinding_pass r req gb =
     (if \<not> timeIsZero (om_DeletionTimestamp (gb_ObjectMeta gb)) then minioGroupBinding_delete r gb
      else if \<not> containsFinalizer (lib (r_env r)) (gb_ObjectMeta gb) finalizer then
        minioGroupBinding_addFinalizer r gb
      else (case groupBindingCurrent gb of
              Some _ \<Rightarrow> minioGroupBinding_update r gb
            | None \<Rightarrow> minioGroupBinding_create r gb))"

definition minioGroupBindingReconciler_Reconcile ::
  "('w, MinioGroupBinding) reconciler \<Rightarrow> NamespacedName
    \<Rightarrow> ('w, MinioGroupBinding call, Result) m" where
  "minioGroupBindingReconciler_Reconcile r req =
     bindM (attempt (getObj r req)) (\<lambda>x.
     (case x of Inl err \<Rightarrow> getFailed r err | Inr gb \<Rightarrow> minioGroupBinding_pass r req gb))"

section \<open>The contract\<close>

definition groupBindingStatusSet :: "MinioGroupBinding \<Rightarrow> bool" where
  "groupBindingStatusSet gb \<longleftrightarrow> groupBindingCurrent gb \<noteq> None"

definition groupBindingSame :: "MinioGroupBinding \<Rightarrow> MinioGroupBinding \<Rightarrow> bool" where
  "groupBindingSame x y \<longleftrightarrow> metaStored (gb_ObjectMeta x) (gb_ObjectMeta y) \<and>
     gb_Spec y = gb_Spec x \<and> gb_Status y = gb_Status x"

lemma setGroupBindingCurrent_simps [simp]:
  "gb_ObjectMeta (setGroupBindingCurrent gb cs) = gb_ObjectMeta gb"
  "gb_Spec (setGroupBindingCurrent gb cs) = gb_Spec gb"
  "groupBindingCurrent (setGroupBindingCurrent gb cs) = cs"
  "groupBindingCurrent (gb\<lparr>gb_ObjectMeta := m\<rparr>) = groupBindingCurrent gb"
  by (simp_all add: setGroupBindingCurrent_def groupBindingCurrent_def)

lemma minioGroupBinding_removeMigrate_triple:
  assumes "profile P N (\<lambda>y. Q (gb_ObjectMeta y))" and "survives r (\<lambda>y. Q (gb_ObjectMeta y))"
    and "Q (gb_ObjectMeta gb)"
  shows "triple P N True (\<lambda>y. Q (gb_ObjectMeta y)) (minioGroupBinding_removeMigrate r gb)"
  unfolding minioGroupBinding_removeMigrate_def tenant_calls
  by (intro triple_intro triple_call triple_updateObj [OF assms(1,2)])
    (use assms in \<open>auto simp: profile_def\<close>)

lemma deleteGroupMember_triple:
  assumes "profile P N (\<lambda>y. Q (gb_ObjectMeta y))" and "survives r (\<lambda>y. Q (gb_ObjectMeta y))"
    and "Q (gb_ObjectMeta gb)"
  shows "triple P N True (\<lambda>y. Q (gb_ObjectMeta y)) (deleteGroupMember r gb)"
  unfolding deleteGroupMember_def tenant_calls
  by (intro triple_intro triple_updateObj [OF assms(1,2)]
      triple_bind [OF getAdminClient_profile [OF assms(1)]])
    (use assms in \<open>auto simp: profile_def\<close>)

lemma minioGroupBinding_update_triple:
  assumes "profile P N (\<lambda>y. Q (gb_ObjectMeta y))" and "survives r (\<lambda>y. Q (gb_ObjectMeta y))"
    and "Q (gb_ObjectMeta gb)"
  shows "triple P N True (\<lambda>res. requeueAfter res = syncInterval r) (minioGroupBinding_update r gb)"
  unfolding minioGroupBinding_update_def tenant_calls success_def Let_def
  by (intro triple_intro triple_bind_updateObj [OF assms(1,2)]
      triple_bind [OF deleteGroupMember_triple [OF assms(1,2)]]
      triple_bind [OF minioGroupBinding_removeMigrate_triple [OF assms]]
      triple_bind [OF getAdminClient_profile [OF assms(1)]])
    (use assms in \<open>auto simp: profile_def\<close>)

lemma minioGroupBinding_create_triple:
  assumes "profile P N (\<lambda>y. Q (gb_ObjectMeta y))" and "survives r (\<lambda>y. Q (gb_ObjectMeta y))"
    and "Q (gb_ObjectMeta gb)"
  shows "triple P N True (\<lambda>res. requeueAfter res = syncInterval r) (minioGroupBinding_create r gb)"
  unfolding minioGroupBinding_create_def tenant_calls success_def Let_def
  by (intro triple_intro triple_bind_updateObj [OF assms(1,2)]
      triple_bind [OF getAdminClient_profile [OF assms(1)]])
    (use assms in \<open>auto simp: profile_def\<close>)

lemma minioGroupBinding_delete_safe:
  "finalizerLaws (lib (r_env r)) \<Longrightarrow>
   triple (updatesSafe (lib (r_env r)) gb_ObjectMeta groupBindingStatusSet) (\<lambda>_. True) True (\<lambda>_. True)
     (minioGroupBinding_delete r gb)"
  unfolding minioGroupBinding_delete_def deleteGroupMember_def calls success_def
  by (intro triple_intro triple_bind [OF getAdminClient_triple])
    (auto simp: safeObj_def groupBindingStatusSet_def)

lemma minioGroupBinding_delete_ok:
  "triple (\<lambda>_. True) updateOk True (\<lambda>res. requeueAfter res = syncInterval r)
     (minioGroupBinding_delete r gb)"
  unfolding minioGroupBinding_delete_def deleteGroupMember_def calls success_def
  by (intro triple_intro triple_bind [OF getAdminClient_triple]) auto

interpretation group_binding: phased_reconciler minioGroupBindingReconciler_Reconcile
  minioGroupBinding_pass minioGroupBinding_delete minioGroupBinding_addFinalizer
  "\<lambda>r _. minioGroupBinding_update r" "\<lambda>r _. minioGroupBinding_create r"
  gb_ObjectMeta "\<lambda>x m. x\<lparr>gb_ObjectMeta := m\<rparr>" groupBindingStatusSet groupBindingSame
  by unfold_locales
    (simp_all add: minioGroupBindingReconciler_Reconcile_def minioGroupBinding_pass_def
      groupBindingStatusSet_def minioGroupBinding_addFinalizer_def groupBindingSame_def
      groupBindingCurrent_def minioGroupBinding_delete_ok minioGroupBinding_update_triple
      minioGroupBinding_create_triple minioGroupBinding_delete_safe split: option.split)

section \<open>Properties\<close>

text \<open>The requests to add and to remove the member, and the answers that end a recorded membership.\<close>

definition memberRequest :: "MinioGroupBindingSpec \<Rightarrow> bool \<Rightarrow> mutation" where
  "memberRequest spec remove = UpdateGroupMembers (gbs_Group spec) (Slice [gbs_User spec]) remove"

definition memberGone :: "'w env \<Rightarrow> MinioGroupBindingSpec \<Rightarrow> MinioGroupBinding call event \<Rightarrow> bool" where
  "memberGone E cs ev \<longleftrightarrow>
     asked (memberRequest cs True) (madminOk ''XMinioAdminNoSuchUser'') ev \<or>
     looked (GetGroupDescription (gbs_Group cs)) accepted ev \<and>
       (\<exists>w h ms w'. e_GetGroupDescription E w h (gbs_Group cs) = (Inr ms, w') \<and> gbs_User cs \<notin> set ms)"

definition memberRequests :: "MinioGroupBinding \<Rightarrow> MinioGroupBinding call event \<Rightarrow> bool" where
  "memberRequests gb ev \<longleftrightarrow> (case fst ev of
       Mutate h q \<Rightarrow> (case groupBindingCurrent gb of
           None \<Rightarrow> q = memberRequest (gb_Spec gb) False
         | Some cs \<Rightarrow> q = memberRequest cs True)
     | _ \<Rightarrow> True)"

definition sampleGroupBindingSpec :: MinioGroupBindingSpec where
  "sampleGroupBindingSpec = \<lparr>gbs_Group = ''g'', gbs_Migrate = False, gbs_TenantRef = sampleRef,
     gbs_User = ''u''\<rparr>"

definition sampleGroupBinding :: "MinioGroupBindingSpec option \<Rightarrow> MinioGroupBinding" where
  "sampleGroupBinding cs = \<lparr>gb_TypeMeta = \<lparr>tm_Kind = ''MinioGroupBinding'', tm_APIVersion = ''v1''\<rparr>,
     gb_ObjectMeta = heldMeta ''gb'', gb_Spec = sampleGroupBindingSpec,
     gb_Status = \<lparr>gbst_Synced = None, gbst_CurrentSpec = cs\<rparr>\<rparr>"

lemma sampleGroupBinding_simps [simp]:
  "groupBindingCurrent (sampleGroupBinding cs) = cs"
  "gb_Spec (sampleGroupBinding cs) = sampleGroupBindingSpec"
  "gb_ObjectMeta (sampleGroupBinding cs) = heldMeta ''gb''"
  by (simp_all add: sampleGroupBinding_def groupBindingCurrent_def)

lemma groupBindingSame_refl [simp]: "groupBindingSame gb gb"
  by (simp add: groupBindingSame_def)

lemma groupBindingCurrent_Spec [simp]: "groupBindingCurrent (gb\<lparr>gb_Spec := s\<rparr>) = groupBindingCurrent gb"
  by (simp add: groupBindingCurrent_def)

lemma groupBindingSame_current:
  "updateStores groupBindingSame r \<Longrightarrow> r_Update r w x = (Inr y, w') \<Longrightarrow>
     groupBindingCurrent y = groupBindingCurrent x"
  by (drule (1) updateStores_same) (simp add: groupBindingSame_def groupBindingCurrent_def)

lemmas minioGroupBinding_phases = minioGroupBinding_pass_def minioGroupBinding_delete_def
  minioGroupBinding_addFinalizer_def minioGroupBinding_update_def minioGroupBinding_removeMigrate_def
  minioGroupBinding_create_def deleteGroupMember_def Let_def calls success_def

lemma minioGroupBinding_pass_records:
  assumes "groupBindingCurrent gb = None"
  shows "ordered (asked (memberRequest (gb_Spec gb) False) accepted) (sent groupBindingStatusSet) False
    (minioGroupBinding_pass r req gb)"
  unfolding minioGroupBinding_phases assms option.case
  by (intro ordered_intro ordered_bind_quiet [OF getAdminClient_sent])
    (auto simp: groupBindingStatusSet_def memberRequest_def assms)

lemma minioGroupBinding_pass_clears:
  assumes "updateStores groupBindingSame r" and "groupBindingCurrent gb = Some cs"
  shows "ordered (memberGone (r_env r) cs) (sent (\<lambda>y. \<not> groupBindingStatusSet y)) False
    (minioGroupBinding_pass r req gb)"
  unfolding minioGroupBinding_phases assms option.case
  by (intro ordered_intro ordered_bind_quiet [OF getAdminClient_sent])
    (auto simp: groupBindingStatusSet_def assms memberGone_def madminOk_def memberRequest_def
      dest!: groupBindingSame_current [OF assms(1)], blast+)

lemma minioGroupBinding_pass_requests:
  assumes "updateStores groupBindingSame r"
  shows "triple (memberRequests gb) (\<lambda>_. True) True (\<lambda>_. True) (minioGroupBinding_pass r req gb)"
  unfolding minioGroupBinding_phases
  by (intro triple_intro triple_bind [OF getAdminClient_triple])
    (auto simp: memberRequests_def memberRequest_def elim: isInfra.elims
      dest: groupBindingSame_current [OF assms])

text \<open>
  C8 - A pass over a MinioGroupBinding is truthful: a membership is recorded only after the tenant
  has accepted the addition of that user to that group, and a recorded membership is cleared only
  after the tenant has accepted its removal (or knows no such user), or has listed the members of the
  group without the user.
\<close>

theorem group_binding_status_truthful:
  assumes "updateStores groupBindingSame r" and "r_Get r w req = (Inr gb, w1)"
  shows "(groupBindingCurrent gb = None \<longrightarrow>
      precededBy (asked (memberRequest (gb_Spec gb) False) accepted) (sent groupBindingStatusSet)
        (trace (minioGroupBindingReconciler_Reconcile r req) w)) \<and>
    (\<forall>cs. groupBindingCurrent gb = Some cs \<longrightarrow>
      precededBy (memberGone (r_env r) cs) (sent (\<lambda>y. \<not> groupBindingStatusSet y))
        (trace (minioGroupBindingReconciler_Reconcile r req) w))"
  using group_binding.reconcile_ordered [OF assms(2) minioGroupBinding_pass_records]
    group_binding.reconcile_ordered [OF assms(2) minioGroupBinding_pass_clears [OF assms(1)]] by simp

theorem group_binding_status_truthful_witness:
  "precededBy (asked (memberRequest sampleGroupBindingSpec False) accepted) (sent groupBindingStatusSet)
    (trace (minioGroupBindingReconciler_Reconcile (sampleReconciler (sampleGroupBinding None))
      sampleKey) ()) \<and>
   precededBy (memberGone sampleEnv sampleGroupBindingSpec) (sent (\<lambda>y. \<not> groupBindingStatusSet y))
    (trace (minioGroupBindingReconciler_Reconcile
      (sampleReconciler (sampleGroupBinding (Some sampleGroupBindingSpec))) sampleKey) ())"
  using group_binding_status_truthful [of "sampleReconciler (sampleGroupBinding None)" "()" sampleKey
      "sampleGroupBinding None" "()"]
    group_binding_status_truthful [of
      "sampleReconciler (sampleGroupBinding (Some sampleGroupBindingSpec))" "()" sampleKey
      "sampleGroupBinding (Some sampleGroupBindingSpec)" "()"]
  by (simp add: updateStores_sample)

text \<open>
  All requests of the group binding reconciler concern one member of one group: it adds the
  user of the spec when nothing is recorded, and removes the recorded user otherwise. So a changed
  spec first takes the old membership away, in the recorded tenant and group, and nothing is ever
  asked about another user.
\<close>

theorem group_binding_requests:
  assumes "updateStores groupBindingSame r" and "r_Get r w req = (Inr gb, w1)"
  shows "list_all (memberRequests gb) (trace (minioGroupBindingReconciler_Reconcile r req) w)"
  using group_binding.reconcile_all [OF assms(2) minioGroupBinding_pass_requests [OF assms(1)]]
  by (simp add: memberRequests_def)

theorem group_binding_requests_witness:
  "list_all (memberRequests (sampleGroupBinding None))
    (trace (minioGroupBindingReconciler_Reconcile (sampleReconciler (sampleGroupBinding None))
      sampleKey) ())"
  using group_binding_requests [of "sampleReconciler (sampleGroupBinding None)" "()" sampleKey
      "sampleGroupBinding None" "()"]
  by (simp add: updateStores_sample)

subsection \<open>Deletion when the group is gone\<close>

text \<open>Every answer of the tenant to the removal of the member is that there is no such group.\<close>

definition groupMissing :: "'w env \<Rightarrow> MinioGroupBindingSpec \<Rightarrow> bool" where
  "groupMissing E cs \<longleftrightarrow> (\<forall>w h. \<exists>msg w'. e_Mutate E w h (memberRequest cs True) =
     (Inl (MadminResp ''XMinioAdminNoSuchGroup'' msg), w'))"

lemma minioGroupBinding_delete_stuck:
  assumes "groupBindingCurrent gb = Some cs" and "groupMissing (r_env r) cs"
  shows "triple (\<lambda>ev. \<not> sent (\<lambda>_. True) ev) (\<lambda>_. True) True (\<lambda>_. False) (minioGroupBinding_delete r gb)"
proof -
  have answer: "\<exists>msg. x = Inl (MadminResp ''XMinioAdminNoSuchGroup'' msg)"
    if "e_Mutate (r_env r) w h (UpdateGroupMembers (gbs_Group cs) (Slice [gbs_User cs]) True) = (x, w')"
    for w h x w'
    using assms(2) that unfolding groupMissing_def memberRequest_def by (metis prod.inject)
  show ?thesis
    unfolding minioGroupBinding_delete_def deleteGroupMember_def Let_def calls success_def assms(1)
      option.case
    by (intro triple_intro triple_bind [OF getAdminClient_sent])
      (auto simp: assms(1) ignoreMadminErrorCode_eq_None dest!: answer)
qed

text \<open>
  When the group of a recorded binding is gone from the tenant, the deletion of the
  MinioGroupBinding never completes: as long as the tenant answers XMinioAdminNoSuchGroup, no pass
  succeeds and none updates the object, so its finalizer stays. (The policy binding reconciler
  ignores this error code when it detaches.)
\<close>

theorem group_binding_deletion_stuck:
  assumes "r_Get r w req = (Inr gb, w1)" and "groupBindingCurrent gb = Some cs"
    and "\<not> timeIsZero (om_DeletionTimestamp (gb_ObjectMeta gb))" and "groupMissing (r_env r) cs"
  shows "(\<forall>res. outcome (minioGroupBindingReconciler_Reconcile r req) w \<noteq> Ok res) \<and>
    list_all (\<lambda>ev. \<not> sent (\<lambda>_. True) ev) (trace (minioGroupBindingReconciler_Reconcile r req) w)"
proof -
  have pass: "minioGroupBinding_pass r req gb = minioGroupBinding_delete r gb"
    using assms(3) by (simp add: minioGroupBinding_pass_def)
  note stuck = minioGroupBinding_delete_stuck [OF assms(2,4), folded pass]
  have "outcome (minioGroupBindingReconciler_Reconcile r req) w \<noteq> Ok res" for res
    using triple_post [OF stuck] by (auto simp: group_binding.reconcile_found [OF assms(1)])
  then show ?thesis using group_binding.reconcile_all [OF assms(1) stuck] by simp
qed

definition deletedGroupBinding :: MinioGroupBinding where
  "deletedGroupBinding = (sampleGroupBinding (Some sampleGroupBindingSpec))
     \<lparr>gb_ObjectMeta := deletedMeta ''gb''\<rparr>"

theorem group_binding_deletion_stuck_witness:
  "(\<forall>res. outcome (minioGroupBindingReconciler_Reconcile
      (reconcilerIn (refusingEnv (MadminResp ''XMinioAdminNoSuchGroup'' '''')) deletedGroupBinding)
      sampleKey) () \<noteq> Ok res) \<and>
   list_all (\<lambda>ev. \<not> sent (\<lambda>_. True) ev) (trace (minioGroupBindingReconciler_Reconcile
      (reconcilerIn (refusingEnv (MadminResp ''XMinioAdminNoSuchGroup'' '''')) deletedGroupBinding)
      sampleKey) ())"
  by (rule group_binding_deletion_stuck [where gb = deletedGroupBinding and cs = sampleGroupBindingSpec])
    (simp_all add: deletedGroupBinding_def groupMissing_def)

subsection \<open>Repeated passes in a quiet cluster\<close>

text \<open>
  A group that exists is described by its members, one that does not is an error; a member can be added
  to a group if both exist, and an unknown user is refused. (A request to add somebody to an unknown
  group is left open: MinIO would make the group, but the code asks for its description first.)
\<close>

definition quietMembers :: "('w, MinioGroupBinding, tenantState) cluster \<Rightarrow> bool" where
  "quietMembers c \<longleftrightarrow> quietApi gb_ObjectMeta groupBindingSame c \<and> opensAdmin c \<and>
     (\<forall>w h g. g \<in> ts_groups (cl_tenant c w) \<longrightarrow> answers (e_GetGroupDescription (r_env (cl_rec c)) w h g)
        (\<lambda>x w'. \<exists>ms. x = Inr ms \<and> keeps c w w' \<and>
           (\<forall>u. u \<in> set ms \<longleftrightarrow> (g, u) \<in> ts_members (cl_tenant c w)))) \<and>
     (\<forall>w h g. g \<notin> ts_groups (cl_tenant c w) \<longrightarrow> answers (e_GetGroupDescription (r_env (cl_rec c)) w h g)
        (\<lambda>x w'. \<exists>e. x = Inl e \<and> keeps c w w')) \<and>
     (\<forall>w h g u. g \<in> ts_groups (cl_tenant c w) \<longrightarrow> u \<in> ts_users (cl_tenant c w) \<longrightarrow>
        answers (e_Mutate (r_env (cl_rec c)) w h (UpdateGroupMembers g (Slice [u]) False))
          (\<lambda>x w'. x = Inr () \<and> moves c w (addMember (g, u)) w')) \<and>
     (\<forall>w h g u. g \<in> ts_groups (cl_tenant c w) \<longrightarrow> u \<notin> ts_users (cl_tenant c w) \<longrightarrow>
        answers (e_Mutate (r_env (cl_rec c)) w h (UpdateGroupMembers g (Slice [u]) False))
          (\<lambda>x w'. \<exists>e. x = Inl e \<and> keeps c w w')) \<and>
     (\<forall>w h g u. g \<in> ts_groups (cl_tenant c w) \<longrightarrow>
        answers (e_Mutate (r_env (cl_rec c)) w h (UpdateGroupMembers g (Slice [u]) True))
          (\<lambda>x w'. madminOk ''XMinioAdminNoSuchUser'' (errOf x) \<and>
             moves c w (dropMember (g, u)) w'))"

lemmas member_tenant = memberPossible_def memberPresent_def otherMembers_eq addMember_def dropMember_def moves_def

definition membership :: "MinioGroupBindingSpec \<Rightarrow> string \<times> string" where
  "membership spec = (gbs_Group spec, gbs_User spec)"

definition memberNamed :: "string \<times> string \<Rightarrow> MinioGroupBinding \<Rightarrow> bool" where
  "memberNamed n gb \<longleftrightarrow> membership (gb_Spec gb) = n \<and>
     (\<forall>cs. groupBindingCurrent gb = Some cs \<longrightarrow> cs = (gb_Spec gb)\<lparr>gbs_Migrate := False\<rparr>)"

lemma membership_Migrate [simp]: "membership (spec\<lparr>gbs_Migrate := b\<rparr>) = membership spec"
  by (simp add: membership_def)

lemmas groupBindingSame_defs = groupBindingSame_def memberNamed_def groupBindingStatusSet_def
  groupBindingCurrent_def setGroupBindingCurrent_def stored_def

lemma quietMembers_api: "quietMembers c \<Longrightarrow> quietApi gb_ObjectMeta groupBindingSame c"
  by (simp add: quietMembers_def)

lemma quietMembers_open:
  "quietMembers c \<Longrightarrow> heldOnly (gb_ObjectMeta gb) \<Longrightarrow>
   okRun (getAdminClient (cl_rec c) rr (groupBindingNamespace gb)) w (\<lambda>_. keeps c w)"
  by (auto simp: quietMembers_def groupBindingNamespace_def intro: quiet_admin)

lemma quietMembers_describe:
  assumes "quietMembers c" and "gbs_Group spec \<in> ts_groups (cl_tenant c w)"
  shows "okRun (queryM h (GetGroupDescription (gbs_Group spec))
      (\<lambda>w. e_GetGroupDescription (r_env (cl_rec c)) w h (gbs_Group spec))) w
    (\<lambda>ms w'. keeps c w w' \<and> (gbs_User spec \<in> set ms \<longleftrightarrow> membership spec \<in> ts_members (cl_tenant c w)))"
  unfolding queryM_def membership_def
  by (rule okRun_answers) (use assms in \<open>fastforce simp: quietMembers_def answers_def\<close>)

lemma quietMembers_unknown_group:
  assumes "quietMembers c" and "gbs_Group spec \<notin> ts_groups (cl_tenant c w)"
  shows "errRun (queryM h (GetGroupDescription (gbs_Group spec))
      (\<lambda>w. e_GetGroupDescription (r_env (cl_rec c)) w h (gbs_Group spec))) w (\<lambda>_. keeps c w)"
  unfolding queryM_def
  by (rule errRun_answers) (use assms in \<open>simp add: quietMembers_def\<close>)

lemma quietMembers_change:
  assumes "quietMembers c" and "gbs_Group spec \<in> ts_groups (cl_tenant c w)"
  shows "okRun (attempt (mutate (r_env (cl_rec c)) h (UpdateGroupMembers (gbs_Group spec)
        (Slice [gbs_User spec]) True))) w
      (\<lambda>x w'. madminOk ''XMinioAdminNoSuchUser'' (errOf x) \<and> moves c w (dropMember (membership spec)) w')"
    and "gbs_User spec \<in> ts_users (cl_tenant c w) \<Longrightarrow>
      okRun (mutate (r_env (cl_rec c)) h (UpdateGroupMembers (gbs_Group spec) (Slice [gbs_User spec]) False)) w
        (\<lambda>_ w'. moves c w (addMember (membership spec)) w')"
  unfolding mutate_def membership_def
  by (rule okRun_attempt_answers, use assms in \<open>simp add: quietMembers_def\<close>)
    (rule okRun_answers, use assms in \<open>simp add: quietMembers_def\<close>)

lemma quietMembers_unknown_user:
  assumes "quietMembers c" and "gbs_Group spec \<in> ts_groups (cl_tenant c w)"
    and "gbs_User spec \<notin> ts_users (cl_tenant c w)"
  shows "errRun (mutate (r_env (cl_rec c)) h (UpdateGroupMembers (gbs_Group spec) (Slice [gbs_User spec]) False)) w
    (\<lambda>_. keeps c w)"
  unfolding mutate_def
  by (rule errRun_answers) (use assms in \<open>simp add: quietMembers_def\<close>)

lemma deleteGroupMember_quiet:
  assumes q: "quietMembers c" and "cl_store c w = Some gb" and "heldOnly (gb_ObjectMeta gb)"
    and cs: "groupBindingCurrent gb = Some cs" and g: "gbs_Group cs \<in> ts_groups (cl_tenant c w)"
    and R: "\<And>w' y. groupBindingSame (setGroupBindingCurrent gb None) y \<Longrightarrow> cl_store c w' = Some y \<Longrightarrow>
      cl_tenant c w' = dropMember (membership cs) (cl_tenant c w) \<Longrightarrow> R w'"
  shows "okRun (bindM (deleteGroupMember (cl_rec c) gb) (\<lambda>_. success (cl_rec c))) w (\<lambda>_. R)"
  unfolding deleteGroupMember_def cs deref_simps bindM_ret bindM_assoc
proof (rule okRun_bind [OF quietMembers_open [OF q assms(3)]], goal_cases)
  case (1 h w1)
  with g have g1: "gbs_Group cs \<in> ts_groups (cl_tenant c w1)" by (simp add: keeps_def)
  show ?case
    by (rule okRun_bind [OF quietMembers_change(1) [OF q g1]])
      (simp add: madminOk_def, rule quiet_success [OF quietMembers_api [OF q], where x = gb],
       use assms 1 in \<open>auto simp: keeps_def moves_def\<close>)
qed

lemma minioGroupBinding_delete_quiet:
  assumes q: "quietMembers c" and "cl_store c w = Some gb" and "heldOnly (gb_ObjectMeta gb)"
    and "memberNamed n gb" and "groupBindingStatusSet gb" and "memberPossible True n (cl_tenant c w)"
  shows "okRun (minioGroupBinding_delete (cl_rec c) gb) w (\<lambda>_ w'. \<not> memberPresent n (cl_tenant c w') \<and>
    otherMembers True n (cl_tenant c w') = otherMembers True n (cl_tenant c w) \<and>
    stored c (\<lambda>y. metaStored (gb_ObjectMeta gb) (gb_ObjectMeta y) \<and>
      memberNamed n y \<and> \<not> groupBindingStatusSet y) w')"
proof -
  from assms(5) obtain cs where cs: "groupBindingCurrent gb = Some cs" by (auto simp: groupBindingStatusSet_def)
  with assms(4) have n: "membership cs = n" by (auto simp: memberNamed_def)
  with assms(6) have "gbs_Group cs \<in> ts_groups (cl_tenant c w)" by (auto simp: memberPossible_def membership_def)
  with n show ?thesis
    unfolding minioGroupBinding_delete_def cs option.case
    by (intro deleteGroupMember_quiet [OF q assms(2,3) cs])
      (use assms in \<open>auto simp: groupBindingSame_defs member_tenant\<close>)
qed

lemma minioGroupBinding_removeMigrate_quiet:
  assumes "quietMembers c" and "cl_store c w = Some gb" and "heldOnly (gb_ObjectMeta gb)"
  shows "okRun (minioGroupBinding_removeMigrate (cl_rec c) gb) w (\<lambda>y w'. cl_store c w' = Some y \<and>
    cl_tenant c w' = cl_tenant c w \<and> metaStored (gb_ObjectMeta gb) (gb_ObjectMeta y) \<and>
    gb_Spec y = (gb_Spec gb)\<lparr>gbs_Migrate := False\<rparr> \<and> groupBindingCurrent y = groupBindingCurrent gb)"
proof (cases "gbs_Migrate (gb_Spec gb)")
  case True
  then show ?thesis
    unfolding minioGroupBinding_removeMigrate_def
    by (simp, intro okRun_weaken [OF quiet_update [OF quietMembers_api [OF assms(1)] assms(2)]])
      (use assms in \<open>auto simp: groupBindingSame_defs\<close>)
next
  case False
  then have "(gb_Spec gb)\<lparr>gbs_Migrate := False\<rparr> = gb_Spec gb" by (cases "gb_Spec gb") simp
  with False show ?thesis
    unfolding minioGroupBinding_removeMigrate_def using assms(2) by (simp add: okRun_ret)
qed

text \<open>
  The update, for a spec that may have changed: a recorded membership that was lost, or differs from
  the spec, is dropped from the record, and from the tenant.
\<close>

lemma minioGroupBinding_update_drift:
  assumes q: "quietMembers c" and "cl_store c w = Some gb" and "heldOnly (gb_ObjectMeta gb)"
    and cs: "groupBindingCurrent gb = Some cs" and g: "gbs_Group cs \<in> ts_groups (cl_tenant c w)"
    and stay: "stay \<longleftrightarrow> membership cs \<in> ts_members (cl_tenant c w) \<and> cs = (gb_Spec gb)\<lparr>gbs_Migrate := False\<rparr>"
  shows "okRun (minioGroupBinding_update (cl_rec c) gb) w (\<lambda>_ w'.
    cl_tenant c w' = (if stay then cl_tenant c w
      else dropMember (membership cs) (cl_tenant c w)) \<and>
    stored c (\<lambda>y. metaStored (gb_ObjectMeta gb) (gb_ObjectMeta y) \<and>
      gb_Spec y = (gb_Spec gb)\<lparr>gbs_Migrate := False\<rparr> \<and>
      groupBindingCurrent y = (if stay then Some cs else None)) w')"
  unfolding minioGroupBinding_update_def
proof (rule okRun_bind [OF minioGroupBinding_removeMigrate_quiet [OF q assms(2,3)]], goal_cases)
  case (1 y w1)
  then have y: "groupBindingCurrent y = Some cs" "heldOnly (gb_ObjectMeta y)"
      "cl_store c w1 = Some y" "cl_tenant c w1 = cl_tenant c w"
      "gb_Spec y = (gb_Spec gb)\<lparr>gbs_Migrate := False\<rparr>" "metaStored (gb_ObjectMeta gb) (gb_ObjectMeta y)"
    using cs assms(3) by (auto simp: heldOnly_stored)
  show ?case
    unfolding y(1) deref_simps bindM_ret
  proof (rule okRun_bind [OF quietMembers_open [OF q y(2)]], goal_cases)
    case (1 h w2)
    with y(3,4) have w2: "cl_store c w2 = Some y" "cl_tenant c w2 = cl_tenant c w" by (simp_all add: keeps_def)
    with g have g2: "gbs_Group cs \<in> ts_groups (cl_tenant c w2)" by simp
    show ?case
    proof (rule okRun_bind [OF quietMembers_describe [OF q g2]], goal_cases)
      case (1 ms w3)
      with w2 g have st: "cl_store c w3 = Some y" "cl_tenant c w3 = cl_tenant c w"
          "gbs_Group cs \<in> ts_groups (cl_tenant c w3)"
        and ms: "gbs_User cs \<in> set ms \<longleftrightarrow> membership cs \<in> ts_members (cl_tenant c w)"
        by (auto simp: keeps_def)
      have gone: "dropMember (membership cs) (cl_tenant c w) = cl_tenant c w"
        if "membership cs \<notin> ts_members (cl_tenant c w)"
        using that by (simp add: dropMember_def tenant_eq)
      consider (lost) "membership cs \<notin> ts_members (cl_tenant c w)" "\<not> stay"
        | (changed) "membership cs \<in> ts_members (cl_tenant c w)" "cs \<noteq> gb_Spec y" "\<not> stay"
        | (same) "membership cs \<in> ts_members (cl_tenant c w)" "cs = gb_Spec y" "stay"
        using stay y(5) by metis
      then show ?case
      proof cases
        case lost
        with ms show ?thesis
          by (simp, intro quiet_success [OF quietMembers_api [OF q] st(1)])
            (use st y gone [OF lost(1)] in \<open>auto simp: groupBindingSame_defs intro: metaStored_trans\<close>)
      next
        case changed
        with ms show ?thesis
          by (simp, intro deleteGroupMember_quiet [OF q st(1) y(2,1) st(3)])
            (use st y in \<open>auto simp: groupBindingSame_defs intro: metaStored_trans\<close>)
      next
        case same
        with ms show ?thesis
          by (simp, intro okRun_success) (use st y in \<open>auto simp: stored_def\<close>)
      qed
    qed
  qed
qed

lemma minioGroupBinding_update_quiet:
  assumes "quietMembers c" and "cl_store c w = Some gb" and "heldOnly (gb_ObjectMeta gb)"
    and "memberNamed n gb" and "groupBindingStatusSet gb" and "memberPossible False n (cl_tenant c w)"
  shows "okRun (minioGroupBinding_update (cl_rec c) gb) w (\<lambda>_ w'.
    memberPresent n (cl_tenant c w') = memberPresent n (cl_tenant c w) \<and>
    otherMembers False n (cl_tenant c w') = otherMembers False n (cl_tenant c w) \<and>
    stored c (\<lambda>y. metaStored (gb_ObjectMeta gb) (gb_ObjectMeta y) \<and> memberNamed n y \<and>
      \<not> gbs_Migrate (gb_Spec y) \<and> groupBindingStatusSet y = memberPresent n (cl_tenant c w)) w')"
proof -
  from assms(5) obtain cs where cs: "groupBindingCurrent gb = Some cs" by (auto simp: groupBindingStatusSet_def)
  with assms(4) have n: "cs = (gb_Spec gb)\<lparr>gbs_Migrate := False\<rparr>" "membership (gb_Spec gb) = n"
    by (simp_all add: memberNamed_def)
  with assms(6) have g: "gbs_Group cs \<in> ts_groups (cl_tenant c w)"
    by (auto simp: memberPossible_def membership_def)
  show ?thesis
    by (rule okRun_weaken [OF minioGroupBinding_update_drift [OF assms(1-3) cs g refl]])
      (use cs n in \<open>auto simp: stored_def memberNamed_def groupBindingStatusSet_def member_tenant\<close>)
qed

lemma minioGroupBinding_create_quiet:
  assumes q: "quietMembers c" and "cl_store c w = Some gb" and "heldOnly (gb_ObjectMeta gb)"
    and "memberNamed n gb" and "\<not> groupBindingStatusSet gb"
    and "memberPresent n (cl_tenant c w) \<longrightarrow> gbs_Migrate (gb_Spec gb)" and "memberPossible False n (cl_tenant c w)"
  shows "okRun (minioGroupBinding_create (cl_rec c) gb) w (\<lambda>_ w'. memberPresent n (cl_tenant c w') \<and>
    otherMembers False n (cl_tenant c w') = otherMembers False n (cl_tenant c w) \<and>
    stored c (\<lambda>y. metaStored (gb_ObjectMeta gb) (gb_ObjectMeta y) \<and> memberNamed n y \<and>
      groupBindingStatusSet y) w')"
proof -
  from assms(4) have n: "membership (gb_Spec gb) = n" by (simp add: memberNamed_def)
  with assms(7) have p: "gbs_Group (gb_Spec gb) \<in> ts_groups (cl_tenant c w)"
      "gbs_User (gb_Spec gb) \<in> ts_users (cl_tenant c w)"
    by (auto simp: memberPossible_def membership_def)
  show ?thesis
    unfolding minioGroupBinding_create_def Let_def
  proof (rule okRun_bind [OF quietMembers_open [OF q assms(3)]], goal_cases)
    case (1 h w1)
    then have t1: "cl_tenant c w1 = cl_tenant c w" "cl_store c w1 = Some gb" using assms(2) by (simp_all add: keeps_def)
    have p1: "gbs_Group (gb_Spec gb) \<in> ts_groups (cl_tenant c w1)" using p by (simp add: t1)
    show ?case
    proof (rule okRun_bind [OF quietMembers_describe [OF q p1]], goal_cases)
      case (1 ms w2)
      with t1 n have t2: "cl_tenant c w2 = cl_tenant c w" "cl_store c w2 = Some gb"
          "gbs_User (gb_Spec gb) \<in> set ms \<longleftrightarrow> n \<in> ts_members (cl_tenant c w)"
        by (simp_all add: keeps_def)
      then have free: "\<not> (gbs_User (gb_Spec gb) \<in> set ms \<and> \<not> gbs_Migrate (gb_Spec gb))"
        using assms(6) by (simp add: memberPresent_def)
      have p2: "gbs_Group (gb_Spec gb) \<in> ts_groups (cl_tenant c w2)"
          "gbs_User (gb_Spec gb) \<in> ts_users (cl_tenant c w2)" using p by (simp_all add: t2)
      show ?case
        unfolding if_not_P [OF free] checkErr_simps bindM_ret
        by (rule okRun_bind [OF quietMembers_change(2) [OF q p2]])
          (rule quiet_success [OF quietMembers_api [OF q], where x = gb],
           use assms n t2 in \<open>auto simp: groupBindingSame_defs member_tenant\<close>)
    qed
  qed
qed

text \<open>Without its group or its user the creation fails, and changes nothing.\<close>

lemma minioGroupBinding_create_waits:
  assumes q: "quietMembers c" and "heldOnly (gb_ObjectMeta gb)" and "memberNamed n gb"
    and "\<not> memberPossible False n (cl_tenant c w)"
  shows "errRun (minioGroupBinding_create (cl_rec c) gb) w (\<lambda>_. keeps c w)"
  unfolding minioGroupBinding_create_def Let_def
proof (rule errRun_bind [OF quietMembers_open [OF q assms(2)]], goal_cases)
  case (1 h w1)
  let ?spec = "gb_Spec gb"
  note w1 = 1
  then have t1: "cl_tenant c w1 = cl_tenant c w" by (simp add: keeps_def)
  have n: "fst n = gbs_Group ?spec" "snd n = gbs_User ?spec" using assms(3) by (auto simp: memberNamed_def membership_def)
  show ?case
  proof (cases "gbs_Group ?spec \<in> ts_groups (cl_tenant c w1)")
    case False
    show ?thesis
      by (rule errRun_bind_left, rule errRun_weaken [OF quietMembers_unknown_group [OF q False]])
        (rule keeps_trans [OF w1])
  next
    case True
    have u: "gbs_User ?spec \<notin> ts_users (cl_tenant c w1)" using assms(4) True n by (simp add: t1 memberPossible_def)
    show ?thesis
    proof (rule errRun_bind [OF quietMembers_describe [OF q True]], goal_cases)
      case (1 ms w2)
      with True u have t2: "gbs_Group ?spec \<in> ts_groups (cl_tenant c w2)" "gbs_User ?spec \<notin> ts_users (cl_tenant c w2)"
        by (simp_all add: keeps_def)
      have k: "keeps c w w2" using keeps_trans [OF w1] 1 by blast
      show ?case
      proof (cases "gbs_User ?spec \<in> set ms \<and> \<not> gbs_Migrate ?spec")
        case True
        then show ?thesis by (simp add: errRun_fail k)
      next
        case False
        show ?thesis
          unfolding if_not_P [OF False] checkErr_simps bindM_ret
          by (rule errRun_bind_left, rule errRun_weaken [OF quietMembers_unknown_user [OF q t2]])
            (rule keeps_trans [OF k])
      qed
    qed
  qed
qed

lemma minioGroupBinding_create_taken:
  assumes q: "quietMembers c" and "heldOnly (gb_ObjectMeta gb)" and "memberNamed n gb"
    and "memberPresent n (cl_tenant c w)" and "\<not> gbs_Migrate (gb_Spec gb)" and "memberPossible False n (cl_tenant c w)"
  shows "errRun (minioGroupBinding_create (cl_rec c) gb) w (\<lambda>_. keeps c w)"
  unfolding minioGroupBinding_create_def Let_def
proof (rule errRun_bind [OF quietMembers_open [OF q assms(2)]], goal_cases)
  case (1 h w1)
  with assms(3,6) have g: "gbs_Group (gb_Spec gb) \<in> ts_groups (cl_tenant c w1)"
    by (auto simp: keeps_def memberPossible_def memberNamed_def membership_def)
  show ?case
    by (rule errRun_bind [OF quietMembers_describe [OF q g]], rule errRun_bind_left)
      (use assms 1 in \<open>auto simp: memberNamed_def keeps_def memberPresent_def intro!: errRun_fail\<close>)
qed

interpretation member_settling: settling minioGroupBindingReconciler_Reconcile
  minioGroupBinding_pass minioGroupBinding_delete minioGroupBinding_addFinalizer
  "\<lambda>r _. minioGroupBinding_update r" "\<lambda>r _. minioGroupBinding_create r"
  gb_ObjectMeta "\<lambda>x m. x\<lparr>gb_ObjectMeta := m\<rparr>" groupBindingStatusSet groupBindingSame
  quietMembers "\<lambda>gb. gbs_Migrate (gb_Spec gb)" memberNamed memberPresent otherMembers "\<lambda>_ _ _. True"
  True memberPossible
  by unfold_locales
    (simp_all add: quietMembers_api minioGroupBinding_delete_quiet minioGroupBinding_update_quiet
      minioGroupBinding_create_quiet minioGroupBinding_create_taken minioGroupBinding_create_waits,
     auto simp: groupBindingSame_defs minioGroupBinding_delete_def member_tenant)

lemma quietMembers_sample:
  assumes "\<And>x d. get (put x d) = x"
  shows "quietMembers (tenantAt gb_ObjectMeta dn get put)"
  unfolding quietMembers_def
proof (intro conjI allI impI sampleAt_api sampleAt_opens assms, goal_cases)
  case (6 w h g u)
  then show ?case
    by (simp add: tenant_answers tenantServe_def membersIn_def moves_def addMember_def tenant_eq)
next
  case (7 w h g u)
  then show ?case
    by (simp add: tenant_answers tenantServe_def membersIn_def refused_def keeps_def)
next
  case (8 w h g u)
  then show ?case
    by (simp add: tenant_answers tenantServe_def membersIn_def moves_def dropMember_def madminOk_def tenant_eq)
qed (force simp: tenantEnv_reads answers_def keeps_def)+

lemma quietMembers_cluster: "quietMembers (tenantCluster gb_ObjectMeta dn)"
  unfolding sampleCluster_def by (rule quietMembers_sample) simp

abbreviation membersCluster :: "(MinioGroupBinding option \<times> tenantData, MinioGroupBinding, tenantState) cluster" where
  "membersCluster \<equiv> tenantCluster gb_ObjectMeta id"

text \<open>A tenant with a group and some users, of whom some are members.\<close>

definition memberData :: "(string \<times> string) list \<Rightarrow> tenantData" where
  "memberData l = emptyTenant\<lparr>td_groups := [''g''], td_users := [''u'', ''v'', ''x'', ''old''], td_members := l\<rparr>"

lemma memberData_simps [simp]:
  "td_members (memberData l) = l"
  "memberPossible d (g, u) (tenantView (memberData l)) \<longleftrightarrow> g = ''g'' \<and> (d \<or> u \<in> {''u'', ''v'', ''x'', ''old''})"
  by (auto simp: memberData_def memberPossible_def)

text \<open>
  A MinioGroupBinding whose group and user exist settles: after two passes in a quiet cluster the user
  of the spec is a member of its group and the membership is recorded, unless it existed before and the
  spec does not ask to migrate it; two passes after the deletion the object is gone, and so is the
  membership if it was recorded. No pass touches any other membership.
\<close>

theorem group_binding_settles:
  assumes "quietMembers c" and "cl_store c w = Some gb" and "memberNamed n gb"
    and "inOrder gb_ObjectMeta groupBindingStatusSet gb"
    and "w' = passes minioGroupBindingReconciler_Reconcile c k w"
    and "memberPossible (\<not> timeIsZero (om_DeletionTimestamp (gb_ObjectMeta gb))) n (cl_tenant c w)"
  shows "ts_members (cl_tenant c w') - {n} = ts_members (cl_tenant c w) - {n} \<and>
    (2 \<le> k \<longrightarrow> timeIsZero (om_DeletionTimestamp (gb_ObjectMeta gb)) \<longrightarrow>
      (n \<in> ts_members (cl_tenant c w) \<longrightarrow> groupBindingStatusSet gb \<or> gbs_Migrate (gb_Spec gb)) \<longrightarrow>
      n \<in> ts_members (cl_tenant c w') \<and> stored c (\<lambda>y. memberNamed n y \<and> groupBindingStatusSet y) w') \<and>
    (2 \<le> k \<longrightarrow> \<not> timeIsZero (om_DeletionTimestamp (gb_ObjectMeta gb)) \<longrightarrow>
      cl_store c w' = None \<and> (groupBindingStatusSet gb \<longrightarrow> n \<notin> ts_members (cl_tenant c w')))"
  using member_settling.settled [OF assms] by (simp add: member_tenant)

theorem group_binding_settles_witness:
  "(''g'', ''u'') \<in> set (td_members (snd (passes minioGroupBindingReconciler_Reconcile membersCluster 2
     (Some (sampleGroupBinding None), memberData [(''g'', ''v'')])))) \<and>
   fst (passes minioGroupBindingReconciler_Reconcile membersCluster 2
     (Some deletedGroupBinding, memberData [(''g'', ''u''), (''g'', ''v'')])) = None"
  using group_binding_settles [OF quietMembers_cluster [of id], of "(Some (sampleGroupBinding None), memberData [(''g'', ''v'')])"
      "sampleGroupBinding None" "(''g'', ''u'')" _ 2, OF _ _ _ refl]
    group_binding_settles [OF quietMembers_cluster [of id], of "(Some deletedGroupBinding, memberData [(''g'', ''u''), (''g'', ''v'')])"
      deletedGroupBinding "(''g'', ''u'')" _ 2, OF _ _ _ refl]
  by (simp add: deletedGroupBinding_def memberNamed_def membership_def inOrder_def heldOnly_def
      groupBindingStatusSet_def sampleGroupBindingSpec_def)

text \<open>A binding recorded for the user \<open>old\<close>, whose spec now names \<open>u\<close>.\<close>

definition movedBinding :: "bool \<Rightarrow> MinioGroupBinding" where
  "movedBinding m = (sampleGroupBinding (Some (sampleGroupBindingSpec\<lparr>gbs_User := ''old''\<rparr>)))
     \<lparr>gb_Spec := sampleGroupBindingSpec\<lparr>gbs_Migrate := m\<rparr>\<rparr>"

lemma movedBinding_simps:
  "groupBindingCurrent (movedBinding m) = Some (sampleGroupBindingSpec\<lparr>gbs_User := ''old''\<rparr>)"
  "heldOnly (gb_ObjectMeta (movedBinding m))"
  "om_DeletionTimestamp (gb_ObjectMeta (movedBinding m)) = None"
  "membership (gb_Spec (movedBinding m)) = (''g'', ''u'')"
  "membership (sampleGroupBindingSpec\<lparr>gbs_User := ''old''\<rparr>) = (''g'', ''old'')"
  "sampleGroupBindingSpec\<lparr>gbs_User := ''old''\<rparr> \<noteq> (gb_Spec (movedBinding m))\<lparr>gbs_Migrate := False\<rparr>"
  by (simp_all add: movedBinding_def heldOnly_def membership_def sampleGroupBindingSpec_def)

text \<open>
  C22 - A changed spec moves the membership: the first pass takes the recorded one away, the second
  adds and records the one of the spec, and other memberships stay as they are. But if the new
  membership exists already it is never recorded, even if the changed spec asks to migrate it: the
  first pass clears the request before the creation looks at it.
\<close>

theorem group_binding_moves:
  assumes "quietMembers c" and "cl_store c w = Some gb" and "heldOnly (gb_ObjectMeta gb)"
    and "timeIsZero (om_DeletionTimestamp (gb_ObjectMeta gb))"
    and "groupBindingCurrent gb = Some cs" and "cs \<noteq> (gb_Spec gb)\<lparr>gbs_Migrate := False\<rparr>"
    and "2 \<le> k" and "w' = passes minioGroupBindingReconciler_Reconcile c k w"
    and "rest = ts_members (cl_tenant c w) - {membership cs}"
    and "memberPossible False (membership cs) (cl_tenant c w)"
    and "memberPossible False (membership (gb_Spec gb)) (cl_tenant c w)"
  shows "ts_members (cl_tenant c w') = insert (membership (gb_Spec gb)) rest \<and>
    stored c (\<lambda>y. memberNamed (membership (gb_Spec gb)) y \<and>
      (groupBindingStatusSet y \<longleftrightarrow> membership (gb_Spec gb) \<notin> rest)) w'"
proof -
  let ?n = "membership (gb_Spec gb)"
  define R where "R w' \<longleftrightarrow> cl_tenant c w' = dropMember (membership cs) (cl_tenant c w) \<and> stored c (\<lambda>y.
    metaStored (gb_ObjectMeta gb) (gb_ObjectMeta y) \<and> gb_Spec y = (gb_Spec gb)\<lparr>gbs_Migrate := False\<rparr> \<and>
    groupBindingCurrent y = None) w'" for w'
  have set: "groupBindingStatusSet gb" using assms(5) by (simp add: groupBindingStatusSet_def)
  have "R (stepOf minioGroupBindingReconciler_Reconcile c w)"
  proof (rule member_settling.step_update [OF assms(1-3) set assms(4)])
    fix w1 assume "keeps c w w1"
    then have w1: "cl_store c w1 = Some gb" "cl_tenant c w1 = cl_tenant c w"
      using assms(2) by (simp_all add: keeps_def)
    have g: "gbs_Group cs \<in> ts_groups (cl_tenant c w1)"
      using assms(10) by (simp add: w1 memberPossible_def membership_def)
    show "okRun (minioGroupBinding_update (cl_rec c) gb) w1 (\<lambda>_. R)"
      by (rule okRun_weaken [OF minioGroupBinding_update_drift [OF assms(1) w1(1) assms(3,5) g refl]])
        (use assms(6,9) w1 in \<open>simp add: R_def\<close>)
  qed
  moreover define w1 where "w1 = stepOf minioGroupBindingReconciler_Reconcile c w"
  ultimately obtain y where t: "cl_tenant c w1 = dropMember (membership cs) (cl_tenant c w)" and y: "cl_store c w1 = Some y" "memberNamed ?n y"
      "heldOnly (gb_ObjectMeta y)" "timeIsZero (om_DeletionTimestamp (gb_ObjectMeta y))"
      "\<not> groupBindingStatusSet y" "\<not> gbs_Migrate (gb_Spec y)"
    using assms(3,4) unfolding R_def
    by (auto simp: stored_def heldOnly_stored memberNamed_def groupBindingStatusSet_def)
  obtain j where k: "k = Suc j" "1 \<le> j" using assms(7) by (cases k) auto
  have "w' = passes minioGroupBindingReconciler_Reconcile c j w1"
    by (simp add: assms(8) k(1) w1_def funpow_Suc_right del: funpow.simps(2))
  note r = member_settling.held_passes [OF assms(1) y k(2) this]
  have "memberPossible False ?n (cl_tenant c w1)" using assms(11) by (simp add: t memberPossible_def dropMember_def)
  note r = r [OF this]
  have rest: "ts_members (cl_tenant c w1) = rest" by (simp add: t dropMember_def assms(9))
  from r have "?n \<in> ts_members (cl_tenant c w')" "ts_members (cl_tenant c w') - {?n} = rest - {?n}"
    by (simp_all add: memberPresent_def otherMembers_eq rest)
  moreover have "stored c (\<lambda>y. memberNamed ?n y \<and> (groupBindingStatusSet y \<longleftrightarrow> ?n \<notin> rest)) w'"
    using r by (simp add: memberPresent_def rest)
  ultimately show ?thesis by blast
qed

theorem group_binding_moves_witness:
  "set (td_members (snd (passes minioGroupBindingReconciler_Reconcile membersCluster 2
     (Some (movedBinding False), memberData [(''g'', ''old''), (''g'', ''v'')])))) = {(''g'', ''u''), (''g'', ''v'')} \<and>
   stored membersCluster (\<lambda>y. \<not> groupBindingStatusSet y)
     (passes minioGroupBindingReconciler_Reconcile membersCluster 5
       (Some (movedBinding True), memberData [(''g'', ''old''), (''g'', ''u'')]))"
proof
  show "set (td_members (snd (passes minioGroupBindingReconciler_Reconcile membersCluster 2
     (Some (movedBinding False), memberData [(''g'', ''old''), (''g'', ''v'')])))) = {(''g'', ''u''), (''g'', ''v'')}"
    using group_binding_moves [OF quietMembers_cluster [of id], of
        "(Some (movedBinding False), memberData [(''g'', ''old''), (''g'', ''v'')])" "movedBinding False" _ 2,
        OF _ _ _ _ _ _ refl refl]
    by (auto simp: movedBinding_simps)
  show "stored membersCluster (\<lambda>y. \<not> groupBindingStatusSet y)
     (passes minioGroupBindingReconciler_Reconcile membersCluster 5
       (Some (movedBinding True), memberData [(''g'', ''old''), (''g'', ''u'')]))"
    using group_binding_moves [OF quietMembers_cluster [of id], of
        "(Some (movedBinding True), memberData [(''g'', ''old''), (''g'', ''u'')])" "movedBinding True" _ 5,
        OF _ _ _ _ _ _ refl refl]
    by (auto simp: movedBinding_simps stored_def)
qed

end
