(* ===== verification/Policy_Hash.thy ===== *)
theory Policy_Hash
  imports Policy_Json "HOL-Library.Multiset" "HOL-Library.List_Lexorder" "HOL-Library.Char_ord"
begin

text \<open>
  \<open>getHash\<close> of \<open>minio_policy_reconciler.go\<close>, by which the policy and access key reconcilers decide
  whether a policy has changed: the sorted fields are joined with commas and bars and digested. The
  digest \<open>sha512.New512_256\<close> is the parameter \<open>sha\<close>. The lemmas show when two policies have the same
  hash: reordering never changes it, and for policies whose strings hold no separator, equal hashes
  mean equal content up to order, unless the digest collides.
\<close>

definition statementPreimage :: "MinioPolicyStatement \<Rightarrow> string" where
  "statementPreimage mpst = joinStrings ''|''
     [joinStrings '','' (sort (elems (ps_Action mpst))),
      ps_Effect mpst,
      joinStrings '','' (sort (elems (ps_Resource mpst)))]"

definition getHashStatement :: "(string \<Rightarrow> string) \<Rightarrow> MinioPolicyStatement \<Rightarrow> string" where
  "getHashStatement sha mpst = sha (statementPreimage mpst)"

definition policyPreimage :: "(string \<Rightarrow> string) \<Rightarrow> string \<Rightarrow> MinioPolicyStatement list \<Rightarrow> string" where
  "policyPreimage sha version statement = joinStrings ''|''
     [version, joinStrings '','' (sort (map (getHashStatement sha) statement))]"

definition getHashPolicySpec :: "(string \<Rightarrow> string) \<Rightarrow> MinioPolicySpec \<Rightarrow> string" where
  "getHashPolicySpec sha mps =
     sha (policyPreimage sha (pos_Version mps) (elems (pos_Statement mps)))"

definition getHashAccessKeyPolicy :: "(string \<Rightarrow> string) \<Rightarrow> MinioAccessKeyPolicy \<Rightarrow> string" where
  "getHashAccessKeyPolicy sha makp =
     sha (policyPreimage sha (akp_Version makp) (elems (akp_Statement makp)))"

section \<open>What the preimages determine\<close>

lemma sort_eq_iff_mset: "sort xs = sort ys \<longleftrightarrow> mset xs = mset ys"
  by (metis mset_sort properties_for_sort sorted_sort)

lemma joinStrings_Cons: "joinStrings sep (x # ys) = (if ys = [] then x else x @ sep @ joinStrings sep ys)"
  by (cases ys) simp_all

lemma split_at_sep:
  "c \<notin> set x \<Longrightarrow> c \<notin> set y \<Longrightarrow> x @ c # u = y @ c # v \<Longrightarrow> x = y \<and> u = v"
proof (induction x arbitrary: y)
  case Nil
  then show ?case by (cases y) auto
next
  case (Cons a x)
  then show ?case by (cases y) auto
qed

text \<open>Joining is injective on lists of non-empty strings that do not hold the separator.\<close>

lemma joinStrings_inj:
  assumes "joinStrings [c] xs = joinStrings [c] ys"
    and "\<forall>x \<in> set xs \<union> set ys. x \<noteq> [] \<and> c \<notin> set x"
  shows "xs = ys"
  using assms
proof (induction xs arbitrary: ys)
  case Nil
  then show ?case by (cases ys) (auto simp: joinStrings_Cons split: if_splits)
next
  case (Cons x xs)
  from Cons.prems obtain y ys' where ys: "ys = y # ys'"
    by (cases ys) (auto simp: joinStrings_Cons split: if_splits)
  have nc: "c \<notin> set x" "c \<notin> set y" using Cons.prems(2) ys by auto
  consider "xs = []" "ys' = []" | "xs \<noteq> []" "ys' \<noteq> []"
    | "xs = []" "ys' \<noteq> []" | "xs \<noteq> []" "ys' = []" by blast
  then show ?case
  proof cases
    case 1
    then show ?thesis using Cons.prems(1) ys by simp
  next
    case 2
    then have "x @ c # joinStrings [c] xs = y @ c # joinStrings [c] ys'"
      using Cons.prems(1) ys by (simp add: joinStrings_Cons)
    then have "x = y \<and> joinStrings [c] xs = joinStrings [c] ys'"
      using split_at_sep [OF nc] by blast
    then show ?thesis using Cons.IH Cons.prems(2) ys by auto
  next
    case 3
    then have "x = y @ c # joinStrings [c] ys'"
      using Cons.prems(1) ys by (simp add: joinStrings_Cons)
    then show ?thesis using nc by auto
  next
    case 4
    then have "y = x @ c # joinStrings [c] xs"
      using Cons.prems(1) ys by (simp add: joinStrings_Cons)
    then show ?thesis using nc by auto
  qed
qed

text \<open>Joining is injective on lists of strings of one positive length (digests).\<close>

lemma joinStrings_inj_length:
  assumes "joinStrings [c] xs = joinStrings [c] ys"
    and "\<forall>x \<in> set xs \<union> set ys. length x = k" and "0 < k"
  shows "xs = ys"
  using assms(1,2)
proof (induction xs arbitrary: ys)
  case Nil
  then show ?case using \<open>0 < k\<close>
    by (cases ys) (auto simp: joinStrings_Cons split: if_splits)
next
  case (Cons x xs)
  from Cons.prems \<open>0 < k\<close> obtain y ys' where ys: "ys = y # ys'"
    by (cases ys) (auto simp: joinStrings_Cons split: if_splits)
  have len: "length x = length y" using Cons.prems(2) ys by simp
  then show ?case
    using Cons.prems(1) Cons.IH [of ys'] Cons.prems(2) ys
    by (auto simp: joinStrings_Cons split: if_splits)
qed

definition sepFree :: "string \<Rightarrow> bool" where
  "sepFree s \<longleftrightarrow> s \<noteq> [] \<and> CHR '','' \<notin> set s \<and> CHR ''|'' \<notin> set s"

definition cleanStatement :: "MinioPolicyStatement \<Rightarrow> bool" where
  "cleanStatement ps \<longleftrightarrow> list_all sepFree (elems (ps_Action ps)) \<and>
     list_all sepFree (elems (ps_Resource ps)) \<and> CHR ''|'' \<notin> set (ps_Effect ps)"

text \<open>The content of a statement up to the order of its actions and resources.\<close>

definition statementContent ::
  "MinioPolicyStatement \<Rightarrow> string multiset \<times> string \<times> string multiset" where
  "statementContent ps = (mset (elems (ps_Action ps)), ps_Effect ps, mset (elems (ps_Resource ps)))"

lemma statementPreimage_cong:
  "statementContent a = statementContent b \<Longrightarrow> statementPreimage a = statementPreimage b"
  by (simp add: statementContent_def statementPreimage_def sort_eq_iff_mset [symmetric])

lemma set_joinStrings: "set (joinStrings sep xs) \<subseteq> set sep \<union> \<Union> (set ` set xs)"
  by (induction xs) (auto simp: joinStrings_Cons)

lemma bar_notin_join:
  assumes "list_all sepFree xs"
  shows "CHR ''|'' \<notin> set (joinStrings '','' (sort xs))"
  using set_joinStrings [of "'',''" "sort xs"] assms
  by (auto simp: sepFree_def list_all_iff)

lemma join_sort_inj:
  assumes "joinStrings '','' (sort xs) = joinStrings '','' (sort ys)"
    and "list_all sepFree xs" and "list_all sepFree ys"
  shows "mset xs = mset ys"
proof -
  have "sort xs = sort ys"
    by (rule joinStrings_inj [OF assms(1)]) (use assms(2,3) in \<open>auto simp: sepFree_def list_all_iff\<close>)
  then show ?thesis by (simp add: sort_eq_iff_mset)
qed

lemma statementPreimage_inj:
  assumes "statementPreimage a = statementPreimage b" and "cleanStatement a" and "cleanStatement b"
  shows "statementContent a = statementContent b"
proof -
  let ?ja = "joinStrings '','' (sort (elems (ps_Action a)))"
  let ?jb = "joinStrings '','' (sort (elems (ps_Action b)))"
  let ?ra = "joinStrings '','' (sort (elems (ps_Resource a)))"
  let ?rb = "joinStrings '','' (sort (elems (ps_Resource b)))"
  have eq: "?ja @ CHR ''|'' # ps_Effect a @ CHR ''|'' # ?ra
      = ?jb @ CHR ''|'' # ps_Effect b @ CHR ''|'' # ?rb"
    using assms(1) by (simp add: statementPreimage_def)
  have bars: "CHR ''|'' \<notin> set ?ja" "CHR ''|'' \<notin> set ?jb" "CHR ''|'' \<notin> set (ps_Effect a)"
    "CHR ''|'' \<notin> set (ps_Effect b)"
    using assms(2,3) by (simp_all add: cleanStatement_def bar_notin_join)
  have 1: "?ja = ?jb \<and> ps_Effect a @ CHR ''|'' # ?ra = ps_Effect b @ CHR ''|'' # ?rb"
    using split_at_sep [OF bars(1,2) eq] .
  then have 2: "ps_Effect a = ps_Effect b \<and> ?ra = ?rb"
    using split_at_sep [OF bars(3,4)] by blast
  show ?thesis
    using 1 2 assms(2,3) by (auto simp: statementContent_def cleanStatement_def intro: join_sort_inj)
qed

lemma policyPreimage_cong:
  assumes "image_mset statementContent (mset xs) = image_mset statementContent (mset ys)"
  shows "policyPreimage sha v xs = policyPreimage sha v ys"
proof -
  define h where "h = (\<lambda>(as, ef, rs). sha (joinStrings ''|''
     [joinStrings '','' (sorted_list_of_multiset as), ef,
      joinStrings '','' (sorted_list_of_multiset rs)]))"
  have h: "getHashStatement sha = h \<circ> statementContent"
    by (rule ext) (simp add: h_def getHashStatement_def statementPreimage_def statementContent_def)
  have "image_mset (getHashStatement sha) (mset xs) = image_mset h (image_mset statementContent (mset xs))"
    by (simp add: h multiset.map_comp)
  also have "\<dots> = image_mset h (image_mset statementContent (mset ys))"
    by (simp only: assms)
  also have "\<dots> = image_mset (getHashStatement sha) (mset ys)"
    by (simp add: h multiset.map_comp)
  finally have "sort (map (getHashStatement sha) xs) = sort (map (getHashStatement sha) ys)"
    by (simp add: sort_eq_iff_mset)
  then show ?thesis by (simp add: policyPreimage_def)
qed

lemma policyPreimage_inj:
  assumes "policyPreimage sha v xs = policyPreimage sha w ys"
    and "CHR ''|'' \<notin> set v" and "CHR ''|'' \<notin> set w"
    and "\<And>s. s \<in> set xs \<union> set ys \<Longrightarrow> length (getHashStatement sha s) = 32"
  shows "v = w \<and> mset (map (getHashStatement sha) xs) = mset (map (getHashStatement sha) ys)"
proof -
  let ?jx = "joinStrings '','' (sort (map (getHashStatement sha) xs))"
  let ?jy = "joinStrings '','' (sort (map (getHashStatement sha) ys))"
  have "v @ CHR ''|'' # ?jx = w @ CHR ''|'' # ?jy"
    using assms(1) by (simp add: policyPreimage_def)
  then have eq: "v = w \<and> ?jx = ?jy" by (rule split_at_sep [OF assms(2,3)])
  have "sort (map (getHashStatement sha) xs) = sort (map (getHashStatement sha) ys)"
    by (rule joinStrings_inj_length [where k = 32, OF conjunct2 [OF eq]])
      (use assms(4) in auto)
  then show ?thesis using eq by (simp add: sort_eq_iff_mset)
qed

lemma image_mset_factor:
  assumes "image_mset f M = image_mset f N"
    and "\<And>x y. x \<in># M + N \<Longrightarrow> y \<in># M + N \<Longrightarrow> f x = f y \<Longrightarrow> h x = h y"
  shows "image_mset h M = image_mset h N"
proof -
  define k where "k z = h (SOME x. x \<in># M + N \<and> f x = z)" for z
  have k: "h x = k (f x)" if "x \<in># M + N" for x
  proof -
    let ?y = "SOME y. y \<in># M + N \<and> f y = f x"
    have "?y \<in># M + N \<and> f ?y = f x"
      using that by (intro someI [where P = "\<lambda>y. y \<in># M + N \<and> f y = f x"]) simp
    then have "h x = h ?y" by (intro assms(2) that) simp_all
    then show ?thesis by (simp add: k_def)
  qed
  have "image_mset h M = image_mset k (image_mset f M)"
    by (simp add: multiset.map_comp) (rule image_mset_cong, simp add: k)
  also have "\<dots> = image_mset k (image_mset f N)" by (simp only: assms(1))
  also have "\<dots> = image_mset h N"
    by (simp add: multiset.map_comp) (rule image_mset_cong, simp add: k)
  finally show ?thesis .
qed

section \<open>Properties\<close>

text \<open>No action at all and one action that is the empty string are hashed alike.\<close>

lemma getHashStatement_empty_action:
  "getHashStatement sha (ps\<lparr>ps_Action := Slice [[]]\<rparr>) = getHashStatement sha (ps\<lparr>ps_Action := NilSlice\<rparr>)"
  by (simp add: getHashStatement_def statementPreimage_def)

text \<open>
  A policy is clean when no action or resource of it is empty or holds a separator, a comma or a bar,
  and no effect and not the version holds a bar; \<open>digestApart\<close>: the digest does not collide on what two
  policies feed into it.
\<close>

definition cleanPolicy :: "MinioPolicySpec \<Rightarrow> bool" where
  "cleanPolicy p \<longleftrightarrow> CHR ''|'' \<notin> set (pos_Version p) \<and> list_all cleanStatement (elems (pos_Statement p))"

definition digestInputs :: "(string \<Rightarrow> string) \<Rightarrow> MinioPolicySpec \<Rightarrow> string list" where
  "digestInputs sha p = policyPreimage sha (pos_Version p) (elems (pos_Statement p)) #
     map statementPreimage (elems (pos_Statement p))"

definition digestApart :: "(string \<Rightarrow> string) \<Rightarrow> MinioPolicySpec \<Rightarrow> MinioPolicySpec \<Rightarrow> bool" where
  "digestApart sha p q \<longleftrightarrow> (let xs = digestInputs sha p @ digestInputs sha q in
     list_all (\<lambda>x. length (sha x) = 32 \<and> list_all (\<lambda>y. sha x = sha y \<longrightarrow> x = y) xs) xs)"

lemma digestApartD:
  assumes "digestApart sha p q" and "x \<in> set (digestInputs sha p @ digestInputs sha q)"
  shows "length (sha x) = 32"
    and "y \<in> set (digestInputs sha p @ digestInputs sha q) \<Longrightarrow> sha x = sha y \<Longrightarrow> x = y"
  using assms unfolding digestApart_def Let_def list_all_iff by blast+

text \<open>
  C24 - The policy hash decides equality of policies: two specs have the same hash exactly if they have the same version
  and, in any order and with actions and resources in any order, the same statements. This is for policies
  whose actions and resources are not empty strings and hold no comma and no bar, and whose effects and version
  hold no bar (without that it fails: no action at all and one that is the empty string are hashed
  alike), and for a digest that does not collide on the two.
\<close>

theorem getHashPolicySpec_iff:
  assumes "cleanPolicy p" and "cleanPolicy q" and "digestApart sha p q"
  shows "getHashPolicySpec sha p = getHashPolicySpec sha q \<longleftrightarrow>
    pos_Version p = pos_Version q \<and>
    image_mset statementContent (mset (elems (pos_Statement p))) =
    image_mset statementContent (mset (elems (pos_Statement q)))"
proof
  note apart = digestApartD [OF assms(3)]
  let ?xs = "elems (pos_Statement p)" and ?ys = "elems (pos_Statement q)"
  assume "getHashPolicySpec sha p = getHashPolicySpec sha q"
  then have pre: "policyPreimage sha (pos_Version p) ?xs = policyPreimage sha (pos_Version q) ?ys"
    using apart(2) [of "policyPreimage sha (pos_Version p) ?xs" "policyPreimage sha (pos_Version q) ?ys"]
    unfolding getHashPolicySpec_def digestInputs_def by simp
  have len: "length (getHashStatement sha s) = 32" if "s \<in> set ?xs \<union> set ?ys" for s
    unfolding getHashStatement_def by (rule apart(1)) (use that in \<open>auto simp: digestInputs_def\<close>)
  have "CHR ''|'' \<notin> set (pos_Version p)" "CHR ''|'' \<notin> set (pos_Version q)"
    using assms(1,2) by (simp_all add: cleanPolicy_def)
  from policyPreimage_inj [OF pre this len]
  have version: "pos_Version p = pos_Version q"
    and hashes: "image_mset (getHashStatement sha) (mset ?xs) = image_mset (getHashStatement sha) (mset ?ys)"
    by simp_all
  have "image_mset statementContent (mset ?xs) = image_mset statementContent (mset ?ys)"
  proof (rule image_mset_factor [OF hashes])
    fix s t assume st: "s \<in># mset ?xs + mset ?ys" "t \<in># mset ?xs + mset ?ys"
      and "getHashStatement sha s = getHashStatement sha t"
    then have "statementPreimage s = statementPreimage t"
      using apart(2) [of "statementPreimage s" "statementPreimage t"]
      unfolding getHashStatement_def digestInputs_def by auto
    then show "statementContent s = statementContent t"
      by (rule statementPreimage_inj)
        (use st assms(1,2) in \<open>auto simp: cleanPolicy_def list_all_iff\<close>)
  qed
  with version show "pos_Version p = pos_Version q \<and>
      image_mset statementContent (mset ?xs) = image_mset statementContent (mset ?ys)" by simp
next
  assume "pos_Version p = pos_Version q \<and>
    image_mset statementContent (mset (elems (pos_Statement p))) =
    image_mset statementContent (mset (elems (pos_Statement q)))"
  then show "getHashPolicySpec sha p = getHashPolicySpec sha q"
    unfolding getHashPolicySpec_def by (metis policyPreimage_cong)
qed

definition hashSample :: "string list \<Rightarrow> MinioPolicySpec" where
  "hashSample rs = emptyPolicySpec\<lparr>pos_Version := ''1'', pos_Statement := Slice
     [\<lparr>ps_Action = Slice [''s''], ps_Effect = ''E'', ps_Resource = Slice rs\<rparr>]\<rparr>"

definition padDigest :: "string \<Rightarrow> string" where
  "padDigest s = take 32 (s @ replicate 32 (CHR ''0''))"

theorem getHashPolicySpec_iff_witness:
  "getHashPolicySpec padDigest (hashSample [''a'', ''b'']) = getHashPolicySpec padDigest (hashSample [''b'', ''a''])
   \<and> getHashPolicySpec padDigest (hashSample [''a'']) \<noteq> getHashPolicySpec padDigest (hashSample [''b''])"
proof -
  have apart: "digestApart padDigest (hashSample [''a'', ''b'']) (hashSample [''b'', ''a''])"
    "digestApart padDigest (hashSample [''a'']) (hashSample [''b''])"
    by (simp_all add: digestApart_def digestInputs_def hashSample_def policyPreimage_def
        getHashStatement_def statementPreimage_def padDigest_def less_list_code numeral_eq_Suc)
  have clean: "cleanPolicy (hashSample [''a'', ''b''])" "cleanPolicy (hashSample [''b'', ''a''])"
    "cleanPolicy (hashSample [''a''])" "cleanPolicy (hashSample [''b''])"
    by (simp_all add: cleanPolicy_def hashSample_def cleanStatement_def sepFree_def emptyPolicySpec_def)
  show ?thesis
    using getHashPolicySpec_iff [OF clean(1,2) apart(1)] getHashPolicySpec_iff [OF clean(3,4) apart(2)]
    by (simp add: hashSample_def statementContent_def)
qed

end
