(* ===== verification/Policy_Reconciler.thy ===== *)
theory Policy_Reconciler
  imports Tenant_State Policy_Hash
begin

text \<open>
  \<open>minio_policy_reconciler.go\<close>: a canned policy of the tenant. The update compares statement and
  version by \<open>reflect.DeepEqual\<close> with the spec, and by \<open>getHash\<close> with what the tenant holds.
\<close>

definition setPolicyCurrent :: "MinioPolicy \<Rightarrow> MinioPolicySpec option \<Rightarrow> MinioPolicy" where
  "setPolicyCurrent p cs = p\<lparr>p_Status := (p_Status p)\<lparr>post_CurrentSpec := cs\<rparr>\<rparr>"

definition policyCurrent :: "MinioPolicy \<Rightarrow> MinioPolicySpec option" where
  "policyCurrent p = post_CurrentSpec (p_Status p)"

definition policyNamespace :: "MinioPolicy \<Rightarrow> string" where
  "policyNamespace p = om_Namespace (p_ObjectMeta p)"

definition minioPolicy_delete ::
  "('w, MinioPolicy) reconciler \<Rightarrow> MinioPolicy \<Rightarrow> ('w, MinioPolicy call, Result) m" where
  "minioPolicy_delete r p =
     (case policyCurrent p of
        Some cs \<Rightarrow>
          bindM (getAdminClient r (pos_TenantRef cs) (policyNamespace p)) (\<lambda>mtac.
          bindM (mutate (r_env r) mtac (RemoveCannedPolicy (pos_Name cs))) (\<lambda>_.
          bindM (updateObj r (setPolicyCurrent p None)) (\<lambda>p.
          success r)))
      | None \<Rightarrow>
          bindM (updateObj r (p\<lparr>p_ObjectMeta :=
            removeFinalizer (lib (r_env r)) (p_ObjectMeta p) finalizer\<rparr>)) (\<lambda>p.
          success r))"

definition minioPolicy_addFinalizer ::
  "('w, MinioPolicy) reconciler \<Rightarrow> MinioPolicy \<Rightarrow> ('w, MinioPolicy call, Result) m" where
  "minioPolicy_addFinalizer r p =
     bindM (updateObj r (p\<lparr>p_ObjectMeta :=
       addFinalizer (lib (r_env r)) (p_ObjectMeta p) finalizer\<rparr>)) (\<lambda>p.
     success r)"

definition minioPolicy_removeMigrate ::
  "('w, MinioPolicy) reconciler \<Rightarrow> MinioPolicy \<Rightarrow> ('w, MinioPolicy call, MinioPolicy) m" where
  "minioPolicy_removeMigrate r p =
     (if pos_Migrate (p_Spec p) then
        updateObj r (p\<lparr>p_Spec := (p_Spec p)\<lparr>pos_Migrate := False\<rparr>\<rparr>)
      else ret p)"

text \<open>The rest of the update, once the tenant has described its policy (\<open>mp\<close> holds its document).\<close>

definition minioPolicy_sync ::
  "('w, MinioPolicy) reconciler \<Rightarrow> handle \<Rightarrow> MinioPolicy \<Rightarrow> MinioPolicySpec \<Rightarrow> doc option
    \<Rightarrow> ('w, MinioPolicy call, Result) m" where
  "minioPolicy_sync r mtac p cs mp =
     (let E = r_env r; sha = sha512_256 (lib E) in
     if pos_Version cs \<noteq> pos_Version (p_Spec p) \<or> pos_Statement cs \<noteq> pos_Statement (p_Spec p) then
       bindM (liftE (marshalPolicy (pos_Statement (p_Spec p)) (pos_Version (p_Spec p)))) (\<lambda>pd.
       bindM (mutate E mtac (AddCannedPolicy (pos_Name cs) pd)) (\<lambda>_.
       bindM (updateObj r (setPolicyCurrent p (Some (cs\<lparr>
         pos_Statement := pos_Statement (p_Spec p), pos_Version := pos_Version (p_Spec p)\<rparr>)))) (\<lambda>p.
       success r)))
     else
       bindM (deref mp) (\<lambda>policy.
       bindM (liftE (unmarshalPolicySpec policy)) (\<lambda>mps.
       if getHashPolicySpec sha mps \<noteq> getHashPolicySpec sha cs then
         bindM (liftE (marshalPolicy (pos_Statement cs) (pos_Version cs))) (\<lambda>pd.
         bindM (mutate E mtac (AddCannedPolicy (pos_Name cs) pd)) (\<lambda>_.
         success r))
       else success r)))"

definition minioPolicy_update ::
  "('w, MinioPolicy) reconciler \<Rightarrow> MinioPolicy \<Rightarrow> ('w, MinioPolicy call, Result) m" where
  "minioPolicy_update r p =
     bindM (minioPolicy_removeMigrate r p) (\<lambda>p.
     bindM (deref (policyCurrent p)) (\<lambda>cs.
     bindM (getAdminClient r (pos_TenantRef cs) (policyNamespace p)) (\<lambda>mtac.
     bindM (attempt (queryM mtac (InfoCannedPolicyV2 (pos_Name cs))
       (\<lambda>w. e_InfoCannedPolicyV2 (r_env r) w mtac (pos_Name cs)))) (\<lambda>x.
     let e = (\<not> isMadminErrorCode (errOf x) ''XMinioAdminNoSuchPolicy'');
         err = ignoreMadminErrorCode (errOf x) ''XMinioAdminNoSuchPolicy'' in
     bindM (checkErr err) (\<lambda>_.
     if \<not> e then
       bindM (updateObj r (setPolicyCurrent p None)) (\<lambda>p.
       success r)
     else minioPolicy_sync r mtac p cs (valOf x))))))"

text \<open>
  The creation looks the policy up first. The error of the lookup is returned only in the branch
  that replaced it (\<open>exists && !p.Spec.Migrate\<close>); any other lookup error is dropped.
\<close>

definition minioPolicy_create ::
  "('w, MinioPolicy) reconciler \<Rightarrow> MinioPolicy \<Rightarrow> ('w, MinioPolicy call, Result) m" where
  "minioPolicy_create r p =
     (let spec = p_Spec p in
     bindM (getAdminClient r (pos_TenantRef spec) (policyNamespace p)) (\<lambda>mtac.
     bindM (attempt (queryM mtac (InfoCannedPolicyV2 (pos_Name spec))
       (\<lambda>w. e_InfoCannedPolicyV2 (r_env r) w mtac (pos_Name spec)))) (\<lambda>x.
     let exists = (errOf x = None);
         err = (if exists \<and> \<not> pos_Migrate spec
                then Some (GoErr (''policy '' @ pos_Name spec @ '' already exists'')) else errOf x);
         err = ignoreMadminErrorCode err ''XMinioAdminNoSuchPolicy'' in
     bindM (if exists \<and> \<not> pos_Migrate spec then checkErr err else ret ()) (\<lambda>_.
     bindM (liftE (marshalPolicy (pos_Statement spec) (pos_Version spec))) (\<lambda>pd.
     bindM (mutate (r_env r) mtac (AddCannedPolicy (pos_Name spec) pd)) (\<lambda>_.
     let spec = spec\<lparr>pos_Migrate := False\<rparr> in
     bindM (updateObj r (setPolicyCurrent (p\<lparr>p_Spec := spec\<rparr>) (Some spec))) (\<lambda>p.
     success r)))))))"

definition minioPolicy_pass ::
  "('w, MinioPolicy) reconciler \<Rightarrow> NamespacedName \<Rightarrow> MinioPolicy
    \<Rightarrow> ('w, MinioPolicy call, Result) m" where
  "minioPolicy_pass r req p =
     (if \<not> timeIsZero (om_DeletionTimestamp (p_ObjectMeta p)) then minioPolicy_delete r p
      else if \<not> containsFinalizer (lib (r_env r)) (p_ObjectMeta p) finalizer then
        minioPolicy_addFinalizer r p
      else (case policyCurrent p of
              Some _ \<Rightarrow> minioPolicy_update r p
            | None \<Rightarrow> minioPolicy_create r p))"

definition minioPolicyReconciler_Reconcile ::
  "('w, MinioPolicy) reconciler \<Rightarrow> NamespacedName \<Rightarrow> ('w, MinioPolicy call, Result) m" where
  "minioPolicyReconciler_Reconcile r req =
     bindM (attempt (getObj r req)) (\<lambda>x.
     (case x of Inl err \<Rightarrow> getFailed r err | Inr p \<Rightarrow> minioPolicy_pass r req p))"

section \<open>The contract\<close>

definition policyStatusSet :: "MinioPolicy \<Rightarrow> bool" where
  "policyStatusSet p \<longleftrightarrow> policyCurrent p \<noteq> None"

definition policySame :: "MinioPolicy \<Rightarrow> MinioPolicy \<Rightarrow> bool" where
  "policySame x y \<longleftrightarrow> metaStored (p_ObjectMeta x) (p_ObjectMeta y) \<and> p_Spec y = p_Spec x \<and>
     p_Status y = p_Status x"

lemma setPolicyCurrent_simps [simp]:
  "p_ObjectMeta (setPolicyCurrent p cs) = p_ObjectMeta p"
  "p_Spec (setPolicyCurrent p cs) = p_Spec p"
  "policyCurrent (setPolicyCurrent p cs) = cs"
  "policyCurrent (p\<lparr>p_ObjectMeta := m\<rparr>) = policyCurrent p"
  by (simp_all add: setPolicyCurrent_def policyCurrent_def)

lemma minioPolicy_removeMigrate_triple:
  assumes "profile P N (\<lambda>y. Q (p_ObjectMeta y))" and "survives r (\<lambda>y. Q (p_ObjectMeta y))"
    and "Q (p_ObjectMeta p)"
  shows "triple P N True (\<lambda>y. Q (p_ObjectMeta y)) (minioPolicy_removeMigrate r p)"
  unfolding minioPolicy_removeMigrate_def tenant_calls
  by (intro triple_intro triple_call triple_updateObj [OF assms(1,2)])
    (use assms in \<open>auto simp: profile_def\<close>)

lemma minioPolicy_sync_triple:
  assumes "profile P N (\<lambda>y. Q (p_ObjectMeta y))" and "survives r (\<lambda>y. Q (p_ObjectMeta y))"
    and "Q (p_ObjectMeta p)"
  shows "triple P N True (\<lambda>res. requeueAfter res = syncInterval r) (minioPolicy_sync r mtac p cs mp)"
  unfolding minioPolicy_sync_def tenant_calls success_def Let_def
  by (intro triple_intro triple_bind_updateObj [OF assms(1,2)])
    (use assms in \<open>auto simp: profile_def\<close>)

lemma minioPolicy_update_triple:
  assumes "profile P N (\<lambda>y. Q (p_ObjectMeta y))" and "survives r (\<lambda>y. Q (p_ObjectMeta y))"
    and "Q (p_ObjectMeta p)"
  shows "triple P N True (\<lambda>res. requeueAfter res = syncInterval r) (minioPolicy_update r p)"
  unfolding minioPolicy_update_def tenant_calls success_def Let_def
  by (intro triple_intro triple_bind_updateObj [OF assms(1,2)] minioPolicy_sync_triple [OF assms(1,2)]
      triple_bind [OF minioPolicy_removeMigrate_triple [OF assms]]
      triple_bind [OF getAdminClient_profile [OF assms(1)]])
    (use assms in \<open>auto simp: profile_def\<close>)

lemma minioPolicy_create_triple:
  assumes "profile P N (\<lambda>y. Q (p_ObjectMeta y))" and "survives r (\<lambda>y. Q (p_ObjectMeta y))"
    and "Q (p_ObjectMeta p)"
  shows "triple P N True (\<lambda>res. requeueAfter res = syncInterval r) (minioPolicy_create r p)"
  unfolding minioPolicy_create_def tenant_calls success_def Let_def
  by (intro triple_intro triple_bind_updateObj [OF assms(1,2)]
      triple_bind [OF getAdminClient_profile [OF assms(1)]])
    (use assms in \<open>auto simp: profile_def\<close>)

lemma minioPolicy_delete_safe:
  "finalizerLaws (lib (r_env r)) \<Longrightarrow>
   triple (updatesSafe (lib (r_env r)) p_ObjectMeta policyStatusSet) (\<lambda>_. True) True (\<lambda>_. True)
     (minioPolicy_delete r p)"
  unfolding minioPolicy_delete_def calls success_def
  by (intro triple_intro triple_bind [OF getAdminClient_triple])
    (auto simp: safeObj_def policyStatusSet_def)

lemma minioPolicy_delete_ok:
  "triple (\<lambda>_. True) updateOk True (\<lambda>res. requeueAfter res = syncInterval r) (minioPolicy_delete r p)"
  unfolding minioPolicy_delete_def calls success_def
  by (intro triple_intro triple_bind [OF getAdminClient_triple]) auto

interpretation policy: phased_reconciler minioPolicyReconciler_Reconcile minioPolicy_pass
  minioPolicy_delete minioPolicy_addFinalizer "\<lambda>r _. minioPolicy_update r"
  "\<lambda>r _. minioPolicy_create r" p_ObjectMeta "\<lambda>x m. x\<lparr>p_ObjectMeta := m\<rparr>" policyStatusSet policySame
  by unfold_locales
    (simp_all add: minioPolicyReconciler_Reconcile_def minioPolicy_pass_def policyStatusSet_def
      minioPolicy_addFinalizer_def policySame_def policyCurrent_def minioPolicy_delete_ok
      minioPolicy_update_triple minioPolicy_create_triple minioPolicy_delete_safe
      split: option.split)

section \<open>Properties\<close>

definition policyAdded :: "string \<Rightarrow> MinioPolicyStatement slice \<Rightarrow> string \<Rightarrow> MinioPolicy call event \<Rightarrow> bool" where
  "policyAdded name st v ev \<longleftrightarrow> (case marshalPolicy st v of
     Inl e \<Rightarrow> False | Inr pd \<Rightarrow> asked (AddCannedPolicy name pd) accepted ev)"

definition policyGone :: "MinioPolicySpec \<Rightarrow> MinioPolicy call event \<Rightarrow> bool" where
  "policyGone cs ev \<longleftrightarrow>
     asked (RemoveCannedPolicy (pos_Name cs)) accepted ev \<or>
     looked (InfoCannedPolicyV2 (pos_Name cs)) (\<lambda>e. isMadminErrorCode e ''XMinioAdminNoSuchPolicy'') ev"

text \<open>The object sent records exactly this statement and version.\<close>

definition recordsContent :: "MinioPolicyStatement slice \<Rightarrow> string \<Rightarrow> MinioPolicy \<Rightarrow> bool" where
  "recordsContent st v y \<longleftrightarrow> (case policyCurrent y of
     None \<Rightarrow> False | Some cs \<Rightarrow> pos_Statement cs = st \<and> pos_Version cs = v)"

definition sampleStatement :: MinioPolicyStatement where
  "sampleStatement = \<lparr>ps_Action = Slice [''s3:GetObject''], ps_Effect = ''Allow'',
     ps_Resource = Slice [''arn:aws:s3:::b/*'']\<rparr>"

definition samplePolicySpec :: MinioPolicySpec where
  "samplePolicySpec = \<lparr>pos_Migrate = False, pos_Name = ''p'', pos_Statement = Slice [sampleStatement],
     pos_TenantRef = sampleRef, pos_Version = ''2012-10-17''\<rparr>"

definition samplePolicy :: "MinioPolicySpec option \<Rightarrow> MinioPolicy" where
  "samplePolicy cs = \<lparr>p_TypeMeta = \<lparr>tm_Kind = ''MinioPolicy'', tm_APIVersion = ''v1''\<rparr>,
     p_ObjectMeta = heldMeta ''p'', p_Spec = samplePolicySpec,
     p_Status = \<lparr>post_Synced = None, post_CurrentSpec = cs\<rparr>\<rparr>"

lemma samplePolicy_simps [simp]:
  "policyCurrent (samplePolicy cs) = cs" "p_Spec (samplePolicy cs) = samplePolicySpec"
  "p_ObjectMeta (samplePolicy cs) = heldMeta ''p''" "\<not> pos_Migrate samplePolicySpec"
  "pos_Name samplePolicySpec = ''p''" "pos_TenantRef samplePolicySpec = sampleRef"
  by (simp_all add: samplePolicy_def policyCurrent_def samplePolicySpec_def)

lemma policySame_refl [simp]: "policySame p p"
  by (simp add: policySame_def)

lemma policyCurrent_Spec [simp]: "policyCurrent (p\<lparr>p_Spec := s\<rparr>) = policyCurrent p"
  by (simp add: policyCurrent_def)

lemma policySame_current:
  "updateStores policySame r \<Longrightarrow> r_Update r w x = (Inr y, w') \<Longrightarrow> policyCurrent y = policyCurrent x"
  by (drule (1) updateStores_same) (simp add: policySame_def policyCurrent_def)

lemmas minioPolicy_phases = minioPolicy_pass_def minioPolicy_delete_def minioPolicy_addFinalizer_def
  minioPolicy_update_def minioPolicy_sync_def minioPolicy_removeMigrate_def minioPolicy_create_def
  Let_def calls success_def

subsection \<open>The status is truthful\<close>

lemma minioPolicy_pass_records:
  assumes "policyCurrent p = None"
  shows "ordered (policyAdded (pos_Name (p_Spec p)) (pos_Statement (p_Spec p)) (pos_Version (p_Spec p)))
    (sent policyStatusSet) False (minioPolicy_pass r req p)"
  unfolding minioPolicy_phases assms option.case
  by (intro ordered_intro ordered_bind_quiet [OF getAdminClient_sent])
    (auto simp: policyStatusSet_def policyAdded_def assms)

lemma minioPolicy_pass_clears:
  assumes "updateStores policySame r" and "policyCurrent p = Some cs"
  shows "ordered (policyGone cs) (sent (\<lambda>y. \<not> policyStatusSet y)) False (minioPolicy_pass r req p)"
  unfolding minioPolicy_phases assms option.case
  by (intro ordered_intro ordered_bind_quiet [OF getAdminClient_sent])
    (auto simp: policyStatusSet_def assms policyGone_def dest!: policySame_current [OF assms(1)])

lemma minioPolicy_pass_content:
  assumes "updateStores policySame r" and "policyCurrent p = Some cs"
    and "pos_Statement cs \<noteq> st \<or> pos_Version cs \<noteq> v"
  shows "ordered (policyAdded (pos_Name cs) st v) (sent (recordsContent st v)) False
    (minioPolicy_pass r req p)"
  unfolding minioPolicy_phases assms option.case
  by (intro ordered_intro ordered_bind_quiet [OF getAdminClient_sent])
    (use assms(2,3) in \<open>auto simp: recordsContent_def policyAdded_def dest!: policySame_current [OF assms(1)]\<close>)

text \<open>
  C4 - A pass over a MinioPolicy is truthful: a spec is recorded only after the tenant has accepted
  the policy document made of its statement and version; a recorded statement or version changes only
  after the tenant has accepted the document of the new ones; and a recorded spec is cleared only
  after the tenant has removed the policy or has answered that there is none.
\<close>

theorem policy_status_truthful:
  assumes "updateStores policySame r" and "r_Get r w req = (Inr p, w1)"
  shows "(policyCurrent p = None \<longrightarrow>
      precededBy (policyAdded (pos_Name (p_Spec p)) (pos_Statement (p_Spec p)) (pos_Version (p_Spec p)))
        (sent policyStatusSet) (trace (minioPolicyReconciler_Reconcile r req) w)) \<and>
    (\<forall>cs. policyCurrent p = Some cs \<longrightarrow>
      precededBy (policyGone cs) (sent (\<lambda>y. \<not> policyStatusSet y))
        (trace (minioPolicyReconciler_Reconcile r req) w) \<and>
      (\<forall>st v. pos_Statement cs \<noteq> st \<or> pos_Version cs \<noteq> v \<longrightarrow>
        precededBy (policyAdded (pos_Name cs) st v) (sent (recordsContent st v))
          (trace (minioPolicyReconciler_Reconcile r req) w)))"
  using policy.reconcile_ordered [OF assms(2) minioPolicy_pass_records]
    policy.reconcile_ordered [OF assms(2) minioPolicy_pass_clears [OF assms(1)]]
    policy.reconcile_ordered [OF assms(2) minioPolicy_pass_content [OF assms(1)]] by simp

theorem policy_status_truthful_witness:
  "precededBy (policyAdded ''p'' (pos_Statement samplePolicySpec) (pos_Version samplePolicySpec))
    (sent policyStatusSet)
    (trace (minioPolicyReconciler_Reconcile (sampleReconciler (samplePolicy None)) sampleKey) ()) \<and>
   precededBy (policyGone samplePolicySpec) (sent (\<lambda>y. \<not> policyStatusSet y))
    (trace (minioPolicyReconciler_Reconcile (sampleReconciler (samplePolicy (Some samplePolicySpec)))
      sampleKey) ())"
  using policy_status_truthful [of "sampleReconciler (samplePolicy None)" "()" sampleKey
      "samplePolicy None" "()"]
    policy_status_truthful [of "sampleReconciler (samplePolicy (Some samplePolicySpec))" "()" sampleKey
      "samplePolicy (Some samplePolicySpec)" "()"]
  by (simp add: updateStores_sample)

subsection \<open>The steady state\<close>

text \<open>
  Whatever the tenant answers about the policy, its document has the hash of the recorded spec
  (\<open>policyHashAgrees\<close>), or the version and, up to the order of the statements and of the actions and
  resources in each, the statements of the recorded spec (\<open>policyAgrees\<close>).
\<close>

definition policyHashAgrees :: "'w env \<Rightarrow> MinioPolicySpec \<Rightarrow> bool" where
  "policyHashAgrees E cs \<longleftrightarrow> (\<forall>w h x w'. e_InfoCannedPolicyV2 E w h (pos_Name cs) = (x, w') \<longrightarrow>
     (\<exists>st v. x = marshalPolicy st v \<and> policyPreimage (sha512_256 (lib E)) v (elems st) =
       policyPreimage (sha512_256 (lib E)) (pos_Version cs) (elems (pos_Statement cs))))"

definition policyAgrees :: "'w env \<Rightarrow> MinioPolicySpec \<Rightarrow> bool" where
  "policyAgrees E cs \<longleftrightarrow> (\<forall>w h x w'. e_InfoCannedPolicyV2 E w h (pos_Name cs) = (x, w') \<longrightarrow>
     (\<exists>st. x = marshalPolicy st (pos_Version cs) \<and>
       image_mset statementContent (mset (elems st)) =
       image_mset statementContent (mset (elems (pos_Statement cs)))))"

lemma policyAgrees_hash: "policyAgrees E cs \<Longrightarrow> policyHashAgrees E cs"
  unfolding policyAgrees_def policyHashAgrees_def using policyPreimage_cong by blast

lemma minioPolicy_update_steady:
  assumes "policyCurrent p = Some cs" and "policyHashAgrees (r_env r) cs" and "\<not> pos_Migrate (p_Spec p)"
    and "pos_Statement (p_Spec p) = pos_Statement cs" and "pos_Version (p_Spec p) = pos_Version cs"
  shows "triple readOnly (\<lambda>_. True) True (\<lambda>_. True) (minioPolicy_update r p)"
proof -
  have agrees: "\<exists>d mps. x = Inr d \<and> unmarshalPolicySpec d = Inr mps \<and>
      getHashPolicySpec (sha512_256 (lib (r_env r))) mps = getHashPolicySpec (sha512_256 (lib (r_env r))) cs"
    if answer: "e_InfoCannedPolicyV2 (r_env r) w h (pos_Name cs) = (x, w')" for w h x w'
  proof -
    obtain st v where x: "x = marshalPolicy st v"
      and eq: "policyPreimage (sha512_256 (lib (r_env r))) v (elems st) =
       policyPreimage (sha512_256 (lib (r_env r))) (pos_Version cs) (elems (pos_Statement cs))"
      using assms(2) answer unfolding policyHashAgrees_def by blast
    obtain d where d: "marshalPolicy st v = Inr d" by (simp add: marshalPolicy_def)
    show ?thesis
      using x d eq unmarshal_marshal_policy [OF d] by (simp add: getHashPolicySpec_def)
  qed
  have client: "triple readOnly (\<lambda>_. True) True (\<lambda>_. True) (getAdminClient r rr ns)" for rr ns
    by (rule getAdminClient_triple) simp_all
  show ?thesis
    unfolding minioPolicy_update_def minioPolicy_removeMigrate_def minioPolicy_sync_def Let_def
      queryM_def success_def
    by (intro triple_intro triple_bind [OF client])
      (use assms in \<open>auto dest!: agrees\<close>)
qed

lemma minioPolicyReconciler_steady:
  assumes "r_Get r w req = (Inr p, w1)" and "policyCurrent p = Some cs"
    and "timeIsZero (om_DeletionTimestamp (p_ObjectMeta p))"
    and "containsFinalizer (lib (r_env r)) (p_ObjectMeta p) finalizer"
    and "policyHashAgrees (r_env r) cs" and "\<not> pos_Migrate (p_Spec p)"
    and "pos_Statement (p_Spec p) = pos_Statement cs" and "pos_Version (p_Spec p) = pos_Version cs"
  shows "list_all readOnly (trace (minioPolicyReconciler_Reconcile r req) w)"
proof -
  have "minioPolicy_pass r req p = minioPolicy_update r p"
    using assms(2-4) by (simp add: minioPolicy_pass_def)
  then show ?thesis
    using policy.reconcile_all [OF assms(1), of readOnly]
      minioPolicy_update_steady [OF assms(2,5-8)] by simp
qed

text \<open>
  A recorded policy whose statement and version agree with the spec is left alone as long as
  the tenant's document says the same, in whatever order it lists the statements, their actions and
  their resources: a pass writes nothing. In particular the documents the operator sends itself never
  look like a change to it.
\<close>

theorem policy_steady:
  assumes "r_Get r w req = (Inr p, w1)" and "policyCurrent p = Some cs"
    and "timeIsZero (om_DeletionTimestamp (p_ObjectMeta p))"
    and "containsFinalizer (lib (r_env r)) (p_ObjectMeta p) finalizer"
    and "policyAgrees (r_env r) cs" and "\<not> pos_Migrate (p_Spec p)"
    and "pos_Statement (p_Spec p) = pos_Statement cs" and "pos_Version (p_Spec p) = pos_Version cs"
  shows "list_all readOnly (trace (minioPolicyReconciler_Reconcile r req) w)"
  by (rule minioPolicyReconciler_steady [OF assms(1-4) policyAgrees_hash [OF assms(5)] assms(6-8)])

definition policyEnv :: "(goerr + doc) \<Rightarrow> unit env" where
  "policyEnv answer = sampleEnv\<lparr>e_InfoCannedPolicyV2 := \<lambda>w h n. (answer, w)\<rparr>"

lemma policyEnv_simps [simp]:
  "e_InfoCannedPolicyV2 (policyEnv answer) w h n = (answer, w)" "lib (policyEnv answer) = sampleLib"
  "e_Mutate (policyEnv answer) = e_Mutate sampleEnv"
  by (simp_all add: policyEnv_def)

theorem policy_steady_witness:
  "list_all readOnly (trace (minioPolicyReconciler_Reconcile
    (reconcilerIn (policyEnv (marshalPolicy (Slice [sampleStatement]) ''2012-10-17''))
      (samplePolicy (Some samplePolicySpec))) sampleKey) ())"
proof -
  have "policyAgrees (policyEnv (marshalPolicy (Slice [sampleStatement]) ''2012-10-17'')) samplePolicySpec"
    unfolding policyAgrees_def
    by (auto simp: samplePolicySpec_def intro!: exI [where x = "Slice [sampleStatement]"])
  then show ?thesis
    by (intro policy_steady [where p = "samplePolicy (Some samplePolicySpec)" and cs = samplePolicySpec])
      (simp_all add: timeIsZero_def)
qed

subsection \<open>Drift that is missed, and errors that are dropped\<close>

definition resourcesPolicy :: "string list \<Rightarrow> MinioPolicyStatement" where
  "resourcesPolicy rs = sampleStatement\<lparr>ps_Resource := Slice rs\<rparr>"

text \<open>
  Two different policies can have the same hash whatever the digest: the comma that joins the
  resources may also stand inside one. If the tenant holds a policy for the single resource a,b where
  the spec has the two resources a and b, the reconciler sees no difference and repairs nothing.
\<close>

theorem policy_collision_missed:
  assumes "r_Get r w req = (Inr p, w1)" and "policyCurrent p = Some cs"
    and "timeIsZero (om_DeletionTimestamp (p_ObjectMeta p))"
    and "containsFinalizer (lib (r_env r)) (p_ObjectMeta p) finalizer" and "p_Spec p = cs"
    and "\<not> pos_Migrate cs" and "pos_Statement cs = Slice [resourcesPolicy [''a'', ''b'']]"
    and "\<And>w h. fst (e_InfoCannedPolicyV2 (r_env r) w h (pos_Name cs)) =
      marshalPolicy (Slice [resourcesPolicy [''a,b'']]) (pos_Version cs)"
  shows "list_all readOnly (trace (minioPolicyReconciler_Reconcile r req) w) \<and>
    statementContent (resourcesPolicy [''a'', ''b'']) \<noteq> statementContent (resourcesPolicy [''a,b''])"
proof
  have "statementPreimage (resourcesPolicy [''a,b'']) = statementPreimage (resourcesPolicy [''a'', ''b''])"
    by (simp add: statementPreimage_def resourcesPolicy_def less_list_code)
  then have "policyPreimage sha v [resourcesPolicy [''a,b'']] = policyPreimage sha v [resourcesPolicy [''a'', ''b'']]"
    for sha v by (simp add: policyPreimage_def getHashStatement_def)
  then have "policyHashAgrees (r_env r) cs"
    using assms(7,8) unfolding policyHashAgrees_def by (metis elems.simps(2) fst_conv)
  then show "list_all readOnly (trace (minioPolicyReconciler_Reconcile r req) w)"
    by (intro minioPolicyReconciler_steady [OF assms(1-4)]) (simp_all add: assms(5,6))
  show "statementContent (resourcesPolicy [''a'', ''b'']) \<noteq> statementContent (resourcesPolicy [''a,b''])"
    by (simp add: statementContent_def resourcesPolicy_def)
qed

theorem policy_collision_missed_witness:
  "list_all readOnly (trace (minioPolicyReconciler_Reconcile
    (reconcilerIn (policyEnv (marshalPolicy (Slice [resourcesPolicy [''a,b'']]) ''2012-10-17''))
      ((samplePolicy (Some (samplePolicySpec\<lparr>pos_Statement := Slice [resourcesPolicy [''a'', ''b'']]\<rparr>)))
        \<lparr>p_Spec := samplePolicySpec\<lparr>pos_Statement := Slice [resourcesPolicy [''a'', ''b'']]\<rparr>\<rparr>)) sampleKey) ())"
proof -
  let ?cs = "samplePolicySpec\<lparr>pos_Statement := Slice [resourcesPolicy [''a'', ''b'']]\<rparr>"
  let ?p = "(samplePolicy (Some ?cs))\<lparr>p_Spec := ?cs\<rparr>"
  let ?E = "policyEnv (marshalPolicy (Slice [resourcesPolicy [''a,b'']]) ''2012-10-17'')"
  have "list_all readOnly (trace (minioPolicyReconciler_Reconcile (reconcilerIn ?E ?p) sampleKey) ()) \<and>
    statementContent (resourcesPolicy [''a'', ''b'']) \<noteq> statementContent (resourcesPolicy [''a,b''])"
    by (rule policy_collision_missed [where p = ?p and cs = ?cs])
      (simp_all add: timeIsZero_def samplePolicySpec_def samplePolicy_def policyCurrent_def)
  then show ?thesis by blast
qed

text \<open>
  C30 - The creation of a MinioPolicy drops the error of the lookup that is to protect an existing
  policy: whatever error the tenant answers (it may be busy, or deny the lookup), and although the
  spec does not ask to migrate, the operator goes on to write its own document over whatever policy
  has that name, and records it.
\<close>

theorem policy_lookup_error_dropped:
  assumes "r_Get r w req = (Inr p, w1)" and "policyCurrent p = None"
    and "timeIsZero (om_DeletionTimestamp (p_ObjectMeta p))"
    and "containsFinalizer (lib (r_env r)) (p_ObjectMeta p) finalizer"
    and "getAdminClient r (pos_TenantRef (p_Spec p)) (policyNamespace p) w1 = (Ok h, w2, t)"
    and "e_InfoCannedPolicyV2 (r_env r) w2 h (pos_Name (p_Spec p)) = (Inl err, w3)"
    and "marshalPolicy (pos_Statement (p_Spec p)) (pos_Version (p_Spec p)) = Inr pd"
    and "e_Mutate (r_env r) w3 h (AddCannedPolicy (pos_Name (p_Spec p)) pd) = (Inr (), w4)"
  shows "\<exists>y e. trace (minioPolicyReconciler_Reconcile r req) w = (Get req, None) # t @
      [(Query h (InfoCannedPolicyV2 (pos_Name (p_Spec p))), Some err),
       (Mutate h (AddCannedPolicy (pos_Name (p_Spec p)) pd), None), (Update y, e)] \<and> policyStatusSet y"
proof -
  let ?y = "setPolicyCurrent (p\<lparr>p_Spec := (p_Spec p)\<lparr>pos_Migrate := False\<rparr>\<rparr>)
    (Some ((p_Spec p)\<lparr>pos_Migrate := False\<rparr>))"
  have pass: "minioPolicy_pass r req p = minioPolicy_create r p"
    using assms(2-4) by (simp add: minioPolicy_pass_def)
  have "\<exists>e. trace (minioPolicy_create r p) w1 = t @
      [(Query h (InfoCannedPolicyV2 (pos_Name (p_Spec p))), Some err),
       (Mutate h (AddCannedPolicy (pos_Name (p_Spec p)) pd), None), (Update ?y, e)]"
    using assms(5-8) by (cases "r_Update r w4 ?y")
      (auto simp: minioPolicy_create_def Let_def trace_def prim calls success_def split: sum.split)
  then show ?thesis
    unfolding policy.reconcile_found(2) [OF assms(1)] pass by (auto simp: policyStatusSet_def)
qed

theorem policy_lookup_error_dropped_witness:
  "\<exists>h pd. (Mutate h (AddCannedPolicy ''p'' pd), None) \<in>
     set (trace (minioPolicyReconciler_Reconcile
       (reconcilerIn (policyEnv (Inl (MadminResp ''AccessDenied'' ''''))) (samplePolicy None)) sampleKey) ())"
proof -
  let ?E = "policyEnv (Inl (MadminResp ''AccessDenied'' ''''))"
  have "sampleInfra ?E" by (simp add: sampleInfra_def policyEnv_def)
  then obtain t where "getAdminClient (reconcilerIn ?E (samplePolicy None)) sampleRef ''ns'' ()
      = (Ok (Handle 0), (), t)"
    by (rule getAdminClient_sample)
  then have client: "getAdminClient (reconcilerIn ?E (samplePolicy None))
      (pos_TenantRef (p_Spec (samplePolicy None))) (policyNamespace (samplePolicy None)) ()
      = (Ok (Handle 0), (), t)"
    by (simp add: policyNamespace_def)
  obtain pd where pd: "marshalPolicy (pos_Statement samplePolicySpec) (pos_Version samplePolicySpec) = Inr pd"
    by (simp add: marshalPolicy_def)
  from policy_lookup_error_dropped [OF _ _ _ _ client, of "()" sampleKey "MadminResp ''AccessDenied'' ''''"
      "()" pd "()"] pd
  obtain y e where "trace (minioPolicyReconciler_Reconcile (reconcilerIn ?E (samplePolicy None)) sampleKey) ()
      = (Get sampleKey, None) # t @ [(Query (Handle 0) (InfoCannedPolicyV2 ''p''),
          Some (MadminResp ''AccessDenied'' '''')), (Mutate (Handle 0) (AddCannedPolicy ''p'' pd), None),
          (Update y, e)]"
    by (auto simp: timeIsZero_def sample)
  then have "(Mutate (Handle 0) (AddCannedPolicy ''p'' pd), None) \<in>
      set (trace (minioPolicyReconciler_Reconcile (reconcilerIn ?E (samplePolicy None)) sampleKey) ())"
    by simp
  then show ?thesis by blast
qed

subsection \<open>Repeated passes in a quiet cluster\<close>

text \<open>
  A policy is described by a document that parses to its content; adding one stores the content of the
  document sent, over an older one of the same name. A policy that is attached cannot be removed.
\<close>

definition quietPolicies :: "('w, MinioPolicy, tenantState) cluster \<Rightarrow> bool" where
  "quietPolicies c \<longleftrightarrow> quietApi p_ObjectMeta policySame c \<and> opensAdmin c \<and>
     (\<forall>w h n. answers (e_InfoCannedPolicyV2 (r_env (cl_rec c)) w h n) (\<lambda>x w'. keeps c w w' \<and>
        (case ts_policies (cl_tenant c w) n of
           None \<Rightarrow> isMadminErrorCode (errOf x) ''XMinioAdminNoSuchPolicy''
         | Some d \<Rightarrow> (\<exists>pd mps. x = Inr pd \<and> unmarshalPolicySpec pd = Inr mps \<and>
             (pos_Statement mps, pos_Version mps) = d)))) \<and>
     (\<forall>w h n st v pd. marshalPolicy st v = Inr pd \<longrightarrow>
        answers (e_Mutate (r_env (cl_rec c)) w h (AddCannedPolicy n pd))
          (\<lambda>x w'. x = Inr () \<and> moves c w (putPolicy n (st, v)) w')) \<and>
     (\<forall>w h n. n \<notin> (fst \<circ> snd) ` ts_attached (cl_tenant c w) \<longrightarrow>
        answers (e_Mutate (r_env (cl_rec c)) w h (RemoveCannedPolicy n))
        (\<lambda>x w'. x = Inr () \<and> moves c w (dropPolicy n) w')) \<and>
     (\<forall>w h n. n \<in> (fst \<circ> snd) ` ts_attached (cl_tenant c w) \<longrightarrow>
        answers (e_Mutate (r_env (cl_rec c)) w h (RemoveCannedPolicy n))
        (\<lambda>x w'. errOf x \<noteq> None \<and> keeps c w w'))"

definition contentHash :: "Lib \<Rightarrow> content \<Rightarrow> string" where
  "contentHash L d = sha512_256 L (policyPreimage (sha512_256 L) (snd d) (elems (fst d)))"

lemma getHashPolicySpec_content:
  "getHashPolicySpec (sha512_256 L) mps = contentHash L (pos_Statement mps, pos_Version mps)"
  by (simp add: getHashPolicySpec_def contentHash_def)

definition specContent :: "MinioPolicySpec \<Rightarrow> content" where
  "specContent spec = (pos_Statement spec, pos_Version spec)"

text \<open>A policy is given by its name and the content its spec asks for.\<close>

definition policyNamed :: "string \<times> content \<Rightarrow> MinioPolicy \<Rightarrow> bool" where
  "policyNamed k p \<longleftrightarrow> (pos_Name (p_Spec p), specContent (p_Spec p)) = k \<and>
     (\<forall>cs. policyCurrent p = Some cs \<longrightarrow> pos_Name cs = fst k)"

definition policyExact ::
  "('w, MinioPolicy, tenantState) cluster \<Rightarrow> string \<times> content \<Rightarrow> tenantState \<Rightarrow> bool" where
  "policyExact c k s \<longleftrightarrow>
     (\<exists>d. ts_policies s (fst k) = Some d \<and> contentHash (cl_lib c) d = contentHash (cl_lib c) (snd k))"

lemma specContent_Migrate [simp]: "specContent (spec\<lparr>pos_Migrate := b\<rparr>) = specContent spec"
  by (simp add: specContent_def)

lemmas policySame_defs = policySame_def policyNamed_def policyStatusSet_def policyCurrent_def
  setPolicyCurrent_def stored_def policyPresent_def policyExact_def

lemmas policy_tenant = otherPolicies_eq putPolicy_def dropPolicy_def moves_def

lemma quietPolicies_api: "quietPolicies c \<Longrightarrow> quietApi p_ObjectMeta policySame c"
  by (simp add: quietPolicies_def)

lemma quietPolicies_open:
  "quietPolicies c \<Longrightarrow> heldOnly (p_ObjectMeta p) \<Longrightarrow>
   okRun (getAdminClient (cl_rec c) rr (policyNamespace p)) w (\<lambda>_. keeps c w)"
  by (auto simp: quietPolicies_def policyNamespace_def intro: quiet_admin)

lemma quietPolicies_info:
  assumes "quietPolicies c"
  shows "okRun (attempt (queryM h (InfoCannedPolicyV2 n) (\<lambda>w. e_InfoCannedPolicyV2 (r_env (cl_rec c)) w h n))) w
    (\<lambda>x w'. keeps c w w' \<and> (case ts_policies (cl_tenant c w) n of
         None \<Rightarrow> isMadminErrorCode (errOf x) ''XMinioAdminNoSuchPolicy''
       | Some d \<Rightarrow> (\<exists>pd mps. x = Inr pd \<and> unmarshalPolicySpec pd = Inr mps \<and> specContent mps = d)))"
  unfolding queryM_def specContent_def
  by (rule okRun_attempt_answers) (use assms in \<open>simp add: quietPolicies_def\<close>)

lemma quietPolicies_remove:
  "quietPolicies c \<Longrightarrow> policyPossible True k (cl_tenant c w) \<Longrightarrow>
   okRun (mutate (r_env (cl_rec c)) h (RemoveCannedPolicy (fst k))) w (\<lambda>_ w'. moves c w (dropPolicy (fst k)) w')"
  unfolding mutate_def by (rule okRun_answers) (simp add: quietPolicies_def policyPossible_def)

lemma quietPolicies_put:
  assumes "quietPolicies c"
  shows "okRun (bindM (liftE (marshalPolicy st v)) (\<lambda>pd. mutate (r_env (cl_rec c)) h (AddCannedPolicy n pd))) w
    (\<lambda>_ w'. moves c w (putPolicy n (st, v)) w')"
proof -
  obtain pd where pd: "marshalPolicy st v = Inr pd" by (simp add: marshalPolicy_def)
  show ?thesis
    unfolding pd liftE_simps bindM_ret mutate_def
    by (rule okRun_answers) (use assms pd in \<open>simp add: quietPolicies_def\<close>)
qed

text \<open>A policy sent, and the calls after it.\<close>

lemma quietPolicies_send:
  assumes "quietPolicies c"
    and "\<And>w'. moves c w (putPolicy n (st, v)) w' \<Longrightarrow> okRun f w' R"
  shows "okRun (bindM (liftE (marshalPolicy st v)) (\<lambda>pd.
    bindM (mutate (r_env (cl_rec c)) h (AddCannedPolicy n pd)) (\<lambda>_. f))) w R"
  unfolding bindM_assoc [symmetric]
  by (rule okRun_bind [OF quietPolicies_put [OF assms(1)]]) (use assms(2) in blast)

lemma minioPolicy_delete_quiet:
  assumes q: "quietPolicies c" and "cl_store c w = Some p" and "heldOnly (p_ObjectMeta p)"
    and "policyNamed k p" and "policyStatusSet p" and "policyPossible True k (cl_tenant c w)"
  shows "okRun (minioPolicy_delete (cl_rec c) p) w (\<lambda>_ w'. \<not> policyPresent k (cl_tenant c w') \<and>
    otherPolicies True k (cl_tenant c w') = otherPolicies True k (cl_tenant c w) \<and>
    stored c (\<lambda>y. metaStored (p_ObjectMeta p) (p_ObjectMeta y) \<and> policyNamed k y \<and> \<not> policyStatusSet y) w')"
proof -
  from assms(5) obtain cs where cs: "policyCurrent p = Some cs" by (auto simp: policyStatusSet_def)
  with assms(4) have n: "pos_Name cs = fst k" by (auto simp: policyNamed_def)
  show ?thesis
    unfolding minioPolicy_delete_def cs option.case n
  proof (rule okRun_bind [OF quietPolicies_open [OF q assms(3)]], goal_cases)
    case (1 h w1)
    with assms(2,6) have w1: "cl_store c w1 = Some p" "cl_tenant c w1 = cl_tenant c w"
        "policyPossible True k (cl_tenant c w1)" by (simp_all add: keeps_def)
    show ?case
      by (rule okRun_bind [OF quietPolicies_remove [OF q w1(3)]])
        (rule quiet_success [OF quietPolicies_api [OF q], where x = p],
         use assms w1 in \<open>auto simp: policy_tenant policySame_defs\<close>)
  qed
qed

lemma minioPolicy_removeMigrate_quiet:
  assumes "quietPolicies c" and "cl_store c w = Some p" and "heldOnly (p_ObjectMeta p)"
  shows "okRun (minioPolicy_removeMigrate (cl_rec c) p) w (\<lambda>y w'. cl_store c w' = Some y \<and>
    cl_tenant c w' = cl_tenant c w \<and> metaStored (p_ObjectMeta p) (p_ObjectMeta y) \<and>
    p_Spec y = (p_Spec p)\<lparr>pos_Migrate := False\<rparr> \<and> policyCurrent y = policyCurrent p)"
proof (cases "pos_Migrate (p_Spec p)")
  case True
  then show ?thesis
    unfolding minioPolicy_removeMigrate_def
    by (simp, intro okRun_weaken [OF quiet_update [OF quietPolicies_api [OF assms(1)] assms(2)]])
      (use assms in \<open>auto simp: policySame_defs\<close>)
next
  case False
  then have "(p_Spec p)\<lparr>pos_Migrate := False\<rparr> = p_Spec p" by (cases "p_Spec p") simp
  with False show ?thesis
    unfolding minioPolicy_removeMigrate_def using assms(2) by (simp add: okRun_ret)
qed

text \<open>The end of the update: whatever the tenant holds, its hash is then that of the spec.\<close>

lemma minioPolicy_sync_quiet:
  assumes q: "quietPolicies c" and "cl_store c w = Some p" and "heldOnly (p_ObjectMeta p)"
    and "policyNamed k p" and "policyCurrent p = Some cs" and "ts_policies (cl_tenant c w) (fst k) = Some (specContent mps)"
    and "unmarshalPolicySpec pd = Inr mps"
  shows "okRun (minioPolicy_sync (cl_rec c) h p cs (Some pd)) w (\<lambda>_ w'. policyExact c k (cl_tenant c w') \<and>
    otherPolicies False k (cl_tenant c w') = otherPolicies False k (cl_tenant c w) \<and>
    stored c (\<lambda>y. metaStored (p_ObjectMeta p) (p_ObjectMeta y) \<and> policyNamed k y \<and> p_Spec y = p_Spec p \<and>
      policyStatusSet y) w')"
proof -
  let ?L = "cl_lib c"
  from assms(4,5) have n: "pos_Name cs = fst k" "specContent (p_Spec p) = snd k"
    by (auto simp: policyNamed_def)
  consider (changed) "specContent cs \<noteq> specContent (p_Spec p)"
    | (drifted) "specContent cs = specContent (p_Spec p)" "contentHash ?L (specContent mps) \<noteq> contentHash ?L (snd k)"
    | (same) "specContent cs = specContent (p_Spec p)" "contentHash ?L (specContent mps) = contentHash ?L (snd k)"
    by blast
  then show ?thesis
  proof cases
    case changed
    then have "pos_Version cs \<noteq> pos_Version (p_Spec p) \<or> pos_Statement cs \<noteq> pos_Statement (p_Spec p)"
      by (auto simp: specContent_def)
    then show ?thesis
      unfolding minioPolicy_sync_def Let_def
      by (simp only: if_True, intro quietPolicies_send [OF q])
        (rule quiet_success [OF quietPolicies_api [OF q], where x = p],
         use assms n in \<open>auto simp: policy_tenant policySame_defs specContent_def\<close>)
  next
    case drifted
    then have eq: "pos_Version cs = pos_Version (p_Spec p)" "pos_Statement cs = pos_Statement (p_Spec p)"
      by (auto simp: specContent_def)
    with drifted n have "getHashPolicySpec (sha512_256 ?L) mps \<noteq> getHashPolicySpec (sha512_256 ?L) cs"
      by (simp add: getHashPolicySpec_content specContent_def)
    with eq show ?thesis
      unfolding minioPolicy_sync_def Let_def
      by (simp add: assms(7), intro quietPolicies_send [OF q] okRun_success)
        (use assms n in \<open>auto simp: policy_tenant policySame_defs specContent_def\<close>)
  next
    case same
    then have eq: "pos_Version cs = pos_Version (p_Spec p)" "pos_Statement cs = pos_Statement (p_Spec p)"
      by (auto simp: specContent_def)
    with same n have "getHashPolicySpec (sha512_256 ?L) mps = getHashPolicySpec (sha512_256 ?L) cs"
      by (simp add: getHashPolicySpec_content specContent_def)
    with eq show ?thesis
      unfolding minioPolicy_sync_def Let_def
      by (simp add: assms(7), intro okRun_success)
        (use assms same in \<open>auto simp: policy_tenant policySame_defs\<close>)
  qed
qed

lemma minioPolicy_update_quiet:
  assumes q: "quietPolicies c" and "cl_store c w = Some p" and "heldOnly (p_ObjectMeta p)"
    and "policyNamed k p" and "policyStatusSet p"
  shows "okRun (minioPolicy_update (cl_rec c) p) w (\<lambda>_ w'.
    policyPresent k (cl_tenant c w') = policyPresent k (cl_tenant c w) \<and>
    (policyPresent k (cl_tenant c w) \<longrightarrow> policyExact c k (cl_tenant c w')) \<and>
    otherPolicies False k (cl_tenant c w') = otherPolicies False k (cl_tenant c w) \<and>
    stored c (\<lambda>y. metaStored (p_ObjectMeta p) (p_ObjectMeta y) \<and> policyNamed k y \<and>
      \<not> pos_Migrate (p_Spec y) \<and> policyStatusSet y = policyPresent k (cl_tenant c w)) w')"
proof -
  from assms(5) obtain cs where cs: "policyCurrent p = Some cs" by (auto simp: policyStatusSet_def)
  with assms(4) have n: "pos_Name cs = fst k" by (auto simp: policyNamed_def)
  show ?thesis
    unfolding minioPolicy_update_def
  proof (rule okRun_bind [OF minioPolicy_removeMigrate_quiet [OF q assms(2,3)]], goal_cases)
    case (1 y w1)
    then have y: "policyCurrent y = Some cs" "heldOnly (p_ObjectMeta y)"
        "cl_store c w1 = Some y" "cl_tenant c w1 = cl_tenant c w"
        "\<not> pos_Migrate (p_Spec y)" "metaStored (p_ObjectMeta p) (p_ObjectMeta y)"
        "policyNamed k y" "policyStatusSet y"
      using cs assms(3,4) n by (auto simp: heldOnly_stored policyNamed_def policyStatusSet_def)
    show ?case
      unfolding y(1) deref_simps bindM_ret
    proof (rule okRun_bind [OF quietPolicies_open [OF q y(2)]],
        rule okRun_bind [OF quietPolicies_info [OF q]], goal_cases)
      case (1 h w2 x w3)
      with y(3,4) have st: "cl_store c w3 = Some y" "cl_tenant c w3 = cl_tenant c w"
        and x: "case ts_policies (cl_tenant c w) (fst k) of
            None \<Rightarrow> isMadminErrorCode (errOf x) ''XMinioAdminNoSuchPolicy''
          | Some d \<Rightarrow> (\<exists>pd mps. x = Inr pd \<and> unmarshalPolicySpec pd = Inr mps \<and> specContent mps = d)"
        by (auto simp: keeps_def n)
      show ?case
      proof (cases "ts_policies (cl_tenant c w) (fst k)")
        case (Some d)
        with x obtain pd mps where pd: "x = Inr pd" "unmarshalPolicySpec pd = Inr mps"
            "ts_policies (cl_tenant c w3) (fst k) = Some (specContent mps)"
          by (auto simp: st)
        show ?thesis
          by (simp add: pd(1), intro okRun_weaken [OF minioPolicy_sync_quiet [OF q st(1) y(2,7,1) pd(3,2)]])
            (use y(5,6) st(2) Some in
              \<open>auto simp: stored_def policyPresent_def policyExact_def intro: metaStored_trans\<close>)
      next
        case None
        with x show ?thesis
          by (simp add: ignoreMadminErrorCode_def, intro quiet_success [OF quietPolicies_api [OF q] st(1)])
            (use st y None in \<open>auto simp: policy_tenant policySame_defs intro: metaStored_trans\<close>)
      qed
    qed
  qed
qed

lemma minioPolicy_create_quiet:
  assumes q: "quietPolicies c" and "cl_store c w = Some p" and "heldOnly (p_ObjectMeta p)"
    and "policyNamed k p" and "\<not> policyStatusSet p"
    and "policyPresent k (cl_tenant c w) \<longrightarrow> pos_Migrate (p_Spec p)"
  shows "okRun (minioPolicy_create (cl_rec c) p) w (\<lambda>_ w'. policyPresent k (cl_tenant c w') \<and>
    policyExact c k (cl_tenant c w') \<and> otherPolicies False k (cl_tenant c w') = otherPolicies False k (cl_tenant c w) \<and>
    stored c (\<lambda>y. metaStored (p_ObjectMeta p) (p_ObjectMeta y) \<and> policyNamed k y \<and> policyStatusSet y) w')"
proof -
  from assms(4) have n: "pos_Name (p_Spec p) = fst k" "specContent (p_Spec p) = snd k"
    by (auto simp: policyNamed_def)
  show ?thesis
    unfolding minioPolicy_create_def Let_def
  proof (rule okRun_bind [OF quietPolicies_open [OF q assms(3)]],
      rule okRun_bind [OF quietPolicies_info [OF q]], goal_cases)
    case (1 h w1 x w2)
    then have free: "\<not> (errOf x = None \<and> \<not> pos_Migrate (p_Spec p))"
      using assms(6) by (cases "errOf x") (auto simp: keeps_def policyPresent_def n split: option.splits)
    from 1 show ?case
      unfolding if_not_P [OF free] bindM_ret
      by (intro quietPolicies_send [OF q])
        (rule quiet_success [OF quietPolicies_api [OF q], where x = p],
         use assms n in \<open>auto simp: keeps_def policy_tenant policySame_defs specContent_def\<close>)
  qed
qed

lemma minioPolicy_create_taken:
  assumes q: "quietPolicies c" and "heldOnly (p_ObjectMeta p)" and "policyNamed k p"
    and "policyPresent k (cl_tenant c w)" and "\<not> pos_Migrate (p_Spec p)"
  shows "errRun (minioPolicy_create (cl_rec c) p) w (\<lambda>_. keeps c w)"
  unfolding minioPolicy_create_def Let_def
  by (intro errRun_bind [OF quietPolicies_open [OF q assms(2)]]
      errRun_bind [OF quietPolicies_info [OF q]] errRun_bind_left)
    (use assms in \<open>auto simp: policyNamed_def policyPresent_def keeps_def ignoreMadminErrorCode_def
      intro!: errRun_fail\<close>)

interpretation policy_settling: settling minioPolicyReconciler_Reconcile minioPolicy_pass
  minioPolicy_delete minioPolicy_addFinalizer "\<lambda>r _. minioPolicy_update r"
  "\<lambda>r _. minioPolicy_create r" p_ObjectMeta "\<lambda>x m. x\<lparr>p_ObjectMeta := m\<rparr>" policyStatusSet policySame
  quietPolicies "\<lambda>p. pos_Migrate (p_Spec p)" policyNamed policyPresent otherPolicies policyExact
  True policyPossible
  by unfold_locales
    (simp_all add: quietPolicies_api minioPolicy_delete_quiet minioPolicy_update_quiet
      minioPolicy_create_quiet minioPolicy_create_taken,
     auto simp: policySame_defs otherPolicies_eq policyPossible_def minioPolicy_delete_def)

lemma content_document:
  obtains pd mps where "marshalPolicy (fst d) (snd d) = Inr pd" "unmarshalPolicySpec pd = Inr mps"
    "(pos_Statement mps, pos_Version mps) = d"
proof -
  obtain pd where pd: "marshalPolicy (fst d) (snd d) = Inr pd" by (simp add: marshalPolicy_def)
  from that [OF pd unmarshal_marshal_policy [OF pd]] show ?thesis by simp
qed

lemma quietPolicies_sample:
  assumes "\<And>x d. get (put x d) = x"
  shows "quietPolicies (tenantAt p_ObjectMeta dn get put)"
  unfolding quietPolicies_def
proof (intro conjI allI impI sampleAt_api sampleAt_opens assms, goal_cases)
  case (4 w h n)
  show ?case
  proof (cases "td_policies (snd w) n")
    case (Some d)
    obtain pd mps where "marshalPolicy (fst d) (snd d) = Inr pd" "unmarshalPolicySpec pd = Inr mps"
      "(pos_Statement mps, pos_Version mps) = d" by (rule content_document)
    with Some show ?thesis by (auto simp: tenantEnv_reads answers_def)
  qed (simp add: tenantEnv_reads answers_def)
next
  case (5 w h n st v pd)
  then show ?case
    by (simp add: tenant_answers tenantServe_def unmarshal_marshal_policy moves_def putPolicy_def tenant_eq)
next
  case (6 w h n)
  then show ?case
    by (auto simp: tenant_answers tenantServe_def moves_def dropPolicy_def tenant_eq)
next
  case (7 w h n)
  then show ?case
    by (auto simp: tenant_answers tenantServe_def refused_def keeps_def)
qed (simp_all add: tenantEnv_reads answers_def keeps_def)

lemma quietPolicies_cluster: "quietPolicies (tenantCluster p_ObjectMeta dn)"
  unfolding sampleCluster_def by (rule quietPolicies_sample) simp

text \<open>
  C13 - A MinioPolicy settles, with its content: after two passes in a quiet cluster the tenant has the
  policy, with a content that has the hash of the spec's statement and version, also when the
  policy was lost or changed in the tenant, or the spec was changed. The exception is an unrecorded
  policy whose name was taken before, if the spec does not ask to migrate it. Two passes after the
  deletion the object is gone, and so is the policy if it was recorded. That is,
  if it is attached to nobody when it is deleted. No pass touches any other policy.
\<close>

theorem policy_settles:
  assumes "quietPolicies c" and "cl_store c w = Some p" and "policyNamed (n, d) p"
    and "inOrder p_ObjectMeta policyStatusSet p"
    and "w' = passes minioPolicyReconciler_Reconcile c k w"
    and "policyPossible (\<not> timeIsZero (om_DeletionTimestamp (p_ObjectMeta p))) (n, d) (cl_tenant c w)"
    and "P = ts_policies (cl_tenant c w)" and "P' = ts_policies (cl_tenant c w')"
  shows "P'(n := None) = P(n := None) \<and>
    (2 \<le> k \<longrightarrow> timeIsZero (om_DeletionTimestamp (p_ObjectMeta p)) \<longrightarrow>
      (n \<in> dom P \<longrightarrow> policyStatusSet p \<or> pos_Migrate (p_Spec p)) \<longrightarrow>
      (\<exists>d'. P' n = Some d' \<and> contentHash (cl_lib c) d' = contentHash (cl_lib c) d) \<and>
      stored c (\<lambda>y. policyNamed (n, d) y \<and> policyStatusSet y) w') \<and>
    (2 \<le> k \<longrightarrow> \<not> timeIsZero (om_DeletionTimestamp (p_ObjectMeta p)) \<longrightarrow>
      cl_store c w' = None \<and> (policyStatusSet p \<longrightarrow> n \<notin> dom P'))"
  using policy_settling.settled [OF assms(1-6)]
  by (simp add: policyPresent_def policyExact_def otherPolicies_eq domIff assms(7,8))

definition staleTenant :: tenantData where
  "staleTenant = emptyTenant\<lparr>td_policies := [''p'' \<mapsto> (NilSlice, ''stale'')]\<rparr>"

theorem policy_settles_witness:
  "\<exists>d. td_policies (snd (passes minioPolicyReconciler_Reconcile (tenantCluster p_ObjectMeta id) 2
     (Some (samplePolicy (Some samplePolicySpec)), staleTenant))) ''p'' = Some d \<and>
   contentHash sampleLib d = contentHash sampleLib (Slice [sampleStatement], ''2012-10-17'')"
proof -
  let ?p = "samplePolicy (Some samplePolicySpec)"
  have "policyNamed (''p'', (Slice [sampleStatement], ''2012-10-17'')) ?p"
    by (simp add: policyNamed_def specContent_def samplePolicySpec_def samplePolicy_def policyCurrent_def)
  moreover have "inOrder p_ObjectMeta policyStatusSet ?p"
    by (simp add: inOrder_def heldOnly_def)
  ultimately show ?thesis
    using policy_settles [OF quietPolicies_cluster [of id], of "(Some ?p, staleTenant)" ?p
        "''p''" "(Slice [sampleStatement], ''2012-10-17'')" _ 2, OF _ _ _ refl _ refl refl]
    by (simp add: policyStatusSet_def policyPossible_def staleTenant_def)
qed

end
