(* ===== verification/Policy_Binding_Reconciler.thy ===== *)
theory Policy_Binding_Reconciler
  imports Tenant_State
begin

text \<open>
  \<open>minio_policy_binding_reconciler.go\<close>: a policy attached to a user or a group, which are known to
  the tenant itself (built-in) or to its LDAP server.
\<close>

definition setPolicyBindingCurrent ::
  "MinioPolicyBinding \<Rightarrow> MinioPolicyBindingSpec option \<Rightarrow> MinioPolicyBinding" where
  "setPolicyBindingCurrent pb cs = pb\<lparr>pb_Status := (pb_Status pb)\<lparr>pbst_CurrentSpec := cs\<rparr>\<rparr>"

definition policyBindingCurrent :: "MinioPolicyBinding \<Rightarrow> MinioPolicyBindingSpec option" where
  "policyBindingCurrent pb = pbst_CurrentSpec (pb_Status pb)"

definition policyBindingNamespace :: "MinioPolicyBinding \<Rightarrow> string" where
  "policyBindingNamespace pb = om_Namespace (pb_ObjectMeta pb)"

text \<open>The local \<open>ldap\<close>, and the request built from a spec.\<close>

definition bindingLdap :: "MinioPolicyBindingSpec \<Rightarrow> bool" where
  "bindingLdap spec \<longleftrightarrow> pbi_Ldap (pbs_Group spec) \<noteq> '''' \<or> pbi_Ldap (pbs_User spec) \<noteq> ''''"

definition policyAssociation ::
  "(MinioPolicyBindingIdentity \<Rightarrow> string) \<Rightarrow> MinioPolicyBindingSpec \<Rightarrow> PolicyAssociationReq" where
  "policyAssociation name spec =
     \<lparr>par_Group = name (pbs_Group spec), par_Policies = [pbs_Policy spec],
      par_User = name (pbs_User spec)\<rparr>"

definition detachRequest :: "MinioPolicyBindingSpec \<Rightarrow> mutation" where
  "detachRequest cs =
     (if bindingLdap cs then DetachPolicyLDAP (policyAssociation pbi_Ldap cs)
      else DetachPolicy (policyAssociation pbi_Builtin cs))"

definition attachRequest :: "MinioPolicyBindingSpec \<Rightarrow> mutation" where
  "attachRequest spec =
     (if bindingLdap spec then AttachPolicyLDAP (policyAssociation pbi_Ldap spec)
      else AttachPolicy (policyAssociation pbi_Builtin spec))"

text \<open>The \<open>detachPolicyMember\<close> closure.\<close>

definition detachPolicyMember ::
  "('w, MinioPolicyBinding) reconciler \<Rightarrow> MinioPolicyBinding
    \<Rightarrow> ('w, MinioPolicyBinding call, MinioPolicyBinding) m" where
  "detachPolicyMember r pb =
     bindM (deref (policyBindingCurrent pb)) (\<lambda>cs.
     bindM (getAdminClient r (pbs_TenantRef cs) (policyBindingNamespace pb)) (\<lambda>mtac.
     bindM (attempt (mutate (r_env r) mtac (detachRequest cs))) (\<lambda>x.
     let err = ignoreMadminErrorCode (errOf x) ''XMinioAdminNoSuchUser'';
         err = ignoreMadminErrorCode err ''XMinioAdminNoSuchGroup'' in
     bindM (checkErr err) (\<lambda>_.
     updateObj r (setPolicyBindingCurrent pb None)))))"

definition minioPolicyBinding_delete ::
  "('w, MinioPolicyBinding) reconciler \<Rightarrow> MinioPolicyBinding
    \<Rightarrow> ('w, MinioPolicyBinding call, Result) m" where
  "minioPolicyBinding_delete r pb =
     (case policyBindingCurrent pb of
        Some _ \<Rightarrow>
          bindM (detachPolicyMember r pb) (\<lambda>pb.
          success r)
      | None \<Rightarrow>
          bindM (updateObj r (pb\<lparr>pb_ObjectMeta :=
            removeFinalizer (lib (r_env r)) (pb_ObjectMeta pb) finalizer\<rparr>)) (\<lambda>pb.
          success r))"

definition minioPolicyBinding_addFinalizer ::
  "('w, MinioPolicyBinding) reconciler \<Rightarrow> MinioPolicyBinding
    \<Rightarrow> ('w, MinioPolicyBinding call, Result) m" where
  "minioPolicyBinding_addFinalizer r pb =
     bindM (updateObj r (pb\<lparr>pb_ObjectMeta :=
       addFinalizer (lib (r_env r)) (pb_ObjectMeta pb) finalizer\<rparr>)) (\<lambda>pb.
     success r)"

definition minioPolicyBinding_removeMigrate ::
  "('w, MinioPolicyBinding) reconciler \<Rightarrow> MinioPolicyBinding
    \<Rightarrow> ('w, MinioPolicyBinding call, MinioPolicyBinding) m" where
  "minioPolicyBinding_removeMigrate r pb =
     (if pbs_Migrate (pb_Spec pb) then
        updateObj r (pb\<lparr>pb_Spec := (pb_Spec pb)\<lparr>pbs_Migrate := False\<rparr>\<rparr>)
      else ret pb)"

section \<open>Looking the binding up\<close>

text \<open>The loop over \<open>ipdc.Info\<close>: the value of the first entry with the key, or the empty string.\<close>

fun userSearchBase :: "(string \<times> string) list \<Rightarrow> string" where
  "userSearchBase [] = ''''"
| "userSearchBase ((key, val) # info) =
     (if key \<noteq> ''user_dn_search_base_dn'' then userSearchBase info else val)"

definition ldapUser :: "string \<Rightarrow> string \<Rightarrow> string" where
  "ldapUser usbdn u =
     (if u \<noteq> '''' \<and> usbdn \<noteq> '''' \<and> \<not> hasPrefix u ''cn='' then ''cn='' @ u @ '','' @ usbdn else u)"

fun mappingFound :: "string \<Rightarrow> string \<Rightarrow> PolicyMapping list \<Rightarrow> bool" where
  "mappingFound g u [] = False"
| "mappingFound g u (pm # pms) =
     (if g \<in> set (pm_Groups pm) \<or> u \<in> set (pm_Users pm) then True else mappingFound g u pms)"

definition bindingFound ::
  "('w, MinioPolicyBinding) reconciler \<Rightarrow> handle \<Rightarrow> MinioPolicyBindingSpec
    \<Rightarrow> ('w, MinioPolicyBinding call, bool) m" where
  "bindingFound r mac cs =
     (let E = r_env r; policy = pbs_Policy cs in
     if bindingLdap cs then
       bindM (queryM mac (GetLDAPPolicyEntities policy)
         (\<lambda>w. e_GetLDAPPolicyEntities E w mac policy)) (\<lambda>pes.
       bindM (queryM mac (GetIDPConfig ''ldap'' '''')
         (\<lambda>w. e_GetIDPConfig E w mac ''ldap'' '''')) (\<lambda>info.
       ret (mappingFound (pbi_Ldap (pbs_Group cs))
         (ldapUser (userSearchBase info) (pbi_Ldap (pbs_User cs))) pes)))
     else
       bindM (queryM mac (GetPolicyEntities policy)
         (\<lambda>w. e_GetPolicyEntities E w mac policy)) (\<lambda>pes.
       ret (mappingFound (pbi_Builtin (pbs_Group cs)) (pbi_Builtin (pbs_User cs)) pes)))"

section \<open>Update, creation and the pass\<close>

definition minioPolicyBinding_update ::
  "('w, MinioPolicyBinding) reconciler \<Rightarrow> MinioPolicyBinding
    \<Rightarrow> ('w, MinioPolicyBinding call, Result) m" where
  "minioPolicyBinding_update r pb =
     bindM (minioPolicyBinding_removeMigrate r pb) (\<lambda>pb.
     bindM (deref (policyBindingCurrent pb)) (\<lambda>cs.
     bindM (getAdminClient r (pbs_TenantRef cs) (policyBindingNamespace pb)) (\<lambda>mac.
     if cs \<noteq> pb_Spec pb then
       bindM (detachPolicyMember r pb) (\<lambda>pb.
       success r)
     else
       bindM (bindingFound r mac cs) (\<lambda>found.
       if \<not> found then
         bindM (updateObj r (setPolicyBindingCurrent pb None)) (\<lambda>pb.
         success r)
       else success r))))"

definition minioPolicyBinding_create ::
  "('w, MinioPolicyBinding) reconciler \<Rightarrow> MinioPolicyBinding
    \<Rightarrow> ('w, MinioPolicyBinding call, Result) m" where
  "minioPolicyBinding_create r pb =
     (let spec = pb_Spec pb in
     bindM (getAdminClient r (pbs_TenantRef spec) (policyBindingNamespace pb)) (\<lambda>mtac.
     bindM (attempt (mutate (r_env r) mtac (attachRequest spec))) (\<lambda>x.
     let err = (if pbs_Migrate spec
                then ignoreMadminErrorCode (errOf x) ''XMinioAdminPolicyChangeAlreadyApplied''
                else errOf x) in
     bindM (checkErr err) (\<lambda>_.
     let spec = spec\<lparr>pbs_Migrate := False\<rparr> in
     bindM (updateObj r (setPolicyBindingCurrent (pb\<lparr>pb_Spec := spec\<rparr>) (Some spec))) (\<lambda>pb.
     success r)))))"

definition minioPolicyBinding_pass ::
  "('w, MinioPolicyBinding) reconciler \<Rightarrow> NamespacedName \<Rightarrow> MinioPolicyBinding
    \<Rightarrow> ('w, MinioPolicyBinding call, Result) m" where
  "minioPolicyBinding_pass r req pb =
     (if \<not> timeIsZero (om_DeletionTimestamp (pb_ObjectMeta pb)) then minioPolicyBinding_delete r pb
      else if \<not> containsFinalizer (lib (r_env r)) (pb_ObjectMeta pb) finalizer then
        minioPolicyBinding_addFinalizer r pb
      else (case policyBindingCurrent pb of
              Some _ \<Rightarrow> minioPolicyBinding_update r pb
            | None \<Rightarrow> minioPolicyBinding_create r pb))"

definition minioPolicyBindingReconciler_Reconcile ::
  "('w, MinioPolicyBinding) reconciler \<Rightarrow> NamespacedName
    \<Rightarrow> ('w, MinioPolicyBinding call, Result) m" where
  "minioPolicyBindingReconciler_Reconcile r req =
     bindM (attempt (getObj r req)) (\<lambda>x.
     (case x of Inl err \<Rightarrow> getFailed r err | Inr pb \<Rightarrow> minioPolicyBinding_pass r req pb))"

section \<open>The contract\<close>

definition policyBindingStatusSet :: "MinioPolicyBinding \<Rightarrow> bool" where
  "policyBindingStatusSet pb \<longleftrightarrow> policyBindingCurrent pb \<noteq> None"

definition policyBindingSame :: "MinioPolicyBinding \<Rightarrow> MinioPolicyBinding \<Rightarrow> bool" where
  "policyBindingSame x y \<longleftrightarrow> metaStored (pb_ObjectMeta x) (pb_ObjectMeta y) \<and>
     pb_Spec y = pb_Spec x \<and> pb_Status y = pb_Status x"

lemma setPolicyBindingCurrent_simps [simp]:
  "pb_ObjectMeta (setPolicyBindingCurrent pb cs) = pb_ObjectMeta pb"
  "pb_Spec (setPolicyBindingCurrent pb cs) = pb_Spec pb"
  "policyBindingCurrent (setPolicyBindingCurrent pb cs) = cs"
  "policyBindingCurrent (pb\<lparr>pb_ObjectMeta := m\<rparr>) = policyBindingCurrent pb"
  by (simp_all add: setPolicyBindingCurrent_def policyBindingCurrent_def)

lemma mappingFound_iff:
  "mappingFound g u pms \<longleftrightarrow> (\<exists>pm \<in> set pms. g \<in> set (pm_Groups pm) \<or> u \<in> set (pm_Users pm))"
  by (induction pms) auto

lemma minioPolicyBinding_removeMigrate_triple:
  assumes "profile P N (\<lambda>y. Q (pb_ObjectMeta y))" and "survives r (\<lambda>y. Q (pb_ObjectMeta y))"
    and "Q (pb_ObjectMeta pb)"
  shows "triple P N True (\<lambda>y. Q (pb_ObjectMeta y)) (minioPolicyBinding_removeMigrate r pb)"
  unfolding minioPolicyBinding_removeMigrate_def tenant_calls
  by (intro triple_intro triple_call triple_updateObj [OF assms(1,2)])
    (use assms in \<open>auto simp: profile_def\<close>)

lemma detachPolicyMember_triple:
  assumes "profile P N (\<lambda>y. Q (pb_ObjectMeta y))" and "survives r (\<lambda>y. Q (pb_ObjectMeta y))"
    and "Q (pb_ObjectMeta pb)"
  shows "triple P N True (\<lambda>y. Q (pb_ObjectMeta y)) (detachPolicyMember r pb)"
  unfolding detachPolicyMember_def tenant_calls Let_def
  by (intro triple_intro triple_updateObj [OF assms(1,2)]
      triple_bind [OF getAdminClient_profile [OF assms(1)]])
    (use assms in \<open>auto simp: profile_def\<close>)

lemma bindingFound_triple:
  assumes "profile P N (\<lambda>y. Q (pb_ObjectMeta y))"
  shows "triple P N True (\<lambda>_. True) (bindingFound r mac cs)"
  unfolding bindingFound_def tenant_calls Let_def
  by (intro triple_intro) (use assms in \<open>auto simp: profile_def\<close>)

lemma minioPolicyBinding_update_triple:
  assumes "profile P N (\<lambda>y. Q (pb_ObjectMeta y))" and "survives r (\<lambda>y. Q (pb_ObjectMeta y))"
    and "Q (pb_ObjectMeta pb)"
  shows "triple P N True (\<lambda>res. requeueAfter res = syncInterval r) (minioPolicyBinding_update r pb)"
  unfolding minioPolicyBinding_update_def success_def Let_def
  by (intro triple_intro triple_bind_updateObj [OF assms(1,2)]
      triple_bind [OF detachPolicyMember_triple [OF assms(1,2)]]
      triple_bind [OF bindingFound_triple [OF assms(1)]]
      triple_bind [OF minioPolicyBinding_removeMigrate_triple [OF assms]]
      triple_bind [OF getAdminClient_profile [OF assms(1)]])
    auto

lemma minioPolicyBinding_create_triple:
  assumes "profile P N (\<lambda>y. Q (pb_ObjectMeta y))" and "survives r (\<lambda>y. Q (pb_ObjectMeta y))"
    and "Q (pb_ObjectMeta pb)"
  shows "triple P N True (\<lambda>res. requeueAfter res = syncInterval r) (minioPolicyBinding_create r pb)"
  unfolding minioPolicyBinding_create_def tenant_calls success_def Let_def
  by (intro triple_intro triple_bind_updateObj [OF assms(1,2)]
      triple_bind [OF getAdminClient_profile [OF assms(1)]])
    (use assms in \<open>auto simp: profile_def\<close>)

lemma minioPolicyBinding_delete_safe:
  "finalizerLaws (lib (r_env r)) \<Longrightarrow>
   triple (updatesSafe (lib (r_env r)) pb_ObjectMeta policyBindingStatusSet) (\<lambda>_. True) True (\<lambda>_. True)
     (minioPolicyBinding_delete r pb)"
  unfolding minioPolicyBinding_delete_def detachPolicyMember_def calls success_def Let_def
  by (intro triple_intro triple_bind [OF getAdminClient_triple])
    (auto simp: safeObj_def policyBindingStatusSet_def)

lemma minioPolicyBinding_delete_ok:
  "triple (\<lambda>_. True) updateOk True (\<lambda>res. requeueAfter res = syncInterval r)
     (minioPolicyBinding_delete r pb)"
  unfolding minioPolicyBinding_delete_def detachPolicyMember_def calls success_def Let_def
  by (intro triple_intro triple_bind [OF getAdminClient_triple]) auto

interpretation policy_binding: phased_reconciler minioPolicyBindingReconciler_Reconcile
  minioPolicyBinding_pass minioPolicyBinding_delete minioPolicyBinding_addFinalizer
  "\<lambda>r _. minioPolicyBinding_update r" "\<lambda>r _. minioPolicyBinding_create r"
  pb_ObjectMeta "\<lambda>x m. x\<lparr>pb_ObjectMeta := m\<rparr>" policyBindingStatusSet policyBindingSame
  by unfold_locales
    (simp_all add: minioPolicyBindingReconciler_Reconcile_def minioPolicyBinding_pass_def
      policyBindingStatusSet_def minioPolicyBinding_addFinalizer_def policyBindingSame_def
      policyBindingCurrent_def minioPolicyBinding_delete_ok minioPolicyBinding_update_triple
      minioPolicyBinding_create_triple minioPolicyBinding_delete_safe split: option.split)

section \<open>Properties\<close>

text \<open>The answers that let the operator record an attached policy, and those that end a record.\<close>

definition policyAttached :: "MinioPolicyBindingSpec \<Rightarrow> MinioPolicyBinding call event \<Rightarrow> bool" where
  "policyAttached spec ev \<longleftrightarrow> asked (attachRequest spec) (\<lambda>e. e = None \<or>
     pbs_Migrate spec \<and> isMadminErrorCode e ''XMinioAdminPolicyChangeAlreadyApplied'') ev"

text \<open>Some answers of the tenant do not list the user or the group of the binding.\<close>

definition bindingUnlisted :: "'w env \<Rightarrow> MinioPolicyBindingSpec \<Rightarrow> bool" where
  "bindingUnlisted E cs \<longleftrightarrow>
     (if bindingLdap cs then
        \<exists>w h w' pes v v' info. e_GetLDAPPolicyEntities E w h (pbs_Policy cs) = (Inr pes, w') \<and>
          e_GetIDPConfig E v h ''ldap'' '''' = (Inr info, v') \<and>
          (\<forall>pm \<in> set pes. pbi_Ldap (pbs_Group cs) \<notin> set (pm_Groups pm) \<and>
             ldapUser (userSearchBase info) (pbi_Ldap (pbs_User cs)) \<notin> set (pm_Users pm))
      else
        \<exists>w h w' pes. e_GetPolicyEntities E w h (pbs_Policy cs) = (Inr pes, w') \<and>
          (\<forall>pm \<in> set pes. pbi_Builtin (pbs_Group cs) \<notin> set (pm_Groups pm) \<and>
             pbi_Builtin (pbs_User cs) \<notin> set (pm_Users pm)))"

definition policyDetached :: "'w env \<Rightarrow> MinioPolicyBindingSpec \<Rightarrow> MinioPolicyBinding call event \<Rightarrow> bool" where
  "policyDetached E cs ev \<longleftrightarrow>
     asked (detachRequest cs) (\<lambda>e. e = None \<or> isMadminErrorCode e ''XMinioAdminNoSuchUser'' \<or>
       isMadminErrorCode e ''XMinioAdminNoSuchGroup'') ev \<or>
     looked (if bindingLdap cs then GetLDAPPolicyEntities (pbs_Policy cs)
             else GetPolicyEntities (pbs_Policy cs)) accepted ev \<and> bindingUnlisted E cs"

definition policyBindingRequests :: "MinioPolicyBinding \<Rightarrow> MinioPolicyBinding call event \<Rightarrow> bool" where
  "policyBindingRequests pb ev \<longleftrightarrow> (case fst ev of
       Mutate h q \<Rightarrow> (case policyBindingCurrent pb of
           None \<Rightarrow> q = attachRequest (pb_Spec pb) | Some cs \<Rightarrow> q = detachRequest cs)
     | _ \<Rightarrow> True)"

definition samplePolicyBindingSpec :: MinioPolicyBindingSpec where
  "samplePolicyBindingSpec = \<lparr>pbs_Group = \<lparr>pbi_Builtin = '''', pbi_Ldap = ''''\<rparr>, pbs_Migrate = False,
     pbs_Policy = ''p'', pbs_TenantRef = sampleRef,
     pbs_User = \<lparr>pbi_Builtin = '''', pbi_Ldap = ''bob''\<rparr>\<rparr>"

definition samplePolicyBinding :: "MinioPolicyBindingSpec option \<Rightarrow> MinioPolicyBinding" where
  "samplePolicyBinding cs = \<lparr>pb_TypeMeta = \<lparr>tm_Kind = ''MinioPolicyBinding'', tm_APIVersion = ''v1''\<rparr>,
     pb_ObjectMeta = heldMeta ''pb'', pb_Spec = samplePolicyBindingSpec,
     pb_Status = \<lparr>pbst_Synced = None, pbst_CurrentSpec = cs\<rparr>\<rparr>"

lemma samplePolicyBinding_simps [simp]:
  "policyBindingCurrent (samplePolicyBinding cs) = cs"
  "pb_Spec (samplePolicyBinding cs) = samplePolicyBindingSpec"
  "pb_ObjectMeta (samplePolicyBinding cs) = heldMeta ''pb''"
  by (simp_all add: samplePolicyBinding_def policyBindingCurrent_def)

lemma policyBindingSame_refl [simp]: "policyBindingSame pb pb"
  by (simp add: policyBindingSame_def)

lemma policyBindingCurrent_Spec [simp]: "policyBindingCurrent (pb\<lparr>pb_Spec := s\<rparr>) = policyBindingCurrent pb"
  by (simp add: policyBindingCurrent_def)

lemma policyBindingSame_current:
  "updateStores policyBindingSame r \<Longrightarrow> r_Update r w x = (Inr y, w') \<Longrightarrow>
     policyBindingCurrent y = policyBindingCurrent x"
  by (drule (1) updateStores_same) (simp add: policyBindingSame_def policyBindingCurrent_def)

lemmas minioPolicyBinding_phases = minioPolicyBinding_pass_def minioPolicyBinding_delete_def
  minioPolicyBinding_addFinalizer_def minioPolicyBinding_update_def minioPolicyBinding_removeMigrate_def
  minioPolicyBinding_create_def detachPolicyMember_def bindingFound_def Let_def calls success_def

lemma detach_err:
  "ignoreMadminErrorCode (ignoreMadminErrorCode e ''XMinioAdminNoSuchUser'') ''XMinioAdminNoSuchGroup'' = None \<longleftrightarrow>
     e = None \<or> isMadminErrorCode e ''XMinioAdminNoSuchUser'' \<or> isMadminErrorCode e ''XMinioAdminNoSuchGroup''"
  by (auto simp: ignoreMadminErrorCode_def)

lemma minioPolicyBinding_pass_records:
  assumes "policyBindingCurrent pb = None"
  shows "ordered (policyAttached (pb_Spec pb)) (sent policyBindingStatusSet) False
    (minioPolicyBinding_pass r req pb)"
  unfolding minioPolicyBinding_phases assms option.case
  by (intro ordered_intro ordered_bind_quiet [OF getAdminClient_sent])
    (auto simp: policyBindingStatusSet_def policyAttached_def assms ignoreMadminErrorCode_eq_None
      split: if_splits)

lemma minioPolicyBinding_pass_clears:
  assumes "updateStores policyBindingSame r" and "policyBindingCurrent pb = Some cs"
  shows "ordered (policyDetached (r_env r) cs) (sent (\<lambda>y. \<not> policyBindingStatusSet y)) False
    (minioPolicyBinding_pass r req pb)"
  unfolding minioPolicyBinding_phases assms option.case
  by (intro ordered_intro ordered_bind_quiet [OF getAdminClient_sent])
    (auto simp: policyBindingStatusSet_def assms policyDetached_def detach_err bindingUnlisted_def
        mappingFound_iff
      dest!: policyBindingSame_current [OF assms(1)], blast+)

lemma minioPolicyBinding_pass_requests:
  assumes "updateStores policyBindingSame r"
  shows "triple (policyBindingRequests pb) (\<lambda>_. True) True (\<lambda>_. True) (minioPolicyBinding_pass r req pb)"
  unfolding minioPolicyBinding_phases
  by (intro triple_intro triple_bind [OF getAdminClient_triple])
    (auto simp: policyBindingRequests_def elim: isInfra.elims
      dest: policyBindingSame_current [OF assms])

text \<open>
  C7 - A pass over a MinioPolicyBinding is truthful: an attachment is recorded only after the tenant
  has accepted exactly that attachment, in LDAP if the spec names an LDAP user or group and as
  built-in identities otherwise (or, for a spec that asks to migrate, has answered that it is there
  already); a recorded one is cleared only after the tenant has accepted its detachment or knows
  neither the user nor the group, or has listed the policy's identities without them.
\<close>

theorem policy_binding_status_truthful:
  assumes "updateStores policyBindingSame r" and "r_Get r w req = (Inr pb, w1)"
  shows "(policyBindingCurrent pb = None \<longrightarrow>
      precededBy (policyAttached (pb_Spec pb)) (sent policyBindingStatusSet)
        (trace (minioPolicyBindingReconciler_Reconcile r req) w)) \<and>
    (\<forall>cs. policyBindingCurrent pb = Some cs \<longrightarrow>
      precededBy (policyDetached (r_env r) cs) (sent (\<lambda>y. \<not> policyBindingStatusSet y))
        (trace (minioPolicyBindingReconciler_Reconcile r req) w))"
  using policy_binding.reconcile_ordered [OF assms(2) minioPolicyBinding_pass_records]
    policy_binding.reconcile_ordered [OF assms(2) minioPolicyBinding_pass_clears [OF assms(1)]] by simp

theorem policy_binding_status_truthful_witness:
  "precededBy (policyAttached samplePolicyBindingSpec) (sent policyBindingStatusSet)
    (trace (minioPolicyBindingReconciler_Reconcile (sampleReconciler (samplePolicyBinding None))
      sampleKey) ()) \<and>
   precededBy (policyDetached sampleEnv samplePolicyBindingSpec) (sent (\<lambda>y. \<not> policyBindingStatusSet y))
    (trace (minioPolicyBindingReconciler_Reconcile
      (sampleReconciler (samplePolicyBinding (Some samplePolicyBindingSpec))) sampleKey) ())"
  using policy_binding_status_truthful [of "sampleReconciler (samplePolicyBinding None)" "()" sampleKey
      "samplePolicyBinding None" "()"]
    policy_binding_status_truthful [of
      "sampleReconciler (samplePolicyBinding (Some samplePolicyBindingSpec))" "()" sampleKey
      "samplePolicyBinding (Some samplePolicyBindingSpec)" "()"]
  by (simp add: updateStores_sample)

text \<open>
  All requests of the policy binding reconciler concern one attachment: it attaches what the
  spec says when nothing is recorded, and otherwise asks for nothing but to detach what is recorded,
  so that a changed spec first takes the old attachment away.
\<close>

theorem policy_binding_requests:
  assumes "updateStores policyBindingSame r" and "r_Get r w req = (Inr pb, w1)"
  shows "list_all (policyBindingRequests pb) (trace (minioPolicyBindingReconciler_Reconcile r req) w)"
  using policy_binding.reconcile_all [OF assms(2) minioPolicyBinding_pass_requests [OF assms(1)]]
  by (simp add: policyBindingRequests_def)

theorem policy_binding_requests_witness:
  "list_all (policyBindingRequests (samplePolicyBinding None))
    (trace (minioPolicyBindingReconciler_Reconcile (sampleReconciler (samplePolicyBinding None))
      sampleKey) ())"
  using policy_binding_requests [of "sampleReconciler (samplePolicyBinding None)" "()" sampleKey
      "samplePolicyBinding None" "()"]
  by (simp add: updateStores_sample)
section \<open>Convergence\<close>

text \<open>LDAP users are attached under their distinguished name, \<open>dn u\<close> for a user \<open>u\<close>.\<close>

definition bindingNames :: "MinioPolicyBindingSpec \<Rightarrow> MinioPolicyBindingIdentity \<Rightarrow> string" where
  "bindingNames spec = (if bindingLdap spec then pbi_Ldap else pbi_Builtin)"

definition attachment :: "(string \<Rightarrow> string) \<Rightarrow> MinioPolicyBindingSpec \<Rightarrow> attached" where
  "attachment dn spec = (let u = bindingNames spec (pbs_User spec) in
     (bindingLdap spec, pbs_Policy spec, bindingNames spec (pbs_Group spec),
      if bindingLdap spec \<and> u \<noteq> '''' then dn u else u))"

text \<open>
  MinIO wants a user or a group, not both. The operator finds an LDAP user if its distinguished name is
  the one that it computes, with the search base \<open>base\<close>.
\<close>

definition oneIdentity :: "MinioPolicyBindingSpec \<Rightarrow> bool" where
  "oneIdentity spec \<longleftrightarrow>
     (bindingNames spec (pbs_Group spec) = '''') \<noteq> (bindingNames spec (pbs_User spec) = '''')"

definition findable :: "(string \<Rightarrow> string) \<Rightarrow> string \<Rightarrow> MinioPolicyBindingSpec \<Rightarrow> bool" where
  "findable dn base spec \<longleftrightarrow> (pbi_Ldap (pbs_User spec) \<noteq> '''' \<longrightarrow>
     dn (pbi_Ldap (pbs_User spec)) = ldapUser base (pbi_Ldap (pbs_User spec)))"

text \<open>
  The tenant refuses to attach what is attached, to attach an unknown policy or to an unknown identity,
  and to detach what is not attached; the listings of a policy show what is attached.
\<close>

definition listsAttached :: "attached set \<Rightarrow> bool \<Rightarrow> string \<Rightarrow> PolicyMapping list \<Rightarrow> bool" where
  "listsAttached T l p pms \<longleftrightarrow>
     (\<forall>g. (\<exists>pm \<in> set pms. g \<in> set (pm_Groups pm)) \<longleftrightarrow> g \<noteq> '''' \<and> (l, p, g, '''') \<in> T) \<and>
     (\<forall>u. (\<exists>pm \<in> set pms. u \<in> set (pm_Users pm)) \<longleftrightarrow> u \<noteq> '''' \<and> (l, p, '''', u) \<in> T)"

definition quietAttachments ::
  "(string \<Rightarrow> string) \<Rightarrow> string \<Rightarrow> ('w, MinioPolicyBinding, tenantState) cluster \<Rightarrow> bool" where
  "quietAttachments dn base c \<longleftrightarrow> quietApi pb_ObjectMeta policyBindingSame c \<and> opensAdmin c \<and>
     (\<forall>w h p. answers (e_GetPolicyEntities (r_env (cl_rec c)) w h p)
        (\<lambda>x w'. \<exists>pms. x = Inr pms \<and> listsAttached (ts_attached (cl_tenant c w)) False p pms \<and> keeps c w w')) \<and>
     (\<forall>w h p. answers (e_GetLDAPPolicyEntities (r_env (cl_rec c)) w h p)
        (\<lambda>x w'. \<exists>pms. x = Inr pms \<and> listsAttached (ts_attached (cl_tenant c w)) True p pms \<and> keeps c w w')) \<and>
     (\<forall>w h. answers (e_GetIDPConfig (r_env (cl_rec c)) w h ''ldap'' '''')
        (\<lambda>x w'. \<exists>info. x = Inr info \<and> userSearchBase info = base \<and> keeps c w w')) \<and>
     (\<forall>w h spec. oneIdentity spec \<longrightarrow> bindingPossible False (attachment dn spec) (cl_tenant c w) \<longrightarrow>
        answers (e_Mutate (r_env (cl_rec c)) w h (attachRequest spec))
        (\<lambda>x w'. if bindingPresent (attachment dn spec) (cl_tenant c w)
           then isMadminErrorCode (errOf x) ''XMinioAdminPolicyChangeAlreadyApplied'' \<and> keeps c w w'
           else x = Inr () \<and> moves c w (attach (attachment dn spec)) w')) \<and>
     (\<forall>w h spec. oneIdentity spec \<longrightarrow> \<not> bindingPossible False (attachment dn spec) (cl_tenant c w) \<longrightarrow>
        answers (e_Mutate (r_env (cl_rec c)) w h (attachRequest spec))
        (\<lambda>x w'. errOf x \<noteq> None \<and> keeps c w w' \<and>
           \<not> isMadminErrorCode (errOf x) ''XMinioAdminPolicyChangeAlreadyApplied'')) \<and>
     (\<forall>w h spec. oneIdentity spec \<longrightarrow> bindingPossible True (attachment dn spec) (cl_tenant c w) \<longrightarrow>
        answers (e_Mutate (r_env (cl_rec c)) w h (detachRequest spec))
        (\<lambda>x w'. if bindingPresent (attachment dn spec) (cl_tenant c w)
           then x = Inr () \<and> moves c w (detach (attachment dn spec)) w'
           else errOf x \<noteq> None \<and> \<not> isMadminErrorCode (errOf x) ''XMinioAdminNoSuchUser'' \<and>
             \<not> isMadminErrorCode (errOf x) ''XMinioAdminNoSuchGroup'' \<and> keeps c w w'))"

definition bindingNamed :: "(string \<Rightarrow> string) \<Rightarrow> string \<Rightarrow> attached \<Rightarrow> MinioPolicyBinding \<Rightarrow> bool" where
  "bindingNamed dn base n pb \<longleftrightarrow> attachment dn (pb_Spec pb) = n \<and> oneIdentity (pb_Spec pb) \<and>
     findable dn base (pb_Spec pb) \<and>
     (\<forall>cs. policyBindingCurrent pb = Some cs \<longrightarrow> cs = (pb_Spec pb)\<lparr>pbs_Migrate := False\<rparr>)"

lemmas binding_tenant = bindingPresent_def otherBindings_eq attach_def detach_def moves_def

lemma attachment_Migrate [simp]:
  "attachment dn (spec\<lparr>pbs_Migrate := b\<rparr>) = attachment dn spec"
  "oneIdentity (spec\<lparr>pbs_Migrate := b\<rparr>) = oneIdentity spec"
  "findable dn base (spec\<lparr>pbs_Migrate := b\<rparr>) = findable dn base spec"
  by (simp_all add: attachment_def oneIdentity_def findable_def bindingNames_def bindingLdap_def)

lemmas policyBindingSame_defs = policyBindingSame_def bindingNamed_def policyBindingStatusSet_def
  policyBindingCurrent_def setPolicyBindingCurrent_def stored_def

lemma quietAttachments_api: "quietAttachments dn base c \<Longrightarrow> quietApi pb_ObjectMeta policyBindingSame c"
  by (simp add: quietAttachments_def)

lemma quietAttachments_open:
  "quietAttachments dn base c \<Longrightarrow> heldOnly (pb_ObjectMeta pb) \<Longrightarrow>
   okRun (getAdminClient (cl_rec c) rr (policyBindingNamespace pb)) w (\<lambda>_. keeps c w)"
  by (auto simp: quietAttachments_def policyBindingNamespace_def intro: quiet_admin)

lemma quietAttachments_attach:
  "quietAttachments dn base c \<Longrightarrow> oneIdentity spec \<Longrightarrow> bindingPossible False (attachment dn spec) (cl_tenant c w) \<Longrightarrow>
   okRun (attempt (mutate (r_env (cl_rec c)) h (attachRequest spec))) w
     (\<lambda>x w'. if bindingPresent (attachment dn spec) (cl_tenant c w)
        then isMadminErrorCode (errOf x) ''XMinioAdminPolicyChangeAlreadyApplied'' \<and> keeps c w w'
        else x = Inr () \<and> moves c w (attach (attachment dn spec)) w')"
  unfolding mutate_def by (rule okRun_attempt_answers) (simp add: quietAttachments_def)

lemma quietAttachments_unknown:
  "quietAttachments dn base c \<Longrightarrow> oneIdentity spec \<Longrightarrow> \<not> bindingPossible False (attachment dn spec) (cl_tenant c w) \<Longrightarrow>
   okRun (attempt (mutate (r_env (cl_rec c)) h (attachRequest spec))) w
     (\<lambda>x w'. errOf x \<noteq> None \<and> keeps c w w' \<and>
        \<not> isMadminErrorCode (errOf x) ''XMinioAdminPolicyChangeAlreadyApplied'')"
  unfolding mutate_def by (rule okRun_attempt_answers) (simp add: quietAttachments_def)

lemma quietAttachments_detach:
  "quietAttachments dn base c \<Longrightarrow> oneIdentity spec \<Longrightarrow> bindingPossible True (attachment dn spec) (cl_tenant c w) \<Longrightarrow>
   okRun (attempt (mutate (r_env (cl_rec c)) h (detachRequest spec))) w
     (\<lambda>x w'. if bindingPresent (attachment dn spec) (cl_tenant c w)
        then x = Inr () \<and> moves c w (detach (attachment dn spec)) w'
        else errOf x \<noteq> None \<and> \<not> isMadminErrorCode (errOf x) ''XMinioAdminNoSuchUser'' \<and>
          \<not> isMadminErrorCode (errOf x) ''XMinioAdminNoSuchGroup'' \<and> keeps c w w')"
  unfolding mutate_def by (rule okRun_attempt_answers) (simp add: quietAttachments_def)

lemma quietAttachments_listings:
  assumes "quietAttachments dn base c"
  shows "answers (e_GetPolicyEntities (r_env (cl_rec c)) w h p)
      (\<lambda>x w'. \<exists>pms. x = Inr pms \<and> listsAttached (ts_attached (cl_tenant c w)) False p pms \<and> keeps c w w')"
    and "answers (e_GetLDAPPolicyEntities (r_env (cl_rec c)) w h p)
      (\<lambda>x w'. \<exists>pms. x = Inr pms \<and> listsAttached (ts_attached (cl_tenant c w)) True p pms \<and> keeps c w w')"
    and "answers (e_GetIDPConfig (r_env (cl_rec c)) w h ''ldap'' '''')
      (\<lambda>x w'. \<exists>info. x = Inr info \<and> userSearchBase info = base \<and> keeps c w w')"
  using assms unfolding quietAttachments_def by blast+

text \<open>The loop over the listing finds the group or the name under which the user is looked for.\<close>

lemma listed_found:
  "listsAttached T l p pms \<Longrightarrow> mappingFound g u pms \<longleftrightarrow>
     g \<noteq> '''' \<and> (l, p, g, '''') \<in> T \<or> u \<noteq> '''' \<and> (l, p, '''', u) \<in> T"
  unfolding mappingFound_iff listsAttached_def by blast

lemma ldapUser_empty [simp]: "ldapUser base u = '''' \<longleftrightarrow> u = ''''"
  by (simp add: ldapUser_def)

definition lookedFor :: "string \<Rightarrow> MinioPolicyBindingSpec \<Rightarrow> attached" where
  "lookedFor base spec = attachment (ldapUser base) spec"

lemma lookedFor_findable: "findable dn base spec \<Longrightarrow> lookedFor base spec = attachment dn spec"
  by (auto simp: lookedFor_def attachment_def findable_def bindingNames_def Let_def)

lemma bindingFound_quiet:
  assumes "quietAttachments dn base c" and "oneIdentity cs"
  shows "okRun (bindingFound (cl_rec c) h cs) w
    (\<lambda>found w'. keeps c w w' \<and> (found \<longleftrightarrow> lookedFor base cs \<in> ts_attached (cl_tenant c w)))"
proof -
  have q: "okRun (queryM h (GetPolicyEntities p) (\<lambda>w. e_GetPolicyEntities (r_env (cl_rec c)) w h p)) v
      (\<lambda>pms v'. listsAttached (ts_attached (cl_tenant c v)) False p pms \<and> keeps c v v')"
    "okRun (queryM h (GetLDAPPolicyEntities p) (\<lambda>w. e_GetLDAPPolicyEntities (r_env (cl_rec c)) w h p)) v
      (\<lambda>pms v'. listsAttached (ts_attached (cl_tenant c v)) True p pms \<and> keeps c v v')"
    "okRun (queryM h (GetIDPConfig ''ldap'' '''') (\<lambda>w. e_GetIDPConfig (r_env (cl_rec c)) w h ''ldap'' '''')) v
      (\<lambda>info v'. userSearchBase info = base \<and> keeps c v v')" for p v
    unfolding queryM_def using quietAttachments_listings [OF assms(1)] by (simp_all add: okRun_answers)
  show ?thesis
  proof (cases "bindingLdap cs")
    case True
    show ?thesis
      unfolding bindingFound_def Let_def if_P [OF True]
    proof (rule okRun_bind [OF q(2)], rule okRun_bind [OF q(3)], rule okRun_ret, goal_cases)
      case (1 pms w1 info w2)
      then have "keeps c w w2" "userSearchBase info = base" by (auto intro: keeps_trans)
      then show ?case
        using listed_found [of "ts_attached (cl_tenant c w)" True "pbs_Policy cs" pms] 1 assms(2) True
        by (simp add: lookedFor_def attachment_def oneIdentity_def bindingNames_def Let_def) metis
    qed
  next
    case False
    show ?thesis
      unfolding bindingFound_def Let_def if_not_P [OF False]
    proof (rule okRun_bind [OF q(1)], rule okRun_ret, goal_cases)
      case (1 pms w1)
      then show ?case
        using listed_found [of "ts_attached (cl_tenant c w)" False "pbs_Policy cs" pms] assms(2) False
        by (simp add: lookedFor_def attachment_def oneIdentity_def bindingNames_def Let_def) metis
    qed
  qed
qed

lemma minioPolicyBinding_delete_quiet:
  assumes q: "quietAttachments dn base c" and "cl_store c w = Some pb" and "heldOnly (pb_ObjectMeta pb)"
    and "bindingNamed dn base n pb" and "policyBindingStatusSet pb" and "bindingPresent n (cl_tenant c w)"
    and "bindingPossible True n (cl_tenant c w)"
  shows "okRun (minioPolicyBinding_delete (cl_rec c) pb) w (\<lambda>_ w'. \<not> bindingPresent n (cl_tenant c w') \<and>
    otherBindings True n (cl_tenant c w') = otherBindings True n (cl_tenant c w) \<and>
    stored c (\<lambda>y. metaStored (pb_ObjectMeta pb) (pb_ObjectMeta y) \<and>
      bindingNamed dn base n y \<and> \<not> policyBindingStatusSet y) w')"
proof -
  from assms(5) obtain cs where cs: "policyBindingCurrent pb = Some cs" by (auto simp: policyBindingStatusSet_def)
  with assms(4) have n: "attachment dn cs = n" "oneIdentity cs" by (auto simp: bindingNamed_def)
  show ?thesis
    unfolding minioPolicyBinding_delete_def detachPolicyMember_def cs option.case deref_simps bindM_ret
      bindM_assoc Let_def
  proof (rule okRun_bind [OF quietAttachments_open [OF q assms(3)]], goal_cases)
    case (1 h w1)
    with assms(2,7) n have w1: "cl_store c w1 = Some pb" "cl_tenant c w1 = cl_tenant c w"
        "bindingPossible True (attachment dn cs) (cl_tenant c w1)" by (simp_all add: keeps_def)
    show ?case
    proof (rule okRun_bind [OF quietAttachments_detach [OF q n(2) w1(3)]], goal_cases)
      case (1 x w2)
      with n assms(6) w1 have "x = Inr ()" "cl_store c w2 = Some pb"
          "cl_tenant c w2 = detach n (cl_tenant c w)"
        by (simp_all add: moves_def detach_def)
      then show ?case
        by (simp, intro quiet_success [OF quietAttachments_api [OF q], where x = pb])
          (use assms in \<open>auto simp: policyBindingSame_defs binding_tenant\<close>)
    qed
  qed
qed

lemma minioPolicyBinding_delete_refused:
  assumes q: "quietAttachments dn base c" and "cl_store c w = Some pb" and "heldOnly (pb_ObjectMeta pb)"
    and "bindingNamed dn base n pb" and "policyBindingStatusSet pb" and "\<not> bindingPresent n (cl_tenant c w)"
    and "bindingPossible True n (cl_tenant c w)"
  shows "errRun (minioPolicyBinding_delete (cl_rec c) pb) w (\<lambda>_. keeps c w)"
proof -
  from assms(5) obtain cs where cs: "policyBindingCurrent pb = Some cs" by (auto simp: policyBindingStatusSet_def)
  with assms(4) have n: "attachment dn cs = n" "oneIdentity cs" by (auto simp: bindingNamed_def)
  show ?thesis
    unfolding minioPolicyBinding_delete_def detachPolicyMember_def cs option.case deref_simps bindM_ret
      bindM_assoc Let_def
  proof (rule errRun_bind [OF quietAttachments_open [OF q assms(3)]], goal_cases)
    case (1 h w1)
    with assms(7) n have p: "bindingPossible True (attachment dn cs) (cl_tenant c w1)" by (simp add: keeps_def)
    show ?case
      by (rule errRun_bind [OF quietAttachments_detach [OF q n(2) p]], rule errRun_bind_left)
        (use n assms(6) 1 in \<open>auto simp: keeps_def ignoreMadminErrorCode_def intro!: errRun_fail\<close>)
  qed
qed

lemma minioPolicyBinding_removeMigrate_quiet:
  assumes "quietAttachments dn base c" and "cl_store c w = Some pb" and "heldOnly (pb_ObjectMeta pb)"
  shows "okRun (minioPolicyBinding_removeMigrate (cl_rec c) pb) w (\<lambda>y w'. cl_store c w' = Some y \<and>
    cl_tenant c w' = cl_tenant c w \<and> metaStored (pb_ObjectMeta pb) (pb_ObjectMeta y) \<and>
    pb_Spec y = (pb_Spec pb)\<lparr>pbs_Migrate := False\<rparr> \<and> policyBindingCurrent y = policyBindingCurrent pb)"
proof (cases "pbs_Migrate (pb_Spec pb)")
  case True
  then show ?thesis
    unfolding minioPolicyBinding_removeMigrate_def
    by (simp, intro okRun_weaken [OF quiet_update [OF quietAttachments_api [OF assms(1)] assms(2)]])
      (use assms in \<open>auto simp: policyBindingSame_defs\<close>)
next
  case False
  then have "(pb_Spec pb)\<lparr>pbs_Migrate := False\<rparr> = pb_Spec pb" by (cases "pb_Spec pb") simp
  with False show ?thesis
    unfolding minioPolicyBinding_removeMigrate_def using assms(2) by (simp add: okRun_ret)
qed

text \<open>An unchanged spec: the record is kept exactly if the attachment is found where it is looked for.\<close>

lemma minioPolicyBinding_update_found:
  assumes q: "quietAttachments dn base c" and "cl_store c w = Some pb" and "heldOnly (pb_ObjectMeta pb)"
    and cs: "policyBindingCurrent pb = Some cs" "cs = (pb_Spec pb)\<lparr>pbs_Migrate := False\<rparr>"
    and "oneIdentity (pb_Spec pb)"
  shows "okRun (minioPolicyBinding_update (cl_rec c) pb) w (\<lambda>_ w'.
    cl_tenant c w' = cl_tenant c w \<and>
    stored c (\<lambda>y. metaStored (pb_ObjectMeta pb) (pb_ObjectMeta y) \<and>
      pb_Spec y = (pb_Spec pb)\<lparr>pbs_Migrate := False\<rparr> \<and>
      policyBindingCurrent y = (if lookedFor base cs \<in> ts_attached (cl_tenant c w) then Some cs else None)) w')"
  unfolding minioPolicyBinding_update_def
proof (rule okRun_bind [OF minioPolicyBinding_removeMigrate_quiet [OF q assms(2,3)]], goal_cases)
  case (1 y w1)
  then have y: "policyBindingCurrent y = Some cs" "heldOnly (pb_ObjectMeta y)"
      "cl_store c w1 = Some y" "cl_tenant c w1 = cl_tenant c w" "pb_Spec y = cs"
      "metaStored (pb_ObjectMeta pb) (pb_ObjectMeta y)"
    using cs assms(3) by (auto simp: heldOnly_stored)
  have one: "oneIdentity cs" using assms(6) cs(2) by simp
  show ?case
    unfolding y(1) deref_simps bindM_ret y(5) simp_thms if_False
  proof (rule okRun_bind [OF quietAttachments_open [OF q y(2)]],
      rule okRun_bind [OF bindingFound_quiet [OF q one]], goal_cases)
    case (1 h w2 found w3)
    with y(3,4) have st: "cl_store c w3 = Some y" "cl_tenant c w3 = cl_tenant c w"
      and found: "found \<longleftrightarrow> lookedFor base cs \<in> ts_attached (cl_tenant c w)"
      by (auto simp: keeps_def)
    show ?case
    proof (cases found)
      case True
      with found show ?thesis
        by (simp, intro okRun_success) (use st y cs in \<open>auto simp: stored_def\<close>)
    next
      case False
      with found show ?thesis
        by (simp, intro quiet_success [OF quietAttachments_api [OF q] st(1)])
          (use st y cs in \<open>auto simp: policyBindingSame_defs intro: metaStored_trans\<close>)
    qed
  qed
qed

lemma minioPolicyBinding_update_quiet:
  assumes "quietAttachments dn base c" and "cl_store c w = Some pb" and "heldOnly (pb_ObjectMeta pb)"
    and "bindingNamed dn base n pb" and "policyBindingStatusSet pb"
  shows "okRun (minioPolicyBinding_update (cl_rec c) pb) w (\<lambda>_ w'.
    bindingPresent n (cl_tenant c w') = bindingPresent n (cl_tenant c w) \<and>
    otherBindings False n (cl_tenant c w') = otherBindings False n (cl_tenant c w) \<and>
    stored c (\<lambda>y. metaStored (pb_ObjectMeta pb) (pb_ObjectMeta y) \<and> bindingNamed dn base n y \<and>
      \<not> pbs_Migrate (pb_Spec y) \<and> policyBindingStatusSet y = bindingPresent n (cl_tenant c w)) w')"
proof -
  from assms(5) obtain cs where cs: "policyBindingCurrent pb = Some cs" by (auto simp: policyBindingStatusSet_def)
  with assms(4) have n: "cs = (pb_Spec pb)\<lparr>pbs_Migrate := False\<rparr>" "attachment dn (pb_Spec pb) = n"
      "oneIdentity (pb_Spec pb)" "lookedFor base cs = n"
    by (auto simp: bindingNamed_def lookedFor_findable)
  show ?thesis
    by (rule okRun_weaken [OF minioPolicyBinding_update_found [OF assms(1-3) cs n(1,3)]])
      (use cs n assms(4) in \<open>auto simp: stored_def bindingNamed_def policyBindingStatusSet_def bindingPresent_def\<close>)
qed

lemma minioPolicyBinding_create_quiet:
  assumes q: "quietAttachments dn base c" and "cl_store c w = Some pb" and "heldOnly (pb_ObjectMeta pb)"
    and "bindingNamed dn base n pb" and "\<not> policyBindingStatusSet pb"
    and "bindingPresent n (cl_tenant c w) \<longrightarrow> pbs_Migrate (pb_Spec pb)" and "bindingPossible False n (cl_tenant c w)"
  shows "okRun (minioPolicyBinding_create (cl_rec c) pb) w (\<lambda>_ w'. bindingPresent n (cl_tenant c w') \<and>
    otherBindings False n (cl_tenant c w') = otherBindings False n (cl_tenant c w) \<and>
    stored c (\<lambda>y. metaStored (pb_ObjectMeta pb) (pb_ObjectMeta y) \<and> bindingNamed dn base n y \<and>
      policyBindingStatusSet y) w')"
proof -
  from assms(4) have n: "attachment dn (pb_Spec pb) = n" "oneIdentity (pb_Spec pb)" "findable dn base (pb_Spec pb)"
    by (simp_all add: bindingNamed_def)
  show ?thesis
    unfolding minioPolicyBinding_create_def Let_def
  proof (rule okRun_bind [OF quietAttachments_open [OF q assms(3)]], goal_cases)
    case (1 h w1)
    with assms(2,7) n(1) have w1: "cl_store c w1 = Some pb" "cl_tenant c w1 = cl_tenant c w"
        "bindingPossible False (attachment dn (pb_Spec pb)) (cl_tenant c w1)" by (simp_all add: keeps_def)
    show ?case
    proof (rule okRun_bind [OF quietAttachments_attach [OF q n(2) w1(3)]], goal_cases)
      case (1 x w2)
      have "cl_store c w2 = Some pb" "bindingPresent n (cl_tenant c w2)"
          "otherBindings False n (cl_tenant c w2) = otherBindings False n (cl_tenant c w)"
        using 1 w1 n(1) by (auto simp: keeps_def binding_tenant split: if_splits)
      moreover have "(if pbs_Migrate (pb_Spec pb)
          then ignoreMadminErrorCode (errOf x) ''XMinioAdminPolicyChangeAlreadyApplied'' else errOf x) = None"
        using 1 w1(2) n(1) assms(6) by (auto simp: ignoreMadminErrorCode_def split: if_splits)
      ultimately show ?case
        by (simp, intro quiet_success [OF quietAttachments_api [OF q], where x = pb])
          (use assms n in \<open>auto simp: policyBindingSame_defs\<close>)
    qed
  qed
qed

lemma minioPolicyBinding_create_refused:
  assumes q: "quietAttachments dn base c" and "heldOnly (pb_ObjectMeta pb)" and "oneIdentity (pb_Spec pb)"
    and "bindingPresent (attachment dn (pb_Spec pb)) (cl_tenant c w)" and "\<not> pbs_Migrate (pb_Spec pb)"
    and "bindingPossible False (attachment dn (pb_Spec pb)) (cl_tenant c w)"
  shows "errRun (minioPolicyBinding_create (cl_rec c) pb) w (\<lambda>_. keeps c w)"
  unfolding minioPolicyBinding_create_def Let_def
proof (rule errRun_bind [OF quietAttachments_open [OF q assms(2)]], goal_cases)
  case (1 h w1)
  with assms(6) have p: "bindingPossible False (attachment dn (pb_Spec pb)) (cl_tenant c w1)" by (simp add: keeps_def)
  note w1 = 1
  show ?case
  proof (rule errRun_bind [OF quietAttachments_attach [OF q assms(3) p]], rule errRun_bind_left, goal_cases)
    case (1 x w2)
    with assms(4) w1 have "errOf x \<noteq> None" "keeps c w w2"
      by (auto simp: keeps_def isMadminErrorCode_def split: option.splits)
    with assms(5) show ?case by (auto intro!: errRun_fail)
  qed
qed

lemma minioPolicyBinding_create_taken:
  "\<lbrakk>quietAttachments dn base c; heldOnly (pb_ObjectMeta pb); bindingNamed dn base n pb;
    bindingPresent n (cl_tenant c w); \<not> pbs_Migrate (pb_Spec pb); bindingPossible False n (cl_tenant c w)\<rbrakk>
    \<Longrightarrow> errRun (minioPolicyBinding_create (cl_rec c) pb) w (\<lambda>_. keeps c w)"
  by (rule minioPolicyBinding_create_refused) (auto simp: bindingNamed_def)

text \<open>Without its policy or its identity the creation fails, and changes nothing.\<close>

lemma minioPolicyBinding_create_waits:
  assumes q: "quietAttachments dn base c" and "heldOnly (pb_ObjectMeta pb)" and "bindingNamed dn base n pb"
    and "\<not> bindingPossible False n (cl_tenant c w)"
  shows "errRun (minioPolicyBinding_create (cl_rec c) pb) w (\<lambda>_. keeps c w)"
  unfolding minioPolicyBinding_create_def Let_def
proof (rule errRun_bind [OF quietAttachments_open [OF q assms(2)]], goal_cases)
  case (1 h w1)
  have one: "oneIdentity (pb_Spec pb)" using assms(3) by (simp add: bindingNamed_def)
  have p: "\<not> bindingPossible False (attachment dn (pb_Spec pb)) (cl_tenant c w1)"
    using 1 assms(3,4) by (simp add: keeps_def bindingNamed_def)
  show ?case
    by (rule errRun_bind [OF quietAttachments_unknown [OF q one p]], rule errRun_bind_left)
      (use 1 in \<open>auto simp: keeps_def ignoreMadminErrorCode_def intro!: errRun_fail\<close>)
qed

interpretation binding_settling: settling minioPolicyBindingReconciler_Reconcile
  minioPolicyBinding_pass minioPolicyBinding_delete minioPolicyBinding_addFinalizer
  "\<lambda>r _. minioPolicyBinding_update r" "\<lambda>r _. minioPolicyBinding_create r"
  pb_ObjectMeta "\<lambda>x m. x\<lparr>pb_ObjectMeta := m\<rparr>" policyBindingStatusSet policyBindingSame
  "quietAttachments dn base" "\<lambda>pb. pbs_Migrate (pb_Spec pb)" "bindingNamed dn base" bindingPresent
  otherBindings "\<lambda>_ _ _. True" False bindingPossible
  for dn base
  by unfold_locales
    (simp_all add: quietAttachments_api minioPolicyBinding_delete_quiet minioPolicyBinding_delete_refused
      minioPolicyBinding_update_quiet minioPolicyBinding_create_quiet minioPolicyBinding_create_taken
      minioPolicyBinding_create_waits,
     auto simp: policyBindingSame_defs minioPolicyBinding_delete_def bindingPossible_def hasIdentity_def otherBindings_eq)

lemma tenant_attach:
  "answers (e_Mutate (tenantEnv dn) w h (attachRequest spec)) R \<longleftrightarrow>
     R (fst (attachIn (attachment dn spec) (snd w))) (fst w, snd (attachIn (attachment dn spec) (snd w)))"
  "answers (e_Mutate (tenantEnv dn) w h (detachRequest spec)) R \<longleftrightarrow>
     R (fst (detachIn (attachment dn spec) (snd w))) (fst w, snd (detachIn (attachment dn spec) (snd w)))"
  by (simp_all add: tenant_answers tenantServe_def attachRequest_def detachRequest_def requestKey_def
      policyAssociation_def attachment_def bindingNames_def Let_def)

lemma listsAttached_sample: "listsAttached (set s) l p (listingOf l p s)"
  by (force simp: listsAttached_def listingOf_def)

lemma quietAttachments_sample:
  assumes "\<And>x d. get (put x d) = x"
  shows "quietAttachments dn ''ou'' (tenantAt pb_ObjectMeta dn get put)"
  unfolding quietAttachments_def
proof (intro conjI allI impI sampleAt_api sampleAt_opens assms, goal_cases)
  case (7 w h spec)
  then show ?case
    by (simp add: tenant_attach attachIn_def refused_def keeps_def moves_def attach_def bindingPresent_def tenant_eq)
next
  case (8 w h spec)
  then show ?case
    by (simp add: tenant_attach attachIn_def refused_def keeps_def)
next
  case (9 w h spec)
  then show ?case
    by (simp add: tenant_attach detachIn_def refused_def keeps_def moves_def detach_def bindingPresent_def tenant_eq)
qed (simp_all add: tenantEnv_reads answers_def keeps_def listsAttached_sample)

lemma quietAttachments_cluster: "quietAttachments dn ''ou'' (tenantCluster pb_ObjectMeta dn)"
  unfolding sampleCluster_def by (rule quietAttachments_sample) simp

abbreviation bindingsCluster ::
  "(string \<Rightarrow> string) \<Rightarrow> (MinioPolicyBinding option \<times> tenantData, MinioPolicyBinding, tenantState) cluster" where
  "bindingsCluster dn \<equiv> tenantCluster pb_ObjectMeta dn"

text \<open>A tenant with a policy and some identities, to which it may be attached.\<close>

definition bindingData :: "attached list \<Rightarrow> tenantData" where
  "bindingData l = emptyTenant\<lparr>td_users := [''u''], td_policies := [''p'' \<mapsto> (NilSlice, '''')],
     td_directory := [('''', ''uid=u,ou'')], td_attached := l\<rparr>"

lemma bindingData_simps [simp]:
  "td_attached (bindingData l) = l"
  "bindingPossible d (False, ''p'', '''', ''u'') (tenantView (bindingData l))"
  "bindingPossible d (True, ''p'', '''', ''uid=u,ou'') (tenantView (bindingData l))"
  by (simp_all add: bindingData_def bindingPossible_def hasIdentity_def)

text \<open>The bindings of the witnesses: of a built-in user, and of an LDAP user named by a DN without \<open>cn=\<close>.\<close>

definition builtinSpec :: MinioPolicyBindingSpec where
  "builtinSpec = samplePolicyBindingSpec\<lparr>pbs_User := \<lparr>pbi_Builtin = ''u'', pbi_Ldap = ''''\<rparr>\<rparr>"

definition builtinBinding :: "MinioPolicyBindingSpec option \<Rightarrow> ObjectMeta \<Rightarrow> MinioPolicyBinding" where
  "builtinBinding cs m = (samplePolicyBinding cs)\<lparr>pb_Spec := builtinSpec, pb_ObjectMeta := m\<rparr>"

definition uidSpec :: MinioPolicyBindingSpec where
  "uidSpec = samplePolicyBindingSpec\<lparr>pbs_User := \<lparr>pbi_Builtin = '''', pbi_Ldap = ''uid=u,ou''\<rparr>\<rparr>"

definition uidBinding :: MinioPolicyBinding where
  "uidBinding = (samplePolicyBinding (Some uidSpec))\<lparr>pb_Spec := uidSpec\<rparr>"

lemma builtinBinding_simps:
  "bindingNamed dn base (False, ''p'', '''', ''u'') (builtinBinding None m)"
  "bindingNamed dn base (False, ''p'', '''', ''u'') (builtinBinding (Some builtinSpec) m)"
  "heldOnly m \<Longrightarrow> inOrder pb_ObjectMeta policyBindingStatusSet (builtinBinding cs m)"
  "pb_ObjectMeta (builtinBinding cs m) = m"
  "policyBindingStatusSet (builtinBinding cs m) \<longleftrightarrow> cs \<noteq> None"
  "heldOnly (heldMeta ''pb'')" "heldOnly (deletedMeta ''pb'')"
  by (simp_all add: builtinBinding_def bindingNamed_def attachment_def oneIdentity_def findable_def
      bindingNames_def bindingLdap_def builtinSpec_def samplePolicyBindingSpec_def inOrder_def
      heldOnly_def policyBindingStatusSet_def policyBindingCurrent_def samplePolicyBinding_def)

text \<open>
  C15 - A MinioPolicyBinding settles. It names one identity, a user or a group; the tenant has the policy and that user or
  group; and if the binding is recorded, the recorded spec is the spec apart from the migrate flag. Then after
  two passes in a quiet cluster the policy is attached and the attachment recorded, unless it existed
  before, unrecorded, and the spec does not ask to migrate it. If it is being deleted, and is not recorded or still
  attached, the object is gone after two passes, and so is the attachment if it was recorded.
  (One that is recorded and no longer attached is stuck, see \<open>policy_binding_deletion_stuck\<close>.) No pass touches any
  other attachment. LDAP users are covered if their distinguished name is the one the operator computes.
\<close>

theorem policy_binding_settles:
  assumes "quietAttachments dn base c" and "cl_store c w = Some pb" and "bindingNamed dn base n pb"
    and "inOrder pb_ObjectMeta policyBindingStatusSet pb"
    and "w' = passes minioPolicyBindingReconciler_Reconcile c k w" and "bindingPossible (\<not> timeIsZero (om_DeletionTimestamp (pb_ObjectMeta pb))) n (cl_tenant c w)"
    and "T = ts_attached (cl_tenant c w)" and "T' = ts_attached (cl_tenant c w')"
  shows "T' - {n} = T - {n} \<and>
    (2 \<le> k \<longrightarrow> timeIsZero (om_DeletionTimestamp (pb_ObjectMeta pb)) \<longrightarrow>
      (n \<in> T \<longrightarrow> policyBindingStatusSet pb \<or> pbs_Migrate (pb_Spec pb)) \<longrightarrow>
      n \<in> T' \<and> stored c (\<lambda>y. bindingNamed dn base n y \<and> policyBindingStatusSet y) w') \<and>
    (2 \<le> k \<longrightarrow> \<not> timeIsZero (om_DeletionTimestamp (pb_ObjectMeta pb)) \<longrightarrow>
      (policyBindingStatusSet pb \<longrightarrow> n \<in> T) \<longrightarrow>
      cl_store c w' = None \<and> (policyBindingStatusSet pb \<longrightarrow> n \<notin> T'))"
  using binding_settling.settled [OF assms(1-6)] by (simp add: binding_tenant assms(7,8))

theorem policy_binding_settles_witness:
  "(False, ''p'', '''', ''u'') \<in> set (td_attached (snd (passes minioPolicyBindingReconciler_Reconcile
     (bindingsCluster id) 2 (Some (builtinBinding None (heldMeta ''pb'')), bindingData [])))) \<and>
   fst (passes minioPolicyBindingReconciler_Reconcile (bindingsCluster id) 2
     (Some (builtinBinding (Some builtinSpec) (deletedMeta ''pb'')), bindingData [(False, ''p'', '''', ''u'')])) = None"
  using policy_binding_settles [OF quietAttachments_cluster [of id], of
      "(Some (builtinBinding None (heldMeta ''pb'')), bindingData [])"
      "builtinBinding None (heldMeta ''pb'')" "(False, ''p'', '''', ''u'')" _ 2, OF _ _ _ refl _ refl refl]
    policy_binding_settles [OF quietAttachments_cluster [of id], of
      "(Some (builtinBinding (Some builtinSpec) (deletedMeta ''pb'')), bindingData [(False, ''p'', '''', ''u'')])"
      "builtinBinding (Some builtinSpec) (deletedMeta ''pb'')" "(False, ''p'', '''', ''u'')" _ 2, OF _ _ _ refl _ refl refl]
  by (simp add: builtinBinding_simps)

text \<open>
  C31 - A recorded attachment that was taken away behind the operator's back, while the policy and the user or group still
  exist, keeps its MinioPolicyBinding from being deleted: the tenant refuses to detach what is not
  attached, that error is not ignored, and as long as nobody else changes the tenant, however many passes follow, the
  object keeps its finalizer and every pass fails. (When the user or the group is gone too, the answer that there is
  no such user or group is ignored and the deletion goes through; that is another case, and so is a missing policy.)
\<close>

theorem policy_binding_deletion_stuck:
  assumes "quietAttachments dn base c" and "cl_store c w = Some pb" and "bindingNamed dn base n pb"
    and "heldOnly (pb_ObjectMeta pb)" and "\<not> timeIsZero (om_DeletionTimestamp (pb_ObjectMeta pb))"
    and "policyBindingStatusSet pb" and "n \<notin> ts_attached (cl_tenant c w)"
    and "w' = passes minioPolicyBindingReconciler_Reconcile c k w" and "bindingPossible True n (cl_tenant c w)"
  shows "cl_store c w' = Some pb \<and> cl_tenant c w' = cl_tenant c w \<and>
    (\<exists>e. outcome (minioPolicyBindingReconciler_Reconcile (cl_rec c) (cl_req c)) w' = Err e)"
  using binding_settling.closing_stuck [OF assms(1-6) _ _ assms(8,9)] assms(2,7) by (simp add: keeps_def bindingPresent_def)

theorem policy_binding_deletion_stuck_witness:
  "fst (passes minioPolicyBindingReconciler_Reconcile (bindingsCluster id) 5
     (Some (builtinBinding (Some builtinSpec) (deletedMeta ''pb'')), bindingData [])) =
   Some (builtinBinding (Some builtinSpec) (deletedMeta ''pb''))"
  using policy_binding_deletion_stuck [OF quietAttachments_cluster [of id], of
      "(Some (builtinBinding (Some builtinSpec) (deletedMeta ''pb'')), bindingData [])"
      "builtinBinding (Some builtinSpec) (deletedMeta ''pb'')" "(False, ''p'', '''', ''u'')" _ 5,
      OF _ _ _ _ _ _ refl]
  by (simp add: builtinBinding_simps)

text \<open>
  C32 - An attachment to an LDAP user whose distinguished name is not the one that the operator looks for
  (the name with \<open>cn=\<close> before it and the search base behind it, if it does not start with \<open>cn=\<close>) is
  forgotten although it is in place, and cannot be recorded again: from the first pass over the recorded
  binding on, the status is unset, and every later pass fails to attach what is attached already.
\<close>

theorem ldap_binding_forgotten:
  assumes q: "quietAttachments dn base c" and "cl_store c w = Some pb" and "heldOnly (pb_ObjectMeta pb)"
    and "timeIsZero (om_DeletionTimestamp (pb_ObjectMeta pb))"
    and "policyBindingCurrent pb = Some cs" and "cs = (pb_Spec pb)\<lparr>pbs_Migrate := False\<rparr>"
    and "oneIdentity cs" and "attachment dn cs \<in> ts_attached (cl_tenant c w)"
    and "lookedFor base cs \<notin> ts_attached (cl_tenant c w)"
    and "1 \<le> k" and "w' = passes minioPolicyBindingReconciler_Reconcile c k w"
    and "bindingPossible False (attachment dn cs) (cl_tenant c w)"
  shows "attachment dn cs \<in> ts_attached (cl_tenant c w') \<and> stored c (\<lambda>y. \<not> policyBindingStatusSet y) w' \<and>
    (\<exists>e. outcome (minioPolicyBindingReconciler_Reconcile (cl_rec c) (cl_req c)) w' = Err e)"
proof -
  define R where "R w' \<longleftrightarrow> cl_tenant c w' = cl_tenant c w \<and> stored c (\<lambda>y.
    metaStored (pb_ObjectMeta pb) (pb_ObjectMeta y) \<and> pb_Spec y = (pb_Spec pb)\<lparr>pbs_Migrate := False\<rparr> \<and>
    policyBindingCurrent y = None) w'" for w'
  have set: "policyBindingStatusSet pb" using assms(5) by (simp add: policyBindingStatusSet_def)
  have one: "oneIdentity (pb_Spec pb)" using assms(6,7) by simp
  have "R (stepOf minioPolicyBindingReconciler_Reconcile c w)"
  proof (rule binding_settling.step_update [OF q assms(2,3) set assms(4)])
    fix w1 assume "keeps c w w1"
    then have w1: "cl_store c w1 = Some pb" "cl_tenant c w1 = cl_tenant c w"
      using assms(2) by (simp_all add: keeps_def)
    show "okRun (minioPolicyBinding_update (cl_rec c) pb) w1 (\<lambda>_. R)"
      by (rule okRun_weaken [OF minioPolicyBinding_update_found [OF q w1(1) assms(3,5,6) one]])
        (use assms(9) w1 in \<open>simp add: R_def\<close>)
  qed
  moreover define w1 where "w1 = stepOf minioPolicyBindingReconciler_Reconcile c w"
  ultimately obtain y where t: "cl_tenant c w1 = cl_tenant c w" and y: "cl_store c w1 = Some y"
      "metaStored (pb_ObjectMeta pb) (pb_ObjectMeta y)" "pb_Spec y = cs" "policyBindingCurrent y = None"
    using assms(6) unfolding R_def by (auto simp: stored_def)
  have m: "heldOnly (pb_ObjectMeta y)" "timeIsZero (om_DeletionTimestamp (pb_ObjectMeta y))"
    using y(2) assms(3,4) by (auto simp: heldOnly_stored)
  obtain j where k: "k = Suc j" using assms(10) by (cases k) auto
  have j: "w' = passes minioPolicyBindingReconciler_Reconcile c j w1"
    by (simp add: assms(11) k w1_def funpow_Suc_right del: funpow.simps(2))
  have "keeps c w1 w' \<and> (\<exists>e. outcome (minioPolicyBindingReconciler_Reconcile (cl_rec c) (cl_req c)) w' = Err e)"
  proof (rule binding_settling.fails_stuck [OF q y(1) _ j])
    fix w2 assume "keeps c w1 w2"
    moreover have "containsFinalizer (cl_lib c) m f \<longleftrightarrow> f \<in> set (om_Finalizers m)" for m f
      using quietAttachments_api [OF q] by (simp add: quietApi_def finalizerLists_def)
    ultimately show "errRun (minioPolicyBinding_pass (cl_rec c) (cl_req c) y) w2 (\<lambda>_. keeps c w2)"
      using minioPolicyBinding_create_refused [OF q m(1), of w2] y m assms(6-8,12) t
      by (simp add: minioPolicyBinding_pass_def heldOnly_def keeps_def bindingPresent_def)
  qed
  with t y assms(8) show ?thesis by (auto simp: keeps_def stored_def policyBindingStatusSet_def)
qed

theorem ldap_binding_forgotten_witness:
  "stored (bindingsCluster id) (\<lambda>y. \<not> policyBindingStatusSet y)
     (passes minioPolicyBindingReconciler_Reconcile (bindingsCluster id) 3
       (Some uidBinding, bindingData [(True, ''p'', '''', ''uid=u,ou'')]))"
  using ldap_binding_forgotten [OF quietAttachments_cluster [of id], of
      "(Some uidBinding, bindingData [(True, ''p'', '''', ''uid=u,ou'')])" uidBinding uidSpec 3,
      OF _ _ _ _ _ _ _ _ _ refl]
  by (simp add: uidBinding_def uidSpec_def samplePolicyBinding_def samplePolicyBindingSpec_def
      policyBindingCurrent_def heldOnly_def oneIdentity_def bindingNames_def bindingLdap_def
      attachment_def lookedFor_def ldapUser_def hasPrefix_def)

end
