(* ===== verification/User_Reconciler.thy ===== *)
theory User_Reconciler
  imports Tenant_State
begin

text \<open>
  \<open>minio_user_reconciler.go\<close>: a built-in user of the tenant, with its access key in the spec or in
  a secret and its secret key in a secret whose resource version the status records.
\<close>

definition setUserCurrent :: "MinioUser \<Rightarrow> MinioUserSpec option \<Rightarrow> MinioUser" where
  "setUserCurrent u cs = u\<lparr>u_Status := (u_Status u)\<lparr>ust_CurrentSpec := cs\<rparr>\<rparr>"

definition setUserSecretVersion :: "MinioUser \<Rightarrow> string \<Rightarrow> MinioUser" where
  "setUserSecretVersion u v =
     u\<lparr>u_Status := (u_Status u)\<lparr>ust_CurrentSecretKeyRefResourceVersion := v\<rparr>\<rparr>"

definition userCurrent :: "MinioUser \<Rightarrow> MinioUserSpec option" where
  "userCurrent u = ust_CurrentSpec (u_Status u)"

definition userNamespace :: "MinioUser \<Rightarrow> string" where
  "userNamespace u = om_Namespace (u_ObjectMeta u)"

definition keyRefTarget :: "ResourceKeyRef \<Rightarrow> NamespacedName" where
  "keyRefTarget rkr = \<lparr>nn_Namespace = rkr_Namespace rkr, nn_Name = rkr_Name rkr\<rparr>"

section \<open>The access key\<close>

definition minioUser_getAccessKey ::
  "('w, MinioUser) reconciler \<Rightarrow> MinioUserSpec \<Rightarrow> string \<Rightarrow> ('w, MinioUser call, string) m" where
  "minioUser_getAccessKey r spec defaultNamespace =
     (let accessKey = '''';
          accessKey = (if us_AccessKey spec \<noteq> '''' then us_AccessKey spec else accessKey) in
     bindM (if accessKey = '''' \<and> us_AccessKeyRef spec \<noteq> emptyKeyRef then
              (let akr = ResourceKeyRef_SetDefaultNamespace (us_AccessKeyRef spec) defaultNamespace in
              bindM (getSecret (r_env r) (keyRefTarget akr)) (\<lambda>secret.
              case sec_Data secret (rkr_Key akr) of
                None \<Rightarrow> fail (GoErr (''secret key '' @ [CHR 0x27] @ rkr_Key akr @ [CHR 0x27] @ '' does not exist''))
              | Some bAccessKey \<Rightarrow> ret bAccessKey))
            else ret accessKey) (\<lambda>accessKey.
     if accessKey = '''' then fail (GoErr ''could not determine access key'')
     else ret accessKey))"

section \<open>The phases\<close>

definition minioUser_delete ::
  "('w, MinioUser) reconciler \<Rightarrow> MinioUser \<Rightarrow> ('w, MinioUser call, Result) m" where
  "minioUser_delete r u =
     (case userCurrent u of
        Some cs \<Rightarrow>
          bindM (getAdminClient r (us_TenantRef cs) (userNamespace u)) (\<lambda>mtac.
          bindM (minioUser_getAccessKey r cs (userNamespace u)) (\<lambda>accessKey.
          bindM (attempt (mutate (r_env r) mtac (RemoveUser accessKey))) (\<lambda>x.
          bindM (checkErr (ignoreMadminErrorCode (errOf x) ''XMinioAdminNoSuchUser'')) (\<lambda>_.
          bindM (updateObj r (setUserCurrent u None)) (\<lambda>u.
          success r)))))
      | None \<Rightarrow>
          bindM (updateObj r (u\<lparr>u_ObjectMeta :=
            removeFinalizer (lib (r_env r)) (u_ObjectMeta u) finalizer\<rparr>)) (\<lambda>u.
          success r))"

definition minioUser_addFinalizer ::
  "('w, MinioUser) reconciler \<Rightarrow> MinioUser \<Rightarrow> ('w, MinioUser call, Result) m" where
  "minioUser_addFinalizer r u =
     bindM (updateObj r (u\<lparr>u_ObjectMeta :=
       addFinalizer (lib (r_env r)) (u_ObjectMeta u) finalizer\<rparr>)) (\<lambda>u.
     success r)"

definition minioUser_removeMigrate ::
  "('w, MinioUser) reconciler \<Rightarrow> MinioUser \<Rightarrow> ('w, MinioUser call, MinioUser) m" where
  "minioUser_removeMigrate r u =
     (if us_Migrate (u_Spec u) then
        updateObj r (u\<lparr>u_Spec := (u_Spec u)\<lparr>us_Migrate := False\<rparr>\<rparr>)
      else ret u)"

text \<open>The end of the update: the secret key is sent again when its secret has a new version.\<close>

definition minioUser_syncSecretKey ::
  "('w, MinioUser) reconciler \<Rightarrow> NamespacedName \<Rightarrow> handle \<Rightarrow> MinioUser \<Rightarrow> MinioUserSpec \<Rightarrow> string
    \<Rightarrow> ('w, MinioUser call, Result) m" where
  "minioUser_syncSecretKey r req mtac u cs accessKey =
     (let usrr = ResourceKeyRef_SetDefaultNamespace (us_SecretKeyRef cs) (nn_Namespace req) in
     bindM (getSecret (r_env r) (keyRefTarget usrr)) (\<lambda>us.
     if om_ResourceVersion (sec_Meta us) \<noteq> ust_CurrentSecretKeyRefResourceVersion (u_Status u) then
       (let usk = mapGet (sec_Data us) (rkr_Key (us_SecretKeyRef cs)) in
       bindM (mutate (r_env r) mtac (AddUser accessKey usk)) (\<lambda>_.
       bindM (updateObj r (setUserSecretVersion u (om_ResourceVersion (sec_Meta us)))) (\<lambda>u.
       success r)))
     else success r))"

definition minioUser_update ::
  "('w, MinioUser) reconciler \<Rightarrow> NamespacedName \<Rightarrow> MinioUser \<Rightarrow> ('w, MinioUser call, Result) m" where
  "minioUser_update r req u =
     bindM (minioUser_removeMigrate r u) (\<lambda>u.
     bindM (deref (userCurrent u)) (\<lambda>cs.
     bindM (getAdminClient r (us_TenantRef cs) (userNamespace u)) (\<lambda>mtac.
     bindM (minioUser_getAccessKey r cs (userNamespace u)) (\<lambda>accessKey.
     bindM (attempt (queryM mtac (GetUserInfo accessKey)
       (\<lambda>w. e_GetUserInfo (r_env r) w mtac accessKey))) (\<lambda>x.
     let e = (\<not> isMadminErrorCode (errOf x) ''XMinioAdminNoSuchUser'');
         err = ignoreMadminErrorCode (errOf x) ''XMinioAdminNoSuchUser'' in
     bindM (checkErr err) (\<lambda>_.
     if \<not> e then
       bindM (updateObj r (setUserCurrent u None)) (\<lambda>u.
       success r)
     else minioUser_syncSecretKey r req mtac u cs accessKey))))))"

definition minioUser_create ::
  "('w, MinioUser) reconciler \<Rightarrow> NamespacedName \<Rightarrow> MinioUser \<Rightarrow> ('w, MinioUser call, Result) m" where
  "minioUser_create r req u =
     (let spec = u_Spec u in
     bindM (getAdminClient r (us_TenantRef spec) (userNamespace u)) (\<lambda>mtac.
     bindM (minioUser_getAccessKey r spec (userNamespace u)) (\<lambda>accessKey.
     bindM (attempt (queryM mtac (GetUserInfo accessKey)
       (\<lambda>w. e_GetUserInfo (r_env r) w mtac accessKey))) (\<lambda>x.
     let exists = (errOf x = None);
         err = (if exists \<and> \<not> us_Migrate spec
                then Some (GoErr (''user '' @ accessKey @ '' already exists'')) else errOf x);
         err = ignoreMadminErrorCode err ''XMinioAdminNoSuchUser'' in
     bindM (checkErr err) (\<lambda>_.
     let usrr = ResourceKeyRef_SetDefaultNamespace (us_SecretKeyRef spec) (nn_Namespace req) in
     bindM (getSecret (r_env r) (keyRefTarget usrr)) (\<lambda>us.
     let usk = mapGet (sec_Data us) (rkr_Key (us_SecretKeyRef spec)) in
     bindM (mutate (r_env r) mtac (AddUser accessKey usk)) (\<lambda>_.
     let spec = spec\<lparr>us_AccessKey := accessKey, us_Migrate := False\<rparr> in
     bindM (updateObj r (setUserSecretVersion (setUserCurrent (u\<lparr>u_Spec := spec\<rparr>) (Some spec))
       (om_ResourceVersion (sec_Meta us)))) (\<lambda>u.
     success r))))))))"

definition minioUser_pass ::
  "('w, MinioUser) reconciler \<Rightarrow> NamespacedName \<Rightarrow> MinioUser \<Rightarrow> ('w, MinioUser call, Result) m" where
  "minioUser_pass r req u =
     (if \<not> timeIsZero (om_DeletionTimestamp (u_ObjectMeta u)) then minioUser_delete r u
      else if \<not> containsFinalizer (lib (r_env r)) (u_ObjectMeta u) finalizer then
        minioUser_addFinalizer r u
      else (case userCurrent u of
              Some _ \<Rightarrow> minioUser_update r req u
            | None \<Rightarrow> minioUser_create r req u))"

definition minioUserReconciler_Reconcile ::
  "('w, MinioUser) reconciler \<Rightarrow> NamespacedName \<Rightarrow> ('w, MinioUser call, Result) m" where
  "minioUserReconciler_Reconcile r req =
     bindM (attempt (getObj r req)) (\<lambda>x.
     (case x of Inl err \<Rightarrow> getFailed r err | Inr u \<Rightarrow> minioUser_pass r req u))"

section \<open>The contract\<close>

definition userStatusSet :: "MinioUser \<Rightarrow> bool" where
  "userStatusSet u \<longleftrightarrow> userCurrent u \<noteq> None"

definition userSame :: "MinioUser \<Rightarrow> MinioUser \<Rightarrow> bool" where
  "userSame x y \<longleftrightarrow> metaStored (u_ObjectMeta x) (u_ObjectMeta y) \<and> u_Spec y = u_Spec x \<and>
     u_Status y = u_Status x"

lemma setUserCurrent_simps [simp]:
  "u_ObjectMeta (setUserCurrent u cs) = u_ObjectMeta u"
  "u_Spec (setUserCurrent u cs) = u_Spec u"
  "userCurrent (setUserCurrent u cs) = cs"
  "userCurrent (u\<lparr>u_ObjectMeta := m\<rparr>) = userCurrent u"
  by (simp_all add: setUserCurrent_def userCurrent_def)

lemma setUserSecretVersion_simps [simp]:
  "u_ObjectMeta (setUserSecretVersion u v) = u_ObjectMeta u"
  "u_Spec (setUserSecretVersion u v) = u_Spec u"
  "userCurrent (setUserSecretVersion u v) = userCurrent u"
  "ust_CurrentSecretKeyRefResourceVersion (u_Status (setUserSecretVersion u v)) = v"
  by (simp_all add: setUserSecretVersion_def userCurrent_def)

lemma minioUser_getAccessKey_triple:
  assumes "\<And>k e. P (GetSecret k, e)" and "\<And>k e. N (GetSecret k, e)"
  shows "triple P N Z (\<lambda>key. key \<noteq> '''') (minioUser_getAccessKey r spec ns)"
  unfolding minioUser_getAccessKey_def tenant_calls Let_def
  by (intro triple_intro) (use assms in auto)

lemma minioUser_getAccessKey_profile:
  "profile P N I \<Longrightarrow> triple P N True (\<lambda>key. key \<noteq> '''') (minioUser_getAccessKey r spec ns)"
  unfolding minioUser_getAccessKey_def tenant_calls Let_def
  by (intro triple_intro) (auto simp: profile_def)

lemma minioUser_removeMigrate_triple:
  assumes "profile P N (\<lambda>y. Q (u_ObjectMeta y))" and "survives r (\<lambda>y. Q (u_ObjectMeta y))"
    and "Q (u_ObjectMeta u)"
  shows "triple P N True (\<lambda>y. Q (u_ObjectMeta y)) (minioUser_removeMigrate r u)"
  unfolding minioUser_removeMigrate_def tenant_calls
  by (intro triple_intro triple_call triple_updateObj [OF assms(1,2)])
    (use assms in \<open>auto simp: profile_def\<close>)

lemma minioUser_syncSecretKey_triple:
  assumes "profile P N (\<lambda>y. Q (u_ObjectMeta y))" and "survives r (\<lambda>y. Q (u_ObjectMeta y))"
    and "Q (u_ObjectMeta u)"
  shows "triple P N True (\<lambda>res. requeueAfter res = syncInterval r)
    (minioUser_syncSecretKey r req mtac u cs k)"
  unfolding minioUser_syncSecretKey_def tenant_calls success_def Let_def
  by (intro triple_intro triple_bind_updateObj [OF assms(1,2)])
    (use assms in \<open>auto simp: profile_def\<close>)

lemma minioUser_update_triple:
  assumes "profile P N (\<lambda>y. Q (u_ObjectMeta y))" and "survives r (\<lambda>y. Q (u_ObjectMeta y))"
    and "Q (u_ObjectMeta u)"
  shows "triple P N True (\<lambda>res. requeueAfter res = syncInterval r) (minioUser_update r req u)"
  unfolding minioUser_update_def tenant_calls success_def Let_def
  by (intro triple_intro triple_bind_updateObj [OF assms(1,2)]
      minioUser_syncSecretKey_triple [OF assms(1,2), unfolded tenant_calls]
      triple_bind [OF minioUser_getAccessKey_profile [OF assms(1)]]
      triple_bind [OF minioUser_removeMigrate_triple [OF assms]]
      triple_bind [OF getAdminClient_profile [OF assms(1)]])
    (use assms in \<open>auto simp: profile_def\<close>)

lemma minioUser_create_triple:
  assumes "profile P N (\<lambda>y. Q (u_ObjectMeta y))" and "survives r (\<lambda>y. Q (u_ObjectMeta y))"
    and "Q (u_ObjectMeta u)"
  shows "triple P N True (\<lambda>res. requeueAfter res = syncInterval r) (minioUser_create r req u)"
  unfolding minioUser_create_def tenant_calls success_def Let_def
  by (intro triple_intro triple_bind_updateObj [OF assms(1,2)]
      triple_bind [OF minioUser_getAccessKey_profile [OF assms(1)]]
      triple_bind [OF getAdminClient_profile [OF assms(1)]])
    (use assms in \<open>auto simp: profile_def\<close>)

lemma minioUser_delete_safe:
  "finalizerLaws (lib (r_env r)) \<Longrightarrow>
   triple (updatesSafe (lib (r_env r)) u_ObjectMeta userStatusSet) (\<lambda>_. True) True (\<lambda>_. True)
     (minioUser_delete r u)"
  unfolding minioUser_delete_def minioUser_getAccessKey_def calls success_def Let_def
  by (intro triple_intro triple_bind [OF getAdminClient_triple])
    (auto simp: safeObj_def userStatusSet_def)

lemma minioUser_delete_ok:
  "triple (\<lambda>_. True) updateOk True (\<lambda>res. requeueAfter res = syncInterval r) (minioUser_delete r u)"
  unfolding minioUser_delete_def minioUser_getAccessKey_def calls success_def Let_def
  by (intro triple_intro triple_bind [OF getAdminClient_triple]) auto

interpretation user: phased_reconciler minioUserReconciler_Reconcile minioUser_pass
  minioUser_delete minioUser_addFinalizer minioUser_update minioUser_create
  u_ObjectMeta "\<lambda>x m. x\<lparr>u_ObjectMeta := m\<rparr>" userStatusSet userSame
  by unfold_locales
    (simp_all add: minioUserReconciler_Reconcile_def minioUser_pass_def userStatusSet_def
      minioUser_addFinalizer_def userSame_def userCurrent_def minioUser_delete_ok
      minioUser_update_triple minioUser_create_triple minioUser_delete_safe split: option.split)

section \<open>Properties\<close>

definition userAdded :: "string \<Rightarrow> (goerr option \<Rightarrow> bool) \<Rightarrow> MinioUser call event \<Rightarrow> bool" where
  "userAdded k ok ev \<longleftrightarrow>
     (case fst ev of Mutate h q \<Rightarrow> (case q of AddUser k' sk \<Rightarrow> k' = k | _ \<Rightarrow> False) | _ \<Rightarrow> False) \<and> ok (snd ev)"

definition userGone :: "string \<Rightarrow> MinioUser call event \<Rightarrow> bool" where
  "userGone k ev \<longleftrightarrow> asked (RemoveUser k) (madminOk ''XMinioAdminNoSuchUser'') ev \<or>
     looked (GetUserInfo k) (\<lambda>e. isMadminErrorCode e ''XMinioAdminNoSuchUser'') ev"

definition userFree :: "bool \<Rightarrow> string \<Rightarrow> MinioUser call event \<Rightarrow> bool" where
  "userFree migrate k ev \<longleftrightarrow> looked (GetUserInfo k)
     (\<lambda>e. if e = None then migrate else isMadminErrorCode e ''XMinioAdminNoSuchUser'') ev"

definition recordsKey :: "string \<Rightarrow> MinioUser \<Rightarrow> bool" where
  "recordsKey k y \<longleftrightarrow> (case userCurrent y of None \<Rightarrow> False | Some cs \<Rightarrow> us_AccessKey cs = k)"

definition sampleUserSpec :: MinioUserSpec where
  "sampleUserSpec = \<lparr>us_AccessKey = ''AK'', us_AccessKeyRef = emptyKeyRef, us_Migrate = False,
     us_SecretKeyRef = \<lparr>rkr_Key = ''secretKey'', rkr_Name = ''s'', rkr_Namespace = ''''\<rparr>,
     us_TenantRef = sampleRef\<rparr>"

definition sampleUser :: "MinioUserSpec option \<Rightarrow> MinioUser" where
  "sampleUser cs = \<lparr>u_TypeMeta = \<lparr>tm_Kind = ''MinioUser'', tm_APIVersion = ''v1''\<rparr>,
     u_ObjectMeta = heldMeta ''u'', u_Spec = sampleUserSpec,
     u_Status = \<lparr>ust_Synced = None, ust_CurrentSpec = cs,
       ust_CurrentSecretKeyRefResourceVersion = ''1''\<rparr>\<rparr>"

lemma sampleUser_simps [simp]:
  "userCurrent (sampleUser cs) = cs" "u_Spec (sampleUser cs) = sampleUserSpec"
  "u_ObjectMeta (sampleUser cs) = heldMeta ''u''" "us_AccessKey sampleUserSpec = ''AK''"
  "\<not> us_Migrate sampleUserSpec"
  "ust_CurrentSecretKeyRefResourceVersion (u_Status (sampleUser cs)) = ''1''"
  by (simp_all add: sampleUser_def userCurrent_def sampleUserSpec_def)

lemma userSame_refl [simp]: "userSame u u"
  by (simp add: userSame_def)

lemma userCurrent_Spec [simp]: "userCurrent (u\<lparr>u_Spec := s\<rparr>) = userCurrent u"
  by (simp add: userCurrent_def)

lemma userSame_current:
  "updateStores userSame r \<Longrightarrow> r_Update r w x = (Inr y, w') \<Longrightarrow> userCurrent y = userCurrent x"
  by (drule (1) updateStores_same) (simp add: userSame_def userCurrent_def)

lemma userAdded_simps [simp]:
  "userAdded k ok (Mutate h (AddUser k' sk), e) \<longleftrightarrow> k' = k \<and> ok e"
  "\<not> userAdded k ok (Update y, e)" "\<not> userAdded k ok (Query h q, e)" "\<not> userAdded k ok (GetSecret n, e)"
  "\<not> userAdded k ok (Get n, e)" "\<not> userAdded k ok (Mutate h (RemoveUser k'), e)"
  "isInfra c \<Longrightarrow> \<not> userAdded k ok (c, e)"
  by (simp_all add: userAdded_def, cases c, simp_all)

lemma getAccessKey_quiet:
  "(\<And>n e. \<not> Q (GetSecret n, e)) \<Longrightarrow>
     triple (\<lambda>ev. \<not> Q ev) (\<lambda>_. True) True
       (\<lambda>k. k \<noteq> '''' \<and> (us_AccessKey spec \<noteq> '''' \<longrightarrow> k = us_AccessKey spec))
       (minioUser_getAccessKey r spec ns)"
  unfolding minioUser_getAccessKey_def tenant_calls Let_def
  by (intro triple_intro) auto

lemmas minioUser_phases = minioUser_pass_def minioUser_delete_def minioUser_addFinalizer_def
  minioUser_update_def minioUser_removeMigrate_def minioUser_create_def minioUser_syncSecretKey_def
  Let_def calls success_def

subsection \<open>The status is truthful\<close>

lemma minioUser_pass_records:
  assumes "userCurrent u = None"
  shows "ordered (userAdded k accepted) (sent (recordsKey k)) False (minioUser_pass r req u)"
  unfolding minioUser_phases assms option.case
  by (intro ordered_intro ordered_bind_quiet [OF getAdminClient_sent]
      ordered_bind_quiet [OF getAccessKey_quiet])
    (auto simp: recordsKey_def assms)

lemma minioUser_pass_clears:
  assumes "updateStores userSame r" and "userCurrent u = Some cs" and "us_AccessKey cs \<noteq> ''''"
  shows "ordered (userGone (us_AccessKey cs)) (sent (\<lambda>y. \<not> userStatusSet y)) False
    (minioUser_pass r req u)"
  unfolding minioUser_phases assms option.case
  by (intro ordered_intro ordered_bind_quiet [OF getAdminClient_sent]
      ordered_bind_quiet [OF getAccessKey_quiet])
    (auto simp: userStatusSet_def assms userGone_def madminOk_def
      dest!: userSame_current [OF assms(1)])

text \<open>
  C5 - A pass over a MinioUser is truthful: a spec with some access key is recorded only after the
  tenant has accepted a user with that access key, and a recorded spec is cleared only after the
  tenant has removed the user with the recorded access key or has answered that there is none.
\<close>

theorem user_status_truthful:
  assumes "updateStores userSame r" and "r_Get r w req = (Inr u, w1)"
  shows "(userCurrent u = None \<longrightarrow> (\<forall>k.
      precededBy (userAdded k accepted) (sent (recordsKey k))
        (trace (minioUserReconciler_Reconcile r req) w))) \<and>
    (\<forall>cs. userCurrent u = Some cs \<and> us_AccessKey cs \<noteq> '''' \<longrightarrow>
      precededBy (userGone (us_AccessKey cs)) (sent (\<lambda>y. \<not> userStatusSet y))
        (trace (minioUserReconciler_Reconcile r req) w))"
  using user.reconcile_ordered [OF assms(2) minioUser_pass_records]
    user.reconcile_ordered [OF assms(2) minioUser_pass_clears [OF assms(1)]] by simp

theorem user_status_truthful_witness:
  "precededBy (userAdded ''AK'' accepted) (sent (recordsKey ''AK''))
    (trace (minioUserReconciler_Reconcile (sampleReconciler (sampleUser None)) sampleKey) ()) \<and>
   precededBy (userGone ''AK'') (sent (\<lambda>y. \<not> userStatusSet y))
    (trace (minioUserReconciler_Reconcile (sampleReconciler (sampleUser (Some sampleUserSpec)))
      sampleKey) ())"
  using user_status_truthful [of "sampleReconciler (sampleUser None)" "()" sampleKey "sampleUser None" "()"]
    user_status_truthful [of "sampleReconciler (sampleUser (Some sampleUserSpec))" "()" sampleKey
      "sampleUser (Some sampleUserSpec)" "()"]
  by (simp add: updateStores_sample)

subsection \<open>The guard of the creation\<close>

lemma minioUser_pass_asks:
  assumes "userCurrent u = None"
  shows "ordered (userFree (us_Migrate (u_Spec u)) k) (userAdded k (\<lambda>_. True)) False (minioUser_pass r req u)"
  unfolding minioUser_phases assms option.case
  by (intro ordered_intro ordered_bind_quiet [OF getAdminClient_triple]
      ordered_bind_quiet [OF getAccessKey_quiet])
    (auto simp: userFree_def ignoreMadminErrorCode_eq_None split: if_splits)

text \<open>
  A user is added for an unrecorded MinioUser only after the tenant has answered, for that very
  access key, that there is no such user or, for a spec that asks to migrate it, that there is one: an
  existing user's secret key is not overwritten unasked.
\<close>

theorem user_create_guard:
  assumes "r_Get r w req = (Inr u, w1)" and "userCurrent u = None"
  shows "precededBy (userFree (us_Migrate (u_Spec u)) k) (userAdded k (\<lambda>_. True))
      (trace (minioUserReconciler_Reconcile r req) w)"
  by (rule user.reconcile_ordered [OF assms(1) minioUser_pass_asks [OF assms(2)]]) simp

theorem user_create_guard_witness:
  "precededBy (userFree False ''AK'') (userAdded ''AK'' (\<lambda>_. True))
      (trace (minioUserReconciler_Reconcile (sampleReconciler (sampleUser None)) sampleKey) ())"
  using user_create_guard [of "sampleReconciler (sampleUser None)" "()" sampleKey "sampleUser None" "()"
      "''AK''"] by simp

subsection \<open>Access keys and secret keys\<close>

text \<open>
  The access key of a user is never empty and never made up: it is the one in the spec if
  there is one, and else the value under the referenced key of the referenced secret, whose namespace
  defaults to the given one. Looking it up makes no request to the tenant and no write.
\<close>

theorem user_access_key_source:
  assumes "minioUser_getAccessKey r spec ns w = (Ok k, w', t)"
  shows "k \<noteq> '''' \<and> list_all readOnly t \<and>
    (if us_AccessKey spec \<noteq> '''' then k = us_AccessKey spec
     else \<exists>secret v. e_GetSecret (r_env r) w
         (keyRefTarget (ResourceKeyRef_SetDefaultNamespace (us_AccessKeyRef spec) ns)) = (Inr secret, v) \<and>
       sec_Data secret (rkr_Key (us_AccessKeyRef spec)) = Some k)"
  using assms unfolding minioUser_getAccessKey_def Let_def
  by (auto simp: prim calls readOnly_def split: if_splits prod.splits sum.splits option.splits)

theorem user_access_key_source_witness:
  "list_all readOnly (trace (minioUser_getAccessKey (sampleReconciler (sampleUser None)) sampleUserSpec ''ns'') ())"
proof -
  have "minioUser_getAccessKey (sampleReconciler (sampleUser None)) sampleUserSpec ''ns'' () = (Ok ''AK'', (), [])"
    by (simp add: minioUser_getAccessKey_def prim)
  from user_access_key_source [OF this] show ?thesis
    by (simp add: minioUser_getAccessKey_def trace_def prim)
qed

text \<open>
  A changed secretKeyRef is ignored: while the secret of the recorded reference has the recorded
  resource version and the tenant knows the user, a pass over a recorded MinioUser writes nothing at
  all, whatever the spec (that does not ask to migrate) now says, even about its secret key.
\<close>

theorem user_spec_changes_ignored:
  assumes "r_Get r w req = (Inr u, w1)" and "userCurrent u = Some cs" and "\<not> us_Migrate (u_Spec u)"
    and "timeIsZero (om_DeletionTimestamp (u_ObjectMeta u))"
    and "containsFinalizer (lib (r_env r)) (u_ObjectMeta u) finalizer"
    and "\<And>w h k. fst (e_GetUserInfo (r_env r) w h k) = Inr ()"
    and "\<And>w s w'. e_GetSecret (r_env r) w
        (keyRefTarget (ResourceKeyRef_SetDefaultNamespace (us_SecretKeyRef cs) (nn_Namespace req))) = (Inr s, w')
      \<Longrightarrow> om_ResourceVersion (sec_Meta s) = ust_CurrentSecretKeyRefResourceVersion (u_Status u)"
  shows "list_all readOnly (trace (minioUserReconciler_Reconcile r req) w)"
proof -
  have pass: "minioUser_pass r req u = minioUser_update r req u"
    using assms(2,4,5) by (simp add: minioUser_pass_def)
  have known: "e_GetUserInfo (r_env r) v h k = (x, v') \<Longrightarrow> x = Inr ()" for v h k x v'
    using assms(6) [of v h k] by simp
  have "triple readOnly (\<lambda>_. True) True (\<lambda>_. True) (minioUser_update r req u)"
    unfolding minioUser_update_def minioUser_removeMigrate_def minioUser_syncSecretKey_def Let_def
      calls success_def
    by (intro triple_intro triple_bind [OF getAdminClient_triple]
        triple_bind [OF minioUser_getAccessKey_triple])
      (use assms(2,3,7) in \<open>auto dest!: known\<close>)
  then show ?thesis using user.reconcile_all [OF assms(1), of readOnly] pass by simp
qed

theorem user_spec_changes_ignored_witness:
  "list_all readOnly (trace (minioUserReconciler_Reconcile (sampleReconciler
     ((sampleUser (Some sampleUserSpec))\<lparr>u_Spec := sampleUserSpec\<lparr>us_SecretKeyRef := emptyKeyRef\<rparr>\<rparr>))
     sampleKey) ())"
  by (rule user_spec_changes_ignored [where cs = sampleUserSpec and
        u = "(sampleUser (Some sampleUserSpec))\<lparr>u_Spec := sampleUserSpec\<lparr>us_SecretKeyRef := emptyKeyRef\<rparr>\<rparr>"])
    (auto simp: sample timeIsZero_def sampleUser_def sampleUserSpec_def userCurrent_def heldMeta_def)

subsection \<open>Repeated passes in a quiet cluster\<close>

text \<open>
  The tenant is the set of its users' access keys. Every secret can be read; a user is found exactly
  if it exists, adding one that exists replaces its secret key.
\<close>

definition quietUsers :: "('w, MinioUser, tenantState) cluster \<Rightarrow> bool" where
  "quietUsers c \<longleftrightarrow> quietApi u_ObjectMeta userSame c \<and> opensAdmin c \<and>
     (\<forall>w k. answers (e_GetSecret (r_env (cl_rec c)) w k) (\<lambda>x w'. \<exists>s. x = Inr s \<and> keeps c w w')) \<and>
     (\<forall>w h n. answers (e_GetUserInfo (r_env (cl_rec c)) w h n) (\<lambda>x w'. keeps c w w' \<and>
        (if userPresent n (cl_tenant c w) then errOf x = None
         else isMadminErrorCode (errOf x) ''XMinioAdminNoSuchUser''))) \<and>
     (\<forall>w h n k. answers (e_Mutate (r_env (cl_rec c)) w h (AddUser n k))
        (\<lambda>x w'. x = Inr () \<and> moves c w (addUser n) w')) \<and>
     (\<forall>w h n. answers (e_Mutate (r_env (cl_rec c)) w h (RemoveUser n))
        (\<lambda>x w'. if userPresent n (cl_tenant c w) then x = Inr () \<and> moves c w (dropUser n) w'
           else isMadminErrorCode (errOf x) ''XMinioAdminNoSuchUser'' \<and> keeps c w w'))"

definition userNamed :: "string \<Rightarrow> MinioUser \<Rightarrow> bool" where
  "userNamed n u \<longleftrightarrow> n \<noteq> '''' \<and> us_AccessKey (u_Spec u) = n \<and>
     (\<forall>cs. userCurrent u = Some cs \<longrightarrow> us_AccessKey cs = n)"

lemmas user_tenant = userPresent_def otherUsers_eq addUser_def dropUser_def moves_def

lemmas userSame_defs = userSame_def userNamed_def userStatusSet_def userCurrent_def
  setUserCurrent_def setUserSecretVersion_def stored_def

lemma quietUsers_api: "quietUsers c \<Longrightarrow> quietApi u_ObjectMeta userSame c"
  by (simp add: quietUsers_def)

lemma quietUsers_open:
  "quietUsers c \<Longrightarrow> heldOnly (u_ObjectMeta u) \<Longrightarrow>
   okRun (getAdminClient (cl_rec c) rr (userNamespace u)) w (\<lambda>_. keeps c w)"
  by (auto simp: quietUsers_def userNamespace_def intro: quiet_admin)

lemma quietUsers_secret:
  "quietUsers c \<Longrightarrow> okRun (getSecret (r_env (cl_rec c)) k) w (\<lambda>_. keeps c w)"
  unfolding getSecret_def by (rule okRun_answers) (auto simp: quietUsers_def)

lemma quietUsers_key:
  "us_AccessKey spec \<noteq> '''' \<Longrightarrow>
   okRun (minioUser_getAccessKey r spec ns) w (\<lambda>k w'. k = us_AccessKey spec \<and> w' = w)"
  by (simp add: minioUser_getAccessKey_def okRun_ret)

lemma quietUsers_info:
  "quietUsers c \<Longrightarrow> okRun (attempt (queryM h (GetUserInfo n) (\<lambda>w. e_GetUserInfo (r_env (cl_rec c)) w h n))) w
    (\<lambda>x w'. keeps c w w' \<and> (if userPresent n (cl_tenant c w) then errOf x = None
       else isMadminErrorCode (errOf x) ''XMinioAdminNoSuchUser''))"
  unfolding queryM_def by (rule okRun_attempt_answers) (simp add: quietUsers_def)

lemma quietUsers_remove:
  assumes "quietUsers c"
  shows "okRun (attempt (mutate (r_env (cl_rec c)) h (RemoveUser n))) w
    (\<lambda>x w'. madminOk ''XMinioAdminNoSuchUser'' (errOf x) \<and> cl_store c w' = cl_store c w \<and>
       \<not> userPresent n (cl_tenant c w') \<and> otherUsers True n (cl_tenant c w') = otherUsers True n (cl_tenant c w))"
proof -
  have "answers (e_Mutate (r_env (cl_rec c)) w h (RemoveUser n))
    (\<lambda>x w'. if userPresent n (cl_tenant c w) then x = Inr () \<and> moves c w (dropUser n) w'
       else isMadminErrorCode (errOf x) ''XMinioAdminNoSuchUser'' \<and> keeps c w w')"
    using assms by (simp add: quietUsers_def)
  then show ?thesis
    unfolding mutate_def
    by (rule okRun_attempt_answers [OF answers_weaken])
      (auto simp: user_tenant keeps_def madminOk_def ignoreMadminErrorCode_def split: if_splits)
qed

lemma quietUsers_add:
  "quietUsers c \<Longrightarrow> okRun (mutate (r_env (cl_rec c)) h (AddUser n k)) w (\<lambda>_ w'. moves c w (addUser n) w')"
  unfolding mutate_def by (rule okRun_answers) (simp add: quietUsers_def)

lemma minioUser_delete_quiet:
  assumes q: "quietUsers c" and "cl_store c w = Some u" and "heldOnly (u_ObjectMeta u)"
    and "userNamed n u" and "userStatusSet u"
  shows "okRun (minioUser_delete (cl_rec c) u) w (\<lambda>_ w'. \<not> userPresent n (cl_tenant c w') \<and>
    otherUsers True n (cl_tenant c w') = otherUsers True n (cl_tenant c w) \<and> stored c (\<lambda>y. metaStored (u_ObjectMeta u) (u_ObjectMeta y) \<and> userNamed n y \<and> \<not> userStatusSet y) w')"
proof -
  from assms(5) obtain cs where cs: "userCurrent u = Some cs" by (auto simp: userStatusSet_def)
  with assms(4) have n: "us_AccessKey cs = n" "us_AccessKey cs \<noteq> ''''" by (auto simp: userNamed_def)
  then show ?thesis
    unfolding minioUser_delete_def cs option.case
    by (intro okRun_bind [OF quietUsers_open [OF q assms(3)]] okRun_bind [OF quietUsers_key [OF n(2)]]
        okRun_bind [OF quietUsers_remove [OF q]])
      (simp add: madminOk_def, rule quiet_success [OF quietUsers_api [OF q], where x = u],
       use assms in \<open>auto simp: keeps_def user_tenant userSame_defs\<close>)
qed

lemma minioUser_removeMigrate_quiet:
  assumes "quietUsers c" and "cl_store c w = Some u" and "heldOnly (u_ObjectMeta u)"
  shows "okRun (minioUser_removeMigrate (cl_rec c) u) w (\<lambda>y w'. cl_store c w' = Some y \<and>
    cl_tenant c w' = cl_tenant c w \<and> metaStored (u_ObjectMeta u) (u_ObjectMeta y) \<and>
    u_Spec y = (u_Spec u)\<lparr>us_Migrate := False\<rparr> \<and> userCurrent y = userCurrent u)"
proof (cases "us_Migrate (u_Spec u)")
  case True
  then show ?thesis
    unfolding minioUser_removeMigrate_def
    by (simp, intro okRun_weaken [OF quiet_update [OF quietUsers_api [OF assms(1)] assms(2)]])
      (use assms in \<open>auto simp: userSame_defs\<close>)
next
  case False
  then have "(u_Spec u)\<lparr>us_Migrate := False\<rparr> = u_Spec u" by (cases "u_Spec u") simp
  with False show ?thesis
    unfolding minioUser_removeMigrate_def using assms(2) by (simp add: okRun_ret)
qed

lemma minioUser_sync_quiet:
  assumes q: "quietUsers c" and "cl_store c w = Some u" and "heldOnly (u_ObjectMeta u)"
    and "userNamed n u" and "userStatusSet u" and "userPresent n (cl_tenant c w)"
  shows "okRun (minioUser_syncSecretKey (cl_rec c) req h u cs n) w (\<lambda>_ w'. userPresent n (cl_tenant c w') \<and>
    otherUsers False n (cl_tenant c w') = otherUsers False n (cl_tenant c w) \<and> stored c (\<lambda>y. metaStored (u_ObjectMeta u) (u_ObjectMeta y) \<and> userNamed n y \<and> u_Spec y = u_Spec u \<and>
      userStatusSet y) w')"
  unfolding minioUser_syncSecretKey_def Let_def
proof (rule okRun_bind [OF quietUsers_secret [OF q]])
  fix s w1 assume w1: "keeps c w w1"
  show "okRun (if om_ResourceVersion (sec_Meta s) \<noteq> ust_CurrentSecretKeyRefResourceVersion (u_Status u)
      then bindM (mutate (r_env (cl_rec c)) h (AddUser n (mapGet (sec_Data s) (rkr_Key (us_SecretKeyRef cs)))))
        (\<lambda>_. bindM (updateObj (cl_rec c) (setUserSecretVersion u (om_ResourceVersion (sec_Meta s))))
          (\<lambda>u. success (cl_rec c)))
      else success (cl_rec c)) w1 (\<lambda>_ w'. userPresent n (cl_tenant c w') \<and>
    otherUsers False n (cl_tenant c w') = otherUsers False n (cl_tenant c w) \<and> stored c (\<lambda>y. metaStored (u_ObjectMeta u) (u_ObjectMeta y) \<and> userNamed n y \<and> u_Spec y = u_Spec u \<and>
      userStatusSet y) w')"
  proof (cases "om_ResourceVersion (sec_Meta s) = ust_CurrentSecretKeyRefResourceVersion (u_Status u)")
    case True
    then show ?thesis
      by (simp, intro okRun_success) (use assms w1 in \<open>auto simp: keeps_def stored_def\<close>)
  next
    case False
    then show ?thesis
      by (simp, intro okRun_bind [OF quietUsers_add [OF q]])
        (rule quiet_success [OF quietUsers_api [OF q], where x = u],
         use assms w1 in \<open>auto simp: keeps_def user_tenant userSame_defs\<close>)
  qed
qed

lemma minioUser_update_quiet:
  assumes q: "quietUsers c" and "cl_store c w = Some u" and "heldOnly (u_ObjectMeta u)"
    and "userNamed n u" and "userStatusSet u"
  shows "okRun (minioUser_update (cl_rec c) req u) w (\<lambda>_ w'. (userPresent n (cl_tenant c w')) = (userPresent n (cl_tenant c w)) \<and>
    otherUsers False n (cl_tenant c w') = otherUsers False n (cl_tenant c w) \<and> stored c (\<lambda>y. metaStored (u_ObjectMeta u) (u_ObjectMeta y) \<and> userNamed n y \<and>
      \<not> us_Migrate (u_Spec y) \<and> userStatusSet y = (userPresent n (cl_tenant c w))) w')"
proof -
  from assms(5) obtain cs where cs: "userCurrent u = Some cs" by (auto simp: userStatusSet_def)
  with assms(4) have n: "us_AccessKey cs = n" "n \<noteq> ''''" "us_AccessKey cs \<noteq> ''''" "us_AccessKey (u_Spec u) = n"
    by (auto simp: userNamed_def)
  show ?thesis
    unfolding minioUser_update_def
  proof (rule okRun_bind [OF minioUser_removeMigrate_quiet [OF q assms(2,3)]], goal_cases)
    case (1 y w1)
    then have y: "userCurrent y = Some cs" "heldOnly (u_ObjectMeta y)"
        "cl_store c w1 = Some y" "cl_tenant c w1 = cl_tenant c w" "us_AccessKey (u_Spec y) = n"
        "\<not> us_Migrate (u_Spec y)" "metaStored (u_ObjectMeta u) (u_ObjectMeta y)"
        "userNamed n y" "userStatusSet y"
      using cs assms(3) n by (auto simp: heldOnly_stored userNamed_def userStatusSet_def)
    show ?case
      unfolding y(1) deref_simps bindM_ret
    proof (rule okRun_bind [OF quietUsers_open [OF q y(2)]], rule okRun_bind [OF quietUsers_key [OF n(3)]],
        rule okRun_bind [OF quietUsers_info [OF q]], goal_cases)
      case (1 h w2 k w2' x w3)
      with n y(3,4) have st: "cl_store c w3 = Some y" "cl_tenant c w3 = cl_tenant c w" and k: "k = n"
        and x: "if userPresent n (cl_tenant c w) then errOf x = None
          else isMadminErrorCode (errOf x) ''XMinioAdminNoSuchUser''"
        by (auto simp: keeps_def)
      show ?case
      proof (cases "userPresent n (cl_tenant c w)")
        case True
        with st have "userPresent n (cl_tenant c w3)" by simp
        from True x k show ?thesis
          by (simp, intro okRun_weaken [OF minioUser_sync_quiet [OF q st(1) y(2,8,9) \<open>userPresent n (cl_tenant c w3)\<close>]])
            (use y(6,7) st(2) in \<open>auto simp: stored_def intro: metaStored_trans\<close>)
      next
        case False
        with x show ?thesis
          by (simp add: ignoreMadminErrorCode_def, intro quiet_success [OF quietUsers_api [OF q] st(1)])
            (use st n y in \<open>auto simp: userSame_defs metaStored_def\<close>)
      qed
    qed
  qed
qed

lemma minioUser_create_quiet:
  assumes q: "quietUsers c" and "cl_store c w = Some u" and "heldOnly (u_ObjectMeta u)"
    and "userNamed n u" and "\<not> userStatusSet u" and "userPresent n (cl_tenant c w) \<longrightarrow> us_Migrate (u_Spec u)"
  shows "okRun (minioUser_create (cl_rec c) req u) w (\<lambda>_ w'. userPresent n (cl_tenant c w') \<and>
    otherUsers False n (cl_tenant c w') = otherUsers False n (cl_tenant c w) \<and> stored c (\<lambda>y. metaStored (u_ObjectMeta u) (u_ObjectMeta y) \<and> userNamed n y \<and> userStatusSet y) w')"
proof -
  from assms(4) have n: "us_AccessKey (u_Spec u) \<noteq> ''''" "us_AccessKey (u_Spec u) = n"
    by (auto simp: userNamed_def)
  show ?thesis
    unfolding minioUser_create_def Let_def
  proof (rule okRun_bind [OF quietUsers_open [OF q assms(3)]], rule okRun_bind [OF quietUsers_key [OF n(1)]],
      rule okRun_bind [OF quietUsers_info [OF q]], goal_cases)
    case (1 h w1 k w1' x w2)
    with n assms(6) have "ignoreMadminErrorCode (if errOf x = None \<and> \<not> us_Migrate (u_Spec u)
        then Some (GoErr (''user '' @ k @ '' already exists'')) else errOf x)
        ''XMinioAdminNoSuchUser'' = None"
      by (cases "errOf x") (auto simp: keeps_def ignoreMadminErrorCode_eq_None split: if_splits)
    with 1 show ?case
      by (simp, intro okRun_bind [OF quietUsers_secret [OF q]] okRun_bind [OF quietUsers_add [OF q]])
        (rule quiet_success [OF quietUsers_api [OF q], where x = u],
         use assms n in \<open>auto simp: keeps_def user_tenant userSame_defs\<close>)
  qed
qed

lemma minioUser_create_taken:
  assumes q: "quietUsers c" and "heldOnly (u_ObjectMeta u)" and "userNamed n u" and "userPresent n (cl_tenant c w)"
    and "\<not> us_Migrate (u_Spec u)"
  shows "errRun (minioUser_create (cl_rec c) req u) w (\<lambda>_. keeps c w)"
proof -
  from assms(3) have n: "us_AccessKey (u_Spec u) \<noteq> ''''" by (auto simp: userNamed_def)
  show ?thesis
    unfolding minioUser_create_def Let_def
    by (intro errRun_bind [OF quietUsers_open [OF q assms(2)]] errRun_bind [OF quietUsers_key [OF n]]
        errRun_bind [OF quietUsers_info [OF q]] errRun_bind_left)
      (use assms in \<open>auto simp: userNamed_def keeps_def ignoreMadminErrorCode_def intro!: errRun_fail\<close>)
qed

interpretation user_settling: settling minioUserReconciler_Reconcile minioUser_pass
  minioUser_delete minioUser_addFinalizer minioUser_update minioUser_create
  u_ObjectMeta "\<lambda>x m. x\<lparr>u_ObjectMeta := m\<rparr>" userStatusSet userSame
  quietUsers "\<lambda>u. us_Migrate (u_Spec u)" userNamed userPresent otherUsers "\<lambda>_ _ _. True"
  True "\<lambda>_ _ _. True"
  by unfold_locales
    (simp_all add: quietUsers_api minioUser_delete_quiet minioUser_update_quiet
      minioUser_create_quiet minioUser_create_taken,
     auto simp: userSame_defs otherUsers_eq minioUser_delete_def)

lemma quietUsers_sample:
  assumes "\<And>x d. get (put x d) = x"
  shows "quietUsers (tenantAt u_ObjectMeta dn get put)"
  unfolding quietUsers_def
proof (intro conjI allI sampleAt_api sampleAt_opens assms, goal_cases)
  case (6 w h n k)
  show ?case
    by (simp add: tenant_answers tenantServe_def moves_def addUser_def tenant_eq)
next
  case (7 w h n)
  show ?case
    by (cases "n \<in> set (td_users (snd w))")
      (auto simp: tenant_answers tenantServe_def refused_def moves_def dropUser_def tenant_eq
        userPresent_def keeps_def)
qed (simp_all add: tenantEnv_reads answers_def keeps_def userPresent_def)

lemma quietUsers_cluster: "quietUsers (tenantCluster u_ObjectMeta dn)"
  unfolding sampleCluster_def by (rule quietUsers_sample) simp

text \<open>
  A MinioUser with an access key settles: after two passes in a quiet cluster the user exists and
  is recorded, unless a user with that access key existed before and the spec does not ask to migrate
  it; two passes after its deletion the object is gone, and so is the user if it was recorded. No pass
  touches any other user.
\<close>

theorem user_settles:
  assumes "quietUsers c" and "cl_store c w = Some u" and "userNamed n u"
    and "inOrder u_ObjectMeta userStatusSet u"
    and "w' = passes minioUserReconciler_Reconcile c k w"
    and "U = ts_users (cl_tenant c w)" and "U' = ts_users (cl_tenant c w')"
  shows "U' - {n} = U - {n} \<and>
    (2 \<le> k \<longrightarrow> timeIsZero (om_DeletionTimestamp (u_ObjectMeta u)) \<longrightarrow>
      (n \<in> U \<longrightarrow> userStatusSet u \<or> us_Migrate (u_Spec u)) \<longrightarrow>
      n \<in> U' \<and> stored c (\<lambda>y. userNamed n y \<and> userStatusSet y) w') \<and>
    (2 \<le> k \<longrightarrow> \<not> timeIsZero (om_DeletionTimestamp (u_ObjectMeta u)) \<longrightarrow>
      cl_store c w' = None \<and> (userStatusSet u \<longrightarrow> n \<notin> U'))"
  using user_settling.settled [OF assms(1-5)] by (simp add: otherUsers_eq userPresent_def assms(6,7))

theorem user_settles_witness:
  "let w' = passes minioUserReconciler_Reconcile (tenantCluster u_ObjectMeta id) 2
     (Some (sampleUser (Some sampleUserSpec)), emptyTenant) in ''AK'' \<in> set (td_users (snd w'))"
  using user_settles [OF quietUsers_cluster [of id], of "(Some (sampleUser (Some sampleUserSpec)), emptyTenant)"
      "sampleUser (Some sampleUserSpec)" "''AK''" _ 2, OF _ _ _ refl refl refl]
  by (simp add: userNamed_def inOrder_def heldOnly_def userStatusSet_def Let_def)

end
