(* ===== verification/Credentials.thy ===== *)
theory Credentials
  imports Sample_Env
begin

text \<open>
  The credentials of \<open>minio_access_key_reconciler.go\<close>: the pair of keys, the hash that decides
  whether the generated secret must be rewritten, and the random keys. The standard library's
  \<open>encoding/binary\<close>, \<open>encoding/hex\<close> and \<open>encoding/base32\<close> are written out; SHA-256 and the random
  source are parameters.
\<close>

definition AccessKeyFieldAccessKey :: string where
  "AccessKeyFieldAccessKey = ''accessKey''"

definition AccessKeyFieldSecretKey :: string where
  "AccessKeyFieldSecretKey = ''secretKey''"

record minioAccessKeyCredentials =
  AccessKey :: string
  SecretKey :: string

section \<open>The hash\<close>

text \<open>\<open>binary.Write(&buf, binary.BigEndian, uint32(n))\<close>\<close>

definition bigEndian32 :: "32 word \<Rightarrow> string" where
  "bigEndian32 w = map (\<lambda>i. char_of (unat (drop_bit (8 * i) w))) [3, 2, 1, 0]"

definition credentialsPreimage :: "minioAccessKeyCredentials \<Rightarrow> string" where
  "credentialsPreimage c =
     bigEndian32 (of_nat (length (AccessKey c))) @ AccessKey c @
     bigEndian32 (of_nat (length (SecretKey c))) @ SecretKey c"

definition hexDigit :: "nat \<Rightarrow> char" where
  "hexDigit n = ''0123456789abcdef'' ! n"

definition hexEncode :: "string \<Rightarrow> string" where
  "hexEncode s = concat (map (\<lambda>c. [hexDigit (of_char c div 16), hexDigit (of_char c mod 16)]) s)"

definition minioAccessKeyCredentials_getHash :: "Lib \<Rightarrow> minioAccessKeyCredentials \<Rightarrow> string" where
  "minioAccessKeyCredentials_getHash L c = hexEncode (sha256 L (credentialsPreimage c))"

definition getCredentialsFromSecret :: "Secret \<Rightarrow> minioAccessKeyCredentials" where
  "getCredentialsFromSecret secret =
     \<lparr>AccessKey = mapGet (sec_Data secret) AccessKeyFieldAccessKey,
      SecretKey = mapGet (sec_Data secret) AccessKeyFieldSecretKey\<rparr>"

section \<open>Random keys\<close>

definition crockfordAlphabet :: string where
  "crockfordAlphabet = ''0123456789ABCDEFGHJKMNPQRSTVWXYZ''"

text \<open>
  \<open>crockford.EncodeToString\<close>: the bits of the input, most significant first, in groups of five, the
  last group filled with zero bits; no padding characters.
\<close>

definition byteBits :: "8 word \<Rightarrow> bool list" where
  "byteBits b = map (bit b) [7, 6, 5, 4, 3, 2, 1, 0]"

definition bitsValue :: "bool list \<Rightarrow> nat" where
  "bitsValue bs = foldl (\<lambda>n b. 2 * n + of_bool b) 0 bs"

fun groups5 :: "bool list \<Rightarrow> bool list list" where
  "groups5 [] = []"
| "groups5 (a # b # c # d # e # bs) = [a, b, c, d, e] # groups5 bs"
| "groups5 bs = [bs @ replicate (5 - length bs) False]"

definition crockfordEncode :: "8 word list \<Rightarrow> string" where
  "crockfordEncode buf =
     map (\<lambda>g. crockfordAlphabet ! bitsValue g) (groups5 (concat (map byteBits buf)))"

text \<open>\<open>r.createRandomString\<close>; slicing a string beyond its end panics.\<close>

definition createRandomString :: "'w env \<Rightarrow> nat \<Rightarrow> ('w, 'o call, string) m" where
  "createRandomString E n =
     (let numBytes = (n * 5 + 7) div 8 in
     bindM (randRead E numBytes) (\<lambda>buf.
     let s = crockfordEncode buf in
     if length s < n then panic else ret (take n s)))"

text \<open>\<open>rand.Read\<close> fills its buffer.\<close>

definition randFills :: "'w env \<Rightarrow> bool" where
  "randFills E \<longleftrightarrow> (\<forall>w n buf w'. e_RandRead E w n = (Inr buf, w') \<longrightarrow> length buf = n)"

section \<open>The preimage determines the credentials\<close>

lemma length_bigEndian32 [simp]: "length (bigEndian32 w) = 4"
  by (simp add: bigEndian32_def)

lemma bigEndian32_bytes:
  assumes "bigEndian32 v = bigEndian32 w" and "i < 4"
  shows "unat (drop_bit (8 * i) v) mod 256 = unat (drop_bit (8 * i) w) mod 256"
proof -
  have "i \<in> set [3, 2, 1, 0]" using assms(2) by auto
  then have "(char_of (unat (drop_bit (8 * i) v)) :: char) = char_of (unat (drop_bit (8 * i) w))"
    using assms(1) unfolding bigEndian32_def map_eq_conv by blast
  then show ?thesis by simp
qed

lemma nat_eq_by_byte: "m mod 256 = n mod 256 \<Longrightarrow> m div 256 = n div 256 \<Longrightarrow> m = (n :: nat)"
  by (metis div_mult_mod_eq)

lemma nat_eq_by_bytes:
  assumes "\<And>i. i < 4 \<Longrightarrow> m div 2 ^ (8 * i) mod 256 = n div 2 ^ (8 * i) mod (256 :: nat)"
    and "m < 2 ^ 32" and "n < 2 ^ 32"
  shows "m = n"
proof -
  have split: "k div 16777216 div 256 = k div 4294967296" "k div 65536 div 256 = k div 16777216"
    "k div 256 div 256 = k div 65536" for k :: nat
    using div_exp_eq [of k 24 8] div_exp_eq [of k 16 8] div_exp_eq [of k 8 8] by simp_all
  have "m div 16777216 = n div 16777216"
    using assms(1) [of 3] assms(2,3) by - (rule nat_eq_by_byte, simp_all add: split)
  then have "m div 65536 = n div 65536"
    using assms(1) [of 2] by - (rule nat_eq_by_byte, simp_all add: split)
  then have "m div 256 = n div 256"
    using assms(1) [of 1] by - (rule nat_eq_by_byte, simp_all add: split)
  then show ?thesis
    using assms(1) [of 0] by - (rule nat_eq_by_byte, simp_all)
qed

lemma bigEndian32_inj:
  assumes "bigEndian32 v = bigEndian32 w"
  shows "v = w"
proof -
  have "unat x < 2 ^ 32" for x :: "32 word"
    using unsigned_less [of x, where 'a = nat] by simp
  moreover have "unat v div 2 ^ (8 * i) mod 256 = unat w div 2 ^ (8 * i) mod 256" if "i < 4" for i
    using bigEndian32_bytes [OF assms that, unfolded unat_drop_bit_eq] by (simp only: drop_bit_eq_div)
  ultimately have "unat v = unat w" by - (rule nat_eq_by_bytes, blast+)
  then show ?thesis by (simp add: word_unat_eq_iff)
qed

lemma credentialsPreimage_inj:
  assumes "credentialsPreimage c = credentialsPreimage d"
    and "length (AccessKey c) < 2 ^ 32" "length (SecretKey c) < 2 ^ 32"
    and "length (AccessKey d) < 2 ^ 32" "length (SecretKey d) < 2 ^ 32"
  shows "c = (d :: minioAccessKeyCredentials)"
proof -
  note eq = assms(1) [unfolded credentialsPreimage_def]
  have small: "m = n" if "(of_nat m :: 32 word) = of_nat n" "m < 2 ^ 32" "n < 2 ^ 32" for m n
    using arg_cong [OF that(1), of unat] that(2,3) by (simp add: unsigned_of_nat take_bit_nat_eq_self)
  have 1: "bigEndian32 (of_nat (length (AccessKey c))) = bigEndian32 (of_nat (length (AccessKey d)))"
    and rest: "AccessKey c @ bigEndian32 (of_nat (length (SecretKey c))) @ SecretKey c
      = AccessKey d @ bigEndian32 (of_nat (length (SecretKey d))) @ SecretKey d"
    using eq by (simp_all add: append_eq_append_conv)
  have "length (AccessKey c) = length (AccessKey d)"
    by (rule small [OF bigEndian32_inj [OF 1] assms(2,4)])
  with rest show ?thesis
    by (cases c; cases d) (simp add: append_eq_append_conv)
qed

section \<open>Hexadecimal digits\<close>

lemma hexDigit_inj: "m < 16 \<Longrightarrow> n < 16 \<Longrightarrow> hexDigit m = hexDigit n \<longleftrightarrow> m = n"
proof -
  have "distinct ''0123456789abcdef''" by simp
  then show "m < 16 \<Longrightarrow> n < 16 \<Longrightarrow> hexDigit m = hexDigit n \<longleftrightarrow> m = n"
    unfolding hexDigit_def by (intro nth_eq_iff_index_eq) simp_all
qed

lemma hexEncode_inj: "hexEncode s = hexEncode t \<Longrightarrow> s = t"
proof (induction s arbitrary: t)
  case Nil
  then show ?case by (cases t) (simp_all add: hexEncode_def)
next
  case (Cons a s)
  then obtain b t' where t: "t = b # t'" by (cases t) (auto simp: hexEncode_def)
  have lt: "(of_char c :: nat) div 16 < 16" for c
    using of_char_mod_256 [of c, where 'a = nat] mod_less_divisor [of 256 "of_char c"] by linarith
  from Cons.prems t have "(of_char a :: nat) div 16 = of_char b div 16"
      "(of_char a :: nat) mod 16 = of_char b mod 16" "hexEncode s = hexEncode t'"
    by (simp_all add: hexEncode_def hexDigit_inj lt)
  then show ?case using Cons.IH t by (metis div_mult_mod_eq of_char_eq_iff)
qed

section \<open>The random keys\<close>

lemma length_byteBits [simp]: "length (byteBits b) = 8"
  by (simp add: byteBits_def)

lemma length_groups5: "length (groups5 bs) = (length bs + 4) div 5"
  by (induction bs rule: groups5.induct) simp_all

lemma length_group: "g \<in> set (groups5 bs) \<Longrightarrow> length g = 5"
  by (induction bs rule: groups5.induct) auto

lemma concat_groups5: "take (length bs) (concat (groups5 bs)) = bs"
  by (induction bs rule: groups5.induct) simp_all

lemma list5_cases:
  assumes "length g = 5"
  obtains a b c d e where "g = [a, b, c, d, e]"
  using assms by (auto simp: length_Suc_conv numeral_eq_Suc)

lemma bitsValue_less: "length g = 5 \<Longrightarrow> bitsValue g < 32"
  by (erule list5_cases) (simp add: bitsValue_def)

lemma bitsValue_inj: "length g = 5 \<Longrightarrow> length h = 5 \<Longrightarrow> bitsValue g = bitsValue h \<Longrightarrow> g = h"
  by (elim list5_cases) (auto simp: bitsValue_def of_bool_def split: if_splits; presburger)

lemma distinct_crockford: "distinct crockfordAlphabet"
  by (simp add: crockfordAlphabet_def)

lemma length_crockford [simp]: "length crockfordAlphabet = 32"
  by (simp add: crockfordAlphabet_def)

lemma length_concat_byteBits: "length (concat (map byteBits buf)) = 8 * length buf"
  by (induction buf) simp_all

lemma length_crockfordEncode: "length (crockfordEncode buf) = (8 * length buf + 4) div 5"
  by (simp add: crockfordEncode_def length_groups5 length_concat_byteBits)

lemma set_crockfordEncode: "set (crockfordEncode buf) \<subseteq> set crockfordAlphabet"
  unfolding crockfordEncode_def
  by (auto intro!: nth_mem simp: bitsValue_less length_group)

lemma map_digit_inj:
  assumes "map (\<lambda>g. crockfordAlphabet ! bitsValue g) gs = map (\<lambda>g. crockfordAlphabet ! bitsValue g) hs"
    and "\<forall>g \<in> set gs \<union> set hs. length g = 5"
  shows "gs = hs"
  using assms
proof (induction gs arbitrary: hs)
  case (Cons g gs)
  then obtain h hs' where hs: "hs = h # hs'" by (cases hs) auto
  have "bitsValue g = bitsValue h"
    using Cons.prems hs distinct_crockford by (simp add: nth_eq_iff_index_eq bitsValue_less)
  then have "g = h" using Cons.prems(2) hs by (intro bitsValue_inj) simp_all
  then show ?case using Cons hs by auto
qed simp

text \<open>
  The first \<open>n\<close> characters of the encoding determine the first \<open>5 * n\<close> bits: cutting the string
  loses no randomness but the bits that are cut.
\<close>

lemma take_crockfordEncode_inj:
  assumes "take n (crockfordEncode buf) = take n (crockfordEncode buf')" and "length buf = length buf'"
  shows "take (5 * n) (concat (map byteBits buf)) = take (5 * n) (concat (map byteBits buf'))"
proof -
  let ?b = "concat (map byteBits buf)" and ?b' = "concat (map byteBits buf')"
  have "take n (groups5 ?b) = take n (groups5 ?b')"
    using assms(1) unfolding crockfordEncode_def take_map
    by (rule map_digit_inj) (auto dest: in_set_takeD length_group)
  then have "concat (take n (groups5 ?b)) = concat (take n (groups5 ?b'))" by simp
  moreover have take_concat: "concat (take n gs) = take (5 * n) (concat gs)"
    if "\<forall>g \<in> set gs. length g = 5" for gs :: "bool list list"
    using that
  proof (induction gs arbitrary: n)
    case (Cons g gs)
    then show ?case by (cases n) simp_all
  qed simp
  ultimately have "take (5 * n) (concat (groups5 ?b)) = take (5 * n) (concat (groups5 ?b'))"
    using length_group by simp
  then have "take (length ?b) (take (5 * n) (concat (groups5 ?b)))
      = take (length ?b') (take (5 * n) (concat (groups5 ?b')))"
    by (simp add: length_concat_byteBits assms(2))
  then show ?thesis by (metis concat_groups5 take_take min.commute)
qed

lemma createRandomString_triple:
  assumes "randFills E" and "\<And>e. P (RandRead ((n * 5 + 7) div 8), e)"
    and "\<And>e. N (RandRead ((n * 5 + 7) div 8), e)"
  shows "triple P N False (\<lambda>s. length s = n \<and> set s \<subseteq> set crockfordAlphabet) (createRandomString E n)"
proof -
  have "n \<le> length (crockfordEncode buf)" if "e_RandRead E w ((n * 5 + 7) div 8) = (Inr buf, w')"
    for w buf w'
  proof -
    have "length buf = (n * 5 + 7) div 8" using assms(1) that unfolding randFills_def by blast
    then show ?thesis by (simp add: length_crockfordEncode)
  qed
  then show ?thesis
    unfolding createRandomString_def randRead_def Let_def
    by (intro triple_intro triple_panic)
      (use assms(2,3) set_crockfordEncode in \<open>fastforce dest: in_set_takeD\<close>)+
qed

lemma createRandomString_run:
  "e_RandRead E w ((n * 5 + 7) div 8) = (Inr buf, w') \<Longrightarrow> outcome (createRandomString E n) w =
     (if length (crockfordEncode buf) < n then Panic else Ok (take n (crockfordEncode buf)))"
  by (simp add: createRandomString_def Let_def outcome_def prim calls)

section \<open>Properties\<close>

text \<open>
  C25 - The hash of the credentials tells any two pairs of keys apart, as long as the digest does and
  the keys are shorter than four gigabytes: the length prefixes leave no way to move characters from
  one key to the other. So the generated secret is rewritten whenever a key changes.
\<close>

theorem credentials_hash_injective:
  assumes "minioAccessKeyCredentials_getHash L c = minioAccessKeyCredentials_getHash L d"
    and "sha256 L (credentialsPreimage c) = sha256 L (credentialsPreimage d) \<Longrightarrow>
      credentialsPreimage c = credentialsPreimage d"
    and "length (AccessKey c) < 2 ^ 32" and "length (SecretKey c) < 2 ^ 32"
    and "length (AccessKey d) < 2 ^ 32" and "length (SecretKey d) < 2 ^ 32"
  shows "c = (d :: minioAccessKeyCredentials)"
  using credentialsPreimage_inj assms hexEncode_inj
  unfolding minioAccessKeyCredentials_getHash_def by blast

theorem credentials_hash_injective_witness:
  "minioAccessKeyCredentials_getHash sampleLib \<lparr>AccessKey = ''ab'', SecretKey = ''c''\<rparr> \<noteq>
   minioAccessKeyCredentials_getHash sampleLib \<lparr>AccessKey = ''a'', SecretKey = ''bc''\<rparr>"
proof
  let ?c = "\<lparr>AccessKey = ''ab'', SecretKey = ''c''\<rparr>" and ?d = "\<lparr>AccessKey = ''a'', SecretKey = ''bc''\<rparr>"
  assume "minioAccessKeyCredentials_getHash sampleLib ?c = minioAccessKeyCredentials_getHash sampleLib ?d"
  moreover have "sha256 sampleLib (credentialsPreimage ?c) \<noteq> sha256 sampleLib (credentialsPreimage ?d)"
    by (simp add: sampleLib_def sampleDigest_def credentialsPreimage_def bigEndian32_def
        drop_bit_eq_div char_of_def bit_0 numeral_eq_Suc)
  ultimately have "?c = ?d" by (intro credentials_hash_injective; (simp; fail | blast))
  then show False by simp
qed

text \<open>
  C37 - A random key has the length asked for and only characters of the alphabet, the code never
  panics, and it asks the random source once.
\<close>

theorem createRandomString_shape:
  assumes "randFills E"
  shows "outcome (createRandomString E n) w \<noteq> Panic \<and>
    (\<forall>s. outcome (createRandomString E n) w = Ok s \<longrightarrow> length s = n \<and> set s \<subseteq> set crockfordAlphabet) \<and>
    map fst (trace (createRandomString E n) w) = [RandRead ((n * 5 + 7) div 8)]"
proof -
  have t: "triple (\<lambda>_. True) (\<lambda>_. True) False (\<lambda>s. length s = n \<and> set s \<subseteq> set crockfordAlphabet)
    (createRandomString E n)"
    by (rule createRandomString_triple [OF assms]) simp_all
  have reads: "map fst (trace (createRandomString E n) w) = [RandRead ((n * 5 + 7) div 8)]"
    by (auto simp: createRandomString_def Let_def trace_def prim calls split: prod.split sum.split)
  show ?thesis
    by (intro conjI allI impI triple_no_panic [OF t] reads; drule triple_post [OF t]; simp)
qed

theorem createRandomString_shape_witness:
  "outcome (createRandomString sampleEnv 20) () \<noteq> Panic"
proof -
  have "randFills (sampleEnv :: unit env)" by (simp add: randFills_def anyWorldEnv_def)
  from createRandomString_shape [OF this] show ?thesis by blast
qed

text \<open>
  A random key keeps the randomness it is made of: if two draws give the same key, then the
  bytes drawn agree in the first five bits per character, which are all of them for the secret keys
  of 40 characters and 100 of 104 bits for the access keys of 20.
\<close>

theorem createRandomString_injective:
  assumes "e_RandRead E w ((n * 5 + 7) div 8) = (Inr buf, w1)"
    and "e_RandRead E w' ((n * 5 + 7) div 8) = (Inr buf', w2)" and "length buf = length buf'"
    and "outcome (createRandomString E n) w = Ok s" and "outcome (createRandomString E n) w' = Ok s"
  shows "take (5 * n) (concat (map byteBits buf)) = take (5 * n) (concat (map byteBits buf'))"
proof (rule take_crockfordEncode_inj [OF _ assms(3)])
  show "take n (crockfordEncode buf) = take n (crockfordEncode buf')"
    using assms(4,5) by (simp add: createRandomString_run [OF assms(1)]
      createRandomString_run [OF assms(2)] split: if_splits)
qed

definition twoDraws :: "bool env" where
  "twoDraws = anyWorldEnv\<lparr>e_RandRead := \<lambda>w n. (Inr [if w then 255 else 252], w)\<rparr>"

theorem createRandomString_injective_witness:
  "take 5 (concat (map byteBits [255])) = take 5 (concat (map byteBits [252]))"
proof -
  have "outcome (createRandomString twoDraws 1) True = Ok ''Z''"
    "outcome (createRandomString twoDraws 1) False = Ok ''Z''"
    by (simp_all add: createRandomString_def twoDraws_def crockfordEncode_def byteBits_def bitsValue_def
        crockfordAlphabet_def outcome_def prim calls Let_def)
  from createRandomString_injective [OF _ _ _ this, of "[255]" True "[252]" False] show ?thesis
    by (simp add: twoDraws_def)
qed

end
