(* ===== verification/Access_Key_Reconciler.thy ===== *)
theory Access_Key_Reconciler
  imports Reconcile_Contract Policy_Hash Credentials
begin

text \<open>
  \<open>minio_access_key_reconciler.go\<close>: a service account of a tenant user. Its credentials come from
  the spec, from referenced secrets or from the random source, and are kept in a generated secret
  that the resource owns.
\<close>

definition setAccessKeyCurrent :: "MinioAccessKey \<Rightarrow> MinioAccessKeySpec option \<Rightarrow> MinioAccessKey" where
  "setAccessKeyCurrent ak cs = ak\<lparr>ak_Status := (ak_Status ak)\<lparr>akst_CurrentSpec := cs\<rparr>\<rparr>"

definition setAccessKeySecretVersion :: "MinioAccessKey \<Rightarrow> string \<Rightarrow> MinioAccessKey" where
  "setAccessKeySecretVersion ak v =
     ak\<lparr>ak_Status := (ak_Status ak)\<lparr>akst_CurrentSecretResourceVersion := v\<rparr>\<rparr>"

definition accessKeyCurrent :: "MinioAccessKey \<Rightarrow> MinioAccessKeySpec option" where
  "accessKeyCurrent ak = akst_CurrentSpec (ak_Status ak)"

definition accessKeyNamespace :: "MinioAccessKey \<Rightarrow> string" where
  "accessKeyNamespace ak = om_Namespace (ak_ObjectMeta ak)"

text \<open>The generated secret named by a spec; \<open>errors.IsNotFound\<close> of an error that may be nil.\<close>

definition generatedSecret :: "MinioAccessKey \<Rightarrow> MinioAccessKeySpec \<Rightarrow> NamespacedName" where
  "generatedSecret ak spec = \<lparr>nn_Namespace = accessKeyNamespace ak, nn_Name = aks_SecretName spec\<rparr>"

definition errNotFound :: "Lib \<Rightarrow> goerr option \<Rightarrow> bool" where
  "errNotFound L err = (case err of None \<Rightarrow> False | Some e \<Rightarrow> isNotFound L e)"

section \<open>Desired credentials\<close>

definition keyFromRef ::
  "('w, MinioAccessKey) reconciler \<Rightarrow> string \<Rightarrow> string \<Rightarrow> ResourceKeyRef
    \<Rightarrow> ('w, MinioAccessKey call, string) m" where
  "keyFromRef r ns what rkr =
     (let akr = ResourceKeyRef_SetDefaultNamespace rkr ns in
     bindM (getSecret (r_env r) \<lparr>nn_Namespace = rkr_Namespace akr, nn_Name = rkr_Name akr\<rparr>) (\<lambda>secret.
     case sec_Data secret (rkr_Key rkr) of
       None \<Rightarrow> fail (GoErr (what @ '' ref has no key '' @ rkr_Key rkr))
     | Some key \<Rightarrow> ret key))"

text \<open>
  The access key and the secret key are determined by the same steps: the spec (which holds no secret
  key: \<open>given\<close> is then empty), the reference, the current credentials, the random source.
\<close>

definition desiredKey ::
  "('w, MinioAccessKey) reconciler \<Rightarrow> MinioAccessKey \<Rightarrow> string \<Rightarrow> string \<Rightarrow> ResourceKeyRef
    \<Rightarrow> string option \<Rightarrow> nat \<Rightarrow> ('w, MinioAccessKey call, string) m" where
  "desiredKey r ak what given rkr current n =
     bindM (if given = '''' \<and> rkr \<noteq> emptyKeyRef then keyFromRef r (accessKeyNamespace ak) what rkr
            else ret given) (\<lambda>key.
     let key = (case current of Some c \<Rightarrow> if key = '''' then c else key | None \<Rightarrow> key) in
     if key = '''' \<and> \<not> aks_Migrate (ak_Spec ak) then createRandomString (r_env r) n
     else ret key)"

definition getDesiredCredentials ::
  "('w, MinioAccessKey) reconciler \<Rightarrow> MinioAccessKey \<Rightarrow> minioAccessKeyCredentials option
    \<Rightarrow> ('w, MinioAccessKey call, minioAccessKeyCredentials) m" where
  "getDesiredCredentials r ak current =
     (let spec = ak_Spec ak in
     bindM (desiredKey r ak ''access key'' (aks_AccessKey spec) (aks_AccessKeyRef spec)
       (map_option AccessKey current) 20) (\<lambda>accessKey.
     bindM (desiredKey r ak ''secret key'' '''' (aks_SecretKeyRef spec)
       (map_option SecretKey current) 40) (\<lambda>secretKey.
     if aks_Migrate spec \<and> (accessKey = '''' \<or> secretKey = '''') then
       fail (GoErr ''cannot determine desired credentials for migrated access key'')
     else ret \<lparr>AccessKey = accessKey, SecretKey = secretKey\<rparr>)))"

section \<open>The generated secret\<close>

definition credentialsSecret :: "MinioAccessKey \<Rightarrow> minioAccessKeyCredentials \<Rightarrow> Secret" where
  "credentialsSecret ak creds =
     emptySecret\<lparr>sec_Meta := emptyMeta\<lparr>om_Namespace := accessKeyNamespace ak,
                                     om_Name := aks_SecretName (ak_Spec ak)\<rparr>,
                 sec_Type := ''Opaque'',
                 sec_Data := [AccessKeyFieldAccessKey \<mapsto> AccessKey creds,
                              AccessKeyFieldSecretKey \<mapsto> SecretKey creds]\<rparr>"

definition createCredentialsSecret ::
  "('w, MinioAccessKey) reconciler \<Rightarrow> MinioAccessKey \<Rightarrow> ('w, MinioAccessKey call, Secret) m" where
  "createCredentialsSecret r ak =
     bindM (getDesiredCredentials r ak None) (\<lambda>creds.
     bindM (liftE (setOwnerReference (lib (r_env r)) ak (credentialsSecret ak creds))) (\<lambda>secret.
     createSecret (r_env r) secret))"

text \<open>
  \<open>updateCredentialsSecret\<close> returns the secret and the resource, whose status it may have changed.
  When the get finds nothing, \<open>secret\<close> is still the zero value, which the delete then names.
\<close>

definition updateCredentialsSecret ::
  "('w, MinioAccessKey) reconciler \<Rightarrow> MinioAccessKey
    \<Rightarrow> ('w, MinioAccessKey call, Secret \<times> MinioAccessKey) m" where
  "updateCredentialsSecret r ak =
     (let E = r_env r; L = lib E in
     bindM (deref (accessKeyCurrent ak)) (\<lambda>cs.
     bindM (attempt (getSecret E (generatedSecret ak cs))) (\<lambda>x.
     let secret = (case x of Inr s \<Rightarrow> s | Inl _ \<Rightarrow> emptySecret);
         exists = (\<not> errNotFound L (errOf x)) in
     bindM (checkErr (if errNotFound L (errOf x) then None else errOf x)) (\<lambda>_.
     bindM (if aks_SecretName (ak_Spec ak) \<noteq> aks_SecretName cs then
              bindM (attempt (deleteSecret E secret)) (\<lambda>d.
              bindM (checkErr (if errNotFound L (errOf d) then None else errOf d)) (\<lambda>_.
              bindM (updateObj r (setAccessKeyCurrent ak
                (Some (cs\<lparr>aks_SecretName := aks_SecretName (ak_Spec ak)\<rparr>)))) (\<lambda>ak.
              ret (False, ak))))
            else ret (exists, ak)) (\<lambda>(exists, ak).
     if \<not> exists then
       bindM (createCredentialsSecret r ak) (\<lambda>secret.
       ret (secret, ak))
     else
       (let current = getCredentialsFromSecret secret in
       bindM (getDesiredCredentials r ak (Some current)) (\<lambda>desired.
       if minioAccessKeyCredentials_getHash L current
          \<noteq> minioAccessKeyCredentials_getHash L desired then
         bindM (updateSecret E (secret\<lparr>sec_StringData :=
           [AccessKeyFieldAccessKey \<mapsto> AccessKey desired,
            AccessKeyFieldSecretKey \<mapsto> SecretKey desired]\<rparr>)) (\<lambda>secret.
         ret (secret, ak))
       else ret (secret, ak))))))))"

section \<open>The service account\<close>

definition marshalAccessKeyPolicy :: "Lib \<Rightarrow> MinioAccessKeyPolicy \<Rightarrow> goerr + doc" where
  "marshalAccessKeyPolicy L p =
     (let sha = sha512_256 L in
      if getHashAccessKeyPolicy sha p \<noteq> getHashAccessKeyPolicy sha emptyAccessKeyPolicy
      then marshalPolicy (akp_Statement p) (akp_Version p) else Inr NoDoc)"

definition addServiceAccountReq ::
  "MinioAccessKeySpec \<Rightarrow> minioAccessKeyCredentials \<Rightarrow> doc \<Rightarrow> AddServiceAccountReq" where
  "addServiceAccountReq spec creds policy =
     \<lparr>asa_AccessKey = AccessKey creds, asa_Description = aks_Description spec,
      asa_Expiration = aks_Expiration spec, asa_Name = aks_Name spec,
      asa_SecretKey = SecretKey creds, asa_Policy = policy,
      asa_TargetUser = (if aki_Ldap (aks_User spec) \<noteq> '''' then aki_Ldap (aks_User spec)
                        else aki_Builtin (aks_User spec))\<rparr>"

definition createAccessKey ::
  "('w, MinioAccessKey) reconciler \<Rightarrow> MinioAccessKey \<Rightarrow> Secret \<Rightarrow> ('w, MinioAccessKey call, unit) m" where
  "createAccessKey r ak secret =
     (let E = r_env r; L = lib E; spec = ak_Spec ak in
     bindM (getAdminClient r (aks_TenantRef spec) (accessKeyNamespace ak)) (\<lambda>mtac.
     let creds = getCredentialsFromSecret secret in
     bindM (liftE (marshalAccessKeyPolicy L (aks_Policy spec))) (\<lambda>policy.
     let req = addServiceAccountReq spec creds policy in
     bindM (attempt (mutate E mtac
       (if aki_Ldap (aks_User spec) \<noteq> '''' then AddServiceAccountLDAP req
        else AddServiceAccount req))) (\<lambda>x.
     let alreadyExists = (case errOf x of None \<Rightarrow> False
           | Some err \<Rightarrow> stringsContains (errText L err) ''service account access key already taken'');
         err = (if alreadyExists \<and> aks_Migrate spec then None else errOf x) in
     checkErr err))))"

definition updateServiceAccountReq ::
  "MinioAccessKeySpec \<Rightarrow> minioAccessKeyCredentials \<Rightarrow> doc \<Rightarrow> UpdateServiceAccountReq" where
  "updateServiceAccountReq spec creds policy =
     \<lparr>usa_NewDescription = aks_Description spec, usa_NewExpiration = aks_Expiration spec,
      usa_NewName = aks_Name spec, usa_NewPolicy = policy, usa_NewSecretKey = SecretKey creds\<rparr>"

text \<open>The branch of the update for an access key that the tenant no longer knows.\<close>

definition accessKeyLost ::
  "('w, MinioAccessKey) reconciler \<Rightarrow> MinioAccessKey \<Rightarrow> MinioAccessKeySpec
    \<Rightarrow> ('w, MinioAccessKey call, MinioAccessKey) m" where
  "accessKeyLost r ak cs =
     (let E = r_env r; L = lib E in
     bindM (attempt (getSecret E (generatedSecret ak cs))) (\<lambda>x.
     let exists = (\<not> errNotFound L (errOf x));
         err = (if errNotFound L (errOf x) then None else errOf x) in
     bindM (checkErr err) (\<lambda>_.
     bindM (if exists then bindM (deref (valOf x)) (\<lambda>secret. deleteSecret E secret) else ret ()) (\<lambda>_.
     updateObj r (setAccessKeyCurrent ak None)))))"

text \<open>The first comparison, of the status with the tenant, and the second, of the status with the spec.\<close>

definition remoteDiffers ::
  "Lib \<Rightarrow> InfoServiceAccountResp \<Rightarrow> MinioAccessKeyPolicy \<Rightarrow> MinioAccessKeySpec \<Rightarrow> bool" where
  "remoteDiffers L msa mPolicy cs \<longleftrightarrow>
     isa_Description msa \<noteq> aks_Description cs \<or> isa_Expiration msa \<noteq> aks_Expiration cs \<or>
     isa_Name msa \<noteq> aks_Name cs \<or>
     getHashAccessKeyPolicy (sha512_256 L) mPolicy \<noteq> getHashAccessKeyPolicy (sha512_256 L) (aks_Policy cs)"

definition specDiffers :: "Lib \<Rightarrow> MinioAccessKey \<Rightarrow> MinioAccessKeySpec \<Rightarrow> Secret \<Rightarrow> bool" where
  "specDiffers L ak cs secret \<longleftrightarrow>
     aks_Description cs \<noteq> aks_Description (ak_Spec ak) \<or>
     aks_Expiration cs \<noteq> aks_Expiration (ak_Spec ak) \<or>
     aks_Name cs \<noteq> aks_Name (ak_Spec ak) \<or>
     getHashAccessKeyPolicy (sha512_256 L) (aks_Policy cs)
       \<noteq> getHashAccessKeyPolicy (sha512_256 L) (aks_Policy (ak_Spec ak)) \<or>
     om_ResourceVersion (sec_Meta secret) \<noteq> akst_CurrentSecretResourceVersion (ak_Status ak)"

definition accessKeySync ::
  "('w, MinioAccessKey) reconciler \<Rightarrow> handle \<Rightarrow> MinioAccessKey \<Rightarrow> MinioAccessKeySpec \<Rightarrow> Secret
    \<Rightarrow> InfoServiceAccountResp \<Rightarrow> ('w, MinioAccessKey call, unit) m" where
  "accessKeySync r mtac ak cs secret msa =
     (let E = r_env r; L = lib E; creds = getCredentialsFromSecret secret in
     bindM (if \<not> isa_ImpliedPolicy msa \<and> isa_Policy msa \<noteq> NoDoc
            then liftE (unmarshalAccessKeyPolicy (isa_Policy msa))
            else ret emptyAccessKeyPolicy) (\<lambda>mPolicy.
     bindM (if remoteDiffers L msa mPolicy cs then
              bindM (liftE (marshalPolicy (akp_Statement (aks_Policy cs)) (akp_Version (aks_Policy cs))))
                (\<lambda>policy. mutate E mtac (UpdateServiceAccount (AccessKey creds)
                  (updateServiceAccountReq cs creds policy)))
            else ret ()) (\<lambda>_.
     if specDiffers L ak cs secret then
       bindM (liftE (marshalAccessKeyPolicy L (aks_Policy (ak_Spec ak)))) (\<lambda>policy.
       mutate E mtac (UpdateServiceAccount (AccessKey creds)
         (updateServiceAccountReq (ak_Spec ak) creds policy)))
     else ret ())))"

definition minioAccessKey_removeMigrate ::
  "('w, MinioAccessKey) reconciler \<Rightarrow> MinioAccessKey \<Rightarrow> ('w, MinioAccessKey call, MinioAccessKey) m" where
  "minioAccessKey_removeMigrate r ak =
     (if aks_Migrate (ak_Spec ak) then
        updateObj r (ak\<lparr>ak_Spec := (ak_Spec ak)\<lparr>aks_Migrate := False\<rparr>\<rparr>)
      else ret ak)"

definition updateAccessKey ::
  "('w, MinioAccessKey) reconciler \<Rightarrow> MinioAccessKey \<Rightarrow> Secret
    \<Rightarrow> ('w, MinioAccessKey call, MinioAccessKey) m" where
  "updateAccessKey r ak secret =
     bindM (minioAccessKey_removeMigrate r ak) (\<lambda>ak.
     bindM (deref (accessKeyCurrent ak)) (\<lambda>cs.
     bindM (getAdminClient r (aks_TenantRef cs) (accessKeyNamespace ak)) (\<lambda>mtac.
     let accessKey = AccessKey (getCredentialsFromSecret secret) in
     bindM (attempt (queryM mtac (InfoServiceAccount accessKey)
       (\<lambda>w. e_InfoServiceAccount (r_env r) w mtac accessKey))) (\<lambda>x.
     let e = (\<not> isMadminErrorCode (errOf x) ''XMinioInvalidIAMCredentials'');
         err = ignoreMadminErrorCode (errOf x) ''XMinioInvalidIAMCredentials'' in
     bindM (checkErr err) (\<lambda>_.
     if \<not> e then accessKeyLost r ak cs
     else
       bindM (deref (valOf x)) (\<lambda>msa.
       bindM (accessKeySync r mtac ak cs secret msa) (\<lambda>_.
       ret ak)))))))"

definition deleteAccessKey ::
  "('w, MinioAccessKey) reconciler \<Rightarrow> MinioAccessKey \<Rightarrow> ('w, MinioAccessKey call, unit) m" where
  "deleteAccessKey r ak =
     (let E = r_env r; L = lib E in
      case accessKeyCurrent ak of
        Some cs \<Rightarrow>
          bindM (attempt (getSecret E (generatedSecret ak cs))) (\<lambda>x.
          if errNotFound L (errOf x) then ret ()
          else
            bindM (checkErr (errOf x)) (\<lambda>_.
            bindM (deref (valOf x)) (\<lambda>secret.
            bindM (getAdminClient r (aks_TenantRef cs) (accessKeyNamespace ak)) (\<lambda>mtac.
            bindM (attempt (mutate E mtac
              (DeleteServiceAccount (AccessKey (getCredentialsFromSecret secret))))) (\<lambda>y.
            checkErr (ignoreMadminErrorCode (errOf y) ''XMinioInvalidIAMCredentials''))))))
      | None \<Rightarrow> ret ())"

section \<open>The phases\<close>

definition minioAccessKey_delete ::
  "('w, MinioAccessKey) reconciler \<Rightarrow> MinioAccessKey \<Rightarrow> ('w, MinioAccessKey call, Result) m" where
  "minioAccessKey_delete r ak =
     bindM (deleteAccessKey r ak) (\<lambda>_.
     bindM (updateObj r (setAccessKeyCurrent ak None)) (\<lambda>ak.
     bindM (updateObj r (ak\<lparr>ak_ObjectMeta :=
       removeFinalizer (lib (r_env r)) (ak_ObjectMeta ak) finalizer\<rparr>)) (\<lambda>ak.
     success r)))"

definition minioAccessKey_addFinalizer ::
  "('w, MinioAccessKey) reconciler \<Rightarrow> MinioAccessKey \<Rightarrow> ('w, MinioAccessKey call, Result) m" where
  "minioAccessKey_addFinalizer r ak =
     bindM (updateObj r (ak\<lparr>ak_ObjectMeta :=
       addFinalizer (lib (r_env r)) (ak_ObjectMeta ak) finalizer\<rparr>)) (\<lambda>ak.
     success r)"

definition minioAccessKey_update ::
  "('w, MinioAccessKey) reconciler \<Rightarrow> MinioAccessKey \<Rightarrow> ('w, MinioAccessKey call, Result) m" where
  "minioAccessKey_update r ak =
     bindM (updateCredentialsSecret r ak) (\<lambda>(secret, ak).
     bindM (updateAccessKey r ak secret) (\<lambda>ak.
     bindM (updateObj r (setAccessKeySecretVersion (setAccessKeyCurrent ak (Some (ak_Spec ak)))
       (om_ResourceVersion (sec_Meta secret)))) (\<lambda>ak.
     success r)))"

definition minioAccessKey_create ::
  "('w, MinioAccessKey) reconciler \<Rightarrow> MinioAccessKey \<Rightarrow> ('w, MinioAccessKey call, Result) m" where
  "minioAccessKey_create r ak =
     bindM (createCredentialsSecret r ak) (\<lambda>secret.
     bindM (attempt (createAccessKey r ak secret)) (\<lambda>x.
     case x of
       Inl err \<Rightarrow>
         bindM (attempt (deleteSecret (r_env r) secret)) (\<lambda>_.
         fail err)
     | Inr _ \<Rightarrow>
         (let accessKey = mapGet (sec_Data secret) ''accessKey'';
              spec = (ak_Spec ak)\<lparr>aks_AccessKey := accessKey, aks_Migrate := False\<rparr> in
         bindM (updateObj r (setAccessKeySecretVersion
           (setAccessKeyCurrent (ak\<lparr>ak_Spec := spec\<rparr>) (Some spec))
           (om_ResourceVersion (sec_Meta secret)))) (\<lambda>ak.
         success r))))"

definition minioAccessKey_pass ::
  "('w, MinioAccessKey) reconciler \<Rightarrow> NamespacedName \<Rightarrow> MinioAccessKey
    \<Rightarrow> ('w, MinioAccessKey call, Result) m" where
  "minioAccessKey_pass r req ak =
     (if \<not> timeIsZero (om_DeletionTimestamp (ak_ObjectMeta ak)) then minioAccessKey_delete r ak
      else if \<not> containsFinalizer (lib (r_env r)) (ak_ObjectMeta ak) finalizer then
        minioAccessKey_addFinalizer r ak
      else (case accessKeyCurrent ak of
              Some _ \<Rightarrow> minioAccessKey_update r ak
            | None \<Rightarrow> minioAccessKey_create r ak))"

definition minioAccessKeyReconciler_Reconcile ::
  "('w, MinioAccessKey) reconciler \<Rightarrow> NamespacedName \<Rightarrow> ('w, MinioAccessKey call, Result) m" where
  "minioAccessKeyReconciler_Reconcile r req =
     bindM (attempt (getObj r req)) (\<lambda>x.
     (case x of Inl err \<Rightarrow> getFailed r err | Inr ak \<Rightarrow> minioAccessKey_pass r req ak))"

section \<open>The contract\<close>

definition accessKeyStatusSet :: "MinioAccessKey \<Rightarrow> bool" where
  "accessKeyStatusSet ak \<longleftrightarrow> accessKeyCurrent ak \<noteq> None"

definition accessKeySame :: "MinioAccessKey \<Rightarrow> MinioAccessKey \<Rightarrow> bool" where
  "accessKeySame x y \<longleftrightarrow> metaStored (ak_ObjectMeta x) (ak_ObjectMeta y) \<and> ak_Spec y = ak_Spec x \<and>
     ak_Status y = ak_Status x"

lemma setAccessKeyCurrent_simps [simp]:
  "ak_ObjectMeta (setAccessKeyCurrent ak cs) = ak_ObjectMeta ak"
  "ak_Spec (setAccessKeyCurrent ak cs) = ak_Spec ak"
  "accessKeyCurrent (setAccessKeyCurrent ak cs) = cs"
  "accessKeyCurrent (ak\<lparr>ak_ObjectMeta := m\<rparr>) = accessKeyCurrent ak"
  by (simp_all add: setAccessKeyCurrent_def accessKeyCurrent_def)

lemma setAccessKeySecretVersion_simps [simp]:
  "ak_ObjectMeta (setAccessKeySecretVersion ak v) = ak_ObjectMeta ak"
  "ak_Spec (setAccessKeySecretVersion ak v) = ak_Spec ak"
  "accessKeyCurrent (setAccessKeySecretVersion ak v) = accessKeyCurrent ak"
  "akst_CurrentSecretResourceVersion (ak_Status (setAccessKeySecretVersion ak v)) = v"
  by (simp_all add: setAccessKeySecretVersion_def accessKeyCurrent_def)

lemma minioAccessKey_removeMigrate_triple:
  assumes "profile P N (\<lambda>y. Q (ak_ObjectMeta y))" and "survives r (\<lambda>y. Q (ak_ObjectMeta y))"
    and "Q (ak_ObjectMeta ak)"
  shows "triple P N True (\<lambda>y. Q (ak_ObjectMeta y)) (minioAccessKey_removeMigrate r ak)"
  unfolding minioAccessKey_removeMigrate_def tenant_calls
  by (intro triple_intro triple_call triple_updateObj [OF assms(1,2)])
    (use assms in \<open>auto simp: profile_def\<close>)

lemma keyFromRef_profile:
  "profile P N I \<Longrightarrow> triple P N Z (\<lambda>_. True) (keyFromRef r ns what rkr)"
  unfolding keyFromRef_def tenant_calls Let_def
  by (intro triple_intro) (auto simp: profile_def)

lemma createRandomString_profile:
  "profile P N I \<Longrightarrow> triple P N True (\<lambda>_. True) (createRandomString E n)"
  unfolding createRandomString_def tenant_calls Let_def
  by (intro triple_intro triple_panic) (auto simp: profile_def)

lemma desiredKey_profile:
  assumes "profile P N I"
  shows "triple P N True (\<lambda>_. True) (desiredKey r ak what given rkr c n)"
  unfolding desiredKey_def Let_def
  by (intro triple_intro triple_bind [OF keyFromRef_profile [OF assms]]
      createRandomString_profile [OF assms]) auto

lemma getDesiredCredentials_profile:
  assumes "profile P N I"
  shows "triple P N True (\<lambda>_. True) (getDesiredCredentials r ak c)"
  unfolding getDesiredCredentials_def Let_def
  by (intro triple_intro triple_bind [OF desiredKey_profile [OF assms]]) auto

lemma createCredentialsSecret_profile:
  "profile P N I \<Longrightarrow> triple P N True (\<lambda>_. True) (createCredentialsSecret r ak)"
  unfolding createCredentialsSecret_def tenant_calls
  by (intro triple_intro triple_call triple_bind [OF getDesiredCredentials_profile])
    (auto simp: profile_def)

lemma updateCredentialsSecret_triple:
  assumes "profile P N (\<lambda>y. Q (ak_ObjectMeta y))" and "survives r (\<lambda>y. Q (ak_ObjectMeta y))"
    and "Q (ak_ObjectMeta ak)"
  shows "triple P N True (\<lambda>(s, y). Q (ak_ObjectMeta y)) (updateCredentialsSecret r ak)"
  unfolding updateCredentialsSecret_def tenant_calls Let_def split_def
  by (intro triple_intro triple_bind_updateObj [OF assms(1,2)]
      triple_bind [OF createCredentialsSecret_profile [OF assms(1)]]
      triple_bind [OF getDesiredCredentials_profile [OF assms(1)]])
    (use assms in \<open>auto simp: profile_def\<close>)

lemma createAccessKey_profile:
  "profile P N I \<Longrightarrow> triple P N True (\<lambda>_. True) (createAccessKey r ak secret)"
  unfolding createAccessKey_def tenant_calls Let_def
  by (intro triple_intro triple_bind [OF getAdminClient_profile]) (auto simp: profile_def)

lemma accessKeyLost_triple:
  assumes "profile P N (\<lambda>y. Q (ak_ObjectMeta y))" and "survives r (\<lambda>y. Q (ak_ObjectMeta y))"
    and "Q (ak_ObjectMeta ak)"
  shows "triple P N True (\<lambda>y. Q (ak_ObjectMeta y)) (accessKeyLost r ak cs)"
  unfolding accessKeyLost_def tenant_calls Let_def
  by (intro triple_intro triple_updateObj [OF assms(1,2)])
    (use assms in \<open>auto simp: profile_def\<close>)

lemma accessKeySync_profile:
  "profile P N I \<Longrightarrow> triple P N True (\<lambda>_. True) (accessKeySync r mtac ak cs secret msa)"
  unfolding accessKeySync_def tenant_calls Let_def
  by (intro triple_intro triple_call) (auto simp: profile_def)

lemma updateAccessKey_triple:
  assumes "profile P N (\<lambda>y. Q (ak_ObjectMeta y))" and "survives r (\<lambda>y. Q (ak_ObjectMeta y))"
    and "Q (ak_ObjectMeta ak)"
  shows "triple P N True (\<lambda>y. Q (ak_ObjectMeta y)) (updateAccessKey r ak secret)"
  unfolding updateAccessKey_def queryM_def Let_def
  by (intro triple_intro accessKeyLost_triple [OF assms(1,2)]
      triple_bind [OF accessKeySync_profile [OF assms(1)]]
      triple_bind [OF minioAccessKey_removeMigrate_triple [OF assms]]
      triple_bind [OF getAdminClient_profile [OF assms(1)]])
    (use assms in \<open>auto simp: profile_def\<close>)

lemma minioAccessKey_update_triple:
  assumes "profile P N (\<lambda>y. Q (ak_ObjectMeta y))" and "survives r (\<lambda>y. Q (ak_ObjectMeta y))"
    and "Q (ak_ObjectMeta ak)"
  shows "triple P N True (\<lambda>res. requeueAfter res = syncInterval r) (minioAccessKey_update r ak)"
  unfolding minioAccessKey_update_def success_def split_def
  by (intro triple_intro triple_bind_updateObj [OF assms(1,2)]
      triple_bind [OF updateAccessKey_triple [OF assms(1,2)]]
      triple_bind [OF updateCredentialsSecret_triple [OF assms]])
    (auto simp: split_def)

lemma minioAccessKey_create_triple:
  assumes "profile P N (\<lambda>y. Q (ak_ObjectMeta y))" and "survives r (\<lambda>y. Q (ak_ObjectMeta y))"
    and "Q (ak_ObjectMeta ak)"
  shows "triple P N True (\<lambda>res. requeueAfter res = syncInterval r) (minioAccessKey_create r ak)"
proof -
  have "profile (\<lambda>e. P e \<and> N e) (\<lambda>_. True) (\<lambda>_ :: MinioAccessKey. False)"
    using assms(1) by (auto simp: profile_def)
  from triple_attempt_both [OF createAccessKey_profile [OF this]]
  have create: "triple P N True (\<lambda>_. True) (attempt (createAccessKey r ak s))" for s
    by (rule triple_weaken) simp
  show ?thesis
    unfolding minioAccessKey_create_def tenant_calls success_def Let_def
    by (intro triple_intro triple_bind_updateObj [OF assms(1,2)] triple_bind [OF create]
        triple_bind [OF createCredentialsSecret_profile [OF assms(1)]])
      (use assms in \<open>auto simp: profile_def\<close>)
qed

lemma deleteAccessKey_triple:
  assumes "\<And>c e. isWrite c \<or> isInfra c \<Longrightarrow> P (c, e) \<and> N (c, e)"
  shows "triple P N True (\<lambda>_. True) (deleteAccessKey r ak)"
  unfolding deleteAccessKey_def getSecret_def mutate_def Let_def
  by (intro triple_intro triple_bind [OF getAdminClient_triple]) (use assms in auto)

lemma minioAccessKey_delete_safe:
  assumes "finalizerLaws (lib (r_env r))" and "updateStores accessKeySame r"
  shows "triple (updatesSafe (lib (r_env r)) ak_ObjectMeta accessKeyStatusSet) (\<lambda>_. True) True
    (\<lambda>_. True) (minioAccessKey_delete r ak)"
proof -
  have cleared: "accessKeyCurrent y = None"
    if "r_Update r w (setAccessKeyCurrent ak None) = (Inr y, w')" for w y w'
  proof -
    have "accessKeySame (setAccessKeyCurrent ak None) y"
      using assms(2) that unfolding updateStores_def by blast
    then show ?thesis by (simp add: accessKeySame_def accessKeyCurrent_def setAccessKeyCurrent_def)
  qed
  show ?thesis
    unfolding minioAccessKey_delete_def success_def updateObj_def
    by (intro triple_intro triple_bind [OF deleteAccessKey_triple])
      (auto simp: safeObj_def accessKeyStatusSet_def dest!: cleared)
qed

lemma minioAccessKey_delete_ok:
  "triple (\<lambda>_. True) updateOk True (\<lambda>res. requeueAfter res = syncInterval r) (minioAccessKey_delete r ak)"
  unfolding minioAccessKey_delete_def success_def updateObj_def
  by (intro triple_intro triple_bind [OF deleteAccessKey_triple]) auto

interpretation access_key: phased_reconciler minioAccessKeyReconciler_Reconcile minioAccessKey_pass
  minioAccessKey_delete minioAccessKey_addFinalizer "\<lambda>r _. minioAccessKey_update r"
  "\<lambda>r _. minioAccessKey_create r" ak_ObjectMeta "\<lambda>x m. x\<lparr>ak_ObjectMeta := m\<rparr>"
  accessKeyStatusSet accessKeySame
  by unfold_locales
    (simp_all add: minioAccessKeyReconciler_Reconcile_def minioAccessKey_pass_def
      accessKeyStatusSet_def minioAccessKey_addFinalizer_def accessKeySame_def accessKeyCurrent_def
      minioAccessKey_delete_ok minioAccessKey_update_triple minioAccessKey_create_triple
      minioAccessKey_delete_safe split: option.split)

section \<open>Properties\<close>

definition sampleAccessKeySpec :: MinioAccessKeySpec where
  "sampleAccessKeySpec = \<lparr>aks_AccessKey = '''', aks_AccessKeyRef = emptyKeyRef, aks_Description = '''',
     aks_Expiration = None, aks_Migrate = False, aks_Name = '''', aks_Policy = emptyAccessKeyPolicy,
     aks_SecretKeyRef = emptyKeyRef, aks_SecretName = ''s'', aks_TenantRef = sampleRef,
     aks_User = \<lparr>aki_Builtin = ''u'', aki_Ldap = ''''\<rparr>\<rparr>"

definition sampleAccessKey :: "MinioAccessKeySpec option \<Rightarrow> MinioAccessKey" where
  "sampleAccessKey cs = \<lparr>ak_TypeMeta = \<lparr>tm_Kind = ''MinioAccessKey'', tm_APIVersion = ''v1''\<rparr>,
     ak_ObjectMeta = heldMeta ''ak'', ak_Spec = sampleAccessKeySpec,
     ak_Status = \<lparr>akst_Synced = None, akst_CurrentSpec = cs,
       akst_CurrentSecretResourceVersion = ''1''\<rparr>\<rparr>"

lemma sampleAccessKey_simps [simp]:
  "accessKeyCurrent (sampleAccessKey cs) = cs" "ak_Spec (sampleAccessKey cs) = sampleAccessKeySpec"
  "ak_ObjectMeta (sampleAccessKey cs) = heldMeta ''ak''"
  by (simp_all add: sampleAccessKey_def accessKeyCurrent_def)

lemma accessKeySame_refl [simp]: "accessKeySame ak ak"
  by (simp add: accessKeySame_def)

lemma accessKeyCurrent_Spec [simp]: "accessKeyCurrent (ak\<lparr>ak_Spec := s\<rparr>) = accessKeyCurrent ak"
  by (simp add: accessKeyCurrent_def)

subsection \<open>Desired credentials\<close>

lemma keyFromRef_triple:
  assumes "\<And>k e. P (GetSecret k, e)" and "\<And>k e. N (GetSecret k, e)"
  shows "triple P N Z (\<lambda>_. True) (keyFromRef r ns what rkr)"
  unfolding keyFromRef_def tenant_calls Let_def
  by (intro triple_intro) (use assms in auto)

lemma desiredKey_complete:
  assumes "randFills (r_env r)" and "0 < n"
  shows "triple (\<lambda>_. True) (\<lambda>_. True) False (\<lambda>key. (\<not> aks_Migrate (ak_Spec ak) \<longrightarrow> key \<noteq> '''') \<and>
    (given \<noteq> '''' \<longrightarrow> key = given)) (desiredKey r ak what given rkr c n)"
proof -
  have random: "triple (\<lambda>_. True) (\<lambda>_. True) False (\<lambda>s. s \<noteq> '''') (createRandomString (r_env r) n)"
    by (rule triple_weaken [OF createRandomString_triple [OF assms(1)]]) (use assms(2) in auto)
  show ?thesis
    unfolding desiredKey_def Let_def
    by (intro triple_intro triple_bind [OF keyFromRef_triple] triple_weaken [OF random])
      (auto split: option.splits)
qed

lemma desiredKey_stable:
  assumes "aks_Migrate (ak_Spec ak) \<or> (\<exists>k. c = Some k \<and> k \<noteq> '''')"
  shows "triple (\<lambda>ev. \<exists>k. fst ev = GetSecret k) (\<lambda>_. True) True (\<lambda>_. True)
    (desiredKey r ak what given rkr c n)"
  unfolding desiredKey_def Let_def
  by (intro triple_intro triple_bind [OF keyFromRef_triple]) (use assms in \<open>auto split: if_splits\<close>)

text \<open>
  Credentials are complete: whatever the spec, its references and the current secret say, the
  code either returns an error or two non-empty keys (it never panics), and an access key given in
  the spec is the one used. The random source has to fill its buffers.
\<close>

theorem desired_credentials_complete:
  assumes "randFills (r_env r)"
  shows "outcome (getDesiredCredentials r ak current) w \<noteq> Panic \<and>
    (\<forall>c. outcome (getDesiredCredentials r ak current) w = Ok c \<longrightarrow>
      AccessKey c \<noteq> '''' \<and> SecretKey c \<noteq> '''' \<and>
      (aks_AccessKey (ak_Spec ak) \<noteq> '''' \<longrightarrow> AccessKey c = aks_AccessKey (ak_Spec ak)))"
proof -
  have t: "triple (\<lambda>_. True) (\<lambda>_. True) False (\<lambda>c. AccessKey c \<noteq> '''' \<and> SecretKey c \<noteq> '''' \<and>
    (aks_AccessKey (ak_Spec ak) \<noteq> '''' \<longrightarrow> AccessKey c = aks_AccessKey (ak_Spec ak)))
    (getDesiredCredentials r ak current)"
    unfolding getDesiredCredentials_def Let_def
    by (intro triple_intro triple_bind [OF desiredKey_complete [OF assms]]) auto
  show ?thesis
    by (intro conjI triple_no_panic [OF t] allI impI; drule triple_post [OF t]; simp)
qed

theorem desired_credentials_complete_witness:
  "outcome (getDesiredCredentials (sampleReconciler (sampleAccessKey None)) (sampleAccessKey None) None) ()
     \<noteq> Panic"
  using desired_credentials_complete [of "sampleReconciler (sampleAccessKey None)" "sampleAccessKey None" None "()"]
  by (simp add: randFills_def anyWorldEnv_def)

text \<open>
  Credentials are stable: nothing is drawn at random for a spec that asks to migrate an access
  key, nor when the generated secret already holds both keys. So a pass over an existing access key
  does not change its generated keys.
\<close>

theorem desired_credentials_stable:
  assumes "aks_Migrate (ak_Spec ak) \<or>
    (\<exists>c. current = Some c \<and> AccessKey c \<noteq> '''' \<and> SecretKey c \<noteq> '''')"
  shows "list_all (\<lambda>ev. \<exists>k. fst ev = GetSecret k) (trace (getDesiredCredentials r ak current) w)"
proof -
  have t: "triple (\<lambda>ev. \<exists>k. fst ev = GetSecret k) (\<lambda>_. True) True (\<lambda>_. True) (getDesiredCredentials r ak current)"
    unfolding getDesiredCredentials_def Let_def
    by (intro triple_intro triple_bind [OF desiredKey_stable]) (use assms in auto)
  show ?thesis using triple_trace [OF t] by (simp add: list_all_iff)
qed

theorem desired_credentials_stable_witness:
  "list_all (\<lambda>ev. \<exists>k. fst ev = GetSecret k) (trace (getDesiredCredentials
     (sampleReconciler (sampleAccessKey None)) (sampleAccessKey None)
     (Some \<lparr>AccessKey = ''AK'', SecretKey = ''SK''\<rparr>)) ())"
  by (rule desired_credentials_stable) simp

subsection \<open>The status after a creation\<close>

definition keyAdded :: "Lib \<Rightarrow> bool \<Rightarrow> string \<Rightarrow> MinioAccessKey call event \<Rightarrow> bool" where
  "keyAdded L migrate k ev \<longleftrightarrow>
     (case fst ev of
        Mutate h q \<Rightarrow> (case q of AddServiceAccount req \<Rightarrow> asa_AccessKey req = k
          | AddServiceAccountLDAP req \<Rightarrow> asa_AccessKey req = k | _ \<Rightarrow> False)
      | _ \<Rightarrow> False) \<and>
     (case snd ev of None \<Rightarrow> True
      | Some err \<Rightarrow> migrate \<and> stringsContains (errText L err) ''service account access key already taken'')"

definition recordsAccessKey :: "string \<Rightarrow> MinioAccessKey \<Rightarrow> bool" where
  "recordsAccessKey k y \<longleftrightarrow> (case accessKeyCurrent y of None \<Rightarrow> False | Some cs \<Rightarrow> aks_AccessKey cs = k)"

lemma createAccessKey_achieves:
  "achieves (keyAdded (lib (r_env r)) (aks_Migrate (ak_Spec ak)) (AccessKey (getCredentialsFromSecret secret)))
    (createAccessKey r ak secret)"
  unfolding createAccessKey_def Let_def mutate_def
  by (rule achieves_bind_right, rule achieves_bind_right, rule achieves_attempt_call)
    (auto simp: keyAdded_def addServiceAccountReq_def intro!: achieves_fail
      split: option.splits sum.splits if_splits)

lemma createAccessKey_quiet:
  "triple (\<lambda>ev. \<not> sent st ev) (\<lambda>_. True) True (\<lambda>_. True) (createAccessKey r ak secret)"
  unfolding createAccessKey_def Let_def mutate_def
  by (intro triple_intro triple_bind [OF getAdminClient_sent]) auto

lemma accessKeySame_current:
  "updateStores accessKeySame r \<Longrightarrow> r_Update r w x = (Inr y, w') \<Longrightarrow> accessKeyCurrent y = accessKeyCurrent x"
  by (drule (1) updateStores_same) (simp add: accessKeySame_def accessKeyCurrent_def)

lemma createCredentialsSecret_quiet:
  "triple (\<lambda>ev. \<not> sent st ev) (\<lambda>_. True) True (\<lambda>_. True) (createCredentialsSecret r ak)"
  by (rule createCredentialsSecret_profile [where I = "\<lambda>_. False"]) (auto simp: profile_def)

lemma getCredentials_accessKey:
  "AccessKey (getCredentialsFromSecret secret) = mapGet (sec_Data secret) ''accessKey''"
  by (simp add: getCredentialsFromSecret_def AccessKeyFieldAccessKey_def)

lemma minioAccessKey_create_records:
  "ordered (keyAdded (lib (r_env r)) (aks_Migrate (ak_Spec ak)) k) (sent (recordsAccessKey k)) False
    (minioAccessKey_create r ak)"
  unfolding minioAccessKey_create_def
proof (rule ordered_bind_quiet [OF createCredentialsSecret_quiet])
  fix secret
  let ?rest = "\<lambda>x. case x of
       Inl err \<Rightarrow> bindM (attempt (deleteSecret (r_env r) secret)) (\<lambda>_. fail err)
     | Inr _ \<Rightarrow> (let accessKey = mapGet (sec_Data secret) ''accessKey'';
              spec = (ak_Spec ak)\<lparr>aks_AccessKey := accessKey, aks_Migrate := False\<rparr> in
         bindM (updateObj r (setAccessKeySecretVersion
           (setAccessKeyCurrent (ak\<lparr>ak_Spec := spec\<rparr>) (Some spec))
           (om_ResourceVersion (sec_Meta secret)))) (\<lambda>ak. success r))"
  let ?k = "AccessKey (getCredentialsFromSecret secret)"
  have cleanup: "ordered P Q s (?rest (Inl e))" if "\<And>x. \<not> Q (DeleteSecret (reqNamespacedName secret), x)" for e P Q s
    unfolding deleteSecret_def sum.case by (intro ordered_intro) (use that in auto)
  show "ordered (keyAdded (lib (r_env r)) (aks_Migrate (ak_Spec ak)) k) (sent (recordsAccessKey k)) False
    (bindM (attempt (createAccessKey r ak secret)) ?rest)"
  proof (cases "?k = k")
    case True
    then have "achieves (keyAdded (lib (r_env r)) (aks_Migrate (ak_Spec ak)) k) (createAccessKey r ak secret)"
      using createAccessKey_achieves by metis
    then show ?thesis
      by (intro ordered_bind_attempt ordered_quiet [OF createAccessKey_quiet] cleanup) simp_all
  next
    case False
    have quiet: "triple (\<lambda>ev. \<not> sent (recordsAccessKey k) ev) (\<lambda>_. True) True (\<lambda>_. True)
        (attempt (createAccessKey r ak secret))"
      by (rule triple_weaken [OF triple_attempt [OF createAccessKey_quiet]]) simp_all
    show ?thesis
    proof (rule ordered_bind_quiet [OF quiet])
      fix x
      show "ordered (keyAdded (lib (r_env r)) (aks_Migrate (ak_Spec ak)) k) (sent (recordsAccessKey k))
          False (?rest x)"
      proof (cases x)
        case (Inl e)
        then show ?thesis by (simp only: sum.case cleanup [simplified] sent_simps isWrite.simps)
            (rule cleanup [simplified], simp)
      next
        case (Inr u)
        have "\<not> recordsAccessKey k (setAccessKeySecretVersion (setAccessKeyCurrent y (Some c)) v)"
          if "aks_AccessKey c = ?k" for y c v
          using False that by (simp add: recordsAccessKey_def)
        then show ?thesis
          unfolding Inr sum.case Let_def updateObj_def success_def
          by (intro ordered_intro) (simp add: getCredentials_accessKey)
      qed
    qed
  qed
qed

lemma minioAccessKey_pass_records:
  assumes "updateStores accessKeySame r" and "accessKeyCurrent ak = None"
  shows "ordered (keyAdded (lib (r_env r)) (aks_Migrate (ak_Spec ak)) k) (sent (recordsAccessKey k)) False
    (minioAccessKey_pass r req ak)"
  unfolding minioAccessKey_pass_def minioAccessKey_delete_def deleteAccessKey_def
    minioAccessKey_addFinalizer_def updateObj_def success_def Let_def assms(2) option.case
  by (intro ordered_intro minioAccessKey_create_records)
    (auto simp: recordsAccessKey_def assms(2) dest!: accessKeySame_current [OF assms(1)])

text \<open>
  The secret that a pass which starts in the world \<open>w\<close> works with: the generated secret as the pass
  reads it there, what the API server stores of an update of that secret, or of a new secret with the
  name in the spec.
\<close>

definition passSecret ::
  "('w, MinioAccessKey) reconciler \<Rightarrow> MinioAccessKey \<Rightarrow> MinioAccessKeySpec \<Rightarrow> 'w \<Rightarrow> Secret \<Rightarrow> bool" where
  "passSecret r ak cs w s \<longleftrightarrow>
     (\<exists>s0 w2. e_GetSecret (r_env r) w (generatedSecret ak cs) = (Inr s0, w2) \<and>
        (s = s0 \<or> (\<exists>d w3 w4. e_UpdateSecret (r_env r) w3 (s0\<lparr>sec_StringData := d\<rparr>) = (Inr s, w4)))) \<or>
     (\<exists>owner creds s0 w3 w4.
        setOwnerReference (lib (r_env r)) owner (credentialsSecret ak creds) = Inr s0 \<and>
        e_CreateSecret (r_env r) w3 s0 = (Inr s, w4))"

text \<open>
  The events after which a recorded access key may be forgotten, in a pass that starts in \<open>w\<close>: the
  tenant accepts the deletion of the key that the generated secret holds (or does not know it), the
  tenant answers a lookup of the key in the secret of this pass with "no such key", or the generated
  secret itself is not found.
\<close>

definition keyGone ::
  "('w, MinioAccessKey) reconciler \<Rightarrow> MinioAccessKey \<Rightarrow> MinioAccessKeySpec \<Rightarrow> 'w
    \<Rightarrow> MinioAccessKey call event \<Rightarrow> bool" where
  "keyGone r ak cs w ev \<longleftrightarrow>
     (\<exists>h s w2. fst ev = Mutate h (DeleteServiceAccount (AccessKey (getCredentialsFromSecret s))) \<and>
        e_GetSecret (r_env r) w (generatedSecret ak cs) = (Inr s, w2) \<and>
        madminOk ''XMinioInvalidIAMCredentials'' (snd ev)) \<or>
     (\<exists>h s. fst ev = Query h (InfoServiceAccount (AccessKey (getCredentialsFromSecret s))) \<and>
        passSecret r ak cs w s \<and> isMadminErrorCode (snd ev) ''XMinioInvalidIAMCredentials'') \<or>
     (fst ev = GetSecret (generatedSecret ak cs) \<and> errNotFound (lib (r_env r)) (snd ev))"

lemma deleteAccessKey_ordered:
  assumes "accessKeyCurrent ak = Some cs"
    and "\<And>y. ordered (keyGone r ak cs w) (sent st) True (f y)"
  shows "guardedBy (keyGone r ak cs w) (sent st) False (trace (bindM (deleteAccessKey r ak) f) w)"
proof -
  have seen: "ordered (keyGone r ak cs w) (sent st) b (f y)" if b for b y
    using assms(2) that by simp
  show ?thesis
    unfolding deleteAccessKey_def Let_def assms(1) option.case getSecret_def mutate_def bindM_assoc
    by (rule guardedBy_first_call;
        (intro ordered_intro ordered_bind_quiet [OF getAdminClient_sent])?)
      (auto intro!: seen simp: keyGone_def madminOk_def errNotFound_def)
qed

lemma credentialsSecret_same:
  "accessKeySame x y \<Longrightarrow> credentialsSecret y creds = credentialsSecret x creds"
  by (auto simp: accessKeySame_def metaStored_def credentialsSecret_def accessKeyNamespace_def)

lemma createCredentialsSecret_made:
  "triple (\<lambda>_. True) (\<lambda>_. True) True (\<lambda>s. \<exists>owner creds s0 w3 w4.
      setOwnerReference (lib (r_env r)) owner (credentialsSecret ak creds) = Inr s0 \<and>
      e_CreateSecret (r_env r) w3 s0 = (Inr s, w4))
    (createCredentialsSecret r ak)"
proof -
  have quiet: "triple (\<lambda>_. True) (\<lambda>_. True) True (\<lambda>_. True) (getDesiredCredentials r ak c)" for c
    by (rule getDesiredCredentials_profile [where I = "\<lambda>_. True"]) (auto simp: profile_def)
  show ?thesis
    unfolding createCredentialsSecret_def tenant_calls
    by (intro triple_bind [OF quiet] triple_intro triple_call) (simp_all, blast)
qed

text \<open>The secret with which the update goes on, for a pass that starts in the world \<open>w\<close>.\<close>

lemma updateCredentialsSecret_secret:
  assumes "updateStores accessKeySame r" and "accessKeyCurrent ak = Some cs"
    and "updateCredentialsSecret r ak w = (Ok (s, y), w', t)"
  shows "passSecret r ak cs w s"
proof -
  let ?A = "\<lambda>(s, y). passSecret r ak cs w s"
  let ?T = "triple (\<lambda>_. True) (\<lambda>_. True) True"
  have quiet: "?T (\<lambda>_. True) (getDesiredCredentials r x c)" for x c
    by (rule getDesiredCredentials_profile [where I = "\<lambda>_. True"]) (auto simp: profile_def)
  have made: "?T (\<lambda>s. passSecret r ak cs w s) (createCredentialsSecret r x)"
    if "x = ak \<or> accessKeySame (setAccessKeyCurrent ak c) x" for x c
  proof -
    have same: "credentialsSecret x creds = credentialsSecret ak creds" for creds
      using that credentialsSecret_same [of "setAccessKeyCurrent ak c" x creds]
      by (auto simp: credentialsSecret_def accessKeyNamespace_def)
    show ?thesis
      by (rule triple_weaken [OF createCredentialsSecret_made])
        (auto simp: passSecret_def same)
  qed
  have renamed: "accessKeySame (setAccessKeyCurrent ak c) y"
    if "r_Update r w (setAccessKeyCurrent ak c) = (Inr y, w')" for w w' y c
    using updateStores_same [OF assms(1) that] .
  have "?A (s, y)"
    using assms(3)
    unfolding updateCredentialsSecret_def Let_def assms(2) deref_simps bindM_ret getSecret_def
  proof (rule triple_first_call [where P = "\<lambda>_. True" and N = "\<lambda>_. True" and Z = True and A = ?A], goal_cases)
    case (1 s0 w2)
    then show ?case
      unfolding tenant_calls updateObj_def split_def
      by (intro triple_intro triple_bind [OF made] triple_bind [OF quiet])
        (auto simp: passSecret_def dest: renamed)
  next
    case (2 e w2)
    then show ?case
      unfolding tenant_calls updateObj_def split_def
      by (intro triple_intro triple_bind [OF made] triple_bind [OF quiet])
        (auto simp: passSecret_def dest: renamed)
  qed
  then show ?thesis by simp
qed

lemma updateCredentialsSecret_kept:
  assumes "updateStores accessKeySame r" and "accessKeyStatusSet ak"
  shows "triple (\<lambda>ev. \<not> sent (\<lambda>y. \<not> accessKeyStatusSet y) ev) (\<lambda>_. True) True
    (\<lambda>(s, y). accessKeyStatusSet y) (updateCredentialsSecret r ak)"
proof -
  have kept: "accessKeyStatusSet y"
    if "r_Update r w (setAccessKeyCurrent ak (Some c)) = (Inr y, w')" for w w' y c
    using accessKeySame_current [OF assms(1) that] by (simp add: accessKeyStatusSet_def)
  have [simp]: "accessKeyStatusSet (setAccessKeyCurrent ak (Some c))" for c
    by (simp add: accessKeyStatusSet_def)
  have quiet: "triple (\<lambda>ev. \<not> sent (\<lambda>y. \<not> accessKeyStatusSet y) ev) (\<lambda>_. True) True (\<lambda>_. True)
      (getDesiredCredentials r x c)" for x c
    by (rule getDesiredCredentials_profile [where I = "\<lambda>_. False"]) (auto simp: profile_def)
  show ?thesis
    unfolding updateCredentialsSecret_def tenant_calls updateObj_def Let_def split_def
    by (intro triple_intro triple_bind [OF createCredentialsSecret_quiet] triple_bind [OF quiet])
      (auto simp: assms(2) dest: kept)
qed

lemma accessKeySync_quiet:
  "triple (\<lambda>ev. \<not> sent st ev) (\<lambda>_. True) True (\<lambda>_. True) (accessKeySync r mtac ak cs secret msa)"
  by (rule accessKeySync_profile [where I = "\<lambda>_. False"]) (auto simp: profile_def)

lemma updateAccessKey_ordered:
  assumes "updateStores accessKeySame r" and "accessKeyStatusSet ak" and "passSecret r x cs w secret"
  shows "ordered (keyGone r x cs w) (sent (\<lambda>y. \<not> accessKeyStatusSet y)) False (updateAccessKey r ak secret)"
proof -
  have "accessKeyStatusSet (ak\<lparr>ak_Spec := c\<rparr>)" for c
    using assms(2) by (simp add: accessKeyStatusSet_def)
  then show ?thesis
    unfolding updateAccessKey_def minioAccessKey_removeMigrate_def queryM_def updateObj_def Let_def
    by (intro ordered_intro ordered_bind_quiet [OF getAdminClient_sent]
        ordered_bind_quiet [OF accessKeySync_quiet])
      (use assms(3) in \<open>auto simp: keyGone_def intro!: ordered_seen [THEN ordered_mono]\<close>)
qed

lemma minioAccessKey_update_clears:
  assumes "updateStores accessKeySame r" and "accessKeyCurrent ak = Some cs"
  shows "guardedBy (keyGone r ak cs w) (sent (\<lambda>y. \<not> accessKeyStatusSet y)) False
    (trace (minioAccessKey_update r ak) w)"
proof -
  have set: "accessKeyStatusSet ak" using assms(2) by (simp add: accessKeyStatusSet_def)
  note kept = updateCredentialsSecret_kept [OF assms(1) set]
  show ?thesis
    unfolding minioAccessKey_update_def split_def
  proof (rule guardedBy_bind)
    show "guardedBy (keyGone r ak cs w) (sent (\<lambda>y. \<not> accessKeyStatusSet y)) False
        (trace (updateCredentialsSecret r ak) w)"
      using ordered_quiet [OF kept] unfolding ordered_def by blast
  next
    fix x w' t assume run: "updateCredentialsSecret r ak w = (Ok x, w', t)"
    have held: "passSecret r ak cs w (fst x)"
      using updateCredentialsSecret_secret [OF assms, of w "fst x" "snd x"] run by simp
    have "accessKeyStatusSet (snd x)" using tripleD [OF kept run] by (simp add: split_def)
    then show "ordered (keyGone r ak cs w) (sent (\<lambda>y. \<not> accessKeyStatusSet y)) False
        (bindM (updateAccessKey r (snd x) (fst x)) (\<lambda>ak.
          bindM (updateObj r (setAccessKeySecretVersion (setAccessKeyCurrent ak (Some (ak_Spec ak)))
            (om_ResourceVersion (sec_Meta (fst x))))) (\<lambda>ak. success r)))"
      unfolding updateObj_def success_def
      by (intro ordered_bind [OF updateAccessKey_ordered [OF assms(1) _ held]] ordered_intro)
        (auto simp: accessKeyStatusSet_def)
  qed
qed

lemma minioAccessKey_pass_clears:
  assumes "updateStores accessKeySame r" and "accessKeyCurrent ak = Some cs"
  shows "guardedBy (keyGone r ak cs w) (sent (\<lambda>y. \<not> accessKeyStatusSet y)) False
    (trace (minioAccessKey_pass r req ak) w)"
proof -
  have "guardedBy (keyGone r ak cs w) (sent (\<lambda>y. \<not> accessKeyStatusSet y)) False
      (trace (minioAccessKey_delete r ak) w)"
    unfolding minioAccessKey_delete_def by (rule deleteAccessKey_ordered [OF assms(2)]) simp
  moreover have "ordered (keyGone r ak cs w) (sent (\<lambda>y. \<not> accessKeyStatusSet y)) False
      (minioAccessKey_addFinalizer r ak)"
    unfolding minioAccessKey_addFinalizer_def updateObj_def success_def
    by (intro ordered_intro) (simp add: accessKeyStatusSet_def assms(2))
  ultimately show ?thesis
    using minioAccessKey_update_clears [OF assms]
    by (simp add: minioAccessKey_pass_def assms(2) ordered_def)
qed

text \<open>
  C6 - The status of a MinioAccessKey is first set and is cleared with a reason. Setting it: while the
  status records nothing, a pass records a spec with some access key only after the tenant has
  accepted, in that pass, a service account with that very key, or, for a spec that asks to migrate it,
  has answered that the key is taken. Clearing it: a pass over a recorded one clears the status only
  after, in that pass, the tenant has deleted the key that the generated secret holds or has answered
  that there is no such key, or the tenant has answered with "no such key" to a lookup of the key in
  the secret that this pass has read, updated or made, or the generated secret was not found. Nothing
  is said here of the spec that a pass over an already recorded access key records: that one need not
  have an account (see \<open>recorded_access_key_not_recreated\<close>).
\<close>

theorem access_key_status_truthful:
  assumes "updateStores accessKeySame r" and "r_Get r w req = (Inr ak, w1)"
  shows "(accessKeyCurrent ak = None \<longrightarrow> (\<forall>k.
      precededBy (keyAdded (lib (r_env r)) (aks_Migrate (ak_Spec ak)) k) (sent (recordsAccessKey k))
        (trace (minioAccessKeyReconciler_Reconcile r req) w))) \<and>
    (\<forall>cs. accessKeyCurrent ak = Some cs \<longrightarrow>
      precededBy (keyGone r ak cs w1) (sent (\<lambda>y. \<not> accessKeyStatusSet y))
        (trace (minioAccessKeyReconciler_Reconcile r req) w))"
proof (intro conjI impI allI)
  fix k assume "accessKeyCurrent ak = None"
  then show "precededBy (keyAdded (lib (r_env r)) (aks_Migrate (ak_Spec ak)) k) (sent (recordsAccessKey k))
      (trace (minioAccessKeyReconciler_Reconcile r req) w)"
    by (intro access_key.reconcile_ordered [OF assms(2) minioAccessKey_pass_records [OF assms(1)]]) simp_all
next
  fix cs assume "accessKeyCurrent ak = Some cs"
  from minioAccessKey_pass_clears [OF assms(1) this]
  show "precededBy (keyGone r ak cs w1) (sent (\<lambda>y. \<not> accessKeyStatusSet y))
      (trace (minioAccessKeyReconciler_Reconcile r req) w)"
    by (simp add: access_key.reconcile_found [OF assms(2)] guardedBy_mono [where s = False])
qed

theorem access_key_status_truthful_witness:
  "precededBy (keyAdded sampleLib False ''AK'') (sent (recordsAccessKey ''AK''))
     (trace (minioAccessKeyReconciler_Reconcile (sampleReconciler (sampleAccessKey None)) sampleKey) ())"
  using access_key_status_truthful [of "sampleReconciler (sampleAccessKey None)" "()" sampleKey
      "sampleAccessKey None" "()"]
  by (simp add: updateStores_sample sampleAccessKeySpec_def)

subsection \<open>An access key that the tenant has lost\<close>

definition addsAccount :: "MinioAccessKey call event \<Rightarrow> bool" where
  "addsAccount ev \<longleftrightarrow> (case fst ev of
       Mutate h q \<Rightarrow> (case q of AddServiceAccount req \<Rightarrow> True | AddServiceAccountLDAP req \<Rightarrow> True
         | _ \<Rightarrow> False)
     | _ \<Rightarrow> False)"

lemma getDesiredCredentials_reads:
  assumes "\<And>k e. P (GetSecret k, e)" "\<And>k e. N (GetSecret k, e)"
    and "\<And>n e. P (RandRead n, e)" "\<And>n e. N (RandRead n, e)"
  shows "triple P N True (\<lambda>_. True) (getDesiredCredentials r ak c)"
proof -
  have random: "triple P N True (\<lambda>_. True) (createRandomString E n)" for E :: "'a env" and n
    unfolding createRandomString_def randRead_def Let_def
    by (intro triple_intro triple_panic) (simp_all add: assms)
  have key: "triple P N True (\<lambda>_. True) (desiredKey r ak what given rkr c n)" for what given rkr c n
    unfolding desiredKey_def Let_def
    by (intro triple_intro triple_bind [OF keyFromRef_triple] random) (simp_all add: assms)
  show ?thesis
    unfolding getDesiredCredentials_def Let_def
    by (intro triple_intro triple_bind [OF key]) simp_all
qed

lemma addsAccount_simps [simp]:
  "isInfra c \<Longrightarrow> \<not> addsAccount (c, e)" "isQuery c \<Longrightarrow> \<not> addsAccount (c, e)"
  "\<not> addsAccount (Update y, e)" "\<not> addsAccount (Get k, e)" "\<not> addsAccount (CreateSecret s, e)"
  "\<not> addsAccount (UpdateSecret s, e)" "\<not> addsAccount (DeleteSecret k, e)"
  "\<not> addsAccount (Mutate h (UpdateServiceAccount a u), e)"
  by (cases c; simp add: addsAccount_def)+

abbreviation addsNothing :: "('w, MinioAccessKey call, 'a) m \<Rightarrow> bool" where
  "addsNothing c \<equiv> triple (\<lambda>ev. \<not> addsAccount ev) (\<lambda>_. True) True (\<lambda>_. True) c"

lemma getDesiredCredentials_adds_nothing: "addsNothing (getDesiredCredentials r ak c)"
  by (rule getDesiredCredentials_reads) simp_all

lemma createCredentialsSecret_adds_nothing: "addsNothing (createCredentialsSecret r ak)"
  unfolding createCredentialsSecret_def tenant_calls
  by (intro triple_intro triple_call triple_bind [OF getDesiredCredentials_adds_nothing]) simp_all

lemma updateCredentialsSecret_adds_nothing: "addsNothing (updateCredentialsSecret r ak)"
  unfolding updateCredentialsSecret_def tenant_calls updateObj_def Let_def split_def
  by (intro triple_intro triple_bind [OF getDesiredCredentials_adds_nothing]
      triple_bind [OF createCredentialsSecret_adds_nothing]) simp_all

lemma accessKeyLost_adds_nothing: "addsNothing (accessKeyLost r ak cs)"
  unfolding accessKeyLost_def tenant_calls updateObj_def Let_def
  by (intro triple_intro triple_call) simp_all

lemma accessKeySync_adds_nothing: "addsNothing (accessKeySync r mtac ak cs secret msa)"
  unfolding accessKeySync_def tenant_calls Let_def
  by (intro triple_intro triple_call) simp_all

lemma removeMigrate_adds_nothing: "addsNothing (minioAccessKey_removeMigrate r ak)"
  unfolding minioAccessKey_removeMigrate_def updateObj_def
  by (intro triple_intro triple_call) simp_all

lemma getAdminClient_adds_nothing:
  "addsNothing (getAdminClient (r :: ('w, MinioAccessKey) reconciler) rr ns)"
  by (rule getAdminClient_triple) simp_all

lemma updateAccessKey_adds_nothing: "addsNothing (updateAccessKey r ak secret)"
  unfolding updateAccessKey_def queryM_def Let_def
  by (intro triple_intro triple_bind [OF removeMigrate_adds_nothing]
      triple_bind [OF getAdminClient_adds_nothing] accessKeyLost_adds_nothing
      triple_bind [OF accessKeySync_adds_nothing]) simp_all

lemma minioAccessKey_update_adds_nothing: "addsNothing (minioAccessKey_update r ak)"
  unfolding minioAccessKey_update_def updateObj_def success_def split_def
  by (intro triple_intro triple_bind [OF updateCredentialsSecret_adds_nothing]
      triple_bind [OF updateAccessKey_adds_nothing]) simp_all

text \<open>The spec of the resource on the way to the last update: the one read, without the migrate flag.\<close>

lemma accessKeySame_spec:
  "updateStores accessKeySame r \<Longrightarrow> r_Update r w x = (Inr y, w') \<Longrightarrow> ak_Spec y = ak_Spec x"
  by (drule (1) updateStores_same) (simp add: accessKeySame_def)

lemma updateCredentialsSecret_spec:
  assumes "updateStores accessKeySame r"
  shows "triple (\<lambda>_. True) (\<lambda>_. True) True (\<lambda>(s, y). ak_Spec y = ak_Spec ak) (updateCredentialsSecret r ak)"
proof -
  have quiet: "triple (\<lambda>_. True) (\<lambda>_. True) True (\<lambda>_. True) (getDesiredCredentials r x c)" for x c
    by (rule getDesiredCredentials_reads) simp_all
  show ?thesis
    unfolding updateCredentialsSecret_def tenant_calls updateObj_def Let_def split_def
    by (intro triple_intro triple_bind [OF createCredentialsSecret_made] triple_bind [OF quiet])
      (auto dest: accessKeySame_spec [OF assms])
qed

lemma updateAccessKey_spec:
  assumes "updateStores accessKeySame r"
  shows "triple (\<lambda>_. True) (\<lambda>_. True) True (\<lambda>y. ak_Spec y = (ak_Spec ak)\<lparr>aks_Migrate := False\<rparr>)
    (updateAccessKey r ak secret)"
proof -
  have client: "triple (\<lambda>_. True) (\<lambda>_. True) True (\<lambda>_. True)
      (getAdminClient (r :: ('a, MinioAccessKey) reconciler) rr ns)" for rr ns
    by (rule getAdminClient_triple) simp_all
  have sync: "triple (\<lambda>_. True) (\<lambda>_. True) True (\<lambda>_. True) (accessKeySync r mtac x cs s msa)" for mtac x cs s msa
    by (rule accessKeySync_profile [where I = "\<lambda>_. True"]) (auto simp: profile_def)
  have flag: "triple (\<lambda>_. True) (\<lambda>_. True) True (\<lambda>y. ak_Spec y = (ak_Spec ak)\<lparr>aks_Migrate := False\<rparr>)
      (minioAccessKey_removeMigrate r ak)"
    unfolding minioAccessKey_removeMigrate_def updateObj_def
    by (intro triple_intro triple_call) (auto dest: accessKeySame_spec [OF assms])
  show ?thesis
    unfolding updateAccessKey_def accessKeyLost_def tenant_calls queryM_def updateObj_def Let_def
    by (intro triple_bind [OF flag] triple_intro triple_call triple_bind [OF client] triple_bind [OF sync])
      (auto dest: accessKeySame_spec [OF assms])
qed

lemma minioAccessKey_update_yields:
  "yields (minioAccessKey_update r ak) (\<lambda>_ t. \<exists>t1 y. t = t1 @ [Update y] \<and>
     accessKeyCurrent y = Some (ak_Spec y) \<and>
     (updateStores accessKeySame r \<longrightarrow> ak_Spec y = (ak_Spec ak)\<lparr>aks_Migrate := False\<rparr>))"
proof -
  have 1: "yields (updateCredentialsSecret r ak)
      (\<lambda>x _. updateStores accessKeySame r \<longrightarrow> ak_Spec (snd x) = ak_Spec ak)"
    unfolding yields_def using updateCredentialsSecret_spec by (fastforce dest: tripleD)
  have 2: "yields (updateAccessKey r x s)
      (\<lambda>y _. updateStores accessKeySame r \<longrightarrow> ak_Spec y = (ak_Spec x)\<lparr>aks_Migrate := False\<rparr>)" for x s
    unfolding yields_def using updateAccessKey_spec by (fastforce dest: tripleD)
  show ?thesis
    unfolding minioAccessKey_update_def split_def success_def updateObj_def
    by (rule yields_weaken, rule yields_bind [OF 1], rule yields_bind [OF 2],
        rule yields_bind [OF yields_call yields_ret])
      (auto intro: append_assoc [symmetric])
qed

text \<open>
  C29 - A pass over a recorded access key never adds a service account, also when the tenant no longer
  knows the key: whatever the tenant and the API server answer, a pass over a MinioAccessKey whose
  status is set, that is not being deleted and has the finalizer, asks for no service account to be
  added, and if it succeeds the last thing it does is to record the spec (without the migrate flag) as
  applied. (The branch for a lost access key clears the status to have the key created anew, but the
  code that called it sets it again in the same pass.) This is a statement about one pass: when the
  update after the branch for a lost key fails, or the operator stops between the two, the status
  stays cleared and a later pass does create the account.
\<close>

theorem recorded_access_key_not_recreated:
  assumes "r_Get r w req = (Inr ak, w1)" and "accessKeyCurrent ak = Some cs"
    and "timeIsZero (om_DeletionTimestamp (ak_ObjectMeta ak))"
    and "containsFinalizer (lib (r_env r)) (ak_ObjectMeta ak) finalizer"
  shows "list_all (\<lambda>ev. \<not> addsAccount ev) (trace (minioAccessKeyReconciler_Reconcile r req) w) \<and>
    (\<forall>res. outcome (minioAccessKeyReconciler_Reconcile r req) w = Ok res \<longrightarrow>
      (\<exists>t y. map fst (trace (minioAccessKeyReconciler_Reconcile r req) w) = t @ [Update y] \<and>
        accessKeyCurrent y = Some (ak_Spec y) \<and>
        (updateStores accessKeySame r \<longrightarrow> ak_Spec y = (ak_Spec ak)\<lparr>aks_Migrate := False\<rparr>)))"
proof (intro conjI allI impI)
  have pass: "minioAccessKey_pass r req ak = minioAccessKey_update r ak"
    using assms(2-4) by (simp add: minioAccessKey_pass_def)
  show "list_all (\<lambda>ev. \<not> addsAccount ev) (trace (minioAccessKeyReconciler_Reconcile r req) w)"
    by (rule access_key.reconcile_all [OF assms(1) minioAccessKey_update_adds_nothing [of r ak, folded pass]])
      (simp add: addsAccount_def)
  fix res assume "outcome (minioAccessKeyReconciler_Reconcile r req) w = Ok res"
  then have "outcome (minioAccessKey_update r ak) w1 = Ok res"
    by (simp add: access_key.reconcile_found [OF assms(1)] pass)
  from yieldsD [OF minioAccessKey_update_yields this]
  show "\<exists>t y. map fst (trace (minioAccessKeyReconciler_Reconcile r req) w) = t @ [Update y] \<and>
      accessKeyCurrent y = Some (ak_Spec y) \<and>
      (updateStores accessKeySame r \<longrightarrow> ak_Spec y = (ak_Spec ak)\<lparr>aks_Migrate := False\<rparr>)"
    by (auto simp: access_key.reconcile_found [OF assms(1)] pass intro: append_Cons [symmetric])
qed

theorem recorded_access_key_not_recreated_witness:
  "list_all (\<lambda>ev. \<not> addsAccount ev) (trace (minioAccessKeyReconciler_Reconcile
     (sampleReconciler (sampleAccessKey (Some sampleAccessKeySpec))) sampleKey) ())"
  using recorded_access_key_not_recreated [of "sampleReconciler (sampleAccessKey (Some sampleAccessKeySpec))"
      "()" sampleKey "sampleAccessKey (Some sampleAccessKeySpec)" "()" sampleAccessKeySpec]
  by (simp add: timeIsZero_def)

subsection \<open>Renaming the generated secret\<close>

lemma reqNamespacedName_empty [simp]:
  "reqNamespacedName emptySecret = \<lparr>nn_Namespace = '''', nn_Name = ''''\<rparr>"
  by (simp add: reqNamespacedName_def emptySecret_def emptyMeta_def)

text \<open>
  A changed secretName is not applied when the generated secret of the recorded spec is already
  gone: the pass asks for the deletion of a secret with an empty name in an empty namespace, and when
  the API server rejects that (it does so with an error that is not "not found"), the pass ends with
  that error, before a new secret is made and before the status is touched; so the next pass starts
  from the same state.
\<close>

theorem access_key_rename_without_secret:
  assumes "r_Get r w req = (Inr ak, w1)" and "accessKeyCurrent ak = Some cs"
    and "timeIsZero (om_DeletionTimestamp (ak_ObjectMeta ak))"
    and "containsFinalizer (lib (r_env r)) (ak_ObjectMeta ak) finalizer"
    and "aks_SecretName (ak_Spec ak) \<noteq> aks_SecretName cs"
    and "e_GetSecret (r_env r) w1 (generatedSecret ak cs) = (Inl gone, w2)"
    and "isNotFound (lib (r_env r)) gone"
    and "e_DeleteSecret (r_env r) w2 \<lparr>nn_Namespace = '''', nn_Name = ''''\<rparr> = (Inl err, w3)"
    and "\<not> isNotFound (lib (r_env r)) err"
  shows "minioAccessKeyReconciler_Reconcile r req w =
    (Err err, w3,
     [(Get req, None), (GetSecret (generatedSecret ak cs), Some gone),
      (DeleteSecret \<lparr>nn_Namespace = '''', nn_Name = ''''\<rparr>, Some err)])"
proof -
  have "updateCredentialsSecret r ak w1 =
      (Err err, w3, [(GetSecret (generatedSecret ak cs), Some gone),
        (DeleteSecret \<lparr>nn_Namespace = '''', nn_Name = ''''\<rparr>, Some err)])"
    using assms(2,5-9)
    by (simp add: updateCredentialsSecret_def Let_def getSecret_def deleteSecret_def errNotFound_def prim)
  then have "minioAccessKey_update r ak w1 =
      (Err err, w3, [(GetSecret (generatedSecret ak cs), Some gone),
        (DeleteSecret \<lparr>nn_Namespace = '''', nn_Name = ''''\<rparr>, Some err)])"
    unfolding minioAccessKey_update_def by (rule bindM_Err)
  then show ?thesis
    using assms(1-4)
    by (simp add: minioAccessKeyReconciler_Reconcile_def minioAccessKey_pass_def getObj_def prim)
qed

text \<open>An environment without the generated secret, which rejects the deletion of a nameless one.\<close>

definition noSecretEnv :: "unit env" where
  "noSecretEnv = sampleEnv\<lparr>e_GetSecret := \<lambda>w k. (Inl (KubeErr ''NotFound'' ''''), w),
     e_DeleteSecret := \<lambda>w k. (Inl (GoErr ''resource name may not be empty''), w)\<rparr>"

theorem access_key_rename_without_secret_witness:
  "outcome (minioAccessKeyReconciler_Reconcile (reconcilerIn noSecretEnv
      (sampleAccessKey (Some (sampleAccessKeySpec\<lparr>aks_SecretName := ''old''\<rparr>)))) sampleKey) ()
    = Err (GoErr ''resource name may not be empty'')"
proof -
  let ?cs = "sampleAccessKeySpec\<lparr>aks_SecretName := ''old''\<rparr>"
  show ?thesis
    using access_key_rename_without_secret [of "reconcilerIn noSecretEnv (sampleAccessKey (Some ?cs))" "()"
        sampleKey "sampleAccessKey (Some ?cs)" "()" ?cs "KubeErr ''NotFound'' ''''" "()"
        "GoErr ''resource name may not be empty''" "()"]
    by (simp add: noSecretEnv_def timeIsZero_def outcome_def)
      (simp add: sample sampleAccessKeySpec_def sampleIsNotFound_def)
qed

subsection \<open>Expiration times\<close>

text \<open>
  A service account with an expiration is updated on every pass when the two sides carry the
  time with different locations (the tenant's answer is parsed as UTC, the resource's field as local
  time): although both are the same instant and everything else agrees, the comparison with
  \<open>reflect.DeepEqual\<close> differs, and a successful synchronisation has asked the tenant to set the values
  it already has.
\<close>

theorem access_key_expiry_never_settles:
  assumes "isa_Expiration msa = Some t" and "aks_Expiration cs = Some t'"
    and "t_loc t \<noteq> t_loc t'"
    and "outcome (accessKeySync r mtac ak cs secret msa) w = Ok u"
  shows "\<exists>policy. marshalPolicy (akp_Statement (aks_Policy cs)) (akp_Version (aks_Policy cs)) = Inr policy \<and>
    (Mutate mtac (UpdateServiceAccount (AccessKey (getCredentialsFromSecret secret))
       (updateServiceAccountReq cs (getCredentialsFromSecret secret) policy)), None)
      \<in> set (trace (accessKeySync r mtac ak cs secret msa) w)"
proof -
  let ?P = "\<lambda>ev. \<exists>policy. marshalPolicy (akp_Statement (aks_Policy cs)) (akp_Version (aks_Policy cs)) = Inr policy \<and>
    ev = (Mutate mtac (UpdateServiceAccount (AccessKey (getCredentialsFromSecret secret))
       (updateServiceAccountReq cs (getCredentialsFromSecret secret) policy)), None)"
  have "remoteDiffers L msa m cs" for L m using assms(1-3) by (auto simp: remoteDiffers_def)
  moreover have "achieves ?P (bindM (liftE (marshalPolicy (akp_Statement (aks_Policy cs))
      (akp_Version (aks_Policy cs)))) (\<lambda>policy. mutate (r_env r) mtac
        (UpdateServiceAccount (AccessKey (getCredentialsFromSecret secret))
          (updateServiceAccountReq cs (getCredentialsFromSecret secret) policy))))"
    unfolding mutate_def
    by (cases "marshalPolicy (akp_Statement (aks_Policy cs)) (akp_Version (aks_Policy cs))")
      (auto intro: achieves_fail achieves_call)
  ultimately have "achieves ?P (accessKeySync r mtac ak cs secret msa)"
    unfolding accessKeySync_def Let_def
    by - (rule achieves_bind_right, rule achieves_bind_left, simp)
  from achievesD [OF this assms(4)] show ?thesis by blast
qed

text \<open>The spec and the answer of the example: one instant, in local time and in UTC.\<close>

definition expiringSpec :: MinioAccessKeySpec where
  "expiringSpec =
     sampleAccessKeySpec\<lparr>aks_Expiration := Some \<lparr>t_sec = 5, t_nsec = 0, t_loc = LocLocal\<rparr>\<rparr>"

definition expiringAccount :: InfoServiceAccountResp where
  "expiringAccount = \<lparr>isa_Description = '''',
     isa_Expiration = Some \<lparr>t_sec = 5, t_nsec = 0, t_loc = LocUTC\<rparr>,
     isa_Name = '''', isa_ImpliedPolicy = True, isa_Policy = NoDoc\<rparr>"

theorem access_key_expiry_never_settles_witness:
  "\<exists>policy. (Mutate (Handle 0) (UpdateServiceAccount (AccessKey (getCredentialsFromSecret sampleSecret))
       (updateServiceAccountReq expiringSpec (getCredentialsFromSecret sampleSecret) policy)), None)
      \<in> set (trace (accessKeySync (sampleReconciler (sampleAccessKey None)) (Handle 0) (sampleAccessKey None)
         expiringSpec sampleSecret expiringAccount) ())"
proof -
  have "outcome (accessKeySync (sampleReconciler (sampleAccessKey None)) (Handle 0) (sampleAccessKey None)
      expiringSpec sampleSecret expiringAccount) () = Ok ()"
    by (simp add: accessKeySync_def Let_def mutate_def prim marshalPolicy_def marshalAccessKeyPolicy_def
        outcome_def anyWorldEnv_def expiringAccount_def)
  then show ?thesis
    using access_key_expiry_never_settles [of expiringAccount "\<lparr>t_sec = 5, t_nsec = 0, t_loc = LocUTC\<rparr>"
        expiringSpec "\<lparr>t_sec = 5, t_nsec = 0, t_loc = LocLocal\<rparr>"]
    by (fastforce simp: expiringSpec_def expiringAccount_def)
qed

end
