(* ===== verification/Key_Cluster.thy ===== *)
theory Key_Cluster
  imports Access_Key_Reconciler Convergence
begin

text \<open>
  The quiet cluster of access keys: what the tenant and the API server answer to each call of their
  reconciler when nobody else writes, the runs of the calls in it, and the keys that a spec, its
  references and the current secret determine. The last section is a cluster in which the laws hold.
\<close>

section \<open>The view of the world\<close>

text \<open>
  The service accounts that the tenant knows, under their access keys, and the secrets of the cluster. An
  account keeps the instant of its expiration, not the location the time was given in; policies are
  compared as the operator compares them, by the hash.
\<close>

record account =
  acc_user :: string
  acc_secret :: string
  acc_description :: string
  acc_name :: string
  acc_expiration :: "(int \<times> int) option"
  acc_policy :: MinioAccessKeyPolicy

definition instant :: "gotime \<Rightarrow> int \<times> int" where
  "instant t = (t_sec t, t_nsec t)"

definition samePolicy :: "Lib \<Rightarrow> MinioAccessKeyPolicy \<Rightarrow> MinioAccessKeyPolicy \<Rightarrow> bool" where
  "samePolicy L p q \<longleftrightarrow> getHashAccessKeyPolicy (sha512_256 L) p = getHashAccessKeyPolicy (sha512_256 L) q"

lemma samePolicy_simps [simp]: "samePolicy L p p"
  by (simp add: samePolicy_def)

record keyTenant =
  kt_accounts :: "string \<rightharpoonup> account"
  kt_secrets :: "NamespacedName \<rightharpoonup> Secret"

type_synonym 'w keyCluster = "('w, MinioAccessKey, keyTenant) cluster"

abbreviation accounts :: "'w keyCluster \<Rightarrow> 'w \<Rightarrow> string \<rightharpoonup> account" where
  "accounts c w \<equiv> kt_accounts (cl_tenant c w)"

abbreviation secrets :: "'w keyCluster \<Rightarrow> 'w \<Rightarrow> NamespacedName \<rightharpoonup> Secret" where
  "secrets c w \<equiv> kt_secrets (cl_tenant c w)"

definition movesTo ::
  "'w keyCluster \<Rightarrow> 'w \<Rightarrow> (string \<rightharpoonup> account) \<Rightarrow> (NamespacedName \<rightharpoonup> Secret) \<Rightarrow> 'w \<Rightarrow> bool" where
  "movesTo c w A S w' \<longleftrightarrow> cl_store c w' = cl_store c w \<and> accounts c w' = A \<and> secrets c w' = S"

lemma movesToD:
  "movesTo c w A S w' \<Longrightarrow> cl_store c w' = cl_store c w" "movesTo c w A S w' \<Longrightarrow> accounts c w' = A"
  "movesTo c w A S w' \<Longrightarrow> secrets c w' = S"
  by (simp_all add: movesTo_def)

lemma keeps_movesTo: "keeps c w w' \<longleftrightarrow> movesTo c w (accounts c w) (secrets c w) w'"
  unfolding keeps_def movesTo_def by (cases "cl_tenant c w"; cases "cl_tenant c w'") simp

text \<open>
  A secret that is stored has what was sent, with the entries of \<open>StringData\<close> over those of \<open>Data\<close>,
  under a resource version that the status does not record yet.
\<close>

definition secretStored :: "Secret \<Rightarrow> Secret \<Rightarrow> bool" where
  "secretStored s s' \<longleftrightarrow> reqNamespacedName s' = reqNamespacedName s \<and>
     sec_Data s' = sec_Data s ++ sec_StringData s"

definition recordedVersion :: "'w keyCluster \<Rightarrow> 'w \<Rightarrow> string option" where
  "recordedVersion c w = map_option (\<lambda>ak. akst_CurrentSecretResourceVersion (ak_Status ak)) (cl_store c w)"

definition storesSecret :: "'w keyCluster \<Rightarrow> 'w \<Rightarrow> Secret \<Rightarrow> goerr + Secret \<Rightarrow> 'w \<Rightarrow> bool" where
  "storesSecret c w s x w' \<longleftrightarrow> (\<exists>s'. x = Inr s' \<and> secretStored s s' \<and>
     Some (om_ResourceVersion (sec_Meta s')) \<noteq> recordedVersion c w \<and>
     movesTo c w (accounts c w) ((secrets c w)(reqNamespacedName s \<mapsto> s')) w')"

text \<open>
  The quiet cluster for access keys. \<open>G\<close> are the names of secrets that the operator may generate (not
  those that a tenant is opened with). A secret is found exactly if it exists, one that exists is not
  created; a service account is known exactly if it exists, a taken access key is not added; the random
  source fills its buffers.
\<close>

definition quietSecrets :: "NamespacedName set \<Rightarrow> 'w keyCluster \<Rightarrow> bool" where
  "quietSecrets G c \<longleftrightarrow>
     (\<forall>w k s. secrets c w k = Some s \<longrightarrow> reqNamespacedName s = k) \<and>
     (\<forall>ak s. \<exists>s'. setOwnerReference (cl_lib c) ak s = Inr s' \<and> sec_Data s' = sec_Data s \<and>
        sec_StringData s' = sec_StringData s \<and> reqNamespacedName s' = reqNamespacedName s) \<and>
     (\<forall>w k. answers (e_GetSecret (r_env (cl_rec c)) w k) (\<lambda>x w'. keeps c w w' \<and>
        (case secrets c w k of Some s \<Rightarrow> x = Inr s | None \<Rightarrow> errNotFound (cl_lib c) (errOf x)))) \<and>
     (\<forall>w s. reqNamespacedName s \<in> G \<longrightarrow> secrets c w (reqNamespacedName s) = None \<longrightarrow>
        answers (e_CreateSecret (r_env (cl_rec c)) w s) (storesSecret c w s)) \<and>
     (\<forall>w s. reqNamespacedName s \<in> G \<longrightarrow> secrets c w (reqNamespacedName s) \<noteq> None \<longrightarrow>
        answers (e_UpdateSecret (r_env (cl_rec c)) w s) (storesSecret c w s)) \<and>
     (\<forall>w k. k \<in> G \<longrightarrow> secrets c w k \<noteq> None \<longrightarrow> answers (e_DeleteSecret (r_env (cl_rec c)) w k)
        (\<lambda>x w'. x = Inr () \<and> movesTo c w (accounts c w) ((secrets c w)(k := None)) w'))"

text \<open>
  What the tenant makes of a request. A document that is a policy other than the empty one becomes the
  policy of the account (what an empty one does is left open: it depends on the version of MinIO). An
  update sets the fields it carries; an empty field is not transmitted and leaves the account as it is.
\<close>

definition takesPolicy :: "Lib \<Rightarrow> doc \<Rightarrow> MinioAccessKeyPolicy \<Rightarrow> bool" where
  "takesPolicy L data q \<longleftrightarrow> (case unmarshalAccessKeyPolicy data of Inl _ \<Rightarrow> True
     | Inr p \<Rightarrow> \<not> samePolicy L p emptyAccessKeyPolicy \<longrightarrow> samePolicy L q p)"

definition newAccount :: "Lib \<Rightarrow> AddServiceAccountReq \<Rightarrow> account \<Rightarrow> bool" where
  "newAccount L req a \<longleftrightarrow> acc_user a = asa_TargetUser req \<and> acc_secret a = asa_SecretKey req \<and>
     acc_description a = asa_Description req \<and> acc_name a = asa_Name req \<and>
     acc_expiration a = map_option instant (asa_Expiration req) \<and> takesPolicy L (asa_Policy req) (acc_policy a)"

definition changedAccount :: "Lib \<Rightarrow> UpdateServiceAccountReq \<Rightarrow> account \<Rightarrow> account \<Rightarrow> bool" where
  "changedAccount L u a a' \<longleftrightarrow> acc_user a' = acc_user a \<and>
     acc_secret a' = (if usa_NewSecretKey u = '''' then acc_secret a else usa_NewSecretKey u) \<and>
     acc_description a' = (if usa_NewDescription u = '''' then acc_description a else usa_NewDescription u) \<and>
     acc_name a' = (if usa_NewName u = '''' then acc_name a else usa_NewName u) \<and>
     acc_expiration a' = (case usa_NewExpiration u of None \<Rightarrow> acc_expiration a | Some t \<Rightarrow> Some (instant t)) \<and>
     takesPolicy L (usa_NewPolicy u) (acc_policy a')"

text \<open>The answer to a lookup shows the account; without a policy of its own it has the implied one.\<close>

definition showsAccount :: "Lib \<Rightarrow> account \<Rightarrow> InfoServiceAccountResp \<Rightarrow> bool" where
  "showsAccount L a msa \<longleftrightarrow> isa_Description msa = acc_description a \<and> isa_Name msa = acc_name a \<and>
     map_option instant (isa_Expiration msa) = acc_expiration a \<and>
     (if isa_ImpliedPolicy msa \<or> isa_Policy msa = NoDoc then samePolicy L (acc_policy a) emptyAccessKeyPolicy
      else \<exists>p. unmarshalAccessKeyPolicy (isa_Policy msa) = Inr p \<and> samePolicy L (acc_policy a) p)"

definition addsAccountLaw :: "'w keyCluster \<Rightarrow> 'w \<Rightarrow> AddServiceAccountReq \<Rightarrow> goerr + unit \<Rightarrow> 'w \<Rightarrow> bool" where
  "addsAccountLaw c w req x w' \<longleftrightarrow>
     (if accounts c w (asa_AccessKey req) = None
      then x = Inr () \<and> (\<exists>a. newAccount (cl_lib c) req a \<and>
        movesTo c w ((accounts c w)(asa_AccessKey req \<mapsto> a)) (secrets c w) w')
      else keeps c w w' \<and> (\<exists>e. x = Inl e \<and>
        stringsContains (errText (cl_lib c) e) ''service account access key already taken''))"

definition quietAccounts :: "'w keyCluster \<Rightarrow> bool" where
  "quietAccounts c \<longleftrightarrow>
     (\<forall>w h req. answers (e_Mutate (r_env (cl_rec c)) w h (AddServiceAccount req)) (addsAccountLaw c w req)) \<and>
     (\<forall>w h req. answers (e_Mutate (r_env (cl_rec c)) w h (AddServiceAccountLDAP req)) (addsAccountLaw c w req)) \<and>
     (\<forall>w h k. answers (e_InfoServiceAccount (r_env (cl_rec c)) w h k) (\<lambda>x w'. keeps c w w' \<and>
        (case accounts c w k of None \<Rightarrow> isMadminErrorCode (errOf x) ''XMinioInvalidIAMCredentials''
         | Some a \<Rightarrow> \<exists>msa. x = Inr msa \<and> showsAccount (cl_lib c) a msa))) \<and>
     (\<forall>w h k u a. accounts c w k = Some a \<longrightarrow>
        answers (e_Mutate (r_env (cl_rec c)) w h (UpdateServiceAccount k u))
          (\<lambda>x w'. x = Inr () \<and> (\<exists>a'. changedAccount (cl_lib c) u a a' \<and>
             movesTo c w ((accounts c w)(k \<mapsto> a')) (secrets c w) w'))) \<and>
     (\<forall>w h k. answers (e_Mutate (r_env (cl_rec c)) w h (DeleteServiceAccount k))
        (\<lambda>x w'. madminOk ''XMinioInvalidIAMCredentials'' (errOf x) \<and>
           movesTo c w ((accounts c w)(k := None)) (secrets c w) w'))"

definition quietKeys :: "NamespacedName set \<Rightarrow> 'w keyCluster \<Rightarrow> bool" where
  "quietKeys G c \<longleftrightarrow> quietApi ak_ObjectMeta accessKeySame c \<and> opensAdmin c \<and>
     quietSecrets G c \<and> quietAccounts c \<and>
     (\<forall>w n. answers (e_RandRead (r_env (cl_rec c)) w n) (\<lambda>x w'. keeps c w w' \<and>
        (\<exists>buf. x = Inr buf \<and> length buf = n)))"

text \<open>While the tenant has the access keys \<open>A\<close>, the random source draws none of them.\<close>

definition drawsFresh :: "'w keyCluster \<Rightarrow> (string \<rightharpoonup> account) \<Rightarrow> bool" where
  "drawsFresh c A \<longleftrightarrow> (\<forall>w buf w'. accounts c w = A \<longrightarrow>
     e_RandRead (r_env (cl_rec c)) w 13 = (Inr buf, w') \<longrightarrow> take 20 (crockfordEncode buf) \<notin> dom A)"

interpretation access_key_phases: quiet_phases minioAccessKeyReconciler_Reconcile minioAccessKey_pass
  minioAccessKey_delete minioAccessKey_addFinalizer "\<lambda>r _. minioAccessKey_update r"
  "\<lambda>r _. minioAccessKey_create r" ak_ObjectMeta "\<lambda>x m. x\<lparr>ak_ObjectMeta := m\<rparr>"
  accessKeyStatusSet accessKeySame "quietKeys G" for G
  by unfold_locales (simp add: quietKeys_def)

section \<open>Calls\<close>

lemma quietKeys_api: "quietKeys G c \<Longrightarrow> quietApi ak_ObjectMeta accessKeySame c"
  by (simp add: quietKeys_def)

lemma keys_open:
  "quietKeys G c \<Longrightarrow> heldOnly (ak_ObjectMeta ak) \<Longrightarrow>
   okRun (getAdminClient (cl_rec c) rr (accessKeyNamespace ak)) w (\<lambda>_. keeps c w)"
  by (auto simp: quietKeys_def accessKeyNamespace_def intro: quiet_admin)

lemma keys_get:
  assumes "quietKeys G c" and "secrets c w k = Some s"
  shows "okRun (getSecret (r_env (cl_rec c)) k) w (\<lambda>x w'. x = s \<and> keeps c w w')"
proof -
  have "answers (e_GetSecret (r_env (cl_rec c)) w k) (\<lambda>x w'. keeps c w w' \<and>
      (case secrets c w k of Some s \<Rightarrow> x = Inr s | None \<Rightarrow> errNotFound (cl_lib c) (errOf x)))"
    using assms(1) by (simp add: quietKeys_def quietSecrets_def)
  with assms(2) show ?thesis
    unfolding getSecret_def by (intro okRun_answers) (simp add: answers_def)
qed

lemma keys_find:
  assumes "quietKeys G c"
  shows "okRun (attempt (getSecret (r_env (cl_rec c)) k)) w (\<lambda>x w'. keeps c w w' \<and>
    (case secrets c w k of Some s \<Rightarrow> x = Inr s | None \<Rightarrow> errNotFound (cl_lib c) (errOf x)))"
  unfolding getSecret_def
  by (rule okRun_attempt_answers) (use assms in \<open>simp add: quietKeys_def quietSecrets_def\<close>)

lemma keys_create_secret:
  assumes "quietKeys G c" and "reqNamespacedName s \<in> G" and "secrets c w (reqNamespacedName s) = None"
  shows "okRun (createSecret (r_env (cl_rec c)) s) w (\<lambda>x. storesSecret c w s (Inr x))"
proof -
  have "answers (e_CreateSecret (r_env (cl_rec c)) w s) (storesSecret c w s)"
    using assms by (simp add: quietKeys_def quietSecrets_def)
  then show ?thesis
    unfolding createSecret_def by (intro okRun_answers) (auto simp: answers_def storesSecret_def)
qed

lemma keys_update_secret:
  assumes "quietKeys G c" and "reqNamespacedName s \<in> G" and "secrets c w (reqNamespacedName s) \<noteq> None"
  shows "okRun (updateSecret (r_env (cl_rec c)) s) w (\<lambda>x. storesSecret c w s (Inr x))"
proof -
  have "answers (e_UpdateSecret (r_env (cl_rec c)) w s) (storesSecret c w s)"
    using assms by (simp add: quietKeys_def quietSecrets_def)
  then show ?thesis
    unfolding updateSecret_def by (intro okRun_answers) (auto simp: answers_def storesSecret_def)
qed

lemma keys_delete_secret:
  assumes "quietKeys G c" and "reqNamespacedName s \<in> G" and "secrets c w (reqNamespacedName s) \<noteq> None"
  shows "okRun (deleteSecret (r_env (cl_rec c)) s) w
    (\<lambda>_. movesTo c w (accounts c w) ((secrets c w)(reqNamespacedName s := None)))"
proof -
  have "answers (e_DeleteSecret (r_env (cl_rec c)) w (reqNamespacedName s))
      (\<lambda>x w'. x = Inr () \<and> movesTo c w (accounts c w) ((secrets c w)(reqNamespacedName s := None)) w')"
    using assms by (simp add: quietKeys_def quietSecrets_def)
  then show ?thesis unfolding deleteSecret_def by (intro okRun_answers) (simp add: answers_def)
qed

lemma keys_add:
  assumes "quietKeys G c"
  shows "okRun (attempt (mutate (r_env (cl_rec c)) h
      (if b then AddServiceAccountLDAP req else AddServiceAccount req))) w (addsAccountLaw c w req)"
  unfolding mutate_def
  by (rule okRun_attempt_answers) (use assms in \<open>simp add: quietKeys_def quietAccounts_def\<close>)

lemma keys_info:
  assumes "quietKeys G c"
  shows "okRun (attempt (queryM h (InfoServiceAccount k) (\<lambda>w. e_InfoServiceAccount (r_env (cl_rec c)) w h k))) w
    (\<lambda>x w'. keeps c w w' \<and>
      (case accounts c w k of None \<Rightarrow> isMadminErrorCode (errOf x) ''XMinioInvalidIAMCredentials''
       | Some a \<Rightarrow> \<exists>msa. x = Inr msa \<and> showsAccount (cl_lib c) a msa))"
  unfolding queryM_def
  by (rule okRun_attempt_answers) (use assms in \<open>simp add: quietKeys_def quietAccounts_def\<close>)

lemma keys_change:
  assumes "quietKeys G c" and "accounts c w k = Some a"
  shows "okRun (mutate (r_env (cl_rec c)) h (UpdateServiceAccount k u)) w
    (\<lambda>_ w'. \<exists>a'. changedAccount (cl_lib c) u a a' \<and> movesTo c w ((accounts c w)(k \<mapsto> a')) (secrets c w) w')"
proof -
  have "answers (e_Mutate (r_env (cl_rec c)) w h (UpdateServiceAccount k u))
      (\<lambda>x w'. x = Inr () \<and> (\<exists>a'. changedAccount (cl_lib c) u a a' \<and>
         movesTo c w ((accounts c w)(k \<mapsto> a')) (secrets c w) w'))"
    using assms by (simp add: quietKeys_def quietAccounts_def)
  then show ?thesis unfolding mutate_def by (intro okRun_answers) (simp add: answers_def)
qed

lemma keys_remove:
  assumes "quietKeys G c"
  shows "okRun (attempt (mutate (r_env (cl_rec c)) h (DeleteServiceAccount k))) w
    (\<lambda>x w'. madminOk ''XMinioInvalidIAMCredentials'' (errOf x) \<and>
       movesTo c w ((accounts c w)(k := None)) (secrets c w) w')"
  unfolding mutate_def
  by (rule okRun_attempt_answers) (use assms in \<open>simp add: quietKeys_def quietAccounts_def\<close>)

lemma keys_random:
  assumes "quietKeys G c"
  shows "okRun (createRandomString (r_env (cl_rec c)) n) w (\<lambda>key w'. keeps c w w' \<and> length key = n \<and>
    (n = 20 \<longrightarrow> drawsFresh c (accounts c w) \<longrightarrow> key \<notin> dom (accounts c w)))"
proof -
  let ?n = "(n * 5 + 7) div 8"
  have "answers (e_RandRead (r_env (cl_rec c)) w ?n)
      (\<lambda>x w'. keeps c w w' \<and> (\<exists>buf. x = Inr buf \<and> length buf = ?n))"
    using assms by (simp add: quietKeys_def)
  then obtain buf w' where r: "e_RandRead (r_env (cl_rec c)) w ?n = (Inr buf, w')" "keeps c w w'"
      "length buf = ?n"
    by (cases "e_RandRead (r_env (cl_rec c)) w ?n") (auto simp: answers_def)
  have fresh: "take 20 (crockfordEncode buf) \<notin> dom (accounts c w)" if "n = 20" "drawsFresh c (accounts c w)"
    using that r(1) unfolding drawsFresh_def by auto
  have "okRun (call (RandRead ?n) (\<lambda>w. e_RandRead (r_env (cl_rec c)) w ?n)) w
      (\<lambda>b v. b = buf \<and> v = w')"
    by (simp add: okRun_def call_def r(1))
  then show ?thesis
    unfolding createRandomString_def randRead_def Let_def
    by (rule okRun_bind)
      (use r fresh in \<open>auto simp: length_crockfordEncode intro!: okRun_ret\<close>)
qed

section \<open>The desired keys\<close>

text \<open>
  What a spec says of a key: the value given, or else the referenced entry, or nothing; then the current
  key, if there is one.
\<close>

definition refEntry :: "(NamespacedName \<rightharpoonup> Secret) \<Rightarrow> string \<Rightarrow> ResourceKeyRef \<Rightarrow> string option" where
  "refEntry S ns rkr =
     (let akr = ResourceKeyRef_SetDefaultNamespace rkr ns in
      case S \<lparr>nn_Namespace = rkr_Namespace akr, nn_Name = rkr_Name akr\<rparr> of
        None \<Rightarrow> None | Some s \<Rightarrow> sec_Data s (rkr_Key rkr))"

definition givenKey :: "(NamespacedName \<rightharpoonup> Secret) \<Rightarrow> string \<Rightarrow> string \<Rightarrow> ResourceKeyRef \<Rightarrow> string option" where
  "givenKey S ns given rkr = (if given = '''' \<and> rkr \<noteq> emptyKeyRef then refEntry S ns rkr else Some given)"

definition chosenKey :: "string \<Rightarrow> string option \<Rightarrow> string" where
  "chosenKey g current = (case current of Some c \<Rightarrow> if g = '''' then c else g | None \<Rightarrow> g)"

lemma keyFromRef_quiet:
  assumes "quietKeys G c" and "refEntry (secrets c w) ns rkr = Some v"
  shows "okRun (keyFromRef (cl_rec c) ns what rkr) w (\<lambda>key w'. key = v \<and> keeps c w w')"
proof -
  let ?k = "\<lparr>nn_Namespace = rkr_Namespace (ResourceKeyRef_SetDefaultNamespace rkr ns),
    nn_Name = rkr_Name (ResourceKeyRef_SetDefaultNamespace rkr ns)\<rparr>"
  from assms(2) obtain s where "secrets c w ?k = Some s" "sec_Data s (rkr_Key rkr) = Some v"
    by (auto simp: refEntry_def Let_def split: option.splits)
  then show ?thesis
    unfolding keyFromRef_def Let_def
    by (intro okRun_bind [OF keys_get [OF assms(1)]]) (auto intro: okRun_ret)
qed

lemma desiredKey_quiet:
  assumes q: "quietKeys G c" and g: "givenKey (secrets c w) (accessKeyNamespace ak) given rkr = Some g"
    and "chosenKey g current = '''' \<longrightarrow> \<not> aks_Migrate (ak_Spec ak)"
  shows "okRun (desiredKey (cl_rec c) ak what given rkr current n) w (\<lambda>key w'. keeps c w w' \<and>
    (if chosenKey g current = '''' then length key = n \<and>
       (n = 20 \<longrightarrow> drawsFresh c (accounts c w) \<longrightarrow> key \<notin> dom (accounts c w))
     else key = chosenKey g current))"
proof -
  have "okRun (if given = '''' \<and> rkr \<noteq> emptyKeyRef
      then keyFromRef (cl_rec c) (accessKeyNamespace ak) what rkr else ret given) w
      (\<lambda>key w'. key = g \<and> keeps c w w')"
    using g keyFromRef_quiet [OF q] by (auto simp: givenKey_def intro: okRun_ret)
  then show ?thesis
    unfolding desiredKey_def
  proof (rule okRun_bind, goal_cases)
    case (1 key w1)
    then have k: "(case current of Some c \<Rightarrow> if key = '''' then c else key | None \<Rightarrow> key) = chosenKey g current"
        "keeps c w w1" by (auto simp: chosenKey_def split: option.split)
    then have a: "accounts c w1 = accounts c w" by (simp add: keeps_def)
    show ?case
    proof (cases "chosenKey g current = ''''")
      case True
      with assms(3) show ?thesis
        unfolding k Let_def
        by (simp, intro okRun_weaken [OF keys_random [OF q]]) (use k(2) a in \<open>auto intro: keeps_trans\<close>)
    next
      case False
      with k(2) show ?thesis unfolding k Let_def by (auto intro: okRun_ret)
    qed
  qed
qed

text \<open>
  The keys are determined: the references lead to entries, and if the spec asks to migrate nothing is
  left to be drawn.
\<close>

definition determined :: "(NamespacedName \<rightharpoonup> Secret) \<Rightarrow> MinioAccessKey \<Rightarrow>
    minioAccessKeyCredentials option \<Rightarrow> string \<Rightarrow> string \<Rightarrow> bool" where
  "determined S ak current ck sk \<longleftrightarrow>
     (\<exists>g h. givenKey S (accessKeyNamespace ak) (aks_AccessKey (ak_Spec ak))
          (aks_AccessKeyRef (ak_Spec ak)) = Some g \<and> ck = chosenKey g (map_option AccessKey current) \<and>
        givenKey S (accessKeyNamespace ak) '''' (aks_SecretKeyRef (ak_Spec ak)) = Some h \<and>
        sk = chosenKey h (map_option SecretKey current)) \<and>
     (aks_Migrate (ak_Spec ak) \<longrightarrow> ck \<noteq> '''' \<and> sk \<noteq> '''')"

definition fitting :: "'w keyCluster \<Rightarrow> 'w \<Rightarrow> string \<Rightarrow> string \<Rightarrow> minioAccessKeyCredentials \<Rightarrow> bool" where
  "fitting c w ck sk d \<longleftrightarrow> AccessKey d \<noteq> '''' \<and> SecretKey d \<noteq> '''' \<and>
     (ck \<noteq> '''' \<longrightarrow> AccessKey d = ck) \<and> (sk \<noteq> '''' \<longrightarrow> SecretKey d = sk) \<and>
     (ck = '''' \<longrightarrow> drawsFresh c (accounts c w) \<longrightarrow> AccessKey d \<notin> dom (accounts c w))"

lemma getDesiredCredentials_quiet:
  assumes q: "quietKeys G c" and d: "determined (secrets c w) ak current ck sk"
  shows "okRun (getDesiredCredentials (cl_rec c) ak current) w (\<lambda>d w'. keeps c w w' \<and> fitting c w ck sk d)"
proof -
  from d obtain g h where g: "givenKey (secrets c w) (accessKeyNamespace ak) (aks_AccessKey (ak_Spec ak))
        (aks_AccessKeyRef (ak_Spec ak)) = Some g" "chosenKey g (map_option AccessKey current) = ck"
      "givenKey (secrets c w) (accessKeyNamespace ak) '''' (aks_SecretKeyRef (ak_Spec ak)) = Some h"
      "chosenKey h (map_option SecretKey current) = sk"
      "aks_Migrate (ak_Spec ak) \<longrightarrow> ck \<noteq> '''' \<and> sk \<noteq> ''''"
    by (auto simp: determined_def)
  have "okRun (desiredKey (cl_rec c) ak ''access key'' (aks_AccessKey (ak_Spec ak))
      (aks_AccessKeyRef (ak_Spec ak)) (map_option AccessKey current) 20) w (\<lambda>key w'. keeps c w w' \<and>
      key \<noteq> '''' \<and> (ck \<noteq> '''' \<longrightarrow> key = ck) \<and>
      (ck = '''' \<longrightarrow> drawsFresh c (accounts c w) \<longrightarrow> key \<notin> dom (accounts c w)))"
    by (rule okRun_weaken [OF desiredKey_quiet [OF q g(1)]]) (use g in \<open>auto split: if_splits\<close>)
  then show ?thesis
    unfolding getDesiredCredentials_def Let_def
  proof (rule okRun_bind, goal_cases)
    case (1 k w1)
    then have g3: "givenKey (secrets c w1) (accessKeyNamespace ak) '''' (aks_SecretKeyRef (ak_Spec ak)) = Some h"
      using g(3) by (simp add: keeps_def)
    have "okRun (desiredKey (cl_rec c) ak ''secret key'' '''' (aks_SecretKeyRef (ak_Spec ak))
        (map_option SecretKey current) 40) w1 (\<lambda>s w'. keeps c w1 w' \<and> s \<noteq> '''' \<and> (sk \<noteq> '''' \<longrightarrow> s = sk))"
      by (rule okRun_weaken [OF desiredKey_quiet [OF q g3]]) (use g in \<open>auto split: if_splits\<close>)
    then show ?case
      by (rule okRun_bind) (use 1 in \<open>auto simp: fitting_def intro!: okRun_ret intro: keeps_trans\<close>)
  qed
qed

section \<open>A sample cluster\<close>

text \<open>
  The world of the witnesses: the object, the accounts of the tenant and the secrets, among which is the
  configuration of a tenant in every namespace.
\<close>

definition renamedTo :: "NamespacedName \<Rightarrow> Secret \<Rightarrow> Secret" where
  "renamedTo k s = s\<lparr>sec_Meta := (sec_Meta s)\<lparr>om_Namespace := nn_Namespace k, om_Name := nn_Name k\<rparr>\<rparr>"

type_synonym keyState = "(string \<rightharpoonup> account) \<times> (NamespacedName \<rightharpoonup> Secret)"

definition plainAccount :: "string \<Rightarrow> account" where
  "plainAccount sk = \<lparr>acc_user = '''', acc_secret = sk, acc_description = '''', acc_name = '''',
     acc_expiration = None, acc_policy = emptyAccessKeyPolicy\<rparr>"

text \<open>The policy of an account after a request with a document, and the requests themselves.\<close>

definition policyTaken :: "doc \<Rightarrow> MinioAccessKeyPolicy \<Rightarrow> MinioAccessKeyPolicy" where
  "policyTaken data old = (case unmarshalAccessKeyPolicy data of Inl _ \<Rightarrow> old | Inr p \<Rightarrow> p)"

definition accountAdded :: "AddServiceAccountReq \<Rightarrow> account" where
  "accountAdded r = \<lparr>acc_user = asa_TargetUser r, acc_secret = asa_SecretKey r, acc_description = asa_Description r,
     acc_name = asa_Name r, acc_expiration = map_option instant (asa_Expiration r),
     acc_policy = policyTaken (asa_Policy r) emptyAccessKeyPolicy\<rparr>"

definition accountChanged :: "UpdateServiceAccountReq \<Rightarrow> account \<Rightarrow> account" where
  "accountChanged u a = \<lparr>acc_user = acc_user a,
     acc_secret = (if usa_NewSecretKey u = '''' then acc_secret a else usa_NewSecretKey u),
     acc_description = (if usa_NewDescription u = '''' then acc_description a else usa_NewDescription u),
     acc_name = (if usa_NewName u = '''' then acc_name a else usa_NewName u),
     acc_expiration = (case usa_NewExpiration u of None \<Rightarrow> acc_expiration a | Some t \<Rightarrow> Some (instant t)),
     acc_policy = policyTaken (usa_NewPolicy u) (acc_policy a)\<rparr>"

definition accountShown :: "account \<Rightarrow> InfoServiceAccountResp" where
  "accountShown a = \<lparr>isa_Description = acc_description a,
     isa_Expiration = map_option (\<lambda>(s, n). \<lparr>t_sec = s, t_nsec = n, t_loc = LocUTC\<rparr>) (acc_expiration a),
     isa_Name = acc_name a, isa_ImpliedPolicy = False,
     isa_Policy = (case marshalPolicy (akp_Statement (acc_policy a)) (akp_Version (acc_policy a)) of
        Inr d \<Rightarrow> d | Inl _ \<Rightarrow> NoDoc)\<rparr>"

lemma accountAdded_new: "newAccount L r (accountAdded r)"
  by (auto simp: newAccount_def accountAdded_def takesPolicy_def policyTaken_def split: sum.split)

lemma accountChanged_changed: "changedAccount L u a (accountChanged u a)"
  by (auto simp: changedAccount_def accountChanged_def takesPolicy_def policyTaken_def split: sum.split option.split)

lemma accountShown_shows: "showsAccount L a (accountShown a)"
proof -
  obtain d where d: "marshalPolicy (akp_Statement (acc_policy a)) (akp_Version (acc_policy a)) = Inr d" "d \<noteq> NoDoc"
    by (simp add: marshalPolicy_def)
  have "\<lparr>akp_Statement = akp_Statement (acc_policy a), akp_Version = akp_Version (acc_policy a)\<rparr> = acc_policy a"
    by simp
  then have p: "unmarshalAccessKeyPolicy d = Inr (acc_policy a)"
    using unmarshal_marshal_accessKey [OF d(1)] by simp
  have t: "map_option instant (map_option (\<lambda>(s, n). \<lparr>t_sec = s, t_nsec = n, t_loc = LocUTC\<rparr>) (acc_expiration a))
      = acc_expiration a"
    by (cases "acc_expiration a") (auto simp: instant_def)
  show ?thesis
    using d p unfolding showsAccount_def accountShown_def by (simp add: t [unfolded option.map_comp] option.map_comp)
qed

definition sampleSecrets :: "(NamespacedName \<rightharpoonup> Secret) \<Rightarrow> NamespacedName \<rightharpoonup> Secret" where
  "sampleSecrets S k = (if nn_Name k = ''conf'' then Some (renamedTo k sampleSecret) else map_option (renamedTo k) (S k))"

definition keyView :: "keyState \<Rightarrow> keyTenant" where
  "keyView t = \<lparr>kt_accounts = fst t, kt_secrets = sampleSecrets (snd t)\<rparr>"

definition storedAs :: "MinioAccessKey option \<Rightarrow> Secret \<Rightarrow> Secret" where
  "storedAs ob s = s\<lparr>sec_Meta := (sec_Meta s)\<lparr>om_ResourceVersion := CHR ''v'' #
       (case ob of None \<Rightarrow> '''' | Some ak \<Rightarrow> akst_CurrentSecretResourceVersion (ak_Status ak))\<rparr>,
     sec_Data := sec_Data s ++ sec_StringData s\<rparr>"

definition storeSecret ::
  "MinioAccessKey option \<times> keyState \<Rightarrow> Secret \<Rightarrow> (goerr + Secret) \<times> (MinioAccessKey option \<times> keyState)" where
  "storeSecret w s = (Inr (storedAs (fst w) s),
     (fst w, (fst (snd w), (snd (snd w))(reqNamespacedName s \<mapsto> storedAs (fst w) s))))"

definition keysEnv :: "(MinioAccessKey option \<times> keyState) env" where
  "keysEnv = anyWorldEnv\<lparr>
     e_GetSecret := (\<lambda>w k. (case sampleSecrets (snd (snd w)) k of
        None \<Rightarrow> Inl (KubeErr ''NotFound'' '''') | Some s \<Rightarrow> Inr s, w)),
     e_CreateSecret := storeSecret, e_UpdateSecret := storeSecret,
     e_DeleteSecret := (\<lambda>w k. (Inr (), (fst w, (fst (snd w), (snd (snd w))(k := None))))),
     e_Mutate := (\<lambda>w _ q. let A = fst (snd w); to = (\<lambda>B. (Inr (), (fst w, (B, snd (snd w)))));
          add = (\<lambda>r. if A (asa_AccessKey r) = None then to (A(asa_AccessKey r \<mapsto> accountAdded r))
            else (Inl (GoErr ''service account access key already taken''), w)) in
        (case q of AddServiceAccount r \<Rightarrow> add r | AddServiceAccountLDAP r \<Rightarrow> add r
         | UpdateServiceAccount k u \<Rightarrow> to (A(k := map_option (accountChanged u) (A k)))
         | DeleteServiceAccount k \<Rightarrow> to (A(k := None)) | _ \<Rightarrow> (Inr (), w))),
     e_InfoServiceAccount := (\<lambda>w _ k. (case fst (snd w) k of
        None \<Rightarrow> Inl (MadminResp ''XMinioInvalidIAMCredentials'' '''')
      | Some a \<Rightarrow> Inr (accountShown a), w))\<rparr>"

abbreviation keysCluster :: "(MinioAccessKey option \<times> keyState) keyCluster" where
  "keysCluster \<equiv> sampleCluster ak_ObjectMeta keyView keysEnv"

definition generatedNames :: "NamespacedName set" where
  "generatedNames = {k. nn_Name k \<noteq> ''conf''}"

lemma reqNamespacedName_renamed [simp]: "reqNamespacedName (renamedTo k s) = k"
  by (simp add: reqNamespacedName_def renamedTo_def)

lemma renamedTo_self [simp]: "reqNamespacedName s = k \<Longrightarrow> renamedTo k s = s"
  by (auto simp: renamedTo_def reqNamespacedName_def)

lemma storedAs_name [simp]: "reqNamespacedName (storedAs ob s) = reqNamespacedName s"
  by (simp add: storedAs_def reqNamespacedName_def)

lemma sampleSecrets_simps [simp]:
  "k \<in> generatedNames \<Longrightarrow> reqNamespacedName s = k \<Longrightarrow> sampleSecrets (S(k \<mapsto> s)) = (sampleSecrets S)(k \<mapsto> s)"
  "k \<in> generatedNames \<Longrightarrow> sampleSecrets (S(k := None)) = (sampleSecrets S)(k := None)"
  "sampleSecrets S k = Some s \<Longrightarrow> reqNamespacedName s = k"
  by (auto simp: sampleSecrets_def generatedNames_def fun_eq_iff split: if_splits)

lemma keyView_simps [simp]:
  "kt_accounts (keyView t) = fst t" "kt_secrets (keyView t) = sampleSecrets (snd t)"
  by (simp_all add: keyView_def)

lemma keysCluster_opens: "opensAdmin keysCluster"
  unfolding opensAdmin_def okRun_def
proof (intro allI impI)
  fix w rr and ns :: string assume "ns \<noteq> ''''"
  then have "\<exists>t. getAdminClient (cl_rec keysCluster) rr ns w = (Ok (Handle 0), w, t)"
    by (simp add: getAdminClient_def GetAdminClient_def open_client_defs prim calls sample keysEnv_def
        sampleCluster_def sampleSecrets_def renamedTo_def)
  then obtain t where "getAdminClient (cl_rec keysCluster) rr ns w = (Ok (Handle 0), w, t)" ..
  then show "\<exists>a w' t. getAdminClient (cl_rec keysCluster) rr ns w = (Ok a, w', t) \<and> keeps keysCluster w w'"
    by (intro exI conjI) (assumption, rule keeps_refl)
qed

lemma storeSecret_stores:
  assumes "reqNamespacedName s \<in> generatedNames"
  shows "answers (storeSecret w s) (storesSecret keysCluster w s)"
  using assms
  by (cases "fst w") (auto simp: answers_def storeSecret_def storesSecret_def secretStored_def
    recordedVersion_def movesTo_def storedAs_def reqNamespacedName_def)

lemma keysCluster_secrets: "quietSecrets generatedNames keysCluster"
  unfolding quietSecrets_def
  by (intro conjI allI impI)
    (use storeSecret_stores in \<open>simp_all add: keysEnv_def anyWorldEnv_def sampleLib_def answers_def
      sampleIsNotFound_def errNotFound_def movesTo_def split: option.split\<close>)

lemma keysCluster_accounts: "quietAccounts keysCluster"
proof -
  have "answers (e_Mutate keysEnv w h (AddServiceAccount r)) (addsAccountLaw keysCluster w r)"
    "answers (e_Mutate keysEnv w h (AddServiceAccountLDAP r)) (addsAccountLaw keysCluster w r)" for w h r
    by (auto simp: keysEnv_def addsAccountLaw_def answers_def movesTo_def sampleLib_def anyWorldEnv_def
        sampleErrText_def Let_def hasPrefix_def intro: accountAdded_new)
  then show ?thesis
    unfolding quietAccounts_def
    by (intro conjI allI impI)
      (auto simp: keysEnv_def answers_def movesTo_def madminOk_def Let_def
        intro: accountShown_shows accountChanged_changed split: option.split)
qed

lemma quietKeys_sample: "quietKeys generatedNames keysCluster"
  unfolding quietKeys_def
  by (intro conjI keysCluster_opens keysCluster_secrets keysCluster_accounts sampleCluster_api)
    (simp_all add: keysEnv_def anyWorldEnv_def answers_def)

end
