(* ===== verification/Access_Key_Lifecycle.thy ===== *)
theory Access_Key_Lifecycle
  imports Key_Cluster
begin

text \<open>
  Access keys in a quiet cluster. Their reconciler does not follow the machine of \<open>Convergence\<close>: it keeps
  a pair of keys in a generated secret and never creates a lost access key again. This theory follows
  both through the passes: what a creation makes of the keys the spec gives or leaves open, that later
  passes keep them, how changes of the spec and of referenced secrets reach the tenant, and what a
  deletion takes away.
\<close>

section \<open>Creation\<close>

lemma credentialsSecret_simps [simp]:
  "sec_Data (credentialsSecret ak d) = [AccessKeyFieldAccessKey \<mapsto> AccessKey d, AccessKeyFieldSecretKey \<mapsto> SecretKey d]"
  "sec_StringData (credentialsSecret ak d) = Map.empty"
  "reqNamespacedName (credentialsSecret ak d) = generatedSecret ak (ak_Spec ak)"
  by (simp_all add: credentialsSecret_def emptySecret_def emptyMeta_def reqNamespacedName_def generatedSecret_def)

lemma getCredentialsFromSecret_data:
  "sec_Data s = D ++ [AccessKeyFieldAccessKey \<mapsto> AccessKey d, AccessKeyFieldSecretKey \<mapsto> SecretKey d] \<Longrightarrow>
   getCredentialsFromSecret s = d"
  by (simp add: getCredentialsFromSecret_def mapGet_def AccessKeyFieldAccessKey_def
      AccessKeyFieldSecretKey_def map_add_def)

text \<open>A secret for the keys \<open>d\<close> has been stored in place of the generated one.\<close>

definition secretMade ::
  "'w keyCluster \<Rightarrow> 'w \<Rightarrow> NamespacedName \<Rightarrow> minioAccessKeyCredentials \<Rightarrow> Secret \<Rightarrow> 'w \<Rightarrow> bool" where
  "secretMade c w g d s w' \<longleftrightarrow> getCredentialsFromSecret s = d \<and> reqNamespacedName s = g \<and>
     Some (om_ResourceVersion (sec_Meta s)) \<noteq> recordedVersion c w \<and>
     movesTo c w (accounts c w) ((secrets c w)(g \<mapsto> s)) w'"

lemma secretMade_keeps: "keeps c w w1 \<Longrightarrow> secretMade c w1 g d s w' \<Longrightarrow> secretMade c w g d s w'"
  by (simp add: secretMade_def keeps_def movesTo_def recordedVersion_def)

lemma createCredentialsSecret_makes:
  assumes q: "quietKeys G c" and d: "determined (secrets c w) ak None ck sk"
    and g: "generatedSecret ak (ak_Spec ak) \<in> G" "secrets c w (generatedSecret ak (ak_Spec ak)) = None"
  shows "okRun (createCredentialsSecret (cl_rec c) ak) w
    (\<lambda>s w'. \<exists>d. fitting c w ck sk d \<and> secretMade c w (generatedSecret ak (ak_Spec ak)) d s w')"
  unfolding createCredentialsSecret_def
proof (rule okRun_bind [OF getDesiredCredentials_quiet [OF q d]], goal_cases)
  case (1 d w1)
  from q obtain s where s: "setOwnerReference (cl_lib c) ak (credentialsSecret ak d) = Inr s"
      "sec_Data s = sec_Data (credentialsSecret ak d)" "sec_StringData s = Map.empty"
      "reqNamespacedName s = generatedSecret ak (ak_Spec ak)"
    unfolding quietKeys_def quietSecrets_def by (metis credentialsSecret_simps(2,3))
  have "okRun (createSecret (r_env (cl_rec c)) s) w1 (\<lambda>x. storesSecret c w1 s (Inr x))"
    using 1 g s(4) by (intro keys_create_secret [OF q]) (simp_all add: keeps_def)
  then show ?case
    unfolding s(1) liftE_simps bindM_ret
  proof (rule okRun_weaken)
    fix x w' assume "storesSecret c w1 s (Inr x) w'"
    then have "secretMade c w1 (generatedSecret ak (ak_Spec ak)) d x w'"
      using s getCredentialsFromSecret_data [of x Map.empty d]
      by (simp add: storesSecret_def secretStored_def secretMade_def)
    with 1 show "\<exists>d. fitting c w ck sk d \<and> secretMade c w (generatedSecret ak (ak_Spec ak)) d x w'"
      by (blast intro: secretMade_keeps)
  qed
qed

lemma marshalAccessKeyPolicy_ok: "\<exists>d. marshalAccessKeyPolicy L p = Inr d"
  by (simp add: marshalAccessKeyPolicy_def marshalPolicy_def Let_def)

text \<open>
  An account carries a spec when every field that the spec fills has arrived in it: the description, the
  name, the instant of the expiration and the policy (as the operator compares policies). Fields that the
  spec leaves empty are not transmitted, so nothing is said of them.
\<close>

definition carries :: "Lib \<Rightarrow> MinioAccessKeySpec \<Rightarrow> account \<Rightarrow> bool" where
  "carries L spec a \<longleftrightarrow>
     (aks_Description spec \<noteq> '''' \<longrightarrow> acc_description a = aks_Description spec) \<and>
     (aks_Name spec \<noteq> '''' \<longrightarrow> acc_name a = aks_Name spec) \<and>
     (\<forall>t. aks_Expiration spec = Some t \<longrightarrow> acc_expiration a = Some (instant t)) \<and>
     (\<not> samePolicy L (aks_Policy spec) emptyAccessKeyPolicy \<longrightarrow> samePolicy L (acc_policy a) (aks_Policy spec))"


lemma carries_simps [simp]:
  "carries L (spec\<lparr>aks_Migrate := b\<rparr>) a = carries L spec a"
  "carries L (spec\<lparr>aks_AccessKey := k\<rparr>) a = carries L spec a"
  by (simp_all add: carries_def)

lemma takesPolicy_marshal:
  assumes "takesPolicy L data q" and "marshalPolicy (akp_Statement p) (akp_Version p) = Inr data"
    and "\<not> samePolicy L p emptyAccessKeyPolicy"
  shows "samePolicy L q p"
  using assms(1,3) unmarshal_marshal_accessKey [OF assms(2)] by (cases p) (simp add: takesPolicy_def)

lemma takesPolicy_marshalAccessKey:
  assumes "takesPolicy L data q" and "marshalAccessKeyPolicy L p = Inr data" and "\<not> samePolicy L p emptyAccessKeyPolicy"
  shows "samePolicy L q p"
  using assms(2,3) takesPolicy_marshal [OF assms(1) _ assms(3)]
  by (simp add: marshalAccessKeyPolicy_def samePolicy_def Let_def)


lemma changedAccount_carries:
  assumes "changedAccount L (updateServiceAccountReq spec d data) a a'" and "SecretKey d \<noteq> ''''"
    and "marshalAccessKeyPolicy L (aks_Policy spec) = Inr data \<or>
      marshalPolicy (akp_Statement (aks_Policy spec)) (akp_Version (aks_Policy spec)) = Inr data"
  shows "carries L spec a' \<and> acc_secret a' = SecretKey d \<and> acc_user a' = acc_user a"
  using assms takesPolicy_marshalAccessKey [of L data] takesPolicy_marshal [of L data]
  by (auto simp: changedAccount_def updateServiceAccountReq_def carries_def)

text \<open>What the two comparisons of the synchronisation find equal, the account carries.\<close>

lemma carries_unless_remoteDiffers:
  assumes "showsAccount L a msa" and "\<not> remoteDiffers L msa mp cs"
    and "if isa_ImpliedPolicy msa \<or> isa_Policy msa = NoDoc then mp = emptyAccessKeyPolicy
      else unmarshalAccessKeyPolicy (isa_Policy msa) = Inr mp"
  shows "carries L cs a"
  using assms by (auto simp: showsAccount_def remoteDiffers_def carries_def samePolicy_def split: if_splits)

lemma carries_unless_specDiffers:
  "\<not> specDiffers L z cs secret \<Longrightarrow> carries L cs a = carries L (ak_Spec z) a"
  by (simp add: specDiffers_def carries_def samePolicy_def)



lemma createAccessKey_taken:
  assumes q: "quietKeys G c" and "heldOnly (ak_ObjectMeta ak)"
    and d: "getCredentialsFromSecret secret = d"
    and "accounts c w (AccessKey d) \<noteq> None" and "\<not> aks_Migrate (ak_Spec ak)"
  shows "errRun (createAccessKey (cl_rec c) ak secret) w (\<lambda>_. keeps c w)"
proof -
  obtain p where p: "marshalAccessKeyPolicy (cl_lib c) (aks_Policy (ak_Spec ak)) = Inr p"
    using marshalAccessKeyPolicy_ok by blast
  show ?thesis
    unfolding createAccessKey_def Let_def d p liftE_simps bindM_ret
    by (intro errRun_bind [OF keys_open [OF q assms(2)]] errRun_bind [OF keys_add [OF q]])
      (use assms(4,5) in \<open>auto simp: addsAccountLaw_def addServiceAccountReq_def keeps_def
        intro!: errRun_fail split: if_splits\<close>)
qed

text \<open>
  The object records the spec it has, and the generated secret holds the keys \<open>d\<close> under the recorded
  resource version.
\<close>

definition recorded :: "'w keyCluster \<Rightarrow> ObjectMeta \<Rightarrow> MinioAccessKeySpec \<Rightarrow> minioAccessKeyCredentials \<Rightarrow> 'w \<Rightarrow> bool" where
  "recorded c m spec d w \<longleftrightarrow> (\<exists>y s. cl_store c w = Some y \<and> metaStored m (ak_ObjectMeta y) \<and>
     ak_Spec y = spec \<and> accessKeyCurrent y = Some spec \<and>
     secrets c w (generatedSecret y spec) = Some s \<and> getCredentialsFromSecret s = d \<and>
     akst_CurrentSecretResourceVersion (ak_Status y) = om_ResourceVersion (sec_Meta s))"

lemma record_quiet:
  assumes q: "quietKeys G c" and "cl_store c w = Some x" and "heldOnly (ak_ObjectMeta z)"
    and "accessKeyCurrent z = Some (ak_Spec z)" and "secrets c w (generatedSecret z (ak_Spec z)) = Some s"
    and "getCredentialsFromSecret s = d"
  shows "okRun (bindM (updateObj (cl_rec c) (setAccessKeySecretVersion z (om_ResourceVersion (sec_Meta s))))
      (\<lambda>_. success (cl_rec c))) w
    (\<lambda>_ w'. recorded c (ak_ObjectMeta z) (ak_Spec z) d w' \<and> cl_tenant c w' = cl_tenant c w)"
proof (rule quiet_success [OF quietKeys_api [OF q] assms(2)], goal_cases)
  case 1
  show ?case using assms(3) by simp
next
  case (2 y w')
  then have y: "metaStored (ak_ObjectMeta z) (ak_ObjectMeta y)" "ak_Spec y = ak_Spec z"
      "accessKeyCurrent y = accessKeyCurrent z"
      "akst_CurrentSecretResourceVersion (ak_Status y) = om_ResourceVersion (sec_Meta s)"
    by (auto simp: accessKeySame_def accessKeyCurrent_def setAccessKeySecretVersion_def)
  then have "generatedSecret y (ak_Spec z) = generatedSecret z (ak_Spec z)"
    by (auto simp: generatedSecret_def accessKeyNamespace_def metaStored_def)
  with 2 y assms show ?case by (auto simp: recorded_def)
qed

definition madeSpec :: "MinioAccessKeySpec \<Rightarrow> minioAccessKeyCredentials \<Rightarrow> MinioAccessKeySpec" where
  "madeSpec spec d = spec\<lparr>aks_AccessKey := AccessKey d, aks_Migrate := False\<rparr>"

lemma generatedSecret_simps [simp]:
  "generatedSecret (ak\<lparr>ak_Spec := sp\<rparr>) spec = generatedSecret ak spec"
  "generatedSecret (setAccessKeyCurrent ak cs) spec = generatedSecret ak spec"
  "generatedSecret ak (madeSpec spec d) = generatedSecret ak spec"
  by (simp_all add: generatedSecret_def accessKeyNamespace_def madeSpec_def)



section \<open>Updates\<close>

text \<open>
  What an update needs of the generated secret: it exists and the digest tells its keys from the desired
  ones; or it is lost; or the spec has a new name for it, which is free. The desired keys are determined
  in each case.
\<close>

definition keysReady :: "'w keyCluster \<Rightarrow> 'w \<Rightarrow> MinioAccessKey \<Rightarrow> MinioAccessKeySpec \<Rightarrow> string \<Rightarrow> string \<Rightarrow> bool" where
  "keysReady c w ak cs ck sk \<longleftrightarrow>
     (case secrets c w (generatedSecret ak cs) of
        Some s \<Rightarrow>
          if aks_SecretName cs = aks_SecretName (ak_Spec ak) then
            determined (secrets c w) ak (Some (getCredentialsFromSecret s)) ck sk \<and> ck \<noteq> '''' \<and> sk \<noteq> '''' \<and>
            (minioAccessKeyCredentials_getHash (cl_lib c) (getCredentialsFromSecret s) =
               minioAccessKeyCredentials_getHash (cl_lib c) \<lparr>AccessKey = ck, SecretKey = sk\<rparr> \<longrightarrow>
             getCredentialsFromSecret s = \<lparr>AccessKey = ck, SecretKey = sk\<rparr>)
          else secrets c w (generatedSecret ak (ak_Spec ak)) = None \<and>
            determined ((secrets c w)(generatedSecret ak cs := None)) ak None ck sk
      | None \<Rightarrow> aks_SecretName cs = aks_SecretName (ak_Spec ak) \<and> determined (secrets c w) ak None ck sk)"

text \<open>
  The generated secret is up to date: it holds the keys \<open>d\<close>, either unchanged or stored just now under a
  resource version that is not recorded; the object (now \<open>y\<close>) has the same spec and still records one.
\<close>

definition keysUpdated ::
  "'w keyCluster \<Rightarrow> 'w \<Rightarrow> MinioAccessKey \<Rightarrow> MinioAccessKeySpec \<Rightarrow> minioAccessKeyCredentials \<Rightarrow> Secret \<Rightarrow>
   MinioAccessKey \<Rightarrow> 'w \<Rightarrow> bool" where
  "keysUpdated c w ak cs d s y w' \<longleftrightarrow>
     getCredentialsFromSecret s = d \<and>
     secrets c w' = ((secrets c w)(generatedSecret ak cs := None))(generatedSecret ak (ak_Spec ak) \<mapsto> s) \<and>
     accounts c w' = accounts c w \<and> cl_store c w' = Some y \<and>
     metaStored (ak_ObjectMeta ak) (ak_ObjectMeta y) \<and> ak_Spec y = ak_Spec ak \<and>
     accessKeyCurrent y = Some (cs\<lparr>aks_SecretName := aks_SecretName (ak_Spec ak)\<rparr>) \<and>
     akst_CurrentSecretResourceVersion (ak_Status y) = akst_CurrentSecretResourceVersion (ak_Status ak) \<and>
     (om_ResourceVersion (sec_Meta s) \<noteq> akst_CurrentSecretResourceVersion (ak_Status ak) \<or>
      secrets c w (generatedSecret ak (ak_Spec ak)) = Some s) \<and>
     (\<forall>s0. secrets c w (generatedSecret ak cs) = Some s0 \<longrightarrow>
        aks_SecretName cs = aks_SecretName (ak_Spec ak) \<longrightarrow> getCredentialsFromSecret s0 = d \<longrightarrow> s = s0)"

lemma recordedVersion_stored:
  "cl_store c w = Some ak \<Longrightarrow> recordedVersion c w = Some (akst_CurrentSecretResourceVersion (ak_Status ak))"
  by (simp add: recordedVersion_def)

lemma generatedSecret_same:
  "generatedSecret ak cs = generatedSecret ak cs' \<longleftrightarrow> aks_SecretName cs = aks_SecretName cs'"
  by (simp add: generatedSecret_def)

lemma refreshSecret_quiet:
  assumes q: "quietKeys G c" and st: "cl_store c w = Some ak" and cs: "accessKeyCurrent ak = Some cs"
    and s: "secrets c w (generatedSecret ak cs) = Some s" "reqNamespacedName s = generatedSecret ak cs"
    and g: "generatedSecret ak cs \<in> G" and n: "aks_SecretName cs = aks_SecretName (ak_Spec ak)"
    and kr: "keysReady c w ak cs ck sk"
  shows "okRun (let current = getCredentialsFromSecret s in
      bindM (getDesiredCredentials (cl_rec c) ak (Some current)) (\<lambda>desired.
      if minioAccessKeyCredentials_getHash (cl_lib c) current
         \<noteq> minioAccessKeyCredentials_getHash (cl_lib c) desired then
        bindM (updateSecret (r_env (cl_rec c)) (s\<lparr>sec_StringData :=
          [AccessKeyFieldAccessKey \<mapsto> AccessKey desired,
           AccessKeyFieldSecretKey \<mapsto> SecretKey desired]\<rparr>)) (\<lambda>secret. ret (secret, ak))
      else ret (s, ak))) w
    (\<lambda>(s', y) w'. keysUpdated c w ak cs \<lparr>AccessKey = ck, SecretKey = sk\<rparr> s' y w')"
proof -
  let ?d = "\<lparr>AccessKey = ck, SecretKey = sk\<rparr>"
  from kr s n have d: "determined (secrets c w) ak (Some (getCredentialsFromSecret s)) ck sk"
      "ck \<noteq> ''''" "sk \<noteq> ''''" and h: "minioAccessKeyCredentials_getHash (cl_lib c) (getCredentialsFromSecret s) =
        minioAccessKeyCredentials_getHash (cl_lib c) ?d \<longrightarrow> getCredentialsFromSecret s = ?d"
    by (simp_all add: keysReady_def)
  from n have same: "generatedSecret ak (ak_Spec ak) = generatedSecret ak cs"
      "cs\<lparr>aks_SecretName := aks_SecretName (ak_Spec ak)\<rparr> = cs" by (simp_all add: generatedSecret_def)
  show ?thesis
    unfolding Let_def
  proof (rule okRun_bind [OF getDesiredCredentials_quiet [OF q d(1)]], goal_cases)
    case (1 desired w1)
    with d(2,3) have des: "desired = ?d" and w1: "cl_store c w1 = Some ak" "accounts c w1 = accounts c w"
        "secrets c w1 = secrets c w" using st by (auto simp: fitting_def keeps_def)
    let ?s = "s\<lparr>sec_StringData := [AccessKeyFieldAccessKey \<mapsto> ck, AccessKeyFieldSecretKey \<mapsto> sk]\<rparr>"
    have name: "reqNamespacedName ?s = generatedSecret ak cs" using s(2) by (simp add: reqNamespacedName_def)
    show ?case
    proof (cases "minioAccessKeyCredentials_getHash (cl_lib c) (getCredentialsFromSecret s) =
        minioAccessKeyCredentials_getHash (cl_lib c) ?d")
      case True
      with h s(1) w1 cs show ?thesis
        by (simp add: des okRun_ret keysUpdated_def same fun_upd_idem)
    next
      case False
      have upd: "okRun (updateSecret (r_env (cl_rec c)) ?s) w1 (\<lambda>x. storesSecret c w1 ?s (Inr x))"
        by (rule keys_update_secret [OF q]) (use g s(1) w1 name in simp_all)
      show ?thesis
        unfolding des if_P [OF False] minioAccessKeyCredentials.select_convs
        by (rule okRun_bind [OF upd])
          (use name w1 cs s(1) False in \<open>auto simp: storesSecret_def secretStored_def keysUpdated_def same movesTo_def
            recordedVersion_stored intro!: okRun_ret getCredentialsFromSecret_data\<close>)
    qed
  qed
qed

lemma keysUpdated_made:
  assumes "secretMade c w1 (generatedSecret ak (ak_Spec ak)) d s w'" and "cl_store c w1 = Some y"
    and "accounts c w1 = accounts c w" and "secrets c w1 = (secrets c w)(generatedSecret ak cs := None)"
    and "metaStored (ak_ObjectMeta ak) (ak_ObjectMeta y)" and "ak_Spec y = ak_Spec ak"
    and "accessKeyCurrent y = Some (cs\<lparr>aks_SecretName := aks_SecretName (ak_Spec ak)\<rparr>)"
    and "akst_CurrentSecretResourceVersion (ak_Status y) = akst_CurrentSecretResourceVersion (ak_Status ak)"
    and "secrets c w (generatedSecret ak cs) = None \<or> aks_SecretName cs \<noteq> aks_SecretName (ak_Spec ak)"
  shows "keysUpdated c w ak cs d s y w'"
  using assms by (auto simp: secretMade_def keysUpdated_def movesTo_def recordedVersion_stored)

lemma keysUpdated_keeps: "keeps c w w1 \<Longrightarrow> keysUpdated c w1 ak cs d s y w' = keysUpdated c w ak cs d s y w'"
  by (simp add: keysUpdated_def keeps_def)

lemma stored_names:
  assumes "metaStored (ak_ObjectMeta ak) (ak_ObjectMeta y)" and "ak_Spec y = ak_Spec ak"
  shows "accessKeyNamespace y = accessKeyNamespace ak" and "generatedSecret y spec = generatedSecret ak spec"
    and "determined S y cur ck sk = determined S ak cur ck sk"
  using assms by (auto simp: accessKeyNamespace_def generatedSecret_def determined_def metaStored_def)

lemma errNotFound_None [simp]: "\<not> errNotFound L None"
  by (simp add: errNotFound_def)

text \<open>A new secret for an object that has lost its generated one or has a new name for it.\<close>

lemma remake_quiet:
  assumes q: "quietKeys G c" and y: "accessKeySame (setAccessKeyCurrent ak
        (Some (cs\<lparr>aks_SecretName := aks_SecretName (ak_Spec ak)\<rparr>))) y" "cl_store c v = Some y"
    and v: "accounts c v = accounts c w" "secrets c v = (secrets c w)(generatedSecret ak cs := None)"
    and g: "generatedSecret ak (ak_Spec ak) \<in> G" "secrets c v (generatedSecret ak (ak_Spec ak)) = None"
    and d: "determined (secrets c v) ak None ck sk"
    and new: "secrets c w (generatedSecret ak cs) = None \<or> aks_SecretName cs \<noteq> aks_SecretName (ak_Spec ak)"
  shows "okRun (createCredentialsSecret (cl_rec c) y) v
    (\<lambda>s w'. \<exists>d. fitting c w ck sk d \<and> keysUpdated c w ak cs d s y w')"
proof -
  from y(1) have st: "metaStored (ak_ObjectMeta ak) (ak_ObjectMeta y)" "ak_Spec y = ak_Spec ak"
      "accessKeyCurrent y = Some (cs\<lparr>aks_SecretName := aks_SecretName (ak_Spec ak)\<rparr>)"
      "akst_CurrentSecretResourceVersion (ak_Status y) = akst_CurrentSecretResourceVersion (ak_Status ak)"
    by (auto simp: accessKeySame_def accessKeyCurrent_def setAccessKeyCurrent_def)
  have names: "generatedSecret y (ak_Spec y) = generatedSecret ak (ak_Spec ak)"
    using stored_names [OF st(1,2)] st(2) by simp
  have fit: "fitting c v ck sk d = fitting c w ck sk d" for d using v(1) by (simp add: fitting_def)
  have "okRun (createCredentialsSecret (cl_rec c) y) v
      (\<lambda>s w'. \<exists>d. fitting c v ck sk d \<and> secretMade c v (generatedSecret ak (ak_Spec ak)) d s w')"
    unfolding names [symmetric]
    by (rule createCredentialsSecret_makes [OF q]) (use g d stored_names [OF st(1,2)] names in simp_all)
  then show ?thesis
    by (rule okRun_weaken) (use fit keysUpdated_made [OF _ y(2) v st new] in auto)
qed

text \<open>The secret of the old name goes, and the record takes the new name.\<close>

lemma rename_quiet:
  assumes q: "quietKeys G c" and st: "cl_store c w = Some ak" and m: "heldOnly (ak_ObjectMeta ak)"
    and s: "secrets c w (reqNamespacedName s) \<noteq> None" "reqNamespacedName s \<in> G"
  shows "okRun (bindM (attempt (deleteSecret (r_env (cl_rec c)) s)) (\<lambda>d.
      bindM (checkErr (if errNotFound (cl_lib c) (errOf d) then None else errOf d)) (\<lambda>_.
      bindM (updateObj (cl_rec c) (setAccessKeyCurrent ak (Some cs))) (\<lambda>ak. ret (False, ak))))) w
    (\<lambda>(e, y) w'. \<not> e \<and> accessKeySame (setAccessKeyCurrent ak (Some cs)) y \<and> cl_store c w' = Some y \<and>
      accounts c w' = accounts c w \<and> secrets c w' = (secrets c w)(reqNamespacedName s := None))"
proof -
  have del: "okRun (attempt (deleteSecret (r_env (cl_rec c)) s)) w (\<lambda>d w1. errOf d = None \<and>
      movesTo c w (accounts c w) ((secrets c w)(reqNamespacedName s := None)) w1)"
    by (rule okRun_attempt_Ok) (use keys_delete_secret [OF q s(2,1)] in simp)
  show ?thesis
  proof (rule okRun_bind [OF del], goal_cases)
    case (1 d w1)
    then have d: "errOf d = None" and w1: "cl_store c w1 = Some ak" using st by (simp_all add: movesTo_def)
    show ?case
      unfolding d if_cancel checkErr_simps bindM_ret
      by (rule okRun_bind [OF quiet_update [OF quietKeys_api [OF q] w1]])
        (use m 1 in \<open>auto simp: movesTo_def intro!: okRun_ret\<close>)
  qed
qed

lemma accessKeySame_current_self:
  "accessKeyCurrent ak = Some cs \<Longrightarrow> accessKeySame (setAccessKeyCurrent ak (Some cs)) ak"
  by (simp add: accessKeySame_def accessKeyCurrent_def setAccessKeyCurrent_def)

lemma updateCredentialsSecret_quiet:
  assumes q: "quietKeys G c" and st: "cl_store c w = Some ak" and m: "heldOnly (ak_ObjectMeta ak)"
    and cs: "accessKeyCurrent ak = Some cs"
    and g: "generatedSecret ak cs \<in> G" "generatedSecret ak (ak_Spec ak) \<in> G"
    and kr: "keysReady c w ak cs ck sk"
  shows "okRun (updateCredentialsSecret (cl_rec c) ak) w
    (\<lambda>(s, y) w'. \<exists>d. fitting c w ck sk d \<and> keysUpdated c w ak cs d s y w')"
  unfolding updateCredentialsSecret_def Let_def cs deref_simps bindM_ret
proof (rule okRun_bind [OF keys_find [OF q]], goal_cases)
  case (1 x w1)
  let ?g0 = "generatedSecret ak cs" and ?cs = "cs\<lparr>aks_SecretName := aks_SecretName (ak_Spec ak)\<rparr>"
  from 1 have w1: "keeps c w w1" "cl_store c w1 = Some ak" "accounts c w1 = accounts c w"
      "secrets c w1 = secrets c w" using st by (simp_all add: keeps_def)
  consider (lost) "secrets c w ?g0 = None" "errNotFound (cl_lib c) (errOf x)"
    | (present) s where "secrets c w ?g0 = Some s" "x = Inr s" "aks_SecretName cs = aks_SecretName (ak_Spec ak)"
    | (renamed) s where "secrets c w ?g0 = Some s" "x = Inr s" "aks_SecretName (ak_Spec ak) \<noteq> aks_SecretName cs"
  proof (cases "secrets c w ?g0")
    case None
    then show thesis using 1 by (intro lost) simp_all
  next
    case (Some s)
    with 1 have x: "x = Inr s" by simp
    show thesis
    proof (cases "aks_SecretName (ak_Spec ak) = aks_SecretName cs")
      case True
      show thesis by (rule present [OF Some x True [symmetric]])
    next
      case False
      show thesis by (rule renamed [OF Some x False])
    qed
  qed
  then show ?case
  proof cases
    case lost
    with kr have n: "aks_SecretName cs = aks_SecretName (ak_Spec ak)" "determined (secrets c w1) ak None ck sk"
      by (simp_all add: keysReady_def w1)
    then have same: "generatedSecret ak (ak_Spec ak) = ?g0" "?cs = cs" by (simp_all add: generatedSecret_def)
    have gone: "secrets c w1 = (secrets c w)(?g0 := None)" using lost by (auto simp: w1(4))
    have made: "okRun (createCredentialsSecret (cl_rec c) ak) w1
        (\<lambda>s w'. \<exists>d. fitting c w ck sk d \<and> keysUpdated c w ak cs d s ak w')"
    proof (rule remake_quiet [OF q _ w1(2,3) gone g(2) _ n(2)])
      show "accessKeySame (setAccessKeyCurrent ak (Some ?cs)) ak"
        unfolding same(2) by (rule accessKeySame_current_self [OF cs])
    qed (simp_all add: same(1) lost(1) w1(4))
    show ?thesis
      by (simp add: lost(2) n(1), rule okRun_bind [OF made], rule okRun_ret) auto
  next
    case (present s)
    with kr have d: "ck \<noteq> ''''" "sk \<noteq> ''''" by (simp_all add: keysReady_def)
    have kr1: "keysReady c w1 ak cs ck sk" using kr unfolding keysReady_def w1(4) .
    have "secrets c w1 ?g0 = Some s" "reqNamespacedName s = ?g0"
      using q present w1 by (simp_all add: quietKeys_def quietSecrets_def)
    note refresh = refreshSecret_quiet [OF q w1(2) cs this g(1) present(3) kr1]
    have "fitting c w ck sk \<lparr>AccessKey = ck, SecretKey = sk\<rparr>" using d by (simp add: fitting_def)
    with keysUpdated_keeps [OF w1(1)] show ?thesis
      unfolding present(2) sum.case
      by (simp add: present(3), intro okRun_weaken [OF refresh [unfolded Let_def]]) auto
  next
    case (renamed s)
    with kr have free: "secrets c w (generatedSecret ak (ak_Spec ak)) = None"
        "determined ((secrets c w)(?g0 := None)) ak None ck sk" by (simp_all add: keysReady_def)
    have name: "reqNamespacedName s = ?g0" using q renamed by (simp add: quietKeys_def quietSecrets_def)
    have s: "secrets c w1 (reqNamespacedName s) \<noteq> None" "reqNamespacedName s \<in> G"
      using name g renamed w1 by simp_all
    show ?thesis
      unfolding renamed(2) sum.case errOf_simps if_cancel checkErr_simps bindM_ret if_P [OF renamed(3)]
    proof (rule okRun_bind [OF rename_quiet [OF q w1(2) m s]], goal_cases)
      case (1 p w2)
      obtain e y where p: "p = (e, y)" by (cases p)
      with 1 have y: "\<not> e" "accessKeySame (setAccessKeyCurrent ak (Some ?cs)) y" "cl_store c w2 = Some y"
          "accounts c w2 = accounts c w" "secrets c w2 = (secrets c w)(?g0 := None)"
        by (simp_all add: name w1)
      have made: "okRun (createCredentialsSecret (cl_rec c) y) w2
          (\<lambda>s w'. \<exists>d. fitting c w ck sk d \<and> keysUpdated c w ak cs d s y w')"
        by (rule remake_quiet [OF q y(2-5) g(2)]) (use free y(5) renamed(3) in simp_all)
      show ?case
        by (simp add: p y(1), rule okRun_bind [OF made], rule okRun_ret) auto
    qed
  qed
qed

lemma removeMigrate_quiet:
  assumes q: "quietKeys G c" and "cl_store c w = Some y" and "heldOnly (ak_ObjectMeta y)"
  shows "okRun (minioAccessKey_removeMigrate (cl_rec c) y) w (\<lambda>z w'. cl_store c w' = Some z \<and>
    cl_tenant c w' = cl_tenant c w \<and> metaStored (ak_ObjectMeta y) (ak_ObjectMeta z) \<and>
    ak_Spec z = (ak_Spec y)\<lparr>aks_Migrate := False\<rparr> \<and> ak_Status z = ak_Status y)"
proof (cases "aks_Migrate (ak_Spec y)")
  case True
  then show ?thesis
    unfolding minioAccessKey_removeMigrate_def
    by (simp, intro okRun_weaken [OF quiet_update [OF quietKeys_api [OF q] assms(2)]])
      (use assms in \<open>auto simp: accessKeySame_def\<close>)
next
  case False
  then have "(ak_Spec y)\<lparr>aks_Migrate := False\<rparr> = ak_Spec y" by (cases "ak_Spec y") simp
  with False show ?thesis
    unfolding minioAccessKey_removeMigrate_def using assms(2) by (simp add: okRun_ret)
qed

text \<open>
  After the synchronisation the account \<open>a\<close> (now \<open>a'\<close>) carries the present spec and has the secret key of
  the generated secret, unless nothing was sent: then it is unchanged, the recorded spec is the present
  one and the secret the recorded one.
\<close>

lemma accessKeySync_syncs:
  assumes q: "quietKeys G c" and d: "getCredentialsFromSecret secret = d" "SecretKey d \<noteq> ''''"
    and known: "accounts c w (AccessKey d) = Some a" and msa: "showsAccount (cl_lib c) a msa"
  shows "okRun (accessKeySync (cl_rec c) mtac z cs secret msa) w (\<lambda>_ w'. \<exists>a'.
    movesTo c w ((accounts c w)(AccessKey d \<mapsto> a')) (secrets c w) w' \<and>
    carries (cl_lib c) (ak_Spec z) a' \<and> acc_user a' = acc_user a \<and>
    (acc_secret a' = SecretKey d \<or> a' = a \<and> \<not> specDiffers (cl_lib c) z cs secret))"
proof -
  let ?L = "cl_lib c" and ?to = "\<lambda>a'. movesTo c w ((accounts c w)(AccessKey d \<mapsto> a')) (secrets c w)"
  have push: "okRun (mutate (r_env (cl_rec c)) mtac (UpdateServiceAccount (AccessKey d)
      (updateServiceAccountReq spec d p))) v (\<lambda>_ v'. \<exists>a'. ?to a' v' \<and>
        carries ?L spec a' \<and> acc_user a' = acc_user a1 \<and> acc_secret a' = SecretKey d)"
    if v: "?to a1 v" and p: "marshalAccessKeyPolicy ?L (aks_Policy spec) = Inr p \<or>
      marshalPolicy (akp_Statement (aks_Policy spec)) (akp_Version (aks_Policy spec)) = Inr p" for v a1 spec p
  proof -
    have "accounts c v (AccessKey d) = Some a1" using v by (simp add: movesTo_def)
    from keys_change [OF q this] show ?thesis
      by (rule okRun_weaken)
        (use v changedAccount_carries [OF _ d(2) p] in \<open>auto simp: movesTo_def\<close>)
  qed
  obtain p1 where p1: "marshalPolicy (akp_Statement (aks_Policy cs)) (akp_Version (aks_Policy cs)) = Inr p1"
    by (simp add: marshalPolicy_def)
  obtain p2 where p2: "marshalAccessKeyPolicy ?L (aks_Policy (ak_Spec z)) = Inr p2"
    using marshalAccessKeyPolicy_ok by blast
  have "okRun (if \<not> isa_ImpliedPolicy msa \<and> isa_Policy msa \<noteq> NoDoc
      then liftE (unmarshalAccessKeyPolicy (isa_Policy msa)) else ret emptyAccessKeyPolicy) w (\<lambda>mp w'. w' = w \<and>
      (if isa_ImpliedPolicy msa \<or> isa_Policy msa = NoDoc then mp = emptyAccessKeyPolicy
       else unmarshalAccessKeyPolicy (isa_Policy msa) = Inr mp))"
    using msa by (auto simp: showsAccount_def intro!: okRun_ret)
  then show ?thesis
    unfolding accessKeySync_def Let_def d(1) p1 p2 liftE_simps bindM_ret
  proof (rule okRun_bind, goal_cases)
    case (1 mp w1)
    then have w1: "w1 = w" and mp: "if isa_ImpliedPolicy msa \<or> isa_Policy msa = NoDoc then mp = emptyAccessKeyPolicy
        else unmarshalAccessKeyPolicy (isa_Policy msa) = Inr mp" by auto
    have self: "?to a w" using known by (simp add: movesTo_def fun_upd_idem)
    have "okRun (if remoteDiffers ?L msa mp cs
        then mutate (r_env (cl_rec c)) mtac (UpdateServiceAccount (AccessKey d) (updateServiceAccountReq cs d p1))
        else ret ()) w (\<lambda>_ v. \<exists>a1. ?to a1 v \<and> carries ?L cs a1 \<and> acc_user a1 = acc_user a \<and>
          (acc_secret a1 = SecretKey d \<or> a1 = a))"
    proof (cases "remoteDiffers ?L msa mp cs")
      case True
      show ?thesis
        unfolding if_P [OF True] by (rule okRun_weaken [OF push [OF self disjI2 [OF p1]]]) blast
    next
      case False
      show ?thesis
        unfolding if_not_P [OF False]
        by (rule okRun_ret) (use self carries_unless_remoteDiffers [OF msa False mp] in blast)
    qed
    then show ?case
      unfolding w1
    proof (rule okRun_bind, goal_cases)
      case (1 u v)
      then obtain a1 where a1: "?to a1 v" "carries ?L cs a1" "acc_user a1 = acc_user a"
          "acc_secret a1 = SecretKey d \<or> a1 = a" by blast
      show ?case
      proof (cases "specDiffers ?L z cs secret")
        case True
        show ?thesis
          unfolding if_P [OF True]
          by (rule okRun_weaken [OF push [OF a1(1) disjI1 [OF p2]]]) (use a1(3) in auto)
      next
        case False
        show ?thesis
          unfolding if_not_P [OF False]
          by (rule okRun_ret) (use a1 False carries_unless_specDiffers [OF False, of a1] in auto)
      qed
    qed
  qed
qed

text \<open>What a pass makes of the account with the keys \<open>d\<close>, between two worlds.\<close>

definition accountSynced ::
  "'w keyCluster \<Rightarrow> 'w \<Rightarrow> MinioAccessKeySpec \<Rightarrow> minioAccessKeyCredentials \<Rightarrow> bool \<Rightarrow> 'w \<Rightarrow> bool" where
  "accountSynced c w spec d same w' \<longleftrightarrow>
     (\<exists>a a'. accounts c w (AccessKey d) = Some a \<and> accounts c w' = (accounts c w)(AccessKey d \<mapsto> a') \<and>
        carries (cl_lib c) spec a' \<and> acc_user a' = acc_user a \<and> (acc_secret a' = SecretKey d \<or> a' = a \<and> same))"

lemma accountSynced_weaken:
  "accountSynced c w spec d same w' \<Longrightarrow> (same \<Longrightarrow> same') \<Longrightarrow> accountSynced c w spec d same' w'"
  by (auto simp: accountSynced_def)

lemma updateAccessKey_quiet:
  assumes q: "quietKeys G c" and st: "cl_store c w = Some y" and m: "heldOnly (ak_ObjectMeta y)"
    and cs: "accessKeyCurrent y = Some cs"
    and d: "getCredentialsFromSecret secret = d" "SecretKey d \<noteq> ''''"
    and known: "accounts c w (AccessKey d) \<noteq> None"
  shows "okRun (updateAccessKey (cl_rec c) y secret) w (\<lambda>z w'. cl_store c w' = Some z \<and>
    metaStored (ak_ObjectMeta y) (ak_ObjectMeta z) \<and> ak_Spec z = (ak_Spec y)\<lparr>aks_Migrate := False\<rparr> \<and>
    ak_Status z = ak_Status y \<and> secrets c w' = secrets c w \<and>
    accountSynced c w (ak_Spec y) d (\<not> specDiffers (cl_lib c) z cs secret) w')"
  unfolding updateAccessKey_def
proof (rule okRun_bind [OF removeMigrate_quiet [OF q st m]], goal_cases)
  case (1 z w1)
  then have z: "heldOnly (ak_ObjectMeta z)" "accessKeyCurrent z = Some cs"
    and spec: "ak_Spec z = (ak_Spec y)\<lparr>aks_Migrate := False\<rparr>"
    using m cs by (auto simp: heldOnly_stored accessKeyCurrent_def)
  from known obtain a where a: "accounts c w (AccessKey d) = Some a" by blast
  show ?case
    unfolding z(2) deref_simps bindM_ret Let_def d(1)
  proof (rule okRun_bind [OF keys_open [OF q z(1)]], rule okRun_bind [OF keys_info [OF q]], goal_cases)
    case (1 h w2 x w3)
    then have w3: "keeps c w1 w3" by (blast intro: keeps_trans)
    from 1 a \<open>cl_store c w1 = Some z \<and> _\<close> obtain msa where x: "x = Inr msa"
      and p: "showsAccount (cl_lib c) a msa"
      by (auto simp: keeps_def)
    have "accounts c w3 (AccessKey d) = Some a" using a w3 \<open>cl_store c w1 = Some z \<and> _\<close> by (simp add: keeps_def)
    note sync = accessKeySync_syncs [OF q d this p, where z = z and cs = cs]
    show ?case
      unfolding x
      by (simp, rule okRun_bind [OF sync])
        (use w3 a spec \<open>cl_store c w1 = Some z \<and> _\<close> in
          \<open>auto simp: keeps_def movesTo_def accountSynced_def intro!: okRun_ret\<close>)
  qed
qed

lemma metaStored_names:
  "metaStored (ak_ObjectMeta ak) (ak_ObjectMeta y) \<Longrightarrow> generatedSecret y spec = generatedSecret ak spec"
  "metaStored (ak_ObjectMeta ak) (ak_ObjectMeta y) \<Longrightarrow> accessKeyNamespace y = accessKeyNamespace ak"
  by (auto simp: generatedSecret_def accessKeyNamespace_def metaStored_def)

lemma generatedSecret_migrate [simp]:
  "generatedSecret ak (spec\<lparr>aks_Migrate := b\<rparr>) = generatedSecret ak spec"
  by (simp add: generatedSecret_def)

text \<open>An update leaves the secret \<open>s\<close> with the keys \<open>d\<close>, the tenant and the record in agreement.\<close>

definition keysApplied ::
  "'w keyCluster \<Rightarrow> 'w \<Rightarrow> MinioAccessKey \<Rightarrow> MinioAccessKeySpec \<Rightarrow> minioAccessKeyCredentials \<Rightarrow> Secret \<Rightarrow> 'w \<Rightarrow> bool" where
  "keysApplied c w ak cs d s w' \<longleftrightarrow>
     getCredentialsFromSecret s = d \<and>
     secrets c w' = ((secrets c w)(generatedSecret ak cs := None))(generatedSecret ak (ak_Spec ak) \<mapsto> s) \<and>
     accountSynced c w (ak_Spec ak) d (secrets c w (generatedSecret ak (ak_Spec ak)) = Some s) w' \<and>
     recorded c (ak_ObjectMeta ak) ((ak_Spec ak)\<lparr>aks_Migrate := False\<rparr>) d w' \<and>
     (\<forall>s0. secrets c w (generatedSecret ak cs) = Some s0 \<longrightarrow>
        aks_SecretName cs = aks_SecretName (ak_Spec ak) \<longrightarrow> getCredentialsFromSecret s0 = d \<longrightarrow> s = s0)"

lemma minioAccessKey_update_quiet:
  assumes q: "quietKeys G c" and st: "cl_store c w = Some ak" and m: "heldOnly (ak_ObjectMeta ak)"
    and cs: "accessKeyCurrent ak = Some cs"
    and g: "generatedSecret ak cs \<in> G" "generatedSecret ak (ak_Spec ak) \<in> G"
    and kr: "keysReady c w ak cs ck sk"
    and known: "ck \<noteq> ''''" "accounts c w ck \<noteq> None"
  shows "okRun (minioAccessKey_update (cl_rec c) ak) w (\<lambda>_ w'. \<exists>d s. fitting c w ck sk d \<and>
    keysApplied c w ak cs d s w')"
  unfolding minioAccessKey_update_def
proof (rule okRun_bind [OF updateCredentialsSecret_quiet [OF q st m cs g kr]], goal_cases)
  case (1 p w1)
  obtain s y where p: "p = (s, y)" by (cases p)
  with 1 obtain d where d: "fitting c w ck sk d" and u: "keysUpdated c w ak cs d s y w1" by auto
  from u have y: "cl_store c w1 = Some y" "metaStored (ak_ObjectMeta ak) (ak_ObjectMeta y)"
      "ak_Spec y = ak_Spec ak" "accounts c w1 = accounts c w" "getCredentialsFromSecret s = d"
      "accessKeyCurrent y = Some (cs\<lparr>aks_SecretName := aks_SecretName (ak_Spec ak)\<rparr>)"
    by (simp_all add: keysUpdated_def)
  then have m': "heldOnly (ak_ObjectMeta y)" using m by (simp add: heldOnly_stored)
  have d': "SecretKey d \<noteq> ''''" "accounts c w1 (AccessKey d) \<noteq> None"
    using d known y(4) by (auto simp: fitting_def)
  show ?case
    unfolding p split
  proof (rule okRun_bind [OF updateAccessKey_quiet [OF q y(1) m' y(6,5) d']], goal_cases)
    case (1 z w2)
    then have z: "cl_store c w2 = Some z" "metaStored (ak_ObjectMeta ak) (ak_ObjectMeta z)"
        "ak_Spec z = (ak_Spec ak)\<lparr>aks_Migrate := False\<rparr>" "secrets c w2 = secrets c w1"
        "ak_Status z = ak_Status y" using y(2,3) by (auto intro: metaStored_trans)
    let ?z = "setAccessKeyCurrent z (Some (ak_Spec z))"
    have "accountSynced c w1 (ak_Spec y) d (secrets c w (generatedSecret ak (ak_Spec ak)) = Some s) w2"
      by (rule accountSynced_weaken [OF conjunct2 [OF conjunct2 [OF conjunct2 [OF conjunct2 [OF conjunct2 [OF 1]]]]]])
        (use u z(5) in \<open>auto simp: specDiffers_def keysUpdated_def\<close>)
    then have push: "accountSynced c w (ak_Spec ak) d (secrets c w (generatedSecret ak (ak_Spec ak)) = Some s) w2"
      by (simp add: accountSynced_def y(3,4))
    have sec: "secrets c w2 (generatedSecret ?z (ak_Spec ?z)) = Some s"
      using u z(3,4) metaStored_names(1) [OF z(2)] by (simp add: keysUpdated_def)
    have held: "heldOnly (ak_ObjectMeta ?z)" using m z(2) by (simp add: heldOnly_stored)
    have "okRun (bindM (updateObj (cl_rec c) (setAccessKeySecretVersion ?z (om_ResourceVersion (sec_Meta s))))
        (\<lambda>_. success (cl_rec c))) w2
      (\<lambda>_ w'. recorded c (ak_ObjectMeta ?z) (ak_Spec ?z) d w' \<and> cl_tenant c w' = cl_tenant c w2)"
      by (rule record_quiet [OF q z(1) held _ sec y(5)]) simp
    then show ?case
    proof (rule okRun_weaken)
      fix x w' assume r: "recorded c (ak_ObjectMeta ?z) (ak_Spec ?z) d w' \<and> cl_tenant c w' = cl_tenant c w2"
      then have "recorded c (ak_ObjectMeta ak) ((ak_Spec ak)\<lparr>aks_Migrate := False\<rparr>) d w'"
        using z(2,3) by (auto simp: recorded_def intro: metaStored_trans)
      then have "keysApplied c w ak cs d s w'"
        using r u push z(4) y(5) by (simp add: keysApplied_def keysUpdated_def accountSynced_def)
      with d show "\<exists>d s. fitting c w ck sk d \<and> keysApplied c w ak cs d s w'" by blast
    qed
  qed
qed

section \<open>Deletion\<close>

text \<open>The accounts after a deletion: the key in the generated secret is taken away, if there is a secret.\<close>

definition remainingAccounts :: "'w keyCluster \<Rightarrow> 'w \<Rightarrow> MinioAccessKey \<Rightarrow> (string \<rightharpoonup> account)" where
  "remainingAccounts c w ak =
     (case accessKeyCurrent ak of None \<Rightarrow> accounts c w
      | Some cs \<Rightarrow> (case secrets c w (generatedSecret ak cs) of None \<Rightarrow> accounts c w
          | Some s \<Rightarrow> (accounts c w)(AccessKey (getCredentialsFromSecret s) := None)))"

lemma deleteAccessKey_quiet:
  assumes q: "quietKeys G c" and m: "heldOnly (ak_ObjectMeta ak)"
  shows "okRun (deleteAccessKey (cl_rec c) ak) w
    (\<lambda>_. movesTo c w (remainingAccounts c w ak) (secrets c w))"
proof (cases "accessKeyCurrent ak")
  case None
  then show ?thesis
    by (simp add: deleteAccessKey_def remainingAccounts_def okRun_ret movesTo_def Let_def)
next
  case (Some cs)
  show ?thesis
    unfolding deleteAccessKey_def Let_def Some option.case
  proof (rule okRun_bind [OF keys_find [OF q]], goal_cases)
    case (1 x w1)
    then have w1: "keeps c w w1" by simp
    show ?case
    proof (cases "secrets c w (generatedSecret ak cs)")
      case None
      with 1 Some show ?thesis
        by (auto simp: remainingAccounts_def keeps_movesTo intro!: okRun_ret)
    next
      case (Some s)
      with 1 have x: "x = Inr s" by simp
      have left: "remainingAccounts c w ak = (accounts c w)(AccessKey (getCredentialsFromSecret s) := None)"
        using Some \<open>accessKeyCurrent ak = Some cs\<close> by (simp add: remainingAccounts_def)
      show ?thesis
        unfolding x errOf_simps valOf_simps checkErr_simps deref_simps bindM_ret left
        by (simp, intro okRun_bind [OF keys_open [OF q m]] okRun_bind [OF keys_remove [OF q]])
          (use w1 in \<open>auto simp: madminOk_def keeps_def movesTo_def intro!: okRun_ret\<close>)
    qed
  qed
qed

lemma minioAccessKey_delete_quiet:
  assumes q: "quietKeys G c" and st: "cl_store c w = Some ak" and m: "heldOnly (ak_ObjectMeta ak)"
    and t: "\<not> timeIsZero (om_DeletionTimestamp (ak_ObjectMeta ak))"
  shows "okRun (minioAccessKey_delete (cl_rec c) ak) w (\<lambda>_ w'. cl_store c w' = None \<and>
    accounts c w' = remainingAccounts c w ak \<and> secrets c w' = secrets c w)"
  unfolding minioAccessKey_delete_def
proof (rule okRun_bind [OF deleteAccessKey_quiet [OF q m]], goal_cases)
  case (1 u w1)
  then have w1: "cl_store c w1 = Some ak" using st by (simp add: movesTo_def)
  show ?case
  proof (rule okRun_bind [OF quiet_update [OF quietKeys_api [OF q] w1]], goal_cases)
    case 1
    show ?case using m by simp
  next
    case (2 y w2)
    then have y: "cl_store c w2 = Some y" "metaStored (ak_ObjectMeta ak) (ak_ObjectMeta y)"
      by (simp_all add: accessKeySame_def)
    have "removeFinalizer (cl_lib c) (ak_ObjectMeta y) finalizer = (ak_ObjectMeta y)\<lparr>om_Finalizers := []\<rparr>"
      using quietKeys_api [OF q] m y(2) by (auto simp: quietApi_def finalizerLists_def heldOnly_def metaStored_def)
    then have "unheld (ak_ObjectMeta (y\<lparr>ak_ObjectMeta :=
        removeFinalizer (cl_lib c) (ak_ObjectMeta y) finalizer\<rparr>))"
      using t y(2) by (simp add: unheld_def)
    from okRun_bind [OF quiet_release [OF quietKeys_api [OF q] y(1) this] okRun_success]
    show ?case
      by (rule okRun_weaken) (use 1 2 in \<open>auto simp: movesTo_def\<close>)
  qed
qed

section \<open>A taken access key\<close>

lemma minioAccessKey_create_taken:
  assumes q: "quietKeys G c" and st: "cl_store c w = Some ak" and m: "heldOnly (ak_ObjectMeta ak)"
    and g: "generatedSecret ak (ak_Spec ak) \<in> G" "secrets c w (generatedSecret ak (ak_Spec ak)) = None"
    and d: "determined (secrets c w) ak None ck sk" and taken: "ck \<noteq> ''''" "accounts c w ck \<noteq> None"
    and mig: "\<not> aks_Migrate (ak_Spec ak)"
  shows "errRun (minioAccessKey_create (cl_rec c) ak) w (\<lambda>_. keeps c w)"
  unfolding minioAccessKey_create_def
proof (rule errRun_bind [OF createCredentialsSecret_makes [OF q d g]], goal_cases)
  case (1 s w1)
  let ?g = "generatedSecret ak (ak_Spec ak)"
  from 1 obtain d where "fitting c w ck sk d" and s: "secretMade c w ?g d s w1" by blast
  with taken have "accounts c w1 (AccessKey d) \<noteq> None" "getCredentialsFromSecret s = d"
    by (auto simp: fitting_def secretMade_def movesTo_def)
  from createAccessKey_taken [OF q m this(2,1) mig]
  have add: "okRun (attempt (createAccessKey (cl_rec c) ak s)) w1 (\<lambda>x v. (\<exists>e. x = Inl e) \<and> keeps c w1 v)"
    by (intro okRun_attempt_Err) simp
  show ?case
  proof (rule errRun_bind [OF add], goal_cases)
    case (1 x w2)
    then obtain e where x: "x = Inl e" and w2: "accounts c w2 = accounts c w"
        "secrets c w2 = (secrets c w)(?g \<mapsto> s)" "cl_store c w2 = cl_store c w"
      using s by (auto simp: secretMade_def movesTo_def keeps_def)
    have name: "reqNamespacedName s = ?g" using s by (simp add: secretMade_def)
    have "(secrets c w2)(?g := None) = secrets c w" using w2(2) g(2) by auto
    then have del: "okRun (attempt (deleteSecret (r_env (cl_rec c)) s)) w2 (\<lambda>_. keeps c w)"
      using keys_delete_secret [OF q, of s w2] name g(1) w2
      by (intro okRun_attempt_Ok) (auto simp: keeps_movesTo movesTo_def elim!: okRun_weaken)
    show ?case
      unfolding x sum.case by (rule errRun_bind [OF del]) (rule errRun_fail)
  qed
qed

section \<open>Repeated passes\<close>

text \<open>
  A settled access key: the object records its spec, which carries the access key of the generated
  secret \<open>s\<close>, the tenant knows it, and the secret key reference (if there is one, and apart from the
  generated secret) leads to the secret key of \<open>s\<close>.
\<close>

definition settledKey ::
  "NamespacedName set \<Rightarrow> 'w keyCluster \<Rightarrow> ObjectMeta \<Rightarrow> MinioAccessKeySpec \<Rightarrow> minioAccessKeyCredentials \<Rightarrow>
   Secret \<Rightarrow> 'w \<Rightarrow> bool" where
  "settledKey G c m spec d s w \<longleftrightarrow> recorded c m spec d w \<and> heldOnly m \<and> timeIsZero (om_DeletionTimestamp m) \<and>
     \<not> aks_Migrate spec \<and> aks_AccessKey spec = AccessKey d \<and> AccessKey d \<noteq> '''' \<and> SecretKey d \<noteq> '''' \<and>
     accounts c w (AccessKey d) \<noteq> None \<and> getCredentialsFromSecret s = d \<and>
     (\<exists>g. g = \<lparr>nn_Namespace = om_Namespace m, nn_Name = aks_SecretName spec\<rparr> \<and> g \<in> G \<and>
        secrets c w g = Some s) \<and>
     (\<exists>h. givenKey (secrets c w) (om_Namespace m) '''' (aks_SecretKeyRef spec) = Some h \<and>
        (h = '''' \<or> h = SecretKey d))"

lemma settledKey_ready:
  assumes s: "settledKey G c m spec d s w" and y: "metaStored m (ak_ObjectMeta y)" "ak_Spec y = spec"
    and v: "secrets c v = secrets c w"
  shows "keysReady c v y spec (AccessKey d) (SecretKey d)"
proof -
  from s obtain h where h: "givenKey (secrets c w) (om_Namespace m) '''' (aks_SecretKeyRef spec) = Some h"
      "h = '''' \<or> h = SecretKey d" by (auto simp: settledKey_def)
  from s have d: "secrets c w \<lparr>nn_Namespace = om_Namespace m, nn_Name = aks_SecretName spec\<rparr> = Some s"
      "AccessKey d \<noteq> ''''" "SecretKey d \<noteq> ''''" "aks_AccessKey spec = AccessKey d"
      "getCredentialsFromSecret s = d"
    by (auto simp: settledKey_def)
  have ns: "accessKeyNamespace y = om_Namespace m" "generatedSecret y spec =
      \<lparr>nn_Namespace = om_Namespace m, nn_Name = aks_SecretName spec\<rparr>"
    using y(1) by (auto simp: accessKeyNamespace_def generatedSecret_def metaStored_def)
  have "determined (secrets c w) y (Some d) (AccessKey d) (SecretKey d)"
    using h d by (auto simp: determined_def y(2) ns givenKey_def chosenKey_def)
  then show ?thesis
    using d unfolding keysReady_def ns y(2) v by simp
qed

lemma settledKey_step:
  assumes q: "quietKeys G c" and s: "settledKey G c m spec d s w"
  shows "settledKey G c m spec d s (stepOf minioAccessKeyReconciler_Reconcile c w) \<and>
    secrets c (stepOf minioAccessKeyReconciler_Reconcile c w) = secrets c w \<and>
    accountSynced c w spec d True (stepOf minioAccessKeyReconciler_Reconcile c w)"
proof -
  let ?w' = "stepOf minioAccessKeyReconciler_Reconcile c w"
  let ?g = "\<lparr>nn_Namespace = om_Namespace m, nn_Name = aks_SecretName spec\<rparr>"
  from s obtain y where y: "cl_store c w = Some y" "metaStored m (ak_ObjectMeta y)" "ak_Spec y = spec"
      "accessKeyCurrent y = Some spec"
    by (auto simp: settledKey_def recorded_def)
  have ns: "accessKeyNamespace y = om_Namespace m" "generatedSecret y spec = ?g"
    using y(2) by (auto simp: accessKeyNamespace_def generatedSecret_def metaStored_def)
  from s have g: "?g \<in> G" "secrets c w ?g = Some s" and d: "AccessKey d \<noteq> ''''" "SecretKey d \<noteq> ''''"
      "aks_AccessKey spec = AccessKey d" "\<not> aks_Migrate spec" "getCredentialsFromSecret s = d"
      "accounts c w (AccessKey d) \<noteq> None" "heldOnly m" "timeIsZero (om_DeletionTimestamp m)"
    by (auto simp: settledKey_def)
  have held: "heldOnly (ak_ObjectMeta y)" "timeIsZero (om_DeletionTimestamp (ak_ObjectMeta y))"
    using y(2) d(7,8) by (auto simp: heldOnly_stored)
  have spec: "spec\<lparr>aks_Migrate := False\<rparr> = spec" using d(4) by (cases spec) simp
  have "\<exists>d' s'. fitting c w (AccessKey d) (SecretKey d) d' \<and> keysApplied c w y spec d' s' ?w'"
  proof (rule access_key_phases.step_update [OF q y(1) held(1) _ held(2)])
    show "accessKeyStatusSet y" by (simp add: accessKeyStatusSet_def y(4))
  next
    fix w1 assume w1: "keeps c w w1"
    then have same: "keysApplied c w1 y spec d' s' v = keysApplied c w y spec d' s' v"
        "fitting c w1 a b d' = fitting c w a b d'" for d' s' v a b
      by (simp_all add: keysApplied_def fitting_def keeps_def accountSynced_def)
    have "okRun (minioAccessKey_update (cl_rec c) y) w1 (\<lambda>_ w'. \<exists>d' s'.
        fitting c w1 (AccessKey d) (SecretKey d) d' \<and> keysApplied c w1 y spec d' s' w')"
      by (rule minioAccessKey_update_quiet [OF q _ held(1) y(4) _ _ settledKey_ready [OF assms(2) y(2,3)] d(1)])
        (use w1 y(1) g(1) ns d(6) in \<open>simp_all add: keeps_def y(3)\<close>)
    then show "okRun (minioAccessKey_update (cl_rec c) y) w1 (\<lambda>_ w'. \<exists>d' s'.
        fitting c w (AccessKey d) (SecretKey d) d' \<and> keysApplied c w y spec d' s' w')"
      by (simp only: same)
  qed
  then obtain d' s' where a: "fitting c w (AccessKey d) (SecretKey d) d'" "keysApplied c w y spec d' s' ?w'"
    by blast
  from a(1) d(1,2) have "d' = d" by (cases d; cases d') (simp add: fitting_def)
  with a(2) g(2) d(5) have a: "keysApplied c w y spec d s ?w'"
    by (auto simp: keysApplied_def ns y(3))
  then have sec: "secrets c ?w' = secrets c w"
    using g(2) by (auto simp: keysApplied_def ns y(3))
  have acc: "accountSynced c w spec d True ?w'"
    using a by (auto simp: keysApplied_def y(3) elim: accountSynced_weaken)
  then have known: "accounts c ?w' (AccessKey d) \<noteq> None" by (auto simp: accountSynced_def)
  have "recorded c m spec d ?w'"
    using a y(2) by (auto simp: keysApplied_def recorded_def spec y(3) intro: metaStored_trans)
  with s sec acc known show ?thesis by (auto simp: settledKey_def)
qed

lemma accountSynced_trans:
  assumes "accountSynced c w spec d b w1" and "accountSynced c w1 spec d b' w'"
  shows "accountSynced c w spec d (b \<and> b') w'"
  using assms by (auto simp: accountSynced_def)

lemma settledKey_passes:
  assumes "quietKeys G c" and "settledKey G c m spec d s w"
  shows "settledKey G c m spec d s (passes minioAccessKeyReconciler_Reconcile c k w) \<and>
    secrets c (passes minioAccessKeyReconciler_Reconcile c k w) = secrets c w \<and>
    (if k = 0 then accounts c (passes minioAccessKeyReconciler_Reconcile c k w) = accounts c w
     else accountSynced c w spec d True (passes minioAccessKeyReconciler_Reconcile c k w))"
proof (induction k)
  case 0
  show ?case using assms(2) by simp
next
  case (Suc k)
  let ?v = "passes minioAccessKeyReconciler_Reconcile c k w"
  from Suc have "settledKey G c m spec d s ?v" by blast
  note step = settledKey_step [OF assms(1) this]
  have "accountSynced c w spec d True (stepOf minioAccessKeyReconciler_Reconcile c ?v)"
  proof (cases "k = 0")
    case True
    then show ?thesis using step by simp
  next
    case False
    then have "accountSynced c w spec d True ?v" using Suc by simp
    from accountSynced_trans [OF this] step show ?thesis by auto
  qed
  with step Suc show ?case by simp
qed




lemma carries_madeSpec [simp]: "carries L (madeSpec spec d) a = carries L spec a"
  by (simp add: madeSpec_def)



section \<open>Properties\<close>


text \<open>The name of the generated secret of the samples.\<close>

definition sampleSecretName :: NamespacedName where
  "sampleSecretName = \<lparr>nn_Namespace = ''ns'', nn_Name = ''s''\<rparr>"

lemma sampleAccessKey_names [simp]:
  "generatedSecret (sampleAccessKey cs) sampleAccessKeySpec = sampleSecretName"
  "accessKeyNamespace (sampleAccessKey cs) = ''ns''" "sampleSecretName \<in> generatedNames"
  by (simp_all add: generatedSecret_def accessKeyNamespace_def sampleAccessKeySpec_def sampleSecretName_def
      generatedNames_def)


text \<open>The secret key reference of a spec may not lead to the generated secret itself.\<close>

definition refersToOwn :: "MinioAccessKey \<Rightarrow> bool" where
  "refersToOwn ak \<longleftrightarrow>
     (let skr = ResourceKeyRef_SetDefaultNamespace (aks_SecretKeyRef (ak_Spec ak)) (accessKeyNamespace ak) in
      aks_SecretKeyRef (ak_Spec ak) \<noteq> emptyKeyRef \<and>
      \<lparr>nn_Namespace = rkr_Namespace skr, nn_Name = rkr_Name skr\<rparr> = generatedSecret ak (ak_Spec ak))"

lemma givenKey_other:
  assumes "\<not> refersToOwn ak"
  shows "givenKey (S(generatedSecret ak (ak_Spec ak) \<mapsto> s)) (accessKeyNamespace ak) '''' (aks_SecretKeyRef (ak_Spec ak))
    = givenKey S (accessKeyNamespace ak) '''' (aks_SecretKeyRef (ak_Spec ak))"
  using assms by (auto simp: refersToOwn_def givenKey_def refEntry_def Let_def)

lemma ready_reference:
  assumes kr: "keysReady c w ak cs ck sk" and own: "\<not> refersToOwn ak" and d: "fitting c w ck sk d"
  shows "\<exists>h. givenKey (((secrets c w)(generatedSecret ak cs := None))(generatedSecret ak (ak_Spec ak) \<mapsto> s))
      (accessKeyNamespace ak) '''' (aks_SecretKeyRef (ak_Spec ak)) = Some h \<and> (h = '''' \<or> h = SecretKey d)"
proof (cases "secrets c w (generatedSecret ak cs)")
  case None
  then have "(secrets c w)(generatedSecret ak cs := None) = secrets c w" by auto
  with kr d None show ?thesis
    by (auto simp: keysReady_def determined_def givenKey_other [OF own] chosenKey_def fitting_def)
next
  case (Some s0)
  show ?thesis
  proof (cases "aks_SecretName cs = aks_SecretName (ak_Spec ak)")
    case True
    then have "((secrets c w)(generatedSecret ak cs := None))(generatedSecret ak (ak_Spec ak) \<mapsto> s) =
        (secrets c w)(generatedSecret ak (ak_Spec ak) \<mapsto> s)" by (simp add: generatedSecret_def)
    with kr d Some True show ?thesis
      by (auto simp: keysReady_def determined_def givenKey_other [OF own] chosenKey_def fitting_def
          split: if_splits)
  next
    case False
    with kr d Some show ?thesis
      by (auto simp: keysReady_def determined_def givenKey_other [OF own] chosenKey_def fitting_def)
  qed
qed

lemma accountSynced_Migrate [simp]: "accountSynced c w (spec\<lparr>aks_Migrate := b\<rparr>) = accountSynced c w spec"
  by (simp add: accountSynced_def fun_eq_iff)

text \<open>
  C18 - A recorded access key follows its spec, as far as the spec fills it. Take a recorded MinioAccessKey that
  is not being deleted, in a quiet cluster, whose spec has an access key that the tenant knows and key
  references that lead to entries of secrets, the one of the secret key not into the generated secret;
  and either the generated secret is there under the name of the spec (and the digest tells its keys from
  the desired ones), or it is lost and the spec has the recorded name for it, or it is there under the
  recorded name and the spec has a new name that is free; a spec that asks to migrate leaves no key to be
  drawn. Whatever else has changed in the spec, in the referenced secrets or in the account, one pass makes
  the generated secret, the account and the record agree again. The secret stands under the name of the
  spec (the one of the old name is gone) with this access key and the secret key the spec leads to. The
  account has the description, the name, the instant of expiration and the policy (as the operator compares
  policies) that the spec gives, wherever it gives one (an emptied field is not transmitted: nothing is said of it),
  belongs to the same user, and has the secret key of the secret, unless the account is unchanged and the secret is
  the one that was there before. The record is the spec without the migrate flag. Further passes keep
  all this, and no pass touches another account or secret.
\<close>

theorem access_key_follows_changes:
  assumes "quietKeys G c" and "cl_store c w = Some ak" and "heldOnly (ak_ObjectMeta ak)"
    and "timeIsZero (om_DeletionTimestamp (ak_ObjectMeta ak))" and "accessKeyCurrent ak = Some cs"
    and "generatedSecret ak cs \<in> G" and "generatedSecret ak (ak_Spec ak) \<in> G"
    and "keysReady c w ak cs ck sk" and "\<not> refersToOwn ak"
    and "aks_AccessKey (ak_Spec ak) = ck" and "ck \<noteq> ''''" and "accounts c w ck \<noteq> None"
  shows "\<exists>d s. AccessKey d = ck \<and> SecretKey d \<noteq> '''' \<and> (sk \<noteq> '''' \<longrightarrow> SecretKey d = sk) \<and>
    (\<forall>k \<ge> 1. keysApplied c w ak cs d s (passes minioAccessKeyReconciler_Reconcile c k w))"
proof -
  let ?step = "stepOf minioAccessKeyReconciler_Reconcile c"
  let ?spec = "(ak_Spec ak)\<lparr>aks_Migrate := False\<rparr>"
  have "\<exists>d s. fitting c w ck sk d \<and> keysApplied c w ak cs d s (?step w)"
  proof (rule access_key_phases.step_update [OF assms(1-3) _ assms(4)])
    show "accessKeyStatusSet ak" by (simp add: accessKeyStatusSet_def assms(5))
  next
    fix w1 assume w1: "keeps c w w1"
    then have t: "cl_store c w1 = cl_store c w" "cl_tenant c w1 = cl_tenant c w" by (simp_all add: keeps_def)
    have same: "keysApplied c w1 ak cs d s v = keysApplied c w ak cs d s v"
        "fitting c w1 a b d = fitting c w a b d" "keysReady c w1 ak cs ck sk" for d s v a b
      using assms(8) by (simp_all only: keysApplied_def fitting_def keysReady_def accountSynced_def t)
    have "okRun (minioAccessKey_update (cl_rec c) ak) w1 (\<lambda>_ w'. \<exists>d s.
        fitting c w1 ck sk d \<and> keysApplied c w1 ak cs d s w')"
      by (rule minioAccessKey_update_quiet [OF assms(1) _ assms(3,5-7) same(3) assms(11)])
        (use assms(2,12) t in simp_all)
    then show "okRun (minioAccessKey_update (cl_rec c) ak) w1 (\<lambda>_ w'. \<exists>d s.
        fitting c w ck sk d \<and> keysApplied c w ak cs d s w')"
      by (simp only: same(1,2))
  qed
  then obtain d s where d: "fitting c w ck sk d" and a: "keysApplied c w ak cs d s (?step w)" by blast
  have g: "\<lparr>nn_Namespace = om_Namespace (ak_ObjectMeta ak), nn_Name = aks_SecretName ?spec\<rparr> =
      generatedSecret ak (ak_Spec ak)" by (simp add: generatedSecret_def accessKeyNamespace_def)
  have ref: "\<exists>h. givenKey (secrets c (?step w)) (om_Namespace (ak_ObjectMeta ak)) '''' (aks_SecretKeyRef ?spec) = Some h
      \<and> (h = '''' \<or> h = SecretKey d)"
    using ready_reference [OF assms(8,9) d, of s] a by (simp add: keysApplied_def accessKeyNamespace_def)
  have synced: "accountSynced c w (ak_Spec ak) d (secrets c w (generatedSecret ak (ak_Spec ak)) = Some s) (?step w)"
    using a by (simp add: keysApplied_def)
  then have "accounts c (?step w) (AccessKey d) \<noteq> None" by (auto simp: accountSynced_def)
  then have "settledKey G c (ak_ObjectMeta ak) ?spec d s (?step w)"
    using a d assms(3,4,7,10-12) ref g by (auto simp: settledKey_def keysApplied_def fitting_def)
  note p = settledKey_passes [OF assms(1) this]
  have "keysApplied c w ak cs d s (passes minioAccessKeyReconciler_Reconcile c (Suc k) w)" for k
  proof (cases "k = 0")
    case False
    then have "accountSynced c (?step w) (ak_Spec ak) d True (passes minioAccessKeyReconciler_Reconcile c k (?step w))"
      using p [of k] by simp
    from accountSynced_trans [OF synced this] show ?thesis
      unfolding passes_Suc using p [of k] a by (auto simp: keysApplied_def settledKey_def)
  qed (use a in simp)
  then have "\<forall>k \<ge> 1. keysApplied c w ak cs d s (passes minioAccessKeyReconciler_Reconcile c k w)"
    by (metis One_nat_def Suc_le_D)
  with d assms(11) show ?thesis by (auto simp: fitting_def)
qed

text \<open>
  The example: the generated secret of the recorded access key \<open>AK\<close> is lost, and the account has another
  secret key than the one that will be drawn and no description.
\<close>

definition lostSpec :: MinioAccessKeySpec where
  "lostSpec = sampleAccessKeySpec\<lparr>aks_AccessKey := ''AK'', aks_Description := ''text''\<rparr>"

definition lostKey :: MinioAccessKey where
  "lostKey = (sampleAccessKey (Some lostSpec))\<lparr>ak_Spec := lostSpec\<rparr>"

lemma lostKey_simps [simp]:
  "ak_ObjectMeta lostKey = heldMeta ''ak''" "ak_Spec lostKey = lostSpec" "accessKeyCurrent lostKey = Some lostSpec"
  "generatedSecret lostKey lostSpec = sampleSecretName" "accessKeyNamespace lostKey = ''ns''"
  by (simp_all add: lostKey_def lostSpec_def sampleAccessKey_def accessKeyCurrent_def generatedSecret_def
      accessKeyNamespace_def sampleSecretName_def sampleAccessKeySpec_def)

theorem access_key_follows_changes_witness:
  "\<exists>d s a. AccessKey d = ''AK'' \<and> SecretKey d \<noteq> '''' \<and>
     fst (snd (passes minioAccessKeyReconciler_Reconcile keysCluster 1
       (Some lostKey, ([''AK'' \<mapsto> plainAccount ''old''], Map.empty)))) ''AK'' = Some a \<and>
     acc_description a = ''text'' \<and> acc_secret a = SecretKey d \<and>
     sampleSecrets (snd (snd (passes minioAccessKeyReconciler_Reconcile keysCluster 1
       (Some lostKey, ([''AK'' \<mapsto> plainAccount ''old''], Map.empty))))) sampleSecretName = Some s \<and>
     getCredentialsFromSecret s = d"
proof -
  let ?w = "(Some lostKey, ([''AK'' \<mapsto> plainAccount ''old''], Map.empty)) :: MinioAccessKey option \<times> keyState"
  have free: "sampleSecrets Map.empty sampleSecretName = None"
    by (simp add: sampleSecrets_def sampleSecretName_def)
  have refs: "aks_SecretKeyRef lostSpec = emptyKeyRef" "aks_AccessKey lostSpec = ''AK''" "\<not> aks_Migrate lostSpec"
    "aks_Description lostSpec = ''text''"
    by (simp_all add: lostSpec_def sampleAccessKeySpec_def)
  have "keysReady keysCluster ?w lostKey lostSpec ''AK'' ''''"
    by (simp add: keysReady_def determined_def givenKey_def chosenKey_def free refs)
  from access_key_follows_changes [OF quietKeys_sample _ _ _ _ _ _ this]
  obtain d s where d: "AccessKey d = ''AK''" "SecretKey d \<noteq> ''''"
    and k: "keysApplied keysCluster ?w lostKey lostSpec d s (passes minioAccessKeyReconciler_Reconcile keysCluster 1 ?w)"
    by (fastforce simp: heldOnly_def refersToOwn_def refs)
  let ?w' = "passes minioAccessKeyReconciler_Reconcile keysCluster 1 ?w"
  from k have s: "getCredentialsFromSecret s = d" "sampleSecrets (snd (snd ?w')) sampleSecretName = Some s"
    by (simp_all add: keysApplied_def)
  from k obtain a where a: "fst (snd ?w') ''AK'' = Some a" "acc_description a = ''text''" "acc_secret a = SecretKey d"
    by (auto simp: keysApplied_def accountSynced_def d(1) free carries_def refs)
  show ?thesis using d s a by blast
qed

text \<open>
  C19 - A deletion takes away the account of the key in the generated secret, and nothing else of the
  tenant: after one pass in a quiet cluster the object is gone, and so is that account. If the generated
  secret was deleted before, the object goes all the same and the service account stays in the tenant
  for good, although the recorded spec holds its access key.
\<close>

theorem access_key_deletion:
  assumes "quietKeys G c" and "cl_store c w = Some ak" and "heldOnly (ak_ObjectMeta ak)"
    and "\<not> timeIsZero (om_DeletionTimestamp (ak_ObjectMeta ak))" and "1 \<le> k"
    and "w' = passes minioAccessKeyReconciler_Reconcile c k w"
  shows "cl_store c w' = None \<and> secrets c w' = secrets c w \<and>
    accounts c w' = (case accessKeyCurrent ak of None \<Rightarrow> accounts c w
      | Some cs \<Rightarrow> (case secrets c w (generatedSecret ak cs) of None \<Rightarrow> accounts c w
          | Some s \<Rightarrow> (accounts c w)(AccessKey (getCredentialsFromSecret s) := None)))"
proof -
  let ?gone = "\<lambda>v. cl_store c v = None \<and> accounts c v = remainingAccounts c w ak \<and> secrets c v = secrets c w"
  have one: "?gone (stepOf minioAccessKeyReconciler_Reconcile c w)"
  proof (rule access_key_phases.step_phase [OF assms(1-3)])
    fix w1 assume w1: "keeps c w w1"
    then have t: "cl_store c w1 = cl_store c w" "cl_tenant c w1 = cl_tenant c w" by (simp_all add: keeps_def)
    have "okRun (minioAccessKey_delete (cl_rec c) ak) w1 (\<lambda>_ w'. cl_store c w' = None \<and>
        accounts c w' = remainingAccounts c w1 ak \<and> secrets c w' = secrets c w1)"
      by (rule minioAccessKey_delete_quiet [OF assms(1) _ assms(3,4)]) (simp add: t assms(2))
    moreover have "remainingAccounts c w1 ak = remainingAccounts c w ak" by (simp only: remainingAccounts_def t)
    ultimately show "okRun (if \<not> timeIsZero (om_DeletionTimestamp (ak_ObjectMeta ak))
        then minioAccessKey_delete (cl_rec c) ak
        else if accessKeyStatusSet ak then minioAccessKey_update (cl_rec c) ak
        else minioAccessKey_create (cl_rec c) ak) w1 (\<lambda>_. ?gone)"
      using assms(4) by (simp add: t)
  qed
  have "?gone (passes minioAccessKeyReconciler_Reconcile c (Suc j) w)" for j
  proof (induction j)
    case (Suc j)
    from access_key_phases.step_gone [OF assms(1), of "passes minioAccessKeyReconciler_Reconcile c (Suc j) w"] Suc
    show ?case by (simp add: keeps_def)
  qed (use one in simp)
  moreover obtain j where "k = Suc j" using assms(5) by (cases k) auto
  ultimately show ?thesis using assms(6) by (simp add: remainingAccounts_def)
qed

text \<open>The example: \<open>AK\<close> is being deleted, with its generated secret and without it.\<close>

definition closingKey :: MinioAccessKey where
  "closingKey = lostKey\<lparr>ak_ObjectMeta := deletedMeta ''ak''\<rparr>"

lemma closingKey_simps [simp]:
  "ak_ObjectMeta closingKey = deletedMeta ''ak''" "accessKeyCurrent closingKey = Some lostSpec"
  "generatedSecret closingKey lostSpec = sampleSecretName"
  by (simp_all add: closingKey_def generatedSecret_def accessKeyNamespace_def sampleSecretName_def lostSpec_def
      sampleAccessKeySpec_def)

theorem access_key_deletion_witness:
  "fst (snd (passes minioAccessKeyReconciler_Reconcile keysCluster 1
     (Some closingKey, ([''AK'' \<mapsto> plainAccount ''SK''], [sampleSecretName \<mapsto> sampleSecret])))) ''AK'' = None \<and>
   fst (snd (passes minioAccessKeyReconciler_Reconcile keysCluster 1
     (Some closingKey, ([''AK'' \<mapsto> plainAccount ''SK''], Map.empty)))) ''AK'' = Some (plainAccount ''SK'')"
proof -
  have "sampleSecrets Map.empty sampleSecretName = None"
    "sampleSecrets [sampleSecretName \<mapsto> sampleSecret] sampleSecretName = Some sampleSecret"
    by (simp_all add: sampleSecrets_def sampleSecretName_def sampleSecret_def sampleMeta_def renamedTo_def)
  moreover have "AccessKey (getCredentialsFromSecret sampleSecret) = ''AK''"
    by (simp add: getCredentials_accessKey mapGet_def sampleSecret_def)
  ultimately show ?thesis
    using access_key_deletion [OF quietKeys_sample, of
        "(Some closingKey, ([''AK'' \<mapsto> plainAccount ''SK''], [sampleSecretName \<mapsto> sampleSecret]))" closingKey 1, OF _ _ _ _ refl]
      access_key_deletion [OF quietKeys_sample, of
        "(Some closingKey, ([''AK'' \<mapsto> plainAccount ''SK''], Map.empty))" closingKey 1, OF _ _ _ _ refl]
    by (simp add: heldOnly_def)
qed

text \<open>
  An access key that the tenant has already is not taken over, and the attempt is undone: as long as
  the spec gives a taken access key and does not ask to migrate it, every pass over the held object
  fails and leaves secrets, accounts and the object as they were, although it makes a generated secret
  on the way.
\<close>

theorem access_key_taken_stuck:
  assumes "quietKeys G c" and "cl_store c w = Some ak" and "heldOnly (ak_ObjectMeta ak)"
    and "timeIsZero (om_DeletionTimestamp (ak_ObjectMeta ak))" and "accessKeyCurrent ak = None"
    and "generatedSecret ak (ak_Spec ak) \<in> G" and "secrets c w (generatedSecret ak (ak_Spec ak)) = None"
    and "determined (secrets c w) ak None ck sk" and "ck \<noteq> ''''" and "accounts c w ck \<noteq> None"
    and "\<not> aks_Migrate (ak_Spec ak)" and "w' = passes minioAccessKeyReconciler_Reconcile c k w"
  shows "keeps c w w' \<and> (\<exists>e. outcome (minioAccessKeyReconciler_Reconcile (cl_rec c) (cl_req c)) w' = Err e)"
proof (rule access_key_phases.fails_stuck [OF assms(1,2) _ assms(12)])
  fix w1 assume w1: "keeps c w w1"
  then have t: "cl_store c w1 = cl_store c w" "cl_tenant c w1 = cl_tenant c w" by (simp_all add: keeps_def)
  have "minioAccessKey_pass (cl_rec c) (cl_req c) ak = minioAccessKey_create (cl_rec c) ak"
    using assms(3-5) by (simp add: minioAccessKey_pass_def access_key_phases.finalizer_listed [OF assms(1)] heldOnly_def)
  moreover have "errRun (minioAccessKey_create (cl_rec c) ak) w1 (\<lambda>_. keeps c w1)"
    by (rule minioAccessKey_create_taken [OF assms(1) _ assms(3,6) _ _ assms(9) _ assms(11)])
      (use assms(2,7,8,10) in \<open>simp_all add: t\<close>)
  ultimately show "errRun (minioAccessKey_pass (cl_rec c) (cl_req c) ak) w1 (\<lambda>_. keeps c w1)" by simp
qed

theorem access_key_taken_stuck_witness:
  "\<exists>e. outcome (minioAccessKeyReconciler_Reconcile (cl_rec keysCluster) (cl_req keysCluster))
     (passes minioAccessKeyReconciler_Reconcile keysCluster 5
       (Some (lostKey\<lparr>ak_Status := ak_Status (sampleAccessKey None)\<rparr>), ([''AK'' \<mapsto> plainAccount ''other''], Map.empty))) = Err e"
proof -
  let ?ak = "lostKey\<lparr>ak_Status := ak_Status (sampleAccessKey None)\<rparr>"
  let ?w = "(Some ?ak, ([''AK'' \<mapsto> plainAccount ''other''], Map.empty)) :: MinioAccessKey option \<times> keyState"
  have ak: "accessKeyCurrent ?ak = None" "generatedSecret ?ak lostSpec = sampleSecretName"
    by (simp_all add: accessKeyCurrent_def generatedSecret_def accessKeyNamespace_def sampleAccessKey_def
        lostSpec_def sampleAccessKeySpec_def sampleSecretName_def)
  have free: "sampleSecrets Map.empty sampleSecretName = None"
    by (simp add: sampleSecrets_def sampleSecretName_def)
  have refs: "aks_SecretKeyRef lostSpec = emptyKeyRef" "aks_AccessKey lostSpec = ''AK''" "\<not> aks_Migrate lostSpec"
    by (simp_all add: lostSpec_def sampleAccessKeySpec_def)
  have "determined (secrets keysCluster ?w) ?ak None ''AK'' ''''"
    by (simp add: determined_def givenKey_def chosenKey_def refs)
  from access_key_taken_stuck [OF quietKeys_sample, of ?w ?ak "''AK''" "''''" _ 5, OF _ _ _ ak(1) _ _ this _ _ _ refl]
  show ?thesis by (simp add: heldOnly_def ak free refs)
qed

end
