(* ===== verification/Interleaving.thy ===== *)
theory Interleaving
  imports Bucket_Reconciler Group_Reconciler Group_Binding_Reconciler Policy_Reconciler
    Policy_Binding_Reconciler User_Reconciler
begin

text \<open>
  Many resources of a kind in one tenant. The manager calls a reconciler for one resource after the
  other, in an order that nobody controls. Every resource has its cluster (the API server as its
  passes see it); the clusters share the world and the tenant. The locale \<open>shared\<close> extends
  \<open>settling\<close> by two laws: a pass leaves the other resources as they are, and things of different names
  are independent. Then each resource moves like the abstract machine, by one step per pass
  of its own, however the passes are interleaved.
\<close>

section \<open>Observations that a program preserves\<close>

definition preserves :: "('w \<Rightarrow> 'x) \<Rightarrow> ('w, 'c, 'a) m \<Rightarrow> bool" where
  "preserves f m \<longleftrightarrow> (\<forall>w. f (fst (snd (m w))) = f w)"

definition opKeeps :: "('w \<Rightarrow> 'x) \<Rightarrow> ('w \<Rightarrow> 'a \<times> 'w) \<Rightarrow> bool" where
  "opKeeps f op \<longleftrightarrow> (\<forall>w. f (snd (op w)) = f w)"

lemma preservesD: "preserves f m \<Longrightarrow> m w = (x, w1, t) \<Longrightarrow> f w1 = f w"
  unfolding preserves_def by (metis fst_conv snd_conv)

lemma opKeepsD: "opKeeps f op \<Longrightarrow> op w = (x, w1) \<Longrightarrow> f w1 = f w"
  unfolding opKeeps_def by (metis snd_conv)

named_theorems preserves_intro \<open>rules that decompose \<open>preserves\<close> along the program\<close>

lemma preserves_basic [preserves_intro]:
  "preserves f (ret a)" "preserves f (fail e)" "preserves f panic" "preserves f (liftE x)"
  "preserves f (checkErr err)" "preserves f (deref p)"
  by (simp_all add: preserves_def prim split: sum.split option.split)

lemma preserves_call [preserves_intro]: "opKeeps f op \<Longrightarrow> preserves f (call c op)"
  by (auto simp: preserves_def prim split: prod.split sum.split dest: opKeepsD)

lemma preserves_callPair [preserves_intro]: "opKeeps f op \<Longrightarrow> preserves f (callPair c op)"
  by (auto simp: preserves_def prim split: prod.split dest: opKeepsD)

lemma preserves_attempt [preserves_intro]: "preserves f m \<Longrightarrow> preserves f (attempt m)"
  unfolding preserves_def [of f "attempt m"]
  by (auto simp: attempt_def split: prod.split res.split dest: preservesD)

lemma preserves_bind [preserves_intro]:
  assumes "preserves f m" and "\<And>a. preserves f (g a)"
  shows "preserves f (bindM m g)"
  unfolding preserves_def
proof
  fix w
  obtain x w1 t where m: "m w = (x, w1, t)" by (cases "m w") auto
  then have "f w1 = f w" using assms(1) by (rule preservesD [rotated])
  with m preservesD [OF assms(2)] show "f (fst (snd (bindM m g w))) = f w"
    by (cases x) (auto simp: bindM_def split: prod.split)
qed

lemma preserves_if [preserves_intro]:
  "preserves f m \<Longrightarrow> preserves f n \<Longrightarrow> preserves f (if b then m else n)"
  by simp

lemma preserves_case_option [preserves_intro]:
  "preserves f m \<Longrightarrow> (\<And>a. preserves f (g a)) \<Longrightarrow>
   preserves f (case x of None \<Rightarrow> m | Some a \<Rightarrow> g a)"
  by (cases x) simp_all

lemma preserves_case_sum [preserves_intro]:
  "(\<And>e. preserves f (h e)) \<Longrightarrow> (\<And>a. preserves f (g a)) \<Longrightarrow>
   preserves f (case x of Inl e \<Rightarrow> h e | Inr a \<Rightarrow> g a)"
  by (cases x) simp_all

lemma preserves_case_prod [preserves_intro]:
  "(\<And>a b. preserves f (g a b)) \<Longrightarrow> preserves f (case p of (a, b) \<Rightarrow> g a b)"
  by (cases p) simp

section \<open>Services that leave a stored resource alone\<close>

text \<open>
  No operation of a reconciler's environment, its reads and its updates, changes \<open>f\<close>: what the API
  server guarantees for the other resources, which \<open>f\<close> looks at.
\<close>

definition envKeeps :: "('w \<Rightarrow> 'x) \<Rightarrow> 'w env \<Rightarrow> bool" where
  "envKeeps f E \<longleftrightarrow>
     (\<forall>k. opKeeps f (\<lambda>w. e_GetSecret E w k)) \<and> (\<forall>k. opKeeps f (\<lambda>w. e_GetTenant E w k)) \<and>
     (\<forall>k. opKeeps f (\<lambda>w. e_GetService E w k)) \<and> (\<forall>k. opKeeps f (\<lambda>w. e_GetConfigMap E w k)) \<and>
     (\<forall>n. opKeeps f (\<lambda>w. e_ListSecrets E w n)) \<and>
     (\<forall>e a s b p. opKeeps f (\<lambda>w. e_NewClient E w e a s b p)) \<and>
     (\<forall>e a s b. opKeeps f (\<lambda>w. e_NewAdminClient E w e a s b)) \<and>
     (\<forall>h p w. f (e_SetCustomTransport E w h p) = f w) \<and>
     (\<forall>h q. opKeeps f (\<lambda>w. e_Mutate E w h q)) \<and> (\<forall>h n. opKeeps f (\<lambda>w. e_BucketExists E w h n)) \<and>
     (\<forall>h n. opKeeps f (\<lambda>w. e_GetBucketVersioning E w h n)) \<and>
     (\<forall>h n. opKeeps f (\<lambda>w. e_GetBucketLifecycle E w h n)) \<and>
     (\<forall>h n. opKeeps f (\<lambda>w. e_GetGroupDescription E w h n)) \<and>
     (\<forall>h n. opKeeps f (\<lambda>w. e_InfoCannedPolicyV2 E w h n)) \<and>
     (\<forall>h n. opKeeps f (\<lambda>w. e_GetUserInfo E w h n)) \<and>
     (\<forall>h n. opKeeps f (\<lambda>w. e_GetPolicyEntities E w h n)) \<and>
     (\<forall>h n. opKeeps f (\<lambda>w. e_GetLDAPPolicyEntities E w h n)) \<and>
     (\<forall>h n k. opKeeps f (\<lambda>w. e_GetIDPConfig E w h n k))"

text \<open>The operations with which a tenant is looked up and a client for it is opened.\<close>

definition infraKeeps :: "('w \<Rightarrow> 'x) \<Rightarrow> 'w env \<Rightarrow> bool" where
  "infraKeeps f E \<longleftrightarrow>
     (\<forall>k. opKeeps f (\<lambda>w. e_GetSecret E w k)) \<and> (\<forall>k. opKeeps f (\<lambda>w. e_GetTenant E w k)) \<and>
     (\<forall>k. opKeeps f (\<lambda>w. e_GetService E w k)) \<and> (\<forall>k. opKeeps f (\<lambda>w. e_GetConfigMap E w k)) \<and>
     (\<forall>n. opKeeps f (\<lambda>w. e_ListSecrets E w n)) \<and>
     (\<forall>e a s b p. opKeeps f (\<lambda>w. e_NewClient E w e a s b p)) \<and>
     (\<forall>e a s b. opKeeps f (\<lambda>w. e_NewAdminClient E w e a s b)) \<and>
     (\<forall>h p w. f (e_SetCustomTransport E w h p) = f w)"

lemma envKeeps_infra: "envKeeps f E \<Longrightarrow> infraKeeps f E"
  by (simp add: envKeeps_def infraKeeps_def)

definition leavesAlone :: "('w \<Rightarrow> 'x) \<Rightarrow> ('w, 'o) reconciler \<Rightarrow> bool" where
  "leavesAlone f r \<longleftrightarrow> envKeeps f (r_env r) \<and> (\<forall>k. opKeeps f (\<lambda>w. r_Get r w k)) \<and>
     (\<forall>x. opKeeps f (\<lambda>w. r_Update r w x))"

lemma appendExternalCAs_preserves:
  "infraKeeps f E \<Longrightarrow> preserves f (appendExternalCAs E ns cas p)"
  by (induction cas arbitrary: p) (auto simp: calls infraKeeps_def intro!: preserves_intro)

lemma getMinioTenantClientInfo_preserves:
  assumes "infraKeeps f E"
  shows "preserves f (getMinioTenantClientInfo E rr opts)"
  unfolding getMinioTenantClientInfo_def tenantCredentials_def tenantServiceEndpoint_def
    tenantCaBundle_def appendPodCA_def appendOperatorCAs_def calls Let_def
  by (intro preserves_intro appendExternalCAs_preserves [OF assms])
    (use assms in \<open>simp_all add: infraKeeps_def\<close>)

lemma openClient_preserves:
  assumes "infraKeeps f (r_env r)"
  shows "preserves f (getAdminClient r rr ns)" and "preserves f (getTenantClient r rr ns)"
  unfolding getAdminClient_def GetAdminClient_def getTenantClient_def GetClient_def Let_def
  by (intro preserves_intro getMinioTenantClientInfo_preserves; use assms in \<open>simp add: infraKeeps_def opKeeps_def\<close>)+

lemma getAdminClient_preserves: "leavesAlone f r \<Longrightarrow> preserves f (getAdminClient r rr ns)"
  by (simp add: leavesAlone_def openClient_preserves envKeeps_infra)

lemma getTenantClient_preserves: "leavesAlone f r \<Longrightarrow> preserves f (getTenantClient r rr ns)"
  by (simp add: leavesAlone_def openClient_preserves envKeeps_infra)

section \<open>The reconcilers\<close>

lemma minioBucket_preserves:
  "leavesAlone f r \<Longrightarrow> preserves f (minioBucketReconciler_Reconcile r req)"
  unfolding minioBucketReconciler_Reconcile_def minioBucket_phases getFailed_def
  by (intro preserves_intro getTenantClient_preserves) (simp_all add: leavesAlone_def envKeeps_def)

lemma minioGroup_preserves:
  "leavesAlone f r \<Longrightarrow> preserves f (minioGroupReconciler_Reconcile r req)"
  unfolding minioGroupReconciler_Reconcile_def minioGroup_phases getFailed_def
  by (intro preserves_intro getAdminClient_preserves) (simp_all add: leavesAlone_def envKeeps_def)

lemma minioGroupBinding_preserves:
  "leavesAlone f r \<Longrightarrow> preserves f (minioGroupBindingReconciler_Reconcile r req)"
  unfolding minioGroupBindingReconciler_Reconcile_def minioGroupBinding_phases getFailed_def
  by (intro preserves_intro getAdminClient_preserves) (simp_all add: leavesAlone_def envKeeps_def)

lemma minioPolicy_preserves:
  "leavesAlone f r \<Longrightarrow> preserves f (minioPolicyReconciler_Reconcile r req)"
  unfolding minioPolicyReconciler_Reconcile_def minioPolicy_phases getFailed_def
  by (intro preserves_intro getAdminClient_preserves) (simp_all add: leavesAlone_def envKeeps_def)

lemma minioPolicyBinding_preserves:
  "leavesAlone f r \<Longrightarrow> preserves f (minioPolicyBindingReconciler_Reconcile r req)"
  unfolding minioPolicyBindingReconciler_Reconcile_def minioPolicyBinding_phases getFailed_def
  by (intro preserves_intro getAdminClient_preserves) (simp_all add: leavesAlone_def envKeeps_def)

lemma minioUser_preserves:
  "leavesAlone f r \<Longrightarrow> preserves f (minioUserReconciler_Reconcile r req)"
  unfolding minioUserReconciler_Reconcile_def minioUser_phases minioUser_getAccessKey_def getFailed_def
  by (intro preserves_intro getAdminClient_preserves) (simp_all add: leavesAlone_def envKeeps_def)

section \<open>Interleaved passes\<close>

text \<open>
  \<open>c i\<close> is the cluster as the passes for resource \<open>i\<close> see it. All see the same tenant, and the services
  that resource \<open>j\<close> is reconciled with leave the stored version of \<open>i\<close> alone. A schedule is the list of
  the resources whose passes are run.
\<close>

definition together :: "('i \<Rightarrow> ('w, 'o, 's) cluster) \<Rightarrow> bool" where
  "together c \<longleftrightarrow> (\<forall>i j. cl_tenant (c i) = cl_tenant (c j)) \<and>
     (\<forall>i j. i \<noteq> j \<longrightarrow> leavesAlone (cl_store (c i)) (cl_rec (c j)))"

definition runs ::
  "(('w, 'o) reconciler \<Rightarrow> NamespacedName \<Rightarrow> ('w, 'o call, Result) m) \<Rightarrow> ('i \<Rightarrow> ('w, 'o, 's) cluster) \<Rightarrow>
   'i list \<Rightarrow> 'w \<Rightarrow> 'w" where
  "runs reconcile c schedule = fold (\<lambda>i. stepOf reconcile (c i)) schedule"

lemma runs_snoc: "runs reconcile c (schedule @ [i]) w = stepOf reconcile (c i) (runs reconcile c schedule w)"
  by (simp add: runs_def)

locale shared = settling +
  fixes apart :: "'d \<Rightarrow> 'd \<Rightarrow> bool"
  assumes preserves_reconcile: "leavesAlone (f :: 'a \<Rightarrow> 'b option) r \<Longrightarrow> preserves f (reconcile r req)"
    and apart_present: "apart n m \<Longrightarrow> others True n s' = others True n s \<Longrightarrow> present m s' = present m s"
    and apart_exact: "apart n m \<Longrightarrow> others True n s' = others True n s \<Longrightarrow> exact c m s' = exact c m s"
    and apart_possible: "apart n m \<Longrightarrow> others True n s' = others True n s \<Longrightarrow> possible d m s' = possible d m s"
begin

lemma other_step:
  assumes "together c" and "i \<noteq> j" and "quiet (c j)" and "inorder (c j) (n j) w" and "apart (n j) m"
    and "able (c j) (n j) w"
  shows "cl_store (c i) (stepOf reconcile (c j) w) = cl_store (c i) w"
    and "present m (cl_tenant (c i) (stepOf reconcile (c j) w)) = present m (cl_tenant (c i) w)"
    and "exact (c i) m (cl_tenant (c i) (stepOf reconcile (c j) w)) = exact (c i) m (cl_tenant (c i) w)"
    and "possible d m (cl_tenant (c i) (stepOf reconcile (c j) w)) = possible d m (cl_tenant (c i) w)"
proof -
  have "leavesAlone (cl_store (c i)) (cl_rec (c j))" using assms(1,2) by (simp add: together_def)
  from preserves_reconcile [OF this, of "cl_req (c j)"]
  show "cl_store (c i) (stepOf reconcile (c j) w) = cl_store (c i) w"
    by (simp add: preserves_def stepOf_def)
  have t: "cl_tenant (c i) = cl_tenant (c j)" using assms(1) by (simp add: together_def)
  have o: "others True (n j) (cl_tenant (c j) (stepOf reconcile (c j) w)) = others True (n j) (cl_tenant (c j) w)"
    using step_refines [OF assms(3,4,6)] by blast
  show "present m (cl_tenant (c i) (stepOf reconcile (c j) w)) = present m (cl_tenant (c i) w)"
      "exact (c i) m (cl_tenant (c i) (stepOf reconcile (c j) w)) = exact (c i) m (cl_tenant (c i) w)"
      "possible d m (cl_tenant (c i) (stepOf reconcile (c j) w)) = possible d m (cl_tenant (c i) w)"
    using apart_present [OF assms(5) o] apart_exact [where c = "c i", OF assms(5) o] apart_possible [OF assms(5) o]
    by (simp_all only: t)
qed

text \<open>Each resource makes one step of the machine in each of its passes and none in those of others.\<close>

lemma runs_refine:
  assumes "together c" and "\<And>i. quiet (c i)" and "\<And>i. inorder (c i) (n i) w"
    and "\<And>i j. i \<noteq> j \<Longrightarrow> apart (n i) (n j)" and "\<And>i. able (c i) (n i) w"
  shows "inorder (c i) (n i) (runs reconcile c schedule w) \<and>
    able (c i) (n i) (runs reconcile c schedule w) \<and>
    view (c i) (n i) (runs reconcile c schedule w) =
      (idealStep forgiving ^^ count_list schedule i) (view (c i) (n i) w) \<and>
    (settles (view (c i) (n i) w) \<longrightarrow> 2 \<le> count_list schedule i \<longrightarrow>
      exact (c i) (n i) (cl_tenant (c i) (runs reconcile c schedule w)))"
proof (induction schedule arbitrary: i rule: rev_induct)
  case Nil
  show ?case using assms(3,5) by (simp add: runs_def)
next
  case (snoc j schedule)
  let ?w = "runs reconcile c schedule w"
  have j: "inorder (c j) (n j) ?w" "able (c j) (n j) ?w" using snoc by blast+
  show ?case
  proof (cases "i = j")
    case True
    let ?w1 = "stepOf reconcile (c j) ?w"
    have one: "inorder (c j) (n j) ?w1" "view (c j) (n j) ?w1 = idealStep forgiving (view (c j) (n j) ?w)"
        "ready (view (c j) (n j) ?w) \<Longrightarrow> exact (c j) (n j) (cl_tenant (c j) ?w1)"
        "able (c j) (n j) ?w1"
      using step_refines [OF assms(2) j] by blast+
    have before: "view (c j) (n j) ?w = (idealStep forgiving ^^ count_list schedule j) (view (c j) (n j) w)"
      using snoc [of j] by blast
    show ?thesis
      unfolding True runs_snoc
    proof (intro conjI impI)
      show "able (c j) (n j) ?w1" by (rule one(4))
      show "view (c j) (n j) ?w1 = (idealStep forgiving ^^ count_list (schedule @ [j]) j) (view (c j) (n j) w)"
        by (simp add: one(2) before)
      assume "settles (view (c j) (n j) w)" "2 \<le> count_list (schedule @ [j]) j"
      then show "exact (c j) (n j) (cl_tenant (c j) ?w1)"
        by (intro one(3)) (simp add: before ideal_ready)
    qed (rule one(1))
  next
    case False
    then have ji: "apart (n j) (n i)" using assms(4) [of j i] by simp
    note o = other_step [where c = c and n = n, OF assms(1) False assms(2) j(1) ji j(2)]
    have "inorder (c i) (n i) (stepOf reconcile (c j) ?w) = inorder (c i) (n i) ?w"
        "view (c i) (n i) (stepOf reconcile (c j) ?w) = view (c i) (n i) ?w"
        "able (c i) (n i) (stepOf reconcile (c j) ?w) = able (c i) (n i) ?w"
      by (simp_all only: orderly_def viewOf_def ableOf_def o)
    with snoc [of i] o(3) False show ?thesis by (simp add: runs_snoc)
  qed
qed

lemma runs_others:
  assumes "together c" and "\<And>i. quiet (c i)" and "\<And>i. inorder (c i) (n i) w"
    and "\<And>i j. i \<noteq> j \<Longrightarrow> apart (n i) (n j)" and "\<And>i. able (c i) (n i) w"
    and "\<And>i. apart (n i) m"
  shows "present m (cl_tenant (c i) (runs reconcile c schedule w)) = present m (cl_tenant (c i) w)"
proof (induction schedule rule: rev_induct)
  case (snoc j schedule)
  have "inorder (c j) (n j) (runs reconcile c schedule w)"
      "able (c j) (n j) (runs reconcile c schedule w)"
    using runs_refine [OF assms(1-5)] by blast+
  from step_refines [OF assms(2) this]
  have o: "others True (n j) (cl_tenant (c j) (stepOf reconcile (c j) (runs reconcile c schedule w))) =
      others True (n j) (cl_tenant (c j) (runs reconcile c schedule w))" by blast
  have "cl_tenant (c i) = cl_tenant (c j)" using assms(1) by (simp add: together_def)
  with snoc apart_present [OF assms(6) o] show ?case by (simp add: runs_snoc)
qed (simp add: runs_def)

text \<open>So in any schedule a resource is settled after its second pass.\<close>

lemma runs_settle:
  assumes "together c" and "\<And>i. quiet (c i)" and "\<And>i j. i \<noteq> j \<Longrightarrow> apart (n i) (n j)"
    and "\<And>i. cl_store (c i) w = Some (x i)" and "\<And>i. named (n i) (x i)"
    and "\<And>i. inOrder metaOf statusSet (x i)" and "w' = runs reconcile c schedule w"
    and "\<And>i. possible (\<not> timeIsZero (om_DeletionTimestamp (metaOf (x i)))) (n i) (cl_tenant (c i) w)"
    and "2 \<le> count_list schedule i"
  shows "(timeIsZero (om_DeletionTimestamp (metaOf (x i))) \<longrightarrow>
      (present (n i) (cl_tenant (c i) w) \<longrightarrow> statusSet (x i) \<or> migrate (x i)) \<longrightarrow>
      present (n i) (cl_tenant (c i) w') \<and> exact (c i) (n i) (cl_tenant (c i) w') \<and>
      stored (c i) (\<lambda>y. named (n i) y \<and> statusSet y) w') \<and>
    (\<not> timeIsZero (om_DeletionTimestamp (metaOf (x i))) \<longrightarrow>
      (statusSet (x i) \<longrightarrow> present (n i) (cl_tenant (c i) w) \<or> forgiving) \<longrightarrow>
      cl_store (c i) w' = None \<and> (statusSet (x i) \<longrightarrow> \<not> present (n i) (cl_tenant (c i) w')))"
proof -
  have o: "inorder (c i) (n i) w" "able (c i) (n i) w" for i
    using assms(4-6,8) by (simp_all add: orderly_def ableOf_def)
  note r = runs_refine [OF assms(1,2) o(1) assms(3) o(2), of i schedule, folded assms(7)]
  let ?v = "view (c i) (n i) w"
  have "present (n i) (cl_tenant (c i) w') \<and> exact (c i) (n i) (cl_tenant (c i) w') \<and>
      stored (c i) (\<lambda>y. named (n i) y \<and> statusSet y) w'"
    if "timeIsZero (om_DeletionTimestamp (metaOf (x i)))"
      "present (n i) (cl_tenant (c i) w) \<longrightarrow> statusSet (x i) \<or> migrate (x i)"
  proof -
    have s: "settles ?v"
      using assms(4) [of i] assms(6) [of i] that by (auto simp: viewOf_def phaseOf_def inOrder_def heldOnly_def)
    with r assms(9) have "view (c i) (n i) w' = (Applied, True)" by (simp add: ideal_settles)
    then show ?thesis using r s assms(9)
      by (auto simp: viewOf_def phaseOf_def stored_def orderly_def split: option.splits if_splits)
  qed
  moreover have "cl_store (c i) w' = None \<and> (statusSet (x i) \<longrightarrow> \<not> present (n i) (cl_tenant (c i) w'))"
    if "\<not> timeIsZero (om_DeletionTimestamp (metaOf (x i)))"
      "statusSet (x i) \<longrightarrow> present (n i) (cl_tenant (c i) w) \<or> forgiving"
  proof -
    have "?v = (if statusSet (x i) then Closing else Releasing, present (n i) (cl_tenant (c i) w))"
      using assms(4) that(1) by (simp add: viewOf_def phaseOf_def)
    then have "view (c i) (n i) w' = (Gone, present (n i) (cl_tenant (c i) w) \<and> \<not> statusSet (x i))"
      using r that(2) ideal_closes(1) [OF assms(9)] ideal_closes(2) [OF assms(9)] by auto
    then show ?thesis by (auto simp: viewOf_def phaseOf_def split: option.splits if_splits)
  qed
  ultimately show ?thesis by blast
qed

end

lemma otherBuckets_apart:
  "otherBuckets d k s' = otherBuckets d k s \<Longrightarrow> fst k \<noteq> n \<Longrightarrow> s' n = s n"
  unfolding otherBuckets_def by (metis fun_upd_other prod.inject)

interpretation bucket_shared: shared minioBucketReconciler_Reconcile minioBucket_pass
  minioBucket_delete minioBucket_addFinalizer "\<lambda>r _. minioBucket_update r" "\<lambda>r _. minioBucket_create r"
  b_ObjectMeta "\<lambda>b m. b\<lparr>b_ObjectMeta := m\<rparr>" bucketStatusSet bucketSame
  quietBuckets "\<lambda>b. bs_Migrate (b_Spec b)" bucketNamed bucketPresent otherBuckets "\<lambda>_ _ _. True" True
  bucketPossible "\<lambda>k l. fst k \<noteq> fst l"
proof (unfold_locales, goal_cases)
  case prems: 2
  show ?case unfolding bucketPresent_def otherBuckets_apart [OF prems(2) prems(1)] ..
next
  case prems: 4
  show ?case unfolding bucketPossible_def otherBuckets_apart [OF prems(2) prems(1)] ..
qed (auto intro: minioBucket_preserves)

interpretation group_shared: shared minioGroupReconciler_Reconcile minioGroup_pass
  minioGroup_delete minioGroup_addFinalizer "\<lambda>r _. minioGroup_update r" "\<lambda>r _. minioGroup_create r"
  g_ObjectMeta "\<lambda>g m. g\<lparr>g_ObjectMeta := m\<rparr>" groupStatusSet groupSame
  quietGroups "\<lambda>g. gs_Migrate (g_Spec g)" groupNamed groupPresent otherGroups "\<lambda>_ _ _. True" True
  groupPossible "(\<noteq>)"
  by unfold_locales (auto simp: groupPresent_def groupPossible_def otherGroups_eq intro: minioGroup_preserves)

interpretation member_shared: shared minioGroupBindingReconciler_Reconcile
  minioGroupBinding_pass minioGroupBinding_delete minioGroupBinding_addFinalizer
  "\<lambda>r _. minioGroupBinding_update r" "\<lambda>r _. minioGroupBinding_create r"
  gb_ObjectMeta "\<lambda>x m. x\<lparr>gb_ObjectMeta := m\<rparr>" groupBindingStatusSet groupBindingSame
  quietMembers "\<lambda>gb. gbs_Migrate (gb_Spec gb)" memberNamed memberPresent otherMembers "\<lambda>_ _ _. True" True
  memberPossible "(\<noteq>)"
  by unfold_locales (auto simp: member_tenant intro: minioGroupBinding_preserves)

lemma otherPolicies_apart:
  "otherPolicies d k s' = otherPolicies d k s \<Longrightarrow> n \<noteq> fst k \<Longrightarrow> ts_policies s' n = ts_policies s n"
  unfolding otherPolicies_eq by (metis fun_upd_other)

interpretation policy_shared: shared minioPolicyReconciler_Reconcile minioPolicy_pass
  minioPolicy_delete minioPolicy_addFinalizer "\<lambda>r _. minioPolicy_update r"
  "\<lambda>r _. minioPolicy_create r" p_ObjectMeta "\<lambda>x m. x\<lparr>p_ObjectMeta := m\<rparr>" policyStatusSet policySame
  quietPolicies "\<lambda>p. pos_Migrate (p_Spec p)" policyNamed policyPresent otherPolicies policyExact True
  policyPossible "\<lambda>n m. fst n \<noteq> fst m"
proof (unfold_locales, goal_cases)
  case (2 n m s' s)
  then show ?case by (simp add: policyPresent_def otherPolicies_apart)
next
  case (3 n m s' s c)
  then show ?case by (simp add: policyExact_def otherPolicies_apart)
next
  case (4 n m s' s d)
  then show ?case by (simp add: policyPossible_def otherPolicies_eq)
qed (rule minioPolicy_preserves)

interpretation binding_shared: shared minioPolicyBindingReconciler_Reconcile
  minioPolicyBinding_pass minioPolicyBinding_delete minioPolicyBinding_addFinalizer
  "\<lambda>r _. minioPolicyBinding_update r" "\<lambda>r _. minioPolicyBinding_create r"
  pb_ObjectMeta "\<lambda>x m. x\<lparr>pb_ObjectMeta := m\<rparr>" policyBindingStatusSet policyBindingSame
  "quietAttachments dn base" "\<lambda>pb. pbs_Migrate (pb_Spec pb)" "bindingNamed dn base" bindingPresent
  otherBindings "\<lambda>_ _ _. True" False bindingPossible "(\<noteq>)"
  for dn base
  by unfold_locales (auto simp: binding_tenant bindingPossible_def hasIdentity_def intro: minioPolicyBinding_preserves)

interpretation user_shared: shared minioUserReconciler_Reconcile minioUser_pass
  minioUser_delete minioUser_addFinalizer minioUser_update minioUser_create
  u_ObjectMeta "\<lambda>x m. x\<lparr>u_ObjectMeta := m\<rparr>" userStatusSet userSame
  quietUsers "\<lambda>u. us_Migrate (u_Spec u)" userNamed userPresent otherUsers "\<lambda>_ _ _. True" True
  "\<lambda>_ _ _. True" "(\<noteq>)"
  by unfold_locales (auto simp: userPresent_def otherUsers_eq intro: minioUser_preserves)

section \<open>A family of sample clusters\<close>

lemma sampleFamily_together:
  assumes "\<And>i. envKeeps (\<lambda>w. fst w i) E"
  shows "together (sampleFamily metaOf tn E)"
  using assms
  by (auto simp: together_def leavesAlone_def opKeeps_def sampleFamily_def sampleAt_def split: option.split)

text \<open>The sample tenant serves requests without touching what the API server stores.\<close>

lemma tenantEnv_keeps: "envKeeps (\<lambda>w. f (fst w)) (tenantEnv dn)"
  by (simp add: envKeeps_def opKeeps_def tenantEnv_def anyWorldEnv_def split: prod.split)

lemma tenant_together: "together (sampleFamily metaOf tenantView (tenantEnv dn))"
  by (rule sampleFamily_together) (rule tenantEnv_keeps)

lemma quietUsers_family: "quietUsers (sampleFamily u_ObjectMeta tenantView (tenantEnv dn) i)"
  unfolding sampleFamily_def by (rule quietUsers_sample) simp

lemma quietMembers_family: "quietMembers (sampleFamily gb_ObjectMeta tenantView (tenantEnv dn) i)"
  unfolding sampleFamily_def by (rule quietMembers_sample) simp

section \<open>Properties\<close>

text \<open>
  Users settle in any order: whatever the order in which the passes of the MinioUsers of a tenant are
  run, each user is in the tenant and recorded after the second of its own passes (unless it existed
  before and the spec does not ask to migrate it), and one that is being deleted is gone with its
  user. No user that none of them names is added or removed.
\<close>

theorem users_settle_in_any_order:
  assumes "together c" and "\<And>i. quietUsers (c i)" and "inj n"
    and "\<And>i. cl_store (c i) w = Some (u i)" and "\<And>i. userNamed (n i) (u i)"
    and "\<And>i. inOrder u_ObjectMeta userStatusSet (u i)"
    and "w' = runs minioUserReconciler_Reconcile c schedule w"
    and "U = ts_users (cl_tenant (c i) w)" and "U' = ts_users (cl_tenant (c i) w')"
  shows "(\<forall>m. m \<notin> range n \<longrightarrow> (m \<in> U' \<longleftrightarrow> m \<in> U)) \<and>
    (2 \<le> count_list schedule i \<longrightarrow> timeIsZero (om_DeletionTimestamp (u_ObjectMeta (u i))) \<longrightarrow>
      (n i \<in> U \<longrightarrow> userStatusSet (u i) \<or> us_Migrate (u_Spec (u i))) \<longrightarrow>
      n i \<in> U' \<and> stored (c i) (\<lambda>y. userNamed (n i) y \<and> userStatusSet y) w') \<and>
    (2 \<le> count_list schedule i \<longrightarrow> \<not> timeIsZero (om_DeletionTimestamp (u_ObjectMeta (u i))) \<longrightarrow>
      cl_store (c i) w' = None \<and> (userStatusSet (u i) \<longrightarrow> n i \<notin> U'))"
proof -
  have apart: "i \<noteq> j \<Longrightarrow> n i \<noteq> n j" for i j using assms(3) by (simp add: inj_eq)
  have o: "orderly u_ObjectMeta userStatusSet userNamed (c i) (n i) w" for i
    using assms(4-6) by (simp add: orderly_def)
  have "m \<in> U' \<longleftrightarrow> m \<in> U" if "m \<notin> range n" for m
    using user_shared.runs_others [OF assms(1,2) o apart, of m i schedule] that
    unfolding assms(7-9) userPresent_def ableOf_def by blast
  moreover note user_shared.runs_settle [OF assms(1,2) apart assms(4-7) TrueI]
  ultimately show ?thesis by (simp add: assms(8,9) userPresent_def)
qed

definition twoUsers :: "bool \<Rightarrow> MinioUser" where
  "twoUsers i = (if i then sampleUser None
     else (sampleUser (Some sampleUserSpec))\<lparr>u_ObjectMeta := deletedMeta ''v'',
       u_Spec := sampleUserSpec\<lparr>us_AccessKey := ''BK''\<rparr>,
       u_Status := \<lparr>ust_Synced = None, ust_CurrentSpec = Some (sampleUserSpec\<lparr>us_AccessKey := ''BK''\<rparr>),
         ust_CurrentSecretKeyRefResourceVersion = ''1''\<rparr>\<rparr>)"

theorem users_settle_in_any_order_witness:
  "let w' = runs minioUserReconciler_Reconcile (sampleFamily u_ObjectMeta tenantView (tenantEnv id))
       [True, False, False, True] (\<lambda>i. Some (twoUsers i), emptyTenant\<lparr>td_users := [''BK'', ''CK'']\<rparr>);
     U' = set (td_users (snd w')) in
   ''AK'' \<in> U' \<and> ''BK'' \<notin> U' \<and> ''CK'' \<in> U' \<and> fst w' False = None"
proof -
  let ?n = "\<lambda>i. if i then ''AK'' else ''BK''" and ?s = "[True, False, False, True]"
  let ?w = "(\<lambda>i. Some (twoUsers i), emptyTenant\<lparr>td_users := [''BK'', ''CK'']\<rparr>)"
    and ?c = "sampleFamily u_ObjectMeta tenantView (tenantEnv id)"
  let ?w' = "runs minioUserReconciler_Reconcile ?c ?s ?w"
  have n: "inj ?n" by (auto simp: inj_def)
  have u: "userNamed (?n i) (twoUsers i)" "inOrder u_ObjectMeta userStatusSet (twoUsers i)" for i
    by (simp_all add: twoUsers_def userNamed_def inOrder_def heldOnly_def userCurrent_def)
      (simp_all add: sampleUser_def)
  have st: "cl_store (?c i) ?w = Some (twoUsers i)" for i by simp
  note t = users_settle_in_any_order [OF tenant_together quietUsers_family n st u refl refl refl, where schedule = ?s]
  have "''AK'' \<in> set (td_users (snd ?w'))" using t [of True] by (simp add: twoUsers_def)
  moreover have "''CK'' \<in> set (td_users (snd ?w'))" using t [of True] by (simp add: image_iff)
  moreover have "''BK'' \<notin> set (td_users (snd ?w'))" "fst ?w' False = None"
    using t [of False] by (simp_all add: twoUsers_def userStatusSet_def userCurrent_def)
  ultimately show ?thesis by (simp add: Let_def)
qed

text \<open>
  Memberships settle in any order: whatever the order in which the passes of the
  MinioGroupBindings of a tenant are run, if their groups and users exist, each membership is there and
  recorded after the second pass of its own binding (unless it existed before and the spec does not ask
  to migrate it), and a binding that is being deleted is gone with its membership; bindings of the same
  group do not disturb each other, and no membership that none of them names is added or removed.
\<close>

theorem memberships_settle_in_any_order:
  assumes "together c" and "\<And>i. quietMembers (c i)" and "inj n"
    and "\<And>i. cl_store (c i) w = Some (gb i)" and "\<And>i. memberNamed (n i) (gb i)"
    and "\<And>i. inOrder gb_ObjectMeta groupBindingStatusSet (gb i)"
    and "w' = runs minioGroupBindingReconciler_Reconcile c schedule w"
    and "\<And>i. memberPossible (\<not> timeIsZero (om_DeletionTimestamp (gb_ObjectMeta (gb i)))) (n i) (cl_tenant (c i) w)"
    and "M = ts_members (cl_tenant (c i) w)" and "M' = ts_members (cl_tenant (c i) w')"
  shows "(\<forall>m. m \<notin> range n \<longrightarrow> (m \<in> M' \<longleftrightarrow> m \<in> M)) \<and>
    (2 \<le> count_list schedule i \<longrightarrow> timeIsZero (om_DeletionTimestamp (gb_ObjectMeta (gb i))) \<longrightarrow>
      (n i \<in> M \<longrightarrow> groupBindingStatusSet (gb i) \<or> gbs_Migrate (gb_Spec (gb i))) \<longrightarrow>
      n i \<in> M' \<and> stored (c i) (\<lambda>y. memberNamed (n i) y \<and> groupBindingStatusSet y) w') \<and>
    (2 \<le> count_list schedule i \<longrightarrow> \<not> timeIsZero (om_DeletionTimestamp (gb_ObjectMeta (gb i))) \<longrightarrow>
      cl_store (c i) w' = None \<and> (groupBindingStatusSet (gb i) \<longrightarrow> n i \<notin> M'))"
proof -
  have apart: "i \<noteq> j \<Longrightarrow> n i \<noteq> n j" for i j using assms(3) by (simp add: inj_eq)
  have o: "orderly gb_ObjectMeta groupBindingStatusSet memberNamed (c i) (n i) w" for i
    using assms(4-6) by (simp add: orderly_def)
  have able: "ableOf gb_ObjectMeta memberPossible (c i) (n i) w" for i
    using assms(4,8) by (simp add: ableOf_def)
  have "m \<in> M' \<longleftrightarrow> m \<in> M" if "m \<notin> range n" for m
    using member_shared.runs_others [OF assms(1,2) o apart able, of m i schedule] that
    unfolding assms(7,9,10) memberPresent_def by blast
  moreover note member_shared.runs_settle [OF assms(1,2) apart assms(4-8)]
  ultimately show ?thesis by (simp add: assms(9,10) memberPresent_def)
qed

text \<open>Two bindings of one group; the second is applied and being deleted.\<close>

definition twoBindings :: "bool \<Rightarrow> MinioGroupBinding" where
  "twoBindings i = (if i then sampleGroupBinding None
     else (sampleGroupBinding (Some (sampleGroupBindingSpec\<lparr>gbs_User := ''v''\<rparr>)))\<lparr>
       gb_ObjectMeta := deletedMeta ''v'', gb_Spec := sampleGroupBindingSpec\<lparr>gbs_User := ''v''\<rparr>\<rparr>)"

theorem memberships_settle_in_any_order_witness:
  "let w' = runs minioGroupBindingReconciler_Reconcile (sampleFamily gb_ObjectMeta tenantView (tenantEnv id))
       [True, False, False, True] (\<lambda>i. Some (twoBindings i), memberData [(''g'', ''v''), (''g'', ''x'')]) in
   (''g'', ''u'') \<in> set (td_members (snd w')) \<and> (''g'', ''v'') \<notin> set (td_members (snd w')) \<and> (''g'', ''x'') \<in> set (td_members (snd w')) \<and>
   fst w' False = None"
proof -
  let ?n = "\<lambda>i. (''g'', if i then ''u'' else ''v'')" and ?s = "[True, False, False, True]"
  let ?w = "(\<lambda>i. Some (twoBindings i), memberData [(''g'', ''v''), (''g'', ''x'')])"
    and ?c = "sampleFamily gb_ObjectMeta tenantView (tenantEnv id)"
  let ?w' = "runs minioGroupBindingReconciler_Reconcile ?c ?s ?w"
  have n: "inj ?n" by (auto simp: inj_def)
  have u: "memberNamed (?n i) (twoBindings i)" "inOrder gb_ObjectMeta groupBindingStatusSet (twoBindings i)" for i
    by (simp_all add: twoBindings_def memberNamed_def inOrder_def heldOnly_def groupBindingCurrent_def
        membership_def)
      (simp_all add: sampleGroupBinding_def sampleGroupBindingSpec_def)
  have st: "cl_store (?c i) ?w = Some (twoBindings i)" for i by simp
  have d: "groupBindingStatusSet (twoBindings False)"
      "\<not> timeIsZero (om_DeletionTimestamp (gb_ObjectMeta (twoBindings False)))"
    by (simp_all add: twoBindings_def groupBindingStatusSet_def groupBindingCurrent_def)
      (simp add: sampleGroupBinding_def)
  note t = memberships_settle_in_any_order [OF tenant_together quietMembers_family n st u refl _ refl refl, where schedule = ?s]
  have "(''g'', ''u'') \<in> set (td_members (snd ?w'))" using t [of True] by (simp add: twoBindings_def)
  moreover have "(''g'', ''x'') \<in> set (td_members (snd ?w'))" using t [of True] by (simp add: image_iff)
  moreover have "(''g'', ''v'') \<notin> set (td_members (snd ?w'))" "fst ?w' False = None"
    using t [of False] d by simp_all
  ultimately show ?thesis by (simp add: Let_def)
qed

end
