(* ===== verification/Composition.thy ===== *)
theory Composition
  imports Interleaving
begin

text \<open>
  Resources of different kinds in one tenant: users, groups, memberships, policies and attached
  policies, which depend on each other, reconciled in an order that nobody controls. The locale
  \<open>composed\<close> states what such a system is made of (steps of its parts that follow the abstract
  machine when what they depend on is there, wait when it is not, and leave each other alone) and
  shows that in every fair schedule every part settles. The interpretation takes the five reconcilers
  over one tenant. Nothing is being deleted here; deletions are the subject of \<open>Interleaving\<close>.
\<close>

section \<open>Parts that wait for each other\<close>

text \<open>A resource that waits: it is not applied yet, or there is none; and what a pass makes of it.\<close>

fun waiting :: "phase \<times> bool \<Rightarrow> bool" where
  "waiting (New m, b) = True"
| "waiting (Held m, b) = True"
| "waiting (Gone, b) = True"
| "waiting (p, b) = False"

fun hold :: "phase \<times> bool \<Rightarrow> phase \<times> bool" where
  "hold (New m, b) = (Held m, b)"
| "hold (p, b) = (p, b)"

lemma hold_simps [simp]:
  "waiting (hold v) = waiting v" "settles (hold v) = settles v" "snd (hold v) = snd v" "closing (hold v) = closing v"
  by (cases v rule: waiting.cases; simp)+

lemma ideal_open:
  "settles v \<Longrightarrow> settles (idealStep f v)"
  "\<not> closing v \<Longrightarrow> \<not> closing (idealStep f v)"
  "\<not> closing v \<Longrightarrow> snd v \<Longrightarrow> snd (idealStep f v)"
  by (cases v rule: settles.cases; simp)+

lemma ideal_settles_on: "settles v \<Longrightarrow> settles ((idealStep f ^^ k) v)"
  by (induction k) (simp_all add: ideal_open)

locale composed =
  fixes step :: "'i \<Rightarrow> 'w \<Rightarrow> 'w"
    and view :: "'i \<Rightarrow> 'w \<Rightarrow> phase \<times> bool"
    and able :: "'i \<Rightarrow> 'w \<Rightarrow> bool"
    and provided :: "'i \<Rightarrow> 'w \<Rightarrow> bool"
    and sound :: "'w \<Rightarrow> bool"
    and forgiving :: "'i \<Rightarrow> bool"
    and needs :: "'i \<Rightarrow> 'i set"
    and rank :: "'i \<Rightarrow> nat"
  assumes sound_step: "sound w \<Longrightarrow> sound (step j w)"
    and sound_open: "sound w \<Longrightarrow> \<not> closing (view i w)"
    and own_step: "sound w \<Longrightarrow> view i (step i w) = (if able i w then idealStep (forgiving i) (view i w) else hold (view i w))"
    and other_step: "sound w \<Longrightarrow> i \<noteq> j \<Longrightarrow> view i (step j w) = view i w"
    and able_step: "sound w \<Longrightarrow> able i w \<Longrightarrow> able i (step j w)"
    and provided_step: "sound w \<Longrightarrow> provided i w \<Longrightarrow> provided i (step j w)"
    and needs_met: "sound w \<Longrightarrow> provided i w \<Longrightarrow> (\<And>j. j \<in> needs i \<Longrightarrow> snd (view j w)) \<Longrightarrow> able i w"
    and needs_finite: "finite (needs i)"
    and needs_rank: "j \<in> needs i \<Longrightarrow> rank j < rank i"
begin

abbreviation run :: "'i list \<Rightarrow> 'w \<Rightarrow> 'w" where
  "run schedule w \<equiv> fold step schedule w"

lemma run_sound: "sound w \<Longrightarrow> sound (run schedule w)"
  by (induction schedule arbitrary: w) (simp_all add: sound_step)

lemma run_keeps: "sound w \<Longrightarrow> able i w \<Longrightarrow> able i (run schedule w)" "sound w \<Longrightarrow> provided i w \<Longrightarrow> provided i (run schedule w)"
  by (induction schedule arbitrary: w) (simp_all add: sound_step able_step provided_step)

lemma step_keeps:
  assumes "sound w"
  shows "snd (view i w) \<Longrightarrow> snd (view i (step j w))" and "settles (view i w) \<Longrightarrow> settles (view i (step j w))"
proof -
  show "snd (view i w) \<Longrightarrow> snd (view i (step j w))"
    by (cases "i = j") (simp_all add: own_step other_step assms ideal_open sound_open)
  show "settles (view i w) \<Longrightarrow> settles (view i (step j w))"
    by (cases "i = j") (simp_all add: own_step other_step assms ideal_open)
qed

lemma run_present: "sound w \<Longrightarrow> snd (view i w) \<Longrightarrow> snd (view i (run schedule w))"
  by (induction schedule arbitrary: w) (simp_all add: sound_step step_keeps)

lemma run_settles: "sound w \<Longrightarrow> settles (view i w) \<Longrightarrow> settles (view i (run schedule w))"
  by (induction schedule arbitrary: w) (simp_all add: sound_step step_keeps)

lemma run_gone: "sound w \<Longrightarrow> view i w = (Gone, b) \<Longrightarrow> view i (run schedule w) = (Gone, b)"
proof (induction schedule arbitrary: w)
  case (Cons j schedule)
  then have "view i (step j w) = (Gone, b)" by (cases "i = j") (simp_all add: own_step other_step)
  with Cons show ?case by (simp add: sound_step)
qed simp

text \<open>A part that is able makes one step of the machine in each pass of its own.\<close>

lemma run_machine:
  assumes "sound w" and "able i w"
  shows "view i (run schedule w) = (idealStep (forgiving i) ^^ count_list schedule i) (view i w)"
  using assms
proof (induction schedule arbitrary: w)
  case (Cons j schedule)
  then have IH: "view i (run schedule (step j w)) = (idealStep (forgiving i) ^^ count_list schedule i) (view i (step j w))"
    by (simp add: sound_step able_step)
  show ?case
  proof (cases "j = i")
    case True
    then show ?thesis
      using IH Cons.prems by (simp add: own_step funpow_Suc_right del: funpow.simps(2))
  next
    case False
    then show ?thesis using IH Cons.prems other_step [of w i j] by simp
  qed
qed simp

lemma run_applied:
  assumes "sound w" and "able i w" and "settles (view i w)" and "2 \<le> count_list schedule i"
  shows "view i (run schedule w) = (Applied, True)"
  by (simp add: run_machine [OF assms(1,2)] ideal_settles [OF assms(3,4)])

end

section \<open>Fair schedules\<close>

text \<open>An endless schedule, and the world after its first \<open>n\<close> passes.\<close>

definition after :: "('i \<Rightarrow> 'w \<Rightarrow> 'w) \<Rightarrow> (nat \<Rightarrow> 'i) \<Rightarrow> nat \<Rightarrow> 'w \<Rightarrow> 'w" where
  "after step schedule n w = fold step (map schedule [0..<n]) w"

definition fairTo :: "(nat \<Rightarrow> 'i) \<Rightarrow> 'i \<Rightarrow> bool" where
  "fairTo schedule i \<longleftrightarrow> (\<forall>n. \<exists>k\<ge>n. schedule k = i)"

lemma upt_split: "i \<le> k \<Longrightarrow> k \<le> n \<Longrightarrow> [i..<n] = [i..<k] @ [k..<n]"
  using upt_add_eq_append [of i k "n - k"] by simp

lemma after_from:
  "k \<le> n \<Longrightarrow> after step schedule n w = fold step (map schedule [k..<n]) (after step schedule k w)"
  by (simp add: after_def upt_split [of 0 k n])

lemma fair_twice:
  assumes "fairTo schedule i"
  obtains m where "k \<le> m" and "\<And>n. m \<le> n \<Longrightarrow> 2 \<le> count_list (map schedule [k..<n]) i"
proof -
  obtain a where a: "k \<le> a" "schedule a = i" using assms by (auto simp: fairTo_def)
  obtain b where b: "Suc a \<le> b" "schedule b = i" using assms unfolding fairTo_def by blast
  have "2 \<le> count_list (map schedule [k..<n]) i" if n: "Suc b \<le> n" for n
  proof -
    have "[k..<n] = [k..<a] @ a # [Suc a..<b] @ b # [Suc b..<n]"
      using upt_split [of k a n] upt_split [of "Suc a" b n] a(1) b(1) n by (simp add: upt_conv_Cons)
    then show ?thesis using a(2) b(2) by simp
  qed
  then show ?thesis using a(1) b(1) by (intro that [of "Suc b"]) auto
qed

text \<open>
  In a fair schedule a part whose needs are met, or are parts that settle, settles and stays so. By
  induction on the rank: from some pass on all its needs are there, so it is able, and two passes of its
  own later it is applied.
\<close>

context composed
begin

abbreviation at :: "(nat \<Rightarrow> 'i) \<Rightarrow> 'w \<Rightarrow> nat \<Rightarrow> 'w" where
  "at schedule w n \<equiv> after step schedule n w"

lemma at_sound: "sound w \<Longrightarrow> sound (at schedule w n)"
  by (simp add: after_def run_sound)

lemma at_present: "sound w \<Longrightarrow> snd (view i (at schedule w k)) \<Longrightarrow> k \<le> n \<Longrightarrow> snd (view i (at schedule w n))"
  by (simp add: after_from [of k n] run_present at_sound)

lemma needs_eventually:
  assumes "sound w" and "\<And>j. j \<in> needs i \<Longrightarrow> \<exists>k. snd (view j (at schedule w k))"
  shows "\<exists>k. \<forall>j\<in>needs i. snd (view j (at schedule w k))"
proof -
  obtain f where f: "\<And>j. j \<in> needs i \<Longrightarrow> snd (view j (at schedule w (f j)))" using assms(2) by metis
  have "f j \<le> Max (f ` needs i)" if "j \<in> needs i" for j using that needs_finite by simp
  then show ?thesis using at_present [OF assms(1) f] by blast
qed

lemma fair_settles:
  assumes "sound w" and "\<And>i. i \<in> R \<Longrightarrow> settles (view i w) \<and> provided i w \<and> fairTo schedule i"
    and "\<And>i j. i \<in> R \<Longrightarrow> j \<in> needs i \<Longrightarrow> j \<in> R \<or> snd (view j w)" and "i \<in> R"
  shows "\<exists>m. \<forall>n\<ge>m. view i (at schedule w n) = (Applied, True)"
  using assms(4)
proof (induction "rank i" arbitrary: i rule: less_induct)
  case less
  have "\<exists>k. snd (view j (at schedule w k))" if j: "j \<in> needs i" for j
  proof (cases "j \<in> R")
    case True
    then obtain m where "\<forall>n\<ge>m. view j (at schedule w n) = (Applied, True)"
      using less(1) needs_rank [OF j] by blast
    then show ?thesis by (intro exI [of _ m]) simp
  next
    case False
    then have "snd (view j (at schedule w 0))" using assms(3) less(2) j by (auto simp: after_def)
    then show ?thesis ..
  qed
  then obtain k where k: "\<And>j. j \<in> needs i \<Longrightarrow> snd (view j (at schedule w k))"
    using needs_eventually [OF assms(1)] by blast
  let ?w = "at schedule w k"
  have w: "sound ?w" "provided i ?w" "settles (view i ?w)"
    using assms(1,2) less(2) by (simp_all add: after_def run_sound run_keeps run_settles)
  obtain m where m: "k \<le> m" "\<And>n. m \<le> n \<Longrightarrow> 2 \<le> count_list (map schedule [k..<n]) i"
    using assms(2) [OF less(2)] fair_twice by metis
  have "view i (at schedule w n) = (Applied, True)" if "m \<le> n" for n
    unfolding after_from [OF order_trans [OF m(1) that]]
    by (rule run_applied [OF w(1) needs_met [OF w(1,2) k] w(3) m(2) [OF that]])
  then show ?case by blast
qed

lemma fair_settles_all:
  assumes "sound w" and "finite R" and "\<And>i. i \<in> R \<Longrightarrow> settles (view i w) \<and> provided i w \<and> fairTo schedule i"
    and "\<And>i j. i \<in> R \<Longrightarrow> j \<in> needs i \<Longrightarrow> j \<in> R \<or> snd (view j w)"
  shows "\<exists>m. \<forall>n\<ge>m. \<forall>i\<in>R. view i (at schedule w n) = (Applied, True)"
proof -
  have "\<exists>m. \<forall>n\<ge>m. view i (at schedule w n) = (Applied, True)" if "i \<in> R" for i
    by (rule fair_settles [OF assms(1) assms(3,4) that])
  then obtain f where f: "\<And>i n. i \<in> R \<Longrightarrow> f i \<le> n \<Longrightarrow> view i (at schedule w n) = (Applied, True)" by metis
  have "f i \<le> Max (f ` R)" if "i \<in> R" for i using that assms(2) by simp
  then show ?thesis using f by (meson order_trans)
qed

end

section \<open>A pass over a resource that is not being deleted\<close>

text \<open>
  Whether it is able or waits, the pass follows the machine or holds the resource, and changes nothing
  else in the tenant.
\<close>

context settling
begin

lemma step_open:
  assumes "quiet c" and "inorder c n w" and "\<not> closing (view c n w)"
    and "possible False n (cl_tenant c w) \<or> waiting (view c n w)"
  shows "inorder c n (stepOf reconcile c w) \<and>
    view c n (stepOf reconcile c w) =
      (if possible False n (cl_tenant c w) then idealStep forgiving (view c n w) else hold (view c n w)) \<and>
    others False n (cl_tenant c (stepOf reconcile c w)) = others False n (cl_tenant c w)"
proof (cases "possible False n (cl_tenant c w)")
  case True
  have "able c n w"
    unfolding ableOf_def
  proof (intro allI impI)
    fix x assume "cl_store c w = Some x"
    with assms(3) have "timeIsZero (om_DeletionTimestamp (metaOf x))" by (simp add: closing_deleted)
    with True show "possible (\<not> timeIsZero (om_DeletionTimestamp (metaOf x))) n (cl_tenant c w)" by simp
  qed
  from step_machine [OF assms(1,2) this] show ?thesis using True assms(3) by simp
next
  case False
  then consider (gone) b where "view c n w = (Gone, b)" | (waits) m b where "view c n w = (New m, b) \<or> view c n w = (Held m, b)"
    using assms(4) by (cases "view c n w" rule: waiting.cases) auto
  then show ?thesis
  proof cases
    case gone
    then have "cl_store c w = None" by (auto simp: viewOf_def phaseOf_def split: option.splits if_splits)
    from step_gone [OF assms(1) this] show ?thesis
      using False gone assms(2) by (simp add: keeps_def orderly_def viewOf_def)
  next
    case waits
    from step_waits [OF assms(1,2) False waits] show ?thesis using False waits by auto
  qed
qed

end

section \<open>The resources of a tenant\<close>

text \<open>
  A resource is named by what it manages in the tenant. A manager has a cluster for each name, the
  content that each policy is to have, and what it knows of LDAP (\<open>quietAttachments\<close>). An object that does not
  exist is a cluster without a stored object.
\<close>

datatype resource =
    AUser string
  | AGroup string
  | AMember "string \<times> string"
  | APolicy string
  | ABinding attached

record 'w manager =
  ma_user :: "string \<Rightarrow> ('w, MinioUser, tenantState) cluster"
  ma_group :: "string \<Rightarrow> ('w, MinioGroup, tenantState) cluster"
  ma_member :: "string \<times> string \<Rightarrow> ('w, MinioGroupBinding, tenantState) cluster"
  ma_policy :: "string \<Rightarrow> ('w, MinioPolicy, tenantState) cluster"
  ma_binding :: "attached \<Rightarrow> ('w, MinioPolicyBinding, tenantState) cluster"
  ma_tenant :: "'w \<Rightarrow> tenantState"
  ma_content :: "string \<Rightarrow> content"
  ma_dn :: "string \<Rightarrow> string"
  ma_base :: string

definition passOver :: "'w manager \<Rightarrow> resource \<Rightarrow> 'w \<Rightarrow> 'w" where
  "passOver M r = (case r of
       AUser n \<Rightarrow> stepOf minioUserReconciler_Reconcile (ma_user M n)
     | AGroup n \<Rightarrow> stepOf minioGroupReconciler_Reconcile (ma_group M n)
     | AMember n \<Rightarrow> stepOf minioGroupBindingReconciler_Reconcile (ma_member M n)
     | APolicy n \<Rightarrow> stepOf minioPolicyReconciler_Reconcile (ma_policy M n)
     | ABinding n \<Rightarrow> stepOf minioPolicyBindingReconciler_Reconcile (ma_binding M n))"

definition resourcePresent :: "resource \<Rightarrow> tenantState \<Rightarrow> bool" where
  "resourcePresent r s = (case r of
       AUser n \<Rightarrow> n \<in> ts_users s
     | AGroup n \<Rightarrow> n \<in> ts_groups s
     | AMember n \<Rightarrow> n \<in> ts_members s
     | APolicy n \<Rightarrow> n \<in> dom (ts_policies s)
     | ABinding n \<Rightarrow> n \<in> ts_attached s)"

definition resourceView :: "'w manager \<Rightarrow> resource \<Rightarrow> 'w \<Rightarrow> phase \<times> bool" where
  "resourceView M r w = (case r of
       AUser n \<Rightarrow> viewOf u_ObjectMeta userStatusSet (\<lambda>u. us_Migrate (u_Spec u)) userPresent (ma_user M n) n w
     | AGroup n \<Rightarrow> viewOf g_ObjectMeta groupStatusSet (\<lambda>g. gs_Migrate (g_Spec g)) groupPresent (ma_group M n) n w
     | AMember n \<Rightarrow> viewOf gb_ObjectMeta groupBindingStatusSet (\<lambda>gb. gbs_Migrate (gb_Spec gb)) memberPresent
         (ma_member M n) n w
     | APolicy n \<Rightarrow> viewOf p_ObjectMeta policyStatusSet (\<lambda>p. pos_Migrate (p_Spec p)) policyPresent
         (ma_policy M n) (n, ma_content M n) w
     | ABinding n \<Rightarrow> viewOf pb_ObjectMeta policyBindingStatusSet (\<lambda>pb. pbs_Migrate (pb_Spec pb)) bindingPresent
         (ma_binding M n) n w)"

definition resourceOrderly :: "'w manager \<Rightarrow> resource \<Rightarrow> 'w \<Rightarrow> bool" where
  "resourceOrderly M r w = (case r of
       AUser n \<Rightarrow> orderly u_ObjectMeta userStatusSet userNamed (ma_user M n) n w
     | AGroup n \<Rightarrow> orderly g_ObjectMeta groupStatusSet groupNamed (ma_group M n) n w
     | AMember n \<Rightarrow> orderly gb_ObjectMeta groupBindingStatusSet memberNamed (ma_member M n) n w
     | APolicy n \<Rightarrow> orderly p_ObjectMeta policyStatusSet policyNamed (ma_policy M n) (n, ma_content M n) w
     | ABinding n \<Rightarrow> orderly pb_ObjectMeta policyBindingStatusSet (bindingNamed (ma_dn M) (ma_base M)) (ma_binding M n) n w)"

text \<open>What a resource depends on, and what of it comes from outside: the identities of LDAP.\<close>

definition resourceNeeds :: "resource \<Rightarrow> resource set" where
  "resourceNeeds r = (case r of
       AMember (g, u) \<Rightarrow> {AGroup g, AUser u}
     | ABinding (l, p, g, u) \<Rightarrow> {APolicy p} \<union> (if l \<or> g = '''' then {} else {AGroup g}) \<union>
         (if l \<or> u = '''' then {} else {AUser u})
     | _ \<Rightarrow> {})"

definition resourceProvided :: "resource \<Rightarrow> tenantState \<Rightarrow> bool" where
  "resourceProvided r s = (case r of ABinding (l, p, g, u) \<Rightarrow> l \<longrightarrow> (g, u) \<in> ts_directory s | _ \<Rightarrow> True)"

definition resourceAble :: "resource \<Rightarrow> tenantState \<Rightarrow> bool" where
  "resourceAble r s = (case r of
       AMember n \<Rightarrow> memberPossible False n s
     | ABinding n \<Rightarrow> bindingPossible False n s
     | _ \<Rightarrow> True)"

text \<open>What a pass leaves alone in the tenant.\<close>

definition resourceOthers :: "resource \<Rightarrow> tenantState \<Rightarrow> tenantState" where
  "resourceOthers r = (case r of
       AUser n \<Rightarrow> otherUsers False n
     | AGroup n \<Rightarrow> otherGroups False n
     | AMember n \<Rightarrow> otherMembers False n
     | APolicy n \<Rightarrow> otherPolicies False (n, (NilSlice, ''''))
     | ABinding n \<Rightarrow> otherBindings False n)"

lemma resourceAble_needs:
  "resourceAble r s \<longleftrightarrow> resourceProvided r s \<and> (\<forall>j \<in> resourceNeeds r. resourcePresent j s)"
proof (cases r)
  case (ABinding n)
  obtain l p g u where "n = (l, p, g, u)" by (metis prod_cases4)
  with ABinding show ?thesis
    by (cases l; cases "g = ''''"; cases "u = ''''")
      (auto simp: resourceAble_def resourceProvided_def resourceNeeds_def resourcePresent_def
        bindingPossible_def hasIdentity_def)
qed (auto simp: resourceAble_def resourceProvided_def resourceNeeds_def resourcePresent_def memberPossible_def)

lemma resourceOthers_present:
  assumes "resourceOthers r s' = resourceOthers r s" and "i \<noteq> r"
  shows "resourcePresent i s' = resourcePresent i s"
proof (cases r)
  case (APolicy n)
  then have "m \<noteq> n \<Longrightarrow> ts_policies s' m = ts_policies s m" for m
    using assms(1) otherPolicies_apart [of False "(n, (NilSlice, ''''))" s' s m] by (simp add: resourceOthers_def)
  then show ?thesis
    using assms APolicy
    by (cases i) (auto simp: resourceOthers_def resourcePresent_def otherPolicies_eq domIff)
qed (use assms in \<open>cases i; auto simp: resourceOthers_def resourcePresent_def otherUsers_eq otherGroups_eq
    otherMembers_eq otherBindings_eq\<close>)+

lemma resourceOthers_provided:
  "resourceOthers r s' = resourceOthers r s \<Longrightarrow> resourceProvided i s' = resourceProvided i s"
  by (cases r; cases i) (auto simp: resourceOthers_def resourceProvided_def tenant_others_eq)

section \<open>A quiet manager\<close>

text \<open>The stored object of a resource, and that the services of another one leave it alone.\<close>

datatype object =
    UserObject "MinioUser option"
  | GroupObject "MinioGroup option"
  | MemberObject "MinioGroupBinding option"
  | PolicyObject "MinioPolicy option"
  | BindingObject "MinioPolicyBinding option"

definition storedObject :: "'w manager \<Rightarrow> resource \<Rightarrow> 'w \<Rightarrow> object" where
  "storedObject M r w = (case r of
       AUser n \<Rightarrow> UserObject (cl_store (ma_user M n) w)
     | AGroup n \<Rightarrow> GroupObject (cl_store (ma_group M n) w)
     | AMember n \<Rightarrow> MemberObject (cl_store (ma_member M n) w)
     | APolicy n \<Rightarrow> PolicyObject (cl_store (ma_policy M n) w)
     | ABinding n \<Rightarrow> BindingObject (cl_store (ma_binding M n) w))"

definition spares :: "'w manager \<Rightarrow> resource \<Rightarrow> ('w \<Rightarrow> 'x) \<Rightarrow> bool" where
  "spares M r f \<longleftrightarrow> (case r of
       AUser n \<Rightarrow> leavesAlone f (cl_rec (ma_user M n))
     | AGroup n \<Rightarrow> leavesAlone f (cl_rec (ma_group M n))
     | AMember n \<Rightarrow> leavesAlone f (cl_rec (ma_member M n))
     | APolicy n \<Rightarrow> leavesAlone f (cl_rec (ma_policy M n))
     | ABinding n \<Rightarrow> leavesAlone f (cl_rec (ma_binding M n)))"

text \<open>All clusters are quiet, see one tenant, and keep apart.\<close>

definition quietManager :: "'w manager \<Rightarrow> bool" where
  "quietManager M \<longleftrightarrow>
     (\<forall>n. quietUsers (ma_user M n) \<and> cl_tenant (ma_user M n) = ma_tenant M) \<and>
     (\<forall>n. quietGroups (ma_group M n) \<and> cl_tenant (ma_group M n) = ma_tenant M) \<and>
     (\<forall>n. quietMembers (ma_member M n) \<and> cl_tenant (ma_member M n) = ma_tenant M) \<and>
     (\<forall>n. quietPolicies (ma_policy M n) \<and> cl_tenant (ma_policy M n) = ma_tenant M) \<and>
     (\<forall>n. quietAttachments (ma_dn M) (ma_base M) (ma_binding M n) \<and> cl_tenant (ma_binding M n) = ma_tenant M) \<and>
     (\<forall>i j. i \<noteq> j \<longrightarrow> spares M j (storedObject M i))"

text \<open>
  Nothing is being deleted, every object is in order, and whatever is recorded has what it depends on.
\<close>

definition underWay :: "'w manager \<Rightarrow> 'w \<Rightarrow> bool" where
  "underWay M w \<longleftrightarrow> quietManager M \<and> (\<forall>r. resourceOrderly M r w \<and> \<not> closing (resourceView M r w) \<and>
     (resourceAble r (ma_tenant M w) \<or> waiting (resourceView M r w)))"

definition resourceForgiving :: "resource \<Rightarrow> bool" where
  "resourceForgiving r \<longleftrightarrow> (case r of ABinding n \<Rightarrow> False | _ \<Rightarrow> True)"

definition resourceRank :: "resource \<Rightarrow> nat" where
  "resourceRank r = (case r of AMember n \<Rightarrow> 1 | ABinding n \<Rightarrow> 1 | _ \<Rightarrow> 0)"

lemma quietManagerD:
  assumes "quietManager M"
  shows "quietUsers (ma_user M a)" "cl_tenant (ma_user M a) = ma_tenant M"
    and "quietGroups (ma_group M a)" "cl_tenant (ma_group M a) = ma_tenant M"
    and "quietMembers (ma_member M b)" "cl_tenant (ma_member M b) = ma_tenant M"
    and "quietPolicies (ma_policy M a)" "cl_tenant (ma_policy M a) = ma_tenant M"
    and "quietAttachments (ma_dn M) (ma_base M) (ma_binding M d)" "cl_tenant (ma_binding M d) = ma_tenant M"
    and "i \<noteq> j \<Longrightarrow> spares M j (storedObject M i)"
  using assms by (simp_all add: quietManager_def del: split_paired_All)

lemma resourceView_present:
  "quietManager M \<Longrightarrow> snd (resourceView M r w) = resourcePresent r (ma_tenant M w)"
  by (cases r) (auto simp: resourceView_def resourcePresent_def viewOf_def quietManagerD tenant_present)

lemma resource_cong:
  assumes "quietManager M" and "storedObject M r w' = storedObject M r w"
    and "resourcePresent r (ma_tenant M w') = resourcePresent r (ma_tenant M w)"
  shows "resourceView M r w' = resourceView M r w" and "resourceOrderly M r w' = resourceOrderly M r w"
proof -
  have "fst (resourceView M r w') = fst (resourceView M r w)"
    using assms(2) by (cases r) (simp_all add: storedObject_def resourceView_def viewOf_def)
  then show "resourceView M r w' = resourceView M r w"
    using assms(3) by (simp add: prod_eq_iff resourceView_present [OF assms(1)])
  show "resourceOrderly M r w' = resourceOrderly M r w"
    using assms(2) by (cases r) (simp_all add: storedObject_def resourceOrderly_def orderly_def)
qed

lemma spares_pass: "spares M r f \<Longrightarrow> f (passOver M r w) = f w"
  using minioUser_preserves [of f] minioGroup_preserves [of f] minioGroupBinding_preserves [of f]
    minioPolicy_preserves [of f] minioPolicyBinding_preserves [of f]
  by (cases r) (simp_all add: spares_def passOver_def stepOf_def preserves_def)

text \<open>A pass over one resource, and what it means for another.\<close>

lemma passOver_own:
  assumes "quietManager M" and "resourceOrderly M r w" and "\<not> closing (resourceView M r w)"
    and "resourceAble r (ma_tenant M w) \<or> waiting (resourceView M r w)"
  shows "resourceOrderly M r (passOver M r w) \<and>
    resourceView M r (passOver M r w) = (if resourceAble r (ma_tenant M w)
      then idealStep (resourceForgiving r) (resourceView M r w) else hold (resourceView M r w)) \<and>
    resourceOthers r (ma_tenant M (passOver M r w)) = resourceOthers r (ma_tenant M w)"
proof (cases r)
  case (AUser n)
  with user_settling.step_open [of "ma_user M n" n w] quietManagerD [OF assms(1)] assms(2-4) show ?thesis
    by (simp add: passOver_def resourceOrderly_def resourceView_def resourceAble_def resourceForgiving_def resourceOthers_def)
next
  case (AGroup n)
  with group_settling.step_open [of "ma_group M n" n w] quietManagerD [OF assms(1)] assms(2-4) show ?thesis
    by (simp add: passOver_def resourceOrderly_def resourceView_def resourceAble_def resourceForgiving_def
        resourceOthers_def groupPossible_def)
next
  case (AMember n)
  with member_settling.step_open [of "ma_member M n" n w] quietManagerD [OF assms(1)] assms(2-4) show ?thesis
    by (simp add: passOver_def resourceOrderly_def resourceView_def resourceAble_def resourceForgiving_def resourceOthers_def)
next
  case (APolicy n)
  with policy_settling.step_open [of "ma_policy M n" "(n, ma_content M n)" w] quietManagerD [OF assms(1)] assms(2-4)
  show ?thesis
    by (simp add: passOver_def resourceOrderly_def resourceView_def resourceAble_def resourceForgiving_def
        resourceOthers_def policyPossible_def otherPolicies_def)
next
  case (ABinding n)
  with binding_settling.step_open [of "ma_dn M" "ma_base M" "ma_binding M n" n w] quietManagerD [OF assms(1)] assms(2-4)
  show ?thesis
    by (simp add: passOver_def resourceOrderly_def resourceView_def resourceAble_def resourceForgiving_def resourceOthers_def)
qed

lemma passOver_other:
  assumes "underWay M w" and "i \<noteq> j"
  shows "resourceView M i (passOver M j w) = resourceView M i w"
    and "resourceOrderly M i (passOver M j w) = resourceOrderly M i w"
proof -
  from assms(1) have q: "quietManager M" by (simp add: underWay_def)
  have "storedObject M i (passOver M j w) = storedObject M i w"
    by (rule spares_pass) (rule quietManagerD [OF q], rule assms(2))
  moreover have "resourcePresent i (ma_tenant M (passOver M j w)) = resourcePresent i (ma_tenant M w)"
    using passOver_own [OF q, of j w] assms by (intro resourceOthers_present [of j]) (simp_all add: underWay_def)
  ultimately show "resourceView M i (passOver M j w) = resourceView M i w"
    "resourceOrderly M i (passOver M j w) = resourceOrderly M i w" by (rule resource_cong [OF q])+
qed

lemma passOver_present:
  assumes "underWay M w" and "resourcePresent i (ma_tenant M w)"
  shows "resourcePresent i (ma_tenant M (passOver M j w))"
proof -
  from assms(1) have q: "quietManager M" by (simp add: underWay_def)
  have "snd (resourceView M i (passOver M j w))"
  proof (cases "i = j")
    case True
    with assms passOver_own [OF q, of i w] show ?thesis
      by (simp add: underWay_def ideal_open resourceView_present [OF q, symmetric])
  next
    case False
    with assms passOver_other(1) [OF assms(1) False] show ?thesis by (simp add: resourceView_present [OF q])
  qed
  then show ?thesis by (simp add: resourceView_present [OF q])
qed

lemma passOver_provided:
  assumes "underWay M w"
  shows "resourceProvided i (ma_tenant M (passOver M j w)) = resourceProvided i (ma_tenant M w)"
  using passOver_own [of M j w] assms by (intro resourceOthers_provided [of j]) (simp add: underWay_def)

lemma passOver_able:
  "underWay M w \<Longrightarrow> resourceAble i (ma_tenant M w) \<Longrightarrow> resourceAble i (ma_tenant M (passOver M j w))"
  by (simp add: resourceAble_needs passOver_provided passOver_present)

lemma passOver_underWay:
  assumes "underWay M w"
  shows "underWay M (passOver M j w)"
  unfolding underWay_def
proof (intro conjI allI)
  show q: "quietManager M" using assms by (simp add: underWay_def)
  fix r
  from assms have r: "resourceOrderly M r w" "\<not> closing (resourceView M r w)"
      "resourceAble r (ma_tenant M w) \<or> waiting (resourceView M r w)" by (simp_all add: underWay_def)
  note able = passOver_able [OF assms, of r j]
  consider (own) "r = j" | (other) "r \<noteq> j" by blast
  then have "resourceOrderly M r (passOver M j w) \<and> \<not> closing (resourceView M r (passOver M j w)) \<and>
    (resourceAble r (ma_tenant M (passOver M j w)) \<or> waiting (resourceView M r (passOver M j w)))"
  proof cases
    case own
    from passOver_own [OF q r] show ?thesis using r able own by (auto simp: ideal_open)
  next
    case other
    from passOver_other [OF assms other] show ?thesis using r able by auto
  qed
  then show "resourceOrderly M r (passOver M j w)" "\<not> closing (resourceView M r (passOver M j w))"
    "resourceAble r (ma_tenant M (passOver M j w)) \<or> waiting (resourceView M r (passOver M j w))" by blast+
qed

interpretation tenant_composed: composed "passOver M" "resourceView M" "\<lambda>r w. resourceAble r (ma_tenant M w)"
  "\<lambda>r w. resourceProvided r (ma_tenant M w)" "underWay M" resourceForgiving resourceNeeds resourceRank
  for M
proof (unfold_locales, goal_cases)
  case (7 w i)
  then show ?case by (simp add: resourceAble_needs resourceView_present underWay_def)
next
  case (8 i)
  show ?case by (cases i) (auto simp: resourceNeeds_def)
next
  case (9 j i)
  then show ?case by (cases i) (auto simp: resourceNeeds_def resourceRank_def split: if_splits)
qed (simp_all add: passOver_underWay passOver_other passOver_able passOver_provided, auto simp: underWay_def passOver_own)

section \<open>Properties\<close>

text \<open>
  C10 - The resources of a tenant settle together: users, groups, memberships, policies and policy
  bindings that depend on each other are applied and recorded from some pass on, and stay so, in
  every fair schedule of passes, however the resources are ordered in it. A membership is held and
  waits for its group and its user, a binding for its policy and its user or group; nothing that
  is not managed by a resource is added or removed. (Nothing is being deleted, and the resources do not
  name what existed before they were made, unless they are recorded or ask to migrate.)
\<close>

theorem tenant_settles:
  assumes "underWay M w" and "finite R" and "\<And>r. r \<in> R \<Longrightarrow> settles (resourceView M r w)"
    and "\<And>r. r \<in> R \<Longrightarrow> resourceProvided r (ma_tenant M w)" and "\<And>r. r \<in> R \<Longrightarrow> fairTo schedule r"
    and "\<And>r j. r \<in> R \<Longrightarrow> j \<in> resourceNeeds r \<Longrightarrow> j \<in> R \<or> resourcePresent j (ma_tenant M w)"
  shows "(\<exists>m. \<forall>n\<ge>m. \<forall>r\<in>R. resourceView M r (after (passOver M) schedule n w) = (Applied, True) \<and>
      resourcePresent r (ma_tenant M (after (passOver M) schedule n w))) \<and>
    (\<forall>n j. fst (resourceView M j w) = Gone \<longrightarrow>
      resourcePresent j (ma_tenant M (after (passOver M) schedule n w)) = resourcePresent j (ma_tenant M w))"
proof -
  have q: "quietManager M" using assms(1) by (simp add: underWay_def)
  note view = resourceView_present [OF q]
  have "\<exists>m. \<forall>n\<ge>m. \<forall>r\<in>R. resourceView M r (after (passOver M) schedule n w) = (Applied, True)"
    by (rule tenant_composed.fair_settles_all [OF assms(1,2)]) (use assms(3-6) in \<open>simp_all add: view\<close>)
  moreover have "resourcePresent j (ma_tenant M (after (passOver M) schedule n w)) = resourcePresent j (ma_tenant M w)"
    if "fst (resourceView M j w) = Gone" for n j
  proof -
    have "resourceView M j w = (Gone, resourcePresent j (ma_tenant M w))"
      using that by (simp add: prod_eq_iff view)
    from tenant_composed.run_gone [OF assms(1) this, of "map schedule [0..<n]"] show ?thesis
      by (simp add: after_def view [symmetric])
  qed
  ultimately show ?thesis using view by (metis snd_conv)
qed

text \<open>A manager whose objects are kept in maps, and a tenant with one new resource of each kind.\<close>

record stores =
  st_users :: "string \<rightharpoonup> MinioUser"
  st_groups :: "string \<rightharpoonup> MinioGroup"
  st_members :: "string \<times> string \<rightharpoonup> MinioGroupBinding"
  st_policies :: "string \<rightharpoonup> MinioPolicy"
  st_bindings :: "attached \<rightharpoonup> MinioPolicyBinding"

definition sampleManager :: "(string \<Rightarrow> content) \<Rightarrow> (stores \<times> tenantData) manager" where
  "sampleManager content = \<lparr>
     ma_user = (\<lambda>n. tenantAt u_ObjectMeta id (\<lambda>d. st_users d n) (\<lambda>x d. d\<lparr>st_users := (st_users d)(n := x)\<rparr>)),
     ma_group = (\<lambda>n. tenantAt g_ObjectMeta id (\<lambda>d. st_groups d n) (\<lambda>x d. d\<lparr>st_groups := (st_groups d)(n := x)\<rparr>)),
     ma_member = (\<lambda>n. tenantAt gb_ObjectMeta id (\<lambda>d. st_members d n) (\<lambda>x d. d\<lparr>st_members := (st_members d)(n := x)\<rparr>)),
     ma_policy = (\<lambda>n. tenantAt p_ObjectMeta id (\<lambda>d. st_policies d n) (\<lambda>x d. d\<lparr>st_policies := (st_policies d)(n := x)\<rparr>)),
     ma_binding = (\<lambda>n. tenantAt pb_ObjectMeta id (\<lambda>d. st_bindings d n) (\<lambda>x d. d\<lparr>st_bindings := (st_bindings d)(n := x)\<rparr>)),
     ma_tenant = (\<lambda>w. tenantView (snd w)), ma_content = content, ma_dn = id, ma_base = ''ou''\<rparr>"

lemma leavesAlone_tenantAt:
  assumes "\<And>x d. f (put x d) = f d"
  shows "leavesAlone (\<lambda>w. f (fst w)) (cl_rec (tenantAt metaOf dn get put))"
  using assms tenantEnv_keeps [of f dn]
  by (auto simp: leavesAlone_def opKeeps_def sampleAt_def split: option.split)

definition objectIn :: "resource \<Rightarrow> stores \<Rightarrow> object" where
  "objectIn r d = (case r of
       AUser n \<Rightarrow> UserObject (st_users d n)
     | AGroup n \<Rightarrow> GroupObject (st_groups d n)
     | AMember n \<Rightarrow> MemberObject (st_members d n)
     | APolicy n \<Rightarrow> PolicyObject (st_policies d n)
     | ABinding n \<Rightarrow> BindingObject (st_bindings d n))"

lemma objectIn_apart:
  "r \<noteq> AUser n \<Longrightarrow> objectIn r (d\<lparr>st_users := (st_users d)(n := a)\<rparr>) = objectIn r d"
  "r \<noteq> AGroup n \<Longrightarrow> objectIn r (d\<lparr>st_groups := (st_groups d)(n := b)\<rparr>) = objectIn r d"
  "r \<noteq> AMember m \<Longrightarrow> objectIn r (d\<lparr>st_members := (st_members d)(m := e)\<rparr>) = objectIn r d"
  "r \<noteq> APolicy n \<Longrightarrow> objectIn r (d\<lparr>st_policies := (st_policies d)(n := f)\<rparr>) = objectIn r d"
  "r \<noteq> ABinding k \<Longrightarrow> objectIn r (d\<lparr>st_bindings := (st_bindings d)(k := g)\<rparr>) = objectIn r d"
  by (cases r; simp add: objectIn_def)+

lemma sampleManager_stored: "storedObject (sampleManager content) r = (\<lambda>w. objectIn r (fst w))"
  by (rule ext, cases r) (simp_all add: storedObject_def sampleManager_def objectIn_def)

lemma sampleManager_spares: "i \<noteq> j \<Longrightarrow> spares (sampleManager content) j (storedObject (sampleManager content) i)"
  unfolding sampleManager_stored
  by (cases j) (auto simp: spares_def sampleManager_def intro!: leavesAlone_tenantAt objectIn_apart)

lemma quietManager_sample: "quietManager (sampleManager content)"
  unfolding quietManager_def
proof (intro conjI allI impI sampleManager_spares, goal_cases)
  case (1 n)
  show ?case unfolding sampleManager_def manager.simps by (rule quietUsers_sample) simp
next
  case (3 n)
  show ?case unfolding sampleManager_def manager.simps by (rule quietGroups_sample) simp
next
  case (5 n)
  show ?case unfolding sampleManager_def manager.simps by (rule quietMembers_sample) simp
next
  case (7 n)
  show ?case unfolding sampleManager_def manager.simps by (rule quietPolicies_sample) simp
next
  case (9 n)
  show ?case unfolding sampleManager_def manager.simps by (rule quietAttachments_sample) simp
qed (simp_all add: sampleManager_def)

lemma sampleManager_simps [simp]:
  "ma_tenant (sampleManager C) w = tenantView (snd w)" "ma_content (sampleManager C) = C"
  "ma_dn (sampleManager C) = id" "ma_base (sampleManager C) = ''ou''"
  "cl_store (ma_user (sampleManager C) n) w = st_users (fst w) n"
  "cl_tenant (ma_user (sampleManager C) n) w = tenantView (snd w)"
  "cl_store (ma_group (sampleManager C) n) w = st_groups (fst w) n"
  "cl_tenant (ma_group (sampleManager C) n) w = tenantView (snd w)"
  "cl_store (ma_member (sampleManager C) m) w = st_members (fst w) m"
  "cl_tenant (ma_member (sampleManager C) m) w = tenantView (snd w)"
  "cl_store (ma_policy (sampleManager C) n) w = st_policies (fst w) n"
  "cl_tenant (ma_policy (sampleManager C) n) w = tenantView (snd w)"
  "cl_store (ma_binding (sampleManager C) k) w = st_bindings (fst w) k"
  "cl_tenant (ma_binding (sampleManager C) k) w = tenantView (snd w)"
  by (simp_all add: sampleManager_def)

definition newUser :: MinioUser where
  "newUser = (sampleUser None)\<lparr>u_Spec := sampleUserSpec\<lparr>us_AccessKey := ''u''\<rparr>\<rparr>"

definition newStores :: stores where
  "newStores = \<lparr>st_users = [''u'' \<mapsto> newUser], st_groups = [''g'' \<mapsto> sampleGroup None],
     st_members = [(''g'', ''u'') \<mapsto> sampleGroupBinding None], st_policies = [''p'' \<mapsto> samplePolicy None],
     st_bindings = [(False, ''p'', '''', ''u'') \<mapsto> builtinBinding None (heldMeta ''pb'')]\<rparr>"

definition newManager :: "(stores \<times> tenantData) manager" where
  "newManager = sampleManager (\<lambda>_. specContent samplePolicySpec)"

definition newResources :: "resource set" where
  "newResources = {AUser ''u'', AGroup ''g'', AMember (''g'', ''u''), APolicy ''p'', ABinding (False, ''p'', '''', ''u'')}"

text \<open>The objects are held, not recorded, and do not ask to migrate.\<close>

lemma new_objects:
  "userNamed ''u'' newUser" "inOrder u_ObjectMeta userStatusSet newUser"
  "phaseOf u_ObjectMeta userStatusSet (\<lambda>u. us_Migrate (u_Spec u)) newUser = Held False"
  "groupNamed ''g'' (sampleGroup None)" "inOrder g_ObjectMeta groupStatusSet (sampleGroup None)"
  "phaseOf g_ObjectMeta groupStatusSet (\<lambda>g. gs_Migrate (g_Spec g)) (sampleGroup None) = Held False"
  "memberNamed (''g'', ''u'') (sampleGroupBinding None)" "inOrder gb_ObjectMeta groupBindingStatusSet (sampleGroupBinding None)"
  "phaseOf gb_ObjectMeta groupBindingStatusSet (\<lambda>gb. gbs_Migrate (gb_Spec gb)) (sampleGroupBinding None) = Held False"
  "policyNamed (''p'', specContent samplePolicySpec) (samplePolicy None)"
  "inOrder p_ObjectMeta policyStatusSet (samplePolicy None)"
  "phaseOf p_ObjectMeta policyStatusSet (\<lambda>p. pos_Migrate (p_Spec p)) (samplePolicy None) = Held False"
  "phaseOf pb_ObjectMeta policyBindingStatusSet (\<lambda>pb. pbs_Migrate (pb_Spec pb)) (builtinBinding None (heldMeta ''pb'')) =
     Held False"
  by (simp_all add: newUser_def userNamed_def groupNamed_def memberNamed_def membership_def policyNamed_def inOrder_def heldOnly_def
      phaseOf_def sampleUser_def sampleUserSpec_def sampleGroup_def sampleGroupSpec_def sampleGroupBinding_def
      sampleGroupBindingSpec_def samplePolicy_def samplePolicySpec_def samplePolicyBinding_def
      samplePolicyBindingSpec_def builtinBinding_def builtinSpec_def
      userStatusSet_def userCurrent_def groupStatusSet_def groupCurrent_def groupBindingStatusSet_def
      groupBindingCurrent_def policyStatusSet_def policyCurrent_def policyBindingStatusSet_def policyBindingCurrent_def
      heldMeta_def sampleMeta_def)

lemma newManager_view:
  "resourceView newManager r (newStores, emptyTenant) = (if r \<in> newResources then Held False else Gone, False)"
  by (cases r) (auto simp: resourceView_def newManager_def newResources_def viewOf_def newStores_def tenant_present new_objects)

lemma newManager_underWay: "underWay newManager (newStores, emptyTenant)"
proof -
  have "resourceOrderly newManager r (newStores, emptyTenant)" for r
    by (cases r) (auto simp: resourceOrderly_def orderly_def newManager_def newStores_def new_objects builtinBinding_simps
        split: if_splits)
  then show ?thesis
    unfolding underWay_def newManager_view by (simp add: newManager_def quietManager_sample)
qed

text \<open>The bindings first, over and over again.\<close>

definition newSchedule :: "resource list" where
  "newSchedule = [ABinding (False, ''p'', '''', ''u''), AMember (''g'', ''u''), APolicy ''p'', AGroup ''g'', AUser ''u'']"

definition roundRobin :: "nat \<Rightarrow> resource" where
  "roundRobin n = newSchedule ! (n mod length newSchedule)"

lemma roundRobin_fair:
  assumes "r \<in> newResources"
  shows "fairTo roundRobin r"
proof -
  have "r \<in> set newSchedule" using assms by (auto simp: newResources_def newSchedule_def)
  then obtain k where k: "k < length newSchedule" "newSchedule ! k = r" by (auto simp: in_set_conv_nth)
  have len: "length newSchedule = 5" by (simp add: newSchedule_def)
  have "roundRobin (n * 5 + k) = r" for n
  proof -
    have "(n * 5 + k) mod 5 = k" using k(1) unfolding len by (subst add.commute) simp
    then show ?thesis unfolding roundRobin_def len by (simp only: k(2))
  qed
  moreover have "n \<le> n * 5 + k" for n by simp
  ultimately show ?thesis unfolding fairTo_def by blast
qed

theorem tenant_settles_witness:
  "\<exists>m. \<forall>n\<ge>m. let d = snd (after (passOver newManager) roundRobin n (newStores, emptyTenant)) in
     (''g'', ''u'') \<in> set (td_members d) \<and> (False, ''p'', '''', ''u'') \<in> set (td_attached d)"
proof -
  let ?w = "(newStores, emptyTenant)"
  have "\<exists>m. \<forall>n\<ge>m. \<forall>r\<in>newResources.
      resourceView newManager r (after (passOver newManager) roundRobin n ?w) = (Applied, True) \<and>
      resourcePresent r (ma_tenant newManager (after (passOver newManager) roundRobin n ?w))"
  proof (rule conjunct1 [OF tenant_settles [OF newManager_underWay]])
    show "finite newResources" by (simp add: newResources_def)
    show "fairTo roundRobin r" if "r \<in> newResources" for r by (rule roundRobin_fair [OF that])
    show "settles (resourceView newManager r ?w)" if "r \<in> newResources" for r using that by (simp add: newManager_view)
    show "resourceProvided r (ma_tenant newManager ?w)" if "r \<in> newResources" for r
      using that by (auto simp: newResources_def resourceProvided_def)
    show "j \<in> newResources \<or> resourcePresent j (ma_tenant newManager ?w)"
      if "r \<in> newResources" "j \<in> resourceNeeds r" for r j
      using that by (auto simp: newResources_def resourceNeeds_def)
  qed
  then show ?thesis by (auto simp: newResources_def resourcePresent_def newManager_def Let_def)
qed

end
