(* ===== verification/Faults.thy ===== *)
theory Faults
  imports Composition
begin

text \<open>
  Passes in a cluster that is not quiet: the API server may refuse what it is asked, tenants cannot be
  reached, and a request that fails may have been carried out all the same. The abstract machine
  becomes a step relation, \<open>faultStep\<close>, of which every pass is a step, whatever fails in it. The locale
  \<open>surviving\<close> extends \<open>settling\<close> by what the phases of a reconciler do in such a cluster; its lemmas say
  where an object can be after any number of such passes, and where two quiet passes lead it
  from there. An operator that dies in the middle of a pass leaves the world as one whose later requests of
  that pass all fail without effect, so it is covered too.
\<close>

section \<open>Runs that may fail anywhere\<close>

text \<open>
  The world after the run is in \<open>S\<close>, together with the value, if the run returns one, and in \<open>E\<close> if it ends
  with an error or a panic.
\<close>

definition anyRun :: "('w, 'c, 'a) m \<Rightarrow> 'w \<Rightarrow> ('a \<Rightarrow> 'w \<Rightarrow> bool) \<Rightarrow> ('w \<Rightarrow> bool) \<Rightarrow> bool" where
  "anyRun m w S E \<longleftrightarrow> (case m w of (x, w', t) \<Rightarrow> (case x of Ok a \<Rightarrow> S a w' | _ \<Rightarrow> E w'))"

lemma anyRun_ret: "S a w \<Longrightarrow> anyRun (ret a) w S E"
  by (simp add: anyRun_def ret_def)

lemma anyRun_fail: "E w \<Longrightarrow> anyRun (fail e) w S E"
  by (simp add: anyRun_def fail_def)

lemma anyRun_panic: "E w \<Longrightarrow> anyRun panic w S E"
  by (simp add: anyRun_def panic_def)

lemma anyRun_bind:
  assumes "anyRun m w R E" and "\<And>a w1. R a w1 \<Longrightarrow> anyRun (f a) w1 S E"
  shows "anyRun (bindM m f) w S E"
proof (cases "m w")
  case (fields x w1 t)
  show ?thesis
  proof (cases x)
    case (Ok a)
    with fields assms(1) have "R a w1" by (simp add: anyRun_def)
    from assms(2) [OF this] show ?thesis
      using fields Ok by (auto simp: anyRun_def bindM_def split: prod.split)
  qed (use fields assms(1) in \<open>simp_all add: anyRun_def bindM_def\<close>)
qed

lemma anyRun_weaken:
  "anyRun m w S E \<Longrightarrow> (\<And>a w'. S a w' \<Longrightarrow> S' a w') \<Longrightarrow> (\<And>w'. E w' \<Longrightarrow> E' w') \<Longrightarrow> anyRun m w S' E'"
  by (auto simp: anyRun_def split: prod.splits res.splits)

lemma anyRun_call:
  "answers (op w) (\<lambda>x w'. case x of Inl e \<Rightarrow> E w' | Inr a \<Rightarrow> S a w') \<Longrightarrow> anyRun (call c op) w S E"
  by (auto simp: anyRun_def call_def answers_def split: prod.splits sum.splits)

lemma anyRun_attempt: "answers (op w) S \<Longrightarrow> anyRun (attempt (call c op)) w S E"
  by (auto simp: anyRun_def attempt_def call_def answers_def split: prod.splits sum.splits)

lemma anyRun_callPair: "(\<And>a e w'. op w = ((a, e), w') \<Longrightarrow> S (a, e) w') \<Longrightarrow> anyRun (callPair c op) w S E"
  by (auto simp: anyRun_def callPair_def split: prod.splits)

lemma anyRun_check:
  "(err = None \<Longrightarrow> anyRun (f ()) w S E) \<Longrightarrow> (err \<noteq> None \<Longrightarrow> E w) \<Longrightarrow> anyRun (bindM (checkErr err) f) w S E"
  by (cases err) (simp_all add: checkErr_def anyRun_fail)

lemma run_if: "(b \<Longrightarrow> anyRun m w S E) \<Longrightarrow> (\<not> b \<Longrightarrow> anyRun k w S E) \<Longrightarrow> anyRun (if b then m else k) w S E"
  by simp

lemma run_lift:
  "(\<And>e. x = Inl e \<Longrightarrow> E w) \<Longrightarrow> (\<And>a. x = Inr a \<Longrightarrow> anyRun (f a) w S E) \<Longrightarrow> anyRun (bindM (liftE x) f) w S E"
  by (cases x) (simp_all add: liftE_def anyRun_fail)

lemma run_deref:
  "(p = None \<Longrightarrow> E w) \<Longrightarrow> (\<And>a. p = Some a \<Longrightarrow> anyRun (f a) w S E) \<Longrightarrow> anyRun (bindM (deref p) f) w S E"
  by (cases p) (simp_all add: deref_def anyRun_panic)

lemma run_check_if: "anyRun (f ()) w S E \<Longrightarrow> E w \<Longrightarrow> anyRun (bindM (if b then checkErr err else ret ()) f) w S E"
  by (cases b; cases err) (simp_all add: checkErr_def anyRun_fail)

lemma anyRun_preserves:
  "preserves f m \<Longrightarrow> anyRun m w (\<lambda>_ w'. f w' = f w) (\<lambda>w'. f w' = f w)"
  by (auto simp: anyRun_def dest: preservesD split: prod.splits res.splits)

lemma anyRun_world: "anyRun m w (\<lambda>_. P) P \<Longrightarrow> P (fst (snd (m w)))"
  by (auto simp: anyRun_def split: prod.splits res.splits)

lemma anyRun_success: "R w \<Longrightarrow> anyRun (success r) w (\<lambda>_. R) E"
  by (simp add: success_def anyRun_ret)

section \<open>A faulty cluster\<close>

text \<open>
  A get answers with the stored object or with an error. An update of a stored object is stored or not; if it
  is accepted, it is stored. A tenant cannot always be reached. Looking for it changes nothing.
\<close>

definition faultyApi :: "('o \<Rightarrow> ObjectMeta) \<Rightarrow> ('o \<Rightarrow> 'o \<Rightarrow> bool) \<Rightarrow> ('w, 'o, 's) cluster \<Rightarrow> bool" where
  "faultyApi metaOf same c \<longleftrightarrow>
     finalizerLists (cl_lib c) \<and>
     (\<forall>w. answers (r_Get (cl_rec c) w (cl_req c)) (\<lambda>a w'. keeps c w w' \<and>
        (\<forall>x. a = Inr x \<longrightarrow> cl_store c w = Some x))) \<and>
     (\<forall>w x. cl_store c w \<noteq> None \<longrightarrow> answers (r_Update (cl_rec c) w x) (\<lambda>a w'. cl_tenant c w' = cl_tenant c w \<and>
        ((\<exists>y. same x y \<and> cl_store c w' = (if unheld (metaOf x) then None else Some y) \<and> (\<forall>z. a = Inr z \<longrightarrow> z = y)) \<or>
         errOf a \<noteq> None \<and> cl_store c w' = cl_store c w)))"

definition looksAround :: "('w, 'o, 's) cluster \<Rightarrow> bool" where
  "looksAround c \<longleftrightarrow> infraKeeps (\<lambda>w. (cl_store c w, cl_tenant c w)) (r_env (cl_rec c))"

text \<open>
  A request that changes the tenant: if it is accepted, it has been carried out, and if the answer is an error,
  it may have been.
\<close>

definition attempts :: "('w, 'o, 's) cluster \<Rightarrow> 'w \<Rightarrow> ('s \<Rightarrow> 's) \<Rightarrow> goerr + 'a \<Rightarrow> 'w \<Rightarrow> bool" where
  "attempts c w f a w' \<longleftrightarrow> moves c w f w' \<or> errOf a \<noteq> None \<and> keeps c w w'"

text \<open>One that the tenant refuses when something is missing.\<close>

definition attemptsIf :: "bool \<Rightarrow> ('w, 'o, 's) cluster \<Rightarrow> 'w \<Rightarrow> ('s \<Rightarrow> 's) \<Rightarrow> goerr + 'a \<Rightarrow> 'w \<Rightarrow> bool" where
  "attemptsIf p c w f a w' \<longleftrightarrow> (if p then attempts c w f a w' else errOf a \<noteq> None \<and> keeps c w w')"

lemma attemptsD: "attempts c w f (Inr a) w' \<Longrightarrow> moves c w f w'"
  by (simp add: attempts_def)

lemma attempts_store: "attempts c w f a w' \<Longrightarrow> cl_store c w' = cl_store c w"
  by (auto simp: attempts_def moves_def keeps_def)

lemma faultyApi_update:
  assumes "faultyApi metaOf same c" and "cl_store c w = Some x"
  shows "answers (r_Update (cl_rec c) w z) (\<lambda>a w'. cl_tenant c w' = cl_tenant c w \<and>
    ((\<exists>y. same z y \<and> cl_store c w' = (if unheld (metaOf z) then None else Some y) \<and> (\<forall>z. a = Inr z \<longrightarrow> z = y)) \<or>
     errOf a \<noteq> None \<and> cl_store c w' = Some x))"
proof -
  have some: "cl_store c w \<noteq> None" using assms(2) by simp
  from assms(1) have "answers (r_Update (cl_rec c) w z) (\<lambda>a w'. cl_tenant c w' = cl_tenant c w \<and>
    ((\<exists>y. same z y \<and> cl_store c w' = (if unheld (metaOf z) then None else Some y) \<and> (\<forall>z. a = Inr z \<longrightarrow> z = y)) \<or>
     errOf a \<noteq> None \<and> cl_store c w' = cl_store c w))"
    unfolding faultyApi_def by (elim conjE) (drule spec, drule spec, erule mp [OF _ some])
  then show ?thesis by (simp only: assms(2))
qed

lemma faulty_update:
  assumes "faultyApi metaOf same c" and "cl_store c w = Some x" and "\<not> unheld (metaOf z)"
    and "\<And>w'. cl_store c w' = Some x \<Longrightarrow> cl_tenant c w' = cl_tenant c w \<Longrightarrow> E w'"
    and "\<And>y w'. same z y \<Longrightarrow> cl_store c w' = Some y \<Longrightarrow> cl_tenant c w' = cl_tenant c w \<Longrightarrow> E w' \<and> S y w'"
  shows "anyRun (updateObj (cl_rec c) z) w S E"
  unfolding updateObj_def
  by (intro anyRun_call answers_weaken [OF faultyApi_update [OF assms(1,2)]])
    (use assms(3-5) in \<open>auto split: sum.split\<close>)

lemma faulty_success:
  assumes "faultyApi metaOf same c" and "cl_store c w = Some x" and "\<not> unheld (metaOf z)"
    and "\<And>w'. cl_store c w' = Some x \<Longrightarrow> cl_tenant c w' = cl_tenant c w \<Longrightarrow> P w'"
    and "\<And>y w'. same z y \<Longrightarrow> cl_store c w' = Some y \<Longrightarrow> cl_tenant c w' = cl_tenant c w \<Longrightarrow> P w'"
  shows "anyRun (bindM (updateObj (cl_rec c) z) (\<lambda>_. success (cl_rec c))) w (\<lambda>_. P) P"
  by (rule anyRun_bind [OF faulty_update [OF assms(1-4), where S = "\<lambda>_. P"]]) (auto intro: assms(5) anyRun_success)

lemma faulty_release:
  assumes "faultyApi metaOf same c" and "cl_store c w = Some x" and "unheld (metaOf z)"
  shows "anyRun (bindM (updateObj (cl_rec c) z) (\<lambda>_. success (cl_rec c))) w
    (\<lambda>_ w'. cl_tenant c w' = cl_tenant c w \<and> (cl_store c w' = None \<or> cl_store c w' = Some x))
    (\<lambda>w'. cl_tenant c w' = cl_tenant c w \<and> (cl_store c w' = None \<or> cl_store c w' = Some x))"
proof (rule anyRun_bind [where R = "\<lambda>_ w'. cl_tenant c w' = cl_tenant c w \<and> (cl_store c w' = None \<or> cl_store c w' = Some x)"])
  show "anyRun (updateObj (cl_rec c) z) w
      (\<lambda>_ w'. cl_tenant c w' = cl_tenant c w \<and> (cl_store c w' = None \<or> cl_store c w' = Some x))
      (\<lambda>w'. cl_tenant c w' = cl_tenant c w \<and> (cl_store c w' = None \<or> cl_store c w' = Some x))"
    unfolding updateObj_def
    by (intro anyRun_call answers_weaken [OF faultyApi_update [OF assms(1,2)]])
      (use assms(3) in \<open>auto split: sum.split\<close>)
qed (rule anyRun_success)

text \<open>The calls of a pass, with what follows.\<close>

lemma run_admin:
  assumes "looksAround c" and "\<And>w'. keeps c w w' \<Longrightarrow> E w'" and "\<And>h w'. keeps c w w' \<Longrightarrow> anyRun (f h) w' S E"
  shows "anyRun (bindM (getAdminClient (cl_rec c) rr ns) f) w S E"
  by (rule anyRun_bind [OF anyRun_weaken [OF anyRun_preserves [OF openClient_preserves(1)]]])
    (use assms in \<open>auto simp: looksAround_def keeps_def\<close>)

lemma run_client:
  assumes "looksAround c" and "\<And>w'. keeps c w w' \<Longrightarrow> E w'" and "\<And>h w'. keeps c w w' \<Longrightarrow> anyRun (f h) w' S E"
  shows "anyRun (bindM (getTenantClient (cl_rec c) rr ns) f) w S E"
  by (rule anyRun_bind [OF anyRun_weaken [OF anyRun_preserves [OF openClient_preserves(2)]]])
    (use assms in \<open>auto simp: looksAround_def keeps_def\<close>)

lemma run_call:
  assumes "answers (op w) R" and "\<And>e w'. R (Inl e) w' \<Longrightarrow> E w'" and "\<And>a w'. R (Inr a) w' \<Longrightarrow> anyRun (f a) w' S E"
  shows "anyRun (bindM (call c op) f) w S E"
proof (rule anyRun_bind [where R = "\<lambda>a. R (Inr a)"], rule anyRun_call)
  show "answers (op w) (\<lambda>x w'. case x of Inl e \<Rightarrow> E w' | Inr a \<Rightarrow> R (Inr a) w')"
    by (rule answers_weaken, rule assms(1)) (use assms(2) in \<open>auto split: sum.split\<close>)
qed (rule assms(3))

lemma run_attempt:
  assumes "answers (op w) R" and "\<And>x w'. R x w' \<Longrightarrow> anyRun (f x) w' S E"
  shows "anyRun (bindM (attempt (call c op)) f) w S E"
  by (rule anyRun_bind, rule anyRun_attempt, rule assms(1)) (rule assms(2))

lemma run_mutate:
  assumes "answers (e_Mutate E w h q) R" and "\<And>e w'. R (Inl e) w' \<Longrightarrow> P w'"
    and "\<And>w'. R (Inr ()) w' \<Longrightarrow> anyRun (f ()) w' S P"
  shows "anyRun (bindM (mutate E h q) f) w S P"
  unfolding mutate_def by (rule run_call, rule assms(1)) (use assms(2,3) in auto)

lemma run_attempt_mutate:
  assumes "answers (e_Mutate E w h q) R" and "\<And>x w'. R x w' \<Longrightarrow> anyRun (f x) w' S P"
  shows "anyRun (bindM (attempt (mutate E h q)) f) w S P"
  unfolding mutate_def by (rule run_attempt, rule assms(1)) (rule assms(2))

lemma run_secret:
  assumes "\<And>w k. answers (e_GetSecret E w k) (\<lambda>x w'. keeps c w w')" and "\<And>w'. keeps c w w' \<Longrightarrow> P w'"
    and "\<And>s w'. keeps c w w' \<Longrightarrow> anyRun (f s) w' S P"
  shows "anyRun (bindM (getSecret E k) f) w S P"
  unfolding getSecret_def by (rule run_call, rule assms(1)) (use assms(2,3) in auto)

text \<open>A lookup that may fail: what it says is right, if it says anything.\<close>

definition looksUp :: "string \<Rightarrow> bool \<Rightarrow> goerr + 'a \<Rightarrow> bool" where
  "looksUp code p x \<longleftrightarrow> (errOf x = None \<longrightarrow> p) \<and> (isMadminErrorCode (errOf x) code \<longrightarrow> \<not> p)"

section \<open>The machine with faults\<close>

text \<open>
  A pass may do nothing, or what the machine does, or only a part of it: the thing is made and not recorded, or
  taken away and still recorded.
\<close>

inductive faultStep :: "phase \<times> bool \<Rightarrow> phase \<times> bool \<Rightarrow> bool" where
  stays: "faultStep v v"
| holds: "faultStep (New m, b) (Held m, b)"
| makes: "faultStep (Held m, b) (Held m, True)"
| applies: "faultStep (Held m, b) (Applied, True)"
| forgets: "faultStep (Applied, False) (Held False, False)"
| takes: "faultStep (Closing, b) (Closing, False)"
| clears: "faultStep (Closing, b) (Releasing, False)"
| releases: "faultStep (Releasing, b) (Gone, b)"

lemma fault_presence:
  "b \<longrightarrow> b' \<Longrightarrow> faultStep (Held m, b) (Held m, b')" "b' \<longrightarrow> b \<Longrightarrow> faultStep (Closing, b) (Closing, b')"
  by (cases b; cases b'; auto intro: faultStep.intros)+

lemmas fault_intros = faultStep.intros fault_presence

inductive_cases faultStepE: "faultStep (p, b) v"

lemma ideal_is_fault: "fst v = Closing \<longrightarrow> snd v \<or> f \<Longrightarrow> faultStep v (idealStep f v)"
  by (cases v rule: settles.cases) (auto intro: faultStep.intros)

text \<open>An object that would have settled still does, or its creation was cut short before the record.\<close>

lemma fault_open: "faultStep v v' \<Longrightarrow> settles v \<or> v = (Held False, True) \<Longrightarrow> settles v' \<or> v' = (Held False, True)"
  by (cases rule: faultStep.cases) auto

lemma faults_open: "faultStep\<^sup>*\<^sup>* v v' \<Longrightarrow> settles v \<Longrightarrow> settles v' \<or> v' = (Held False, True)"
  by (induction rule: rtranclp_induct) (auto dest: fault_open)

text \<open>What is recorded and there, or to be migrated, is never lost.\<close>

fun secure :: "phase \<times> bool \<Rightarrow> bool" where
  "secure (New m, b) = m"
| "secure (Held m, b) = m"
| "secure (Applied, b) = b"
| "secure (p, b) = False"

lemma secure_settles: "secure v \<Longrightarrow> settles v"
  by (cases v rule: secure.cases) simp_all

lemma fault_secure: "faultStep v v' \<Longrightarrow> secure v \<Longrightarrow> secure v'"
  by (cases rule: faultStep.cases) auto

lemma faults_secure: "faultStep\<^sup>*\<^sup>* v v' \<Longrightarrow> secure v \<Longrightarrow> secure v'"
  by (induction rule: rtranclp_induct) (auto dest: fault_secure)

text \<open>A deletion goes on: the thing does not come back, and with its record it is gone.\<close>

lemma faults_closing:
  "faultStep\<^sup>*\<^sup>* v v' \<Longrightarrow> v = (Closing, b) \<Longrightarrow> v' = (Closing, b) \<or> v' \<in> {(Closing, False), (Releasing, False), (Gone, False)}"
  by (induction rule: rtranclp_induct) (auto elim: faultStepE)

lemma faults_releasing: "faultStep\<^sup>*\<^sup>* v v' \<Longrightarrow> v = (Releasing, b) \<Longrightarrow> v' \<in> {(Releasing, b), (Gone, b)}"
  by (induction rule: rtranclp_induct) (auto elim: faultStepE)

lemma faults_gone: "faultStep\<^sup>*\<^sup>* v v' \<Longrightarrow> v = (Gone, b) \<Longrightarrow> v' = v"
  by (induction rule: rtranclp_induct) (auto elim: faultStepE)

lemma fault_closing: "faultStep v v' \<Longrightarrow> fst v' \<noteq> Gone \<Longrightarrow> closing v' = closing v"
  by (cases rule: faultStep.cases) auto

lemma fault_opens: "faultStep v v' \<Longrightarrow> closing v' \<Longrightarrow> closing v"
  by (cases rule: faultStep.cases) auto

lemma faults_open_closing: "faultStep\<^sup>*\<^sup>* v v' \<Longrightarrow> fst v' \<noteq> Gone \<Longrightarrow> closing v' = closing v"
proof (induction rule: rtranclp_induct)
  case (step v1 v2)
  then have "fst v1 \<noteq> Gone" by (cases v1) (auto elim: faultStepE)
  with step show ?case using fault_closing by blast
qed simp

section \<open>Every pass is a step of the machine with faults\<close>

abbreviation runsTo :: "('w, 'c, 'a) m \<Rightarrow> 'w \<Rightarrow> ('w \<Rightarrow> bool) \<Rightarrow> bool" where
  "runsTo m w P \<equiv> anyRun m w (\<lambda>_. P) P"

text \<open>
  The laws of the phases in a faulty cluster say what holds wherever the phase ends: a deletion takes the
  record away only if the thing is gone, an update only if it is not there, a creation sets it only if the
  thing is there.
\<close>

locale surviving = settling +
  fixes faulty :: "('a, 'b, 'c) cluster \<Rightarrow> bool"
  assumes faulty_api: "faulty c \<Longrightarrow> faultyApi metaOf same c"
    and delete_faulty: "\<lbrakk>faulty c; cl_store c w = Some x; heldOnly (metaOf x); named n x; statusSet x\<rbrakk>
      \<Longrightarrow> runsTo (delete (cl_rec c) x) w (\<lambda>w'. (present n (cl_tenant c w') \<longrightarrow> present n (cl_tenant c w)) \<and>
            others True n (cl_tenant c w') = others True n (cl_tenant c w) \<and>
            stored c (\<lambda>y. metaStored (metaOf x) (metaOf y) \<and> named n y \<and>
              (statusSet y \<or> \<not> present n (cl_tenant c w'))) w')"
    and update_faulty: "\<lbrakk>faulty c; cl_store c w = Some x; heldOnly (metaOf x); named n x; statusSet x\<rbrakk>
      \<Longrightarrow> runsTo (update (cl_rec c) req x) w (\<lambda>w'. present n (cl_tenant c w') = present n (cl_tenant c w) \<and>
            others False n (cl_tenant c w') = others False n (cl_tenant c w) \<and>
            stored c (\<lambda>y. metaStored (metaOf x) (metaOf y) \<and> named n y \<and>
              (statusSet y \<or> \<not> migrate y \<and> \<not> present n (cl_tenant c w))) w')"
    and create_faulty: "\<lbrakk>faulty c; cl_store c w = Some x; heldOnly (metaOf x); named n x; \<not> statusSet x\<rbrakk>
      \<Longrightarrow> runsTo (create (cl_rec c) req x) w (\<lambda>w'. (present n (cl_tenant c w) \<longrightarrow> present n (cl_tenant c w')) \<and>
            others False n (cl_tenant c w') = others False n (cl_tenant c w) \<and>
            stored c (\<lambda>y. metaStored (metaOf x) (metaOf y) \<and> named n y \<and>
              (if statusSet y then present n (cl_tenant c w') else migrate y = migrate x)) w')"
    and create_waits_faulty: "\<lbrakk>faulty c; cl_store c w = Some x; heldOnly (metaOf x); named n x; \<not> statusSet x;
        \<not> possible False n (cl_tenant c w)\<rbrakk> \<Longrightarrow> runsTo (create (cl_rec c) req x) w (keeps c w)"
begin

lemma faulty_step_cases:
  assumes "faulty c" and "\<And>w1. keeps c w w1 \<Longrightarrow> P w1"
    and "\<And>x w1. cl_store c w = Some x \<Longrightarrow> keeps c w w1 \<Longrightarrow> runsTo (pass (cl_rec c) (cl_req c) x) w1 P"
  shows "P (stepOf reconcile c w)"
proof (cases "r_Get (cl_rec c) w (cl_req c)")
  case (Pair a w1)
  have get: "keeps c w w1" "\<And>x. a = Inr x \<Longrightarrow> cl_store c w = Some x"
    using faulty_api [OF assms(1)] Pair unfolding faultyApi_def answers_def
    by (metis fst_conv snd_conv)+
  show ?thesis
  proof (cases a)
    case (Inl e)
    with Pair get(1) show ?thesis by (simp add: stepOf_def reconcile_missing assms(2))
  next
    case (Inr x)
    from anyRun_world [OF assms(3) [OF get(2) [OF Inr] get(1)]] Pair Inr show ?thesis
      by (auto simp: stepOf_def reconcile_eq prim calls split: prod.split)
  qed
qed

lemma release_faulty:
  assumes "faulty c" and "cl_store c w = Some x" and "heldOnly (metaOf x)" and "\<not> statusSet x"
    and "\<not> timeIsZero (om_DeletionTimestamp (metaOf x))"
  shows "runsTo (delete (cl_rec c) x) w (\<lambda>w'. cl_tenant c w' = cl_tenant c w \<and>
    (cl_store c w' = None \<or> cl_store c w' = Some x))"
proof -
  have "removeFinalizer (cl_lib c) (metaOf x) finalizer = (metaOf x)\<lparr>om_Finalizers := []\<rparr>"
    using faulty_api [OF assms(1)] assms(3) by (simp add: faultyApi_def finalizerLists_def heldOnly_def)
  then show ?thesis
    unfolding delete_released [OF assms(4)]
    by (intro faulty_release [OF faulty_api [OF assms(1)] assms(2)])
      (use assms(5) in \<open>simp add: unheld_def metaOf_setMeta\<close>)
qed

lemma hold_faulty:
  assumes "faulty c" and "cl_store c w = Some x" and "om_Finalizers (metaOf x) = []"
    and "timeIsZero (om_DeletionTimestamp (metaOf x))"
  shows "runsTo (addFin (cl_rec c) x) w (\<lambda>w'. cl_tenant c w' = cl_tenant c w \<and>
    (cl_store c w' = Some x \<or> stored c (same (setMeta x ((metaOf x)\<lparr>om_Finalizers := [finalizer]\<rparr>))) w'))"
proof -
  have "addFinalizer (cl_lib c) (metaOf x) finalizer = (metaOf x)\<lparr>om_Finalizers := [finalizer]\<rparr>"
    using faulty_api [OF assms(1)] assms(3) by (simp add: faultyApi_def finalizerLists_def)
  then show ?thesis
    unfolding addFin_eq
    by (simp, intro faulty_success [OF faulty_api [OF assms(1)] assms(2)])
      (use assms(4) in \<open>auto simp: unheld_def metaOf_setMeta stored_def\<close>)
qed

text \<open>What a step of the machine is, by the phase of the object.\<close>

abbreviation faultyMove :: "('a, 'b, 'c) cluster \<Rightarrow> 'd \<Rightarrow> 'a \<Rightarrow> 'a \<Rightarrow> bool" where
  "faultyMove c n w w' \<equiv> inorder c n w' \<and> faultStep (view c n w) (view c n w') \<and>
     others (closing (view c n w)) n (cl_tenant c w') = others (closing (view c n w)) n (cl_tenant c w)"

lemma move_refl: "inorder c n w \<Longrightarrow> keeps c w w1 \<Longrightarrow> faultyMove c n w w1"
  by (simp add: keeps_def orderly_def viewOf_def faultStep.stays)

lemma move_new:
  assumes "faulty c" and "inorder c n w" and "cl_store c w = Some x" and "keeps c w w1"
    and "om_Finalizers (metaOf x) = []"
  shows "runsTo (addFin (cl_rec c) x) w1 (faultyMove c n w)"
proof -
  have x: "named n x" "timeIsZero (om_DeletionTimestamp (metaOf x))" "om_Namespace (metaOf x) \<noteq> ''''" "\<not> statusSet x"
    using assms(2,3,5) by (auto simp: orderly_def inOrder_def heldOnly_def)
  let ?z = "setMeta x ((metaOf x)\<lparr>om_Finalizers := [finalizer]\<rparr>)"
  have v: "view c n w = (New (migrate x), present n (cl_tenant c w))"
    using x assms(3,5) by (simp add: viewOf_def phaseOf_def)
  have w1: "cl_store c w1 = Some x" "cl_tenant c w1 = cl_tenant c w" using assms(3,4) by (simp_all add: keeps_def)
  have "faultyMove c n w w'" if t: "cl_tenant c w' = cl_tenant c w1"
    and s: "cl_store c w' = Some x \<or> stored c (same ?z) w'" for w'
  proof (cases "cl_store c w' = Some x")
    case True
    with t w1 assms(3) show ?thesis by (intro move_refl assms(2)) (simp add: keeps_def)
  next
    case False
    with s obtain y where y: "cl_store c w' = Some y" "same ?z y" by (auto simp: stored_def)
    have "named n y" "migrate y = migrate x" "statusSet y = statusSet x"
      using named_same [OF y(2)] migrate_same [OF y(2)] status_stored [OF y(2)] x(1) by (simp_all add: setMeta_laws)
    moreover have "metaStored ((metaOf x)\<lparr>om_Finalizers := [finalizer]\<rparr>) (metaOf y)"
      using meta_stored [OF y(2)] by (simp add: metaOf_setMeta)
    ultimately show ?thesis
      using y(1) t w1 x unfolding v
      by (auto simp: orderly_def inOrder_def viewOf_def phaseOf_def metaStored_def heldOnly_def intro: faultStep.intros)
  qed
  then show ?thesis
    by (intro anyRun_weaken [OF hold_faulty [OF assms(1) w1(1) assms(5) x(2)]]) auto
qed

lemma move_stored:
  assumes "cl_store c w = Some x" and "heldOnly (metaOf x)"
    and "others (closing (view c n w)) n (cl_tenant c w') = others (closing (view c n w)) n (cl_tenant c w)"
    and s: "stored c (\<lambda>y. metaStored (metaOf x) (metaOf y) \<and> named n y \<and> Q y) w'"
    and step: "\<And>y. Q y \<Longrightarrow> om_DeletionTimestamp (metaOf y) = om_DeletionTimestamp (metaOf x) \<Longrightarrow> om_Finalizers (metaOf y) \<noteq> [] \<Longrightarrow>
      faultStep (view c n w) (phaseOf metaOf statusSet migrate y, present n (cl_tenant c w'))"
  shows "faultyMove c n w w'"
proof -
  obtain y where y: "cl_store c w' = Some y" "named n y" "heldOnly (metaOf y)"
      "om_DeletionTimestamp (metaOf y) = om_DeletionTimestamp (metaOf x)" "Q y"
    by (rule stored_in_order [OF s assms(2)])
  then have "om_Finalizers (metaOf y) \<noteq> []" by auto
  from step [OF y(5,4) this] y(1-3) assms(3) show ?thesis
    by (simp add: viewOf_def orderly_def inOrder_def)
qed

lemma move_delete:
  assumes "faulty c" and "inorder c n w" and x: "cl_store c w = Some x" and "keeps c w w1" and h: "heldOnly (metaOf x)"
    and d: "\<not> timeIsZero (om_DeletionTimestamp (metaOf x))"
  shows "runsTo (delete (cl_rec c) x) w1 (faultyMove c n w)"
proof (cases "statusSet x")
  case True
  have w1: "cl_store c w1 = Some x" "cl_tenant c w1 = cl_tenant c w" "named n x"
    using assms(2-4) by (simp_all add: keeps_def orderly_def)
  have v: "view c n w = (Closing, present n (cl_tenant c w))" using x d True by (simp add: viewOf_def phaseOf_def)
  show ?thesis
    by (rule anyRun_weaken [OF delete_faulty [OF assms(1) w1(1) h w1(3) True]];
      elim conjE, rule move_stored [OF x h], unfold v w1(2), simp only: closing.simps simp_thms, assumption)
     (use d in \<open>auto simp: phaseOf_def intro: fault_intros\<close>)
next
  case False
  have w1: "cl_store c w1 = Some x" "cl_tenant c w1 = cl_tenant c w" using assms(3,4) by (simp_all add: keeps_def)
  have v: "view c n w = (Releasing, present n (cl_tenant c w))" using x d False by (simp add: viewOf_def phaseOf_def)
  have "faultyMove c n w w'" if "cl_tenant c w' = cl_tenant c w1" "cl_store c w' = None \<or> cl_store c w' = Some x" for w'
    unfolding v using that assms(2) x v w1(2) by (auto simp: orderly_def viewOf_def intro: fault_intros)
  then show ?thesis by (intro anyRun_weaken [OF release_faulty [OF assms(1) w1(1) h False d]]) auto
qed

lemma move_apply:
  assumes "faulty c" and "inorder c n w" and x: "cl_store c w = Some x" and "keeps c w w1" and h: "heldOnly (metaOf x)"
    and d: "timeIsZero (om_DeletionTimestamp (metaOf x))"
  shows "runsTo (if statusSet x then update (cl_rec c) req x else create (cl_rec c) req x) w1 (faultyMove c n w)"
proof -
  have w1: "cl_store c w1 = Some x" "cl_tenant c w1 = cl_tenant c w" "named n x"
    using assms(2-4) by (simp_all add: keeps_def orderly_def)
  have f: "om_Finalizers (metaOf x) \<noteq> []" using h by auto
  show ?thesis
  proof (cases "statusSet x")
    case True
    have v: "view c n w = (Applied, present n (cl_tenant c w))" using x d f True by (simp add: viewOf_def phaseOf_def)
    have "runsTo (update (cl_rec c) req x) w1 (faultyMove c n w)"
      by (rule anyRun_weaken [OF update_faulty [OF assms(1) w1(1) h w1(3) True]];
        elim conjE, rule move_stored [OF x h], unfold v w1(2), simp add: v, assumption)
       (use d in \<open>auto simp: phaseOf_def intro: fault_intros\<close>)
    with True show ?thesis by simp
  next
    case False
    have v: "view c n w = (Held (migrate x), present n (cl_tenant c w))" using x d f False by (simp add: viewOf_def phaseOf_def)
    have "runsTo (create (cl_rec c) req x) w1 (faultyMove c n w)"
      by (rule anyRun_weaken [OF create_faulty [OF assms(1) w1(1) h w1(3) False]];
        elim conjE, rule move_stored [OF x h], unfold v w1(2), simp add: v, assumption)
       (use d in \<open>auto simp: phaseOf_def intro: fault_intros split: if_splits\<close>)
    with False show ?thesis by simp
  qed
qed

lemma faulty_step:
  assumes "faulty c" and "inorder c n w"
  shows "faultyMove c n w (stepOf reconcile c w)"
proof (rule faulty_step_cases [OF assms(1)])
  fix x w1 assume x: "cl_store c w = Some x" "keeps c w w1"
  have fin: "containsFinalizer (cl_lib c) m f \<longleftrightarrow> f \<in> set (om_Finalizers m)" for m f
    using faulty_api [OF assms(1)] by (simp add: faultyApi_def finalizerLists_def)
  show "runsTo (pass (cl_rec c) (cl_req c) x) w1 (faultyMove c n w)"
  proof (cases "om_Finalizers (metaOf x) = []")
    case True
    then have "timeIsZero (om_DeletionTimestamp (metaOf x))"
      using assms(2) x(1) by (auto simp: orderly_def inOrder_def heldOnly_def)
    with move_new [OF assms x True] True show ?thesis by (simp add: pass_phases fin)
  next
    case False
    then have "heldOnly (metaOf x)" using assms(2) x(1) by (auto simp: orderly_def inOrder_def)
    with move_delete [OF assms x this] move_apply [OF assms x this] show ?thesis
      by (simp add: pass_phases fin heldOnly_def)
  qed
qed (rule move_refl [OF assms(2)])

text \<open>Without its dependencies a held resource stays as it is.\<close>

lemma held_waits_faulty:
  assumes "faulty c" and "inorder c n w" and "view c n w = (Held m, b)" and "\<not> possible False n (cl_tenant c w)"
  shows "keeps c w (stepOf reconcile c w)"
proof (rule faulty_step_cases [OF assms(1)])
  fix x w1 assume x: "cl_store c w = Some x" "keeps c w w1"
  with assms(2,3) have n: "named n x" "heldOnly (metaOf x)" "\<not> statusSet x" "timeIsZero (om_DeletionTimestamp (metaOf x))"
    by (auto simp: orderly_def inOrder_def viewOf_def phaseOf_def split: if_splits)
  have "containsFinalizer (cl_lib c) (metaOf x) finalizer"
    using faulty_api [OF assms(1)] n(2) by (simp add: faultyApi_def finalizerLists_def heldOnly_def)
  then have eq: "pass (cl_rec c) (cl_req c) x = create (cl_rec c) (cl_req c) x" using n(3,4) by (simp add: pass_phases)
  have "runsTo (create (cl_rec c) (cl_req c) x) w1 (keeps c w1)"
    by (rule create_waits_faulty [OF assms(1) _ n(2,1,3)]) (use x assms(4) in \<open>simp_all add: keeps_def\<close>)
  then show "runsTo (pass (cl_rec c) (cl_req c) x) w1 (keeps c w)"
    unfolding eq by (rule anyRun_weaken) (use keeps_trans [OF x(2)] in auto)
qed

lemma faulty_open:
  assumes "faulty c" and "inorder c n w" and "\<not> closing (view c n w)"
    and "possible False n (cl_tenant c w) \<or> waiting (view c n w)" and "w' = stepOf reconcile c w"
  shows "inorder c n w' \<and> faultStep (view c n w) (view c n w') \<and>
    others False n (cl_tenant c w') = others False n (cl_tenant c w) \<and>
    (possible False n (cl_tenant c w') \<or> waiting (view c n w'))"
proof -
  have m: "inorder c n w'" "faultStep (view c n w) (view c n w')"
      "others False n (cl_tenant c w') = others False n (cl_tenant c w)"
    using faulty_step [OF assms(1,2)] assms(3) unfolding assms(5) by (simp_all only: simp_thms)
  have "waiting (view c n w')" if not: "\<not> possible False n (cl_tenant c w)"
  proof (cases "\<exists>m b. view c n w = (Held m, b)")
    case True
    then obtain k b where v: "view c n w = (Held k, b)" by blast
    from held_waits_faulty [OF assms(1,2) v not] v show ?thesis
      unfolding assms(5) by (simp add: keeps_def viewOf_def)
  next
    case False
    with not assms(4) have "waiting (view c n w)" by blast
    from m(2) this False show ?thesis by (cases rule: faultStep.cases) auto
  qed
  then show ?thesis using m possible_others [OF m(3), of] by blast
qed

section \<open>After the faults\<close>

text \<open>
  Passes in one faulty cluster after the other (which fails in its own way), all over the same object and
  tenant, and then passes in a quiet one.
\<close>

lemma others_mono:
  assumes "others d n s' = others d n s" and "d \<Longrightarrow> e"
  shows "others e n s' = others e n s"
proof (cases d)
  case True
  with assms show ?thesis by simp
next
  case False
  with assms(1) have "others False n s' = others False n s" by simp
  from this others_closing [OF this] show ?thesis by (cases e) (simp_all only:)
qed

lemma faults_reach:
  assumes "\<And>d. d \<in> set cs \<Longrightarrow> faulty d \<and> cl_store d = cl_store c \<and> cl_tenant d = cl_tenant c" and "inorder c n w"
    and "w' = fold (stepOf reconcile) cs w"
  shows "inorder c n w' \<and> faultStep\<^sup>*\<^sup>* (view c n w) (view c n w') \<and>
    others (closing (view c n w)) n (cl_tenant c w') = others (closing (view c n w)) n (cl_tenant c w)"
  using assms
proof (induction cs arbitrary: w)
  case (Cons d cs)
  let ?w = "stepOf reconcile d w"
  have d: "faulty d" "cl_store d = cl_store c" "cl_tenant d = cl_tenant c" using Cons.prems(1) by simp_all
  have "inorder d n w" using Cons.prems(2) d(2) by (simp add: orderly_def)
  from faulty_step [OF d(1) this] have m: "faultyMove c n w ?w"
    using d(2,3) by (simp add: orderly_def viewOf_def)
  have "inorder c n w' \<and> faultStep\<^sup>*\<^sup>* (view c n ?w) (view c n w') \<and>
      others (closing (view c n ?w)) n (cl_tenant c w') = others (closing (view c n ?w)) n (cl_tenant c ?w)"
  proof (rule Cons.IH)
    show "\<And>e. e \<in> set cs \<Longrightarrow> faulty e \<and> cl_store e = cl_store c \<and> cl_tenant e = cl_tenant c"
      by (rule Cons.prems(1)) simp
    show "inorder c n ?w" using m by (elim conjE)
    show "w' = fold (stepOf reconcile) cs ?w" using Cons.prems(3) by (simp only: fold_simps)
  qed
  then have IH: "inorder c n w'" "faultStep\<^sup>*\<^sup>* (view c n ?w) (view c n w')"
      "others (closing (view c n ?w)) n (cl_tenant c w') = others (closing (view c n ?w)) n (cl_tenant c ?w)" by blast+
  have "faultStep\<^sup>*\<^sup>* (view c n w) (view c n w')"
    by (rule converse_rtranclp_into_rtranclp [OF _ IH(2)]) (use m in \<open>elim conjE\<close>)
  moreover have "others (closing (view c n w)) n (cl_tenant c w') = others (closing (view c n w)) n (cl_tenant c ?w)"
    by (rule others_mono [OF IH(3)], rule fault_opens) (use m in \<open>elim conjE\<close>)
  ultimately show ?case using m IH(1) by (simp only: simp_thms)
qed simp

lemma faults_able:
  assumes "faultStep\<^sup>*\<^sup>* (view c n w) (view c n w')" and "others (closing (view c n w)) n (cl_tenant c w') = others (closing (view c n w)) n (cl_tenant c w)"
    and "able c n w"
  shows "able c n w'"
  unfolding ableOf_def
proof (intro allI impI)
  fix y assume y: "cl_store c w' = Some y"
  then have gone: "fst (view c n w') \<noteq> Gone" by (simp add: viewOf_def phaseOf_def)
  then have "fst (view c n w) \<noteq> Gone"
    using assms(1) faults_gone [of "view c n w" "view c n w'"] by (metis prod.collapse)
  then obtain x where x: "cl_store c w = Some x" by (auto simp: viewOf_def split: option.splits)
  have "possible (\<not> timeIsZero (om_DeletionTimestamp (metaOf x))) n (cl_tenant c w)"
    using assms(3) x by (simp add: ableOf_def)
  moreover have "(\<not> timeIsZero (om_DeletionTimestamp (metaOf y))) = closing (view c n w)"
    "(\<not> timeIsZero (om_DeletionTimestamp (metaOf x))) = closing (view c n w)"
    by (simp_all only: faults_open_closing [OF assms(1) gone, symmetric] closing_deleted [OF y, symmetric],
      simp only: faults_open_closing [OF assms(1) gone] closing_deleted [OF x])
  ultimately show "possible (\<not> timeIsZero (om_DeletionTimestamp (metaOf y))) n (cl_tenant c w')"
    by (simp only: possible_others [OF assms(2)])
qed

lemma passes_apply:
  assumes "quiet c" and "inorder c n w" and "able c n w" and "settles (view c n w)" and "2 \<le> k"
  shows "view c n (passes reconcile c k w) = (Applied, True) \<and> exact c n (cl_tenant c (passes reconcile c k w))"
proof -
  obtain j where k: "k = Suc j" "1 \<le> j" using assms(5) by (cases k) auto
  note r = passes_refine [OF assms(1-3)]
  have "exact c n (cl_tenant c (passes reconcile c k w))"
    using step_refines [OF assms(1)] r [of j] ideal_ready [OF assms(4) k(2)] by (simp add: k(1))
  then show ?thesis using r [of k] ideal_settles [OF assms(4,5)] by simp
qed

lemma survives:
  assumes "\<And>d. d \<in> set cs \<Longrightarrow> faulty d \<and> cl_store d = cl_store c \<and> cl_tenant d = cl_tenant c"
    and "quiet c" and "cl_store c w = Some x" and "named n x" and "inOrder metaOf statusSet x"
    and "possible (\<not> timeIsZero (om_DeletionTimestamp (metaOf x))) n (cl_tenant c w)"
    and "w' = passes reconcile c k (fold (stepOf reconcile) cs w)" and "2 \<le> k"
  shows "others True n (cl_tenant c w') = others True n (cl_tenant c w) \<and> inorder c n w' \<and>
    (timeIsZero (om_DeletionTimestamp (metaOf x)) \<longrightarrow> (present n (cl_tenant c w) \<longrightarrow> statusSet x \<or> migrate x) \<longrightarrow>
      view c n w' = (Applied, True) \<and> exact c n (cl_tenant c w') \<or>
      view c n w' = (Held False, True) \<and> \<not> (if statusSet x then present n (cl_tenant c w) else migrate x)) \<and>
    (\<not> timeIsZero (om_DeletionTimestamp (metaOf x)) \<longrightarrow> (statusSet x \<longrightarrow> present n (cl_tenant c w) \<or> forgiving) \<longrightarrow>
      view c n w' = (Gone, present n (cl_tenant c w) \<and> \<not> statusSet x) \<or>
      statusSet x \<and> \<not> forgiving \<and> view c n w' = (Closing, False))"
proof -
  let ?w = "fold (stepOf reconcile) cs w"
  have o: "inorder c n w" using assms(3-5) by (simp add: orderly_def)
  have a: "able c n w" using assms(3,6) by (simp add: ableOf_def)
  have r: "inorder c n ?w" "faultStep\<^sup>*\<^sup>* (view c n w) (view c n ?w)"
      "others (closing (view c n w)) n (cl_tenant c ?w) = others (closing (view c n w)) n (cl_tenant c w)"
    using faults_reach [OF assms(1) o refl] by blast+
  note p = passes_refine [OF assms(2) r(1) faults_able [OF r(2,3) a], of k, folded assms(7)]
  have open': "view c n w' = (Applied, True) \<and> exact c n (cl_tenant c w') \<or> view c n w' = (Held False, True) \<and> \<not> secure (view c n w)"
    if "settles (view c n w)"
  proof (cases "settles (view c n ?w)")
    case True
    with passes_apply [OF assms(2) r(1) faults_able [OF r(2,3) a]] assms(7,8) show ?thesis by simp
  next
    case False
    then have v: "view c n ?w = (Held False, True)" using faults_open [OF r(2) that] by simp
    then have "\<not> secure (view c n w)" using faults_secure [OF r(2)] by auto
    moreover have "view c n w' = (Held False, True)" using p v ideal_held [of k forgiving True] assms(8) by simp
    ultimately show ?thesis by simp
  qed
  have closed: "view c n w' = (Gone, b \<and> p = Releasing) \<or> p = Closing \<and> \<not> forgiving \<and> view c n w' = (Closing, False)"
    if v: "view c n w = (p, b)" "p = Closing \<or> p = Releasing" "p = Closing \<longrightarrow> b \<or> forgiving" for p b
  proof -
    have stuck: "(idealStep False ^^ k) (Closing, False) = (Closing, False)" by (induction k) simp_all
    note q = ideal_closes [OF assms(8)] ideal_stays
    show ?thesis
    proof (cases "p = Closing")
      case True
      then show ?thesis
        using faults_closing [OF r(2) v(1) [unfolded True]] v(3) p q stuck by (cases forgiving) auto
    next
      case False
      then show ?thesis using faults_releasing [OF r(2), of b] v p q by auto
    qed
  qed
  have v: "view c n w = (phaseOf metaOf statusSet migrate x, present n (cl_tenant c w))"
    using assms(3) by (simp add: viewOf_def)
  have "others True n (cl_tenant c w') = others True n (cl_tenant c w)"
    using p others_mono [OF r(3)] by simp
  moreover have "inorder c n w'" using p by blast
  moreover have "view c n w' = (Applied, True) \<and> exact c n (cl_tenant c w') \<or>
      view c n w' = (Held False, True) \<and> \<not> (if statusSet x then present n (cl_tenant c w) else migrate x)"
    if "timeIsZero (om_DeletionTimestamp (metaOf x))" "present n (cl_tenant c w) \<longrightarrow> statusSet x \<or> migrate x"
  proof -
    have "settles (view c n w)" "secure (view c n w) = (if statusSet x then present n (cl_tenant c w) else migrate x)"
      using that assms(5) unfolding v by (auto simp: phaseOf_def inOrder_def)
    with open' show ?thesis by simp
  qed
  moreover have "view c n w' = (Gone, present n (cl_tenant c w) \<and> \<not> statusSet x) \<or>
      statusSet x \<and> \<not> forgiving \<and> view c n w' = (Closing, False)"
    if "\<not> timeIsZero (om_DeletionTimestamp (metaOf x))" "statusSet x \<longrightarrow> present n (cl_tenant c w) \<or> forgiving"
    using closed [OF v] that by (cases "statusSet x") (auto simp: phaseOf_def)
  ultimately show ?thesis by blast
qed

end

section \<open>Other views of one world\<close>

text \<open>Two clusters, one object and one tenant: their services differ.\<close>

definition sameViews :: "('w, 'o, 's) cluster \<Rightarrow> ('w, 'o, 's) cluster \<Rightarrow> bool" where
  "sameViews c d \<longleftrightarrow> cl_store d = cl_store c \<and> cl_tenant d = cl_tenant c"

lemma sameViewsD:
  assumes "sameViews c d"
  shows "cl_store d = cl_store c" "cl_tenant d = cl_tenant c"
    and "viewOf metaOf statusSet migrate present d = viewOf metaOf statusSet migrate present c"
    and "orderly metaOf statusSet named d = orderly metaOf statusSet named c"
  using assms by (auto simp: sameViews_def viewOf_def orderly_def fun_eq_iff)

section \<open>A cluster that loses answers\<close>

text \<open>
  For the witnesses: every update and every request that changes the tenant is carried out as in the cluster, but
  all that the operator ever hears is that it timed out.
\<close>

definition loseAnswers :: "('w, 'o, 's) cluster \<Rightarrow> ('w, 'o, 's) cluster" where
  "loseAnswers c = c\<lparr>cl_rec := (cl_rec c)\<lparr>
     r_env := (r_env (cl_rec c))\<lparr>
       e_Mutate := \<lambda>w h q. (Inl (GoErr ''timeout''), snd (e_Mutate (r_env (cl_rec c)) w h q))\<rparr>,
     r_Update := \<lambda>w x. (Inl (GoErr ''timeout''), snd (r_Update (cl_rec c) w x))\<rparr>\<rparr>"

lemma loseAnswers_same: "sameViews c (loseAnswers c)"
  by (simp add: sameViews_def loseAnswers_def)

lemma loseAnswers_simps [simp]:
  "cl_store (loseAnswers c) = cl_store c" "cl_tenant (loseAnswers c) = cl_tenant c" "cl_req (loseAnswers c) = cl_req c"
  by (simp_all add: loseAnswers_def)

lemma loseAnswers_keeps [simp]:
  "keeps (loseAnswers c) = keeps c" "moves (loseAnswers c) = moves c" "attempts (loseAnswers c) = attempts c"
  "attemptsIf p (loseAnswers c) = attemptsIf p c"
  by (simp_all add: keeps_def moves_def attempts_def attemptsIf_def fun_eq_iff)

lemma loseAnswers_mutate:
  "answers (e_Mutate (r_env (cl_rec (loseAnswers c))) w h q) R \<longleftrightarrow>
   R (Inl (GoErr ''timeout'')) (snd (e_Mutate (r_env (cl_rec c)) w h q))"
  by (simp add: loseAnswers_def answers_def)

lemma loseAnswers_reads:
  "e_BucketExists (r_env (cl_rec (loseAnswers c))) = e_BucketExists (r_env (cl_rec c))"
  "e_GetBucketVersioning (r_env (cl_rec (loseAnswers c))) = e_GetBucketVersioning (r_env (cl_rec c))"
  "e_GetBucketLifecycle (r_env (cl_rec (loseAnswers c))) = e_GetBucketLifecycle (r_env (cl_rec c))"
  "e_GetSecret (r_env (cl_rec (loseAnswers c))) = e_GetSecret (r_env (cl_rec c))"
  "e_GetUserInfo (r_env (cl_rec (loseAnswers c))) = e_GetUserInfo (r_env (cl_rec c))"
  "e_GetGroupDescription (r_env (cl_rec (loseAnswers c))) = e_GetGroupDescription (r_env (cl_rec c))"
  "e_InfoCannedPolicyV2 (r_env (cl_rec (loseAnswers c))) = e_InfoCannedPolicyV2 (r_env (cl_rec c))"
  "e_GetPolicyEntities (r_env (cl_rec (loseAnswers c))) = e_GetPolicyEntities (r_env (cl_rec c))"
  "e_GetLDAPPolicyEntities (r_env (cl_rec (loseAnswers c))) = e_GetLDAPPolicyEntities (r_env (cl_rec c))"
  "e_GetIDPConfig (r_env (cl_rec (loseAnswers c))) = e_GetIDPConfig (r_env (cl_rec c))"
  by (simp_all add: loseAnswers_def)

lemma loseAnswers_api:
  assumes "lib E = sampleLib" and "\<And>x. same x x" and "\<And>x d. get (put x d) = x"
  shows "faultyApi metaOf same (loseAnswers (sampleAt metaOf tn E get put))"
  using assms
  by (auto simp: faultyApi_def finalizerLists_def sampleAt_def loseAnswers_def keeps_def sampleLib_def answers_def
      split: option.split)

lemma loseAnswers_looks: "looksAround c \<Longrightarrow> looksAround (loseAnswers c)"
  by (simp add: looksAround_def infraKeeps_def opKeeps_def loseAnswers_def)

lemma loseAnswers_alone: "leavesAlone f (cl_rec c) \<Longrightarrow> leavesAlone f (cl_rec (loseAnswers c))"
  by (simp add: leavesAlone_def envKeeps_def opKeeps_def loseAnswers_def)

end
