(* ===== verification/Faulty_Identities.thy ===== *)
theory Faulty_Identities
  imports Faults
begin

text \<open>
  Users, groups and memberships in clusters where requests fail: what the documented answers of a tenant
  still promise there, and that the three reconcilers keep the laws of \<open>surviving\<close>.
\<close>

section \<open>Users\<close>

text \<open>
  A tenant whose requests for users may fail, before or after their effect; it never says that a user it has
  does not exist.
\<close>

definition faultyUsers :: "('w, MinioUser, tenantState) cluster \<Rightarrow> bool" where
  "faultyUsers c \<longleftrightarrow> faultyApi u_ObjectMeta userSame c \<and> looksAround c \<and>
     (\<forall>w k. answers (e_GetSecret (r_env (cl_rec c)) w k) (\<lambda>x w'. keeps c w w')) \<and>
     (\<forall>w h n. answers (e_GetUserInfo (r_env (cl_rec c)) w h n) (\<lambda>x w'. keeps c w w' \<and>
        looksUp ''XMinioAdminNoSuchUser'' (userPresent n (cl_tenant c w)) x)) \<and>
     (\<forall>w h n k. answers (e_Mutate (r_env (cl_rec c)) w h (AddUser n k)) (attempts c w (addUser n))) \<and>
     (\<forall>w h n. answers (e_Mutate (r_env (cl_rec c)) w h (RemoveUser n)) (\<lambda>x w'. attempts c w (dropUser n) x w' \<and>
        (isMadminErrorCode (errOf x) ''XMinioAdminNoSuchUser'' \<longrightarrow> \<not> userPresent n (cl_tenant c w'))))"

lemma faultyUsers_api: "faultyUsers c \<Longrightarrow> faultyApi u_ObjectMeta userSame c" "faultyUsers c \<Longrightarrow> looksAround c"
  by (simp_all add: faultyUsers_def)

lemma faultyUsers_secret: "faultyUsers c \<Longrightarrow> answers (e_GetSecret (r_env (cl_rec c)) w k) (\<lambda>x w'. keeps c w w')"
  by (simp add: faultyUsers_def)

lemma faultyUsers_add:
  "faultyUsers c \<Longrightarrow> answers (e_Mutate (r_env (cl_rec c)) w h (AddUser n sk)) (attempts c w (addUser n))"
  by (simp add: faultyUsers_def)

lemma faultyUsers_remove:
  "faultyUsers c \<Longrightarrow> answers (e_Mutate (r_env (cl_rec c)) w h (RemoveUser n)) (\<lambda>x w'. attempts c w (dropUser n) x w' \<and>
     (isMadminErrorCode (errOf x) ''XMinioAdminNoSuchUser'' \<longrightarrow> \<not> userPresent n (cl_tenant c w')))"
  by (simp add: faultyUsers_def)

lemma run_userInfo:
  assumes "faultyUsers c" and "\<And>x w'. keeps c w w' \<Longrightarrow>
    looksUp ''XMinioAdminNoSuchUser'' (userPresent n (cl_tenant c w)) x \<Longrightarrow> anyRun (f x) w' S P"
  shows "anyRun (bindM (attempt (queryM h (GetUserInfo n) (\<lambda>w. e_GetUserInfo (r_env (cl_rec c)) w h n))) f) w S P"
proof -
  have "answers (e_GetUserInfo (r_env (cl_rec c)) w h n) (\<lambda>x w'. keeps c w w' \<and>
      looksUp ''XMinioAdminNoSuchUser'' (userPresent n (cl_tenant c w)) x)"
    using assms(1) by (simp add: faultyUsers_def)
  then show ?thesis unfolding queryM_def by (rule run_attempt) (use assms(2) in blast)
qed

lemma run_userKey:
  "us_AccessKey spec \<noteq> '''' \<Longrightarrow> anyRun (f (us_AccessKey spec)) w S E \<Longrightarrow>
   anyRun (bindM (minioUser_getAccessKey r spec ns) f) w S E"
  by (simp add: minioUser_getAccessKey_def)

lemma minioUser_delete_faulty:
  assumes q: "faultyUsers c" and "cl_store c w = Some u" and "heldOnly (u_ObjectMeta u)"
    and "userNamed n u" and "userStatusSet u"
  shows "runsTo (minioUser_delete (cl_rec c) u) w (\<lambda>w'. (userPresent n (cl_tenant c w') \<longrightarrow> userPresent n (cl_tenant c w)) \<and>
    otherUsers True n (cl_tenant c w') = otherUsers True n (cl_tenant c w) \<and>
    stored c (\<lambda>y. metaStored (u_ObjectMeta u) (u_ObjectMeta y) \<and> userNamed n y \<and>
      (userStatusSet y \<or> \<not> userPresent n (cl_tenant c w'))) w')" (is "runsTo _ _ ?P")
proof -
  from assms(5) obtain cs where cs: "userCurrent u = Some cs" by (auto simp: userStatusSet_def)
  with assms(4) have n: "us_AccessKey cs = n" "us_AccessKey cs \<noteq> ''''" by (auto simp: userNamed_def)
  define P where "P = ?P"
  let ?t = "cl_tenant c w"
  have kept: "P w'" if "cl_store c w' = Some u" "cl_tenant c w' = ?t \<or> cl_tenant c w' = dropUser n ?t" for w'
    using that assms(4,5) unfolding P_def by (auto simp: user_tenant stored_def)
  have cleared: "P w'" if "userSame (setUserCurrent u None) y" "cl_store c w' = Some y"
    "cl_tenant c w' = ?t \<or> cl_tenant c w' = dropUser n ?t" "\<not> userPresent n (cl_tenant c w')" for w' y
    using that assms(4) unfolding P_def by (auto simp: user_tenant userSame_defs)
  have "runsTo (minioUser_delete (cl_rec c) u) w P"
    unfolding minioUser_delete_def cs option.case
    by (intro run_admin [OF faultyUsers_api(2) [OF q]] run_userKey [OF n(2)]
        run_attempt_mutate [OF faultyUsers_remove [OF q]] anyRun_check
        faulty_success [OF faultyUsers_api(1) [OF q], where x = u])
      (use assms(2,3) n in \<open>auto simp: keeps_def attempts_def moves_def ignoreMadminErrorCode_eq_None
        dropUser_def userPresent_def intro: kept cleared\<close>)
  then show ?thesis by (simp only: P_def)
qed

lemma minioUser_removeMigrate_faulty:
  assumes q: "faultyUsers c" and "cl_store c w = Some u" and "heldOnly (u_ObjectMeta u)"
    and "\<And>y w'. cl_store c w' = Some y \<Longrightarrow> cl_tenant c w' = cl_tenant c w \<Longrightarrow> metaStored (u_ObjectMeta u) (u_ObjectMeta y) \<Longrightarrow>
      us_AccessKey (u_Spec y) = us_AccessKey (u_Spec u) \<Longrightarrow> u_Status y = u_Status u \<Longrightarrow> P w' \<and> (\<not> us_Migrate (u_Spec y) \<longrightarrow> S y w')"
  shows "anyRun (minioUser_removeMigrate (cl_rec c) u) w S P"
proof (cases "us_Migrate (u_Spec u)")
  case True
  then show ?thesis
    unfolding minioUser_removeMigrate_def
    by (simp, intro faulty_update [OF faultyUsers_api(1) [OF q] assms(2)])
      (use assms(2-4) in \<open>auto simp: userSame_def metaStored_refl\<close>)
next
  case False
  with assms(2,4) show ?thesis unfolding minioUser_removeMigrate_def by (simp add: anyRun_ret metaStored_refl)
qed

lemma minioUser_update_faulty:
  assumes q: "faultyUsers c" and "cl_store c w = Some u" and "heldOnly (u_ObjectMeta u)"
    and "userNamed n u" and "userStatusSet u"
  shows "runsTo (minioUser_update (cl_rec c) req u) w (\<lambda>w'. userPresent n (cl_tenant c w') = userPresent n (cl_tenant c w) \<and>
    otherUsers False n (cl_tenant c w') = otherUsers False n (cl_tenant c w) \<and>
    stored c (\<lambda>y. metaStored (u_ObjectMeta u) (u_ObjectMeta y) \<and> userNamed n y \<and>
      (userStatusSet y \<or> \<not> us_Migrate (u_Spec y) \<and> \<not> userPresent n (cl_tenant c w))) w')" (is "runsTo _ _ ?P")
proof -
  from assms(5) obtain cs where cs: "userCurrent u = Some cs" by (auto simp: userStatusSet_def)
  with assms(4) have n: "us_AccessKey cs = n" "us_AccessKey cs \<noteq> ''''" "us_AccessKey (u_Spec u) = n" "n \<noteq> ''''"
    by (auto simp: userNamed_def)
  define P where "P = ?P"
  let ?t = "cl_tenant c w"
  have P: "P w'" if "cl_store c w' = Some y" "metaStored (u_ObjectMeta u) (u_ObjectMeta y)" "us_AccessKey (u_Spec y) = n"
      "userCurrent y = Some cs \<or> userCurrent y = None \<and> \<not> us_Migrate (u_Spec y) \<and> \<not> userPresent n ?t"
      "cl_tenant c w' = ?t \<or> userPresent n ?t \<and> cl_tenant c w' = addUser n ?t" for w' y
    using that n(1,4) unfolding P_def by (auto simp: user_tenant userNamed_def userStatusSet_def stored_def)
  have "runsTo (minioUser_update (cl_rec c) req u) w P"
    unfolding minioUser_update_def
  proof (rule anyRun_bind [OF minioUser_removeMigrate_faulty [OF q assms(2,3), where
          S = "\<lambda>y w'. cl_store c w' = Some y \<and> cl_tenant c w' = ?t \<and> metaStored (u_ObjectMeta u) (u_ObjectMeta y) \<and>
            us_AccessKey (u_Spec y) = n \<and> userCurrent y = Some cs \<and> \<not> us_Migrate (u_Spec y)"]], goal_cases)
    case (1 y w')
    with n cs P show ?case by (simp add: userCurrent_def)
  next
    case (2 y w1)
    then have y: "cl_store c w1 = Some y" "cl_tenant c w1 = ?t" "metaStored (u_ObjectMeta u) (u_ObjectMeta y)"
        "us_AccessKey (u_Spec y) = n" "userCurrent y = Some cs" "\<not> us_Migrate (u_Spec y)" "heldOnly (u_ObjectMeta y)"
      using assms(3) by (auto simp: heldOnly_stored)
    have kept: "P w'" if "cl_store c w' = Some y" "cl_tenant c w' = ?t \<or> userPresent n ?t \<and> cl_tenant c w' = addUser n ?t" for w'
      using P [OF that(1) y(3,4)] y(5) that(2) by blast
    have sent: "P w'" if "userSame z x" "u_ObjectMeta z = u_ObjectMeta y" "u_Spec z = u_Spec y" "cl_store c w' = Some x"
      "userCurrent z = Some cs \<or> userCurrent z = None \<and> \<not> userPresent n ?t"
      "cl_tenant c w' = ?t \<or> userPresent n ?t \<and> cl_tenant c w' = addUser n ?t" for w' x z
      using that y by (intro P [OF that(4)]) (auto simp: userSame_def userCurrent_def intro: metaStored_trans)
    show ?case
      unfolding y(5) deref_simps bindM_ret minioUser_syncSecretKey_def Let_def
    proof (intro run_admin [OF faultyUsers_api(2) [OF q]] run_userKey [OF n(2)] run_userInfo [OF q] anyRun_check, goal_cases)
      case (2 h w2 x w3)
      then have w3: "cl_store c w3 = Some y" "cl_tenant c w3 = ?t" using y by (simp_all add: keeps_def)
      show ?case
      proof (cases "isMadminErrorCode (errOf x) ''XMinioAdminNoSuchUser''")
        case True
        with 2 n y(2) have "\<not> userPresent n ?t" by (simp add: looksUp_def keeps_def)
        with True w3 y(7) show ?thesis
          by (simp, intro faulty_success [OF faultyUsers_api(1) [OF q] w3(1)])
            (auto intro: kept sent [of "setUserCurrent y None"])
      next
        case False
        with 2 have "errOf x = None" by (simp add: ignoreMadminErrorCode_eq_None)
        with 2 n y(2) have there: "userPresent n ?t" by (simp add: looksUp_def keeps_def)
        note step = run_if run_secret [OF faultyUsers_secret [OF q]] run_mutate [OF faultyUsers_add [OF q]]
          faulty_success [OF faultyUsers_api(1) [OF q], where x = y] anyRun_success
        show ?thesis using False
          by (simp, intro step)
            (use w3 n y(5,7) there in \<open>auto simp: keeps_def attempts_def moves_def intro: kept
              sent [of "setUserSecretVersion y v" for v]\<close>)
      qed
    qed (use y in \<open>auto simp: keeps_def intro: kept\<close>)
  qed
  then show ?thesis by (simp only: P_def)
qed

lemma minioUser_create_faulty:
  assumes q: "faultyUsers c" and "cl_store c w = Some u" and "heldOnly (u_ObjectMeta u)"
    and "userNamed n u" and "\<not> userStatusSet u"
  shows "runsTo (minioUser_create (cl_rec c) req u) w (\<lambda>w'. (userPresent n (cl_tenant c w) \<longrightarrow> userPresent n (cl_tenant c w')) \<and>
    otherUsers False n (cl_tenant c w') = otherUsers False n (cl_tenant c w) \<and>
    stored c (\<lambda>y. metaStored (u_ObjectMeta u) (u_ObjectMeta y) \<and> userNamed n y \<and>
      (if userStatusSet y then userPresent n (cl_tenant c w') else us_Migrate (u_Spec y) = us_Migrate (u_Spec u))) w')"
    (is "runsTo _ _ ?P")
proof -
  from assms(4) have n: "us_AccessKey (u_Spec u) = n" "us_AccessKey (u_Spec u) \<noteq> ''''" by (auto simp: userNamed_def)
  define P where "P = ?P"
  let ?t = "cl_tenant c w"
  have kept: "P w'" if "cl_store c w' = Some u" "cl_tenant c w' = ?t \<or> cl_tenant c w' = addUser n ?t" for w'
    using that assms(4,5) unfolding P_def by (auto simp: user_tenant stored_def)
  have recorded: "P w'" if "userSame z y" "u_ObjectMeta z = u_ObjectMeta u" "us_AccessKey (u_Spec z) = n"
    "userCurrent z = Some cs" "us_AccessKey cs = n" "cl_store c w' = Some y" "cl_tenant c w' = addUser n ?t" for w' y z cs
    using that n unfolding P_def by (auto simp: user_tenant userSame_defs)
  have "runsTo (minioUser_create (cl_rec c) req u) w P"
    unfolding minioUser_create_def Let_def
    by (intro run_admin [OF faultyUsers_api(2) [OF q]] run_userKey [OF n(2)] run_userInfo [OF q] anyRun_check
        run_secret [OF faultyUsers_secret [OF q]] run_mutate [OF faultyUsers_add [OF q]]
        faulty_success [OF faultyUsers_api(1) [OF q], where x = u])
      (use assms(2,3) n in \<open>auto simp: keeps_def attempts_def moves_def intro: kept recorded\<close>)
  then show ?thesis by (simp only: P_def)
qed

interpretation user_surviving: surviving minioUserReconciler_Reconcile minioUser_pass
  minioUser_delete minioUser_addFinalizer minioUser_update minioUser_create
  u_ObjectMeta "\<lambda>x m. x\<lparr>u_ObjectMeta := m\<rparr>" userStatusSet userSame
  quietUsers "\<lambda>u. us_Migrate (u_Spec u)" userNamed userPresent otherUsers "\<lambda>_ _ _. True"
  True "\<lambda>_ _ _. True" faultyUsers
  by unfold_locales
    (simp add: faultyUsers_api, (erule (4) minioUser_delete_faulty minioUser_update_faulty minioUser_create_faulty)+, simp)

section \<open>Groups\<close>

definition faultyGroups :: "('w, MinioGroup, tenantState) cluster \<Rightarrow> bool" where
  "faultyGroups c \<longleftrightarrow> faultyApi g_ObjectMeta groupSame c \<and> looksAround c \<and>
     (\<forall>w h n. answers (e_GetGroupDescription (r_env (cl_rec c)) w h n) (\<lambda>x w'. keeps c w w' \<and>
        looksUp ''XMinioAdminNoSuchGroup'' (groupPresent n (cl_tenant c w)) x)) \<and>
     (\<forall>w h n. answers (e_Mutate (r_env (cl_rec c)) w h (UpdateGroupMembers n NilSlice False)) (attempts c w (addGroup n))) \<and>
     (\<forall>w h n. answers (e_Mutate (r_env (cl_rec c)) w h (UpdateGroupMembers n NilSlice True)) (\<lambda>x w'.
        attempts c w (dropGroup n) x w' \<and>
        (isMadminErrorCode (errOf x) ''XMinioAdminNoSuchGroup'' \<longrightarrow> \<not> groupPresent n (cl_tenant c w'))))"

lemma faultyGroups_api: "faultyGroups c \<Longrightarrow> faultyApi g_ObjectMeta groupSame c" "faultyGroups c \<Longrightarrow> looksAround c"
  by (simp_all add: faultyGroups_def)

lemma faultyGroups_add:
  "faultyGroups c \<Longrightarrow>
   answers (e_Mutate (r_env (cl_rec c)) w h (UpdateGroupMembers n NilSlice False)) (attempts c w (addGroup n))"
  by (simp add: faultyGroups_def)

lemma faultyGroups_remove:
  "faultyGroups c \<Longrightarrow> answers (e_Mutate (r_env (cl_rec c)) w h (UpdateGroupMembers n NilSlice True)) (\<lambda>x w'.
     attempts c w (dropGroup n) x w' \<and>
     (isMadminErrorCode (errOf x) ''XMinioAdminNoSuchGroup'' \<longrightarrow> \<not> groupPresent n (cl_tenant c w')))"
  by (simp add: faultyGroups_def)

lemma run_describeGroup:
  assumes "faultyGroups c" and "\<And>x w'. keeps c w w' \<Longrightarrow>
    looksUp ''XMinioAdminNoSuchGroup'' (groupPresent n (cl_tenant c w)) x \<Longrightarrow> anyRun (f x) w' S P"
  shows "anyRun (bindM (attempt (queryM h (GetGroupDescription n)
    (\<lambda>w. e_GetGroupDescription (r_env (cl_rec c)) w h n))) f) w S P"
proof -
  have "answers (e_GetGroupDescription (r_env (cl_rec c)) w h n) (\<lambda>x w'. keeps c w w' \<and>
      looksUp ''XMinioAdminNoSuchGroup'' (groupPresent n (cl_tenant c w)) x)"
    using assms(1) by (simp add: faultyGroups_def)
  then show ?thesis unfolding queryM_def by (rule run_attempt) (use assms(2) in blast)
qed

lemma minioGroup_delete_faulty:
  assumes q: "faultyGroups c" and "cl_store c w = Some g" and "heldOnly (g_ObjectMeta g)"
    and "groupNamed n g" and "groupStatusSet g"
  shows "runsTo (minioGroup_delete (cl_rec c) g) w (\<lambda>w'. (groupPresent n (cl_tenant c w') \<longrightarrow> groupPresent n (cl_tenant c w)) \<and>
    otherGroups True n (cl_tenant c w') = otherGroups True n (cl_tenant c w) \<and>
    stored c (\<lambda>y. metaStored (g_ObjectMeta g) (g_ObjectMeta y) \<and> groupNamed n y \<and>
      (groupStatusSet y \<or> \<not> groupPresent n (cl_tenant c w'))) w')" (is "runsTo _ _ ?P")
proof -
  from assms(5) obtain cs where cs: "groupCurrent g = Some cs" by (auto simp: groupStatusSet_def)
  with assms(4) have n: "gs_Name cs = n" by (simp add: groupNamed_def)
  define P where "P = ?P"
  let ?t = "cl_tenant c w"
  have kept: "P w'" if "cl_store c w' = Some g" "cl_tenant c w' = ?t \<or> cl_tenant c w' = dropGroup n ?t" for w'
    using that assms(4,5) unfolding P_def by (auto simp: group_tenant stored_def)
  have cleared: "P w'" if "groupSame (setGroupCurrent g None) y" "cl_store c w' = Some y"
    "cl_tenant c w' = ?t \<or> cl_tenant c w' = dropGroup n ?t" "\<not> groupPresent n (cl_tenant c w')" for w' y
    using that assms(4) unfolding P_def by (auto simp: group_tenant groupSame_defs)
  have "runsTo (minioGroup_delete (cl_rec c) g) w P"
    unfolding minioGroup_delete_def cs option.case n
    by (intro run_admin [OF faultyGroups_api(2) [OF q]] run_attempt_mutate [OF faultyGroups_remove [OF q]] anyRun_check
        faulty_success [OF faultyGroups_api(1) [OF q], where x = g])
      (use assms(2,3) in \<open>auto simp: keeps_def attempts_def moves_def ignoreMadminErrorCode_eq_None
        dropGroup_def groupPresent_def intro: kept cleared\<close>)
  then show ?thesis by (simp only: P_def)
qed

lemma minioGroup_removeMigrate_faulty:
  assumes q: "faultyGroups c" and "cl_store c w = Some g" and "heldOnly (g_ObjectMeta g)"
    and "\<And>y w'. cl_store c w' = Some y \<Longrightarrow> cl_tenant c w' = cl_tenant c w \<Longrightarrow> metaStored (g_ObjectMeta g) (g_ObjectMeta y) \<Longrightarrow>
      gs_Name (g_Spec y) = gs_Name (g_Spec g) \<Longrightarrow> g_Status y = g_Status g \<Longrightarrow> P w' \<and> (\<not> gs_Migrate (g_Spec y) \<longrightarrow> S y w')"
  shows "anyRun (minioGroup_removeMigrate (cl_rec c) g) w S P"
proof (cases "gs_Migrate (g_Spec g)")
  case True
  then show ?thesis
    unfolding minioGroup_removeMigrate_def
    by (simp, intro faulty_update [OF faultyGroups_api(1) [OF q] assms(2)])
      (use assms(2-4) in \<open>auto simp: groupSame_def metaStored_refl\<close>)
next
  case False
  with assms(2,4) show ?thesis unfolding minioGroup_removeMigrate_def by (simp add: anyRun_ret metaStored_refl)
qed

lemma minioGroup_update_faulty:
  assumes q: "faultyGroups c" and "cl_store c w = Some g" and "heldOnly (g_ObjectMeta g)"
    and "groupNamed n g" and "groupStatusSet g"
  shows "runsTo (minioGroup_update (cl_rec c) g) w (\<lambda>w'. groupPresent n (cl_tenant c w') = groupPresent n (cl_tenant c w) \<and>
    otherGroups False n (cl_tenant c w') = otherGroups False n (cl_tenant c w) \<and>
    stored c (\<lambda>y. metaStored (g_ObjectMeta g) (g_ObjectMeta y) \<and> groupNamed n y \<and>
      (groupStatusSet y \<or> \<not> gs_Migrate (g_Spec y) \<and> \<not> groupPresent n (cl_tenant c w))) w')" (is "runsTo _ _ ?P")
proof -
  from assms(5) obtain cs where cs: "groupCurrent g = Some cs" by (auto simp: groupStatusSet_def)
  with assms(4) have n: "gs_Name cs = n" "gs_Name (g_Spec g) = n" by (simp_all add: groupNamed_def)
  define P where "P = ?P"
  let ?t = "cl_tenant c w"
  have P: "P w'" if "cl_store c w' = Some y" "metaStored (g_ObjectMeta g) (g_ObjectMeta y)" "gs_Name (g_Spec y) = n"
      "groupCurrent y = Some cs \<or> groupCurrent y = None \<and> \<not> gs_Migrate (g_Spec y) \<and> \<not> groupPresent n ?t"
      "cl_tenant c w' = ?t" for w' y
    using that n(1) unfolding P_def by (auto simp: groupNamed_def groupStatusSet_def stored_def)
  have "runsTo (minioGroup_update (cl_rec c) g) w P"
    unfolding minioGroup_update_def
  proof (rule anyRun_bind [OF minioGroup_removeMigrate_faulty [OF q assms(2,3), where
          S = "\<lambda>y w'. cl_store c w' = Some y \<and> cl_tenant c w' = ?t \<and> metaStored (g_ObjectMeta g) (g_ObjectMeta y) \<and>
            gs_Name (g_Spec y) = n \<and> groupCurrent y = Some cs \<and> \<not> gs_Migrate (g_Spec y)"]], goal_cases)
    case (1 y w')
    with n cs P show ?case by (simp add: groupCurrent_def)
  next
    case (2 y w1)
    then have y: "cl_store c w1 = Some y" "cl_tenant c w1 = ?t" "metaStored (g_ObjectMeta g) (g_ObjectMeta y)"
        "gs_Name (g_Spec y) = n" "groupCurrent y = Some cs" "\<not> gs_Migrate (g_Spec y)" "heldOnly (g_ObjectMeta y)"
      using assms(3) by (auto simp: heldOnly_stored)
    have kept: "P w'" if "cl_store c w' = Some y" "cl_tenant c w' = ?t" for w'
      using P [OF that(1) y(3,4)] y(5) that(2) by blast
    have cleared: "P w'" if "groupSame (setGroupCurrent y None) x" "cl_store c w' = Some x" "\<not> groupPresent n ?t"
      "cl_tenant c w' = ?t" for w' x
      using that y by (intro P [OF that(2)])
        (auto simp: groupSame_def groupCurrent_def setGroupCurrent_def intro: metaStored_trans)
    show ?case
      unfolding y(5) deref_simps bindM_ret Let_def n(1)
      by (intro run_admin [OF faultyGroups_api(2) [OF q]] run_describeGroup [OF q] anyRun_check run_if anyRun_success
          faulty_success [OF faultyGroups_api(1) [OF q], where x = y])
        (use y in \<open>auto simp: keeps_def looksUp_def intro: kept cleared\<close>)
  qed
  then show ?thesis by (simp only: P_def)
qed

lemma minioGroup_create_faulty:
  assumes q: "faultyGroups c" and "cl_store c w = Some g" and "heldOnly (g_ObjectMeta g)"
    and "groupNamed n g" and "\<not> groupStatusSet g"
  shows "runsTo (minioGroup_create (cl_rec c) g) w (\<lambda>w'. (groupPresent n (cl_tenant c w) \<longrightarrow> groupPresent n (cl_tenant c w')) \<and>
    otherGroups False n (cl_tenant c w') = otherGroups False n (cl_tenant c w) \<and>
    stored c (\<lambda>y. metaStored (g_ObjectMeta g) (g_ObjectMeta y) \<and> groupNamed n y \<and>
      (if groupStatusSet y then groupPresent n (cl_tenant c w') else gs_Migrate (g_Spec y) = gs_Migrate (g_Spec g))) w')"
    (is "runsTo _ _ ?P")
proof -
  from assms(4) have n: "gs_Name (g_Spec g) = n" by (simp add: groupNamed_def)
  define P where "P = ?P"
  let ?t = "cl_tenant c w"
  have kept: "P w'" if "cl_store c w' = Some g" "cl_tenant c w' = ?t \<or> cl_tenant c w' = addGroup n ?t" for w'
    using that assms(4,5) unfolding P_def by (auto simp: group_tenant stored_def)
  have recorded: "P w'" if "groupSame z y" "g_ObjectMeta z = g_ObjectMeta g" "gs_Name (g_Spec z) = n"
    "groupCurrent z = Some cs" "gs_Name cs = n" "cl_store c w' = Some y" "cl_tenant c w' = addGroup n ?t" for w' y z cs
    using that unfolding P_def by (auto simp: group_tenant groupSame_defs)
  have "runsTo (minioGroup_create (cl_rec c) g) w P"
    unfolding minioGroup_create_def Let_def n
    by (intro run_admin [OF faultyGroups_api(2) [OF q]] run_describeGroup [OF q] anyRun_check
        run_mutate [OF faultyGroups_add [OF q]] faulty_success [OF faultyGroups_api(1) [OF q], where x = g])
      (use assms(2,3) n in \<open>auto simp: keeps_def attempts_def moves_def intro: kept recorded\<close>)
  then show ?thesis by (simp only: P_def)
qed

interpretation group_surviving: surviving minioGroupReconciler_Reconcile minioGroup_pass
  minioGroup_delete minioGroup_addFinalizer "\<lambda>r _. minioGroup_update r" "\<lambda>r _. minioGroup_create r"
  g_ObjectMeta "\<lambda>g m. g\<lparr>g_ObjectMeta := m\<rparr>" groupStatusSet groupSame
  quietGroups "\<lambda>g. gs_Migrate (g_Spec g)" groupNamed groupPresent otherGroups "\<lambda>_ _ _. True"
  True groupPossible faultyGroups
  by unfold_locales
    (simp add: faultyGroups_api, (erule (4) minioGroup_delete_faulty minioGroup_update_faulty minioGroup_create_faulty)+,
     simp add: groupPossible_def)

section \<open>Memberships\<close>

definition faultyMembers :: "('w, MinioGroupBinding, tenantState) cluster \<Rightarrow> bool" where
  "faultyMembers c \<longleftrightarrow> faultyApi gb_ObjectMeta groupBindingSame c \<and> looksAround c \<and>
     (\<forall>w h g. answers (e_GetGroupDescription (r_env (cl_rec c)) w h g) (\<lambda>x w'. keeps c w w' \<and>
        (\<forall>ms u. x = Inr ms \<longrightarrow> g \<in> ts_groups (cl_tenant c w) \<and>
          (u \<in> set ms \<longleftrightarrow> (g, u) \<in> ts_members (cl_tenant c w))))) \<and>
     (\<forall>w h g u. g \<in> ts_groups (cl_tenant c w) \<longrightarrow>
        answers (e_Mutate (r_env (cl_rec c)) w h (UpdateGroupMembers g (Slice [u]) False))
          (attemptsIf (memberPossible False (g, u) (cl_tenant c w)) c w (addMember (g, u)))) \<and>
     (\<forall>w h g u. answers (e_Mutate (r_env (cl_rec c)) w h (UpdateGroupMembers g (Slice [u]) True)) (\<lambda>x w'.
        attempts c w (dropMember (g, u)) x w' \<and>
        (isMadminErrorCode (errOf x) ''XMinioAdminNoSuchUser'' \<longrightarrow> \<not> memberPresent (g, u) (cl_tenant c w'))))"

lemma faultyMembers_api: "faultyMembers c \<Longrightarrow> faultyApi gb_ObjectMeta groupBindingSame c" "faultyMembers c \<Longrightarrow> looksAround c"
  by (simp_all add: faultyMembers_def)

lemma faultyMembers_add:
  "faultyMembers c \<Longrightarrow> g \<in> ts_groups (cl_tenant c w) \<Longrightarrow>
   answers (e_Mutate (r_env (cl_rec c)) w h (UpdateGroupMembers g (Slice [u]) False))
     (attemptsIf (memberPossible False (g, u) (cl_tenant c w)) c w (addMember (g, u)))"
  by (simp add: faultyMembers_def)

lemma faultyMembers_remove:
  "faultyMembers c \<Longrightarrow> answers (e_Mutate (r_env (cl_rec c)) w h (UpdateGroupMembers g (Slice [u]) True)) (\<lambda>x w'.
     attempts c w (dropMember (g, u)) x w' \<and>
     (isMadminErrorCode (errOf x) ''XMinioAdminNoSuchUser'' \<longrightarrow> \<not> memberPresent (g, u) (cl_tenant c w')))"
  by (simp add: faultyMembers_def)

lemma run_describeMembers:
  assumes "faultyMembers c" and "\<And>w'. keeps c w w' \<Longrightarrow> P w'" and "\<And>ms w'. keeps c w w' \<Longrightarrow>
    g \<in> ts_groups (cl_tenant c w) \<Longrightarrow> (\<And>u. u \<in> set ms \<longleftrightarrow> memberPresent (g, u) (cl_tenant c w)) \<Longrightarrow> anyRun (f ms) w' S P"
  shows "anyRun (bindM (queryM h (GetGroupDescription g) (\<lambda>w. e_GetGroupDescription (r_env (cl_rec c)) w h g)) f) w S P"
proof -
  have "answers (e_GetGroupDescription (r_env (cl_rec c)) w h g) (\<lambda>x w'. keeps c w w' \<and>
      (\<forall>ms u. x = Inr ms \<longrightarrow> g \<in> ts_groups (cl_tenant c w) \<and>
        (u \<in> set ms \<longleftrightarrow> memberPresent (g, u) (cl_tenant c w))))"
    using assms(1) by (simp add: faultyMembers_def memberPresent_def)
  then show ?thesis unfolding queryM_def by (rule run_call) (use assms(2,3) in blast)+
qed

lemma minioGroupBinding_delete_faulty:
  assumes q: "faultyMembers c" and "cl_store c w = Some gb" and "heldOnly (gb_ObjectMeta gb)"
    and "memberNamed n gb" and "groupBindingStatusSet gb"
  shows "runsTo (minioGroupBinding_delete (cl_rec c) gb) w (\<lambda>w'.
    (memberPresent n (cl_tenant c w') \<longrightarrow> memberPresent n (cl_tenant c w)) \<and>
    otherMembers True n (cl_tenant c w') = otherMembers True n (cl_tenant c w) \<and>
    stored c (\<lambda>y. metaStored (gb_ObjectMeta gb) (gb_ObjectMeta y) \<and> memberNamed n y \<and>
      (groupBindingStatusSet y \<or> \<not> memberPresent n (cl_tenant c w'))) w')" (is "runsTo _ _ ?P")
proof -
  from assms(5) obtain cs where cs: "groupBindingCurrent gb = Some cs" by (auto simp: groupBindingStatusSet_def)
  with assms(4) have n: "(gbs_Group cs, gbs_User cs) = n" by (auto simp: memberNamed_def membership_def)
  define P where "P = ?P"
  let ?t = "cl_tenant c w"
  have kept: "P w'" if "cl_store c w' = Some gb" "cl_tenant c w' = ?t \<or> cl_tenant c w' = dropMember n ?t" for w'
    using that assms(4,5) unfolding P_def by (auto simp: member_tenant stored_def)
  have cleared: "P w'" if "groupBindingSame (setGroupBindingCurrent gb None) y" "cl_store c w' = Some y"
    "cl_tenant c w' = ?t \<or> cl_tenant c w' = dropMember n ?t" "\<not> memberPresent n (cl_tenant c w')" for w' y
    using that assms(4) unfolding P_def by (auto simp: member_tenant groupBindingSame_defs)
  have "runsTo (minioGroupBinding_delete (cl_rec c) gb) w P"
    unfolding minioGroupBinding_delete_def deleteGroupMember_def cs option.case deref_simps bindM_ret bindM_assoc
    by (intro run_admin [OF faultyMembers_api(2) [OF q]]
        run_attempt_mutate [OF faultyMembers_remove [OF q, of _ _ "gbs_Group cs" "gbs_User cs", unfolded n]] anyRun_check
        faulty_success [OF faultyMembers_api(1) [OF q], where x = gb])
      (use assms(2,3) in \<open>auto simp: keeps_def attempts_def moves_def ignoreMadminErrorCode_eq_None
        dropMember_def memberPresent_def intro: kept cleared\<close>)
  then show ?thesis by (simp only: P_def)
qed

lemma minioGroupBinding_removeMigrate_faulty:
  assumes q: "faultyMembers c" and "cl_store c w = Some gb" and "heldOnly (gb_ObjectMeta gb)"
    and "\<And>y w'. cl_store c w' = Some y \<Longrightarrow> cl_tenant c w' = cl_tenant c w \<Longrightarrow>
      metaStored (gb_ObjectMeta gb) (gb_ObjectMeta y) \<Longrightarrow>
      gb_Spec y = gb_Spec gb \<or> gb_Spec y = (gb_Spec gb)\<lparr>gbs_Migrate := False\<rparr> \<Longrightarrow>
      gb_Status y = gb_Status gb \<Longrightarrow> P w' \<and> (gb_Spec y = (gb_Spec gb)\<lparr>gbs_Migrate := False\<rparr> \<longrightarrow> S y w')"
  shows "anyRun (minioGroupBinding_removeMigrate (cl_rec c) gb) w S P"
proof (cases "gbs_Migrate (gb_Spec gb)")
  case True
  then show ?thesis
    unfolding minioGroupBinding_removeMigrate_def
    by (simp, intro faulty_update [OF faultyMembers_api(1) [OF q] assms(2)])
      (use assms(2-4) in \<open>auto simp: groupBindingSame_def metaStored_refl\<close>)
next
  case False
  then have "(gb_Spec gb)\<lparr>gbs_Migrate := False\<rparr> = gb_Spec gb" by (cases "gb_Spec gb") simp
  with False assms(2,4) show ?thesis
    unfolding minioGroupBinding_removeMigrate_def by (simp add: anyRun_ret metaStored_refl)
qed

lemma minioGroupBinding_update_faulty:
  assumes q: "faultyMembers c" and "cl_store c w = Some gb" and "heldOnly (gb_ObjectMeta gb)"
    and "memberNamed n gb" and "groupBindingStatusSet gb"
  shows "runsTo (minioGroupBinding_update (cl_rec c) gb) w (\<lambda>w'.
    memberPresent n (cl_tenant c w') = memberPresent n (cl_tenant c w) \<and>
    otherMembers False n (cl_tenant c w') = otherMembers False n (cl_tenant c w) \<and>
    stored c (\<lambda>y. metaStored (gb_ObjectMeta gb) (gb_ObjectMeta y) \<and> memberNamed n y \<and>
      (groupBindingStatusSet y \<or> \<not> gbs_Migrate (gb_Spec y) \<and> \<not> memberPresent n (cl_tenant c w))) w')" (is "runsTo _ _ ?P")
proof -
  let ?s = "(gb_Spec gb)\<lparr>gbs_Migrate := False\<rparr>" let ?t = "cl_tenant c w"
  from assms(4,5) have cs: "groupBindingCurrent gb = Some ?s" and n: "membership (gb_Spec gb) = n"
    by (auto simp: groupBindingStatusSet_def memberNamed_def)
  define P where "P = ?P"
  have P: "P w'" if "cl_store c w' = Some y" "metaStored (gb_ObjectMeta gb) (gb_ObjectMeta y)"
      "gb_Spec y = gb_Spec gb \<or> gb_Spec y = ?s"
      "groupBindingCurrent y = Some ?s \<or> groupBindingCurrent y = None \<and> \<not> gbs_Migrate (gb_Spec y) \<and> \<not> memberPresent n ?t"
      "cl_tenant c w' = ?t" for w' y
    using that n unfolding P_def by (auto simp: memberNamed_def groupBindingStatusSet_def stored_def)
  have "runsTo (minioGroupBinding_update (cl_rec c) gb) w P"
    unfolding minioGroupBinding_update_def
  proof (rule anyRun_bind [OF minioGroupBinding_removeMigrate_faulty [OF q assms(2,3), where
          S = "\<lambda>y w'. cl_store c w' = Some y \<and> cl_tenant c w' = ?t \<and> metaStored (gb_ObjectMeta gb) (gb_ObjectMeta y) \<and>
            gb_Spec y = ?s \<and> groupBindingCurrent y = Some ?s"]], goal_cases)
    case (1 y w')
    with cs P show ?case by (simp add: groupBindingCurrent_def)
  next
    case (2 y w1)
    then have y: "cl_store c w1 = Some y" "cl_tenant c w1 = ?t" "metaStored (gb_ObjectMeta gb) (gb_ObjectMeta y)"
        "gb_Spec y = ?s" "groupBindingCurrent y = Some ?s" "heldOnly (gb_ObjectMeta y)"
      using assms(3) by (auto simp: heldOnly_stored)
    have kept: "P w'" if "cl_store c w' = Some y" "cl_tenant c w' = ?t" for w'
      using P [OF that(1) y(3)] y(4,5) that(2) by blast
    have cleared: "P w'" if "groupBindingSame (setGroupBindingCurrent y None) x" "cl_store c w' = Some x"
      "\<not> memberPresent n ?t" "cl_tenant c w' = ?t" for w' x
      using that y by (intro P [OF that(2)])
        (auto simp: groupBindingSame_def groupBindingCurrent_def setGroupBindingCurrent_def intro: metaStored_trans)
    have same: "(?s \<noteq> gb_Spec y) = False" using y(4) by simp
    show ?case
      unfolding y(5) deref_simps bindM_ret same if_False
      by (intro run_admin [OF faultyMembers_api(2) [OF q]] run_describeMembers [OF q] anyRun_check run_if anyRun_success
          faulty_success [OF faultyMembers_api(1) [OF q], where x = y])
        (use y n in \<open>auto simp: keeps_def membership_def intro: kept cleared\<close>)
  qed
  then show ?thesis by (simp only: P_def)
qed

lemma minioGroupBinding_create_faulty:
  assumes q: "faultyMembers c" and "cl_store c w = Some gb" and "heldOnly (gb_ObjectMeta gb)"
    and "memberNamed n gb" and "\<not> groupBindingStatusSet gb"
  shows "runsTo (minioGroupBinding_create (cl_rec c) gb) w (\<lambda>w'.
    (memberPresent n (cl_tenant c w) \<longrightarrow> memberPresent n (cl_tenant c w')) \<and>
    otherMembers False n (cl_tenant c w') = otherMembers False n (cl_tenant c w) \<and>
    stored c (\<lambda>y. metaStored (gb_ObjectMeta gb) (gb_ObjectMeta y) \<and> memberNamed n y \<and>
      (if groupBindingStatusSet y then memberPresent n (cl_tenant c w')
       else gbs_Migrate (gb_Spec y) = gbs_Migrate (gb_Spec gb))) w')"
    (is "runsTo _ _ ?P")
proof -
  from assms(4) have n: "(gbs_Group (gb_Spec gb), gbs_User (gb_Spec gb)) = n" by (simp add: memberNamed_def membership_def)
  define P where "P = ?P"
  let ?t = "cl_tenant c w" let ?s = "(gb_Spec gb)\<lparr>gbs_Migrate := False\<rparr>"
  have kept: "P w'" if "cl_store c w' = Some gb" "cl_tenant c w' = ?t \<or> cl_tenant c w' = addMember n ?t" for w'
    using that assms(4,5) unfolding P_def by (auto simp: member_tenant stored_def)
  have recorded: "P w'" if "groupBindingSame (setGroupBindingCurrent (gb\<lparr>gb_Spec := ?s\<rparr>) (Some ?s)) y"
    "cl_store c w' = Some y" "cl_tenant c w' = addMember n ?t" for w' y
    using that n unfolding P_def by (auto simp: member_tenant groupBindingSame_defs membership_def)
  have "runsTo (minioGroupBinding_create (cl_rec c) gb) w P"
    unfolding minioGroupBinding_create_def Let_def
    by (intro run_admin [OF faultyMembers_api(2) [OF q]] run_describeMembers [OF q] anyRun_check
        run_mutate [OF faultyMembers_add [OF q, of "gbs_Group (gb_Spec gb)" _ _ "gbs_User (gb_Spec gb)", unfolded n]]
        faulty_success [OF faultyMembers_api(1) [OF q], where x = gb])
      (use assms(2,3) in \<open>auto simp: keeps_def attemptsIf_def attempts_def moves_def intro: kept recorded split: if_splits\<close>)
  then show ?thesis by (simp only: P_def)
qed

lemma minioGroupBinding_create_faulty_waits:
  assumes q: "faultyMembers c" and "memberNamed n gb" and "\<not> memberPossible False n (cl_tenant c w)"
  shows "runsTo (minioGroupBinding_create (cl_rec c) gb) w (keeps c w)"
proof -
  from assms(2) have n: "(gbs_Group (gb_Spec gb), gbs_User (gb_Spec gb)) = n" by (simp add: memberNamed_def membership_def)
  show ?thesis
    unfolding minioGroupBinding_create_def Let_def
    by (intro run_admin [OF faultyMembers_api(2) [OF q]] run_describeMembers [OF q] anyRun_check
        run_mutate [OF faultyMembers_add [OF q, of "gbs_Group (gb_Spec gb)" _ _ "gbs_User (gb_Spec gb)", unfolded n]])
      (use assms(3) in \<open>auto simp: keeps_def attemptsIf_def split: if_splits\<close>)
qed

interpretation member_surviving: surviving minioGroupBindingReconciler_Reconcile
  minioGroupBinding_pass minioGroupBinding_delete minioGroupBinding_addFinalizer
  "\<lambda>r _. minioGroupBinding_update r" "\<lambda>r _. minioGroupBinding_create r"
  gb_ObjectMeta "\<lambda>x m. x\<lparr>gb_ObjectMeta := m\<rparr>" groupBindingStatusSet groupBindingSame
  quietMembers "\<lambda>gb. gbs_Migrate (gb_Spec gb)" memberNamed memberPresent otherMembers "\<lambda>_ _ _. True"
  True memberPossible faultyMembers
  by unfold_locales
    (simp add: faultyMembers_api,
     (erule (4) minioGroupBinding_delete_faulty minioGroupBinding_update_faulty minioGroupBinding_create_faulty)+,
     erule (1) minioGroupBinding_create_faulty_waits)

end
