(* ===== verification/Faulty_Policies.thy ===== *)
theory Faulty_Policies
  imports Faults
begin

text \<open>
  Policies and policy bindings in clusters where requests fail: what the documented answers of a tenant
  still promise there, and that the two reconcilers keep the laws of \<open>surviving\<close>.
\<close>

section \<open>Policy bindings\<close>

definition faultyAttachments ::
  "(string \<Rightarrow> string) \<Rightarrow> string \<Rightarrow> ('w, MinioPolicyBinding, tenantState) cluster \<Rightarrow> bool" where
  "faultyAttachments dn base c \<longleftrightarrow> faultyApi pb_ObjectMeta policyBindingSame c \<and> looksAround c \<and>
     (\<forall>w h p. answers (e_GetPolicyEntities (r_env (cl_rec c)) w h p) (\<lambda>x w'. keeps c w w' \<and>
        (\<forall>pms. x = Inr pms \<longrightarrow> listsAttached (ts_attached (cl_tenant c w)) False p pms))) \<and>
     (\<forall>w h p. answers (e_GetLDAPPolicyEntities (r_env (cl_rec c)) w h p) (\<lambda>x w'. keeps c w w' \<and>
        (\<forall>pms. x = Inr pms \<longrightarrow> listsAttached (ts_attached (cl_tenant c w)) True p pms))) \<and>
     (\<forall>w h. answers (e_GetIDPConfig (r_env (cl_rec c)) w h ''ldap'' '''') (\<lambda>x w'. keeps c w w' \<and>
        (\<forall>info. x = Inr info \<longrightarrow> userSearchBase info = base))) \<and>
     (\<forall>w h spec. oneIdentity spec \<longrightarrow> answers (e_Mutate (r_env (cl_rec c)) w h (attachRequest spec)) (\<lambda>x w'.
        attemptsIf (bindingPossible False (attachment dn spec) (cl_tenant c w)) c w (attach (attachment dn spec)) x w' \<and>
        (isMadminErrorCode (errOf x) ''XMinioAdminPolicyChangeAlreadyApplied'' \<longrightarrow>
           bindingPossible False (attachment dn spec) (cl_tenant c w) \<and> bindingPresent (attachment dn spec) (cl_tenant c w')))) \<and>
     (\<forall>w h spec. oneIdentity spec \<longrightarrow> answers (e_Mutate (r_env (cl_rec c)) w h (detachRequest spec)) (\<lambda>x w'.
        attempts c w (detach (attachment dn spec)) x w' \<and>
        (isMadminErrorCode (errOf x) ''XMinioAdminNoSuchUser'' \<or> isMadminErrorCode (errOf x) ''XMinioAdminNoSuchGroup'' \<longrightarrow>
           \<not> bindingPresent (attachment dn spec) (cl_tenant c w'))))"

lemma faultyAttachments_api:
  "faultyAttachments dn base c \<Longrightarrow> faultyApi pb_ObjectMeta policyBindingSame c" "faultyAttachments dn base c \<Longrightarrow> looksAround c"
  by (simp_all add: faultyAttachments_def)

lemma faultyAttachments_attach:
  "faultyAttachments dn base c \<Longrightarrow> oneIdentity spec \<Longrightarrow> attachment dn spec = n \<Longrightarrow>
   answers (e_Mutate (r_env (cl_rec c)) w h (attachRequest spec)) (\<lambda>x w'.
     attemptsIf (bindingPossible False n (cl_tenant c w)) c w (attach n) x w' \<and>
     (isMadminErrorCode (errOf x) ''XMinioAdminPolicyChangeAlreadyApplied'' \<longrightarrow>
        bindingPossible False n (cl_tenant c w) \<and> bindingPresent n (cl_tenant c w')))"
  by (auto simp: faultyAttachments_def)

lemma faultyAttachments_detach:
  "faultyAttachments dn base c \<Longrightarrow> oneIdentity spec \<Longrightarrow> attachment dn spec = n \<Longrightarrow>
   answers (e_Mutate (r_env (cl_rec c)) w h (detachRequest spec)) (\<lambda>x w'. attempts c w (detach n) x w' \<and>
     (isMadminErrorCode (errOf x) ''XMinioAdminNoSuchUser'' \<or> isMadminErrorCode (errOf x) ''XMinioAdminNoSuchGroup'' \<longrightarrow>
        \<not> bindingPresent n (cl_tenant c w')))"
  by (auto simp: faultyAttachments_def)

lemma faultyAttachments_listings:
  assumes "faultyAttachments dn base c"
  shows "answers (e_GetPolicyEntities (r_env (cl_rec c)) w h p) (\<lambda>x w'. keeps c w w' \<and>
      (\<forall>pms. x = Inr pms \<longrightarrow> listsAttached (ts_attached (cl_tenant c w)) False p pms))"
    and "answers (e_GetLDAPPolicyEntities (r_env (cl_rec c)) w h p) (\<lambda>x w'. keeps c w w' \<and>
      (\<forall>pms. x = Inr pms \<longrightarrow> listsAttached (ts_attached (cl_tenant c w)) True p pms))"
    and "answers (e_GetIDPConfig (r_env (cl_rec c)) w h ''ldap'' '''') (\<lambda>x w'. keeps c w w' \<and>
      (\<forall>info. x = Inr info \<longrightarrow> userSearchBase info = base))"
  using assms by (simp_all add: faultyAttachments_def)

lemma run_bindingFound:
  assumes q: "faultyAttachments dn base c" and "oneIdentity cs" and "findable dn base cs"
    and P: "\<And>w'. keeps c w w' \<Longrightarrow> P w'"
    and f: "\<And>found w'. keeps c w w' \<Longrightarrow> found \<longleftrightarrow> bindingPresent (attachment dn cs) (cl_tenant c w) \<Longrightarrow>
      anyRun (f found) w' S P"
  shows "anyRun (bindM (bindingFound (cl_rec c) h cs) f) w S P"
proof -
  show ?thesis
  proof (cases "bindingLdap cs")
    case True
    show ?thesis
      unfolding bindingFound_def Let_def if_P [OF True] bindM_assoc queryM_def bindM_ret
    proof (rule run_call [OF faultyAttachments_listings(2) [OF q]], goal_cases)
      case (2 pms w1)
      then have w1: "keeps c w w1" "listsAttached (ts_attached (cl_tenant c w)) True (pbs_Policy cs) pms" by simp_all
      show ?case
      proof (rule run_call [OF faultyAttachments_listings(3) [OF q]], goal_cases)
        case (2 info w2)
        then have w2: "keeps c w w2" "userSearchBase info = base" using keeps_trans [OF w1(1)] by simp_all
        show ?case
          by (rule f [OF w2(1)], unfold listed_found [OF w1(2)] w2(2))
            (use assms(2,3) True in \<open>auto simp: findable_def attachment_def oneIdentity_def bindingNames_def
              bindingPresent_def Let_def\<close>)
      qed (use P keeps_trans [OF w1(1)] in blast)
    qed (use P in blast)
  next
    case False
    show ?thesis
      unfolding bindingFound_def Let_def if_not_P [OF False] bindM_assoc queryM_def bindM_ret
    proof (rule run_call [OF faultyAttachments_listings(1) [OF q]], goal_cases)
      case (2 pms w1)
      then have w1: "keeps c w w1" "listsAttached (ts_attached (cl_tenant c w)) False (pbs_Policy cs) pms" by simp_all
      show ?case
        by (rule f [OF w1(1)], unfold listed_found [OF w1(2)])
          (use assms(2) False in \<open>auto simp: attachment_def oneIdentity_def bindingNames_def bindingPresent_def Let_def\<close>)
    qed (use P in blast)
  qed
qed

lemma minioPolicyBinding_delete_faulty:
  assumes q: "faultyAttachments dn base c" and "cl_store c w = Some pb" and "heldOnly (pb_ObjectMeta pb)"
    and "bindingNamed dn base n pb" and "policyBindingStatusSet pb"
  shows "runsTo (minioPolicyBinding_delete (cl_rec c) pb) w (\<lambda>w'.
    (bindingPresent n (cl_tenant c w') \<longrightarrow> bindingPresent n (cl_tenant c w)) \<and>
    otherBindings True n (cl_tenant c w') = otherBindings True n (cl_tenant c w) \<and>
    stored c (\<lambda>y. metaStored (pb_ObjectMeta pb) (pb_ObjectMeta y) \<and> bindingNamed dn base n y \<and>
      (policyBindingStatusSet y \<or> \<not> bindingPresent n (cl_tenant c w'))) w')" (is "runsTo _ _ ?P")
proof -
  from assms(5) obtain cs where cs: "policyBindingCurrent pb = Some cs" by (auto simp: policyBindingStatusSet_def)
  with assms(4) have n: "oneIdentity cs" "attachment dn cs = n" by (auto simp: bindingNamed_def)
  define P where "P = ?P"
  let ?t = "cl_tenant c w"
  have kept: "P w'" if "cl_store c w' = Some pb" "cl_tenant c w' = ?t \<or> cl_tenant c w' = detach n ?t" for w'
    using that assms(4,5) unfolding P_def by (auto simp: binding_tenant stored_def)
  have cleared: "P w'" if "policyBindingSame (setPolicyBindingCurrent pb None) y" "cl_store c w' = Some y"
    "cl_tenant c w' = ?t \<or> cl_tenant c w' = detach n ?t" "\<not> bindingPresent n (cl_tenant c w')" for w' y
    using that assms(4) unfolding P_def by (auto simp: binding_tenant policyBindingSame_defs)
  have "runsTo (minioPolicyBinding_delete (cl_rec c) pb) w P"
    unfolding minioPolicyBinding_delete_def detachPolicyMember_def cs option.case deref_simps bindM_ret bindM_assoc Let_def
    by (intro run_admin [OF faultyAttachments_api(2) [OF q]]
        run_attempt_mutate [OF faultyAttachments_detach [OF q n]] anyRun_check
        faulty_success [OF faultyAttachments_api(1) [OF q], where x = pb])
      (use assms(2,3) in \<open>auto simp: keeps_def attempts_def moves_def ignoreMadminErrorCode_def
        detach_def bindingPresent_def intro: kept cleared split: if_splits\<close>)
  then show ?thesis by (simp only: P_def)
qed

lemma minioPolicyBinding_removeMigrate_faulty:
  assumes q: "faultyAttachments dn base c" and "cl_store c w = Some pb" and "heldOnly (pb_ObjectMeta pb)"
    and "\<And>y w'. cl_store c w' = Some y \<Longrightarrow> cl_tenant c w' = cl_tenant c w \<Longrightarrow>
      metaStored (pb_ObjectMeta pb) (pb_ObjectMeta y) \<Longrightarrow>
      pb_Spec y = pb_Spec pb \<or> pb_Spec y = (pb_Spec pb)\<lparr>pbs_Migrate := False\<rparr> \<Longrightarrow>
      pb_Status y = pb_Status pb \<Longrightarrow> P w' \<and> (pb_Spec y = (pb_Spec pb)\<lparr>pbs_Migrate := False\<rparr> \<longrightarrow> S y w')"
  shows "anyRun (minioPolicyBinding_removeMigrate (cl_rec c) pb) w S P"
proof (cases "pbs_Migrate (pb_Spec pb)")
  case True
  then show ?thesis
    unfolding minioPolicyBinding_removeMigrate_def
    by (simp, intro faulty_update [OF faultyAttachments_api(1) [OF q] assms(2)])
      (use assms(2-4) in \<open>auto simp: policyBindingSame_def metaStored_refl\<close>)
next
  case False
  then have "(pb_Spec pb)\<lparr>pbs_Migrate := False\<rparr> = pb_Spec pb" by (cases "pb_Spec pb") simp
  with False assms(2,4) show ?thesis
    unfolding minioPolicyBinding_removeMigrate_def by (simp add: anyRun_ret metaStored_refl)
qed

lemma minioPolicyBinding_update_faulty:
  assumes q: "faultyAttachments dn base c" and "cl_store c w = Some pb" and "heldOnly (pb_ObjectMeta pb)"
    and "bindingNamed dn base n pb" and "policyBindingStatusSet pb"
  shows "runsTo (minioPolicyBinding_update (cl_rec c) pb) w (\<lambda>w'.
    bindingPresent n (cl_tenant c w') = bindingPresent n (cl_tenant c w) \<and>
    otherBindings False n (cl_tenant c w') = otherBindings False n (cl_tenant c w) \<and>
    stored c (\<lambda>y. metaStored (pb_ObjectMeta pb) (pb_ObjectMeta y) \<and> bindingNamed dn base n y \<and>
      (policyBindingStatusSet y \<or> \<not> pbs_Migrate (pb_Spec y) \<and> \<not> bindingPresent n (cl_tenant c w))) w')"
    (is "runsTo _ _ ?P")
proof -
  let ?s = "(pb_Spec pb)\<lparr>pbs_Migrate := False\<rparr>" let ?t = "cl_tenant c w"
  from assms(4,5) have cs: "policyBindingCurrent pb = Some ?s"
    and n: "attachment dn ?s = n" "oneIdentity ?s" "findable dn base ?s"
    by (auto simp: policyBindingStatusSet_def bindingNamed_def)
  define P where "P = ?P"
  have P: "P w'" if "cl_store c w' = Some y" "metaStored (pb_ObjectMeta pb) (pb_ObjectMeta y)"
      "pb_Spec y = pb_Spec pb \<or> pb_Spec y = ?s"
      "policyBindingCurrent y = Some ?s \<or> policyBindingCurrent y = None \<and> \<not> pbs_Migrate (pb_Spec y) \<and> \<not> bindingPresent n ?t"
      "cl_tenant c w' = ?t" for w' y
    using that n unfolding P_def by (auto simp: bindingNamed_def policyBindingStatusSet_def stored_def)
  have "runsTo (minioPolicyBinding_update (cl_rec c) pb) w P"
    unfolding minioPolicyBinding_update_def
  proof (rule anyRun_bind [OF minioPolicyBinding_removeMigrate_faulty [OF q assms(2,3), where
          S = "\<lambda>y w'. cl_store c w' = Some y \<and> cl_tenant c w' = ?t \<and> metaStored (pb_ObjectMeta pb) (pb_ObjectMeta y) \<and>
            pb_Spec y = ?s \<and> policyBindingCurrent y = Some ?s"]], goal_cases)
    case (1 y w')
    with cs P show ?case by (simp add: policyBindingCurrent_def)
  next
    case (2 y w1)
    then have y: "cl_store c w1 = Some y" "cl_tenant c w1 = ?t" "metaStored (pb_ObjectMeta pb) (pb_ObjectMeta y)"
        "pb_Spec y = ?s" "policyBindingCurrent y = Some ?s" "heldOnly (pb_ObjectMeta y)"
      using assms(3) by (auto simp: heldOnly_stored)
    have kept: "P w'" if "cl_store c w' = Some y" "cl_tenant c w' = ?t" for w'
      using P [OF that(1) y(3)] y(4,5) that(2) by blast
    have cleared: "P w'" if "policyBindingSame (setPolicyBindingCurrent y None) x" "cl_store c w' = Some x"
      "\<not> bindingPresent n ?t" "cl_tenant c w' = ?t" for w' x
      using that y by (intro P [OF that(2)])
        (auto simp: policyBindingSame_def policyBindingCurrent_def setPolicyBindingCurrent_def intro: metaStored_trans)
    have same: "(?s \<noteq> pb_Spec y) = False" using y(4) by simp
    show ?case
      unfolding y(5) deref_simps bindM_ret same if_False
      by (intro run_admin [OF faultyAttachments_api(2) [OF q]] run_bindingFound [OF q n(2,3)] run_if anyRun_success
          faulty_success [OF faultyAttachments_api(1) [OF q], where x = y])
        (use y n in \<open>auto simp: keeps_def intro: kept cleared\<close>)
  qed
  then show ?thesis by (simp only: P_def)
qed

lemma minioPolicyBinding_create_faulty:
  assumes q: "faultyAttachments dn base c" and "cl_store c w = Some pb" and "heldOnly (pb_ObjectMeta pb)"
    and "bindingNamed dn base n pb" and "\<not> policyBindingStatusSet pb"
  shows "runsTo (minioPolicyBinding_create (cl_rec c) pb) w (\<lambda>w'.
    (bindingPresent n (cl_tenant c w) \<longrightarrow> bindingPresent n (cl_tenant c w')) \<and>
    otherBindings False n (cl_tenant c w') = otherBindings False n (cl_tenant c w) \<and>
    stored c (\<lambda>y. metaStored (pb_ObjectMeta pb) (pb_ObjectMeta y) \<and> bindingNamed dn base n y \<and>
      (if policyBindingStatusSet y then bindingPresent n (cl_tenant c w')
       else pbs_Migrate (pb_Spec y) = pbs_Migrate (pb_Spec pb))) w')"
    (is "runsTo _ _ ?P")
proof -
  from assms(4) have n: "oneIdentity (pb_Spec pb)" "attachment dn (pb_Spec pb) = n" by (simp_all add: bindingNamed_def)
  define P where "P = ?P"
  let ?t = "cl_tenant c w" let ?s = "(pb_Spec pb)\<lparr>pbs_Migrate := False\<rparr>"
  have kept: "P w'" if "cl_store c w' = Some pb" "cl_tenant c w' = ?t \<or> cl_tenant c w' = attach n ?t" for w'
    using that assms(4,5) unfolding P_def by (auto simp: binding_tenant stored_def)
  have recorded: "P w'" if "policyBindingSame (setPolicyBindingCurrent (pb\<lparr>pb_Spec := ?s\<rparr>) (Some ?s)) y"
    "cl_store c w' = Some y" "cl_tenant c w' = ?t \<or> cl_tenant c w' = attach n ?t" "bindingPresent n (cl_tenant c w')" for w' y
    using that assms(4) n unfolding P_def by (auto simp: binding_tenant policyBindingSame_defs)
  have "runsTo (minioPolicyBinding_create (cl_rec c) pb) w P"
    unfolding minioPolicyBinding_create_def Let_def
    by (intro run_admin [OF faultyAttachments_api(2) [OF q]]
        run_attempt_mutate [OF faultyAttachments_attach [OF q n]] anyRun_check
        faulty_success [OF faultyAttachments_api(1) [OF q], where x = pb])
      (use assms(2,3) in \<open>auto simp: keeps_def attemptsIf_def attempts_def moves_def ignoreMadminErrorCode_eq_None
        attach_def bindingPresent_def intro: kept recorded split: if_splits\<close>)
  then show ?thesis by (simp only: P_def)
qed

lemma minioPolicyBinding_create_faulty_waits:
  assumes q: "faultyAttachments dn base c" and "bindingNamed dn base n pb" and "\<not> bindingPossible False n (cl_tenant c w)"
  shows "runsTo (minioPolicyBinding_create (cl_rec c) pb) w (keeps c w)"
proof -
  from assms(2) have n: "oneIdentity (pb_Spec pb)" "attachment dn (pb_Spec pb) = n" by (simp_all add: bindingNamed_def)
  show ?thesis
    unfolding minioPolicyBinding_create_def Let_def
    by (intro run_admin [OF faultyAttachments_api(2) [OF q]]
        run_attempt_mutate [OF faultyAttachments_attach [OF q n]] anyRun_check)
      (use assms(3) in \<open>auto simp: keeps_def attemptsIf_def ignoreMadminErrorCode_def split: if_splits\<close>)
qed

interpretation binding_surviving: surviving minioPolicyBindingReconciler_Reconcile
  minioPolicyBinding_pass minioPolicyBinding_delete minioPolicyBinding_addFinalizer
  "\<lambda>r _. minioPolicyBinding_update r" "\<lambda>r _. minioPolicyBinding_create r"
  pb_ObjectMeta "\<lambda>x m. x\<lparr>pb_ObjectMeta := m\<rparr>" policyBindingStatusSet policyBindingSame
  "quietAttachments dn base" "\<lambda>pb. pbs_Migrate (pb_Spec pb)" "bindingNamed dn base" bindingPresent
  otherBindings "\<lambda>_ _ _. True" False bindingPossible "faultyAttachments dn base"
  for dn base
  by unfold_locales
    (simp add: faultyAttachments_api,
     (erule (4) minioPolicyBinding_delete_faulty minioPolicyBinding_update_faulty minioPolicyBinding_create_faulty)+,
     erule (1) minioPolicyBinding_create_faulty_waits)

section \<open>Policies\<close>

text \<open>The creation goes on when its lookup fails; for what follows here that makes no difference.\<close>

definition faultyPolicies :: "('w, MinioPolicy, tenantState) cluster \<Rightarrow> bool" where
  "faultyPolicies c \<longleftrightarrow> faultyApi p_ObjectMeta policySame c \<and> looksAround c \<and>
     (\<forall>w h n. answers (e_InfoCannedPolicyV2 (r_env (cl_rec c)) w h n) (\<lambda>x w'. keeps c w w' \<and>
        looksUp ''XMinioAdminNoSuchPolicy'' (n \<in> dom (ts_policies (cl_tenant c w))) x)) \<and>
     (\<forall>w h n st v pd. marshalPolicy st v = Inr pd \<longrightarrow>
        answers (e_Mutate (r_env (cl_rec c)) w h (AddCannedPolicy n pd)) (attempts c w (putPolicy n (st, v)))) \<and>
     (\<forall>w h n. answers (e_Mutate (r_env (cl_rec c)) w h (RemoveCannedPolicy n)) (attempts c w (dropPolicy n)))"

lemma faultyPolicies_api: "faultyPolicies c \<Longrightarrow> faultyApi p_ObjectMeta policySame c" "faultyPolicies c \<Longrightarrow> looksAround c"
  by (simp_all add: faultyPolicies_def)

lemma faultyPolicies_add:
  "faultyPolicies c \<Longrightarrow> marshalPolicy st v = Inr pd \<Longrightarrow>
   answers (e_Mutate (r_env (cl_rec c)) w h (AddCannedPolicy n pd)) (attempts c w (putPolicy n (st, v)))"
  by (simp add: faultyPolicies_def)

lemma faultyPolicies_remove:
  "faultyPolicies c \<Longrightarrow> answers (e_Mutate (r_env (cl_rec c)) w h (RemoveCannedPolicy n)) (attempts c w (dropPolicy n))"
  by (simp add: faultyPolicies_def)

lemma run_policyInfo:
  assumes "faultyPolicies c" and "\<And>x w'. keeps c w w' \<Longrightarrow>
    looksUp ''XMinioAdminNoSuchPolicy'' (n \<in> dom (ts_policies (cl_tenant c w))) x \<Longrightarrow> anyRun (f x) w' S P"
  shows "anyRun (bindM (attempt (queryM h (InfoCannedPolicyV2 n) (\<lambda>w. e_InfoCannedPolicyV2 (r_env (cl_rec c)) w h n))) f) w S P"
proof -
  have "answers (e_InfoCannedPolicyV2 (r_env (cl_rec c)) w h n) (\<lambda>x w'. keeps c w w' \<and>
      looksUp ''XMinioAdminNoSuchPolicy'' (n \<in> dom (ts_policies (cl_tenant c w))) x)"
    using assms(1) by (simp add: faultyPolicies_def)
  then show ?thesis unfolding queryM_def by (rule run_attempt) (use assms(2) in blast)
qed

lemma run_putPolicy:
  assumes "faultyPolicies c" and "\<And>w'. keeps c w w' \<or> moves c w (putPolicy n (st, v)) w' \<Longrightarrow> P w'"
    and "\<And>w'. moves c w (putPolicy n (st, v)) w' \<Longrightarrow> anyRun (f ()) w' S P"
  shows "anyRun (bindM (liftE (marshalPolicy st v)) (\<lambda>pd. bindM (mutate (r_env (cl_rec c)) h (AddCannedPolicy n pd)) f)) w S P"
  by (rule run_lift, use assms(2) in \<open>simp add: keeps_def\<close>, rule run_mutate [OF faultyPolicies_add [OF assms(1)]])
    (use assms(2,3) in \<open>auto simp: attempts_def\<close>)

lemma minioPolicy_delete_faulty:
  assumes q: "faultyPolicies c" and "cl_store c w = Some p" and "heldOnly (p_ObjectMeta p)"
    and "policyNamed k p" and "policyStatusSet p"
  shows "runsTo (minioPolicy_delete (cl_rec c) p) w (\<lambda>w'. (policyPresent k (cl_tenant c w') \<longrightarrow> policyPresent k (cl_tenant c w)) \<and>
    otherPolicies True k (cl_tenant c w') = otherPolicies True k (cl_tenant c w) \<and>
    stored c (\<lambda>y. metaStored (p_ObjectMeta p) (p_ObjectMeta y) \<and> policyNamed k y \<and>
      (policyStatusSet y \<or> \<not> policyPresent k (cl_tenant c w'))) w')" (is "runsTo _ _ ?P")
proof -
  from assms(5) obtain cs where cs: "policyCurrent p = Some cs" by (auto simp: policyStatusSet_def)
  with assms(4) have n: "pos_Name cs = fst k" by (auto simp: policyNamed_def)
  define P where "P = ?P"
  let ?t = "cl_tenant c w"
  have kept: "P w'" if "cl_store c w' = Some p" "cl_tenant c w' = ?t \<or> cl_tenant c w' = dropPolicy (fst k) ?t" for w'
    using that assms(4,5) unfolding P_def by (auto simp: policy_tenant policyPresent_def stored_def)
  have cleared: "P w'" if "policySame (setPolicyCurrent p None) y" "cl_store c w' = Some y"
    "cl_tenant c w' = dropPolicy (fst k) ?t" for w' y
    using that assms(4) unfolding P_def by (auto simp: policy_tenant policySame_defs)
  have "runsTo (minioPolicy_delete (cl_rec c) p) w P"
    unfolding minioPolicy_delete_def cs option.case n
    by (intro run_admin [OF faultyPolicies_api(2) [OF q]] run_mutate [OF faultyPolicies_remove [OF q]]
        faulty_success [OF faultyPolicies_api(1) [OF q], where x = p])
      (use assms(2,3) in \<open>auto simp: keeps_def attempts_def moves_def intro: kept cleared\<close>)
  then show ?thesis by (simp only: P_def)
qed

lemma minioPolicy_removeMigrate_faulty:
  assumes q: "faultyPolicies c" and "cl_store c w = Some p" and "heldOnly (p_ObjectMeta p)"
    and "\<And>y w'. cl_store c w' = Some y \<Longrightarrow> cl_tenant c w' = cl_tenant c w \<Longrightarrow> metaStored (p_ObjectMeta p) (p_ObjectMeta y) \<Longrightarrow>
      p_Spec y = p_Spec p \<or> p_Spec y = (p_Spec p)\<lparr>pos_Migrate := False\<rparr> \<Longrightarrow>
      p_Status y = p_Status p \<Longrightarrow> P w' \<and> (\<not> pos_Migrate (p_Spec y) \<longrightarrow> S y w')"
  shows "anyRun (minioPolicy_removeMigrate (cl_rec c) p) w S P"
proof (cases "pos_Migrate (p_Spec p)")
  case True
  then show ?thesis
    unfolding minioPolicy_removeMigrate_def
    by (simp, intro faulty_update [OF faultyPolicies_api(1) [OF q] assms(2)])
      (use assms(2-4) in \<open>auto simp: policySame_def metaStored_refl\<close>)
next
  case False
  with assms(2,4) show ?thesis unfolding minioPolicy_removeMigrate_def by (simp add: anyRun_ret metaStored_refl)
qed

lemma minioPolicy_sync_faulty:
  assumes q: "faultyPolicies c" and y: "cl_store c w = Some y" "heldOnly (p_ObjectMeta y)" "pos_Name cs = n"
    and P: "\<And>z w'. cl_store c w' = Some z \<Longrightarrow> z = y \<or> (\<exists>st v. policySame (setPolicyCurrent y (Some (cs\<lparr>
        pos_Statement := st, pos_Version := v\<rparr>))) z) \<Longrightarrow>
      cl_tenant c w' = cl_tenant c w \<or> (\<exists>d. cl_tenant c w' = putPolicy n d (cl_tenant c w)) \<Longrightarrow> P w'"
  shows "runsTo (minioPolicy_sync (cl_rec c) h y cs d) w P"
proof -
  have kept: "P w'" if "cl_store c w' = Some y"
    "cl_tenant c w' = cl_tenant c w \<or> (\<exists>d. cl_tenant c w' = putPolicy n d (cl_tenant c w))" for w'
    using P [OF that(1) _ that(2)] by blast
  have sent: "P w'" if "cl_store c w' = Some z" "policySame (setPolicyCurrent y (Some (cs\<lparr>
        pos_Statement := st, pos_Version := v\<rparr>))) z" "cl_tenant c w' = putPolicy n d (cl_tenant c w)" for w' z st v d
    using P [OF that(1)] that(2,3) by blast
  show ?thesis
    unfolding minioPolicy_sync_def Let_def y(3)
    by (intro run_if run_putPolicy [OF q] run_deref faulty_success [OF faultyPolicies_api(1) [OF q], where x = y]
        anyRun_success run_lift [where x = "unmarshalPolicySpec doc" for doc])
      (use y in \<open>auto simp: keeps_def moves_def intro: kept sent\<close>)
qed

lemma minioPolicy_update_faulty:
  assumes q: "faultyPolicies c" and "cl_store c w = Some p" and "heldOnly (p_ObjectMeta p)"
    and "policyNamed k p" and "policyStatusSet p"
  shows "runsTo (minioPolicy_update (cl_rec c) p) w (\<lambda>w'. policyPresent k (cl_tenant c w') = policyPresent k (cl_tenant c w) \<and>
    otherPolicies False k (cl_tenant c w') = otherPolicies False k (cl_tenant c w) \<and>
    stored c (\<lambda>y. metaStored (p_ObjectMeta p) (p_ObjectMeta y) \<and> policyNamed k y \<and>
      (policyStatusSet y \<or> \<not> pos_Migrate (p_Spec y) \<and> \<not> policyPresent k (cl_tenant c w))) w')" (is "runsTo _ _ ?P")
proof -
  from assms(5) obtain cs where cs: "policyCurrent p = Some cs" by (auto simp: policyStatusSet_def)
  with assms(4) have n: "pos_Name cs = fst k" "(pos_Name (p_Spec p), specContent (p_Spec p)) = k" by (simp_all add: policyNamed_def)
  define P where "P = ?P"
  let ?t = "cl_tenant c w"
  have P: "P w'" if "cl_store c w' = Some y" "metaStored (p_ObjectMeta p) (p_ObjectMeta y)"
      "(pos_Name (p_Spec y), specContent (p_Spec y)) = k"
      "(\<exists>cs. policyCurrent y = Some cs \<and> pos_Name cs = fst k) \<or>
       policyCurrent y = None \<and> \<not> pos_Migrate (p_Spec y) \<and> \<not> policyPresent k ?t"
      "cl_tenant c w' = ?t \<or> policyPresent k ?t \<and> (\<exists>d. cl_tenant c w' = putPolicy (fst k) d ?t)" for w' y
    using that unfolding P_def by (auto simp: policy_tenant policyPresent_def policyNamed_def policyStatusSet_def stored_def)
  have "runsTo (minioPolicy_update (cl_rec c) p) w P"
    unfolding minioPolicy_update_def
  proof (rule anyRun_bind [OF minioPolicy_removeMigrate_faulty [OF q assms(2,3), where
          S = "\<lambda>y w'. cl_store c w' = Some y \<and> cl_tenant c w' = ?t \<and> metaStored (p_ObjectMeta p) (p_ObjectMeta y) \<and>
            (pos_Name (p_Spec y), specContent (p_Spec y)) = k \<and> policyCurrent y = Some cs \<and> \<not> pos_Migrate (p_Spec y)"]], goal_cases)
    case (1 y w')
    then have "policyCurrent y = Some cs" "(pos_Name (p_Spec y), specContent (p_Spec y)) = k"
      using n cs by (auto simp: policyCurrent_def)
    with 1 n P [of w' y] show ?case by simp
  next
    case (2 y w1)
    then have y: "cl_store c w1 = Some y" "cl_tenant c w1 = ?t" "metaStored (p_ObjectMeta p) (p_ObjectMeta y)"
        "(pos_Name (p_Spec y), specContent (p_Spec y)) = k" "policyCurrent y = Some cs" "\<not> pos_Migrate (p_Spec y)"
        "heldOnly (p_ObjectMeta y)"
      using assms(3) by (auto simp: heldOnly_stored)
    have kept: "P w'" if "cl_store c w' = Some y" "cl_tenant c w' = ?t" for w'
      using P [OF that(1) y(3,4)] y(5) n(1) that(2) by blast
    have sent: "P w'" if "policySame (setPolicyCurrent y a) x" "cl_store c w' = Some x"
      "case a of None \<Rightarrow> \<not> policyPresent k ?t | Some cs \<Rightarrow> pos_Name cs = fst k"
      "cl_tenant c w' = ?t \<or> policyPresent k ?t \<and> (\<exists>d. cl_tenant c w' = putPolicy (fst k) d ?t)" for w' x a
      using that y by (intro P [OF that(2)])
        (auto simp: policySame_def policyCurrent_def setPolicyCurrent_def intro: metaStored_trans split: option.splits)
    show ?case
      unfolding y(5) deref_simps bindM_ret Let_def n(1)
    proof (intro run_admin [OF faultyPolicies_api(2) [OF q]] run_policyInfo [OF q] anyRun_check, goal_cases)
      case (2 h w2 x w3)
      then have w3: "cl_store c w3 = Some y" "cl_tenant c w3 = ?t" using y by (simp_all add: keeps_def)
      show ?case
      proof (cases "isMadminErrorCode (errOf x) ''XMinioAdminNoSuchPolicy''")
        case True
        with 2 y(2) have "\<not> policyPresent k ?t" by (auto simp: looksUp_def keeps_def policyPresent_def)
        with True w3 y(7) show ?thesis
          by (simp, intro faulty_success [OF faultyPolicies_api(1) [OF q] w3(1)])
            (auto intro: kept sent)
      next
        case False
        with 2 have "errOf x = None" by (simp add: ignoreMadminErrorCode_eq_None)
        with 2 y(2) have there: "policyPresent k ?t" by (auto simp: looksUp_def keeps_def policyPresent_def)
        show ?thesis using False
          by (simp, intro minioPolicy_sync_faulty [OF q w3(1) y(7) n(1)])
            (use w3 there n y(1,3-5) in \<open>auto intro: kept sent P\<close>)
      qed
    qed (use y in \<open>auto simp: keeps_def intro: kept\<close>)
  qed
  then show ?thesis by (simp only: P_def)
qed

lemma minioPolicy_create_faulty:
  assumes q: "faultyPolicies c" and "cl_store c w = Some p" and "heldOnly (p_ObjectMeta p)"
    and "policyNamed k p" and "\<not> policyStatusSet p"
  shows "runsTo (minioPolicy_create (cl_rec c) p) w (\<lambda>w'. (policyPresent k (cl_tenant c w) \<longrightarrow> policyPresent k (cl_tenant c w')) \<and>
    otherPolicies False k (cl_tenant c w') = otherPolicies False k (cl_tenant c w) \<and>
    stored c (\<lambda>y. metaStored (p_ObjectMeta p) (p_ObjectMeta y) \<and> policyNamed k y \<and>
      (if policyStatusSet y then policyPresent k (cl_tenant c w') else pos_Migrate (p_Spec y) = pos_Migrate (p_Spec p))) w')"
    (is "runsTo _ _ ?P")
proof -
  let ?s = "p_Spec p" let ?t = "cl_tenant c w"
  from assms(4) have k: "k = (pos_Name ?s, pos_Statement ?s, pos_Version ?s)"
    by (auto simp: policyNamed_def specContent_def)
  define P where "P = ?P"
  let ?z = "setPolicyCurrent (p\<lparr>p_Spec := ?s\<lparr>pos_Migrate := False\<rparr>\<rparr>) (Some (?s\<lparr>pos_Migrate := False\<rparr>))"
  have kept: "P w'" if "cl_store c w' = Some p" "cl_tenant c w' = ?t \<or> cl_tenant c w' = putPolicy (fst k) (snd k) ?t" for w'
    using that assms(4,5) unfolding P_def by (auto simp: policy_tenant policyPresent_def stored_def)
  have recorded: "P w'" if "policySame ?z y" "cl_store c w' = Some y" "cl_tenant c w' = putPolicy (fst k) (snd k) ?t" for w' y
    using that k unfolding P_def by (auto simp: policy_tenant policySame_defs specContent_def)
  have "runsTo (minioPolicy_create (cl_rec c) p) w P"
    unfolding minioPolicy_create_def Let_def
    by (intro run_admin [OF faultyPolicies_api(2) [OF q]] run_policyInfo [OF q]
        run_check_if run_putPolicy [OF q] faulty_success [OF faultyPolicies_api(1) [OF q], where x = p])
      (use assms(2,3) in \<open>auto simp: keeps_def moves_def k intro: kept recorded\<close>)
  then show ?thesis by (simp only: P_def)
qed

interpretation policy_surviving: surviving minioPolicyReconciler_Reconcile minioPolicy_pass
  minioPolicy_delete minioPolicy_addFinalizer "\<lambda>r _. minioPolicy_update r"
  "\<lambda>r _. minioPolicy_create r" p_ObjectMeta "\<lambda>x m. x\<lparr>p_ObjectMeta := m\<rparr>" policyStatusSet policySame
  quietPolicies "\<lambda>p. pos_Migrate (p_Spec p)" policyNamed policyPresent otherPolicies policyExact
  True policyPossible faultyPolicies
  by unfold_locales
    (simp add: faultyPolicies_api, (erule (4) minioPolicy_delete_faulty minioPolicy_update_faulty minioPolicy_create_faulty)+,
     simp add: policyPossible_def)

end
