(* ===== verification/Faulty_Buckets.thy ===== *)
theory Faulty_Buckets
  imports Faults
begin

text \<open>
  Buckets in clusters where requests fail. Configurations may be sent or not, so nothing is said about them; a
  conversion that fails ends the pass. Also a faulty tenant removes a bucket that holds objects with force only.
\<close>

definition madeBucket :: "string \<Rightarrow> bucketTenant \<Rightarrow> bucketTenant" where
  "madeBucket n s = (if s n = None then s(n \<mapsto> False) else s)"

definition removedBucket :: "string \<Rightarrow> bool \<Rightarrow> bucketTenant \<Rightarrow> bucketTenant" where
  "removedBucket n f s = (if f \<or> s n \<noteq> Some True then s(n := None) else s)"

definition faultyBuckets :: "('w, MinioBucket, bucketTenant) cluster \<Rightarrow> bool" where
  "faultyBuckets c \<longleftrightarrow> faultyApi b_ObjectMeta bucketSame c \<and> looksAround c \<and>
     (\<forall>w h n. answers (e_BucketExists (r_env (cl_rec c)) w h n) (\<lambda>x w'. keeps c w w' \<and>
        (\<forall>b. x = Inr b \<longrightarrow> b = (cl_tenant c w n \<noteq> None)))) \<and>
     (\<forall>w h n. answers (e_GetBucketVersioning (r_env (cl_rec c)) w h n) (\<lambda>x w'. keeps c w w')) \<and>
     (\<forall>w h n. keeps c w (snd (e_GetBucketLifecycle (r_env (cl_rec c)) w h n))) \<and>
     (\<forall>w h n v. answers (e_Mutate (r_env (cl_rec c)) w h (SetBucketVersioning n v)) (\<lambda>x w'. keeps c w w')) \<and>
     (\<forall>w h n l. answers (e_Mutate (r_env (cl_rec c)) w h (SetBucketLifecycle n l)) (\<lambda>x w'. keeps c w w')) \<and>
     (\<forall>w h n. answers (e_Mutate (r_env (cl_rec c)) w h (MakeBucket n)) (\<lambda>x w'. attempts c w (madeBucket n) x w' \<and>
        (isMinioErrorCode (errOf x) ''BucketAlreadyOwnedByYou'' \<longrightarrow> cl_tenant c w' n \<noteq> None))) \<and>
     (\<forall>w h n f. answers (e_Mutate (r_env (cl_rec c)) w h (RemoveBucket n f)) (\<lambda>x w'.
        attempts c w (removedBucket n f) x w' \<and> (isMinioErrorCode (errOf x) ''NoSuchBucket'' \<longrightarrow> cl_tenant c w' n = None) \<and>
        (x = Inr () \<longrightarrow> cl_tenant c w' n = None)))"

lemma faultyBuckets_api: "faultyBuckets c \<Longrightarrow> faultyApi b_ObjectMeta bucketSame c" "faultyBuckets c \<Longrightarrow> looksAround c"
  by (simp_all add: faultyBuckets_def)

lemma faultyBuckets_set:
  "faultyBuckets c \<Longrightarrow> answers (e_Mutate (r_env (cl_rec c)) w h (SetBucketVersioning n v)) (\<lambda>x w'. keeps c w w')"
  "faultyBuckets c \<Longrightarrow> answers (e_Mutate (r_env (cl_rec c)) w h (SetBucketLifecycle n l)) (\<lambda>x w'. keeps c w w')"
  by (simp_all add: faultyBuckets_def)

lemma faultyBuckets_make:
  "faultyBuckets c \<Longrightarrow> answers (e_Mutate (r_env (cl_rec c)) w h (MakeBucket n)) (\<lambda>x w'. attempts c w (madeBucket n) x w' \<and>
     (isMinioErrorCode (errOf x) ''BucketAlreadyOwnedByYou'' \<longrightarrow> cl_tenant c w' n \<noteq> None))"
  by (simp add: faultyBuckets_def)

lemma faultyBuckets_remove:
  "faultyBuckets c \<Longrightarrow> answers (e_Mutate (r_env (cl_rec c)) w h (RemoveBucket n f)) (\<lambda>x w'.
     attempts c w (removedBucket n f) x w' \<and> (isMinioErrorCode (errOf x) ''NoSuchBucket'' \<longrightarrow> cl_tenant c w' n = None) \<and>
     (x = Inr () \<longrightarrow> cl_tenant c w' n = None))"
  by (simp add: faultyBuckets_def)

lemma run_bucketExists:
  assumes "faultyBuckets c" and "\<And>w'. keeps c w w' \<Longrightarrow> P w'"
    and "\<And>w'. keeps c w w' \<Longrightarrow> anyRun (f (cl_tenant c w n \<noteq> None)) w' S P"
  shows "anyRun (bindM (queryM h (BucketExists n) (\<lambda>w. e_BucketExists (r_env (cl_rec c)) w h n)) f) w S P"
proof -
  have "answers (e_BucketExists (r_env (cl_rec c)) w h n) (\<lambda>x w'. keeps c w w' \<and> (\<forall>b. x = Inr b \<longrightarrow> b = (cl_tenant c w n \<noteq> None)))"
    using assms(1) by (simp add: faultyBuckets_def)
  then show ?thesis unfolding queryM_def by (rule run_call) (use assms(2,3) in \<open>auto simp del: split_paired_All\<close>)
qed

lemma run_bucketVersioning:
  assumes "faultyBuckets c" and "\<And>w'. keeps c w w' \<Longrightarrow> P w'" and "\<And>v w'. keeps c w w' \<Longrightarrow> anyRun (f v) w' S P"
  shows "anyRun (bindM (queryM h (GetBucketVersioning n) (\<lambda>w. e_GetBucketVersioning (r_env (cl_rec c)) w h n)) f) w S P"
proof -
  have "answers (e_GetBucketVersioning (r_env (cl_rec c)) w h n) (\<lambda>x w'. keeps c w w')"
    using assms(1) by (simp add: faultyBuckets_def)
  then show ?thesis unfolding queryM_def by (rule run_call) (use assms(2,3) in blast)+
qed

lemma run_bucketLifecycle:
  assumes "faultyBuckets c" and "\<And>x w'. keeps c w w' \<Longrightarrow> anyRun (f x) w' S P"
  shows "anyRun (bindM (callPair (Query h (GetBucketLifecycle n)) (\<lambda>w. e_GetBucketLifecycle (r_env (cl_rec c)) w h n)) f) w S P"
proof (rule anyRun_bind [where R = "\<lambda>_ w'. keeps c w w'"], rule anyRun_callPair)
  have "keeps c w (snd (e_GetBucketLifecycle (r_env (cl_rec c)) w h n))" using assms(1) by (simp add: faultyBuckets_def)
  then show "keeps c w w'" if "e_GetBucketLifecycle (r_env (cl_rec c)) w h n = ((a, e), w')" for a e w'
    using that by simp
qed (rule assms(2))

lemma minioBucket_delete_faulty:
  assumes q: "faultyBuckets c" and "cl_store c w = Some b" and "heldOnly (b_ObjectMeta b)"
    and "bucketNamed k b" and "bucketStatusSet b"
  shows "runsTo (minioBucket_delete (cl_rec c) b) w (\<lambda>w'. (bucketPresent k (cl_tenant c w') \<longrightarrow> bucketPresent k (cl_tenant c w)) \<and>
    otherBuckets True k (cl_tenant c w') = otherBuckets True k (cl_tenant c w) \<and>
    stored c (\<lambda>y. metaStored (b_ObjectMeta b) (b_ObjectMeta y) \<and> bucketNamed k y \<and>
      (bucketStatusSet y \<or> \<not> bucketPresent k (cl_tenant c w'))) w')" (is "runsTo _ _ ?P")
proof -
  from assms(5) obtain cs where cs: "bucketCurrent b = Some cs" by (auto simp: bucketStatusSet_def)
  with assms(4) have n: "specNamed k cs" by (simp add: bucketNamed_def)
  define f where "f \<longleftrightarrow> bucketDeletionPolicy cs = MinioBucketDeletionPolicyAlways"
  define P where "P = ?P"
  let ?t = "cl_tenant c w"
  have name: "bs_Name cs = fst k" using n by (simp add: specNamed_def)
  have others: "otherBuckets True k (removedBucket (fst k) f ?t) = otherBuckets True k ?t"
      "bucketPresent k (removedBucket (fst k) f ?t) \<Longrightarrow> bucketPresent k ?t"
    using n by (auto simp: removedBucket_def bucket_tenant specNamed_def f_def bucketDeletionPolicy_Always split: if_splits)
  have kept: "P w'" if "cl_store c w' = Some b" "cl_tenant c w' = ?t \<or> cl_tenant c w' = removedBucket (fst k) f ?t" for w'
    using that assms(4,5) others unfolding P_def by (auto simp: stored_def)
  have cleared: "P w'" if "bucketSame (setBucketCurrent b None) y" "cl_store c w' = Some y"
    "cl_tenant c w' = ?t \<or> cl_tenant c w' = removedBucket (fst k) f ?t" "cl_tenant c w' (fst k) = None" for w' y
    using that assms(4) others unfolding P_def by (auto simp: bucketSame_defs bucketPresent_def)
  have "runsTo (minioBucket_delete (cl_rec c) b) w P"
    unfolding minioBucket_delete_def cs option.case name Let_def f_def [symmetric]
    by (intro run_client [OF faultyBuckets_api(2) [OF q]] run_attempt_mutate [OF faultyBuckets_remove [OF q]] anyRun_check
        faulty_success [OF faultyBuckets_api(1) [OF q], where x = b])
      (use assms(2,3) in \<open>auto simp: keeps_def attempts_def moves_def ignoreMinioErrorCode_def errOf_eq_None
        intro: kept cleared split: if_splits\<close>)
  then show ?thesis by (simp only: P_def)
qed

text \<open>The steps of the update keep the name that is recorded.\<close>

definition bucketStep :: "MinioBucket \<Rightarrow> MinioBucket \<Rightarrow> bool" where
  "bucketStep b y \<longleftrightarrow> metaStored (b_ObjectMeta b) (b_ObjectMeta y) \<and> b_Spec y = b_Spec b \<and>
     (\<forall>cs. bucketCurrent b = Some cs \<longrightarrow> (\<exists>cs'. bucketCurrent y = Some cs' \<and> bs_Name cs' = bs_Name cs \<and>
        bs_DeletionPolicy cs' \<in> {bs_DeletionPolicy cs, bs_DeletionPolicy (b_Spec b)}))"

lemma bucketStep_refl: "bucketStep b b"
  by (simp add: bucketStep_def metaStored_refl)

lemma bucketStep_trans: "bucketStep b y \<Longrightarrow> bucketStep y z \<Longrightarrow> bucketStep b z"
  unfolding bucketStep_def by (auto intro: metaStored_trans)

lemma bucketStep_named:
  assumes "bucketStep b y" and "specNamed k (b_Spec b)" and "bucketCurrent b = Some cs" and "specNamed k cs"
  obtains cs' where "bucketCurrent y = Some cs'" and "specNamed k cs'"
  using assms by (auto simp: bucketStep_def specNamed_def)

lemma bucketStep_set:
  "bucketCurrent b = Some cs \<Longrightarrow> bs_Name cs' = bs_Name cs \<Longrightarrow>
   bs_DeletionPolicy cs' \<in> {bs_DeletionPolicy cs, bs_DeletionPolicy (b_Spec b)} \<Longrightarrow>
   bucketSame (setBucketCurrent b (Some cs')) y \<Longrightarrow> bucketStep b y"
  by (auto simp: bucketStep_def bucketSame_def bucketCurrent_def setBucketCurrent_def)

lemma run_setBucket:
  assumes "faultyBuckets c" and "cl_store c w = Some b" and "heldOnly (b_ObjectMeta b)"
    and "bucketCurrent b = Some cs" and "bs_Name cs' = bs_Name cs"
    and "bs_DeletionPolicy cs' \<in> {bs_DeletionPolicy cs, bs_DeletionPolicy (b_Spec b)}"
    and K: "\<And>y w'. cl_store c w' = Some y \<Longrightarrow> cl_tenant c w' = cl_tenant c w \<Longrightarrow> bucketStep b y \<Longrightarrow> P w' \<and> S y w'"
  shows "anyRun (updateObj (cl_rec c) (setBucketCurrent b (Some cs'))) w S P"
  by (rule faulty_update [OF faultyBuckets_api(1) [OF assms(1)] assms(2)])
    (use assms(2,3) K bucketStep_refl bucketStep_set [OF assms(4-6)] in \<open>auto simp: setBucketCurrent_def\<close>)

lemma run_push:
  assumes "\<And>w v. answers (e_Mutate E w h (Q v)) (\<lambda>x w'. keeps c w w')" and "\<And>w'. keeps c w w' \<Longrightarrow> P w'"
    and "\<And>w'. keeps c w w' \<Longrightarrow> anyRun (f ()) w' S P"
  shows "anyRun (bindM (if b then bindM (liftE x) (\<lambda>v. mutate E h (Q v)) else ret ()) f) w S P"
proof (cases b)
  case True
  show ?thesis
    unfolding if_P [OF True] bindM_assoc
    by (rule run_lift, use assms(2) in simp, rule run_mutate [OF assms(1)]) (use assms(2,3) in auto)
qed (use assms(3) in simp)

lemma minioBucket_sync_faulty:
  assumes q: "faultyBuckets c" and b: "cl_store c w = Some b" "heldOnly (b_ObjectMeta b)" "bucketCurrent b = Some cs"
    and K: "\<And>y w'. cl_store c w' = Some y \<Longrightarrow> cl_tenant c w' = cl_tenant c w \<Longrightarrow> bucketStep b y \<Longrightarrow> P w' \<and> S y w'"
  shows "anyRun (minioBucket_syncVersioning (cl_rec c) h b) w S P"
    and "anyRun (minioBucket_syncLifecycle (cl_rec c) h b) w S P"
    and "anyRun (minioBucket_syncDeletionPolicy (cl_rec c) b) w S P"
proof -
  have kept: "P w'" "S b w'" if "keeps c w w'" for w'
    using K [of w' b] that b(1) bucketStep_refl by (simp_all add: keeps_def)
  have set: "anyRun (updateObj (cl_rec c) (setBucketCurrent b (Some cs'))) w' S P"
    if "keeps c w w'" "bs_Name cs' = bs_Name cs"
      "bs_DeletionPolicy cs' \<in> {bs_DeletionPolicy cs, bs_DeletionPolicy (b_Spec b)}" for cs' w'
    by (rule run_setBucket [OF q _ b(2,3) that(2,3)]) (use that(1) b(1) K in \<open>simp_all add: keeps_def\<close>)
  note push = run_mutate [OF faultyBuckets_set(1) [OF q]] run_mutate [OF faultyBuckets_set(2) [OF q]]
    run_push [where Q = "SetBucketVersioning (bs_Name cs)", OF faultyBuckets_set(1) [OF q]]
    run_push [where Q = "SetBucketLifecycle (bs_Name cs)", OF faultyBuckets_set(2) [OF q]]
  show "anyRun (minioBucket_syncVersioning (cl_rec c) h b) w S P"
    unfolding minioBucket_syncVersioning_def Let_def b(3) deref_simps bindM_ret
    by (intro run_bucketVersioning [OF q] run_lift push run_if anyRun_ret set) (auto simp: keeps_def intro: kept)
  show "anyRun (minioBucket_syncLifecycle (cl_rec c) h b) w S P"
    unfolding minioBucket_syncLifecycle_def Let_def b(3) deref_simps bindM_ret case_prod_beta
    by (intro run_bucketLifecycle [OF q] anyRun_check run_lift push run_if anyRun_ret set) (auto simp: keeps_def intro: kept)
  show "anyRun (minioBucket_syncDeletionPolicy (cl_rec c) b) w S P"
    unfolding minioBucket_syncDeletionPolicy_def Let_def b(3) deref_simps bindM_ret
    by (intro run_if anyRun_ret set) (auto simp: keeps_def intro: kept)
qed

lemma minioBucket_removeMigrate_faulty:
  assumes q: "faultyBuckets c" and "cl_store c w = Some b" and "heldOnly (b_ObjectMeta b)"
    and "\<And>y w'. cl_store c w' = Some y \<Longrightarrow> cl_tenant c w' = cl_tenant c w \<Longrightarrow> metaStored (b_ObjectMeta b) (b_ObjectMeta y) \<Longrightarrow>
      (\<And>k. specNamed k (b_Spec y) = specNamed k (b_Spec b)) \<Longrightarrow> b_Status y = b_Status b \<Longrightarrow> P w' \<and> (\<not> bs_Migrate (b_Spec y) \<longrightarrow> S y w')"
  shows "anyRun (minioBucket_removeMigrate (cl_rec c) b) w S P"
proof (cases "bs_Migrate (b_Spec b)")
  case True
  then show ?thesis
    unfolding minioBucket_removeMigrate_def
    by (simp, intro faulty_update [OF faultyBuckets_api(1) [OF q] assms(2)])
      (use assms(2-4) in \<open>auto simp: bucketSame_def metaStored_refl\<close>)
next
  case False
  with assms(2,4) show ?thesis unfolding minioBucket_removeMigrate_def by (simp add: anyRun_ret metaStored_refl)
qed

lemma minioBucket_update_faulty:
  assumes q: "faultyBuckets c" and "cl_store c w = Some b" and "heldOnly (b_ObjectMeta b)"
    and "bucketNamed k b" and "bucketStatusSet b"
  shows "runsTo (minioBucket_update (cl_rec c) b) w (\<lambda>w'. bucketPresent k (cl_tenant c w') = bucketPresent k (cl_tenant c w) \<and>
    otherBuckets False k (cl_tenant c w') = otherBuckets False k (cl_tenant c w) \<and>
    stored c (\<lambda>y. metaStored (b_ObjectMeta b) (b_ObjectMeta y) \<and> bucketNamed k y \<and>
      (bucketStatusSet y \<or> \<not> bs_Migrate (b_Spec y) \<and> \<not> bucketPresent k (cl_tenant c w))) w')" (is "runsTo _ _ ?P")
proof -
  from assms(5) obtain cs where cs: "bucketCurrent b = Some cs" by (auto simp: bucketStatusSet_def)
  with assms(4) have n: "specNamed k cs" "specNamed k (b_Spec b)" by (simp_all add: bucketNamed_def)
  then have name: "bs_Name cs = fst k" by (simp add: specNamed_def)
  define P where "P = ?P"
  let ?t = "cl_tenant c w"
  have P: "P w'" if "cl_store c w' = Some y" "metaStored (b_ObjectMeta b) (b_ObjectMeta y)" "specNamed k (b_Spec y)"
      "(\<exists>cs. bucketCurrent y = Some cs \<and> specNamed k cs) \<or> bucketCurrent y = None \<and> \<not> bs_Migrate (b_Spec y) \<and> \<not> bucketPresent k ?t"
      "cl_tenant c w' = ?t" for w' y
    using that unfolding P_def by (auto simp: bucketNamed_def bucketStatusSet_def stored_def)
  have "runsTo (minioBucket_update (cl_rec c) b) w P"
    unfolding minioBucket_update_def
  proof (rule anyRun_bind [OF minioBucket_removeMigrate_faulty [OF q assms(2,3), where
          S = "\<lambda>y w'. cl_store c w' = Some y \<and> cl_tenant c w' = ?t \<and> metaStored (b_ObjectMeta b) (b_ObjectMeta y) \<and>
            specNamed k (b_Spec y) \<and> bucketCurrent y = Some cs \<and> \<not> bs_Migrate (b_Spec y)"]], goal_cases)
    case (1 y w')
    then have "bucketCurrent y = Some cs" using cs by (simp add: bucketCurrent_def)
    with 1 n P [of w' y] show ?case by simp
  next
    case (2 y w1)
    then have y: "cl_store c w1 = Some y" "cl_tenant c w1 = ?t" "metaStored (b_ObjectMeta b) (b_ObjectMeta y)"
        "specNamed k (b_Spec y)" "bucketCurrent y = Some cs" "\<not> bs_Migrate (b_Spec y)" "heldOnly (b_ObjectMeta y)"
      using assms(3) by (auto simp: heldOnly_stored)
    have at: "P w'" if "cl_store c w' = Some x" "cl_tenant c w' = ?t" "bucketStep y x" for w' x
    proof -
      note step = that(3)
      obtain cs' where "bucketCurrent x = Some cs'" "specNamed k cs'"
        by (rule bucketStep_named [OF step y(4,5) n(1)])
      with that y show ?thesis by (intro P [OF that(1)]) (auto simp: bucketStep_def intro: metaStored_trans)
    qed
    note kept = at [OF _ _ bucketStep_refl]
    have cleared: "P w'" if "bucketSame (setBucketCurrent y None) x" "cl_store c w' = Some x" "\<not> bucketPresent k ?t" "cl_tenant c w' = ?t" for w' x
      using that y by (intro P [OF that(2)])
        (auto simp: bucketSame_def bucketCurrent_def setBucketCurrent_def intro: metaStored_trans)
    define I where "I z w' \<longleftrightarrow> cl_store c w' = Some z \<and> cl_tenant c w' = ?t \<and> bucketStep y z" for z w'
    have ID: "cl_store c w' = Some z" "cl_tenant c w' = ?t" "bucketStep y z" "heldOnly (b_ObjectMeta z)"
      "\<exists>cs'. bucketCurrent z = Some cs'" if "I z w'" for z w'
      using that y(5,7) by (auto simp: I_def bucketStep_def heldOnly_stored)
    have IP: "P w' \<and> I z' w'" if "I z w0" "cl_store c w' = Some z'" "cl_tenant c w' = cl_tenant c w0" "bucketStep z z'"
      for z z' w0 w'
      using that at bucketStep_trans unfolding I_def by metis
    have sync: "anyRun (minioBucket_syncVersioning (cl_rec c) h z) w0 I P"
      "anyRun (minioBucket_syncLifecycle (cl_rec c) h z) w0 I P"
      "anyRun (minioBucket_syncDeletionPolicy (cl_rec c) z) w0 I P" if "I z w0" for h z w0
      using ID [OF that] minioBucket_sync_faulty [OF q, of w0 z _ P I] IP [OF that] by blast+
    show ?case
      unfolding y(5) deref_simps bindM_ret name
    proof (intro run_client [OF faultyBuckets_api(2) [OF q]] run_bucketExists [OF q] run_if, goal_cases)
      case (3 h w2 w3)
      then show ?case
        by (intro faulty_success [OF faultyBuckets_api(1) [OF q], where x = y])
          (use y in \<open>auto simp: keeps_def bucketPresent_def intro: kept cleared\<close>)
    next
      case (4 h w2 w3)
      then have "I y w3" using y by (simp add: I_def keeps_def bucketStep_refl)
      from sync(1) [OF this] show ?case
      proof (rule anyRun_bind)
        fix z w4 assume "I z w4"
        from sync(2) [OF this] show "runsTo (bindM (minioBucket_syncLifecycle (cl_rec c) h z) (\<lambda>b.
            bindM (minioBucket_syncDeletionPolicy (cl_rec c) b) (\<lambda>b. success (cl_rec c)))) w4 P"
          by (rule anyRun_bind, intro anyRun_bind [OF sync(3)])
            (use at in \<open>auto simp: I_def intro: anyRun_success\<close>)
      qed
    qed (use y in \<open>auto simp: keeps_def intro: kept\<close>)
  qed
  then show ?thesis by (simp only: P_def)
qed

lemma run_push_option:
  assumes "\<And>w v. answers (e_Mutate E w h (Q v)) (\<lambda>x w'. keeps c w w')" and "\<And>w'. keeps c w w' \<Longrightarrow> P w'"
    and "\<And>w'. keeps c w w' \<Longrightarrow> anyRun (f ()) w' S P"
  shows "anyRun (bindM (case y of None \<Rightarrow> ret () | Some a \<Rightarrow> bindM (liftE (g a)) (\<lambda>v. mutate E h (Q v))) f) w S P"
proof (cases y)
  case (Some a)
  show ?thesis
    unfolding Some option.case bindM_assoc
    by (rule run_lift, use assms(2) in simp, rule run_mutate [OF assms(1)]) (use assms(2,3) in auto)
qed (use assms(3) in simp)

lemma minioBucket_create_faulty:
  assumes q: "faultyBuckets c" and "cl_store c w = Some b" and "heldOnly (b_ObjectMeta b)"
    and "bucketNamed k b" and "\<not> bucketStatusSet b"
  shows "runsTo (minioBucket_create (cl_rec c) b) w (\<lambda>w'. (bucketPresent k (cl_tenant c w) \<longrightarrow> bucketPresent k (cl_tenant c w')) \<and>
    otherBuckets False k (cl_tenant c w') = otherBuckets False k (cl_tenant c w) \<and>
    stored c (\<lambda>y. metaStored (b_ObjectMeta b) (b_ObjectMeta y) \<and> bucketNamed k y \<and>
      (if bucketStatusSet y then bucketPresent k (cl_tenant c w') else bs_Migrate (b_Spec y) = bs_Migrate (b_Spec b))) w')"
    (is "runsTo _ _ ?P")
proof -
  from assms(4) have n: "bs_Name (b_Spec b) = fst k" and spec: "specNamed k (b_Spec b)"
    by (simp_all add: bucketNamed_def specNamed_def)
  define P where "P = ?P"
  let ?t = "cl_tenant c w"
  have others: "otherBuckets False k (madeBucket (fst k) ?t) = otherBuckets False k ?t"
      "bucketPresent k (madeBucket (fst k) ?t)" "madeBucket (fst k) ?t (fst k) \<noteq> None"
    by (auto simp: madeBucket_def bucket_tenant)
  have kept: "P w'" if "cl_store c w' = Some b" "cl_tenant c w' = ?t \<or> cl_tenant c w' = madeBucket (fst k) ?t" for w'
    using that assms(4,5) others unfolding P_def by (auto simp: stored_def)
  have recorded: "P w'" if "bucketSame z y" "b_ObjectMeta z = b_ObjectMeta b" "specNamed k (b_Spec z)"
    "bucketCurrent z = Some cs" "specNamed k cs" "cl_store c w' = Some y"
    "cl_tenant c w' = ?t \<or> cl_tenant c w' = madeBucket (fst k) ?t" "cl_tenant c w' (fst k) \<noteq> None" for w' y z cs
    using that others unfolding P_def by (auto simp: bucketSame_defs bucketPresent_def)
  note push = run_push_option [where Q = "SetBucketVersioning (fst k)", OF faultyBuckets_set(1) [OF q]]
    run_push_option [where Q = "SetBucketLifecycle (fst k)", OF faultyBuckets_set(2) [OF q]]
  have "runsTo (minioBucket_create (cl_rec c) b) w P"
    unfolding minioBucket_create_def Let_def n
    by (intro run_client [OF faultyBuckets_api(2) [OF q]] run_attempt_mutate [OF faultyBuckets_make [OF q]] anyRun_check
        push faulty_success [OF faultyBuckets_api(1) [OF q], where x = b])
      (use assms(2,3) n spec others(3) in \<open>auto simp: keeps_def attempts_def moves_def ignoreMinioErrorCode_eq_None
        intro: kept recorded split: if_splits\<close>)
  then show ?thesis by (simp only: P_def)
qed

interpretation bucket_surviving: surviving minioBucketReconciler_Reconcile minioBucket_pass
  minioBucket_delete minioBucket_addFinalizer "\<lambda>r _. minioBucket_update r" "\<lambda>r _. minioBucket_create r"
  b_ObjectMeta "\<lambda>b m. b\<lparr>b_ObjectMeta := m\<rparr>" bucketStatusSet bucketSame
  quietBuckets "\<lambda>b. bs_Migrate (b_Spec b)" bucketNamed bucketPresent otherBuckets "\<lambda>_ _ _. True"
  True bucketPossible faultyBuckets
  by unfold_locales
    (simp add: faultyBuckets_api, (erule (4) minioBucket_delete_faulty minioBucket_update_faulty minioBucket_create_faulty)+, simp add: bucketPossible_def)

text \<open>
  A recorded bucket that holds objects and is not to be forced away stays as it is, and so does the record.
\<close>

lemma otherBuckets_filled:
  "otherBuckets d (n, Some False) s' = otherBuckets d (n, Some False) s \<Longrightarrow> s n = Some True \<Longrightarrow> s' = s"
proof (rule ext)
  fix m assume "otherBuckets d (n, Some False) s' = otherBuckets d (n, Some False) s" "s n = Some True"
  then have "(s'(n := None)) m = (s(n := None)) m" "s' n = s n" by (auto simp: otherBuckets_def)
  then show "s' m = s m" by (cases "m = n") simp_all
qed

lemma faults_kept:
  assumes "faultStep\<^sup>*\<^sup>* v v'" and "v = (Applied, True) \<or> v = (Closing, True)" and "snd v'"
  shows "v' = v"
proof (cases "v = (Closing, True)")
  case True
  from faults_closing [OF assms(1) True] assms(3) True show ?thesis by auto
next
  case False
  from assms(1) have "v = (Applied, True) \<Longrightarrow> v' = v"
    by (induction rule: rtranclp_induct) (auto elim: faultStep.cases)
  with assms(2) False show ?thesis by simp
qed

lemma bucket_statusSet_view:
  "bucketStatusSet x \<Longrightarrow> heldOnly (b_ObjectMeta x) \<Longrightarrow> cl_store c w = Some x \<Longrightarrow>
   bucket_settling.view c k w = (if timeIsZero (om_DeletionTimestamp (b_ObjectMeta x)) then Applied else Closing,
     bucketPresent k (cl_tenant c w))"
  by (simp add: viewOf_def phaseOf_def heldOnly_def)

lemma bucket_view_statusSet:
  assumes "fst (bucket_settling.view c k w) \<in> {Applied, Closing}" and "bucket_settling.inorder c k w"
  obtains y where "cl_store c w = Some y" and "heldOnly (b_ObjectMeta y)" and "bucketNamed k y" and "bucketStatusSet y"
    and "timeIsZero (om_DeletionTimestamp (b_ObjectMeta y)) \<longleftrightarrow> fst (bucket_settling.view c k w) = Applied"
  using assms
  by (auto simp: viewOf_def phaseOf_def orderly_def inOrder_def split: option.splits if_splits)

lemma minioBucket_delete_filled:
  assumes q: "quietBuckets c" and "heldOnly (b_ObjectMeta b)" and "bucketNamed (n, Some False) b" and "bucketStatusSet b"
    and "cl_tenant c w n = Some True"
  shows "errRun (minioBucket_delete (cl_rec c) b) w (\<lambda>_. keeps c w)"
proof -
  from assms(4) obtain cs where cs: "bucketCurrent b = Some cs" by (auto simp: bucketStatusSet_def)
  with assms(3) have n: "bs_Name cs = n" "bucketDeletionPolicy cs \<noteq> MinioBucketDeletionPolicyAlways"
    by (auto simp: bucketNamed_def specNamed_def bucketDeletionPolicy_Always)
  show ?thesis
    unfolding minioBucket_delete_def cs option.case Let_def n(1)
  proof (rule errRun_bind [OF quietBuckets_open [OF q assms(2)]],
      rule errRun_bind [OF quietBuckets_remove [OF q]], rule errRun_bind_left, goal_cases)
    case (1 h w1 x w2)
    with assms(5) n show ?case
      by (cases "errOf x") (auto simp: keeps_def ignoreMinioErrorCode_def isMinioErrorCode_def split: goerr.splits intro!: errRun_fail)
  qed
qed

section \<open>Properties\<close>

lemma faultyBuckets_lost: "faultyBuckets (loseAnswers bucketsCluster)"
  unfolding faultyBuckets_def sampleCluster_def
  by (intro conjI allI loseAnswers_api loseAnswers_looks)
    (simp_all add: loseAnswers_mutate loseAnswers_reads,
     simp_all add: bucketsEnv_def anyWorldEnv_def looksAround_def infraKeeps_def opKeeps_def answers_def attempts_def
      moves_def keeps_def madeBucket_def removedBucket_def isMinioErrorCode_def)

text \<open>
  C14 - A MinioBucket recovers from faults. Over it run any passes in which requests fail in any way (the API server
  refuses or conflicts, the tenant cannot be reached, a request is carried out and its answer is lost), and
  then two passes in a quiet cluster. A bucket that is not being deleted exists then, also when it had been
  lost in the tenant, unless a bucket of that name existed before and the spec does not ask to migrate it; it is
  recorded, unless its creation was cut short between the request and the record, which cannot happen to
  one that was recorded and there or asks to migrate. Of one that is being deleted and can be removed the object is
  gone, and so is the bucket if it was recorded (if it was not, the bucket stays as it was). It can be removed if
  it holds no objects, or if its deletion is forced: the tenant refuses to remove a bucket that holds objects
  otherwise, and then the object stays. Throughout, the bucket has one name, in the spec and in the record if there
  is one, and of one that is being deleted both are to agree on whether the policy is \<open>Always\<close>. No pass touches any
  other bucket.
\<close>

theorem bucket_recovers:
  assumes "\<And>d. d \<in> set ds \<Longrightarrow> faultyBuckets d \<and> sameViews c d" and "quietBuckets c"
    and "cl_store c w = Some b" and "bucketNamed (n, None) b" and "inOrder b_ObjectMeta bucketStatusSet b"
    and "\<not> timeIsZero (om_DeletionTimestamp (b_ObjectMeta b)) \<longrightarrow> bucketRemovable n b (cl_tenant c w)"
    and "w' = passes minioBucketReconciler_Reconcile c k (fold (stepOf minioBucketReconciler_Reconcile) ds w)" and "2 \<le> k"
  shows "(cl_tenant c w')(n := None) = (cl_tenant c w)(n := None) \<and>
    (timeIsZero (om_DeletionTimestamp (b_ObjectMeta b)) \<longrightarrow>
      (cl_tenant c w n \<noteq> None \<longrightarrow> bucketStatusSet b \<or> bs_Migrate (b_Spec b)) \<longrightarrow>
      cl_tenant c w' n \<noteq> None \<and>
      ((if bucketStatusSet b then cl_tenant c w n \<noteq> None else bs_Migrate (b_Spec b)) \<longrightarrow>
        stored c (\<lambda>y. bucketNamed (n, None) y \<and> bucketStatusSet y) w')) \<and>
    (\<not> timeIsZero (om_DeletionTimestamp (b_ObjectMeta b)) \<longrightarrow>
      cl_store c w' = None \<and> (cl_tenant c w' n \<noteq> None \<longleftrightarrow> cl_tenant c w n \<noteq> None \<and> \<not> bucketStatusSet b))"
proof -
  obtain m where m: "bucketNamed (n, m) b"
      "bucketPossible (\<not> timeIsZero (om_DeletionTimestamp (b_ObjectMeta b))) (n, m) (cl_tenant c w)"
    by (rule bucketRemovable_key [OF assms(4,6)])
  have present: "bucketPresent (n, m) s \<longleftrightarrow> s n \<noteq> None" for s by (simp add: bucketPresent_def)
  have d: "faultyBuckets d \<and> cl_store d = cl_store c \<and> cl_tenant d = cl_tenant c" if "d \<in> set ds" for d
    using assms(1) [OF that] by (simp add: sameViews_def)
  note s = bucket_surviving.survives [OF d assms(2,3) m(1) assms(5) m(2) assms(7,8), unfolded present]
  have kept: "timeIsZero (om_DeletionTimestamp (b_ObjectMeta b)) \<Longrightarrow>
      (cl_tenant c w n \<noteq> None \<longrightarrow> bucketStatusSet b \<or> bs_Migrate (b_Spec b)) \<Longrightarrow>
      bucket_settling.view c (n, m) w' = (Applied, True) \<or> bucket_settling.view c (n, m) w' = (Held False, True) \<and>
        \<not> (if bucketStatusSet b then cl_tenant c w n \<noteq> None else bs_Migrate (b_Spec b))"
    and closed: "\<not> timeIsZero (om_DeletionTimestamp (b_ObjectMeta b)) \<Longrightarrow>
      bucket_settling.view c (n, m) w' = (Gone, cl_tenant c w n \<noteq> None \<and> \<not> bucketStatusSet b)"
    and order: "bucket_settling.inorder c (n, m) w'"
    using s by blast+
  have applied: "stored c (\<lambda>y. bucketNamed (n, None) y \<and> bucketStatusSet y) w'"
    if v: "bucket_settling.view c (n, m) w' = (Applied, True)"
    by (rule bucket_view_statusSet [OF _ order]) (use v in \<open>auto simp: stored_def intro: bucketNamed_name\<close>)
  have there: "cl_tenant c w' n \<noteq> None \<longleftrightarrow> snd (bucket_settling.view c (n, m) w')" by (simp add: viewOf_def present)
  have gone: "cl_store c w' = None" if "fst (bucket_settling.view c (n, m) w') = Gone"
    using that by (auto simp: viewOf_def phaseOf_def split: option.splits if_splits)
  show ?thesis
  proof (intro conjI impI, goal_cases)
    case 1
    show ?case using conjunct1 [OF s] by (simp add: otherBuckets_def)
  next
    case 2
    from kept [OF this] show ?case unfolding there by (elim disjE conjE) (simp_all only: snd_conv)
  next
    case 3
    from kept [OF 3(1,2)] 3(3) applied show ?case by blast
  next
    case 4
    from closed [OF 4] show ?case by (intro gone) (simp only: fst_conv)
  next
    case 5
    show ?case unfolding there closed [OF 5] snd_conv ..
  qed
qed

theorem bucket_recovers_witness:
  "let w' = passes minioBucketReconciler_Reconcile bucketsCluster 2 (fold (stepOf minioBucketReconciler_Reconcile)
       [loseAnswers bucketsCluster, loseAnswers bucketsCluster] (Some (sampleBucket None), [''a'' \<mapsto> True])) in
     snd w' ''b'' \<noteq> None \<and> snd w' ''a'' = Some True"
proof -
  let ?w = "(Some (sampleBucket None), [''a'' \<mapsto> True])" and ?ds = "[loseAnswers bucketsCluster, loseAnswers bucketsCluster]"
  define w' where "w' = passes minioBucketReconciler_Reconcile bucketsCluster 2
      (fold (stepOf minioBucketReconciler_Reconcile) ?ds ?w)"
  have d: "faultyBuckets d \<and> sameViews bucketsCluster d" if "d \<in> set ?ds" for d
    using that by (auto simp: faultyBuckets_lost loseAnswers_same)
  from bucket_recovers [OF d quietBuckets_sample _ _ _ _ w'_def, of "sampleBucket None" "''b''"]
  have "snd w' ''b'' \<noteq> None \<and> (snd w')(''b'' := None) = [''a'' \<mapsto> True](''b'' := None)"
    by (simp add: bucketNamed_def specNamed_def inOrder_def heldOnly_def bucketStatusSet_def sampleBucketSpec_def timeIsZero_def)
  then show ?thesis unfolding w'_def Let_def by (auto dest: fun_cong [of _ _ "''a''"])
qed

text \<open>
  C39 - No pass removes a bucket that holds objects unless the deletion policy is \<open>Always\<close>. Take a recorded MinioBucket
  whose spec and record have another policy, and whose bucket holds objects. After any passes in which requests
  fail in any way, and any passes in a quiet cluster after them, the tenant has the buckets and objects it had
  before, and the MinioBucket is still recorded, being deleted or not. If it is being deleted, the next pass in the
  quiet cluster fails: the deletion waits until the bucket is empty or forced away.
\<close>

theorem filled_bucket_kept:
  assumes "\<And>d. d \<in> set ds \<Longrightarrow> faultyBuckets d \<and> sameViews c d" and "quietBuckets c"
    and "cl_store c w = Some b" and "bucketNamed (n, Some False) b" and "inOrder b_ObjectMeta bucketStatusSet b"
    and "bucketStatusSet b" and "cl_tenant c w n = Some True"
    and "w' = passes minioBucketReconciler_Reconcile c k (fold (stepOf minioBucketReconciler_Reconcile) ds w)"
  shows "cl_tenant c w' = cl_tenant c w \<and>
    stored c (\<lambda>y. bucketNamed (n, Some False) y \<and> bucketStatusSet y \<and>
      timeIsZero (om_DeletionTimestamp (b_ObjectMeta y)) = timeIsZero (om_DeletionTimestamp (b_ObjectMeta b))) w' \<and>
    (\<not> timeIsZero (om_DeletionTimestamp (b_ObjectMeta b)) \<longrightarrow>
      (\<exists>e. outcome (minioBucketReconciler_Reconcile (cl_rec c) (cl_req c)) w' = Err e))"
proof -
  let ?k = "(n, Some False)" and ?w = "fold (stepOf minioBucketReconciler_Reconcile) ds w"
    and ?live = "timeIsZero (om_DeletionTimestamp (b_ObjectMeta b))"
  have d: "faultyBuckets d \<and> cl_store d = cl_store c \<and> cl_tenant d = cl_tenant c" if "d \<in> set ds" for d
    using assms(1) [OF that] by (simp add: sameViews_def)
  have held: "heldOnly (b_ObjectMeta b)" using assms(5,6) by (auto simp: inOrder_def)
  have v: "bucket_settling.view c ?k w = (if ?live then Applied else Closing, True)"
    using bucket_statusSet_view [OF assms(6) held assms(3), of ?k] assms(7) by (simp add: bucketPresent_def)
  have "bucket_settling.inorder c ?k w" using assms(3-5) by (simp add: orderly_def)
  then have r: "bucket_settling.inorder c ?k ?w"
      "faultStep\<^sup>*\<^sup>* (bucket_settling.view c ?k w) (bucket_settling.view c ?k ?w)"
      "otherBuckets (closing (bucket_settling.view c ?k w)) ?k (cl_tenant c ?w) =
       otherBuckets (closing (bucket_settling.view c ?k w)) ?k (cl_tenant c w)"
    using bucket_surviving.faults_reach [OF d _ refl] by blast+
  have t: "cl_tenant c ?w = cl_tenant c w" by (rule otherBuckets_filled [OF r(3) assms(7)])
  have v': "bucket_settling.view c ?k ?w = (if ?live then Applied else Closing, True)"
    unfolding v [symmetric]
  proof (rule faults_kept [OF r(2)])
    show "snd (bucket_settling.view c ?k ?w)" unfolding viewOf_def snd_conv bucketPresent_def using t assms(7) by simp
  qed (simp add: v)
  obtain y where y: "cl_store c ?w = Some y" "heldOnly (b_ObjectMeta y)" "bucketNamed ?k y" "bucketStatusSet y"
      "timeIsZero (om_DeletionTimestamp (b_ObjectMeta y)) = ?live"
    by (rule bucket_view_statusSet [of c ?k ?w]) (use r v' in auto)
  show ?thesis
  proof (cases ?live)
    case True
    have able: "bucket_settling.able c ?k ?w" using y(1,5) True by (simp add: ableOf_def bucketPossible_def)
    note p = bucket_settling.passes_refine [OF assms(2) r(1) able, of k, folded assms(8)]
    have vw: "bucket_settling.view c ?k w' = (Applied, True)"
      using conjunct1 [OF conjunct2 [OF conjunct2 [OF p]]] True unfolding v' by (simp add: ideal_stays)
    from p have order: "bucket_settling.inorder c ?k w'" by blast
    moreover have "cl_tenant c w' = cl_tenant c w" using p t otherBuckets_filled assms(7) by metis
    moreover obtain z where "cl_store c w' = Some z" "bucketNamed ?k z" "bucketStatusSet z"
        "timeIsZero (om_DeletionTimestamp (b_ObjectMeta z))"
      by (rule bucket_view_statusSet [OF _ order]) (use vw in auto)
    ultimately show ?thesis using True by (simp add: stored_def)
  next
    case False
    have "keeps c ?w w' \<and> (\<exists>e. outcome (minioBucketReconciler_Reconcile (cl_rec c) (cl_req c)) w' = Err e)"
    proof (rule bucket_settling.fails_stuck [OF assms(2) y(1) _ assms(8)])
      fix w1 assume "keeps c ?w w1"
      then show "errRun (minioBucket_pass (cl_rec c) (cl_req c) y) w1 (\<lambda>_. keeps c w1)"
        using minioBucket_delete_filled [OF assms(2) y(2-4)] t assms(7) y(2,5) False
        by (simp add: bucket.pass_phases keeps_def)
    qed
    with y t show ?thesis by (auto simp: keeps_def stored_def)
  qed
qed

text \<open>The sample object, recorded, with the policy \<open>IfEmpty\<close> and being deleted.\<close>

definition keptBucket :: MinioBucket where
  "keptBucket = (let spec = sampleBucketSpec\<lparr>bs_DeletionPolicy := MinioBucketDeletionPolicyIfEmpty\<rparr> in
     (sampleBucket (Some spec))\<lparr>b_ObjectMeta := deletedMeta ''b'', b_Spec := spec\<rparr>)"

theorem filled_bucket_kept_witness:
  "let w' = passes minioBucketReconciler_Reconcile bucketsCluster 3 (fold (stepOf minioBucketReconciler_Reconcile)
       [loseAnswers bucketsCluster]
       (Some keptBucket,
        [''b'' \<mapsto> True])) in
     snd w' = [''b'' \<mapsto> True] \<and>
     (\<exists>e. outcome (minioBucketReconciler_Reconcile (cl_rec bucketsCluster) (cl_req bucketsCluster)) w' = Err e)"
proof -
  let ?w = "(Some keptBucket, [''b'' \<mapsto> True])" and ?ds = "[loseAnswers bucketsCluster]"
  define w' where "w' = passes minioBucketReconciler_Reconcile bucketsCluster 3
      (fold (stepOf minioBucketReconciler_Reconcile) ?ds ?w)"
  have d: "faultyBuckets d \<and> sameViews bucketsCluster d" if "d \<in> set ?ds" for d
    using that by (auto simp: faultyBuckets_lost loseAnswers_same)
  from filled_bucket_kept [OF d quietBuckets_sample _ _ _ _ _ w'_def, of keptBucket "''b''"]
  have "snd w' = [''b'' \<mapsto> True] \<and>
     (\<exists>e. outcome (minioBucketReconciler_Reconcile (cl_rec bucketsCluster) (cl_req bucketsCluster)) w' = Err e)"
    by (simp add: keptBucket_def MinioBucketDeletionPolicyIfEmpty_def MinioBucketDeletionPolicyAlways_def
        Let_def bucketCurrent_def sampleBucket_def bucketNamed_def specNamed_def inOrder_def heldOnly_def bucketStatusSet_def
        sampleBucketSpec_def)
  then show ?thesis unfolding w'_def Let_def .
qed

end
