(* ===== verification/Fault_Tolerance.thy ===== *)
theory Fault_Tolerance
  imports Faulty_Identities Faulty_Policies Faulty_Buckets
begin

text \<open>
  A whole tenant whose services fail for a while: any passes over its resources in which requests fail, each in
  its own way, and then a quiet time. No deletion is lost (a policy binding may be stuck in its), what was
  recorded or is to be migrated stays recorded, and from some pass on everything that the resources
  ask for is in the tenant.
\<close>

section \<open>A faulty manager\<close>

text \<open>
  \<open>D\<close> sees the objects and the tenant of the manager \<open>M\<close>, with services that fail; those of one resource leave
  the objects of the others alone.
\<close>

definition faultyManager :: "'w manager \<Rightarrow> 'w manager \<Rightarrow> bool" where
  "faultyManager M D \<longleftrightarrow>
     (\<forall>n. faultyUsers (ma_user D n) \<and> sameViews (ma_user M n) (ma_user D n)) \<and>
     (\<forall>n. faultyGroups (ma_group D n) \<and> sameViews (ma_group M n) (ma_group D n)) \<and>
     (\<forall>n. faultyMembers (ma_member D n) \<and> sameViews (ma_member M n) (ma_member D n)) \<and>
     (\<forall>n. faultyPolicies (ma_policy D n) \<and> sameViews (ma_policy M n) (ma_policy D n)) \<and>
     (\<forall>n. faultyAttachments (ma_dn M) (ma_base M) (ma_binding D n) \<and> sameViews (ma_binding M n) (ma_binding D n)) \<and>
     (\<forall>i j. i \<noteq> j \<longrightarrow> spares D j (storedObject M i))"

lemma faultyManagerD:
  assumes "faultyManager M D"
  shows "faultyUsers (ma_user D a)" "sameViews (ma_user M a) (ma_user D a)"
    and "faultyGroups (ma_group D a)" "sameViews (ma_group M a) (ma_group D a)"
    and "faultyMembers (ma_member D b)" "sameViews (ma_member M b) (ma_member D b)"
    and "faultyPolicies (ma_policy D a)" "sameViews (ma_policy M a) (ma_policy D a)"
    and "faultyAttachments (ma_dn M) (ma_base M) (ma_binding D d)" "sameViews (ma_binding M d) (ma_binding D d)"
    and "i \<noteq> j \<Longrightarrow> spares D j (storedObject M i)"
  using assms by (simp_all add: faultyManager_def del: split_paired_All)

text \<open>A pass with faults over one resource, and what it means for another.\<close>

lemma faultyPass_own:
  assumes q: "quietManager M" "faultyManager M D" and "resourceOrderly M r w" and "\<not> closing (resourceView M r w)"
    and "resourceAble r (ma_tenant M w) \<or> waiting (resourceView M r w)" and "w' = passOver D r w"
  shows "resourceOrderly M r w' \<and> faultStep (resourceView M r w) (resourceView M r w') \<and>
    resourceOthers r (ma_tenant M w') = resourceOthers r (ma_tenant M w) \<and>
    (resourceAble r (ma_tenant M w') \<or> waiting (resourceView M r w'))"
proof (cases r)
  case (AUser n)
  note d = faultyManagerD(1,2) [OF q(2), of n]
  from AUser user_surviving.faulty_open [OF d(1), of n w w'] quietManagerD(2) [OF q(1), of n] assms(3-6)
  show ?thesis
    by (simp add: sameViewsD [OF d(2)] passOver_def resourceOrderly_def resourceView_def resourceAble_def resourceOthers_def)
next
  case (AGroup n)
  note d = faultyManagerD(3,4) [OF q(2), of n]
  from AGroup group_surviving.faulty_open [OF d(1), of n w w'] quietManagerD(4) [OF q(1), of n] assms(3-6)
  show ?thesis
    by (simp add: sameViewsD [OF d(2)] passOver_def resourceOrderly_def resourceView_def resourceAble_def resourceOthers_def
        groupPossible_def)
next
  case (AMember n)
  note d = faultyManagerD(5,6) [OF q(2), of n]
  from AMember member_surviving.faulty_open [OF d(1), of n w w'] quietManagerD(6) [OF q(1), of n] assms(3-6)
  show ?thesis
    by (simp add: sameViewsD [OF d(2)] passOver_def resourceOrderly_def resourceView_def resourceAble_def resourceOthers_def)
next
  case (APolicy n)
  note d = faultyManagerD(7,8) [OF q(2), of n]
  from APolicy policy_surviving.faulty_open [OF d(1), of "(n, ma_content M n)" w w'] quietManagerD(8) [OF q(1), of n] assms(3-6)
  show ?thesis
    by (simp add: sameViewsD [OF d(2)] passOver_def resourceOrderly_def resourceView_def resourceAble_def resourceOthers_def
        policyPossible_def otherPolicies_def)
next
  case (ABinding n)
  note d = faultyManagerD(9,10) [OF q(2), of n]
  from ABinding binding_surviving.faulty_open [OF d(1), of n w w'] quietManagerD(10) [OF q(1), of n] assms(3-6)
  show ?thesis
    by (simp add: sameViewsD [OF d(2)] passOver_def resourceOrderly_def resourceView_def resourceAble_def resourceOthers_def)
qed

lemma fault_present: "faultStep v v' \<Longrightarrow> \<not> closing v \<Longrightarrow> snd v \<Longrightarrow> snd v'"
  by (cases rule: faultStep.cases) auto

lemma fault_closed: "faultStep v v' \<Longrightarrow> \<not> closing v \<Longrightarrow> \<not> closing v'"
  using fault_opens by blast

lemma faultyPass_other:
  assumes "underWay M w" and "faultyManager M D" and "i \<noteq> j"
  shows "resourceView M i (passOver D j w) = resourceView M i w"
    and "resourceOrderly M i (passOver D j w) = resourceOrderly M i w"
proof -
  from assms(1) have q: "quietManager M" by (simp add: underWay_def)
  have "storedObject M i (passOver D j w) = storedObject M i w"
    by (rule spares_pass) (rule faultyManagerD(11) [OF assms(2,3)])
  moreover have "resourcePresent i (ma_tenant M (passOver D j w)) = resourcePresent i (ma_tenant M w)"
    using faultyPass_own [OF q assms(2), of j w] assms(1,3) by (intro resourceOthers_present [of j]) (simp_all add: underWay_def)
  ultimately show "resourceView M i (passOver D j w) = resourceView M i w"
    "resourceOrderly M i (passOver D j w) = resourceOrderly M i w" by (rule resource_cong [OF q])+
qed

lemma faultyPass_step:
  assumes "underWay M w" and "faultyManager M D"
  shows "faultStep (resourceView M i w) (resourceView M i (passOver D j w))"
    and "resourceProvided i (ma_tenant M (passOver D j w)) = resourceProvided i (ma_tenant M w)"
proof -
  from assms(1) have q: "quietManager M" by (simp add: underWay_def)
  have own: "resourceOrderly M j (passOver D j w) \<and> faultStep (resourceView M j w) (resourceView M j (passOver D j w)) \<and>
    resourceOthers j (ma_tenant M (passOver D j w)) = resourceOthers j (ma_tenant M w) \<and>
    (resourceAble j (ma_tenant M (passOver D j w)) \<or> waiting (resourceView M j (passOver D j w)))"
    by (rule faultyPass_own [OF q assms(2)]) (use assms(1) in \<open>simp_all add: underWay_def\<close>)
  then show "faultStep (resourceView M i w) (resourceView M i (passOver D j w))"
    using faultyPass_other(1) [OF assms, of i j] by (cases "i = j") (simp_all add: faultStep.stays)
  show "resourceProvided i (ma_tenant M (passOver D j w)) = resourceProvided i (ma_tenant M w)"
    using own by (intro resourceOthers_provided [of j]) blast
qed

lemma faultyPass_able:
  assumes "underWay M w" and "faultyManager M D" and "resourceAble i (ma_tenant M w)"
  shows "resourceAble i (ma_tenant M (passOver D j w))"
proof -
  from assms(1) have q: "quietManager M" by (simp add: underWay_def)
  have "resourcePresent k (ma_tenant M (passOver D j w))" if "resourcePresent k (ma_tenant M w)" for k
    using fault_present [OF faultyPass_step(1) [OF assms(1,2)], of k j] assms(1) that
    by (simp add: underWay_def resourceView_present [OF q])
  then show ?thesis using assms(3) faultyPass_step(2) [OF assms(1,2)] by (simp add: resourceAble_needs)
qed

lemma faultyPass_underWay:
  assumes "underWay M w" and "faultyManager M D"
  shows "underWay M (passOver D j w)"
  unfolding underWay_def
proof (intro conjI allI)
  show q: "quietManager M" using assms(1) by (simp add: underWay_def)
  fix r
  have r: "resourceOrderly M r w" "\<not> closing (resourceView M r w)"
      "resourceAble r (ma_tenant M w) \<or> waiting (resourceView M r w)" using assms(1) by (simp_all add: underWay_def)
  show "\<not> closing (resourceView M r (passOver D j w))"
    by (rule fault_closed [OF faultyPass_step(1) [OF assms] r(2)])
  have "resourceOrderly M r (passOver D j w) \<and>
    (resourceAble r (ma_tenant M (passOver D j w)) \<or> waiting (resourceView M r (passOver D j w)))"
  proof (cases "r = j")
    case True
    with faultyPass_own [OF q assms(2) r refl] show ?thesis by blast
  next
    case False
    with faultyPass_other [OF assms False] r faultyPass_able [OF assms, of r j] show ?thesis by auto
  qed
  then show "resourceOrderly M r (passOver D j w)"
    "resourceAble r (ma_tenant M (passOver D j w)) \<or> waiting (resourceView M r (passOver D j w))" by blast+
qed

section \<open>After the faults\<close>

text \<open>Passes with faults: of which manager, over which resource.\<close>

definition faultyRun :: "('w manager \<times> resource) list \<Rightarrow> 'w \<Rightarrow> 'w" where
  "faultyRun fs w = fold (\<lambda>(D, r). passOver D r) fs w"

lemma faultyRun_reaches:
  assumes "underWay M w" and "\<And>D r. (D, r) \<in> set fs \<Longrightarrow> faultyManager M D"
  shows "underWay M (faultyRun fs w) \<and> faultStep\<^sup>*\<^sup>* (resourceView M i w) (resourceView M i (faultyRun fs w)) \<and>
    resourceProvided i (ma_tenant M (faultyRun fs w)) = resourceProvided i (ma_tenant M w)"
  using assms
proof (induction fs arbitrary: w)
  case (Cons f fs)
  obtain D r where f: "f = (D, r)" by (cases f)
  have D: "faultyManager M D" by (rule Cons.prems(2) [of D r]) (simp add: f)
  note step = faultyPass_underWay [OF Cons.prems(1) D, of r] faultyPass_step [OF Cons.prems(1) D, of i r]
  have "underWay M (faultyRun fs (passOver D r w)) \<and>
    faultStep\<^sup>*\<^sup>* (resourceView M i (passOver D r w)) (resourceView M i (faultyRun fs (passOver D r w))) \<and>
    resourceProvided i (ma_tenant M (faultyRun fs (passOver D r w))) = resourceProvided i (ma_tenant M (passOver D r w))"
    by (rule Cons.IH [OF step(1)]) (use Cons.prems(2) in auto)
  with step(2,3) show ?case
    by (auto simp: faultyRun_def f intro: converse_rtranclp_into_rtranclp)
qed (simp add: faultyRun_def)

lemma faults_present: "faultStep\<^sup>*\<^sup>* v v' \<Longrightarrow> \<not> closing v \<Longrightarrow> snd v \<Longrightarrow> snd v' \<and> \<not> closing v'"
  by (induction rule: rtranclp_induct) (auto dest: fault_present fault_closed)

context composed
begin

lemma run_stuck: "sound w \<Longrightarrow> view i w = (Held False, True) \<Longrightarrow> view i (run schedule w) = (Held False, True)"
proof (induction schedule arbitrary: w)
  case (Cons j schedule)
  then have "view i (step j w) = (Held False, True)" by (cases "i = j") (simp_all add: own_step other_step)
  with Cons show ?case by (simp add: sound_step)
qed simp

text \<open>
  Parts that settle or are there without a record: the first settle, the second stay as they are, and the
  others may depend on both.
\<close>

lemma fair_recovers:
  assumes "sound w" and "finite R" and "\<And>i. i \<in> R \<Longrightarrow> settles (view i w) \<or> view i w = (Held False, True)"
    and "\<And>i. i \<in> R \<Longrightarrow> provided i w \<and> fairTo schedule i"
    and "\<And>i j. i \<in> R \<Longrightarrow> j \<in> needs i \<Longrightarrow> j \<in> R \<or> snd (view j w)"
  shows "\<exists>m. \<forall>n\<ge>m. \<forall>i\<in>R. view i (at schedule w n) = (if settles (view i w) then (Applied, True) else (Held False, True))"
proof -
  let ?R = "{i \<in> R. settles (view i w)}"
  have "\<exists>m. \<forall>n\<ge>m. \<forall>i\<in>?R. view i (at schedule w n) = (Applied, True)"
  proof (rule fair_settles_all [OF assms(1)])
    show "j \<in> ?R \<or> snd (view j w)" if "i \<in> ?R" "j \<in> needs i" for i j
      using that assms(3) [of j] assms(5) [of i j] by auto
  qed (use assms(2,4) in auto)
  then obtain m where m: "\<And>n i. m \<le> n \<Longrightarrow> i \<in> R \<Longrightarrow> settles (view i w) \<Longrightarrow> view i (at schedule w n) = (Applied, True)"
    by blast
  have "view i (at schedule w n) = (Held False, True)" if "i \<in> R" "\<not> settles (view i w)" for i n
    using that assms(3) run_stuck [OF assms(1), of i] by (auto simp: after_def)
  with m show ?thesis by auto
qed

end

section \<open>Deletions\<close>

text \<open>Nothing keeps what a resource manages from being taken away; and what does not go with it.\<close>

definition resourceRemovable :: "resource \<Rightarrow> tenantState \<Rightarrow> bool" where
  "resourceRemovable r s = (case r of
       AUser n \<Rightarrow> True
     | AGroup n \<Rightarrow> groupPossible True n s
     | AMember n \<Rightarrow> memberPossible True n s
     | APolicy n \<Rightarrow> n \<notin> (fst \<circ> snd) ` ts_attached s
     | ABinding n \<Rightarrow> bindingPossible True n s)"

definition resourceRest :: "resource \<Rightarrow> tenantState \<Rightarrow> tenantState" where
  "resourceRest r = (case r of
       AUser n \<Rightarrow> otherUsers True n
     | AGroup n \<Rightarrow> otherGroups True n
     | AMember n \<Rightarrow> otherMembers True n
     | APolicy n \<Rightarrow> dropPolicy n
     | ABinding n \<Rightarrow> otherBindings True n)"

lemmas resource_defs = passOver_def resourceOrderly_def resourceView_def resourceRemovable_def resourceForgiving_def
  resourceRest_def

lemma fold_passes: "fold (\<lambda>D. stepOf reconcile (g D)) Ds w = fold (stepOf reconcile) (map g Ds) w"
  by (simp add: fold_map comp_def)

lemma passOver_iterate:
  "(passOver M (AUser n) ^^ k) w = passes minioUserReconciler_Reconcile (ma_user M n) k w"
  "(passOver M (AGroup n) ^^ k) w = passes minioGroupReconciler_Reconcile (ma_group M n) k w"
  "(passOver M (AMember m) ^^ k) w = passes minioGroupBindingReconciler_Reconcile (ma_member M m) k w"
  "(passOver M (APolicy n) ^^ k) w = passes minioPolicyReconciler_Reconcile (ma_policy M n) k w"
  "(passOver M (ABinding b) ^^ k) w = passes minioPolicyBindingReconciler_Reconcile (ma_binding M b) k w"
  by (simp_all add: passOver_def)

context surviving
begin

lemma closing_survives:
  assumes "\<And>d. d \<in> set cs \<Longrightarrow> faulty d \<and> sameViews c d"
    and "quiet c" and "inorder c n w" and "closing (view c n w)" and "possible True n (cl_tenant c w)"
    and "view c n w = (Closing, False) \<longrightarrow> forgiving"
    and "w' = passes reconcile c k (fold (stepOf reconcile) cs w)" and "2 \<le> k"
  shows "others True n (cl_tenant c w') = others True n (cl_tenant c w) \<and>
    (view c n w' = (Gone, view c n w = (Releasing, True)) \<or>
     \<not> forgiving \<and> fst (view c n w) = Closing \<and> view c n w' = (Closing, False))"
proof -
  have "fst (view c n w) \<noteq> Gone" using assms(4) by (cases "view c n w") auto
  then obtain x where x: "cl_store c w = Some x" by (auto simp: viewOf_def split: option.splits)
  have d: "\<not> timeIsZero (om_DeletionTimestamp (metaOf x))" using assms(4) unfolding closing_deleted [OF x] .
  have v: "view c n w = (if statusSet x then Closing else Releasing, present n (cl_tenant c w))"
    using x d by (simp add: viewOf_def phaseOf_def)
  have n: "named n x" "inOrder metaOf statusSet x" using assms(3) x by (simp_all add: orderly_def)
  have D: "faulty e \<and> cl_store e = cl_store c \<and> cl_tenant e = cl_tenant c" if "e \<in> set cs" for e
    using assms(1) [OF that] by (simp add: sameViews_def)
  have p: "possible (\<not> timeIsZero (om_DeletionTimestamp (metaOf x))) n (cl_tenant c w)"
    using assms(5) by (simp add: d)
  have f: "statusSet x \<longrightarrow> present n (cl_tenant c w) \<or> forgiving"
    using assms(6) unfolding v by (auto split: if_splits)
  note s = survives [OF D assms(2) x n p assms(7,8)]
  have e: "view c n w' = (Gone, present n (cl_tenant c w) \<and> \<not> statusSet x) \<or>
      statusSet x \<and> \<not> forgiving \<and> view c n w' = (Closing, False)"
    using s d f by blast
  have "others True n (cl_tenant c w') = others True n (cl_tenant c w)" by (rule conjunct1 [OF s])
  with e show ?thesis unfolding v by (cases "statusSet x") (simp_all only: if_True if_False fst_conv prod.inject phase.distinct simp_thms)
qed

end

section \<open>The sample tenant, losing answers\<close>

definition loseManager :: "'w manager \<Rightarrow> 'w manager" where
  "loseManager M = M\<lparr>ma_user := loseAnswers \<circ> ma_user M, ma_group := loseAnswers \<circ> ma_group M,
     ma_member := loseAnswers \<circ> ma_member M, ma_policy := loseAnswers \<circ> ma_policy M,
     ma_binding := loseAnswers \<circ> ma_binding M\<rparr>"

lemma lost_looks: "looksAround (loseAnswers (tenantAt metaOf dn get put))"
  by (rule loseAnswers_looks) (simp add: looksAround_def infraKeeps_def opKeeps_def tenantEnv_def anyWorldEnv_def)

text \<open>What the sample tenant does with a request is what the laws allow.\<close>

lemma served:
  "tenantView (snd (tenantServe dn (AddUser n k) d)) = addUser n (tenantView d)"
  "tenantView (snd (tenantServe dn (UpdateGroupMembers n NilSlice False) d)) = addGroup n (tenantView d)"
  "tenantView (snd (tenantServe dn (UpdateGroupMembers g (Slice [u]) True) d)) = dropMember (g, u) (tenantView d)"
  "g \<in> set (td_groups d) \<Longrightarrow> tenantView (snd (tenantServe dn (UpdateGroupMembers g (Slice [u]) False) d)) =
     (if memberPossible False (g, u) (tenantView d) then addMember (g, u) (tenantView d) else tenantView d)"
  "marshalPolicy st v = Inr pd \<Longrightarrow>
     tenantView (snd (tenantServe dn (AddCannedPolicy n pd) d)) = putPolicy n (st, v) (tenantView d)"
  by (simp_all add: tenantServe_def membersIn_def refused_def unmarshal_marshal_policy memberPossible_def addUser_def
      addGroup_def dropMember_def addMember_def putPolicy_def tenant_eq)

lemma served_or_refused:
  "tenantView (snd (tenantServe dn (RemoveUser n) d)) \<in> {dropUser n (tenantView d), tenantView d}"
  "tenantView (snd (tenantServe dn (UpdateGroupMembers n NilSlice True) d)) \<in> {dropGroup n (tenantView d), tenantView d}"
  "tenantView (snd (tenantServe dn (RemoveCannedPolicy n) d)) \<in> {dropPolicy n (tenantView d), tenantView d}"
  by (auto simp: tenantServe_def membersIn_def refused_def dropUser_def dropGroup_def dropPolicy_def tenant_eq)

lemma served_attachments:
  "snd (tenantServe dn (attachRequest spec) d) = snd (attachIn (attachment dn spec) d)"
  "snd (tenantServe dn (detachRequest spec) d) = snd (detachIn (attachment dn spec) d)"
  "tenantView (snd (attachIn n d)) = (if bindingPossible False n (tenantView d) then attach n (tenantView d) else tenantView d)"
  "tenantView (snd (detachIn n d)) = detach n (tenantView d)"
  by (auto simp: tenantServe_def attachRequest_def detachRequest_def requestKey_def policyAssociation_def attachment_def
      bindingNames_def Let_def attachIn_def detachIn_def refused_def attach_def detach_def tenant_eq)

text \<open>The answer to a request tells nothing, and the answers to questions are right.\<close>

lemma lost_attempts:
  assumes "c = loseAnswers (tenantAt metaOf dn get put)"
  shows "answers (e_Mutate (r_env (cl_rec c)) w h q) (attempts c w F) \<longleftrightarrow>
      tenantView (snd (tenantServe dn q (snd w))) \<in> {F (tenantView (snd w)), tenantView (snd w)}"
    and "answers (e_Mutate (r_env (cl_rec c)) w h q) (attemptsIf p c w F) \<longleftrightarrow>
      tenantView (snd (tenantServe dn q (snd w))) \<in> (if p then {F (tenantView (snd w)), tenantView (snd w)} else {tenantView (snd w)})"
    and "answers (e_Mutate (r_env (cl_rec c)) w h q) (\<lambda>x w'. attempts c w F x w' \<and> (isMadminErrorCode (errOf x) code \<longrightarrow> P w')) \<longleftrightarrow>
      tenantView (snd (tenantServe dn q (snd w))) \<in> {F (tenantView (snd w)), tenantView (snd w)}"
  unfolding assms
  by (simp_all add: loseAnswers_mutate tenantEnv_mutate attempts_def attemptsIf_def moves_def keeps_def split_beta)

lemmas lost_reads = loseAnswers_reads tenantEnv_reads answers_def keeps_def

lemma faultyUsers_lost:
  assumes "\<And>x d. get (put x d) = x"
  shows "faultyUsers (loseAnswers (tenantAt u_ObjectMeta dn get put))"
  unfolding faultyUsers_def
  by (intro conjI allI loseAnswers_api lost_looks assms tenantEnv_lib(1))
    (simp_all only: lost_attempts [OF refl] served served_or_refused, simp_all add: lost_reads looksUp_def userPresent_def)

lemma faultyGroups_lost:
  assumes "\<And>x d. get (put x d) = x"
  shows "faultyGroups (loseAnswers (tenantAt g_ObjectMeta dn get put))"
  unfolding faultyGroups_def
  by (intro conjI allI loseAnswers_api lost_looks assms tenantEnv_lib(1))
    (simp_all only: lost_attempts [OF refl] served served_or_refused, simp_all add: lost_reads looksUp_def groupPresent_def)

lemma faultyMembers_lost:
  assumes "\<And>x d. get (put x d) = x"
  shows "faultyMembers (loseAnswers (tenantAt gb_ObjectMeta dn get put))"
  unfolding faultyMembers_def
  by (intro conjI allI impI loseAnswers_api lost_looks assms tenantEnv_lib(1))
    (simp_all only: lost_attempts [OF refl], simp_all add: served, force simp: lost_reads)

lemma faultyPolicies_lost:
  assumes "\<And>x d. get (put x d) = x"
  shows "faultyPolicies (loseAnswers (tenantAt p_ObjectMeta dn get put))"
  unfolding faultyPolicies_def
  by (intro conjI allI impI loseAnswers_api lost_looks assms tenantEnv_lib(1))
    (simp_all only: lost_attempts [OF refl] served served_or_refused,
     auto simp: lost_reads looksUp_def marshalPolicy_def split: option.splits)

lemma faultyAttachments_lost:
  assumes "\<And>x d. get (put x d) = x"
  shows "faultyAttachments dn ''ou'' (loseAnswers (tenantAt pb_ObjectMeta dn get put))"
  unfolding faultyAttachments_def
  by (intro conjI allI impI loseAnswers_api lost_looks assms tenantEnv_lib(1))
    (simp_all add: loseAnswers_mutate,
     simp_all add: tenantEnv_mutate split_beta served_attachments attempts_def attemptsIf_def moves_def keeps_def,
     simp_all add: lost_reads listsAttached_sample)

lemma loseManager_spares: "spares M j f \<Longrightarrow> spares (loseManager M) j f"
  by (cases j) (simp_all add: spares_def loseManager_def loseAnswers_alone)

lemma loseManager_sample: "faultyManager (sampleManager C) (loseManager (sampleManager C))"
  unfolding faultyManager_def
  by (intro conjI allI impI loseManager_spares sampleManager_spares)
    (simp_all add: loseManager_def loseAnswers_same,
     simp_all add: sampleManager_def faultyUsers_lost faultyGroups_lost faultyMembers_lost faultyPolicies_lost
      faultyAttachments_lost)

section \<open>Properties\<close>

text \<open>
  C11 - A tenant recovers from faults. Over the resources of a tenant, in any order, run any passes in which
  requests fail in any way (the API server refuses or conflicts, a tenant cannot be reached, a
  request is carried out and its answer is lost, the operator dies in the middle); once the services
  work again, from some pass on everything the resources ask for is in the tenant, and stays
  there, in every fair schedule. Each is recorded too, unless its creation was cut short between the
  request and the record: then the operator takes the thing for another's and keeps reporting that it
  exists. That cannot happen to a resource that was recorded and there, or asks to migrate. What no resource
  manages is as it was. (Nothing is being deleted, and the resources do not name what existed before they were
  made, unless they are recorded or ask to migrate.)
\<close>

theorem tenant_recovers:
  assumes "underWay M w" and "finite R" and "\<And>r. r \<in> R \<Longrightarrow> settles (resourceView M r w)"
    and "\<And>r. r \<in> R \<Longrightarrow> resourceProvided r (ma_tenant M w)" and "\<And>r. r \<in> R \<Longrightarrow> fairTo schedule r"
    and "\<And>r j. r \<in> R \<Longrightarrow> j \<in> resourceNeeds r \<Longrightarrow> j \<in> R \<or> resourcePresent j (ma_tenant M w)"
    and "\<And>D r. (D, r) \<in> set faults \<Longrightarrow> faultyManager M D"
  shows "(\<exists>m. \<forall>n\<ge>m. \<forall>r\<in>R. let w' = after (passOver M) schedule n (faultyRun faults w) in
      resourcePresent r (ma_tenant M w') \<and>
      (resourceView M r w' = (Applied, True) \<or>
       resourceView M r w' = (Held False, True) \<and> \<not> secure (resourceView M r w))) \<and>
    (\<forall>n j. fst (resourceView M j w) = Gone \<longrightarrow>
      resourcePresent j (ma_tenant M (after (passOver M) schedule n (faultyRun faults w))) = resourcePresent j (ma_tenant M w))"
proof -
  let ?w = "faultyRun faults w"
  have q: "quietManager M" using assms(1) by (simp add: underWay_def)
  note view = resourceView_present [OF q]
  have u: "underWay M ?w" "faultStep\<^sup>*\<^sup>* (resourceView M r w) (resourceView M r ?w)"
      "resourceProvided r (ma_tenant M ?w) = resourceProvided r (ma_tenant M w)" for r
    using faultyRun_reaches [of M w faults r] assms(1,7) by blast+
  have open': "\<not> closing (resourceView M r w)" for r using assms(1) by (simp add: underWay_def)
  let ?at = "\<lambda>r n. resourceView M r (after (passOver M) schedule n ?w)"
  have "\<exists>m. \<forall>n\<ge>m. \<forall>r\<in>R. ?at r n = (if settles (resourceView M r ?w) then (Applied, True) else (Held False, True))"
  proof (rule tenant_composed.fair_recovers [OF u(1) assms(2)])
    show "settles (resourceView M r ?w) \<or> resourceView M r ?w = (Held False, True)" if "r \<in> R" for r
      by (rule faults_open [OF u(2) assms(3) [OF that]])
    show "resourceProvided r (ma_tenant M ?w) \<and> fairTo schedule r" if "r \<in> R" for r
      using assms(4,5) that u(3) by simp
    show "j \<in> R \<or> snd (resourceView M j ?w)" if "r \<in> R" "j \<in> resourceNeeds r" for r j
      using assms(6) [OF that] faults_present [OF u(2) open'] by (auto simp: view)
  qed
  then obtain m where m: "\<And>n r. m \<le> n \<Longrightarrow> r \<in> R \<Longrightarrow>
      ?at r n = (if settles (resourceView M r ?w) then (Applied, True) else (Held False, True))" by blast
  have "snd (?at r n) \<and> (?at r n = (Applied, True) \<or> ?at r n = (Held False, True) \<and> \<not> secure (resourceView M r w))"
    if "m \<le> n" "r \<in> R" for n r
    using m [OF that] faults_secure [OF u(2), THEN secure_settles, of r] by (auto split: if_splits)
  moreover have "snd (?at j n) = snd (resourceView M j w)" if "fst (resourceView M j w) = Gone" for n j
  proof -
    have "resourceView M j w = (Gone, snd (resourceView M j w))" using that by (simp add: prod_eq_iff)
    moreover from this have "resourceView M j ?w = resourceView M j w" by (rule faults_gone [OF u(2)])
    ultimately show ?thesis
      using tenant_composed.run_gone [OF u(1), of j "snd (resourceView M j w)" "map schedule [0..<n]"]
      by (simp add: after_def)
  qed
  ultimately show ?thesis by (auto simp: view Let_def)
qed

theorem tenant_recovers_witness:
  "\<exists>m. \<forall>n\<ge>m. let faults = map (Pair (loseManager newManager)) (rev newSchedule @ newSchedule);
     d = snd (after (passOver newManager) roundRobin n (faultyRun faults (newStores, emptyTenant))) in
     (''g'', ''u'') \<in> set (td_members d) \<and> (False, ''p'', '''', ''u'') \<in> set (td_attached d)"
proof -
  let ?w = "(newStores, emptyTenant)"
  let ?f = "map (Pair (loseManager newManager)) (rev newSchedule @ newSchedule)"
  have "\<exists>m. \<forall>n\<ge>m. \<forall>r\<in>newResources. let w' = after (passOver newManager) roundRobin n (faultyRun ?f ?w) in
      resourcePresent r (ma_tenant newManager w') \<and> (resourceView newManager r w' = (Applied, True) \<or>
        resourceView newManager r w' = (Held False, True) \<and> \<not> secure (resourceView newManager r ?w))"
  proof (rule conjunct1 [OF tenant_recovers [OF newManager_underWay]])
    show "finite newResources" by (simp add: newResources_def)
    show "fairTo roundRobin r" if "r \<in> newResources" for r by (rule roundRobin_fair [OF that])
    show "settles (resourceView newManager r ?w)" if "r \<in> newResources" for r using that by (simp add: newManager_view)
    show "resourceProvided r (ma_tenant newManager ?w)" if "r \<in> newResources" for r
      using that by (auto simp: newResources_def resourceProvided_def)
    show "j \<in> newResources \<or> resourcePresent j (ma_tenant newManager ?w)"
      if "r \<in> newResources" "j \<in> resourceNeeds r" for r j
      using that by (auto simp: newResources_def resourceNeeds_def)
    show "faultyManager newManager D" if "(D, r) \<in> set ?f" for D r
      using that loseManager_sample by (auto simp: newManager_def)
  qed
  then show ?thesis by (auto simp: newResources_def resourcePresent_def newManager_def Let_def)
qed

text \<open>
  C12 - The deletion of a resource that can be removed survives faults. Over it run any passes in which requests fail
  in any way, and then two passes of a quiet time: its object is gone then, and so is what it manages, unless it
  was never recorded, and nothing else has been taken away that does not go with it. A user can always be removed,
  a group if it has no members, the membership of a group if that group exists, a policy if it is attached to
  nobody, and a policy binding if the policy and the user or group exist and, when it is recorded, the policy
  is attached. Of a binding the recorded spec is the spec apart from the migrate flag; a user, a group or a
  policy has kept its name. The deletion of a policy binding may still be stuck instead: if the policy was detached
  and the record is still there, because the answer was lost or the update failed, the tenant keeps
  refusing to detach it again, and the object stays. Nothing is said about resources that cannot be removed; without any fault
  their deletion can be stuck (\<open>group_binding_deletion_stuck\<close>, \<open>policy_binding_deletion_stuck\<close>).
\<close>

theorem deletion_survives:
  assumes q: "quietManager M" and D: "\<And>D. D \<in> set Ds \<Longrightarrow> faultyManager M D"
    and "resourceOrderly M r w" and "closing (resourceView M r w)" and "resourceRemovable r (ma_tenant M w)"
    and "resourceView M r w = (Closing, False) \<longrightarrow> resourceForgiving r"
    and "w' = (passOver M r ^^ k) (fold (\<lambda>D. passOver D r) Ds w)" and "2 \<le> k"
  shows "resourceRest r (ma_tenant M w') = resourceRest r (ma_tenant M w) \<and>
    (resourceView M r w' = (Gone, resourceView M r w = (Releasing, True)) \<or>
     \<not> resourceForgiving r \<and> fst (resourceView M r w) = Closing \<and> resourceView M r w' = (Closing, False))"
proof (cases r)
  case (AUser n)
  have f: "\<And>d. d \<in> set (map (\<lambda>D. ma_user D n) Ds) \<Longrightarrow>
      faultyUsers d \<and> sameViews (ma_user M n) d"
    using faultyManagerD(1,2) [where a = n, OF D] by auto
  note q = quietManagerD(1,2) [OF q, of n]
  show ?thesis
    using assms(3-7)
    unfolding AUser passOver_iterate unfolding resource_defs resource.case q(2) fold_passes [of _ "\<lambda>D. ma_user D n"] resource.distinct
    by - (rule user_surviving.closing_survives [of "map (\<lambda>D. ma_user D n) Ds" "ma_user M n" n w w' k, OF f q(1) _ _ _ _ _ assms(8),
        unfolded q(2)], assumption, (assumption | simp only: simp_thms)+)
next
  case (AGroup n)
  have f: "\<And>d. d \<in> set (map (\<lambda>D. ma_group D n) Ds) \<Longrightarrow>
      faultyGroups d \<and> sameViews (ma_group M n) d"
    using faultyManagerD(3,4) [where a = n, OF D] by auto
  note q = quietManagerD(3,4) [OF q, of n]
  show ?thesis
    using assms(3-7)
    unfolding AGroup passOver_iterate unfolding resource_defs resource.case q(2) fold_passes [of _ "\<lambda>D. ma_group D n"] resource.distinct
    by - (rule group_surviving.closing_survives [of "map (\<lambda>D. ma_group D n) Ds" "ma_group M n" n w w' k, OF f q(1) _ _ _ _ _ assms(8),
        unfolded q(2)], assumption, (assumption | simp only: simp_thms)+)
next
  case (AMember n)
  have f: "\<And>d. d \<in> set (map (\<lambda>D. ma_member D n) Ds) \<Longrightarrow>
      faultyMembers d \<and> sameViews (ma_member M n) d"
    using faultyManagerD(5,6) [where b = n, OF D] by auto
  note q = quietManagerD(5,6) [OF q, of n]
  show ?thesis
    using assms(3-7)
    unfolding AMember passOver_iterate unfolding resource_defs resource.case q(2) fold_passes [of _ "\<lambda>D. ma_member D n"] resource.distinct
    by - (rule member_surviving.closing_survives [of "map (\<lambda>D. ma_member D n) Ds" "ma_member M n" n w w' k, OF f q(1) _ _ _ _ _ assms(8),
        unfolded q(2)], assumption, (assumption | simp only: simp_thms)+)
next
  case (APolicy n)
  have f: "\<And>d. d \<in> set (map (\<lambda>D. ma_policy D n) Ds) \<Longrightarrow>
      faultyPolicies d \<and> sameViews (ma_policy M n) d"
    using faultyManagerD(7,8) [where a = n, OF D] by auto
  note q = quietManagerD(7,8) [OF q, of n]
  have e: "policyPossible True (n, ma_content M n) s \<longleftrightarrow> n \<notin> (fst \<circ> snd) ` ts_attached s"
      "otherPolicies True (n, ma_content M n) s = dropPolicy n s" for s
    by (simp_all add: policyPossible_def otherPolicies_def)
  show ?thesis
    using assms(3-7)
    unfolding APolicy passOver_iterate unfolding resource_defs resource.case q(2) fold_passes [of _ "\<lambda>D. ma_policy D n"] resource.distinct
    by - (rule policy_surviving.closing_survives [of "map (\<lambda>D. ma_policy D n) Ds" "ma_policy M n" "(n, ma_content M n)" w w' k, OF f q(1) _ _ _ _ _ assms(8),
        unfolded q(2) e], assumption, (assumption | simp only: simp_thms)+)
next
  case (ABinding n)
  have f: "\<And>d. d \<in> set (map (\<lambda>D. ma_binding D n) Ds) \<Longrightarrow>
      faultyAttachments (ma_dn M) (ma_base M) d \<and> sameViews (ma_binding M n) d"
    using faultyManagerD(9,10) [where d = n, OF D] by auto
  note q = quietManagerD(9,10) [OF q, of n]
  show ?thesis
    using assms(3-7)
    unfolding ABinding passOver_iterate unfolding resource_defs resource.case q(2) fold_passes [of _ "\<lambda>D. ma_binding D n"] resource.distinct
    by - (rule binding_surviving.closing_survives [where cs = "map (\<lambda>D. ma_binding D n) Ds" and c = "ma_binding M n" and n = n
        and w = w and w' = w' and k = k, OF f q(1) _ _ _ _ _ assms(8),
        unfolded q(2)], assumption, (assumption | simp only: simp_thms)+)
qed

theorem deletion_survives_witness:
  "let w = (newStores\<lparr>st_users := [''AK'' \<mapsto> (sampleUser (Some sampleUserSpec))\<lparr>u_ObjectMeta := deletedMeta ''u''\<rparr>]\<rparr>,
        emptyTenant\<lparr>td_users := [''AK'', ''v'']\<rparr>);
     w' = (passOver newManager (AUser ''AK'') ^^ 2)
       (fold (\<lambda>D. passOver D (AUser ''AK'')) [loseManager newManager, loseManager newManager] w) in
     st_users (fst w') ''AK'' = None \<and> ''AK'' \<notin> set (td_users (snd w')) \<and> ''v'' \<in> set (td_users (snd w'))"
proof -
  let ?w = "(newStores\<lparr>st_users := [''AK'' \<mapsto> (sampleUser (Some sampleUserSpec))\<lparr>u_ObjectMeta := deletedMeta ''u''\<rparr>]\<rparr>,
        emptyTenant\<lparr>td_users := [''AK'', ''v'']\<rparr>)"
  have v: "resourceView newManager (AUser ''AK'') ?w = (Closing, True)"
    by (simp add: resourceView_def newManager_def viewOf_def phaseOf_def userStatusSet_def userCurrent_def sampleUser_def
        userPresent_def)
  have o: "resourceOrderly newManager (AUser ''AK'') ?w"
    by (simp add: resourceOrderly_def orderly_def newManager_def userNamed_def inOrder_def heldOnly_def
        userStatusSet_def userCurrent_def sampleUser_def sampleUserSpec_def)
  have q: "quietManager newManager" by (simp add: newManager_def quietManager_sample)
  have D: "faultyManager newManager D" if "D \<in> set [loseManager newManager, loseManager newManager]" for D
    using that loseManager_sample by (auto simp: newManager_def)
  let ?Ds = "[loseManager newManager, loseManager newManager]"
  define w' where "w' = (passOver newManager (AUser ''AK'') ^^ 2) (fold (\<lambda>D. passOver D (AUser ''AK'')) ?Ds ?w)"
  have "resourceRest (AUser ''AK'') (ma_tenant newManager w') = resourceRest (AUser ''AK'') (ma_tenant newManager ?w) \<and>
    (resourceView newManager (AUser ''AK'') w' = (Gone, resourceView newManager (AUser ''AK'') ?w = (Releasing, True)) \<or>
     \<not> resourceForgiving (AUser ''AK'') \<and> fst (resourceView newManager (AUser ''AK'') ?w) = Closing \<and>
     resourceView newManager (AUser ''AK'') w' = (Closing, False))"
    by (rule deletion_survives [OF q D o _ _ _ w'_def]) (simp_all add: v resourceRemovable_def)
  then have r: "otherUsers True ''AK'' (tenantView (snd w')) = otherUsers True ''AK'' (tenantView (emptyTenant\<lparr>td_users := [''AK'', ''v'']\<rparr>))"
      "resourceView newManager (AUser ''AK'') w' = (Gone, False)"
    unfolding v by (simp_all add: resourceForgiving_def resourceRest_def newManager_def)
  from r(2) have "st_users (fst w') ''AK'' = None \<and> ''AK'' \<notin> set (td_users (snd w'))"
    by (auto simp: resourceView_def viewOf_def newManager_def userPresent_def phaseOf_def split: option.splits if_splits)
  moreover from r(1) have "''v'' \<in> set (td_users (snd w'))"
    by (auto simp: otherUsers_def dropUser_def tenant_eq)
  ultimately show ?thesis unfolding w'_def Let_def by blast
qed

end
