(* ===== verification/Permissions.thy ===== *)
theory Permissions
  imports Bucket_Reconciler Group_Reconciler Group_Binding_Reconciler Policy_Reconciler
    Policy_Binding_Reconciler User_Reconciler Access_Key_Reconciler
begin

text \<open>
  What the operator may do in the cluster. The \<open>kubebuilder:rbac\<close> markers above the reconcilers and
  above \<open>getMinioTenantClientInfo\<close> list API groups, resources and verbs; the cluster role is generated
  from them. The lemmas show that the calls of every reconciler stay within its own markers and
  those of the tenant client: no pass depends on a permission of another reconciler.
\<close>

section \<open>The markers\<close>

record Rule =
  ru_groups :: string
  ru_resources :: string
  ru_verbs :: "string list"

definition coreRule :: "string \<Rightarrow> string list \<Rightarrow> Rule" where
  "coreRule r vs = \<lparr>ru_groups = ''core'', ru_resources = r, ru_verbs = vs\<rparr>"

definition ownRule :: "string \<Rightarrow> Rule" where
  "ownRule r = \<lparr>ru_groups = ''bfiola.dev'', ru_resources = r,
     ru_verbs = [''get'', ''list'', ''update'', ''watch'']\<rparr>"

definition tenantClientRules :: "Rule list" where
  "tenantClientRules =
     [coreRule ''services'' [''get''],
      coreRule ''configmaps'' [''get''],
      coreRule ''secrets'' [''get'', ''list''],
      \<lparr>ru_groups = ''minio.min.io'', ru_resources = ''tenants'', ru_verbs = [''get'']\<rparr>]"

definition bucketRules :: "Rule list" where
  "bucketRules = [ownRule ''miniobuckets'']"

definition groupRules :: "Rule list" where
  "groupRules = [ownRule ''miniogroups'']"

definition groupBindingRules :: "Rule list" where
  "groupBindingRules = [ownRule ''miniogroupbindings'']"

definition policyRules :: "Rule list" where
  "policyRules = [ownRule ''miniopolicies'']"

definition policyBindingRules :: "Rule list" where
  "policyBindingRules = [ownRule ''miniopolicybindings'']"

definition userRules :: "Rule list" where
  "userRules = [coreRule ''secrets'' [''get''], ownRule ''miniousers'']"

definition accessKeyRules :: "Rule list" where
  "accessKeyRules =
     [ownRule ''minioaccesskeys'',
      coreRule ''secrets'' [''create'', ''delete'', ''get'', ''update'']]"

section \<open>What a call needs\<close>

text \<open>Group, resource and verb of a call to the API server; \<open>res\<close> is the reconciler's own resource.\<close>

fun needs :: "string \<Rightarrow> 'o call \<Rightarrow> (string \<times> string \<times> string) option" where
  "needs res (Get k) = Some (''bfiola.dev'', res, ''get'')"
| "needs res (Update x) = Some (''bfiola.dev'', res, ''update'')"
| "needs res (GetSecret k) = Some (''core'', ''secrets'', ''get'')"
| "needs res (GetTenant k) = Some (''minio.min.io'', ''tenants'', ''get'')"
| "needs res (GetService k) = Some (''core'', ''services'', ''get'')"
| "needs res (GetConfigMap k) = Some (''core'', ''configmaps'', ''get'')"
| "needs res (ListSecrets ns) = Some (''core'', ''secrets'', ''list'')"
| "needs res (CreateSecret s) = Some (''core'', ''secrets'', ''create'')"
| "needs res (UpdateSecret s) = Some (''core'', ''secrets'', ''update'')"
| "needs res (DeleteSecret k) = Some (''core'', ''secrets'', ''delete'')"
| "needs res _ = None"

definition permits :: "Rule list \<Rightarrow> string \<times> string \<times> string \<Rightarrow> bool" where
  "permits rules n \<longleftrightarrow> (case n of (g, r, v) \<Rightarrow>
     \<exists>rule \<in> set rules. ru_groups rule = g \<and> ru_resources rule = r \<and> v \<in> set (ru_verbs rule))"

definition permitted :: "Rule list \<Rightarrow> string \<Rightarrow> 'o call event \<Rightarrow> bool" where
  "permitted rules res ev \<longleftrightarrow> (case needs res (fst ev) of None \<Rightarrow> True
     | Some n \<Rightarrow> permits (tenantClientRules @ rules) n)"

lemmas rules_defs = permitted_def permits_def tenantClientRules_def coreRule_def ownRule_def
  bucketRules_def groupRules_def groupBindingRules_def policyRules_def policyBindingRules_def
  userRules_def accessKeyRules_def

lemma permitted_infra [simp]: "isInfra c \<Longrightarrow> permitted rules res (c, e)"
  by (cases c) (auto simp: rules_defs)

lemma permitted_tenant [simp]:
  "permitted rules res (Mutate h q, e)" "permitted rules res (Query h q', e)" "permitted rules res (RandRead n, e)"
  by (simp_all add: permitted_def)

lemma permitted_own [simp]:
  assumes "ownRule res \<in> set rules"
  shows "permitted rules res (Get k, e)" and "permitted rules res (Update x, e)"
proof -
  have "permits (tenantClientRules @ rules) (''bfiola.dev'', res, v)" if "v \<in> {''get'', ''update''}" for v
    unfolding permits_def prod.case
    by (rule bexI [of _ "ownRule res"]) (use assms that in \<open>auto simp: ownRule_def\<close>)
  then show "permitted rules res (Get k, e)" "permitted rules res (Update x, e)"
    by (simp_all add: permitted_def)
qed

lemma permitted_secrets [simp]:
  "permitted rules res (GetSecret k, e)"
  "permitted accessKeyRules res (CreateSecret s, e)" "permitted accessKeyRules res (UpdateSecret s, e)"
  "permitted accessKeyRules res (DeleteSecret k, e)"
  by (simp_all add: rules_defs)

lemma own_rules [simp]:
  "ownRule ''miniobuckets'' \<in> set bucketRules" "ownRule ''miniogroups'' \<in> set groupRules"
  "ownRule ''miniogroupbindings'' \<in> set groupBindingRules" "ownRule ''miniopolicies'' \<in> set policyRules"
  "ownRule ''miniopolicybindings'' \<in> set policyBindingRules" "ownRule ''miniousers'' \<in> set userRules"
  "ownRule ''minioaccesskeys'' \<in> set accessKeyRules"
  by (simp_all add: bucketRules_def groupRules_def groupBindingRules_def policyRules_def
      policyBindingRules_def userRules_def accessKeyRules_def)

section \<open>Every pass\<close>

definition within :: "Rule list \<Rightarrow> string \<Rightarrow> ('w, 'o call, 'a) m \<Rightarrow> bool" where
  "within rules res c \<longleftrightarrow> triple (permitted rules res) (\<lambda>_. True) True (\<lambda>_. True) c"

lemma within_admin: "triple (permitted rules res) (\<lambda>_. True) True (\<lambda>_. True) (getAdminClient r rr ns)"
  by (rule getAdminClient_triple) simp_all

lemma within_client: "triple (permitted rules res) (\<lambda>_. True) True (\<lambda>_. True) (getTenantClient r rr ns)"
  by (rule getTenantClient_triple) simp_all

lemma within_reconcile:
  assumes "\<And>r req. reconcile r req = bindM (attempt (getObj r req))
      (\<lambda>x. case x of Inl err \<Rightarrow> getFailed r err | Inr b \<Rightarrow> pass r req b)"
    and "\<And>x. within rules res (pass r req x)" and "ownRule res \<in> set rules"
  shows "within rules res (reconcile r req)"
  unfolding assms(1) within_def getObj_def getFailed_def
  by (intro triple_intro assms(2) [unfolded within_def]) (use assms(3) in auto)

lemma within_bucket_sync:
  "triple (permitted bucketRules ''miniobuckets'') (\<lambda>_. True) True (\<lambda>_. True) (minioBucket_syncVersioning r h b)"
  "triple (permitted bucketRules ''miniobuckets'') (\<lambda>_. True) True (\<lambda>_. True) (minioBucket_syncLifecycle r h b)"
  "triple (permitted bucketRules ''miniobuckets'') (\<lambda>_. True) True (\<lambda>_. True) (minioBucket_syncDeletionPolicy r b)"
  unfolding minioBucket_syncVersioning_def minioBucket_syncLifecycle_def
    minioBucket_syncDeletionPolicy_def calls Let_def split_def fst_conv snd_conv
  by (intro triple_intro triple_call; simp)+

lemma within_bucket: "within bucketRules ''miniobuckets'' (minioBucketReconciler_Reconcile r req)"
proof (rule within_reconcile [OF bucket.get_then_pass])
  fix b
  show "within bucketRules ''miniobuckets'' (minioBucket_pass r req b)"
    unfolding within_def minioBucket_pass_def minioBucket_delete_def minioBucket_addFinalizer_def
      minioBucket_update_def minioBucket_removeMigrate_def minioBucket_create_def calls Let_def success_def
    by (intro triple_intro triple_call triple_bind [OF within_client] triple_bind [OF within_bucket_sync(1)]
        triple_bind [OF within_bucket_sync(2)] triple_bind [OF within_bucket_sync(3)]) auto
qed simp

lemma within_group: "within groupRules ''miniogroups'' (minioGroupReconciler_Reconcile r req)"
  unfolding within_def minioGroupReconciler_Reconcile_def minioGroup_phases getFailed_def
  by (intro triple_intro triple_bind [OF within_admin]) auto

lemma within_group_binding:
  "within groupBindingRules ''miniogroupbindings'' (minioGroupBindingReconciler_Reconcile r req)"
  unfolding within_def minioGroupBindingReconciler_Reconcile_def minioGroupBinding_phases getFailed_def
  by (intro triple_intro triple_bind [OF within_admin]) auto

lemma within_policy: "within policyRules ''miniopolicies'' (minioPolicyReconciler_Reconcile r req)"
  unfolding within_def minioPolicyReconciler_Reconcile_def minioPolicy_phases getFailed_def
  by (intro triple_intro triple_bind [OF within_admin]) auto

lemma within_policy_binding:
  "within policyBindingRules ''miniopolicybindings'' (minioPolicyBindingReconciler_Reconcile r req)"
  unfolding within_def minioPolicyBindingReconciler_Reconcile_def minioPolicyBinding_phases
    bindingFound_def getFailed_def
  by (intro triple_intro triple_bind [OF within_admin]) auto

lemma within_user: "within userRules ''miniousers'' (minioUserReconciler_Reconcile r req)"
  unfolding within_def minioUserReconciler_Reconcile_def minioUser_phases minioUser_getAccessKey_def
    getFailed_def
  by (intro triple_intro triple_bind [OF within_admin]) auto

lemma permitted_write_access_key [simp]:
  "isWrite c \<or> isInfra c \<or> isQuery c \<Longrightarrow> permitted accessKeyRules res (c, e)"
  by (cases c) auto

lemma profile_access_key:
  "profile (permitted accessKeyRules ''minioaccesskeys'') (\<lambda>_. True) (\<lambda>_. True)"
  by (simp add: profile_def)

lemma within_access_key:
  "within accessKeyRules ''minioaccesskeys'' (minioAccessKeyReconciler_Reconcile r req)"
proof -
  have delete: "triple (permitted accessKeyRules ''minioaccesskeys'') (\<lambda>_. True) True (\<lambda>_. True)
      (minioAccessKey_delete r ak)" for ak
    unfolding minioAccessKey_delete_def success_def updateObj_def
    by (intro triple_intro triple_bind [OF deleteAccessKey_triple]) auto
  have "within accessKeyRules ''minioaccesskeys'' (minioAccessKey_pass r req ak)" for ak
    unfolding within_def access_key.pass_phases
    by (intro triple_intro delete triple_weaken [OF access_key.addFin_triple]
        triple_weaken [OF access_key.update_triple [where Q = "\<lambda>_. True", OF profile_access_key survives_True]]
        triple_weaken [OF access_key.create_triple [where Q = "\<lambda>_. True", OF profile_access_key survives_True]])
      simp_all
  then show ?thesis by (intro within_reconcile [OF access_key.get_then_pass]) simp_all
qed

lemma within_trace: "within rules res c \<Longrightarrow> list_all (permitted rules res) (trace c w)"
  unfolding within_def list_all_iff by (blast intro: triple_trace)

section \<open>Properties\<close>

text \<open>
  C28 - No reconciler needs a permission that is not listed above it or above the tenant client: every
  call of every pass to the API server is permitted by those markers. In particular only the
  access key reconciler ever creates, updates or deletes a secret.
\<close>

theorem calls_within_permissions:
  "list_all (permitted bucketRules ''miniobuckets'') (trace (minioBucketReconciler_Reconcile rb req) wb) \<and>
   list_all (permitted groupRules ''miniogroups'') (trace (minioGroupReconciler_Reconcile rg req) wg) \<and>
   list_all (permitted groupBindingRules ''miniogroupbindings'')
     (trace (minioGroupBindingReconciler_Reconcile rgb req) wgb) \<and>
   list_all (permitted policyRules ''miniopolicies'') (trace (minioPolicyReconciler_Reconcile rp req) wp) \<and>
   list_all (permitted policyBindingRules ''miniopolicybindings'')
     (trace (minioPolicyBindingReconciler_Reconcile rpb req) wpb) \<and>
   list_all (permitted userRules ''miniousers'') (trace (minioUserReconciler_Reconcile ru req) wu) \<and>
   list_all (permitted accessKeyRules ''minioaccesskeys'')
     (trace (minioAccessKeyReconciler_Reconcile rak req) wak)"
  by (intro conjI within_trace within_bucket within_group within_group_binding within_policy
      within_policy_binding within_user within_access_key)

end
