(* ===== verification/Bounded_Work.thy ===== *)
theory Bounded_Work
  imports Bucket_Reconciler Group_Reconciler Group_Binding_Reconciler Policy_Reconciler
    Policy_Binding_Reconciler User_Reconciler Access_Key_Reconciler
begin

text \<open>
  Every pass ends after a bounded number of calls. The reconcilers loop over lists only: the ports of
  a service, the secrets of a namespace, the entries of an answer. One of these loops makes
  calls, the one over a tenant's external certificate authorities. So the number of calls of a pass is
  bounded by a constant and the length of that list, whatever the services answer. \<open>callsAtMost n c\<close> says that
  no run of \<open>c\<close> makes more than \<open>n\<close> calls, with one rule per combinator: a sequence adds, a branch takes the
  larger bound.
\<close>

section \<open>Counting calls\<close>

definition callsAtMost :: "nat \<Rightarrow> ('w, 'c, 'a) m \<Rightarrow> bool" where
  "callsAtMost n c \<longleftrightarrow> (\<forall>w. length (trace c w) \<le> n)"

named_theorems at_most_intro \<open>rules that decompose \<open>callsAtMost\<close> along the program\<close>

lemma callsAtMostD: "callsAtMost n c \<Longrightarrow> c w = (x, w', t) \<Longrightarrow> length t \<le> n"
  unfolding callsAtMost_def trace_def by (metis snd_conv)

lemma callsAtMostI: "(\<And>w x w' t. c w = (x, w', t) \<Longrightarrow> length t \<le> n) \<Longrightarrow> callsAtMost n c"
  unfolding callsAtMost_def trace_def by (metis prod.collapse)

lemma callsAtMost_weaken: "callsAtMost n c \<Longrightarrow> n \<le> m \<Longrightarrow> callsAtMost m c"
  unfolding callsAtMost_def using le_trans by blast

lemma callsAtMost_none [at_most_intro]:
  "callsAtMost 0 (ret a)" "callsAtMost 0 (fail e)" "callsAtMost 0 panic" "callsAtMost 0 (liftE x)"
  "callsAtMost 0 (checkErr err)" "callsAtMost 0 (deref p)"
  by (simp_all add: callsAtMost_def trace_def prim split: sum.split option.split)

lemma callsAtMost_one [at_most_intro]: "callsAtMost 1 (call c op)" "callsAtMost 1 (callPair c op2)"
  by (auto simp: callsAtMost_def trace_def prim split: prod.split sum.split)

lemma callsAtMost_attempt [at_most_intro]: "callsAtMost n c \<Longrightarrow> callsAtMost n (attempt c)"
  by (rule callsAtMostI) (auto simp: attempt_def split: prod.splits res.splits dest: callsAtMostD)

lemma callsAtMost_bind_if:
  assumes "callsAtMost n c" and "\<And>w a w' t. c w = (Ok a, w', t) \<Longrightarrow> callsAtMost m (f a)"
  shows "callsAtMost (n + m) (bindM c f)"
proof (rule callsAtMostI)
  fix w y w' t assume run: "bindM c f w = (y, w', t)"
  obtain x w1 t1 where c: "c w = (x, w1, t1)" by (cases "c w")
  note 1 = callsAtMostD [OF assms(1) c]
  show "length t \<le> n + m"
  proof (cases x)
    case (Ok a)
    then have "length (snd (snd (f a w1))) \<le> m"
      using assms(2) c unfolding callsAtMost_def trace_def by blast
    with 1 Ok run c show ?thesis by (auto simp: bindM_def split: prod.splits)
  qed (use 1 run c in \<open>auto simp: bindM_def\<close>)
qed

lemma callsAtMost_bind [at_most_intro]:
  "callsAtMost n c \<Longrightarrow> (\<And>a. callsAtMost m (f a)) \<Longrightarrow> callsAtMost (n + m) (bindM c f)"
  by (rule callsAtMost_bind_if)

lemma callsAtMost_if [at_most_intro]:
  "callsAtMost n c \<Longrightarrow> callsAtMost m d \<Longrightarrow> callsAtMost (max n m) (if b then c else d)"
  by (simp add: callsAtMost_def le_max_iff_disj)

lemma callsAtMost_case_option [at_most_intro]:
  "callsAtMost n c \<Longrightarrow> (\<And>a. callsAtMost m (d a)) \<Longrightarrow> callsAtMost (max n m) (case x of None \<Rightarrow> c | Some a \<Rightarrow> d a)"
  by (cases x) (simp_all add: callsAtMost_def le_max_iff_disj)

lemma callsAtMost_case_sum [at_most_intro]:
  "(\<And>e. callsAtMost n (c e)) \<Longrightarrow> (\<And>a. callsAtMost m (d a)) \<Longrightarrow>
   callsAtMost (max n m) (case x of Inl e \<Rightarrow> c e | Inr a \<Rightarrow> d a)"
  by (cases x) (simp_all add: callsAtMost_def le_max_iff_disj)

lemma callsAtMost_case_prod [at_most_intro]:
  "(\<And>a b. callsAtMost n (c a b)) \<Longrightarrow> callsAtMost n (case p of (a, b) \<Rightarrow> c a b)"
  by (cases p) simp

section \<open>Opening a client\<close>

text \<open>The tenants have at most \<open>n\<close> external certificate authorities.\<close>

definition fewAuthorities :: "nat \<Rightarrow> 'w env \<Rightarrow> bool" where
  "fewAuthorities n E \<longleftrightarrow>
     (\<forall>w k t w'. e_GetTenant E w k = (Inr t, w') \<longrightarrow> length (ten_ExternalCaCertSecret t) \<le> n)"

lemma appendExternalCAs_callsAtMost: "callsAtMost (length cas) (appendExternalCAs E ns cas p)"
proof (induction cas arbitrary: p)
  case Nil
  show ?case by (simp add: at_most_intro)
next
  case (Cons ca cas)
  show ?case
    unfolding appendExternalCAs.simps calls
    by (rule callsAtMost_weaken, (rule at_most_intro Cons)+) simp
qed

lemma tenantCaBundle_callsAtMost:
  "length (ten_ExternalCaCertSecret t) \<le> n \<Longrightarrow> callsAtMost (2 + n) (tenantCaBundle E rr opts t)"
  unfolding tenantCaBundle_def appendPodCA_def appendOperatorCAs_def calls
  by (rule callsAtMost_weaken, (rule at_most_intro appendExternalCAs_callsAtMost)+) simp

lemma getMinioTenantClientInfo_callsAtMost:
  assumes "fewAuthorities n E"
  shows "callsAtMost (5 + n) (getMinioTenantClientInfo E rr opts)"
proof -
  have rest: "callsAtMost (4 + n) (bindM (tenantCredentials E rr t) (\<lambda>(ak, sk).
      bindM (tenantServiceEndpoint E rr s) (\<lambda>e.
      bindM (tenantCaBundle E rr opts t) (\<lambda>cbp.
      ret \<lparr>mtci_AccessKey = ak, mtci_CaBundle = cbp, mtci_Endpoint = e, mtci_SecretKey = sk,
           mtci_Secure = s\<rparr>))))" if "length (ten_ExternalCaCertSecret t) \<le> n" for s t
    unfolding tenantCredentials_def tenantServiceEndpoint_def calls Let_def
    by (rule callsAtMost_weaken, (rule at_most_intro tenantCaBundle_callsAtMost [OF that])+) simp
  have "callsAtMost (1 + (4 + n)) (getMinioTenantClientInfo E rr opts)" if "rr_Namespace rr \<noteq> ''''"
    unfolding getMinioTenantClientInfo_def Let_def if_not_P [OF that]
  proof (rule callsAtMost_bind_if)
    show "callsAtMost 1 (getTenant E \<lparr>nn_Namespace = rr_Namespace rr, nn_Name = rr_Name rr\<rparr>)"
      unfolding calls by (rule at_most_intro)
  next
    fix w t w' tr
    assume "getTenant E \<lparr>nn_Namespace = rr_Namespace rr, nn_Name = rr_Name rr\<rparr> w = (Ok t, w', tr)"
    then have "length (ten_ExternalCaCertSecret t) \<le> n"
      using assms by (auto simp: getTenant_def call_def fewAuthorities_def split: prod.splits sum.splits)
    from rest [OF this] show "callsAtMost (4 + n) (bindM (tenantCredentials E rr t) (\<lambda>(ak, sk).
        bindM (tenantServiceEndpoint E rr (tenantSecure t)) (\<lambda>e.
        bindM (tenantCaBundle E rr opts t) (\<lambda>cbp.
        ret \<lparr>mtci_AccessKey = ak, mtci_CaBundle = cbp, mtci_Endpoint = e, mtci_SecretKey = sk,
             mtci_Secure = tenantSecure t\<rparr>))))" .
  qed
  moreover have "callsAtMost (5 + n) (getMinioTenantClientInfo E rr opts)" if "rr_Namespace rr = ''''"
    using callsAtMost_weaken [OF callsAtMost_none(2)] that by (simp add: getMinioTenantClientInfo_def)
  ultimately show ?thesis by (cases "rr_Namespace rr = ''''") simp_all
qed

lemma getAdminClient_callsAtMost:
  assumes "fewAuthorities n (r_env r)"
  shows "callsAtMost (7 + n) (getAdminClient r rr ns)"
  unfolding getAdminClient_def GetAdminClient_def Let_def
  by (rule callsAtMost_weaken, (rule at_most_intro getMinioTenantClientInfo_callsAtMost [OF assms])+) simp

lemma getTenantClient_callsAtMost:
  assumes "fewAuthorities n (r_env r)"
  shows "callsAtMost (6 + n) (getTenantClient r rr ns)"
  unfolding getTenantClient_def GetClient_def Let_def
  by (rule callsAtMost_weaken, (rule at_most_intro getMinioTenantClientInfo_callsAtMost [OF assms])+) simp

section \<open>The reconcilers\<close>

lemma minioBucket_callsAtMost:
  assumes "fewAuthorities n (r_env r)"
  shows "callsAtMost (18 + n) (minioBucketReconciler_Reconcile r req)"
  unfolding minioBucketReconciler_Reconcile_def minioBucket_phases getFailed_def
  by (rule callsAtMost_weaken, (rule at_most_intro getTenantClient_callsAtMost [OF assms])+) simp
 
lemma minioGroup_callsAtMost:
  assumes "fewAuthorities n (r_env r)"
  shows "callsAtMost (11 + n) (minioGroupReconciler_Reconcile r req)"
  unfolding minioGroupReconciler_Reconcile_def minioGroup_phases getFailed_def
  by (rule callsAtMost_weaken, (rule at_most_intro getAdminClient_callsAtMost [OF assms])+) simp

lemma minioGroupBinding_callsAtMost:
  assumes "fewAuthorities n (r_env r)"
  shows "callsAtMost (19 + 2 * n) (minioGroupBindingReconciler_Reconcile r req)"
  unfolding minioGroupBindingReconciler_Reconcile_def minioGroupBinding_phases getFailed_def
  by (rule callsAtMost_weaken, (rule at_most_intro getAdminClient_callsAtMost [OF assms])+) simp

lemma minioPolicy_callsAtMost:
  assumes "fewAuthorities n (r_env r)"
  shows "callsAtMost (12 + n) (minioPolicyReconciler_Reconcile r req)"
  unfolding minioPolicyReconciler_Reconcile_def minioPolicy_phases getFailed_def
  by (rule callsAtMost_weaken, (rule at_most_intro getAdminClient_callsAtMost [OF assms])+) simp

lemma minioPolicyBinding_callsAtMost:
  assumes "fewAuthorities n (r_env r)"
  shows "callsAtMost (18 + 2 * n) (minioPolicyBindingReconciler_Reconcile r req)"
  unfolding minioPolicyBindingReconciler_Reconcile_def minioPolicyBinding_phases getFailed_def
  by (rule callsAtMost_weaken, (rule at_most_intro getAdminClient_callsAtMost [OF assms])+) simp

lemma minioUser_callsAtMost:
  assumes "fewAuthorities n (r_env r)"
  shows "callsAtMost (14 + n) (minioUserReconciler_Reconcile r req)"
  unfolding minioUserReconciler_Reconcile_def minioUser_phases minioUser_getAccessKey_def getFailed_def
  by (rule callsAtMost_weaken, (rule at_most_intro getAdminClient_callsAtMost [OF assms])+) simp

lemma minioAccessKey_callsAtMost:
  assumes "fewAuthorities n (r_env r)"
  shows "callsAtMost (22 + n) (minioAccessKeyReconciler_Reconcile r req)"
  unfolding minioAccessKeyReconciler_Reconcile_def minioAccessKey_pass_def minioAccessKey_delete_def
    deleteAccessKey_def minioAccessKey_addFinalizer_def minioAccessKey_update_def
    updateCredentialsSecret_def updateAccessKey_def accessKeyLost_def accessKeySync_def
    minioAccessKey_removeMigrate_def minioAccessKey_create_def createCredentialsSecret_def
    createAccessKey_def getDesiredCredentials_def desiredKey_def keyFromRef_def
    createRandomString_def getFailed_def success_def calls Let_def
  by (rule callsAtMost_weaken, (rule at_most_intro getAdminClient_callsAtMost [OF assms])+) simp

section \<open>Property\<close>

text \<open>
  C21 - Every pass ends soon: whatever the services answer, no pass of one of the seven reconcilers makes
  more calls than these bounds say, where \<open>n\<close> bounds the number of a tenant's external certificate
  authorities. The two kinds of bindings may open a client twice.
\<close>

theorem passes_are_short:
  assumes "fewAuthorities n (r_env rb)" and "fewAuthorities n (r_env rg)" and "fewAuthorities n (r_env rgb)"
    and "fewAuthorities n (r_env rp)" and "fewAuthorities n (r_env rpb)" and "fewAuthorities n (r_env ru)"
    and "fewAuthorities n (r_env rak)"
  shows "callsAtMost (18 + n) (minioBucketReconciler_Reconcile rb req) \<and>
    callsAtMost (11 + n) (minioGroupReconciler_Reconcile rg req) \<and>
    callsAtMost (19 + 2 * n) (minioGroupBindingReconciler_Reconcile rgb req) \<and>
    callsAtMost (12 + n) (minioPolicyReconciler_Reconcile rp req) \<and>
    callsAtMost (18 + 2 * n) (minioPolicyBindingReconciler_Reconcile rpb req) \<and>
    callsAtMost (14 + n) (minioUserReconciler_Reconcile ru req) \<and>
    callsAtMost (22 + n) (minioAccessKeyReconciler_Reconcile rak req)"
  by (intro conjI minioBucket_callsAtMost minioGroup_callsAtMost minioGroupBinding_callsAtMost
      minioPolicy_callsAtMost minioPolicyBinding_callsAtMost minioUser_callsAtMost
      minioAccessKey_callsAtMost assms)

theorem passes_are_short_witness:
  "callsAtMost 11 (minioGroupReconciler_Reconcile (sampleReconciler (sampleGroup None)) sampleKey) \<and>
   callsAtMost 22 (minioAccessKeyReconciler_Reconcile (sampleReconciler (sampleAccessKey None)) sampleKey)"
proof -
  have "fewAuthorities 0 (sampleEnv :: unit env)"
    by (simp add: fewAuthorities_def anyWorldEnv_def sampleTenant_def)
  then show ?thesis
    using passes_are_short [of 0 "sampleReconciler (sampleBucket None)" "sampleReconciler (sampleGroup None)"
        "sampleReconciler (sampleGroupBinding None)" "sampleReconciler (samplePolicy None)"
        "sampleReconciler (samplePolicyBinding None)" "sampleReconciler (sampleUser None)"
        "sampleReconciler (sampleAccessKey None)" sampleKey]
    by simp
qed

end
