(* ===== verification/No_Panic.thy ===== *)
theory No_Panic
  imports Bucket_Reconciler Group_Reconciler Group_Binding_Reconciler Policy_Reconciler
    Policy_Binding_Reconciler User_Reconciler Access_Key_Reconciler
begin

text \<open>
  Nil pointers. The reconcilers read many pointers: the recorded spec of an object, also of the copy
  that an update returned, the answers of calls that return a pointer and an error, the configuration of
  a tenant and a client that was just made. Each of these reads is a \<open>deref\<close> of the model, which panics on
  nil. This theory shows that the last two are the only ones that can: a pass over an object whose tenant
  has a configuration and for which an admin client can be made never panics.
\<close>

section \<open>Computations that return\<close>

text \<open>\<open>c\<close> does not panic, and the value that it returns, if any, satisfies \<open>A\<close>.\<close>

abbreviation returns :: "('a \<Rightarrow> bool) \<Rightarrow> ('w, 'c, 'a) m \<Rightarrow> bool" where
  "returns A c \<equiv> triple (\<lambda>_. True) (\<lambda>_. True) False A c"

definition neverPanics :: "('w, 'c, 'a) m \<Rightarrow> bool" where
  "neverPanics c \<longleftrightarrow> (\<forall>w. outcome c w \<noteq> Panic)"

lemma neverPanicsI: "returns A c \<Longrightarrow> neverPanics c"
  unfolding neverPanics_def by (blast dest: triple_no_panic)

text \<open>
  What the passes rely on: every tenant that is found has a configuration, \<open>madmin.New\<close> succeeds, the
  random source fills its buffers, and an accepted update returns what was sent.
\<close>

definition sound :: "('o \<Rightarrow> 'o \<Rightarrow> bool) \<Rightarrow> ('w, 'o) reconciler \<Rightarrow> bool" where
  "sound same r \<longleftrightarrow> updateStores same r \<and> randFills (r_env r) \<and>
     (\<forall>w k t w'. e_GetTenant (r_env r) w k = (Inr t, w') \<longrightarrow> ten_ConfigurationName t \<noteq> None) \<and>
     (\<forall>w e ak sk s h err w'. e_NewAdminClient (r_env r) w e ak sk s = ((h, err), w') \<longrightarrow> h \<noteq> None)"

lemma soundD:
  assumes "sound same r"
  shows "updateStores same r" and "randFills (r_env r)"
    and "e_GetTenant (r_env r) w k = (Inr t, w') \<Longrightarrow> ten_ConfigurationName t \<noteq> None"
    and "e_NewAdminClient (r_env r) w e ak sk s = ((h, err), w') \<Longrightarrow> h \<noteq> None"
  using assms unfolding sound_def by blast+

section \<open>Opening a client\<close>

lemma tenantCredentials_returns:
  "ten_ConfigurationName t \<noteq> None \<Longrightarrow> returns (\<lambda>_. True) (tenantCredentials E rr t)"
  unfolding tenantCredentials_def calls by (intro triple_intro) simp_all

lemma getMinioTenantClientInfo_returns:
  assumes "sound same r"
  shows "returns (\<lambda>_. True) (getMinioTenantClientInfo (r_env r) rr opts)"
  unfolding getMinioTenantClientInfo_def getTenant_def split_def
  by (intro triple_intro triple_bind [OF tenantCredentials_returns]
      triple_bind [OF tenantServiceEndpoint_triple] triple_bind [OF tenantCaBundle_triple])
    (use soundD(3) [OF assms] in auto)

lemma getAdminClient_returns:
  assumes "sound same r"
  shows "returns (\<lambda>_. True) (getAdminClient r rr ns)"
  unfolding getAdminClient_def GetAdminClient_def Let_def split_def
  by (intro triple_intro triple_bind [OF getMinioTenantClientInfo_returns [OF assms]])
    (use soundD(4) [OF assms] in auto)

lemma getTenantClient_returns:
  assumes "sound same r"
  shows "returns (\<lambda>_. True) (getTenantClient r rr ns)"
  unfolding getTenantClient_def GetClient_def Let_def
  by (intro triple_intro triple_call triple_bind [OF getMinioTenantClientInfo_returns [OF assms]]) simp_all
section \<open>The reconcilers\<close>

text \<open>
  The copy that an update returned still has the recorded spec that was sent (\<open>groupSame_current\<close> and its
  like), and an answer without an error is there (\<open>answered\<close>).
\<close>

lemma answered: "ignoreMadminErrorCode (Some e) code = None \<longleftrightarrow> isMadminErrorCode (Some e) code"
  by (auto simp: ignoreMadminErrorCode_def)

lemma minioGroup_returns:
  assumes "sound groupSame r"
  shows "returns (\<lambda>_. True) (minioGroupReconciler_Reconcile r req)"
  unfolding minioGroupReconciler_Reconcile_def minioGroup_phases getFailed_def calls Let_def
  by (intro triple_intro triple_bind [OF getAdminClient_returns [OF assms]])
    (use groupSame_current [OF soundD(1) [OF assms]] in auto)

lemma minioGroupBinding_returns:
  assumes "sound groupBindingSame r"
  shows "returns (\<lambda>_. True) (minioGroupBindingReconciler_Reconcile r req)"
  unfolding minioGroupBindingReconciler_Reconcile_def minioGroupBinding_phases getFailed_def calls Let_def
  by (intro triple_intro triple_bind [OF getAdminClient_returns [OF assms]])
    (use groupBindingSame_current [OF soundD(1) [OF assms]] in auto)

lemma minioPolicyBinding_returns:
  assumes "sound policyBindingSame r"
  shows "returns (\<lambda>_. True) (minioPolicyBindingReconciler_Reconcile r req)"
  unfolding minioPolicyBindingReconciler_Reconcile_def minioPolicyBinding_phases getFailed_def calls Let_def
  by (intro triple_intro triple_bind [OF getAdminClient_returns [OF assms]])
    (use policyBindingSame_current [OF soundD(1) [OF assms]] in auto)

lemma minioUser_returns:
  assumes "sound userSame r"
  shows "returns (\<lambda>_. True) (minioUserReconciler_Reconcile r req)"
  unfolding minioUserReconciler_Reconcile_def minioUser_phases getFailed_def calls Let_def
  by (intro triple_intro triple_bind [OF getAdminClient_returns [OF assms]]
      triple_bind [OF minioUser_getAccessKey_triple])
    (use userSame_current [OF soundD(1) [OF assms]] in auto)

lemma minioPolicy_returns:
  assumes "sound policySame r"
  shows "returns (\<lambda>_. True) (minioPolicyReconciler_Reconcile r req)"
  unfolding minioPolicyReconciler_Reconcile_def minioPolicy_phases getFailed_def calls Let_def
  by (intro triple_intro triple_bind [OF getAdminClient_returns [OF assms]])
    (use policySame_current [OF soundD(1) [OF assms]] in \<open>auto simp: answered\<close>)

lemma bucket_update_returns:
  assumes "sound bucketSame r" and "bucketCurrent b \<noteq> None"
  shows "returns (\<lambda>y. bucketCurrent y \<noteq> None) (updateObj r b)"
  by (rule triple_weaken [OF triple_updateObj_same [OF soundD(1) [OF assms(1)]]])
    (use assms(2) bucketSame_current in auto)

lemma minioBucket_sync_returns:
  assumes "sound bucketSame r" and "bucketCurrent b \<noteq> None"
  shows "returns (\<lambda>y. bucketCurrent y \<noteq> None) (minioBucket_removeMigrate r b)"
    and "returns (\<lambda>y. bucketCurrent y \<noteq> None) (minioBucket_syncVersioning r h b)"
    and "returns (\<lambda>y. bucketCurrent y \<noteq> None) (minioBucket_syncLifecycle r h b)"
    and "returns (\<lambda>y. bucketCurrent y \<noteq> None) (minioBucket_syncDeletionPolicy r b)"
  unfolding minioBucket_removeMigrate_def minioBucket_syncVersioning_def minioBucket_syncLifecycle_def
    minioBucket_syncDeletionPolicy_def Let_def mutate_def queryM_def split_def fst_conv snd_conv
  by (intro triple_intro bucket_update_returns [OF assms(1)]; use assms(2) in simp)+

lemma minioBucket_update_returns:
  assumes "sound bucketSame r" and "bucketCurrent b \<noteq> None"
  shows "returns (\<lambda>_. True) (minioBucket_update r b)"
  unfolding minioBucket_update_def queryM_def success_def
  by (intro triple_bind [OF minioBucket_sync_returns(1) [OF assms]]
      triple_bind [OF minioBucket_sync_returns(2) [OF assms(1)]]
      triple_bind [OF minioBucket_sync_returns(3) [OF assms(1)]]
      triple_bind [OF minioBucket_sync_returns(4) [OF assms(1)]]
      triple_bind [OF getTenantClient_returns [OF assms(1)]]
      triple_bind [OF triple_updateObj_same [OF soundD(1) [OF assms(1)]]] triple_intro) auto

lemma minioBucket_returns:
  assumes "sound bucketSame r"
  shows "returns (\<lambda>_. True) (minioBucketReconciler_Reconcile r req)"
  unfolding minioBucketReconciler_Reconcile_def minioBucket_pass_def minioBucket_delete_def
    minioBucket_addFinalizer_def minioBucket_create_def getFailed_def success_def calls Let_def
  by (intro triple_intro triple_bind [OF getTenantClient_returns [OF assms]]
      minioBucket_update_returns [OF assms]) auto

text \<open>The access keys: the credentials come first, which may read the random source.\<close>

lemma desiredKey_returns:
  assumes "sound accessKeySame r"
  shows "returns (\<lambda>_. True) (desiredKey r ak what given rkr cur n)"
  unfolding desiredKey_def keyFromRef_def getSecret_def Let_def
  by (intro triple_intro triple_weaken [OF createRandomString_triple [OF soundD(2) [OF assms]]]) simp_all

lemma getDesiredCredentials_returns:
  assumes "sound accessKeySame r"
  shows "returns (\<lambda>_. True) (getDesiredCredentials r ak cur)"
  unfolding getDesiredCredentials_def Let_def
  by (intro triple_intro triple_bind [OF desiredKey_returns [OF assms]]) simp_all

lemma createCredentialsSecret_returns:
  assumes "sound accessKeySame r"
  shows "returns (\<lambda>_. True) (createCredentialsSecret r ak)"
  unfolding createCredentialsSecret_def createSecret_def
  by (intro triple_intro triple_call triple_bind [OF getDesiredCredentials_returns [OF assms]]) simp_all

lemma updateCredentialsSecret_returns:
  assumes "sound accessKeySame r" and "accessKeyCurrent ak \<noteq> None"
  shows "returns (\<lambda>(s, y). accessKeyCurrent y \<noteq> None) (updateCredentialsSecret r ak)"
  unfolding updateCredentialsSecret_def tenant_calls updateObj_def Let_def split_def
  by (intro triple_intro triple_bind [OF getDesiredCredentials_returns [OF assms(1)]]
      triple_bind [OF createCredentialsSecret_returns [OF assms(1)]])
    (use assms(2) accessKeySame_current [OF soundD(1) [OF assms(1)]] in auto)

lemma accessKeyLost_returns: "returns (\<lambda>_. True) (accessKeyLost r ak cs)"
  unfolding accessKeyLost_def tenant_calls updateObj_def Let_def
  by (intro triple_intro triple_call) (auto simp: errNotFound_def)

lemma accessKeySync_returns: "returns (\<lambda>_. True) (accessKeySync r h ak cs secret msa)"
  unfolding accessKeySync_def tenant_calls Let_def
  by (intro triple_intro triple_call) simp_all

lemma updateAccessKey_returns:
  assumes "sound accessKeySame r" and "accessKeyCurrent ak \<noteq> None"
  shows "returns (\<lambda>_. True) (updateAccessKey r ak secret)"
  unfolding updateAccessKey_def minioAccessKey_removeMigrate_def queryM_def updateObj_def Let_def
  by (intro triple_intro triple_bind [OF getAdminClient_returns [OF assms(1)]] accessKeyLost_returns
      triple_bind [OF accessKeySync_returns])
    (use assms(2) accessKeySame_current [OF soundD(1) [OF assms(1)]] in
      \<open>auto simp: accessKeyCurrent_def answered\<close>)

lemma minioAccessKey_update_returns:
  assumes "sound accessKeySame r" and "accessKeyCurrent ak \<noteq> None"
  shows "returns (\<lambda>_. True) (minioAccessKey_update r ak)"
  unfolding minioAccessKey_update_def updateObj_def success_def split_def
  by (intro triple_bind [OF updateCredentialsSecret_returns [OF assms]]
      triple_bind [OF updateAccessKey_returns [OF assms(1)]] triple_intro) auto

lemma createAccessKey_returns:
  assumes "sound accessKeySame r"
  shows "returns (\<lambda>_. True) (createAccessKey r ak secret)"
  unfolding createAccessKey_def mutate_def Let_def
  by (intro triple_intro triple_bind [OF getAdminClient_returns [OF assms]]) simp_all

lemma deleteAccessKey_returns:
  assumes "sound accessKeySame r"
  shows "returns (\<lambda>_. True) (deleteAccessKey r ak)"
  unfolding deleteAccessKey_def tenant_calls Let_def
  by (intro triple_intro triple_bind [OF getAdminClient_returns [OF assms]]) (auto simp: errNotFound_def)

lemma minioAccessKey_returns:
  assumes "sound accessKeySame r"
  shows "returns (\<lambda>_. True) (minioAccessKeyReconciler_Reconcile r req)"
  unfolding minioAccessKeyReconciler_Reconcile_def minioAccessKey_pass_def minioAccessKey_delete_def
    minioAccessKey_addFinalizer_def minioAccessKey_create_def getFailed_def success_def calls Let_def
  by (intro triple_intro triple_bind [OF deleteAccessKey_returns [OF assms]]
      minioAccessKey_update_returns [OF assms] triple_bind [OF createCredentialsSecret_returns [OF assms]]
      triple_bind [OF triple_attempt [OF createAccessKey_returns [OF assms]]]) auto

section \<open>Properties\<close>

text \<open>
  C20 - No pass dies of a nil pointer: if every tenant that is found names its configuration and the admin
  clients can be made (and an accepted update returns what was sent, and the random source fills its
  buffers), then no pass of one of the seven reconcilers panics, whatever else the services answer, in
  any order, errors included. So all other pointers that the code reads without looking, above
  all \<open>status.currentSpec\<close> after an update and the answers of calls, are there when it reads them.
\<close>

theorem passes_never_panic:
  assumes "sound bucketSame rb" and "sound groupSame rg" and "sound groupBindingSame rgb"
    and "sound policySame rp" and "sound policyBindingSame rpb" and "sound userSame ru"
    and "sound accessKeySame rak"
  shows "neverPanics (minioBucketReconciler_Reconcile rb req) \<and>
    neverPanics (minioGroupReconciler_Reconcile rg req) \<and>
    neverPanics (minioGroupBindingReconciler_Reconcile rgb req) \<and>
    neverPanics (minioPolicyReconciler_Reconcile rp req) \<and>
    neverPanics (minioPolicyBindingReconciler_Reconcile rpb req) \<and>
    neverPanics (minioUserReconciler_Reconcile ru req) \<and>
    neverPanics (minioAccessKeyReconciler_Reconcile rak req)"
  using minioBucket_returns [OF assms(1)] minioGroup_returns [OF assms(2)]
    minioGroupBinding_returns [OF assms(3)] minioPolicy_returns [OF assms(4)]
    minioPolicyBinding_returns [OF assms(5)] minioUser_returns [OF assms(6)]
    minioAccessKey_returns [OF assms(7)]
  by (intro conjI neverPanicsI)

lemma sound_sample: "(\<And>y. same y y) \<Longrightarrow> sound same (sampleReconciler x)"
  by (simp add: sound_def updateStores_sample randFills_def anyWorldEnv_def sampleTenant_def)

theorem passes_never_panic_witness:
  "neverPanics (minioBucketReconciler_Reconcile (sampleReconciler (sampleBucket None)) sampleKey) \<and>
   neverPanics (minioAccessKeyReconciler_Reconcile (sampleReconciler (sampleAccessKey None)) sampleKey)"
  using passes_never_panic [of "sampleReconciler (sampleBucket None)" "sampleReconciler (sampleGroup None)"
      "sampleReconciler (sampleGroupBinding None)" "sampleReconciler (samplePolicy None)"
      "sampleReconciler (samplePolicyBinding None)" "sampleReconciler (sampleUser None)"
      "sampleReconciler (sampleAccessKey None)" sampleKey]
  by (simp add: sound_sample)

text \<open>
  C35 - A tenant without a configuration ends a pass in a panic: the optional field is read without a
  check, so opening a client for such a tenant, which every reconciler does for every resource that
  refers to it, panics right after the tenant was fetched.
\<close>

theorem unconfigured_tenant_panics:
  assumes "ResourceRef_SetDefaultNamespace rr ns = tr" and "rr_Namespace tr \<noteq> ''''"
    and "e_GetTenant (r_env r) w \<lparr>nn_Namespace = rr_Namespace tr, nn_Name = rr_Name tr\<rparr> = (Inr t, w1)"
    and "ten_ConfigurationName t = None"
  shows "getAdminClient r rr ns w =
      (Panic, w1, [(GetTenant \<lparr>nn_Namespace = rr_Namespace tr, nn_Name = rr_Name tr\<rparr>, None)]) \<and>
    getTenantClient r rr ns w =
      (Panic, w1, [(GetTenant \<lparr>nn_Namespace = rr_Namespace tr, nn_Name = rr_Name tr\<rparr>, None)])"
proof -
  have panics: "getMinioTenantClientInfo (r_env r) tr opts w =
      (Panic, w1, [(GetTenant \<lparr>nn_Namespace = rr_Namespace tr, nn_Name = rr_Name tr\<rparr>, None)])" for opts
    using assms(2-4)
    by (simp add: getMinioTenantClientInfo_def getTenant_def tenantCredentials_def prim)
  show ?thesis
    by (simp add: getAdminClient_def getTenantClient_def Let_def assms(1) bindM_def panics)
qed

text \<open>A cluster whose tenants have no configuration.\<close>

definition bareEnv :: "unit env" where
  "bareEnv = sampleEnv\<lparr>e_GetTenant := \<lambda>w k. (Inr (sampleTenant\<lparr>ten_ConfigurationName := None\<rparr>), w)\<rparr>"

theorem unconfigured_tenant_panics_witness:
  "outcome (minioGroupReconciler_Reconcile (reconcilerIn bareEnv (sampleGroup None)) sampleKey) () = Panic"
proof -
  let ?r = "reconcilerIn bareEnv (sampleGroup None)" and ?t = "sampleTenant\<lparr>ten_ConfigurationName := None\<rparr>"
  have "getAdminClient ?r sampleRef ''ns'' () =
      (Panic, (), [(GetTenant \<lparr>nn_Namespace = ''ns'', nn_Name = rr_Name sampleRef\<rparr>, None)])"
    using unconfigured_tenant_panics [of sampleRef "''ns''" "sampleRef\<lparr>rr_Namespace := ''ns''\<rparr>" ?r "()" ?t "()"]
    by (simp add: bareEnv_def reconcilerIn_def ResourceRef_SetDefaultNamespace_def sampleRef_def)
  moreover have "lib bareEnv = sampleLib" by (simp add: bareEnv_def anyWorldEnv_def)
  ultimately show ?thesis
    by (simp add: minioGroupReconciler_Reconcile_def minioGroup_pass_def minioGroup_create_def getObj_def
        sampleGroupSpec_def groupNamespace_def timeIsZero_def outcome_def prim)
qed

end
