(* ===== verification/Bootstrap.thy ===== *)
theory Bootstrap
  imports Prelude
begin

text \<open>
  How the operator is put together: \<open>NewOperator\<close> and the \<open>register\<close> methods of
  \<open>internal/operator/operator.go\<close>, \<open>New\<close> of \<open>internal/operator/main.go\<close>, the registration of the API
  types in \<open>pkg/api/bfiola.dev/v1/common.go\<close> and the logging option of \<open>cmd/operator/operator.go\<close>.
  The loggers are left out. Durations are nanoseconds.
\<close>

section \<open>The scheme\<close>

text \<open>\<open>SchemeGroupVersion\<close>, \<open>Kind\<close>, \<open>Resource\<close> and the list of \<open>addKnownTypes\<close>.\<close>

record GroupVersion =
  gv_Group :: string
  gv_Version :: string

definition SchemeGroupVersion :: GroupVersion where
  "SchemeGroupVersion = \<lparr>gv_Group = ''bfiola.dev'', gv_Version = ''v1''\<rparr>"

record GroupKind =
  gk_Group :: string
  gk_Kind :: string

definition KindOf :: "string \<Rightarrow> GroupKind" where
  "KindOf kind = \<lparr>gk_Group = gv_Group SchemeGroupVersion, gk_Kind = kind\<rparr>"

definition knownTypes :: "string list" where
  "knownTypes =
     [''MinioBucket'', ''MinioBucketList'',
      ''MinioGroup'', ''MinioGroupList'',
      ''MinioGroupBinding'', ''MinioGroupBindingList'',
      ''MinioPolicy'', ''MinioPolicyList'',
      ''MinioPolicyBinding'', ''MinioPolicyBindingList'',
      ''MinioUser'', ''MinioUserList'',
      ''MinioAccessKey'', ''MinioAccessKeyList'']"

section \<open>Calls\<close>

text \<open>
  \<open>ManagerOptions\<close> holds the fields of \<open>manager.Options\<close> that are set, \<open>ControllerFor\<close> a
  controller for one kind with the fields of its reconciler.
\<close>

record ManagerOptions =
  mo_DisableFor :: "string list"
  mo_SkipNameValidation :: bool
  mo_HealthProbeBindAddress :: string

record ControllerFor =
  cf_Kind :: string
  cf_minioOperatorNamespace :: string
  cf_syncInterval :: int

datatype bootCall =
    BuildConfigFromFlags string
  | ReadFile string
  | AddKnownTypes GroupVersion "string list"
  | AddToGroupVersion GroupVersion
  | MinioV2AddToScheme
  | KubeAddToScheme
  | NewManager ManagerOptions
  | AddHealthzCheck string
  | AddReadyzCheck string
  | BuildController ControllerFor
  | ManagerStart
  | ReadEmbedded string
  | WriteOut string
  | WriteErr string
  | Exit int

text \<open>
  The outside operations: the reading of a file, of the file system or embedded in the program, and
  the rest, which answer with an error or not; \<open>bo_Error\<close> is the text of an error.
\<close>

record 'w boot =
  bo_Error :: "goerr \<Rightarrow> string"
  bo_ReadEmbedded :: "'w \<Rightarrow> string \<Rightarrow> (goerr + string) \<times> 'w"
  bo_ReadFile :: "'w \<Rightarrow> string \<Rightarrow> (goerr + string) \<times> 'w"
  bo_Do :: "'w \<Rightarrow> bootCall \<Rightarrow> (goerr + unit) \<times> 'w"

definition perform :: "'w boot \<Rightarrow> bootCall \<Rightarrow> ('w, bootCall, unit) m" where
  "perform B c = call c (\<lambda>w. bo_Do B w c)"

definition readFile :: "'w boot \<Rightarrow> string \<Rightarrow> ('w, bootCall, string) m" where
  "readFile B p = call (ReadFile p) (\<lambda>w. bo_ReadFile B w p)"

section \<open>Construction\<close>

definition addKnownTypes :: "'w boot \<Rightarrow> ('w, bootCall, unit) m" where
  "addKnownTypes B =
     bindM (perform B (AddKnownTypes SchemeGroupVersion knownTypes)) (\<lambda>_.
     perform B (AddToGroupVersion SchemeGroupVersion))"

record OperatorOpts =
  oo_KubeConfig :: string
  oo_MinioOperatorNamespace :: string
  oo_SyncInterval :: int

definition namespaceFile :: string where
  "namespaceFile = ''/var/run/secrets/kubernetes.io/serviceaccount/namespace''"

definition operatorNamespace :: "'w boot \<Rightarrow> OperatorOpts \<Rightarrow> ('w, bootCall, string) m" where
  "operatorNamespace B opts =
     (let mon = oo_MinioOperatorNamespace opts in
     bindM (if mon = '''' then
              bindM (attempt (readFile B namespaceFile)) (\<lambda>x.
              ret (case x of Inr d \<Rightarrow> d | Inl _ \<Rightarrow> mon))
            else ret mon) (\<lambda>mon.
     if mon = '''' then fail (GoErr ''minio operator namespace is not defined'') else ret mon))"

definition syncIntervalOf :: "OperatorOpts \<Rightarrow> int" where
  "syncIntervalOf opts =
     (let si = oo_SyncInterval opts in if si = 0 then 60 * 1000000000 else si)"

definition managerOptions :: ManagerOptions where
  "managerOptions = \<lparr>mo_DisableFor = [''ConfigMap'', ''Secret'', ''Service'', ''Tenant''],
     mo_SkipNameValidation = True, mo_HealthProbeBindAddress = '':8888''\<rparr>"

text \<open>
  The \<open>register\<close> methods: each builds a controller for its kind. The client they take from the manager
  and the logger they take from the controller are left out.
\<close>

definition buildFor :: "'w boot \<Rightarrow> string \<Rightarrow> string \<Rightarrow> int \<Rightarrow> ('w, bootCall, unit) m" where
  "buildFor B kind mon si = perform B (BuildController
     \<lparr>cf_Kind = kind, cf_minioOperatorNamespace = mon, cf_syncInterval = si\<rparr>)"

definition minioBucketReconciler_register :: "'w boot \<Rightarrow> string \<Rightarrow> int \<Rightarrow> ('w, bootCall, unit) m" where
  "minioBucketReconciler_register B mon si = buildFor B ''MinioBucket'' mon si"

definition minioGroupReconciler_register :: "'w boot \<Rightarrow> string \<Rightarrow> int \<Rightarrow> ('w, bootCall, unit) m" where
  "minioGroupReconciler_register B mon si = buildFor B ''MinioGroup'' mon si"

definition minioGroupBindingReconciler_register ::
  "'w boot \<Rightarrow> string \<Rightarrow> int \<Rightarrow> ('w, bootCall, unit) m" where
  "minioGroupBindingReconciler_register B mon si = buildFor B ''MinioGroupBinding'' mon si"

definition minioPolicyReconciler_register :: "'w boot \<Rightarrow> string \<Rightarrow> int \<Rightarrow> ('w, bootCall, unit) m" where
  "minioPolicyReconciler_register B mon si = buildFor B ''MinioPolicy'' mon si"

definition minioPolicyBindingReconciler_register ::
  "'w boot \<Rightarrow> string \<Rightarrow> int \<Rightarrow> ('w, bootCall, unit) m" where
  "minioPolicyBindingReconciler_register B mon si = buildFor B ''MinioPolicyBinding'' mon si"

definition minioUserReconciler_register :: "'w boot \<Rightarrow> string \<Rightarrow> int \<Rightarrow> ('w, bootCall, unit) m" where
  "minioUserReconciler_register B mon si = buildFor B ''MinioUser'' mon si"

definition minioAccessKeyReconciler_register ::
  "'w boot \<Rightarrow> string \<Rightarrow> int \<Rightarrow> ('w, bootCall, unit) m" where
  "minioAccessKeyReconciler_register B mon si = buildFor B ''MinioAccessKey'' mon si"

text \<open>The reconcilers in the order of the list \<open>rs\<close>, and the loop over them.\<close>

definition reconcilers :: "'w boot \<Rightarrow> (string \<Rightarrow> int \<Rightarrow> ('w, bootCall, unit) m) list" where
  "reconcilers B = [minioBucketReconciler_register B, minioGroupReconciler_register B,
     minioGroupBindingReconciler_register B, minioPolicyReconciler_register B,
     minioPolicyBindingReconciler_register B, minioUserReconciler_register B,
     minioAccessKeyReconciler_register B]"

fun registerAll ::
  "(string \<Rightarrow> int \<Rightarrow> ('w, bootCall, unit) m) list \<Rightarrow> string \<Rightarrow> int \<Rightarrow> ('w, bootCall, unit) m" where
  "registerAll [] mon si = ret ()"
| "registerAll (register # rs) mon si = bindM (register mon si) (\<lambda>_. registerAll rs mon si)"

definition NewOperator :: "'w boot \<Rightarrow> OperatorOpts \<Rightarrow> ('w, bootCall, unit) m" where
  "NewOperator B opts =
     bindM (perform B (BuildConfigFromFlags (oo_KubeConfig opts))) (\<lambda>_.
     bindM (operatorNamespace B opts) (\<lambda>mon.
     let si = syncIntervalOf opts in
     bindM (addKnownTypes B) (\<lambda>_.
     bindM (perform B MinioV2AddToScheme) (\<lambda>_.
     bindM (perform B KubeAddToScheme) (\<lambda>_.
     bindM (perform B (NewManager managerOptions)) (\<lambda>_.
     bindM (perform B (AddHealthzCheck ''healthz'')) (\<lambda>_.
     bindM (perform B (AddReadyzCheck ''readyz'')) (\<lambda>_.
     registerAll (reconcilers B) mon si))))))))"

text \<open>\<open>New\<close> of \<open>main.go\<close> never sets the sync interval.\<close>

record Opts =
  op_KubeConfig :: string
  op_MinioOperatorNamespace :: string

definition Main_New :: "'w boot \<Rightarrow> Opts \<Rightarrow> ('w, bootCall, unit) m" where
  "Main_New B opts = NewOperator B \<lparr>oo_KubeConfig = op_KubeConfig opts,
     oo_MinioOperatorNamespace = op_MinioOperatorNamespace opts, oo_SyncInterval = 0\<rparr>"

section \<open>Logging\<close>

datatype Level = LevelError | LevelWarn | LevelInfo | LevelDebug

definition configureLogging :: "string \<Rightarrow> goerr + Level" where
  "configureLogging ls =
     (let ls = (if ls = '''' then ''info'' else ls) in
      if ls = ''error'' then Inr LevelError
      else if ls = ''warn'' then Inr LevelWarn
      else if ls = ''info'' then Inr LevelInfo
      else if ls = ''debug'' then Inr LevelDebug
      else Inl (GoErr (''unrecognized log level '' @ ls)))"

section \<open>Successful runs\<close>

lemma yields_perform: "yields (perform B c) (\<lambda>_ t. t = [c])"
  unfolding perform_def by (rule yields_call)

lemma yields_perform_bind:
  assumes "yields (f ()) S"
  shows "yields (bindM (perform B c) f) (\<lambda>b t. \<exists>t2. t = c # t2 \<and> S b t2)"
  by (rule yields_weaken [OF yields_bind [OF yields_perform, where S = "\<lambda>_. S"]])
    (use assms in auto)

definition reconciledKinds :: "string list" where
  "reconciledKinds = [''MinioBucket'', ''MinioGroup'', ''MinioGroupBinding'', ''MinioPolicy'',
     ''MinioPolicyBinding'', ''MinioUser'', ''MinioAccessKey'']"

definition controllersFor :: "string \<Rightarrow> int \<Rightarrow> bootCall list" where
  "controllersFor mon si = map (\<lambda>k. BuildController
     \<lparr>cf_Kind = k, cf_minioOperatorNamespace = mon, cf_syncInterval = si\<rparr>) reconciledKinds"

lemmas register_defs = minioBucketReconciler_register_def minioGroupReconciler_register_def
  minioGroupBindingReconciler_register_def minioPolicyReconciler_register_def
  minioPolicyBindingReconciler_register_def minioUserReconciler_register_def
  minioAccessKeyReconciler_register_def buildFor_def

lemma yields_registerAll: "yields (registerAll (reconcilers B) mon si) (\<lambda>_ t. t = controllersFor mon si)"
  unfolding reconcilers_def registerAll.simps register_defs
  by (rule yields_weaken, (rule yields_perform_bind)+, rule yields_ret)
    (auto simp: controllersFor_def reconciledKinds_def)

lemma yields_operatorNamespace:
  "yields (operatorNamespace B opts) (\<lambda>mon t. mon \<noteq> '''' \<and>
     (if oo_MinioOperatorNamespace opts = '''' then t = [ReadFile namespaceFile]
      else t = [] \<and> mon = oo_MinioOperatorNamespace opts))"
  by (auto simp: yields_def operatorNamespace_def readFile_def prim
      split: prod.splits sum.splits if_splits)

lemma yields_NewOperator:
  "yields (NewOperator B opts) (\<lambda>_ t. \<exists>mon. mon \<noteq> '''' \<and>
     (oo_MinioOperatorNamespace opts \<noteq> '''' \<longrightarrow> mon = oo_MinioOperatorNamespace opts) \<and>
     t = [BuildConfigFromFlags (oo_KubeConfig opts)] @
       (if oo_MinioOperatorNamespace opts = '''' then [ReadFile namespaceFile] else []) @
       [AddKnownTypes SchemeGroupVersion knownTypes, AddToGroupVersion SchemeGroupVersion,
        MinioV2AddToScheme, KubeAddToScheme, NewManager managerOptions,
        AddHealthzCheck ''healthz'', AddReadyzCheck ''readyz''] @
       controllersFor mon (syncIntervalOf opts))"
  unfolding NewOperator_def Let_def addKnownTypes_def bindM_assoc
  by (rule yields_weaken, rule yields_perform_bind, rule yields_bind,
      rule yields_operatorNamespace, (rule yields_perform_bind)+, rule yields_registerAll)
    (auto split: if_splits)

section \<open>Properties\<close>

text \<open>
  C38 - An operator that \<open>New\<close> returns has done exactly these steps in this order: the client
  configuration, the namespace (read from the service account's file if none is given), the three
  schemes, the manager (whose cache leaves out config maps, secrets, services and tenants), the two
  probes, and one controller for each of the seven kinds. All controllers get the same non-empty
  namespace, which is the given one if there is one, and a sync interval of one minute, and the scheme
  knows each of their kinds.
\<close>

theorem operator_construction:
  assumes "outcome (Main_New B opts) w = Ok ()"
  shows "\<exists>mon. mon \<noteq> '''' \<and> (op_MinioOperatorNamespace opts \<noteq> '''' \<longrightarrow> mon = op_MinioOperatorNamespace opts) \<and>
    map fst (trace (Main_New B opts) w) =
      [BuildConfigFromFlags (op_KubeConfig opts)] @
      (if op_MinioOperatorNamespace opts = '''' then [ReadFile namespaceFile] else []) @
      [AddKnownTypes SchemeGroupVersion knownTypes, AddToGroupVersion SchemeGroupVersion,
       MinioV2AddToScheme, KubeAddToScheme, NewManager managerOptions,
       AddHealthzCheck ''healthz'', AddReadyzCheck ''readyz''] @
      controllersFor mon 60000000000 \<and>
    (\<forall>cf \<in> set (controllersFor mon 60000000000). \<exists>k n si.
       cf = BuildController \<lparr>cf_Kind = k, cf_minioOperatorNamespace = n, cf_syncInterval = si\<rparr> \<and>
       k \<in> set knownTypes)"
proof -
  have known: "\<forall>cf \<in> set (controllersFor mon 60000000000). \<exists>k n si.
      cf = BuildController \<lparr>cf_Kind = k, cf_minioOperatorNamespace = n, cf_syncInterval = si\<rparr> \<and>
      k \<in> set knownTypes" for mon
    by (simp add: controllersFor_def reconciledKinds_def knownTypes_def)
  show ?thesis
    using yieldsD [OF yields_NewOperator assms [unfolded Main_New_def]] known
    by (auto simp: Main_New_def syncIntervalOf_def)
qed

definition sampleBoot :: "unit boot" where
  "sampleBoot = \<lparr>bo_Error = (\<lambda>_. ''failed''), bo_ReadEmbedded = (\<lambda>w p. (Inr ''1.0.0 '', w)),
     bo_ReadFile = (\<lambda>w p. (Inr ''minio'', w)), bo_Do = (\<lambda>w c. (Inr (), w))\<rparr>"

theorem operator_construction_witness:
  "\<exists>mon. map fst (trace (Main_New sampleBoot \<lparr>op_KubeConfig = '''', op_MinioOperatorNamespace = ''''\<rparr>) ()) =
      [BuildConfigFromFlags '''', ReadFile namespaceFile,
       AddKnownTypes SchemeGroupVersion knownTypes, AddToGroupVersion SchemeGroupVersion,
       MinioV2AddToScheme, KubeAddToScheme, NewManager managerOptions,
       AddHealthzCheck ''healthz'', AddReadyzCheck ''readyz''] @
      controllersFor mon 60000000000"
proof -
  have "outcome (Main_New sampleBoot \<lparr>op_KubeConfig = '''', op_MinioOperatorNamespace = ''''\<rparr>) () = Ok ()"
    by (simp add: sampleBoot_def Main_New_def NewOperator_def operatorNamespace_def addKnownTypes_def
        perform_def readFile_def reconcilers_def register_defs Let_def outcome_def prim)
  from operator_construction [OF this] show ?thesis by auto
qed

text \<open>
  Without a namespace there is no operator: when none is given and the service account's file is
  missing or empty, \<open>New\<close> returns the error "minio operator namespace is not defined" after reading the
  client configuration and the file; no scheme, manager or controller is made.
\<close>

theorem operator_needs_namespace:
  assumes "op_MinioOperatorNamespace opts = ''''"
    and "bo_Do B w (BuildConfigFromFlags (op_KubeConfig opts)) = (Inr (), w1)"
    and "fst (bo_ReadFile B w1 namespaceFile) \<in> {Inr ''''} \<union> range Inl"
  shows "outcome (Main_New B opts) w = Err (GoErr ''minio operator namespace is not defined'') \<and>
    map fst (trace (Main_New B opts) w) = [BuildConfigFromFlags (op_KubeConfig opts), ReadFile namespaceFile]"
proof -
  obtain x w2 where "bo_ReadFile B w1 namespaceFile = (x, w2)" by (cases "bo_ReadFile B w1 namespaceFile")
  with assms show ?thesis
    by (auto simp: Main_New_def NewOperator_def operatorNamespace_def perform_def readFile_def prim
        outcome_def trace_def)
qed

theorem operator_needs_namespace_witness:
  "outcome (Main_New (sampleBoot\<lparr>bo_ReadFile := \<lambda>w p. (Inl (GoErr ''no such file''), w)\<rparr>)
     \<lparr>op_KubeConfig = '''', op_MinioOperatorNamespace = ''''\<rparr>) ()
   = Err (GoErr ''minio operator namespace is not defined'')"
  using operator_needs_namespace [of "\<lparr>op_KubeConfig = '''', op_MinioOperatorNamespace = ''''\<rparr>"
      "sampleBoot\<lparr>bo_ReadFile := \<lambda>w p. (Inl (GoErr ''no such file''), w)\<rparr>" "()" "()"]
  by (simp add: sampleBoot_def)

end
