(* ===== verification/Command_Line.thy ===== *)
theory Command_Line
  imports Bootstrap
begin

text \<open>
  The program around the operator: \<open>main\<close> of \<open>cmd/operator/operator.go\<close> with its two commands, \<open>Run\<close>
  and \<open>Health\<close> of \<open>internal/operator\<close>, and \<open>GetOperatorVersion\<close> of \<open>internal/embed.go\<close>. The
  command-line library (\<open>urfave/cli\<close>) is a parameter, \<open>runApp\<close>; what the program relies on is
  \<open>dispatches\<close>: \<open>Before\<close> runs first, its error ends the run, and the command's action sees the
  context it leaves. The theorem gives every call the program makes and its exit code.
\<close>

section \<open>Running\<close>

definition operator_Health :: "goerr option" where
  "operator_Health = None"

definition operator_Run :: "'w boot \<Rightarrow> ('w, bootCall, unit) m" where
  "operator_Run B = perform B ManagerStart"

text \<open>The error group has one member, so waiting for it returns the error of that member.\<close>

definition Main_Run :: "'w boot \<Rightarrow> ('w, bootCall, unit) m" where
  "Main_Run B = operator_Run B"

section \<open>The version\<close>

text \<open>\<open>strings.TrimSpace\<close>, for ASCII text (as the version file is).\<close>

definition isSpace :: "char \<Rightarrow> bool" where
  "isSpace c \<longleftrightarrow> c = CHR '' '' \<or> (9 \<le> (of_char c :: nat) \<and> (of_char c :: nat) \<le> 13)"

definition trimSpace :: "string \<Rightarrow> string" where
  "trimSpace s = rev (dropWhile isSpace (rev (dropWhile isSpace s)))"

definition readEmbedded :: "'w boot \<Rightarrow> string \<Rightarrow> ('w, bootCall, string) m" where
  "readEmbedded B p = call (ReadEmbedded p) (\<lambda>w. bo_ReadEmbedded B w p)"

definition GetOperatorVersion :: "'w boot \<Rightarrow> ('w, bootCall, string) m" where
  "GetOperatorVersion B =
     bindM (attempt (readEmbedded B ''embed/version.txt'')) (\<lambda>x.
     ret (case x of Inl err \<Rightarrow> ''0.0.0+undefined'' | Inr vb \<Rightarrow> trimSpace vb))"

section \<open>The commands\<close>

record Flags =
  fl_log_level :: string
  fl_kube_config :: string
  fl_minio_operator_namespace :: string

text \<open>The context holds the logger, that is its level, once \<open>Before\<close> has put it there.\<close>

definition app_Before :: "Flags \<Rightarrow> Level option \<Rightarrow> goerr + Level option" where
  "app_Before c ctx = (case configureLogging (fl_log_level c) of
      Inl err \<Rightarrow> Inl err | Inr logger \<Rightarrow> Inr (Some logger))"

definition run_Action :: "'w boot \<Rightarrow> Level option \<Rightarrow> Flags \<Rightarrow> ('w, bootCall, unit) m" where
  "run_Action B ctx c = (case ctx of
      None \<Rightarrow> fail (GoErr ''logger not attached to context'')
    | Some l \<Rightarrow>
        bindM (Main_New B \<lparr>op_KubeConfig = fl_kube_config c,
          op_MinioOperatorNamespace = fl_minio_operator_namespace c\<rparr>) (\<lambda>_.
        Main_Run B))"

definition version_Action :: "'w boot \<Rightarrow> Level option \<Rightarrow> Flags \<Rightarrow> ('w, bootCall, unit) m" where
  "version_Action B ctx c =
     bindM (GetOperatorVersion B) (\<lambda>v.
     bindM (attempt (perform B (WriteOut v))) (\<lambda>_.
     ret ()))"

record 'w App =
  ap_Before :: "Flags \<Rightarrow> Level option \<Rightarrow> goerr + Level option"
  ap_Commands :: "(string \<times> (Level option \<Rightarrow> Flags \<Rightarrow> ('w, bootCall, unit) m)) list"

definition operatorApp :: "'w boot \<Rightarrow> 'w App" where
  "operatorApp B = \<lparr>ap_Before = app_Before,
     ap_Commands = [(''run'', run_Action B), (''version'', version_Action B)]\<rparr>"

definition main ::
  "('w App \<Rightarrow> string list \<Rightarrow> ('w, bootCall, unit) m) \<Rightarrow> 'w boot \<Rightarrow> string list \<Rightarrow> ('w, bootCall, unit) m" where
  "main runApp B args =
     bindM (attempt (runApp (operatorApp B) args)) (\<lambda>x.
     let err = errOf x; code = 0 in
     bindM (case err of None \<Rightarrow> ret code | Some e \<Rightarrow>
              bindM (attempt (perform B (WriteErr (''error: '' @ bo_Error B e @ [CHR 0x0A])))) (\<lambda>_.
              ret 1)) (\<lambda>code.
     perform B (Exit code)))"

section \<open>Properties\<close>

text \<open>What is relied on of the library: how arguments that parse to flags and a command are run.\<close>

definition dispatches ::
  "('w App \<Rightarrow> string list \<Rightarrow> ('w, bootCall, unit) m) \<Rightarrow> (string list \<Rightarrow> (Flags \<times> string) option) \<Rightarrow> bool" where
  "dispatches runApp parse \<longleftrightarrow> (\<forall>app args c cmd action.
     parse args = Some (c, cmd) \<and> map_of (ap_Commands app) cmd = Some action \<longrightarrow>
     runApp app args = (case ap_Before app c None of Inl err \<Rightarrow> fail err | Inr ctx \<Rightarrow> action ctx c))"

text \<open>The end of the program: the error is printed, if there is one, and decides the exit code.\<close>

definition exitCalls :: "'w boot \<Rightarrow> goerr option \<Rightarrow> bootCall list" where
  "exitCalls B err = (case err of None \<Rightarrow> [Exit 0]
     | Some e \<Rightarrow> [WriteErr (''error: '' @ bo_Error B e @ [CHR 0x0A]), Exit 1])"

lemma main_calls:
  assumes "runApp (operatorApp B) args w = (x, w1, t)" and "x \<noteq> Panic"
  shows "map fst (trace (main runApp B args) w) =
    map fst t @ exitCalls B (case x of Err e \<Rightarrow> Some e | _ \<Rightarrow> None)"
  using assms
  by (cases x) (auto simp: main_def Let_def exitCalls_def trace_def perform_def prim
      split: prod.split sum.split res.split option.split)

text \<open>The construction never panics.\<close>

lemma registerAll_total: "triple (\<lambda>_. True) (\<lambda>_. True) False (\<lambda>_. True) (registerAll (reconcilers B) mon si)"
  unfolding reconcilers_def registerAll.simps register_defs perform_def by (intro triple_intro) auto

lemma Main_New_total: "triple (\<lambda>_. True) (\<lambda>_. True) False (\<lambda>_. True) (Main_New B opts)"
  unfolding Main_New_def NewOperator_def operatorNamespace_def addKnownTypes_def perform_def readFile_def
    Let_def
  by (intro triple_intro registerAll_total) auto

lemma run_calls:
  assumes "Main_New B opts w = (x, w1, t)"
  shows "\<exists>y w2 t'. bindM (Main_New B opts) (\<lambda>_. Main_Run B) w = (y, w2, t') \<and> y \<noteq> Panic \<and>
    map fst t' @ exitCalls B (case y of Err e \<Rightarrow> Some e | _ \<Rightarrow> None) =
      map fst t @ (case x of Err e \<Rightarrow> exitCalls B (Some e)
        | _ \<Rightarrow> ManagerStart # exitCalls B (errOf (fst (bo_Do B w1 ManagerStart))))"
proof -
  have "x \<noteq> Panic" using tripleD [OF Main_New_total assms] by (cases x) simp_all
  with assms show ?thesis
    by (cases x; cases "bo_Do B w1 ManagerStart")
      (auto simp: Main_Run_def operator_Run_def perform_def prim split: sum.split)
qed

text \<open>
  C40 - What the program does, call by call. An unknown log level ends it with the error on standard error
  and exit code 1, before anything else; \<open>version\<close> prints the embedded version and exits with 0
  without touching the cluster, also when it cannot be read; \<open>run\<close> starts the manager exactly if the
  construction from the two flags succeeds, and the first error on that way is printed and makes the
  exit code 1.
\<close>

theorem main_calls_and_exit_code:
  assumes "dispatches runApp parse" and "parse args = Some (c, cmd)" and "cmd \<in> {''run'', ''version''}"
    and "Main_New B \<lparr>op_KubeConfig = fl_kube_config c,
      op_MinioOperatorNamespace = fl_minio_operator_namespace c\<rparr> w = (x, w1, t)"
  shows "map fst (trace (main runApp B args) w) =
    (case configureLogging (fl_log_level c) of
       Inl e \<Rightarrow> exitCalls B (Some e)
     | Inr l \<Rightarrow>
         if cmd = ''version'' then
           [ReadEmbedded ''embed/version.txt'',
            WriteOut (case fst (bo_ReadEmbedded B w ''embed/version.txt'') of
              Inl _ \<Rightarrow> ''0.0.0+undefined'' | Inr v \<Rightarrow> trimSpace v), Exit 0]
         else map fst t @ (case x of Err e \<Rightarrow> exitCalls B (Some e)
           | _ \<Rightarrow> ManagerStart # exitCalls B (errOf (fst (bo_Do B w1 ManagerStart)))))"
proof -
  have run: "runApp (operatorApp B) args = (case app_Before c None of Inl err \<Rightarrow> fail err
      | Inr ctx \<Rightarrow> (if cmd = ''version'' then version_Action B ctx c else run_Action B ctx c))"
  proof -
    have "map_of (ap_Commands (operatorApp B)) cmd =
        Some (if cmd = ''version'' then version_Action B else run_Action B)"
      using assms(3) by (auto simp: operatorApp_def)
    with assms(1,2) have "runApp (operatorApp B) args = (case ap_Before (operatorApp B) c None of
        Inl err \<Rightarrow> fail err
      | Inr ctx \<Rightarrow> (if cmd = ''version'' then version_Action B else run_Action B) ctx c)"
      unfolding dispatches_def by blast
    then show ?thesis by (simp add: operatorApp_def if_distrib [where f = "\<lambda>a. a _ c"] split: sum.split)
  qed
  show ?thesis
  proof (cases "configureLogging (fl_log_level c)")
    case (Inl e)
    then have "runApp (operatorApp B) args w = (Err e, w, [])" by (simp add: run app_Before_def prim)
    from main_calls [where runApp = runApp and B = B and args = args and w = w and x = "Err e" and t = "[]", OF this] Inl show ?thesis by simp
  next
    case (Inr l)
    show ?thesis
    proof (cases "cmd = ''version''")
      case True
      let ?v = "case fst (bo_ReadEmbedded B w ''embed/version.txt'') of
        Inl _ \<Rightarrow> ''0.0.0+undefined'' | Inr v \<Rightarrow> trimSpace v"
      have "\<exists>w2 t'. version_Action B (Some l) c w = (Ok (), w2, t') \<and>
          map fst t' = [ReadEmbedded ''embed/version.txt'', WriteOut ?v]"
        by (cases "bo_ReadEmbedded B w ''embed/version.txt''")
          (auto simp: version_Action_def GetOperatorVersion_def readEmbedded_def perform_def prim
            split: sum.split prod.split)
      then obtain w2 t' where "runApp (operatorApp B) args w = (Ok (), w2, t')"
          "map fst t' = [ReadEmbedded ''embed/version.txt'', WriteOut ?v]"
        using Inr True by (auto simp: run app_Before_def)
      from main_calls [where runApp = runApp and B = B and args = args and w = w and x = "Ok ()", OF this(1)] this(2) Inr True show ?thesis by (simp add: exitCalls_def)
    next
      case False
      obtain y w2 t' where "runApp (operatorApp B) args w = (y, w2, t')" "y \<noteq> Panic"
          "map fst t' @ exitCalls B (case y of Err e \<Rightarrow> Some e | _ \<Rightarrow> None) =
           map fst t @ (case x of Err e \<Rightarrow> exitCalls B (Some e)
             | _ \<Rightarrow> ManagerStart # exitCalls B (errOf (fst (bo_Do B w1 ManagerStart))))"
        using run_calls [OF assms(4)] Inr False by (auto simp: run app_Before_def run_Action_def)
      from main_calls [where runApp = runApp and B = B and args = args and w = w, OF this(1,2)] this(3) Inr False show ?thesis by simp
    qed
  qed
qed

text \<open>A library that runs the command named by the last of four arguments, the flags being the others.\<close>

definition sampleParse :: "string list \<Rightarrow> (Flags \<times> string) option" where
  "sampleParse args = (case args of
      [l, k, n, cmd] \<Rightarrow> Some (\<lparr>fl_log_level = l, fl_kube_config = k, fl_minio_operator_namespace = n\<rparr>, cmd)
    | _ \<Rightarrow> None)"

definition sampleRunApp :: "'w App \<Rightarrow> string list \<Rightarrow> ('w, bootCall, unit) m" where
  "sampleRunApp app args = (case sampleParse args of
      None \<Rightarrow> fail (GoErr ''usage'')
    | Some (c, cmd) \<Rightarrow> (case map_of (ap_Commands app) cmd of
          None \<Rightarrow> fail (GoErr ''no such command'')
        | Some action \<Rightarrow> (case ap_Before app c None of Inl err \<Rightarrow> fail err | Inr ctx \<Rightarrow> action ctx c)))"

theorem main_calls_and_exit_code_witness:
  "map fst (trace (main sampleRunApp sampleBoot [''debug'', '''', '''', ''version'']) ()) =
     [ReadEmbedded ''embed/version.txt'', WriteOut ''1.0.0'', Exit 0] \<and>
   map fst (trace (main sampleRunApp sampleBoot [''loud'', '''', '''', ''run'']) ()) =
     [WriteErr (''error: failed'' @ [CHR 0x0A]), Exit 1]"
proof -
  have d: "dispatches sampleRunApp sampleParse" by (auto simp: dispatches_def sampleRunApp_def)
  let ?f = "\<lambda>l. \<lparr>fl_log_level = l, fl_kube_config = '''', fl_minio_operator_namespace = ''''\<rparr>"
  have p: "sampleParse [l, '''', '''', cmd] = Some (?f l, cmd)" for l cmd by (simp add: sampleParse_def)
  obtain x w1 t where new: "Main_New sampleBoot \<lparr>op_KubeConfig = fl_kube_config (?f l),
      op_MinioOperatorNamespace = fl_minio_operator_namespace (?f l)\<rparr> () = (x, w1, t)" for l
    by (cases "Main_New sampleBoot \<lparr>op_KubeConfig = '''', op_MinioOperatorNamespace = ''''\<rparr> ()") simp
  have "trimSpace ''1.0.0 '' = ''1.0.0''" by (simp add: trimSpace_def isSpace_def)
  moreover have "configureLogging ''debug'' = Inr LevelDebug"
      "configureLogging ''loud'' = Inl (GoErr ''unrecognized log level loud'')"
    by (simp_all add: configureLogging_def)
  ultimately show ?thesis
    using main_calls_and_exit_code [OF d p [of "''debug''" "''version''"] _ new]
      main_calls_and_exit_code [OF d p [of "''loud''" "''run''"] _ new]
    by (simp add: exitCalls_def) (simp add: sampleBoot_def)
qed

end
