(* ===== verification/Go_Memory.thy ===== *)
theory Go_Memory
  imports Api_Types "HOL-Library.State_Monad"
begin

text \<open>
  Values with the memory they occupy. In \<open>Api_Types\<close> a pointer is an option and a slice a list; here a
  pointer or a slice that is not nil also has the address of the memory it refers to, so that one can
  say that two values share memory. A computation draws new addresses from a counter (all addresses in
  use are below it). The calculus \<open>makes\<close> says which memory the result of a computation owns.
\<close>

section \<open>Pointers, slices and allocation\<close>

datatype 'a ptr = NilPtr | Ptr (ptrAddr: nat) (target: 'a)

datatype 'a block = NilBlock | Block nat "'a list"

type_synonym 'a alloc = "(nat, 'a) state"

definition new :: "nat alloc" where
  "new = State (\<lambda>n. (n, Suc n))"

text \<open>
  The two shapes of statements that copy what a pointer or a slice refers to: \<open>if in.F != nil\<close>, then
  new memory, then the copy of the target or, one by one, of the elements.
\<close>

fun copyPtr :: "('a \<Rightarrow> 'a alloc) \<Rightarrow> 'a ptr \<Rightarrow> 'a ptr alloc" where
  "copyPtr f NilPtr = State_Monad.return NilPtr"
| "copyPtr f (Ptr a x) = do {out \<leftarrow> new; y \<leftarrow> f x; State_Monad.return (Ptr out y)}"

fun copyBlock :: "('a \<Rightarrow> 'a alloc) \<Rightarrow> 'a block \<Rightarrow> 'a block alloc" where
  "copyBlock f NilBlock = State_Monad.return NilBlock"
| "copyBlock f (Block a xs) =
     do {out \<leftarrow> new; ys \<leftarrow> State_Monad.traverse_list f xs; State_Monad.return (Block out ys)}"

text \<open>The same when the copying of the pointer is left to a method of its target.\<close>

definition ifPtr :: "('a ptr \<Rightarrow> 'a ptr alloc) \<Rightarrow> 'a ptr \<Rightarrow> 'a ptr alloc" where
  "ifPtr f p = (if p \<noteq> NilPtr then f p else State_Monad.return p)"

section \<open>What a value means and which memory it refers to\<close>

fun erasePtr :: "('a \<Rightarrow> 'b) \<Rightarrow> 'a ptr \<Rightarrow> 'b option" where
  "erasePtr e NilPtr = None"
| "erasePtr e (Ptr a x) = Some (e x)"

fun eraseBlock :: "('a \<Rightarrow> 'b) \<Rightarrow> 'a block \<Rightarrow> 'b slice" where
  "eraseBlock e NilBlock = NilSlice"
| "eraseBlock e (Block a xs) = Slice (map e xs)"

fun addrsPtr :: "('a \<Rightarrow> nat list) \<Rightarrow> 'a ptr \<Rightarrow> nat list" where
  "addrsPtr m NilPtr = []"
| "addrsPtr m (Ptr a x) = a # m x"

fun addrsBlock :: "('a \<Rightarrow> nat list) \<Rightarrow> 'a block \<Rightarrow> nat list" where
  "addrsBlock m NilBlock = []"
| "addrsBlock m (Block a xs) = a # concat (map m xs)"

text \<open>Values without pointers.\<close>

abbreviation noAddrs :: "'a \<Rightarrow> nat list" where
  "noAddrs \<equiv> (\<lambda>_. [])"

section \<open>Ownership\<close>

text \<open>
  \<open>makes m P\<close>: \<open>m\<close> only allocates, and \<open>P\<close> holds of its result and of some list of distinct addresses
  that it allocated.
\<close>

definition makes :: "'a alloc \<Rightarrow> ('a \<Rightarrow> nat list \<Rightarrow> bool) \<Rightarrow> bool" where
  "makes m P \<longleftrightarrow> (\<forall>n. \<exists>y n' as. run_state m n = (y, n') \<and> n \<le> n' \<and> distinct as \<and>
     set as \<subseteq> {n..<n'} \<and> P y as)"

lemma makes_weaken: "makes m P \<Longrightarrow> (\<And>y as. P y as \<Longrightarrow> Q y as) \<Longrightarrow> makes m Q"
  unfolding makes_def by meson

lemma makes_return: "P x [] \<Longrightarrow> makes (State_Monad.return x) P"
  by (auto simp: makes_def)

lemma makes_bind:
  assumes "makes m P" and "\<And>y as. P y as \<Longrightarrow> makes (f y) (\<lambda>z bs. Q z (as @ bs))"
  shows "makes (State_Monad.bind m f) Q"
  unfolding makes_def
proof
  fix n
  obtain y n1 as where y: "run_state m n = (y, n1)" "n \<le> n1" "distinct as" "set as \<subseteq> {n..<n1}" "P y as"
    using assms(1) unfolding makes_def by meson
  obtain z n2 bs where z: "run_state (f y) n1 = (z, n2)" "n1 \<le> n2" "distinct bs" "set bs \<subseteq> {n1..<n2}"
      "Q z (as @ bs)"
    using assms(2) [OF y(5)] unfolding makes_def by meson
  have "distinct (as @ bs)" using y(3,4) z(3,4) by fastforce
  moreover have "set (as @ bs) \<subseteq> {n..<n2}" using y(2,4) z(2,4) by auto
  ultimately show "\<exists>z n' as. run_state (State_Monad.bind m f) n = (z, n') \<and> n \<le> n' \<and> distinct as \<and>
      set as \<subseteq> {n..<n'} \<and> Q z as"
    using y z by (intro exI [of _ z] exI [of _ n2] exI [of _ "as @ bs"]) simp
qed

lemma makes_new:
  assumes "\<And>a. makes (f a) (\<lambda>z bs. Q z (a # bs))"
  shows "makes (State_Monad.bind new f) Q"
proof (rule makes_bind [where P = "\<lambda>a as. as = [a]"])
  show "makes new (\<lambda>a as. as = [a])" by (auto simp: makes_def new_def)
qed (use assms in simp)

text \<open>
  The specification of a deep copy: the copy means the same as the original, and all the memory it
  refers to, each address once, is memory the copying has allocated.
\<close>

definition deepCopies ::
  "('a \<Rightarrow> 'a alloc) \<Rightarrow> ('a \<Rightarrow> 'b) \<Rightarrow> ('a \<Rightarrow> nat list) \<Rightarrow> bool" where
  "deepCopies copy erase addrs \<longleftrightarrow> (\<forall>x. makes (copy x) (\<lambda>y as. erase y = erase x \<and> addrs y = as))"

lemma deepCopiesI:
  "(\<And>x. makes (copy x) (\<lambda>y as. erase y = erase x \<and> addrs y = as)) \<Longrightarrow> deepCopies copy erase addrs"
  by (simp add: deepCopies_def)

lemma deepCopies_meaning:
  assumes "deepCopies copy erase addrs" and "\<And>x y. erase y = erase x \<Longrightarrow> read y = read x"
  shows "deepCopies copy read addrs"
proof (rule deepCopiesI)
  fix x
  show "makes (copy x) (\<lambda>y as. read y = read x \<and> addrs y = as)"
    by (rule makes_weaken [OF spec [OF assms(1) [unfolded deepCopies_def], of x]]) (use assms(2) in blast)
qed

lemma makes_copy:
  assumes "deepCopies copy erase addrs"
    and "\<And>y. erase y = erase x \<Longrightarrow> makes (f y) (\<lambda>z bs. Q z (addrs y @ bs))"
  shows "makes (State_Monad.bind (copy x) f) Q"
  by (rule makes_bind [where P = "\<lambda>y as. erase y = erase x \<and> addrs y = as"])
    (use assms in \<open>auto simp: deepCopies_def\<close>)

lemma deepCopies_return: "deepCopies State_Monad.return (\<lambda>x. x) noAddrs"
  by (simp add: deepCopies_def makes_return)

lemma deepCopies_copyPtr:
  assumes "deepCopies copy erase addrs"
  shows "deepCopies (copyPtr copy) (erasePtr erase) (addrsPtr addrs)"
proof (rule deepCopiesI)
  fix p
  show "makes (copyPtr copy p) (\<lambda>q as. erasePtr erase q = erasePtr erase p \<and> addrsPtr addrs q = as)"
    by (cases p)
      (auto intro!: makes_return makes_new makes_copy [OF assms])
qed

lemma deepCopies_ifPtr:
  "deepCopies f (erasePtr erase) (addrsPtr addrs) \<Longrightarrow>
   deepCopies (ifPtr f) (erasePtr erase) (addrsPtr addrs)"
  by (auto simp: deepCopies_def ifPtr_def makes_return)

lemma makes_traverse:
  "deepCopies copy erase addrs \<Longrightarrow> makes (State_Monad.traverse_list copy xs)
     (\<lambda>ys as. map erase ys = map erase xs \<and> concat (map addrs ys) = as)"
proof (induction xs)
  case (Cons x xs)
  then show ?case by (auto intro!: makes_copy [OF Cons(2)] makes_bind [OF Cons(1)] makes_return)
qed (simp add: makes_return)

lemma deepCopies_copyBlock:
  assumes "deepCopies copy erase addrs"
  shows "deepCopies (copyBlock copy) (eraseBlock erase) (addrsBlock addrs)"
proof (rule deepCopiesI)
  fix p
  show "makes (copyBlock copy p)
      (\<lambda>q as. eraseBlock erase q = eraseBlock erase p \<and> addrsBlock addrs q = as)"
    by (cases p)
      (auto intro!: makes_return makes_new makes_bind [OF makes_traverse [OF assms]])
qed

end
