(* ===== verification/Deep_Copy.thy ===== *)
theory Deep_Copy
  imports Go_Memory
begin

text \<open>
  The deep copies of \<open>zz_generated.deepcopy.go\<close>, type by type. A type \<open>TM\<close> is the type \<open>T\<close> of \<open>Api_Types\<close>
  with its memory; types without pointers and slices need none. \<open>T_DeepCopyInto\<close> maps the value
  \<open>*in\<close> to the value that is written to \<open>*out\<close>, statement by statement: it starts with
  \<open>*out = *in\<close>, which shares all memory, and then replaces field by field. \<open>T_DeepCopy\<close> is the same
  behind a pointer, \<open>T_DeepCopyObject\<close> behind an interface. \<open>erase_T\<close> is the meaning of a value and
  \<open>addrs_T\<close> the addresses it refers to. The copies of \<open>metav1\<close> types are a parameter.
\<close>

section \<open>The library's copies\<close>

record ('m, 'l) metaLib =
  metaObjectMeta_DeepCopyInto :: "'m \<Rightarrow> 'm alloc"
  metaListMeta_DeepCopyInto :: "'l \<Rightarrow> 'l alloc"
  metaTime_DeepCopyInto :: "gotime \<Rightarrow> gotime alloc"
  metaTime_DeepCopy :: "gotime ptr \<Rightarrow> gotime ptr alloc"

text \<open>What is documented of them: they are deep copies. \<open>em\<close>, \<open>ma\<close> and \<open>el\<close>, \<open>la\<close> read object and list metadata.\<close>

definition metaLaws ::
  "('m, 'l) metaLib \<Rightarrow> ('m \<Rightarrow> ObjectMeta) \<Rightarrow> ('m \<Rightarrow> nat list) \<Rightarrow> ('l \<Rightarrow> 'e) \<Rightarrow> ('l \<Rightarrow> nat list) \<Rightarrow> bool" where
  "metaLaws M em ma el la \<longleftrightarrow>
     deepCopies (metaObjectMeta_DeepCopyInto M) em ma \<and>
     deepCopies (metaListMeta_DeepCopyInto M) el la \<and>
     deepCopies (metaTime_DeepCopyInto M) (\<lambda>t. t) noAddrs \<and>
     deepCopies (metaTime_DeepCopy M) (erasePtr (\<lambda>t. t)) (addrsPtr noAddrs)"

named_theorems deep_copies \<open>the operations that are deep copies\<close>

declare deepCopies_return [deep_copies] deepCopies_copyPtr [deep_copies] deepCopies_ifPtr [deep_copies]
  deepCopies_copyBlock [deep_copies]

lemma metaLawsD [deep_copies]:
  assumes "metaLaws M em ma el la"
  shows "deepCopies (metaObjectMeta_DeepCopyInto M) em ma"
    and "deepCopies (metaListMeta_DeepCopyInto M) el la"
    and "deepCopies (metaTime_DeepCopyInto M) (\<lambda>t. t) noAddrs"
    and "deepCopies (metaTime_DeepCopy M) (erasePtr (\<lambda>t. t)) (addrsPtr noAddrs)"
  using assms by (simp_all add: metaLaws_def)

text \<open>A \<open>runtime.Object\<close> is the nil interface (\<open>None\<close>) or holds a pointer.\<close>

definition asObject :: "'a ptr alloc \<Rightarrow> 'a ptr option alloc" where
  "asObject m = do {c \<leftarrow> m; State_Monad.return (if c \<noteq> NilPtr then Some c else None)}"

text \<open>The seven list types have one shape, and their copies one body.\<close>

record ('l, 'a) resourceListM =
  mrl_TypeMeta :: TypeMeta
  mrl_ListMeta :: 'l
  mrl_Items :: "'a block"

record ('e, 'a) resourceList =
  rl_TypeMeta :: TypeMeta
  rl_ListMeta :: 'e
  rl_Items :: "'a slice"

definition resourceList_DeepCopyInto ::
  "('m, 'l) metaLib \<Rightarrow> ('a \<Rightarrow> 'a alloc) \<Rightarrow> ('l, 'a) resourceListM \<Rightarrow> ('l, 'a) resourceListM alloc" where
  "resourceList_DeepCopyInto M item i = do {
     let out = i;
     let out = out\<lparr>mrl_TypeMeta := mrl_TypeMeta i\<rparr>;
     v \<leftarrow> metaListMeta_DeepCopyInto M (mrl_ListMeta i);
     let out = out\<lparr>mrl_ListMeta := v\<rparr>;
     v \<leftarrow> copyBlock item (mrl_Items i);
     let out = out\<lparr>mrl_Items := v\<rparr>;
     State_Monad.return out}"

definition erase_resourceList ::
  "('l \<Rightarrow> 'e) \<Rightarrow> ('a \<Rightarrow> 'b) \<Rightarrow> ('l, 'a) resourceListM \<Rightarrow> ('e, 'b) resourceList" where
  "erase_resourceList el e x = \<lparr>rl_TypeMeta = mrl_TypeMeta x, rl_ListMeta = el (mrl_ListMeta x),
     rl_Items = eraseBlock e (mrl_Items x)\<rparr>"

definition addrs_resourceList ::
  "('l \<Rightarrow> nat list) \<Rightarrow> ('a \<Rightarrow> nat list) \<Rightarrow> ('l, 'a) resourceListM \<Rightarrow> nat list" where
  "addrs_resourceList la a x = la (mrl_ListMeta x) @ addrsBlock a (mrl_Items x)"

lemma resourceList_deepCopies:
  assumes "metaLaws M em ma el la" and "deepCopies item e a"
  shows "deepCopies (resourceList_DeepCopyInto M item) (erase_resourceList el e) (addrs_resourceList la a)"
  unfolding resourceList_DeepCopyInto_def Let_def
  by (rule deepCopiesI) (auto simp: erase_resourceList_def addrs_resourceList_def
    intro!: makes_return makes_copy [OF metaLawsD(2) [OF assms(1)]]
      makes_copy [OF deepCopies_copyBlock [OF assms(2)]])

section \<open>References\<close>

definition ResourceRef_DeepCopyInto ::
  "ResourceRef \<Rightarrow> ResourceRef alloc" where
  "ResourceRef_DeepCopyInto i = State_Monad.return i"

lemma ResourceRef_deepCopies [deep_copies]:
  "deepCopies ResourceRef_DeepCopyInto (\<lambda>x. x) noAddrs"
  by (simp add: ResourceRef_DeepCopyInto_def deepCopies_def makes_return)

definition ResourceRef_DeepCopy ::
  "ResourceRef ptr \<Rightarrow> ResourceRef ptr alloc" where
  "ResourceRef_DeepCopy i = copyPtr ResourceRef_DeepCopyInto i"

definition ResourceKeyRef_DeepCopyInto ::
  "ResourceKeyRef \<Rightarrow> ResourceKeyRef alloc" where
  "ResourceKeyRef_DeepCopyInto i = State_Monad.return i"

lemma ResourceKeyRef_deepCopies [deep_copies]:
  "deepCopies ResourceKeyRef_DeepCopyInto (\<lambda>x. x) noAddrs"
  by (simp add: ResourceKeyRef_DeepCopyInto_def deepCopies_def makes_return)

definition ResourceKeyRef_DeepCopy ::
  "ResourceKeyRef ptr \<Rightarrow> ResourceKeyRef ptr alloc" where
  "ResourceKeyRef_DeepCopy i = copyPtr ResourceKeyRef_DeepCopyInto i"

section \<open>MinioBucket\<close>

definition MinioBucketLifecycleAbortIncompleteMultipartUpload_DeepCopyInto ::
  "MinioBucketLifecycleAbortIncompleteMultipartUpload \<Rightarrow> MinioBucketLifecycleAbortIncompleteMultipartUpload alloc" where
  "MinioBucketLifecycleAbortIncompleteMultipartUpload_DeepCopyInto i = State_Monad.return i"

lemma MinioBucketLifecycleAbortIncompleteMultipartUpload_deepCopies [deep_copies]:
  "deepCopies MinioBucketLifecycleAbortIncompleteMultipartUpload_DeepCopyInto (\<lambda>x. x) noAddrs"
  by (simp add: MinioBucketLifecycleAbortIncompleteMultipartUpload_DeepCopyInto_def deepCopies_def makes_return)

definition MinioBucketLifecycleAbortIncompleteMultipartUpload_DeepCopy ::
  "MinioBucketLifecycleAbortIncompleteMultipartUpload ptr \<Rightarrow> MinioBucketLifecycleAbortIncompleteMultipartUpload ptr alloc" where
  "MinioBucketLifecycleAbortIncompleteMultipartUpload_DeepCopy i = copyPtr MinioBucketLifecycleAbortIncompleteMultipartUpload_DeepCopyInto i"

definition MinioBucketLifecycleDelMarkerExpiration_DeepCopyInto ::
  "MinioBucketLifecycleDelMarkerExpiration \<Rightarrow> MinioBucketLifecycleDelMarkerExpiration alloc" where
  "MinioBucketLifecycleDelMarkerExpiration_DeepCopyInto i = State_Monad.return i"

lemma MinioBucketLifecycleDelMarkerExpiration_deepCopies [deep_copies]:
  "deepCopies MinioBucketLifecycleDelMarkerExpiration_DeepCopyInto (\<lambda>x. x) noAddrs"
  by (simp add: MinioBucketLifecycleDelMarkerExpiration_DeepCopyInto_def deepCopies_def makes_return)

definition MinioBucketLifecycleDelMarkerExpiration_DeepCopy ::
  "MinioBucketLifecycleDelMarkerExpiration ptr \<Rightarrow> MinioBucketLifecycleDelMarkerExpiration ptr alloc" where
  "MinioBucketLifecycleDelMarkerExpiration_DeepCopy i = copyPtr MinioBucketLifecycleDelMarkerExpiration_DeepCopyInto i"

definition MinioBucketLifecycleTag_DeepCopyInto ::
  "MinioBucketLifecycleTag \<Rightarrow> MinioBucketLifecycleTag alloc" where
  "MinioBucketLifecycleTag_DeepCopyInto i = State_Monad.return i"

lemma MinioBucketLifecycleTag_deepCopies [deep_copies]:
  "deepCopies MinioBucketLifecycleTag_DeepCopyInto (\<lambda>x. x) noAddrs"
  by (simp add: MinioBucketLifecycleTag_DeepCopyInto_def deepCopies_def makes_return)

definition MinioBucketLifecycleTag_DeepCopy ::
  "MinioBucketLifecycleTag ptr \<Rightarrow> MinioBucketLifecycleTag ptr alloc" where
  "MinioBucketLifecycleTag_DeepCopy i = copyPtr MinioBucketLifecycleTag_DeepCopyInto i"

definition MinioBucketLifecycleNoncurrentVersionExpiration_DeepCopyInto ::
  "MinioBucketLifecycleNoncurrentVersionExpiration \<Rightarrow> MinioBucketLifecycleNoncurrentVersionExpiration alloc" where
  "MinioBucketLifecycleNoncurrentVersionExpiration_DeepCopyInto i = State_Monad.return i"

lemma MinioBucketLifecycleNoncurrentVersionExpiration_deepCopies [deep_copies]:
  "deepCopies MinioBucketLifecycleNoncurrentVersionExpiration_DeepCopyInto (\<lambda>x. x) noAddrs"
  by (simp add: MinioBucketLifecycleNoncurrentVersionExpiration_DeepCopyInto_def deepCopies_def makes_return)

definition MinioBucketLifecycleNoncurrentVersionExpiration_DeepCopy ::
  "MinioBucketLifecycleNoncurrentVersionExpiration ptr \<Rightarrow> MinioBucketLifecycleNoncurrentVersionExpiration ptr alloc" where
  "MinioBucketLifecycleNoncurrentVersionExpiration_DeepCopy i = copyPtr MinioBucketLifecycleNoncurrentVersionExpiration_DeepCopyInto i"

definition MinioBucketLifecycleNoncurrentVersionTransition_DeepCopyInto ::
  "MinioBucketLifecycleNoncurrentVersionTransition \<Rightarrow> MinioBucketLifecycleNoncurrentVersionTransition alloc" where
  "MinioBucketLifecycleNoncurrentVersionTransition_DeepCopyInto i = State_Monad.return i"

lemma MinioBucketLifecycleNoncurrentVersionTransition_deepCopies [deep_copies]:
  "deepCopies MinioBucketLifecycleNoncurrentVersionTransition_DeepCopyInto (\<lambda>x. x) noAddrs"
  by (simp add: MinioBucketLifecycleNoncurrentVersionTransition_DeepCopyInto_def deepCopies_def makes_return)

definition MinioBucketLifecycleNoncurrentVersionTransition_DeepCopy ::
  "MinioBucketLifecycleNoncurrentVersionTransition ptr \<Rightarrow> MinioBucketLifecycleNoncurrentVersionTransition ptr alloc" where
  "MinioBucketLifecycleNoncurrentVersionTransition_DeepCopy i = copyPtr MinioBucketLifecycleNoncurrentVersionTransition_DeepCopyInto i"

definition MinioBucketLifecycleExpiration_DeepCopyInto ::
  "('m, 'l) metaLib \<Rightarrow> MinioBucketLifecycleExpiration \<Rightarrow> MinioBucketLifecycleExpiration alloc" where
  "MinioBucketLifecycleExpiration_DeepCopyInto M i = do {
     let out = i;
     v \<leftarrow> metaTime_DeepCopyInto M (le_Date i);
     let out = out\<lparr>le_Date := v\<rparr>;
     State_Monad.return out}"

lemma MinioBucketLifecycleExpiration_deepCopies [deep_copies]:
  "metaLaws M em ma el la \<Longrightarrow> deepCopies (MinioBucketLifecycleExpiration_DeepCopyInto M) (\<lambda>x. x) noAddrs"
  unfolding MinioBucketLifecycleExpiration_DeepCopyInto_def Let_def
  by (rule deepCopiesI) (auto intro!: makes_copy makes_return deep_copies)

definition MinioBucketLifecycleExpiration_DeepCopy ::
  "('m, 'l) metaLib \<Rightarrow> MinioBucketLifecycleExpiration ptr \<Rightarrow> MinioBucketLifecycleExpiration ptr alloc" where
  "MinioBucketLifecycleExpiration_DeepCopy M i = copyPtr (MinioBucketLifecycleExpiration_DeepCopyInto M) i"

definition MinioBucketLifecycleTransition_DeepCopyInto ::
  "('m, 'l) metaLib \<Rightarrow> MinioBucketLifecycleTransition \<Rightarrow> MinioBucketLifecycleTransition alloc" where
  "MinioBucketLifecycleTransition_DeepCopyInto M i = do {
     let out = i;
     v \<leftarrow> metaTime_DeepCopyInto M (ltr_Date i);
     let out = out\<lparr>ltr_Date := v\<rparr>;
     State_Monad.return out}"

lemma MinioBucketLifecycleTransition_deepCopies [deep_copies]:
  "metaLaws M em ma el la \<Longrightarrow> deepCopies (MinioBucketLifecycleTransition_DeepCopyInto M) (\<lambda>x. x) noAddrs"
  unfolding MinioBucketLifecycleTransition_DeepCopyInto_def Let_def
  by (rule deepCopiesI) (auto intro!: makes_copy makes_return deep_copies)

definition MinioBucketLifecycleTransition_DeepCopy ::
  "('m, 'l) metaLib \<Rightarrow> MinioBucketLifecycleTransition ptr \<Rightarrow> MinioBucketLifecycleTransition ptr alloc" where
  "MinioBucketLifecycleTransition_DeepCopy M i = copyPtr (MinioBucketLifecycleTransition_DeepCopyInto M) i"

record MinioBucketLifecycleAndM =
  mlan_Prefix :: string
  mlan_Tags :: "MinioBucketLifecycleTag block"
  mlan_ObjectSizeLessThan :: int
  mlan_ObjectSizeGreaterThan :: int

definition MinioBucketLifecycleAnd_DeepCopyInto ::
  "MinioBucketLifecycleAndM \<Rightarrow> MinioBucketLifecycleAndM alloc" where
  "MinioBucketLifecycleAnd_DeepCopyInto i = do {
     let out = i;
     v \<leftarrow> copyBlock State_Monad.return (mlan_Tags i);
     let out = out\<lparr>mlan_Tags := v\<rparr>;
     State_Monad.return out}"

definition erase_MinioBucketLifecycleAnd ::
  "MinioBucketLifecycleAndM \<Rightarrow> MinioBucketLifecycleAnd" where
  "erase_MinioBucketLifecycleAnd x = \<lparr>lan_Prefix = mlan_Prefix x,
     lan_Tags = eraseBlock (\<lambda>x. x) (mlan_Tags x),
     lan_ObjectSizeLessThan = mlan_ObjectSizeLessThan x,
     lan_ObjectSizeGreaterThan = mlan_ObjectSizeGreaterThan x\<rparr>"

definition addrs_MinioBucketLifecycleAnd ::
  "MinioBucketLifecycleAndM \<Rightarrow> nat list" where
  "addrs_MinioBucketLifecycleAnd x = addrsBlock noAddrs (mlan_Tags x)"

lemma MinioBucketLifecycleAnd_deepCopies [deep_copies]:
  "deepCopies MinioBucketLifecycleAnd_DeepCopyInto
     erase_MinioBucketLifecycleAnd addrs_MinioBucketLifecycleAnd"
  unfolding MinioBucketLifecycleAnd_DeepCopyInto_def Let_def
  by (rule deepCopiesI) (auto simp: erase_MinioBucketLifecycleAnd_def addrs_MinioBucketLifecycleAnd_def
      intro!: makes_copy makes_return deep_copies)

definition MinioBucketLifecycleAnd_DeepCopy ::
  "MinioBucketLifecycleAndM ptr \<Rightarrow> MinioBucketLifecycleAndM ptr alloc" where
  "MinioBucketLifecycleAnd_DeepCopy i = copyPtr MinioBucketLifecycleAnd_DeepCopyInto i"

record MinioBucketLifecycleFilterM =
  mlf_And :: MinioBucketLifecycleAndM
  mlf_Prefix :: string
  mlf_Tag :: MinioBucketLifecycleTag
  mlf_ObjectSizeLessThan :: int
  mlf_ObjectSizeGreaterThan :: int

definition MinioBucketLifecycleFilter_DeepCopyInto ::
  "MinioBucketLifecycleFilterM \<Rightarrow> MinioBucketLifecycleFilterM alloc" where
  "MinioBucketLifecycleFilter_DeepCopyInto i = do {
     let out = i;
     v \<leftarrow> MinioBucketLifecycleAnd_DeepCopyInto (mlf_And i);
     let out = out\<lparr>mlf_And := v\<rparr>;
     let out = out\<lparr>mlf_Tag := mlf_Tag i\<rparr>;
     State_Monad.return out}"

definition erase_MinioBucketLifecycleFilter ::
  "MinioBucketLifecycleFilterM \<Rightarrow> MinioBucketLifecycleFilter" where
  "erase_MinioBucketLifecycleFilter x = \<lparr>lf_And = erase_MinioBucketLifecycleAnd (mlf_And x),
     lf_Prefix = mlf_Prefix x,
     lf_Tag = mlf_Tag x,
     lf_ObjectSizeLessThan = mlf_ObjectSizeLessThan x,
     lf_ObjectSizeGreaterThan = mlf_ObjectSizeGreaterThan x\<rparr>"

definition addrs_MinioBucketLifecycleFilter ::
  "MinioBucketLifecycleFilterM \<Rightarrow> nat list" where
  "addrs_MinioBucketLifecycleFilter x = addrs_MinioBucketLifecycleAnd (mlf_And x)"

lemma MinioBucketLifecycleFilter_deepCopies [deep_copies]:
  "deepCopies MinioBucketLifecycleFilter_DeepCopyInto
     erase_MinioBucketLifecycleFilter addrs_MinioBucketLifecycleFilter"
  unfolding MinioBucketLifecycleFilter_DeepCopyInto_def Let_def
  by (rule deepCopiesI) (auto simp: erase_MinioBucketLifecycleFilter_def addrs_MinioBucketLifecycleFilter_def
      intro!: makes_copy makes_return deep_copies)

definition MinioBucketLifecycleFilter_DeepCopy ::
  "MinioBucketLifecycleFilterM ptr \<Rightarrow> MinioBucketLifecycleFilterM ptr alloc" where
  "MinioBucketLifecycleFilter_DeepCopy i = copyPtr MinioBucketLifecycleFilter_DeepCopyInto i"

record MinioBucketLifecycleRuleM =
  mlr_AbortIncompleteMultipartUpload :: MinioBucketLifecycleAbortIncompleteMultipartUpload
  mlr_Expiration :: MinioBucketLifecycleExpiration
  mlr_DelMarkerExpiration :: MinioBucketLifecycleDelMarkerExpiration
  mlr_ID :: string
  mlr_RuleFilter :: MinioBucketLifecycleFilterM
  mlr_NoncurrentVersionExpiration :: MinioBucketLifecycleNoncurrentVersionExpiration
  mlr_NoncurrentVersionTransition :: MinioBucketLifecycleNoncurrentVersionTransition
  mlr_Prefix :: string
  mlr_Status :: string
  mlr_Transition :: MinioBucketLifecycleTransition

definition MinioBucketLifecycleRule_DeepCopyInto ::
  "('m, 'l) metaLib \<Rightarrow> MinioBucketLifecycleRuleM \<Rightarrow> MinioBucketLifecycleRuleM alloc" where
  "MinioBucketLifecycleRule_DeepCopyInto M i = do {
     let out = i;
     let out = out\<lparr>mlr_AbortIncompleteMultipartUpload := mlr_AbortIncompleteMultipartUpload i\<rparr>;
     v \<leftarrow> MinioBucketLifecycleExpiration_DeepCopyInto M (mlr_Expiration i);
     let out = out\<lparr>mlr_Expiration := v\<rparr>;
     let out = out\<lparr>mlr_DelMarkerExpiration := mlr_DelMarkerExpiration i\<rparr>;
     v \<leftarrow> MinioBucketLifecycleFilter_DeepCopyInto (mlr_RuleFilter i);
     let out = out\<lparr>mlr_RuleFilter := v\<rparr>;
     let out = out\<lparr>mlr_NoncurrentVersionExpiration := mlr_NoncurrentVersionExpiration i\<rparr>;
     let out = out\<lparr>mlr_NoncurrentVersionTransition := mlr_NoncurrentVersionTransition i\<rparr>;
     v \<leftarrow> MinioBucketLifecycleTransition_DeepCopyInto M (mlr_Transition i);
     let out = out\<lparr>mlr_Transition := v\<rparr>;
     State_Monad.return out}"

definition erase_MinioBucketLifecycleRule ::
  "MinioBucketLifecycleRuleM \<Rightarrow> MinioBucketLifecycleRule" where
  "erase_MinioBucketLifecycleRule x = \<lparr>lr_AbortIncompleteMultipartUpload = mlr_AbortIncompleteMultipartUpload x,
     lr_Expiration = mlr_Expiration x,
     lr_DelMarkerExpiration = mlr_DelMarkerExpiration x,
     lr_ID = mlr_ID x,
     lr_RuleFilter = erase_MinioBucketLifecycleFilter (mlr_RuleFilter x),
     lr_NoncurrentVersionExpiration = mlr_NoncurrentVersionExpiration x,
     lr_NoncurrentVersionTransition = mlr_NoncurrentVersionTransition x,
     lr_Prefix = mlr_Prefix x,
     lr_Status = mlr_Status x,
     lr_Transition = mlr_Transition x\<rparr>"

definition addrs_MinioBucketLifecycleRule ::
  "MinioBucketLifecycleRuleM \<Rightarrow> nat list" where
  "addrs_MinioBucketLifecycleRule x = addrs_MinioBucketLifecycleFilter (mlr_RuleFilter x)"

lemma MinioBucketLifecycleRule_deepCopies [deep_copies]:
  "metaLaws M em ma el la \<Longrightarrow> deepCopies (MinioBucketLifecycleRule_DeepCopyInto M)
     erase_MinioBucketLifecycleRule addrs_MinioBucketLifecycleRule"
  unfolding MinioBucketLifecycleRule_DeepCopyInto_def Let_def
  by (rule deepCopiesI) (auto simp: erase_MinioBucketLifecycleRule_def addrs_MinioBucketLifecycleRule_def
      intro!: makes_copy makes_return deep_copies)

definition MinioBucketLifecycleRule_DeepCopy ::
  "('m, 'l) metaLib \<Rightarrow> MinioBucketLifecycleRuleM ptr \<Rightarrow> MinioBucketLifecycleRuleM ptr alloc" where
  "MinioBucketLifecycleRule_DeepCopy M i = copyPtr (MinioBucketLifecycleRule_DeepCopyInto M) i"

record MinioBucketLifecycleConfigurationM =
  mlc_Rules :: "MinioBucketLifecycleRuleM block"

definition MinioBucketLifecycleConfiguration_DeepCopyInto ::
  "('m, 'l) metaLib \<Rightarrow> MinioBucketLifecycleConfigurationM \<Rightarrow> MinioBucketLifecycleConfigurationM alloc" where
  "MinioBucketLifecycleConfiguration_DeepCopyInto M i = do {
     let out = i;
     v \<leftarrow> copyBlock (MinioBucketLifecycleRule_DeepCopyInto M) (mlc_Rules i);
     let out = out\<lparr>mlc_Rules := v\<rparr>;
     State_Monad.return out}"

definition erase_MinioBucketLifecycleConfiguration ::
  "MinioBucketLifecycleConfigurationM \<Rightarrow> MinioBucketLifecycleConfiguration" where
  "erase_MinioBucketLifecycleConfiguration x = \<lparr>lc_Rules = eraseBlock erase_MinioBucketLifecycleRule (mlc_Rules x)\<rparr>"

definition addrs_MinioBucketLifecycleConfiguration ::
  "MinioBucketLifecycleConfigurationM \<Rightarrow> nat list" where
  "addrs_MinioBucketLifecycleConfiguration x = addrsBlock addrs_MinioBucketLifecycleRule (mlc_Rules x)"

lemma MinioBucketLifecycleConfiguration_deepCopies [deep_copies]:
  "metaLaws M em ma el la \<Longrightarrow> deepCopies (MinioBucketLifecycleConfiguration_DeepCopyInto M)
     erase_MinioBucketLifecycleConfiguration addrs_MinioBucketLifecycleConfiguration"
  unfolding MinioBucketLifecycleConfiguration_DeepCopyInto_def Let_def
  by (rule deepCopiesI) (auto simp: erase_MinioBucketLifecycleConfiguration_def addrs_MinioBucketLifecycleConfiguration_def
      intro!: makes_copy makes_return deep_copies)

definition MinioBucketLifecycleConfiguration_DeepCopy ::
  "('m, 'l) metaLib \<Rightarrow> MinioBucketLifecycleConfigurationM ptr \<Rightarrow> MinioBucketLifecycleConfigurationM ptr alloc" where
  "MinioBucketLifecycleConfiguration_DeepCopy M i = copyPtr (MinioBucketLifecycleConfiguration_DeepCopyInto M) i"

definition MinioBucketVersioningExcludedPrefix_DeepCopyInto ::
  "MinioBucketVersioningExcludedPrefix \<Rightarrow> MinioBucketVersioningExcludedPrefix alloc" where
  "MinioBucketVersioningExcludedPrefix_DeepCopyInto i = State_Monad.return i"

lemma MinioBucketVersioningExcludedPrefix_deepCopies [deep_copies]:
  "deepCopies MinioBucketVersioningExcludedPrefix_DeepCopyInto (\<lambda>x. x) noAddrs"
  by (simp add: MinioBucketVersioningExcludedPrefix_DeepCopyInto_def deepCopies_def makes_return)

definition MinioBucketVersioningExcludedPrefix_DeepCopy ::
  "MinioBucketVersioningExcludedPrefix ptr \<Rightarrow> MinioBucketVersioningExcludedPrefix ptr alloc" where
  "MinioBucketVersioningExcludedPrefix_DeepCopy i = copyPtr MinioBucketVersioningExcludedPrefix_DeepCopyInto i"

record MinioBucketVersioningConfigurationM =
  mvc_Status :: string
  mvc_MFADelete :: string
  mvc_ExcludedPrefixes :: "MinioBucketVersioningExcludedPrefix block"
  mvc_ExcludeFolders :: bool

definition MinioBucketVersioningConfiguration_DeepCopyInto ::
  "MinioBucketVersioningConfigurationM \<Rightarrow> MinioBucketVersioningConfigurationM alloc" where
  "MinioBucketVersioningConfiguration_DeepCopyInto i = do {
     let out = i;
     v \<leftarrow> copyBlock State_Monad.return (mvc_ExcludedPrefixes i);
     let out = out\<lparr>mvc_ExcludedPrefixes := v\<rparr>;
     State_Monad.return out}"

definition erase_MinioBucketVersioningConfiguration ::
  "MinioBucketVersioningConfigurationM \<Rightarrow> MinioBucketVersioningConfiguration" where
  "erase_MinioBucketVersioningConfiguration x = \<lparr>vc_Status = mvc_Status x,
     vc_MFADelete = mvc_MFADelete x,
     vc_ExcludedPrefixes = eraseBlock (\<lambda>x. x) (mvc_ExcludedPrefixes x),
     vc_ExcludeFolders = mvc_ExcludeFolders x\<rparr>"

definition addrs_MinioBucketVersioningConfiguration ::
  "MinioBucketVersioningConfigurationM \<Rightarrow> nat list" where
  "addrs_MinioBucketVersioningConfiguration x = addrsBlock noAddrs (mvc_ExcludedPrefixes x)"

lemma MinioBucketVersioningConfiguration_deepCopies [deep_copies]:
  "deepCopies MinioBucketVersioningConfiguration_DeepCopyInto
     erase_MinioBucketVersioningConfiguration addrs_MinioBucketVersioningConfiguration"
  unfolding MinioBucketVersioningConfiguration_DeepCopyInto_def Let_def
  by (rule deepCopiesI) (auto simp: erase_MinioBucketVersioningConfiguration_def addrs_MinioBucketVersioningConfiguration_def
      intro!: makes_copy makes_return deep_copies)

definition MinioBucketVersioningConfiguration_DeepCopy ::
  "MinioBucketVersioningConfigurationM ptr \<Rightarrow> MinioBucketVersioningConfigurationM ptr alloc" where
  "MinioBucketVersioningConfiguration_DeepCopy i = copyPtr MinioBucketVersioningConfiguration_DeepCopyInto i"

record MinioBucketSpecM =
  mbs_DeletionPolicy :: string
  mbs_Lifecycle :: "MinioBucketLifecycleConfigurationM ptr"
  mbs_Migrate :: bool
  mbs_Name :: string
  mbs_TenantRef :: ResourceRef
  mbs_Versioning :: "MinioBucketVersioningConfigurationM ptr"

definition MinioBucketSpec_DeepCopyInto ::
  "('m, 'l) metaLib \<Rightarrow> MinioBucketSpecM \<Rightarrow> MinioBucketSpecM alloc" where
  "MinioBucketSpec_DeepCopyInto M i = do {
     let out = i;
     v \<leftarrow> copyPtr (MinioBucketLifecycleConfiguration_DeepCopyInto M) (mbs_Lifecycle i);
     let out = out\<lparr>mbs_Lifecycle := v\<rparr>;
     let out = out\<lparr>mbs_TenantRef := mbs_TenantRef i\<rparr>;
     v \<leftarrow> copyPtr MinioBucketVersioningConfiguration_DeepCopyInto (mbs_Versioning i);
     let out = out\<lparr>mbs_Versioning := v\<rparr>;
     State_Monad.return out}"

definition erase_MinioBucketSpec ::
  "MinioBucketSpecM \<Rightarrow> MinioBucketSpec" where
  "erase_MinioBucketSpec x = \<lparr>bs_DeletionPolicy = mbs_DeletionPolicy x,
     bs_Lifecycle = erasePtr erase_MinioBucketLifecycleConfiguration (mbs_Lifecycle x),
     bs_Migrate = mbs_Migrate x,
     bs_Name = mbs_Name x,
     bs_TenantRef = mbs_TenantRef x,
     bs_Versioning = erasePtr erase_MinioBucketVersioningConfiguration (mbs_Versioning x)\<rparr>"

definition addrs_MinioBucketSpec ::
  "MinioBucketSpecM \<Rightarrow> nat list" where
  "addrs_MinioBucketSpec x = addrsPtr addrs_MinioBucketLifecycleConfiguration (mbs_Lifecycle x) @ addrsPtr addrs_MinioBucketVersioningConfiguration (mbs_Versioning x)"

lemma MinioBucketSpec_deepCopies [deep_copies]:
  "metaLaws M em ma el la \<Longrightarrow> deepCopies (MinioBucketSpec_DeepCopyInto M)
     erase_MinioBucketSpec addrs_MinioBucketSpec"
  unfolding MinioBucketSpec_DeepCopyInto_def Let_def
  by (rule deepCopiesI) (auto simp: erase_MinioBucketSpec_def addrs_MinioBucketSpec_def
      intro!: makes_copy makes_return deep_copies)

definition MinioBucketSpec_DeepCopy ::
  "('m, 'l) metaLib \<Rightarrow> MinioBucketSpecM ptr \<Rightarrow> MinioBucketSpecM ptr alloc" where
  "MinioBucketSpec_DeepCopy M i = copyPtr (MinioBucketSpec_DeepCopyInto M) i"

record MinioBucketStatusM =
  mbst_Synced :: "bool ptr"
  mbst_CurrentSpec :: "MinioBucketSpecM ptr"

definition MinioBucketStatus_DeepCopyInto ::
  "('m, 'l) metaLib \<Rightarrow> MinioBucketStatusM \<Rightarrow> MinioBucketStatusM alloc" where
  "MinioBucketStatus_DeepCopyInto M i = do {
     let out = i;
     v \<leftarrow> copyPtr State_Monad.return (mbst_Synced i);
     let out = out\<lparr>mbst_Synced := v\<rparr>;
     v \<leftarrow> copyPtr (MinioBucketSpec_DeepCopyInto M) (mbst_CurrentSpec i);
     let out = out\<lparr>mbst_CurrentSpec := v\<rparr>;
     State_Monad.return out}"

definition erase_MinioBucketStatus ::
  "MinioBucketStatusM \<Rightarrow> MinioBucketStatus" where
  "erase_MinioBucketStatus x = \<lparr>bst_Synced = erasePtr (\<lambda>x. x) (mbst_Synced x),
     bst_CurrentSpec = erasePtr erase_MinioBucketSpec (mbst_CurrentSpec x)\<rparr>"

definition addrs_MinioBucketStatus ::
  "MinioBucketStatusM \<Rightarrow> nat list" where
  "addrs_MinioBucketStatus x = addrsPtr noAddrs (mbst_Synced x) @ addrsPtr addrs_MinioBucketSpec (mbst_CurrentSpec x)"

lemma MinioBucketStatus_deepCopies [deep_copies]:
  "metaLaws M em ma el la \<Longrightarrow> deepCopies (MinioBucketStatus_DeepCopyInto M)
     erase_MinioBucketStatus addrs_MinioBucketStatus"
  unfolding MinioBucketStatus_DeepCopyInto_def Let_def
  by (rule deepCopiesI) (auto simp: erase_MinioBucketStatus_def addrs_MinioBucketStatus_def
      intro!: makes_copy makes_return deep_copies)

definition MinioBucketStatus_DeepCopy ::
  "('m, 'l) metaLib \<Rightarrow> MinioBucketStatusM ptr \<Rightarrow> MinioBucketStatusM ptr alloc" where
  "MinioBucketStatus_DeepCopy M i = copyPtr (MinioBucketStatus_DeepCopyInto M) i"

record 'm MinioBucketM =
  mb_TypeMeta :: TypeMeta
  mb_ObjectMeta :: 'm
  mb_Spec :: MinioBucketSpecM
  mb_Status :: MinioBucketStatusM

definition MinioBucket_DeepCopyInto ::
  "('m, 'l) metaLib \<Rightarrow> 'm MinioBucketM \<Rightarrow> 'm MinioBucketM alloc" where
  "MinioBucket_DeepCopyInto M i = do {
     let out = i;
     let out = out\<lparr>mb_TypeMeta := mb_TypeMeta i\<rparr>;
     v \<leftarrow> metaObjectMeta_DeepCopyInto M (mb_ObjectMeta i);
     let out = out\<lparr>mb_ObjectMeta := v\<rparr>;
     v \<leftarrow> MinioBucketSpec_DeepCopyInto M (mb_Spec i);
     let out = out\<lparr>mb_Spec := v\<rparr>;
     v \<leftarrow> MinioBucketStatus_DeepCopyInto M (mb_Status i);
     let out = out\<lparr>mb_Status := v\<rparr>;
     State_Monad.return out}"

definition erase_MinioBucket ::
  "('m \<Rightarrow> ObjectMeta) \<Rightarrow> 'm MinioBucketM \<Rightarrow> MinioBucket" where
  "erase_MinioBucket em x = \<lparr>b_TypeMeta = mb_TypeMeta x,
     b_ObjectMeta = em (mb_ObjectMeta x),
     b_Spec = erase_MinioBucketSpec (mb_Spec x),
     b_Status = erase_MinioBucketStatus (mb_Status x)\<rparr>"

definition addrs_MinioBucket ::
  "('m \<Rightarrow> nat list) \<Rightarrow> 'm MinioBucketM \<Rightarrow> nat list" where
  "addrs_MinioBucket ma x = ma (mb_ObjectMeta x) @ addrs_MinioBucketSpec (mb_Spec x) @ addrs_MinioBucketStatus (mb_Status x)"

lemma MinioBucket_deepCopies [deep_copies]:
  "metaLaws M em ma el la \<Longrightarrow> deepCopies (MinioBucket_DeepCopyInto M)
     (erase_MinioBucket em) (addrs_MinioBucket ma)"
  unfolding MinioBucket_DeepCopyInto_def Let_def
  by (rule deepCopiesI) (auto simp: erase_MinioBucket_def addrs_MinioBucket_def
      intro!: makes_copy makes_return deep_copies)

definition MinioBucket_DeepCopy ::
  "('m, 'l) metaLib \<Rightarrow> 'm MinioBucketM ptr \<Rightarrow> 'm MinioBucketM ptr alloc" where
  "MinioBucket_DeepCopy M i = copyPtr (MinioBucket_DeepCopyInto M) i"

definition MinioBucket_DeepCopyObject ::
  "('m, 'l) metaLib \<Rightarrow> 'm MinioBucketM ptr \<Rightarrow> 'm MinioBucketM ptr option alloc" where
  "MinioBucket_DeepCopyObject M i = asObject (MinioBucket_DeepCopy M i)"

type_synonym ('m, 'l) MinioBucketListM = "('l, 'm MinioBucketM) resourceListM"

definition MinioBucketList_DeepCopyInto :: "('m, 'l) metaLib \<Rightarrow> ('m, 'l) MinioBucketListM \<Rightarrow> ('m, 'l) MinioBucketListM alloc" where
  "MinioBucketList_DeepCopyInto M i = resourceList_DeepCopyInto M (MinioBucket_DeepCopyInto M) i"

lemma MinioBucketList_deepCopies [deep_copies]:
  "metaLaws M em ma el la \<Longrightarrow> deepCopies (MinioBucketList_DeepCopyInto M)
     (erase_resourceList el (erase_MinioBucket em)) (addrs_resourceList la (addrs_MinioBucket ma))"
  unfolding MinioBucketList_DeepCopyInto_def by (intro resourceList_deepCopies deep_copies)

definition MinioBucketList_DeepCopy ::
  "('m, 'l) metaLib \<Rightarrow> ('m, 'l) MinioBucketListM ptr \<Rightarrow> ('m, 'l) MinioBucketListM ptr alloc" where
  "MinioBucketList_DeepCopy M i = copyPtr (MinioBucketList_DeepCopyInto M) i"

definition MinioBucketList_DeepCopyObject ::
  "('m, 'l) metaLib \<Rightarrow> ('m, 'l) MinioBucketListM ptr \<Rightarrow> ('m, 'l) MinioBucketListM ptr option alloc" where
  "MinioBucketList_DeepCopyObject M i = asObject (MinioBucketList_DeepCopy M i)"

section \<open>MinioGroup\<close>

definition MinioGroupSpec_DeepCopyInto ::
  "MinioGroupSpec \<Rightarrow> MinioGroupSpec alloc" where
  "MinioGroupSpec_DeepCopyInto i = do {
     let out = i;
     let out = out\<lparr>gs_TenantRef := gs_TenantRef i\<rparr>;
     State_Monad.return out}"

lemma MinioGroupSpec_deepCopies [deep_copies]:
  "deepCopies MinioGroupSpec_DeepCopyInto (\<lambda>x. x) noAddrs"
  by (simp add: MinioGroupSpec_DeepCopyInto_def deepCopies_def makes_return)

definition MinioGroupSpec_DeepCopy ::
  "MinioGroupSpec ptr \<Rightarrow> MinioGroupSpec ptr alloc" where
  "MinioGroupSpec_DeepCopy i = copyPtr MinioGroupSpec_DeepCopyInto i"

record MinioGroupStatusM =
  mgst_Synced :: "bool ptr"
  mgst_CurrentSpec :: "MinioGroupSpec ptr"

definition MinioGroupStatus_DeepCopyInto ::
  "MinioGroupStatusM \<Rightarrow> MinioGroupStatusM alloc" where
  "MinioGroupStatus_DeepCopyInto i = do {
     let out = i;
     v \<leftarrow> copyPtr State_Monad.return (mgst_Synced i);
     let out = out\<lparr>mgst_Synced := v\<rparr>;
     v \<leftarrow> copyPtr State_Monad.return (mgst_CurrentSpec i);
     let out = out\<lparr>mgst_CurrentSpec := v\<rparr>;
     State_Monad.return out}"

definition erase_MinioGroupStatus ::
  "MinioGroupStatusM \<Rightarrow> MinioGroupStatus" where
  "erase_MinioGroupStatus x = \<lparr>gst_Synced = erasePtr (\<lambda>x. x) (mgst_Synced x),
     gst_CurrentSpec = erasePtr (\<lambda>x. x) (mgst_CurrentSpec x)\<rparr>"

definition addrs_MinioGroupStatus ::
  "MinioGroupStatusM \<Rightarrow> nat list" where
  "addrs_MinioGroupStatus x = addrsPtr noAddrs (mgst_Synced x) @ addrsPtr noAddrs (mgst_CurrentSpec x)"

lemma MinioGroupStatus_deepCopies [deep_copies]:
  "deepCopies MinioGroupStatus_DeepCopyInto
     erase_MinioGroupStatus addrs_MinioGroupStatus"
  unfolding MinioGroupStatus_DeepCopyInto_def Let_def
  by (rule deepCopiesI) (auto simp: erase_MinioGroupStatus_def addrs_MinioGroupStatus_def
      intro!: makes_copy makes_return deep_copies)

definition MinioGroupStatus_DeepCopy ::
  "MinioGroupStatusM ptr \<Rightarrow> MinioGroupStatusM ptr alloc" where
  "MinioGroupStatus_DeepCopy i = copyPtr MinioGroupStatus_DeepCopyInto i"

record 'm MinioGroupM =
  mg_TypeMeta :: TypeMeta
  mg_ObjectMeta :: 'm
  mg_Spec :: MinioGroupSpec
  mg_Status :: MinioGroupStatusM

definition MinioGroup_DeepCopyInto ::
  "('m, 'l) metaLib \<Rightarrow> 'm MinioGroupM \<Rightarrow> 'm MinioGroupM alloc" where
  "MinioGroup_DeepCopyInto M i = do {
     let out = i;
     let out = out\<lparr>mg_TypeMeta := mg_TypeMeta i\<rparr>;
     v \<leftarrow> metaObjectMeta_DeepCopyInto M (mg_ObjectMeta i);
     let out = out\<lparr>mg_ObjectMeta := v\<rparr>;
     let out = out\<lparr>mg_Spec := mg_Spec i\<rparr>;
     v \<leftarrow> MinioGroupStatus_DeepCopyInto (mg_Status i);
     let out = out\<lparr>mg_Status := v\<rparr>;
     State_Monad.return out}"

definition erase_MinioGroup ::
  "('m \<Rightarrow> ObjectMeta) \<Rightarrow> 'm MinioGroupM \<Rightarrow> MinioGroup" where
  "erase_MinioGroup em x = \<lparr>g_TypeMeta = mg_TypeMeta x,
     g_ObjectMeta = em (mg_ObjectMeta x),
     g_Spec = mg_Spec x,
     g_Status = erase_MinioGroupStatus (mg_Status x)\<rparr>"

definition addrs_MinioGroup ::
  "('m \<Rightarrow> nat list) \<Rightarrow> 'm MinioGroupM \<Rightarrow> nat list" where
  "addrs_MinioGroup ma x = ma (mg_ObjectMeta x) @ addrs_MinioGroupStatus (mg_Status x)"

lemma MinioGroup_deepCopies [deep_copies]:
  "metaLaws M em ma el la \<Longrightarrow> deepCopies (MinioGroup_DeepCopyInto M)
     (erase_MinioGroup em) (addrs_MinioGroup ma)"
  unfolding MinioGroup_DeepCopyInto_def Let_def
  by (rule deepCopiesI) (auto simp: erase_MinioGroup_def addrs_MinioGroup_def
      intro!: makes_copy makes_return deep_copies)

definition MinioGroup_DeepCopy ::
  "('m, 'l) metaLib \<Rightarrow> 'm MinioGroupM ptr \<Rightarrow> 'm MinioGroupM ptr alloc" where
  "MinioGroup_DeepCopy M i = copyPtr (MinioGroup_DeepCopyInto M) i"

definition MinioGroup_DeepCopyObject ::
  "('m, 'l) metaLib \<Rightarrow> 'm MinioGroupM ptr \<Rightarrow> 'm MinioGroupM ptr option alloc" where
  "MinioGroup_DeepCopyObject M i = asObject (MinioGroup_DeepCopy M i)"

type_synonym ('m, 'l) MinioGroupListM = "('l, 'm MinioGroupM) resourceListM"

definition MinioGroupList_DeepCopyInto :: "('m, 'l) metaLib \<Rightarrow> ('m, 'l) MinioGroupListM \<Rightarrow> ('m, 'l) MinioGroupListM alloc" where
  "MinioGroupList_DeepCopyInto M i = resourceList_DeepCopyInto M (MinioGroup_DeepCopyInto M) i"

lemma MinioGroupList_deepCopies [deep_copies]:
  "metaLaws M em ma el la \<Longrightarrow> deepCopies (MinioGroupList_DeepCopyInto M)
     (erase_resourceList el (erase_MinioGroup em)) (addrs_resourceList la (addrs_MinioGroup ma))"
  unfolding MinioGroupList_DeepCopyInto_def by (intro resourceList_deepCopies deep_copies)

definition MinioGroupList_DeepCopy ::
  "('m, 'l) metaLib \<Rightarrow> ('m, 'l) MinioGroupListM ptr \<Rightarrow> ('m, 'l) MinioGroupListM ptr alloc" where
  "MinioGroupList_DeepCopy M i = copyPtr (MinioGroupList_DeepCopyInto M) i"

definition MinioGroupList_DeepCopyObject ::
  "('m, 'l) metaLib \<Rightarrow> ('m, 'l) MinioGroupListM ptr \<Rightarrow> ('m, 'l) MinioGroupListM ptr option alloc" where
  "MinioGroupList_DeepCopyObject M i = asObject (MinioGroupList_DeepCopy M i)"

section \<open>MinioGroupBinding\<close>

definition MinioGroupBindingSpec_DeepCopyInto ::
  "MinioGroupBindingSpec \<Rightarrow> MinioGroupBindingSpec alloc" where
  "MinioGroupBindingSpec_DeepCopyInto i = do {
     let out = i;
     let out = out\<lparr>gbs_TenantRef := gbs_TenantRef i\<rparr>;
     State_Monad.return out}"

lemma MinioGroupBindingSpec_deepCopies [deep_copies]:
  "deepCopies MinioGroupBindingSpec_DeepCopyInto (\<lambda>x. x) noAddrs"
  by (simp add: MinioGroupBindingSpec_DeepCopyInto_def deepCopies_def makes_return)

definition MinioGroupBindingSpec_DeepCopy ::
  "MinioGroupBindingSpec ptr \<Rightarrow> MinioGroupBindingSpec ptr alloc" where
  "MinioGroupBindingSpec_DeepCopy i = copyPtr MinioGroupBindingSpec_DeepCopyInto i"

record MinioGroupBindingStatusM =
  mgbst_Synced :: "bool ptr"
  mgbst_CurrentSpec :: "MinioGroupBindingSpec ptr"

definition MinioGroupBindingStatus_DeepCopyInto ::
  "MinioGroupBindingStatusM \<Rightarrow> MinioGroupBindingStatusM alloc" where
  "MinioGroupBindingStatus_DeepCopyInto i = do {
     let out = i;
     v \<leftarrow> copyPtr State_Monad.return (mgbst_Synced i);
     let out = out\<lparr>mgbst_Synced := v\<rparr>;
     v \<leftarrow> copyPtr State_Monad.return (mgbst_CurrentSpec i);
     let out = out\<lparr>mgbst_CurrentSpec := v\<rparr>;
     State_Monad.return out}"

definition erase_MinioGroupBindingStatus ::
  "MinioGroupBindingStatusM \<Rightarrow> MinioGroupBindingStatus" where
  "erase_MinioGroupBindingStatus x = \<lparr>gbst_Synced = erasePtr (\<lambda>x. x) (mgbst_Synced x),
     gbst_CurrentSpec = erasePtr (\<lambda>x. x) (mgbst_CurrentSpec x)\<rparr>"

definition addrs_MinioGroupBindingStatus ::
  "MinioGroupBindingStatusM \<Rightarrow> nat list" where
  "addrs_MinioGroupBindingStatus x = addrsPtr noAddrs (mgbst_Synced x) @ addrsPtr noAddrs (mgbst_CurrentSpec x)"

lemma MinioGroupBindingStatus_deepCopies [deep_copies]:
  "deepCopies MinioGroupBindingStatus_DeepCopyInto
     erase_MinioGroupBindingStatus addrs_MinioGroupBindingStatus"
  unfolding MinioGroupBindingStatus_DeepCopyInto_def Let_def
  by (rule deepCopiesI) (auto simp: erase_MinioGroupBindingStatus_def addrs_MinioGroupBindingStatus_def
      intro!: makes_copy makes_return deep_copies)

definition MinioGroupBindingStatus_DeepCopy ::
  "MinioGroupBindingStatusM ptr \<Rightarrow> MinioGroupBindingStatusM ptr alloc" where
  "MinioGroupBindingStatus_DeepCopy i = copyPtr MinioGroupBindingStatus_DeepCopyInto i"

record 'm MinioGroupBindingM =
  mgb_TypeMeta :: TypeMeta
  mgb_ObjectMeta :: 'm
  mgb_Spec :: MinioGroupBindingSpec
  mgb_Status :: MinioGroupBindingStatusM

definition MinioGroupBinding_DeepCopyInto ::
  "('m, 'l) metaLib \<Rightarrow> 'm MinioGroupBindingM \<Rightarrow> 'm MinioGroupBindingM alloc" where
  "MinioGroupBinding_DeepCopyInto M i = do {
     let out = i;
     let out = out\<lparr>mgb_TypeMeta := mgb_TypeMeta i\<rparr>;
     v \<leftarrow> metaObjectMeta_DeepCopyInto M (mgb_ObjectMeta i);
     let out = out\<lparr>mgb_ObjectMeta := v\<rparr>;
     let out = out\<lparr>mgb_Spec := mgb_Spec i\<rparr>;
     v \<leftarrow> MinioGroupBindingStatus_DeepCopyInto (mgb_Status i);
     let out = out\<lparr>mgb_Status := v\<rparr>;
     State_Monad.return out}"

definition erase_MinioGroupBinding ::
  "('m \<Rightarrow> ObjectMeta) \<Rightarrow> 'm MinioGroupBindingM \<Rightarrow> MinioGroupBinding" where
  "erase_MinioGroupBinding em x = \<lparr>gb_TypeMeta = mgb_TypeMeta x,
     gb_ObjectMeta = em (mgb_ObjectMeta x),
     gb_Spec = mgb_Spec x,
     gb_Status = erase_MinioGroupBindingStatus (mgb_Status x)\<rparr>"

definition addrs_MinioGroupBinding ::
  "('m \<Rightarrow> nat list) \<Rightarrow> 'm MinioGroupBindingM \<Rightarrow> nat list" where
  "addrs_MinioGroupBinding ma x = ma (mgb_ObjectMeta x) @ addrs_MinioGroupBindingStatus (mgb_Status x)"

lemma MinioGroupBinding_deepCopies [deep_copies]:
  "metaLaws M em ma el la \<Longrightarrow> deepCopies (MinioGroupBinding_DeepCopyInto M)
     (erase_MinioGroupBinding em) (addrs_MinioGroupBinding ma)"
  unfolding MinioGroupBinding_DeepCopyInto_def Let_def
  by (rule deepCopiesI) (auto simp: erase_MinioGroupBinding_def addrs_MinioGroupBinding_def
      intro!: makes_copy makes_return deep_copies)

definition MinioGroupBinding_DeepCopy ::
  "('m, 'l) metaLib \<Rightarrow> 'm MinioGroupBindingM ptr \<Rightarrow> 'm MinioGroupBindingM ptr alloc" where
  "MinioGroupBinding_DeepCopy M i = copyPtr (MinioGroupBinding_DeepCopyInto M) i"

definition MinioGroupBinding_DeepCopyObject ::
  "('m, 'l) metaLib \<Rightarrow> 'm MinioGroupBindingM ptr \<Rightarrow> 'm MinioGroupBindingM ptr option alloc" where
  "MinioGroupBinding_DeepCopyObject M i = asObject (MinioGroupBinding_DeepCopy M i)"

type_synonym ('m, 'l) MinioGroupBindingListM = "('l, 'm MinioGroupBindingM) resourceListM"

definition MinioGroupBindingList_DeepCopyInto :: "('m, 'l) metaLib \<Rightarrow> ('m, 'l) MinioGroupBindingListM \<Rightarrow> ('m, 'l) MinioGroupBindingListM alloc" where
  "MinioGroupBindingList_DeepCopyInto M i = resourceList_DeepCopyInto M (MinioGroupBinding_DeepCopyInto M) i"

lemma MinioGroupBindingList_deepCopies [deep_copies]:
  "metaLaws M em ma el la \<Longrightarrow> deepCopies (MinioGroupBindingList_DeepCopyInto M)
     (erase_resourceList el (erase_MinioGroupBinding em)) (addrs_resourceList la (addrs_MinioGroupBinding ma))"
  unfolding MinioGroupBindingList_DeepCopyInto_def by (intro resourceList_deepCopies deep_copies)

definition MinioGroupBindingList_DeepCopy ::
  "('m, 'l) metaLib \<Rightarrow> ('m, 'l) MinioGroupBindingListM ptr \<Rightarrow> ('m, 'l) MinioGroupBindingListM ptr alloc" where
  "MinioGroupBindingList_DeepCopy M i = copyPtr (MinioGroupBindingList_DeepCopyInto M) i"

definition MinioGroupBindingList_DeepCopyObject ::
  "('m, 'l) metaLib \<Rightarrow> ('m, 'l) MinioGroupBindingListM ptr \<Rightarrow> ('m, 'l) MinioGroupBindingListM ptr option alloc" where
  "MinioGroupBindingList_DeepCopyObject M i = asObject (MinioGroupBindingList_DeepCopy M i)"

section \<open>MinioPolicy\<close>

record MinioPolicyStatementM =
  mps_Action :: "string block"
  mps_Effect :: string
  mps_Resource :: "string block"

definition MinioPolicyStatement_DeepCopyInto ::
  "MinioPolicyStatementM \<Rightarrow> MinioPolicyStatementM alloc" where
  "MinioPolicyStatement_DeepCopyInto i = do {
     let out = i;
     v \<leftarrow> copyBlock State_Monad.return (mps_Action i);
     let out = out\<lparr>mps_Action := v\<rparr>;
     v \<leftarrow> copyBlock State_Monad.return (mps_Resource i);
     let out = out\<lparr>mps_Resource := v\<rparr>;
     State_Monad.return out}"

definition erase_MinioPolicyStatement ::
  "MinioPolicyStatementM \<Rightarrow> MinioPolicyStatement" where
  "erase_MinioPolicyStatement x = \<lparr>ps_Action = eraseBlock (\<lambda>x. x) (mps_Action x),
     ps_Effect = mps_Effect x,
     ps_Resource = eraseBlock (\<lambda>x. x) (mps_Resource x)\<rparr>"

definition addrs_MinioPolicyStatement ::
  "MinioPolicyStatementM \<Rightarrow> nat list" where
  "addrs_MinioPolicyStatement x = addrsBlock noAddrs (mps_Action x) @ addrsBlock noAddrs (mps_Resource x)"

lemma MinioPolicyStatement_deepCopies [deep_copies]:
  "deepCopies MinioPolicyStatement_DeepCopyInto
     erase_MinioPolicyStatement addrs_MinioPolicyStatement"
  unfolding MinioPolicyStatement_DeepCopyInto_def Let_def
  by (rule deepCopiesI) (auto simp: erase_MinioPolicyStatement_def addrs_MinioPolicyStatement_def
      intro!: makes_copy makes_return deep_copies)

definition MinioPolicyStatement_DeepCopy ::
  "MinioPolicyStatementM ptr \<Rightarrow> MinioPolicyStatementM ptr alloc" where
  "MinioPolicyStatement_DeepCopy i = copyPtr MinioPolicyStatement_DeepCopyInto i"

record MinioPolicySpecM =
  mpos_Migrate :: bool
  mpos_Name :: string
  mpos_Statement :: "MinioPolicyStatementM block"
  mpos_TenantRef :: ResourceRef
  mpos_Version :: string

definition MinioPolicySpec_DeepCopyInto ::
  "MinioPolicySpecM \<Rightarrow> MinioPolicySpecM alloc" where
  "MinioPolicySpec_DeepCopyInto i = do {
     let out = i;
     v \<leftarrow> copyBlock MinioPolicyStatement_DeepCopyInto (mpos_Statement i);
     let out = out\<lparr>mpos_Statement := v\<rparr>;
     let out = out\<lparr>mpos_TenantRef := mpos_TenantRef i\<rparr>;
     State_Monad.return out}"

definition erase_MinioPolicySpec ::
  "MinioPolicySpecM \<Rightarrow> MinioPolicySpec" where
  "erase_MinioPolicySpec x = \<lparr>pos_Migrate = mpos_Migrate x,
     pos_Name = mpos_Name x,
     pos_Statement = eraseBlock erase_MinioPolicyStatement (mpos_Statement x),
     pos_TenantRef = mpos_TenantRef x,
     pos_Version = mpos_Version x\<rparr>"

definition addrs_MinioPolicySpec ::
  "MinioPolicySpecM \<Rightarrow> nat list" where
  "addrs_MinioPolicySpec x = addrsBlock addrs_MinioPolicyStatement (mpos_Statement x)"

lemma MinioPolicySpec_deepCopies [deep_copies]:
  "deepCopies MinioPolicySpec_DeepCopyInto
     erase_MinioPolicySpec addrs_MinioPolicySpec"
  unfolding MinioPolicySpec_DeepCopyInto_def Let_def
  by (rule deepCopiesI) (auto simp: erase_MinioPolicySpec_def addrs_MinioPolicySpec_def
      intro!: makes_copy makes_return deep_copies)

definition MinioPolicySpec_DeepCopy ::
  "MinioPolicySpecM ptr \<Rightarrow> MinioPolicySpecM ptr alloc" where
  "MinioPolicySpec_DeepCopy i = copyPtr MinioPolicySpec_DeepCopyInto i"

record MinioPolicyStatusM =
  mpost_Synced :: "bool ptr"
  mpost_CurrentSpec :: "MinioPolicySpecM ptr"

definition MinioPolicyStatus_DeepCopyInto ::
  "MinioPolicyStatusM \<Rightarrow> MinioPolicyStatusM alloc" where
  "MinioPolicyStatus_DeepCopyInto i = do {
     let out = i;
     v \<leftarrow> copyPtr State_Monad.return (mpost_Synced i);
     let out = out\<lparr>mpost_Synced := v\<rparr>;
     v \<leftarrow> copyPtr MinioPolicySpec_DeepCopyInto (mpost_CurrentSpec i);
     let out = out\<lparr>mpost_CurrentSpec := v\<rparr>;
     State_Monad.return out}"

definition erase_MinioPolicyStatus ::
  "MinioPolicyStatusM \<Rightarrow> MinioPolicyStatus" where
  "erase_MinioPolicyStatus x = \<lparr>post_Synced = erasePtr (\<lambda>x. x) (mpost_Synced x),
     post_CurrentSpec = erasePtr erase_MinioPolicySpec (mpost_CurrentSpec x)\<rparr>"

definition addrs_MinioPolicyStatus ::
  "MinioPolicyStatusM \<Rightarrow> nat list" where
  "addrs_MinioPolicyStatus x = addrsPtr noAddrs (mpost_Synced x) @ addrsPtr addrs_MinioPolicySpec (mpost_CurrentSpec x)"

lemma MinioPolicyStatus_deepCopies [deep_copies]:
  "deepCopies MinioPolicyStatus_DeepCopyInto
     erase_MinioPolicyStatus addrs_MinioPolicyStatus"
  unfolding MinioPolicyStatus_DeepCopyInto_def Let_def
  by (rule deepCopiesI) (auto simp: erase_MinioPolicyStatus_def addrs_MinioPolicyStatus_def
      intro!: makes_copy makes_return deep_copies)

definition MinioPolicyStatus_DeepCopy ::
  "MinioPolicyStatusM ptr \<Rightarrow> MinioPolicyStatusM ptr alloc" where
  "MinioPolicyStatus_DeepCopy i = copyPtr MinioPolicyStatus_DeepCopyInto i"

record 'm MinioPolicyM =
  mpo_TypeMeta :: TypeMeta
  mpo_ObjectMeta :: 'm
  mpo_Spec :: MinioPolicySpecM
  mpo_Status :: MinioPolicyStatusM

definition MinioPolicy_DeepCopyInto ::
  "('m, 'l) metaLib \<Rightarrow> 'm MinioPolicyM \<Rightarrow> 'm MinioPolicyM alloc" where
  "MinioPolicy_DeepCopyInto M i = do {
     let out = i;
     let out = out\<lparr>mpo_TypeMeta := mpo_TypeMeta i\<rparr>;
     v \<leftarrow> metaObjectMeta_DeepCopyInto M (mpo_ObjectMeta i);
     let out = out\<lparr>mpo_ObjectMeta := v\<rparr>;
     v \<leftarrow> MinioPolicySpec_DeepCopyInto (mpo_Spec i);
     let out = out\<lparr>mpo_Spec := v\<rparr>;
     v \<leftarrow> MinioPolicyStatus_DeepCopyInto (mpo_Status i);
     let out = out\<lparr>mpo_Status := v\<rparr>;
     State_Monad.return out}"

definition erase_MinioPolicy ::
  "('m \<Rightarrow> ObjectMeta) \<Rightarrow> 'm MinioPolicyM \<Rightarrow> MinioPolicy" where
  "erase_MinioPolicy em x = \<lparr>p_TypeMeta = mpo_TypeMeta x,
     p_ObjectMeta = em (mpo_ObjectMeta x),
     p_Spec = erase_MinioPolicySpec (mpo_Spec x),
     p_Status = erase_MinioPolicyStatus (mpo_Status x)\<rparr>"

definition addrs_MinioPolicy ::
  "('m \<Rightarrow> nat list) \<Rightarrow> 'm MinioPolicyM \<Rightarrow> nat list" where
  "addrs_MinioPolicy ma x = ma (mpo_ObjectMeta x) @ addrs_MinioPolicySpec (mpo_Spec x) @ addrs_MinioPolicyStatus (mpo_Status x)"

lemma MinioPolicy_deepCopies [deep_copies]:
  "metaLaws M em ma el la \<Longrightarrow> deepCopies (MinioPolicy_DeepCopyInto M)
     (erase_MinioPolicy em) (addrs_MinioPolicy ma)"
  unfolding MinioPolicy_DeepCopyInto_def Let_def
  by (rule deepCopiesI) (auto simp: erase_MinioPolicy_def addrs_MinioPolicy_def
      intro!: makes_copy makes_return deep_copies)

definition MinioPolicy_DeepCopy ::
  "('m, 'l) metaLib \<Rightarrow> 'm MinioPolicyM ptr \<Rightarrow> 'm MinioPolicyM ptr alloc" where
  "MinioPolicy_DeepCopy M i = copyPtr (MinioPolicy_DeepCopyInto M) i"

definition MinioPolicy_DeepCopyObject ::
  "('m, 'l) metaLib \<Rightarrow> 'm MinioPolicyM ptr \<Rightarrow> 'm MinioPolicyM ptr option alloc" where
  "MinioPolicy_DeepCopyObject M i = asObject (MinioPolicy_DeepCopy M i)"

type_synonym ('m, 'l) MinioPolicyListM = "('l, 'm MinioPolicyM) resourceListM"

definition MinioPolicyList_DeepCopyInto :: "('m, 'l) metaLib \<Rightarrow> ('m, 'l) MinioPolicyListM \<Rightarrow> ('m, 'l) MinioPolicyListM alloc" where
  "MinioPolicyList_DeepCopyInto M i = resourceList_DeepCopyInto M (MinioPolicy_DeepCopyInto M) i"

lemma MinioPolicyList_deepCopies [deep_copies]:
  "metaLaws M em ma el la \<Longrightarrow> deepCopies (MinioPolicyList_DeepCopyInto M)
     (erase_resourceList el (erase_MinioPolicy em)) (addrs_resourceList la (addrs_MinioPolicy ma))"
  unfolding MinioPolicyList_DeepCopyInto_def by (intro resourceList_deepCopies deep_copies)

definition MinioPolicyList_DeepCopy ::
  "('m, 'l) metaLib \<Rightarrow> ('m, 'l) MinioPolicyListM ptr \<Rightarrow> ('m, 'l) MinioPolicyListM ptr alloc" where
  "MinioPolicyList_DeepCopy M i = copyPtr (MinioPolicyList_DeepCopyInto M) i"

definition MinioPolicyList_DeepCopyObject ::
  "('m, 'l) metaLib \<Rightarrow> ('m, 'l) MinioPolicyListM ptr \<Rightarrow> ('m, 'l) MinioPolicyListM ptr option alloc" where
  "MinioPolicyList_DeepCopyObject M i = asObject (MinioPolicyList_DeepCopy M i)"

section \<open>MinioPolicyBinding\<close>

definition MinioPolicyBindingIdentity_DeepCopyInto ::
  "MinioPolicyBindingIdentity \<Rightarrow> MinioPolicyBindingIdentity alloc" where
  "MinioPolicyBindingIdentity_DeepCopyInto i = State_Monad.return i"

lemma MinioPolicyBindingIdentity_deepCopies [deep_copies]:
  "deepCopies MinioPolicyBindingIdentity_DeepCopyInto (\<lambda>x. x) noAddrs"
  by (simp add: MinioPolicyBindingIdentity_DeepCopyInto_def deepCopies_def makes_return)

definition MinioPolicyBindingIdentity_DeepCopy ::
  "MinioPolicyBindingIdentity ptr \<Rightarrow> MinioPolicyBindingIdentity ptr alloc" where
  "MinioPolicyBindingIdentity_DeepCopy i = copyPtr MinioPolicyBindingIdentity_DeepCopyInto i"

definition MinioPolicyBindingSpec_DeepCopyInto ::
  "MinioPolicyBindingSpec \<Rightarrow> MinioPolicyBindingSpec alloc" where
  "MinioPolicyBindingSpec_DeepCopyInto i = do {
     let out = i;
     let out = out\<lparr>pbs_Group := pbs_Group i\<rparr>;
     let out = out\<lparr>pbs_TenantRef := pbs_TenantRef i\<rparr>;
     let out = out\<lparr>pbs_User := pbs_User i\<rparr>;
     State_Monad.return out}"

lemma MinioPolicyBindingSpec_deepCopies [deep_copies]:
  "deepCopies MinioPolicyBindingSpec_DeepCopyInto (\<lambda>x. x) noAddrs"
  by (simp add: MinioPolicyBindingSpec_DeepCopyInto_def deepCopies_def makes_return)

definition MinioPolicyBindingSpec_DeepCopy ::
  "MinioPolicyBindingSpec ptr \<Rightarrow> MinioPolicyBindingSpec ptr alloc" where
  "MinioPolicyBindingSpec_DeepCopy i = copyPtr MinioPolicyBindingSpec_DeepCopyInto i"

record MinioPolicyBindingStatusM =
  mpbst_Synced :: "bool ptr"
  mpbst_CurrentSpec :: "MinioPolicyBindingSpec ptr"

definition MinioPolicyBindingStatus_DeepCopyInto ::
  "MinioPolicyBindingStatusM \<Rightarrow> MinioPolicyBindingStatusM alloc" where
  "MinioPolicyBindingStatus_DeepCopyInto i = do {
     let out = i;
     v \<leftarrow> copyPtr State_Monad.return (mpbst_Synced i);
     let out = out\<lparr>mpbst_Synced := v\<rparr>;
     v \<leftarrow> copyPtr State_Monad.return (mpbst_CurrentSpec i);
     let out = out\<lparr>mpbst_CurrentSpec := v\<rparr>;
     State_Monad.return out}"

definition erase_MinioPolicyBindingStatus ::
  "MinioPolicyBindingStatusM \<Rightarrow> MinioPolicyBindingStatus" where
  "erase_MinioPolicyBindingStatus x = \<lparr>pbst_Synced = erasePtr (\<lambda>x. x) (mpbst_Synced x),
     pbst_CurrentSpec = erasePtr (\<lambda>x. x) (mpbst_CurrentSpec x)\<rparr>"

definition addrs_MinioPolicyBindingStatus ::
  "MinioPolicyBindingStatusM \<Rightarrow> nat list" where
  "addrs_MinioPolicyBindingStatus x = addrsPtr noAddrs (mpbst_Synced x) @ addrsPtr noAddrs (mpbst_CurrentSpec x)"

lemma MinioPolicyBindingStatus_deepCopies [deep_copies]:
  "deepCopies MinioPolicyBindingStatus_DeepCopyInto
     erase_MinioPolicyBindingStatus addrs_MinioPolicyBindingStatus"
  unfolding MinioPolicyBindingStatus_DeepCopyInto_def Let_def
  by (rule deepCopiesI) (auto simp: erase_MinioPolicyBindingStatus_def addrs_MinioPolicyBindingStatus_def
      intro!: makes_copy makes_return deep_copies)

definition MinioPolicyBindingStatus_DeepCopy ::
  "MinioPolicyBindingStatusM ptr \<Rightarrow> MinioPolicyBindingStatusM ptr alloc" where
  "MinioPolicyBindingStatus_DeepCopy i = copyPtr MinioPolicyBindingStatus_DeepCopyInto i"

record 'm MinioPolicyBindingM =
  mpb_TypeMeta :: TypeMeta
  mpb_ObjectMeta :: 'm
  mpb_Spec :: MinioPolicyBindingSpec
  mpb_Status :: MinioPolicyBindingStatusM

definition MinioPolicyBinding_DeepCopyInto ::
  "('m, 'l) metaLib \<Rightarrow> 'm MinioPolicyBindingM \<Rightarrow> 'm MinioPolicyBindingM alloc" where
  "MinioPolicyBinding_DeepCopyInto M i = do {
     let out = i;
     let out = out\<lparr>mpb_TypeMeta := mpb_TypeMeta i\<rparr>;
     v \<leftarrow> metaObjectMeta_DeepCopyInto M (mpb_ObjectMeta i);
     let out = out\<lparr>mpb_ObjectMeta := v\<rparr>;
     let out = out\<lparr>mpb_Spec := mpb_Spec i\<rparr>;
     v \<leftarrow> MinioPolicyBindingStatus_DeepCopyInto (mpb_Status i);
     let out = out\<lparr>mpb_Status := v\<rparr>;
     State_Monad.return out}"

definition erase_MinioPolicyBinding ::
  "('m \<Rightarrow> ObjectMeta) \<Rightarrow> 'm MinioPolicyBindingM \<Rightarrow> MinioPolicyBinding" where
  "erase_MinioPolicyBinding em x = \<lparr>pb_TypeMeta = mpb_TypeMeta x,
     pb_ObjectMeta = em (mpb_ObjectMeta x),
     pb_Spec = mpb_Spec x,
     pb_Status = erase_MinioPolicyBindingStatus (mpb_Status x)\<rparr>"

definition addrs_MinioPolicyBinding ::
  "('m \<Rightarrow> nat list) \<Rightarrow> 'm MinioPolicyBindingM \<Rightarrow> nat list" where
  "addrs_MinioPolicyBinding ma x = ma (mpb_ObjectMeta x) @ addrs_MinioPolicyBindingStatus (mpb_Status x)"

lemma MinioPolicyBinding_deepCopies [deep_copies]:
  "metaLaws M em ma el la \<Longrightarrow> deepCopies (MinioPolicyBinding_DeepCopyInto M)
     (erase_MinioPolicyBinding em) (addrs_MinioPolicyBinding ma)"
  unfolding MinioPolicyBinding_DeepCopyInto_def Let_def
  by (rule deepCopiesI) (auto simp: erase_MinioPolicyBinding_def addrs_MinioPolicyBinding_def
      intro!: makes_copy makes_return deep_copies)

definition MinioPolicyBinding_DeepCopy ::
  "('m, 'l) metaLib \<Rightarrow> 'm MinioPolicyBindingM ptr \<Rightarrow> 'm MinioPolicyBindingM ptr alloc" where
  "MinioPolicyBinding_DeepCopy M i = copyPtr (MinioPolicyBinding_DeepCopyInto M) i"

definition MinioPolicyBinding_DeepCopyObject ::
  "('m, 'l) metaLib \<Rightarrow> 'm MinioPolicyBindingM ptr \<Rightarrow> 'm MinioPolicyBindingM ptr option alloc" where
  "MinioPolicyBinding_DeepCopyObject M i = asObject (MinioPolicyBinding_DeepCopy M i)"

type_synonym ('m, 'l) MinioPolicyBindingListM = "('l, 'm MinioPolicyBindingM) resourceListM"

definition MinioPolicyBindingList_DeepCopyInto :: "('m, 'l) metaLib \<Rightarrow> ('m, 'l) MinioPolicyBindingListM \<Rightarrow> ('m, 'l) MinioPolicyBindingListM alloc" where
  "MinioPolicyBindingList_DeepCopyInto M i = resourceList_DeepCopyInto M (MinioPolicyBinding_DeepCopyInto M) i"

lemma MinioPolicyBindingList_deepCopies [deep_copies]:
  "metaLaws M em ma el la \<Longrightarrow> deepCopies (MinioPolicyBindingList_DeepCopyInto M)
     (erase_resourceList el (erase_MinioPolicyBinding em)) (addrs_resourceList la (addrs_MinioPolicyBinding ma))"
  unfolding MinioPolicyBindingList_DeepCopyInto_def by (intro resourceList_deepCopies deep_copies)

definition MinioPolicyBindingList_DeepCopy ::
  "('m, 'l) metaLib \<Rightarrow> ('m, 'l) MinioPolicyBindingListM ptr \<Rightarrow> ('m, 'l) MinioPolicyBindingListM ptr alloc" where
  "MinioPolicyBindingList_DeepCopy M i = copyPtr (MinioPolicyBindingList_DeepCopyInto M) i"

definition MinioPolicyBindingList_DeepCopyObject ::
  "('m, 'l) metaLib \<Rightarrow> ('m, 'l) MinioPolicyBindingListM ptr \<Rightarrow> ('m, 'l) MinioPolicyBindingListM ptr option alloc" where
  "MinioPolicyBindingList_DeepCopyObject M i = asObject (MinioPolicyBindingList_DeepCopy M i)"

section \<open>MinioUser\<close>

definition MinioUserSpec_DeepCopyInto ::
  "MinioUserSpec \<Rightarrow> MinioUserSpec alloc" where
  "MinioUserSpec_DeepCopyInto i = do {
     let out = i;
     let out = out\<lparr>us_AccessKeyRef := us_AccessKeyRef i\<rparr>;
     let out = out\<lparr>us_SecretKeyRef := us_SecretKeyRef i\<rparr>;
     let out = out\<lparr>us_TenantRef := us_TenantRef i\<rparr>;
     State_Monad.return out}"

lemma MinioUserSpec_deepCopies [deep_copies]:
  "deepCopies MinioUserSpec_DeepCopyInto (\<lambda>x. x) noAddrs"
  by (simp add: MinioUserSpec_DeepCopyInto_def deepCopies_def makes_return)

definition MinioUserSpec_DeepCopy ::
  "MinioUserSpec ptr \<Rightarrow> MinioUserSpec ptr alloc" where
  "MinioUserSpec_DeepCopy i = copyPtr MinioUserSpec_DeepCopyInto i"

record MinioUserStatusM =
  must_Synced :: "bool ptr"
  must_CurrentSpec :: "MinioUserSpec ptr"
  must_CurrentSecretKeyRefResourceVersion :: string

definition MinioUserStatus_DeepCopyInto ::
  "MinioUserStatusM \<Rightarrow> MinioUserStatusM alloc" where
  "MinioUserStatus_DeepCopyInto i = do {
     let out = i;
     v \<leftarrow> copyPtr State_Monad.return (must_Synced i);
     let out = out\<lparr>must_Synced := v\<rparr>;
     v \<leftarrow> copyPtr State_Monad.return (must_CurrentSpec i);
     let out = out\<lparr>must_CurrentSpec := v\<rparr>;
     State_Monad.return out}"

definition erase_MinioUserStatus ::
  "MinioUserStatusM \<Rightarrow> MinioUserStatus" where
  "erase_MinioUserStatus x = \<lparr>ust_Synced = erasePtr (\<lambda>x. x) (must_Synced x),
     ust_CurrentSpec = erasePtr (\<lambda>x. x) (must_CurrentSpec x),
     ust_CurrentSecretKeyRefResourceVersion = must_CurrentSecretKeyRefResourceVersion x\<rparr>"

definition addrs_MinioUserStatus ::
  "MinioUserStatusM \<Rightarrow> nat list" where
  "addrs_MinioUserStatus x = addrsPtr noAddrs (must_Synced x) @ addrsPtr noAddrs (must_CurrentSpec x)"

lemma MinioUserStatus_deepCopies [deep_copies]:
  "deepCopies MinioUserStatus_DeepCopyInto
     erase_MinioUserStatus addrs_MinioUserStatus"
  unfolding MinioUserStatus_DeepCopyInto_def Let_def
  by (rule deepCopiesI) (auto simp: erase_MinioUserStatus_def addrs_MinioUserStatus_def
      intro!: makes_copy makes_return deep_copies)

definition MinioUserStatus_DeepCopy ::
  "MinioUserStatusM ptr \<Rightarrow> MinioUserStatusM ptr alloc" where
  "MinioUserStatus_DeepCopy i = copyPtr MinioUserStatus_DeepCopyInto i"

record 'm MinioUserM =
  mu_TypeMeta :: TypeMeta
  mu_ObjectMeta :: 'm
  mu_Spec :: MinioUserSpec
  mu_Status :: MinioUserStatusM

definition MinioUser_DeepCopyInto ::
  "('m, 'l) metaLib \<Rightarrow> 'm MinioUserM \<Rightarrow> 'm MinioUserM alloc" where
  "MinioUser_DeepCopyInto M i = do {
     let out = i;
     let out = out\<lparr>mu_TypeMeta := mu_TypeMeta i\<rparr>;
     v \<leftarrow> metaObjectMeta_DeepCopyInto M (mu_ObjectMeta i);
     let out = out\<lparr>mu_ObjectMeta := v\<rparr>;
     let out = out\<lparr>mu_Spec := mu_Spec i\<rparr>;
     v \<leftarrow> MinioUserStatus_DeepCopyInto (mu_Status i);
     let out = out\<lparr>mu_Status := v\<rparr>;
     State_Monad.return out}"

definition erase_MinioUser ::
  "('m \<Rightarrow> ObjectMeta) \<Rightarrow> 'm MinioUserM \<Rightarrow> MinioUser" where
  "erase_MinioUser em x = \<lparr>u_TypeMeta = mu_TypeMeta x,
     u_ObjectMeta = em (mu_ObjectMeta x),
     u_Spec = mu_Spec x,
     u_Status = erase_MinioUserStatus (mu_Status x)\<rparr>"

definition addrs_MinioUser ::
  "('m \<Rightarrow> nat list) \<Rightarrow> 'm MinioUserM \<Rightarrow> nat list" where
  "addrs_MinioUser ma x = ma (mu_ObjectMeta x) @ addrs_MinioUserStatus (mu_Status x)"

lemma MinioUser_deepCopies [deep_copies]:
  "metaLaws M em ma el la \<Longrightarrow> deepCopies (MinioUser_DeepCopyInto M)
     (erase_MinioUser em) (addrs_MinioUser ma)"
  unfolding MinioUser_DeepCopyInto_def Let_def
  by (rule deepCopiesI) (auto simp: erase_MinioUser_def addrs_MinioUser_def
      intro!: makes_copy makes_return deep_copies)

definition MinioUser_DeepCopy ::
  "('m, 'l) metaLib \<Rightarrow> 'm MinioUserM ptr \<Rightarrow> 'm MinioUserM ptr alloc" where
  "MinioUser_DeepCopy M i = copyPtr (MinioUser_DeepCopyInto M) i"

definition MinioUser_DeepCopyObject ::
  "('m, 'l) metaLib \<Rightarrow> 'm MinioUserM ptr \<Rightarrow> 'm MinioUserM ptr option alloc" where
  "MinioUser_DeepCopyObject M i = asObject (MinioUser_DeepCopy M i)"

type_synonym ('m, 'l) MinioUserListM = "('l, 'm MinioUserM) resourceListM"

definition MinioUserList_DeepCopyInto :: "('m, 'l) metaLib \<Rightarrow> ('m, 'l) MinioUserListM \<Rightarrow> ('m, 'l) MinioUserListM alloc" where
  "MinioUserList_DeepCopyInto M i = resourceList_DeepCopyInto M (MinioUser_DeepCopyInto M) i"

lemma MinioUserList_deepCopies [deep_copies]:
  "metaLaws M em ma el la \<Longrightarrow> deepCopies (MinioUserList_DeepCopyInto M)
     (erase_resourceList el (erase_MinioUser em)) (addrs_resourceList la (addrs_MinioUser ma))"
  unfolding MinioUserList_DeepCopyInto_def by (intro resourceList_deepCopies deep_copies)

definition MinioUserList_DeepCopy ::
  "('m, 'l) metaLib \<Rightarrow> ('m, 'l) MinioUserListM ptr \<Rightarrow> ('m, 'l) MinioUserListM ptr alloc" where
  "MinioUserList_DeepCopy M i = copyPtr (MinioUserList_DeepCopyInto M) i"

definition MinioUserList_DeepCopyObject ::
  "('m, 'l) metaLib \<Rightarrow> ('m, 'l) MinioUserListM ptr \<Rightarrow> ('m, 'l) MinioUserListM ptr option alloc" where
  "MinioUserList_DeepCopyObject M i = asObject (MinioUserList_DeepCopy M i)"

section \<open>MinioAccessKey\<close>

definition MinioAccessKeyIdentity_DeepCopyInto ::
  "MinioAccessKeyIdentity \<Rightarrow> MinioAccessKeyIdentity alloc" where
  "MinioAccessKeyIdentity_DeepCopyInto i = State_Monad.return i"

lemma MinioAccessKeyIdentity_deepCopies [deep_copies]:
  "deepCopies MinioAccessKeyIdentity_DeepCopyInto (\<lambda>x. x) noAddrs"
  by (simp add: MinioAccessKeyIdentity_DeepCopyInto_def deepCopies_def makes_return)

definition MinioAccessKeyIdentity_DeepCopy ::
  "MinioAccessKeyIdentity ptr \<Rightarrow> MinioAccessKeyIdentity ptr alloc" where
  "MinioAccessKeyIdentity_DeepCopy i = copyPtr MinioAccessKeyIdentity_DeepCopyInto i"

record MinioAccessKeyPolicyM =
  makp_Statement :: "MinioPolicyStatementM block"
  makp_Version :: string

definition MinioAccessKeyPolicy_DeepCopyInto ::
  "MinioAccessKeyPolicyM \<Rightarrow> MinioAccessKeyPolicyM alloc" where
  "MinioAccessKeyPolicy_DeepCopyInto i = do {
     let out = i;
     v \<leftarrow> copyBlock MinioPolicyStatement_DeepCopyInto (makp_Statement i);
     let out = out\<lparr>makp_Statement := v\<rparr>;
     State_Monad.return out}"

definition erase_MinioAccessKeyPolicy ::
  "MinioAccessKeyPolicyM \<Rightarrow> MinioAccessKeyPolicy" where
  "erase_MinioAccessKeyPolicy x = \<lparr>akp_Statement = eraseBlock erase_MinioPolicyStatement (makp_Statement x),
     akp_Version = makp_Version x\<rparr>"

definition addrs_MinioAccessKeyPolicy ::
  "MinioAccessKeyPolicyM \<Rightarrow> nat list" where
  "addrs_MinioAccessKeyPolicy x = addrsBlock addrs_MinioPolicyStatement (makp_Statement x)"

lemma MinioAccessKeyPolicy_deepCopies [deep_copies]:
  "deepCopies MinioAccessKeyPolicy_DeepCopyInto
     erase_MinioAccessKeyPolicy addrs_MinioAccessKeyPolicy"
  unfolding MinioAccessKeyPolicy_DeepCopyInto_def Let_def
  by (rule deepCopiesI) (auto simp: erase_MinioAccessKeyPolicy_def addrs_MinioAccessKeyPolicy_def
      intro!: makes_copy makes_return deep_copies)

definition MinioAccessKeyPolicy_DeepCopy ::
  "MinioAccessKeyPolicyM ptr \<Rightarrow> MinioAccessKeyPolicyM ptr alloc" where
  "MinioAccessKeyPolicy_DeepCopy i = copyPtr MinioAccessKeyPolicy_DeepCopyInto i"

record MinioAccessKeySpecM =
  maks_AccessKey :: string
  maks_AccessKeyRef :: ResourceKeyRef
  maks_Description :: string
  maks_Expiration :: "gotime ptr"
  maks_Migrate :: bool
  maks_Name :: string
  maks_Policy :: MinioAccessKeyPolicyM
  maks_SecretKeyRef :: ResourceKeyRef
  maks_SecretName :: string
  maks_TenantRef :: ResourceRef
  maks_User :: MinioAccessKeyIdentity

definition MinioAccessKeySpec_DeepCopyInto ::
  "('m, 'l) metaLib \<Rightarrow> MinioAccessKeySpecM \<Rightarrow> MinioAccessKeySpecM alloc" where
  "MinioAccessKeySpec_DeepCopyInto M i = do {
     let out = i;
     let out = out\<lparr>maks_AccessKeyRef := maks_AccessKeyRef i\<rparr>;
     v \<leftarrow> ifPtr (metaTime_DeepCopy M) (maks_Expiration i);
     let out = out\<lparr>maks_Expiration := v\<rparr>;
     v \<leftarrow> MinioAccessKeyPolicy_DeepCopyInto (maks_Policy i);
     let out = out\<lparr>maks_Policy := v\<rparr>;
     let out = out\<lparr>maks_SecretKeyRef := maks_SecretKeyRef i\<rparr>;
     let out = out\<lparr>maks_TenantRef := maks_TenantRef i\<rparr>;
     let out = out\<lparr>maks_User := maks_User i\<rparr>;
     State_Monad.return out}"

definition erase_MinioAccessKeySpec ::
  "MinioAccessKeySpecM \<Rightarrow> MinioAccessKeySpec" where
  "erase_MinioAccessKeySpec x = \<lparr>aks_AccessKey = maks_AccessKey x,
     aks_AccessKeyRef = maks_AccessKeyRef x,
     aks_Description = maks_Description x,
     aks_Expiration = erasePtr (\<lambda>x. x) (maks_Expiration x),
     aks_Migrate = maks_Migrate x,
     aks_Name = maks_Name x,
     aks_Policy = erase_MinioAccessKeyPolicy (maks_Policy x),
     aks_SecretKeyRef = maks_SecretKeyRef x,
     aks_SecretName = maks_SecretName x,
     aks_TenantRef = maks_TenantRef x,
     aks_User = maks_User x\<rparr>"

definition addrs_MinioAccessKeySpec ::
  "MinioAccessKeySpecM \<Rightarrow> nat list" where
  "addrs_MinioAccessKeySpec x = addrsPtr noAddrs (maks_Expiration x) @ addrs_MinioAccessKeyPolicy (maks_Policy x)"

lemma MinioAccessKeySpec_deepCopies [deep_copies]:
  "metaLaws M em ma el la \<Longrightarrow> deepCopies (MinioAccessKeySpec_DeepCopyInto M)
     erase_MinioAccessKeySpec addrs_MinioAccessKeySpec"
  unfolding MinioAccessKeySpec_DeepCopyInto_def Let_def
  by (rule deepCopiesI) (auto simp: erase_MinioAccessKeySpec_def addrs_MinioAccessKeySpec_def
      intro!: makes_copy makes_return deep_copies)

definition MinioAccessKeySpec_DeepCopy ::
  "('m, 'l) metaLib \<Rightarrow> MinioAccessKeySpecM ptr \<Rightarrow> MinioAccessKeySpecM ptr alloc" where
  "MinioAccessKeySpec_DeepCopy M i = copyPtr (MinioAccessKeySpec_DeepCopyInto M) i"

record MinioAccessKeyStatusM =
  makst_Synced :: "bool ptr"
  makst_CurrentSpec :: "MinioAccessKeySpecM ptr"
  makst_CurrentSecretResourceVersion :: string

definition MinioAccessKeyStatus_DeepCopyInto ::
  "('m, 'l) metaLib \<Rightarrow> MinioAccessKeyStatusM \<Rightarrow> MinioAccessKeyStatusM alloc" where
  "MinioAccessKeyStatus_DeepCopyInto M i = do {
     let out = i;
     v \<leftarrow> copyPtr State_Monad.return (makst_Synced i);
     let out = out\<lparr>makst_Synced := v\<rparr>;
     v \<leftarrow> copyPtr (MinioAccessKeySpec_DeepCopyInto M) (makst_CurrentSpec i);
     let out = out\<lparr>makst_CurrentSpec := v\<rparr>;
     State_Monad.return out}"

definition erase_MinioAccessKeyStatus ::
  "MinioAccessKeyStatusM \<Rightarrow> MinioAccessKeyStatus" where
  "erase_MinioAccessKeyStatus x = \<lparr>akst_Synced = erasePtr (\<lambda>x. x) (makst_Synced x),
     akst_CurrentSpec = erasePtr erase_MinioAccessKeySpec (makst_CurrentSpec x),
     akst_CurrentSecretResourceVersion = makst_CurrentSecretResourceVersion x\<rparr>"

definition addrs_MinioAccessKeyStatus ::
  "MinioAccessKeyStatusM \<Rightarrow> nat list" where
  "addrs_MinioAccessKeyStatus x = addrsPtr noAddrs (makst_Synced x) @ addrsPtr addrs_MinioAccessKeySpec (makst_CurrentSpec x)"

lemma MinioAccessKeyStatus_deepCopies [deep_copies]:
  "metaLaws M em ma el la \<Longrightarrow> deepCopies (MinioAccessKeyStatus_DeepCopyInto M)
     erase_MinioAccessKeyStatus addrs_MinioAccessKeyStatus"
  unfolding MinioAccessKeyStatus_DeepCopyInto_def Let_def
  by (rule deepCopiesI) (auto simp: erase_MinioAccessKeyStatus_def addrs_MinioAccessKeyStatus_def
      intro!: makes_copy makes_return deep_copies)

definition MinioAccessKeyStatus_DeepCopy ::
  "('m, 'l) metaLib \<Rightarrow> MinioAccessKeyStatusM ptr \<Rightarrow> MinioAccessKeyStatusM ptr alloc" where
  "MinioAccessKeyStatus_DeepCopy M i = copyPtr (MinioAccessKeyStatus_DeepCopyInto M) i"

record 'm MinioAccessKeyM =
  mak_TypeMeta :: TypeMeta
  mak_ObjectMeta :: 'm
  mak_Spec :: MinioAccessKeySpecM
  mak_Status :: MinioAccessKeyStatusM

definition MinioAccessKey_DeepCopyInto ::
  "('m, 'l) metaLib \<Rightarrow> 'm MinioAccessKeyM \<Rightarrow> 'm MinioAccessKeyM alloc" where
  "MinioAccessKey_DeepCopyInto M i = do {
     let out = i;
     let out = out\<lparr>mak_TypeMeta := mak_TypeMeta i\<rparr>;
     v \<leftarrow> metaObjectMeta_DeepCopyInto M (mak_ObjectMeta i);
     let out = out\<lparr>mak_ObjectMeta := v\<rparr>;
     v \<leftarrow> MinioAccessKeySpec_DeepCopyInto M (mak_Spec i);
     let out = out\<lparr>mak_Spec := v\<rparr>;
     v \<leftarrow> MinioAccessKeyStatus_DeepCopyInto M (mak_Status i);
     let out = out\<lparr>mak_Status := v\<rparr>;
     State_Monad.return out}"

definition erase_MinioAccessKey ::
  "('m \<Rightarrow> ObjectMeta) \<Rightarrow> 'm MinioAccessKeyM \<Rightarrow> MinioAccessKey" where
  "erase_MinioAccessKey em x = \<lparr>ak_TypeMeta = mak_TypeMeta x,
     ak_ObjectMeta = em (mak_ObjectMeta x),
     ak_Spec = erase_MinioAccessKeySpec (mak_Spec x),
     ak_Status = erase_MinioAccessKeyStatus (mak_Status x)\<rparr>"

definition addrs_MinioAccessKey ::
  "('m \<Rightarrow> nat list) \<Rightarrow> 'm MinioAccessKeyM \<Rightarrow> nat list" where
  "addrs_MinioAccessKey ma x = ma (mak_ObjectMeta x) @ addrs_MinioAccessKeySpec (mak_Spec x) @ addrs_MinioAccessKeyStatus (mak_Status x)"

lemma MinioAccessKey_deepCopies [deep_copies]:
  "metaLaws M em ma el la \<Longrightarrow> deepCopies (MinioAccessKey_DeepCopyInto M)
     (erase_MinioAccessKey em) (addrs_MinioAccessKey ma)"
  unfolding MinioAccessKey_DeepCopyInto_def Let_def
  by (rule deepCopiesI) (auto simp: erase_MinioAccessKey_def addrs_MinioAccessKey_def
      intro!: makes_copy makes_return deep_copies)

definition MinioAccessKey_DeepCopy ::
  "('m, 'l) metaLib \<Rightarrow> 'm MinioAccessKeyM ptr \<Rightarrow> 'm MinioAccessKeyM ptr alloc" where
  "MinioAccessKey_DeepCopy M i = copyPtr (MinioAccessKey_DeepCopyInto M) i"

definition MinioAccessKey_DeepCopyObject ::
  "('m, 'l) metaLib \<Rightarrow> 'm MinioAccessKeyM ptr \<Rightarrow> 'm MinioAccessKeyM ptr option alloc" where
  "MinioAccessKey_DeepCopyObject M i = asObject (MinioAccessKey_DeepCopy M i)"

type_synonym ('m, 'l) MinioAccessKeyListM = "('l, 'm MinioAccessKeyM) resourceListM"

definition MinioAccessKeyList_DeepCopyInto :: "('m, 'l) metaLib \<Rightarrow> ('m, 'l) MinioAccessKeyListM \<Rightarrow> ('m, 'l) MinioAccessKeyListM alloc" where
  "MinioAccessKeyList_DeepCopyInto M i = resourceList_DeepCopyInto M (MinioAccessKey_DeepCopyInto M) i"

lemma MinioAccessKeyList_deepCopies [deep_copies]:
  "metaLaws M em ma el la \<Longrightarrow> deepCopies (MinioAccessKeyList_DeepCopyInto M)
     (erase_resourceList el (erase_MinioAccessKey em)) (addrs_resourceList la (addrs_MinioAccessKey ma))"
  unfolding MinioAccessKeyList_DeepCopyInto_def by (intro resourceList_deepCopies deep_copies)

definition MinioAccessKeyList_DeepCopy ::
  "('m, 'l) metaLib \<Rightarrow> ('m, 'l) MinioAccessKeyListM ptr \<Rightarrow> ('m, 'l) MinioAccessKeyListM ptr alloc" where
  "MinioAccessKeyList_DeepCopy M i = copyPtr (MinioAccessKeyList_DeepCopyInto M) i"

definition MinioAccessKeyList_DeepCopyObject ::
  "('m, 'l) metaLib \<Rightarrow> ('m, 'l) MinioAccessKeyListM ptr \<Rightarrow> ('m, 'l) MinioAccessKeyListM ptr option alloc" where
  "MinioAccessKeyList_DeepCopyObject M i = asObject (MinioAccessKeyList_DeepCopy M i)"

section \<open>Properties\<close>

text \<open>
  An interface method is an independent copy if for every object it returns a pointer to an object that
  means the same, and the pointer and everything the copy refers to is new memory, no two parts sharing
  any: whatever is later written through the copy leaves the original (say, an object in the cache of
  controller-runtime, which reconcilers get copies of) as it is.
\<close>

definition independentCopy ::
  "('a ptr \<Rightarrow> 'a ptr option alloc) \<Rightarrow> ('a \<Rightarrow> 'b) \<Rightarrow> ('a \<Rightarrow> nat list) \<Rightarrow> bool" where
  "independentCopy copy erase addrs \<longleftrightarrow> (\<forall>a x n. \<exists>b y n'.
     run_state (copy (Ptr a x)) n = (Some (Ptr b y), n') \<and> erase y = erase x \<and>
     distinct (b # addrs y) \<and> set (b # addrs y) \<subseteq> {n..<n'})"

lemma independentCopyI:
  assumes "deepCopies into erase addrs" and "copy = (\<lambda>i. asObject (copyPtr into i))"
  shows "independentCopy copy erase addrs"
  unfolding independentCopy_def
proof (intro allI)
  fix a x n
  obtain q n' where q: "run_state (copyPtr into (Ptr a x)) n = (q, n')"
      "erasePtr erase q = Some (erase x)" "distinct (addrsPtr addrs q)" "set (addrsPtr addrs q) \<subseteq> {n..<n'}"
    using deepCopies_copyPtr [OF assms(1)] unfolding deepCopies_def makes_def
    by (metis erasePtr.simps(2))
  then obtain b y where "q = Ptr b y" by (cases q) simp_all
  with q show "\<exists>b y n'. run_state (copy (Ptr a x)) n = (Some (Ptr b y), n') \<and> erase y = erase x \<and>
      distinct (b # addrs y) \<and> set (b # addrs y) \<subseteq> {n..<n'}"
    by (intro exI [of _ b] exI [of _ y] exI [of _ n']) (simp add: assms(2) asObject_def del: copyPtr.simps)
qed

lemmas object_copies = MinioBucket_DeepCopyObject_def MinioBucket_DeepCopy_def
  MinioGroup_DeepCopyObject_def MinioGroup_DeepCopy_def
  MinioGroupBinding_DeepCopyObject_def MinioGroupBinding_DeepCopy_def
  MinioPolicy_DeepCopyObject_def MinioPolicy_DeepCopy_def
  MinioPolicyBinding_DeepCopyObject_def MinioPolicyBinding_DeepCopy_def
  MinioUser_DeepCopyObject_def MinioUser_DeepCopy_def
  MinioAccessKey_DeepCopyObject_def MinioAccessKey_DeepCopy_def

lemmas list_copies = MinioBucketList_DeepCopyObject_def MinioBucketList_DeepCopy_def
  MinioGroupList_DeepCopyObject_def MinioGroupList_DeepCopy_def
  MinioGroupBindingList_DeepCopyObject_def MinioGroupBindingList_DeepCopy_def
  MinioPolicyList_DeepCopyObject_def MinioPolicyList_DeepCopy_def
  MinioPolicyBindingList_DeepCopyObject_def MinioPolicyBindingList_DeepCopy_def
  MinioUserList_DeepCopyObject_def MinioUserList_DeepCopy_def
  MinioAccessKeyList_DeepCopyObject_def MinioAccessKeyList_DeepCopy_def

text \<open>
  C23 - The generated deep copies are independent copies, for each of the seven resource types: the
  copy has the same metadata, spec and status as the original, field by field, and shares no memory
  with it, nor do two parts of the copy, even if the original shares its spec with its status (as an
  object has after the operator set \<open>status.currentSpec\<close> to the address of its spec).
\<close>

theorem deep_copies_are_independent:
  assumes "metaLaws M em ma el la"
  shows "independentCopy (MinioBucket_DeepCopyObject M) (erase_MinioBucket em) (addrs_MinioBucket ma) \<and>
   independentCopy (MinioGroup_DeepCopyObject M) (erase_MinioGroup em) (addrs_MinioGroup ma) \<and>
   independentCopy (MinioGroupBinding_DeepCopyObject M)
     (erase_MinioGroupBinding em) (addrs_MinioGroupBinding ma) \<and>
   independentCopy (MinioPolicy_DeepCopyObject M) (erase_MinioPolicy em) (addrs_MinioPolicy ma) \<and>
   independentCopy (MinioPolicyBinding_DeepCopyObject M)
     (erase_MinioPolicyBinding em) (addrs_MinioPolicyBinding ma) \<and>
   independentCopy (MinioUser_DeepCopyObject M) (erase_MinioUser em) (addrs_MinioUser ma) \<and>
   independentCopy (MinioAccessKey_DeepCopyObject M) (erase_MinioAccessKey em) (addrs_MinioAccessKey ma)"
  unfolding object_copies
  by (intro conjI independentCopyI [OF _ refl] MinioBucket_deepCopies [OF assms]
      MinioGroup_deepCopies [OF assms] MinioGroupBinding_deepCopies [OF assms]
      MinioPolicy_deepCopies [OF assms] MinioPolicyBinding_deepCopies [OF assms]
      MinioUser_deepCopies [OF assms] MinioAccessKey_deepCopies [OF assms])

text \<open>Metadata whose memory is the list of finalizers, and a bucket that shares its spec's memory.\<close>

definition sampleMetaLib :: "(string block, int ptr) metaLib" where
  "sampleMetaLib = \<lparr>metaObjectMeta_DeepCopyInto = copyBlock State_Monad.return,
     metaListMeta_DeepCopyInto = copyPtr State_Monad.return,
     metaTime_DeepCopyInto = State_Monad.return,
     metaTime_DeepCopy = copyPtr State_Monad.return\<rparr>"

definition sampleMetaOf :: "string block \<Rightarrow> ObjectMeta" where
  "sampleMetaOf b = emptyMeta\<lparr>om_Finalizers := elems (eraseBlock (\<lambda>x. x) b)\<rparr>"

definition sharingSpec :: MinioBucketSpecM where
  "sharingSpec = \<lparr>mbs_DeletionPolicy = ''Always'',
     mbs_Lifecycle = Ptr 1 \<lparr>mlc_Rules = Block 2 []\<rparr>, mbs_Migrate = False, mbs_Name = ''b'',
     mbs_TenantRef = \<lparr>rr_Name = ''t'', rr_Namespace = ''''\<rparr>, mbs_Versioning = NilPtr\<rparr>"

definition sharingBucket :: "string block MinioBucketM" where
  "sharingBucket = \<lparr>mb_TypeMeta = \<lparr>tm_Kind = '''', tm_APIVersion = ''''\<rparr>,
     mb_ObjectMeta = Block 3 [''f''], mb_Spec = sharingSpec,
     mb_Status = \<lparr>mbst_Synced = Ptr 4 True, mbst_CurrentSpec = Ptr 0 sharingSpec\<rparr>\<rparr>"

lemma metaLaws_sample:
  "metaLaws sampleMetaLib sampleMetaOf (addrsBlock noAddrs) (erasePtr (\<lambda>x. x)) (addrsPtr noAddrs)"
proof -
  have "deepCopies (copyBlock State_Monad.return) sampleMetaOf (addrsBlock noAddrs)"
    by (rule deepCopies_meaning [OF deepCopies_copyBlock [OF deepCopies_return]])
      (simp add: sampleMetaOf_def)
  then show ?thesis unfolding metaLaws_def sampleMetaLib_def by (simp add: deep_copies)
qed

theorem deep_copies_are_independent_witness:
  "\<exists>y n'. run_state (MinioBucket_DeepCopyObject sampleMetaLib (Ptr 0 sharingBucket)) 10 =
       (Some (Ptr 10 y), n') \<and>
     erase_MinioBucket sampleMetaOf y = erase_MinioBucket sampleMetaOf sharingBucket \<and>
     distinct (10 # addrs_MinioBucket (addrsBlock noAddrs) y) \<and>
     set (10 # addrs_MinioBucket (addrsBlock noAddrs) y) \<subseteq> {10..<n'}"
proof -
  obtain b y n' where y: "run_state (MinioBucket_DeepCopyObject sampleMetaLib (Ptr 0 sharingBucket)) 10 =
      (Some (Ptr b y), n')" "erase_MinioBucket sampleMetaOf y = erase_MinioBucket sampleMetaOf sharingBucket"
      "distinct (b # addrs_MinioBucket (addrsBlock noAddrs) y)"
      "set (b # addrs_MinioBucket (addrsBlock noAddrs) y) \<subseteq> {10..<n'}"
    using deep_copies_are_independent [OF metaLaws_sample] unfolding independentCopy_def by metis
  have "b = 10" using y(1) by (simp add: object_copies asObject_def new_def split: prod.splits)
  with y show ?thesis by blast
qed

text \<open>
  The same holds for lists of resources: the copy of a list has the same elements in the same
  order, and neither the list nor any of its elements shares memory with the original.
\<close>

theorem list_copies_are_independent:
  assumes "metaLaws M em ma el la"
  shows "independentCopy (MinioBucketList_DeepCopyObject M)
     (erase_resourceList el (erase_MinioBucket em)) (addrs_resourceList la (addrs_MinioBucket ma)) \<and>
   independentCopy (MinioGroupList_DeepCopyObject M)
     (erase_resourceList el (erase_MinioGroup em)) (addrs_resourceList la (addrs_MinioGroup ma)) \<and>
   independentCopy (MinioGroupBindingList_DeepCopyObject M)
     (erase_resourceList el (erase_MinioGroupBinding em)) (addrs_resourceList la (addrs_MinioGroupBinding ma)) \<and>
   independentCopy (MinioPolicyList_DeepCopyObject M)
     (erase_resourceList el (erase_MinioPolicy em)) (addrs_resourceList la (addrs_MinioPolicy ma)) \<and>
   independentCopy (MinioPolicyBindingList_DeepCopyObject M)
     (erase_resourceList el (erase_MinioPolicyBinding em)) (addrs_resourceList la (addrs_MinioPolicyBinding ma)) \<and>
   independentCopy (MinioUserList_DeepCopyObject M)
     (erase_resourceList el (erase_MinioUser em)) (addrs_resourceList la (addrs_MinioUser ma)) \<and>
   independentCopy (MinioAccessKeyList_DeepCopyObject M)
     (erase_resourceList el (erase_MinioAccessKey em)) (addrs_resourceList la (addrs_MinioAccessKey ma))"
  unfolding list_copies
  by (intro conjI independentCopyI [OF _ refl] MinioBucketList_deepCopies [OF assms]
      MinioGroupList_deepCopies [OF assms] MinioGroupBindingList_deepCopies [OF assms]
      MinioPolicyList_deepCopies [OF assms] MinioPolicyBindingList_deepCopies [OF assms]
      MinioUserList_deepCopies [OF assms] MinioAccessKeyList_deepCopies [OF assms])

theorem list_copies_are_independent_witness:
  "\<exists>b y n'. run_state (MinioBucketList_DeepCopyObject sampleMetaLib (Ptr 5
       \<lparr>mrl_TypeMeta = \<lparr>tm_Kind = '''', tm_APIVersion = ''''\<rparr>, mrl_ListMeta = NilPtr,
        mrl_Items = Block 6 [sharingBucket, sharingBucket]\<rparr>)) 10 = (Some (Ptr b y), n') \<and>
     map (erase_MinioBucket sampleMetaOf) (case mrl_Items y of NilBlock \<Rightarrow> [] | Block _ bs \<Rightarrow> bs) =
       [erase_MinioBucket sampleMetaOf sharingBucket, erase_MinioBucket sampleMetaOf sharingBucket]"
proof -
  let ?x = "\<lparr>mrl_TypeMeta = \<lparr>tm_Kind = '''', tm_APIVersion = ''''\<rparr>, mrl_ListMeta = NilPtr :: int ptr,
    mrl_Items = Block 6 [sharingBucket, sharingBucket]\<rparr>"
  let ?e = "erase_resourceList (erasePtr (\<lambda>x. x)) (erase_MinioBucket sampleMetaOf)"
  obtain b y n' where y: "run_state (MinioBucketList_DeepCopyObject sampleMetaLib (Ptr 5 ?x)) 10 =
      (Some (Ptr b y), n')" "?e y = ?e ?x"
    using list_copies_are_independent [OF metaLaws_sample] unfolding independentCopy_def by metis
  from y(2) have "eraseBlock (erase_MinioBucket sampleMetaOf) (mrl_Items y) =
      Slice [erase_MinioBucket sampleMetaOf sharingBucket, erase_MinioBucket sampleMetaOf sharingBucket]"
    by (simp add: erase_resourceList_def)
  then show ?thesis using y(1) by (cases "mrl_Items y") auto
qed

end
