(* ===== verification/Spec2Isabelle.thy ===== *)
theory Spec2Isabelle
  imports Bucket_Reconciler Group_Reconciler Group_Binding_Reconciler Policy_Reconciler
    Policy_Binding_Reconciler User_Reconciler Access_Key_Lifecycle Fault_Tolerance Permissions
    Bounded_Work No_Panic Command_Line Deep_Copy
begin

text \<open>
  \<^bold>\<open>minio-operator-ext\<close>: a Kubernetes operator that keeps buckets, groups, group memberships, policies,
  policy attachments, users and access keys of MinIO tenants in line with custom resources.

  \<^bold>\<open>The program.\<close> \<open>cmd/operator/operator.go\<close> parses the command line and calls \<open>New\<close>
  (\<open>internal/operator/main.go\<close>), which builds the operator with \<open>NewOperator\<close> (\<open>operator.go\<close>): a
  controller-runtime manager and seven reconcilers, one per kind of resource
  (\<open>internal/operator/minio_*_reconciler.go\<close>). The manager calls a reconciler's \<open>Reconcile\<close> with the
  name of a resource. The reconciler fetches the resource, opens a client for the tenant that the
  resource refers to (\<open>minio_tenant_client_info.go\<close>) and makes one pass: it deletes, adds its finalizer,
  updates or creates, by the deletion timestamp, the finalizers and \<open>status.currentSpec\<close>, which records
  the spec that was applied last. The reconcilers share no memory; they meet only in the cluster and in
  the tenants.

  \<^bold>\<open>The model.\<close> Code that calls a service is a function from a world to an outcome (value, error or
  panic), a new world and the trace of its calls with the errors they answered (\<open>Prelude\<close>). The world is
  a type variable: nothing is known of what the services do between or during calls, so a theorem
  about a trace holds whatever other clients do meanwhile. The clients of Kubernetes and MinIO, the
  digests, the codecs of the bucket configurations and the random source are parameters (\<open>Lib\<close>,
  \<open>env\<close> and \<open>reconciler\<close> in \<open>Outside\<close>). The documented laws that some theorems use are the hypotheses
  \<open>finalizerLaws\<close> (controllerutil), \<open>updateStores\<close> (an accepted update returns what was sent under a new
  resource version), \<open>randFills\<close> (a read fills the buffer) and \<open>digestApart\<close> (no collision among the
  strings at hand); \<open>Sample_Env\<close> is an instance in which they hold, used by the witnesses. Go errors are
  \<open>goerr\<close> values, every early return is a branch, and a nil dereference is a panic. Loops over slices
  are structural recursions, so no fuel is needed. Log output is left out.

  \<^bold>\<open>The theories\<close>, in the order of their imports:
  \<^item> \<open>Prelude\<close>: outcomes, the computation type and its calculus (\<open>triple\<close> for conditions on all calls,
    \<open>ordered\<close> for what comes before what, \<open>achieves\<close> and \<open>yields\<close> for what a successful run has called,
    \<open>neverFails\<close>), Go strings and slices.
  \<^item> \<open>Api_Types\<close>: the resource types of \<open>pkg/api/bfiola.dev/v1\<close>, references and their default namespaces,
    and the fields of Kubernetes and tenant objects that the code reads.
  \<^item> \<open>Policy_Json\<close>, \<open>Policy_Hash\<close>: policy documents as JSON values with their round trip, and \<open>getHash\<close> of
    \<open>minio_policy_reconciler.go\<close> with the proof that it decides equality of policies up to order.
  \<^item> \<open>Outside\<close>, \<open>Sample_Env\<close>: the parameters, the wrappers that record a call, error codes and helpers of
    \<open>operator.go\<close>.
  \<^item> \<open>Tenant_Client\<close>: \<open>minio_tenant_client_info.go\<close>; what the client information is made of, that the
    authorities are optional, that finding a tenant only reads, what opening an admin client
    calls, and when it panics.
  \<^item> \<open>Reconcile_Contract\<close>: the interface of a reconciler as locales. \<open>reconciler_contract\<close> promises which
    objects a pass may send, when it may write and what success means; \<open>phased_reconciler\<close> gives it from
    the laws of the four phases. \<open>life\<close> is the relation of the versions of an object that get stored.
  \<^item> \<open>Bucket_Reconciler\<close>, \<open>Group_Reconciler\<close>, \<open>Group_Binding_Reconciler\<close>, \<open>Policy_Reconciler\<close>,
    \<open>Policy_Binding_Reconciler\<close>, \<open>User_Reconciler\<close>, \<open>Access_Key_Reconciler\<close>: each \<open>Reconcile\<close> method, one
    definition per phase and helper, its interpretation of the locale, and its properties: the
    status is truthful (set only after the tenant accepted the request, cleared only after removal or
    absence), all requests concern the right remote object, creation is guarded by a lookup, a settled
    object is left alone, and what goes wrong where the code departs from that.
  \<^item> \<open>Credentials\<close>: the hash of a pair of keys and the random keys of \<open>minio_access_key_reconciler.go\<close>.
  \<^item> \<open>Convergence\<close>: where repeated passes lead. The abstract specification of a reconciler is a machine
    with the phases new, held, applied, closing, releasing and gone (\<open>phase\<close>, \<open>idealStep\<close>); the
    locale \<open>quiet_phases\<close> extends \<open>phased_reconciler\<close> by a cluster whose API server answers as documented
    (what a pass over a missing, new or held object does there), and \<open>settling\<close> extends it by what the
    phases do; it shows that a pass is one step of the machine, so that two passes settle an object and
    close a deleted one, if the tenant has what it depends on (\<open>possible\<close>); a resource whose dependencies
    are missing is held and waits. \<open>settling\<close> is interpreted for every reconciler but the one of access keys, for
    which \<open>quiet_phases\<close> is.
  \<^item> \<open>Tenant_State\<close>: what a tenant keeps for users, groups, memberships, policies and attached policies
    (\<open>tenantState\<close>), the documented effect of MinIO's requests on it, and what each thing depends on or
    is kept by: a membership needs its group and user, a group with members and an attached policy
    cannot be removed. The convergence of five reconcilers is about these states.
  \<^item> \<open>Key_Cluster\<close>, \<open>Access_Key_Lifecycle\<close>: access keys in a quiet cluster. They do not follow the machine:
    their keys are drawn at random or found in secrets, kept in a generated secret, and an account that
    is gone is not made again. The state is the object, the accounts of the tenant and the secrets; the
    lemmas follow creation, update (lost, present and renamed generated secret) and deletion through all
    calls, and the properties say where they lead.
  \<^item> \<open>Interleaving\<close>: many resources in one tenant, their passes in any order. The locale \<open>shared\<close> extends
    \<open>settling\<close>; every resource makes one step of the machine in each of its own passes and none in
    those of others, because a pass leaves other resources alone (\<open>preserves\<close>) and things of different
    names are independent.
  \<^item> \<open>Composition\<close>: resources of different kinds that depend on each other. The locale \<open>composed\<close> says
    what its parts keep to (a step of the machine when able, waiting when not, leaving each other alone)
    and shows by induction on the dependencies that in every fair schedule all parts settle; it is
    interpreted for the five reconcilers over one \<open>tenantState\<close> (\<open>manager\<close>, \<open>passOver\<close>).
  \<^item> \<open>Faults\<close>: passes in which any call may fail, and a failed request may have been carried out. The machine
    becomes a relation (\<open>faultStep\<close>); \<open>anyRun\<close> is the calculus for what holds wherever a pass ends. The
    locale \<open>surviving\<close> extends \<open>settling\<close> by what the phases do in such a cluster, and shows that every pass is
    a step of the relation, and where an object ends after such passes and a quiet time.
    \<open>Faulty_Identities\<close>, \<open>Faulty_Policies\<close> and \<open>Faulty_Buckets\<close> interpret it for six reconcilers; the last
    also shows that no pass removes a bucket that holds objects unless the policy says so.
    \<open>Fault_Tolerance\<close> composes five of them: a tenant recovers from faults, and deletions survive them.
  \<^item> \<open>Permissions\<close>: the \<open>kubebuilder:rbac\<close> markers, and that the calls of every reconciler stay within
    its own markers and those of the tenant client.
  \<^item> \<open>Bounded_Work\<close>: how many calls a pass makes at most, by a calculus with one rule per combinator.
    \<open>No_Panic\<close>: which nil pointers a pass can run into, namely those of a tenant without a
    configuration and of an admin client that could not be made, and no others.
  \<^item> \<open>Bootstrap\<close>: \<open>NewOperator\<close> with the seven \<open>register\<close> methods, \<open>New\<close>, the scheme and the logging
    option. \<open>Command_Line\<close>: \<open>main\<close>, its two commands, \<open>Run\<close>, \<open>Health\<close> and \<open>GetOperatorVersion\<close>.
  \<^item> \<open>Go_Memory\<close>, \<open>Deep_Copy\<close>: values with the addresses of their memory, and the copies of
    \<open>zz_generated.deepcopy.go\<close>, type by type, with the proof that a copy means the same as the original
    (as a value of \<open>Api_Types\<close>) and shares no memory with it. So the reconcilers, which get copies of the
    objects in the cache, may be modelled on plain values.
  \<^item> this theory: the contracts that hold for all seven reconcilers.

  \<^bold>\<open>The quiet cluster.\<close> The theorems on convergence assume that nobody else writes and that services answer
  as documented: \<open>quietApi\<close> (an update is stored, and removes an object that is being deleted and has
  no finalizer left), \<open>opensAdmin\<close> and \<open>opensClient\<close> (the tenant can be found and connected to),
  \<open>finalizerLists\<close> (controllerutil), and per resource the laws of the MinIO requests it makes
  (\<open>quietGroups\<close>, \<open>quietUsers\<close>, \<open>quietMembers\<close>, \<open>quietPolicies\<close>, \<open>quietAttachments\<close>,
  \<open>quietBuckets\<close>, and \<open>quietKeys\<close> with the laws of accounts and generated secrets). All but the
  last two are about a \<open>tenantState\<close>: a tenant refuses to add a member to a group, or to attach a policy,
  if something of these does not exist, and to remove a group that has members, or a policy that is
  attached. \<open>quietBuckets\<close> is about the buckets and whether they hold objects (\<open>bucketTenant\<close>): one that does is
  removed with force only. \<open>quietKeys\<close> is about the accounts with the fields that a spec sets (\<open>account\<close>) and
  the secrets of the cluster. For each there is a cluster in which the laws hold, and \<open>tenantEnv\<close> is one tenant for all. \<open>quietKeys G c\<close> restricts the laws on creating and changing secrets to the
  names in \<open>G\<close>; the random source fills its buffers there, and where a key is drawn it is assumed not
  to be taken (\<open>drawsFresh\<close>).

  \<^bold>\<open>The faulty cluster.\<close> The theorems on faults let the services fail for a while, each pass in its own
  cluster (\<open>faultyUsers\<close> and so on, \<open>faultyManager\<close>): a tenant may not be found, a lookup may answer any
  error, an update may be refused, a request or an update may answer with an error and have been carried out
  or not (\<open>attempts\<close>). What remains is that an accepted request has been carried out, that an
  answer without an error is right, and that the error codes which the code ignores are true when the
  tenant gives them. An operator that is stopped in the middle of a pass leaves what it would leave if all
  later requests failed without effect. The object that a pass reads is the stored one or none: passes over stale
  copies are left to the invariants (\<open>life\<close>). Two defects come to light: a creation that was cut short
  between the request and the record is not resumed unless the resource asks to migrate, and a policy
  binding whose detachment was carried out but not recorded can never be deleted. Access keys are not part of this.

  \<^bold>\<open>Results that describe defects.\<close> Some theorems state what the code does where it does not do what it
  means to: \<open>getAdminClient_opened\<close> (when it panics), \<open>policy_lookup_error_dropped\<close>, \<open>policy_collision_missed\<close>,
  \<open>group_binding_deletion_stuck\<close>, \<open>policy_binding_deletion_stuck\<close>, \<open>ldap_binding_forgotten\<close>,
  \<open>group_binding_moves\<close>, \<open>bucket_half_made_stuck\<close>,
  \<open>user_spec_changes_ignored\<close>, \<open>recorded_access_key_not_recreated\<close>, \<open>access_key_rename_without_secret\<close>,
  \<open>access_key_expiry_never_settles\<close>, \<open>access_key_deletion\<close> (without its generated secret the account
  stays), \<open>unconfigured_tenant_panics\<close>.

  \<^bold>\<open>Not modelled.\<close> The command-line library, the log
  output, the caches and queues of controller-runtime; PEM parsing, TLS and HTTP, which the libraries
  do; charts, manifests and tests. An update is modelled as atomic and as returning what it stored;
  the cache from which resources are read may be stale (\<open>life\<close> allows it).
\<close>

section \<open>The seven reconcilers together\<close>

text \<open>
  The contracts that hold for all seven. A reconciler is given by its \<open>Reconcile\<close> method; \<open>metaOf\<close>,
  \<open>statusSet\<close> and \<open>same\<close> read its resource type: the metadata, whether \<open>status.currentSpec\<close> is set,
  and equality up to the resource version.
\<close>

definition storesWith :: "Lib \<Rightarrow> ('o \<Rightarrow> 'o \<Rightarrow> bool) \<Rightarrow> ('w, 'o) reconciler \<Rightarrow> bool" where
  "storesWith L same r \<longleftrightarrow> lib (r_env r) = L \<and> updateStores same r"

definition holdsOn ::
  "(('w, 'o) reconciler \<Rightarrow> NamespacedName \<Rightarrow> ('w, 'o call, Result) m) \<Rightarrow> ('o \<Rightarrow> ObjectMeta) \<Rightarrow>
   ('o \<Rightarrow> bool) \<Rightarrow> ('o \<Rightarrow> 'o \<Rightarrow> bool) \<Rightarrow> ('w, 'o) reconciler \<Rightarrow> bool" where
  "holdsOn reconcile metaOf statusSet same r \<longleftrightarrow>
     (\<forall>x0 x. \<not> statusSet x0 \<and> life reconcile metaOf statusSet same r x0 x \<and> statusSet x \<longrightarrow>
        containsFinalizer (lib (r_env r)) (metaOf x) finalizer)"

definition writesGuarded ::
  "(('w, 'o) reconciler \<Rightarrow> NamespacedName \<Rightarrow> ('w, 'o call, Result) m) \<Rightarrow> ('o \<Rightarrow> ObjectMeta) \<Rightarrow> bool" where
  "writesGuarded reconcile metaOf \<longleftrightarrow>
     (\<forall>r req w. list_ex (\<lambda>ev. isWrite (fst ev)) (trace (reconcile r req) w) \<longrightarrow>
        (\<exists>x w1. r_Get r w req = (Inr x, w1) \<and>
          (\<not> timeIsZero (om_DeletionTimestamp (metaOf x)) \<or>
           containsFinalizer (lib (r_env r)) (metaOf x) finalizer)))"

definition successIsComplete ::
  "(('w, 'o) reconciler \<Rightarrow> NamespacedName \<Rightarrow> ('w, 'o call, Result) m) \<Rightarrow> bool" where
  "successIsComplete reconcile \<longleftrightarrow>
     (\<forall>r req w res. outcome (reconcile r req) w = Ok res \<longrightarrow>
        (requeueAfter res = syncInterval r \<or>
         (\<exists>err w1. r_Get r w req = (Inl err, w1) \<and> ignoreNotFound (lib (r_env r)) err = None \<and>
            res = noRequeue)) \<and>
        (\<forall>y e. (Update y, e) \<in> set (trace (reconcile r req) w) \<longrightarrow> e = None))"

definition missingIsQuiet ::
  "(('w, 'o) reconciler \<Rightarrow> NamespacedName \<Rightarrow> ('w, 'o call, Result) m) \<Rightarrow> bool" where
  "missingIsQuiet reconcile \<longleftrightarrow>
     (\<forall>r req w err w1. r_Get r w req = (Inl err, w1) \<longrightarrow>
        reconcile r req w =
          ((case ignoreNotFound (lib (r_env r)) err of None \<Rightarrow> Ok noRequeue | Some e \<Rightarrow> Err e),
           w1, [(Get req, Some err)]))"

context reconciler_contract
begin

lemma held:
  "finalizerLaws L \<Longrightarrow> storesWith L same r \<Longrightarrow> holdsOn reconcile metaOf statusSet same r"
  unfolding holdsOn_def storesWith_def using life_released by blast

lemma guarded: "writesGuarded reconcile metaOf"
  unfolding writesGuarded_def list_ex_iff by (metis prod.collapse writes_guarded)

lemma complete_success: "successIsComplete reconcile"
  unfolding successIsComplete_def using success_result by blast

lemma quiet_when_missing: "missingIsQuiet reconcile"
  unfolding missingIsQuiet_def using reconcile_missing by blast

end

text \<open>
  C1 - No managed object is lost: for each of the seven reconcilers, whatever passes and user edits an
  object goes through after it was created with an empty status (also passes over stale copies of it),
  every version that gets stored carries the operator's finalizer as long as its status records a
  spec. So Kubernetes cannot drop the object while the operator has something of it in a tenant.
\<close>

theorem managed_objects_keep_the_finalizer:
  assumes "finalizerLaws L"
    and "storesWith L bucketSame rb" and "storesWith L groupSame rg"
    and "storesWith L groupBindingSame rgb" and "storesWith L policySame rp"
    and "storesWith L policyBindingSame rpb" and "storesWith L userSame ru"
    and "storesWith L accessKeySame rak"
  shows "holdsOn minioBucketReconciler_Reconcile b_ObjectMeta bucketStatusSet bucketSame rb \<and>
   holdsOn minioGroupReconciler_Reconcile g_ObjectMeta groupStatusSet groupSame rg \<and>
   holdsOn minioGroupBindingReconciler_Reconcile gb_ObjectMeta groupBindingStatusSet groupBindingSame rgb \<and>
   holdsOn minioPolicyReconciler_Reconcile p_ObjectMeta policyStatusSet policySame rp \<and>
   holdsOn minioPolicyBindingReconciler_Reconcile pb_ObjectMeta policyBindingStatusSet policyBindingSame rpb \<and>
   holdsOn minioUserReconciler_Reconcile u_ObjectMeta userStatusSet userSame ru \<and>
   holdsOn minioAccessKeyReconciler_Reconcile ak_ObjectMeta accessKeyStatusSet accessKeySame rak"
  by (intro conjI bucket.held [OF assms(1,2)] group.held [OF assms(1,3)]
      group_binding.held [OF assms(1,4)] policy.held [OF assms(1,5)]
      policy_binding.held [OF assms(1,6)] user.held [OF assms(1,7)] access_key.held [OF assms(1,8)])

lemma storesWith_sample: "(\<And>y. same y y) \<Longrightarrow> storesWith sampleLib same (sampleReconciler x)"
  by (simp add: storesWith_def updateStores_sample)

theorem managed_objects_keep_the_finalizer_witness:
  "holdsOn minioBucketReconciler_Reconcile b_ObjectMeta bucketStatusSet bucketSame
     (sampleReconciler (sampleBucket None)) \<and>
   holdsOn minioAccessKeyReconciler_Reconcile ak_ObjectMeta accessKeyStatusSet accessKeySame
     (sampleReconciler (sampleAccessKey None))"
  using managed_objects_keep_the_finalizer [OF finalizerLaws_sample,
      of "sampleReconciler (sampleBucket None)" "sampleReconciler (sampleGroup None)"
      "sampleReconciler (sampleGroupBinding None)" "sampleReconciler (samplePolicy None)"
      "sampleReconciler (samplePolicyBinding None)" "sampleReconciler (sampleUser None)"
      "sampleReconciler (sampleAccessKey None)"]
  by (simp add: storesWith_sample)

text \<open>
  C2 - Writes are guarded: each of the seven reconcilers changes something in a tenant or in a secret
  only in a pass over an object that carries the finalizer already or is being deleted.
\<close>

theorem writes_only_for_held_objects:
  "writesGuarded minioBucketReconciler_Reconcile b_ObjectMeta \<and>
   writesGuarded minioGroupReconciler_Reconcile g_ObjectMeta \<and>
   writesGuarded minioGroupBindingReconciler_Reconcile gb_ObjectMeta \<and>
   writesGuarded minioPolicyReconciler_Reconcile p_ObjectMeta \<and>
   writesGuarded minioPolicyBindingReconciler_Reconcile pb_ObjectMeta \<and>
   writesGuarded minioUserReconciler_Reconcile u_ObjectMeta \<and>
   writesGuarded minioAccessKeyReconciler_Reconcile ak_ObjectMeta"
  by (intro conjI bucket.guarded group.guarded group_binding.guarded policy.guarded
      policy_binding.guarded user.guarded access_key.guarded)

text \<open>
  C27 - Success means done: when one of the seven reconcilers returns without an error, every update of
  its object in that pass was accepted by the API server, and the object is looked at again after the
  sync interval, unless it does not exist any more.
\<close>

theorem success_is_complete:
  "successIsComplete minioBucketReconciler_Reconcile \<and>
   successIsComplete minioGroupReconciler_Reconcile \<and>
   successIsComplete minioGroupBindingReconciler_Reconcile \<and>
   successIsComplete minioPolicyReconciler_Reconcile \<and>
   successIsComplete minioPolicyBindingReconciler_Reconcile \<and>
   successIsComplete minioUserReconciler_Reconcile \<and>
   successIsComplete minioAccessKeyReconciler_Reconcile"
  by (intro conjI bucket.complete_success group.complete_success group_binding.complete_success
      policy.complete_success policy_binding.complete_success user.complete_success
      access_key.complete_success)

text \<open>
  An object that cannot be fetched is left alone: the pass of each of the seven reconcilers ends
  after that one call, without an error and without another appointment when the object does not
  exist, and with the API server's error otherwise.
\<close>

theorem missing_objects_are_quiet:
  "missingIsQuiet minioBucketReconciler_Reconcile \<and>
   missingIsQuiet minioGroupReconciler_Reconcile \<and>
   missingIsQuiet minioGroupBindingReconciler_Reconcile \<and>
   missingIsQuiet minioPolicyReconciler_Reconcile \<and>
   missingIsQuiet minioPolicyBindingReconciler_Reconcile \<and>
   missingIsQuiet minioUserReconciler_Reconcile \<and>
   missingIsQuiet minioAccessKeyReconciler_Reconcile"
  by (intro conjI bucket.quiet_when_missing group.quiet_when_missing group_binding.quiet_when_missing
      policy.quiet_when_missing policy_binding.quiet_when_missing user.quiet_when_missing
      access_key.quiet_when_missing)

end
